(* ===== verification/Prelude.thy ===== *)
theory Prelude
  imports Main "HOL-Library.Word" "HOL-Library.Sublist"
begin

text \<open>
  The shared layer of the development: the error type of the crate, the result combinators, the
  parts of the Rust standard library the sources use (string slices, \<open>Path\<close>, saturating
  arithmetic) and the two SQL string functions the index service puts into its statements.

  A Rust \<open>str\<close> is a list of UTF-8 bytes and so is a HOL \<open>string\<close>; every operation below that looks
  at ASCII separators is exact on bytes, and the ones that look at characters (\<open>is_control\<close>, \<open>trim\<close>)
  spell out the byte sequences they mean. \<open>u64\<close> is a 64-bit word, \<open>i64\<close> an \<open>int\<close> whose saturation is
  written out. A \<open>Result\<close> is a sum with the error on the left.
\<close>

named_theorems path_simps \<open>equations of the path operations\<close>
named_theorems row_simps \<open>equations of the table operations\<close>
named_theorems wc_simps \<open>equations of the cache operations\<close>

section \<open>Errors and results\<close>

text \<open>\<open>VfsError\<close> of \<open>vfs/error.rs\<close>; an OpenDAL error is its kind and its text.\<close>

datatype dal_kind = DalNotFound | DalUnexpected | DalOther
datatype io_kind = IoNotFound | IoInvalidInput | IoOther

datatype vfs_error =
    OpenDal dal_kind string
  | Database string
  | Internal string
  | NotFound string
  | PermissionDenied string
  | QuotaExceeded
  | MaintenanceMode
  | IoError io_kind string

definition vfs_error_of_dal :: "dal_kind \<Rightarrow> string \<Rightarrow> vfs_error" where
  "vfs_error_of_dal k msg = (if k = DalNotFound then NotFound msg else OpenDal k msg)"

fun res_bind :: "'e + 'a \<Rightarrow> ('a \<Rightarrow> 'e + 'b) \<Rightarrow> 'e + 'b" where
  "res_bind (Inl e) f = Inl e"
| "res_bind (Inr x) f = f x"

lemma res_bind_Inr_iff [simp]:
  "res_bind m f = Inr y \<longleftrightarrow> (\<exists>x. m = Inr x \<and> f x = Inr y)"
  by (cases m) auto

text \<open>Stateful calls return their outcome with the new state, also when they fail.\<close>

type_synonym ('s, 'e, 'a) call = "'s \<Rightarrow> ('e + 'a) \<times> 's"

definition st_bind :: "('s, 'e, 'a) call \<Rightarrow> ('a \<Rightarrow> ('s, 'e, 'b) call) \<Rightarrow> ('s, 'e, 'b) call" where
  "st_bind m f s = (case m s of (Inl e, s') \<Rightarrow> (Inl e, s') | (Inr x, s') \<Rightarrow> f x s')"

lemma st_bind_simps [simp]:
  "m s = (Inl e, s') \<Longrightarrow> st_bind m f s = (Inl e, s')"
  "m s = (Inr x, s') \<Longrightarrow> st_bind m f s = f x s'"
  by (simp_all add: st_bind_def)

section \<open>Machine integers\<close>

type_synonym u64 = "64 word"

definition sat_add_u64 :: "u64 \<Rightarrow> u64 \<Rightarrow> u64" where
  "sat_add_u64 a b = (if unat a + unat b < 2 ^ 64 then a + b else - 1)"

definition sat_sub_u64 :: "u64 \<Rightarrow> u64 \<Rightarrow> u64" where
  "sat_sub_u64 a b = (if a < b then 0 else a - b)"

definition clamp_i64 :: "int \<Rightarrow> int" where
  "clamp_i64 x = max (- (2 ^ 63)) (min (2 ^ 63 - 1) x)"

definition sat_add_i64 :: "int \<Rightarrow> int \<Rightarrow> int" where
  "sat_add_i64 a b = clamp_i64 (a + b)"

definition sat_mul_i64 :: "int \<Rightarrow> int \<Rightarrow> int" where
  "sat_mul_i64 a b = clamp_i64 (a * b)"

definition sat_sub_i64 :: "int \<Rightarrow> int \<Rightarrow> int" where
  "sat_sub_i64 a b = clamp_i64 (a - b)"

definition is_i64 :: "int \<Rightarrow> bool" where
  "is_i64 x \<longleftrightarrow> - (2 ^ 63) \<le> x \<and> x < 2 ^ 63"

text \<open>The wrapping operators of a release build.\<close>

definition wrap_i64 :: "int \<Rightarrow> int" where
  "wrap_i64 x = sint (word_of_int x :: u64)"

lemma wrap_i64_id: "is_i64 x \<Longrightarrow> wrap_i64 x = x"
  by (simp add: wrap_i64_def is_i64_def signed_take_bit_int_eq_self_iff sint_sbintrunc' flip: signed_take_bit_eq_if_positive)

lemma clamp_i64_id [simp]: "is_i64 x \<Longrightarrow> clamp_i64 x = x"
  by (simp add: clamp_i64_def is_i64_def)

lemma is_i64_clamp [simp]: "is_i64 (clamp_i64 x)"
  by (simp add: clamp_i64_def is_i64_def max_def min_def)

lemma unat_u64_less: "unat (w :: u64) < 2 ^ 64"
  using unsigned_less[where 'a = nat and w = w] by simp

lemma sat_add_u64_zero [simp]: "sat_add_u64 0 w = w"
  using unat_u64_less[of w] by (simp add: sat_add_u64_def)

lemma unat_sat_add_u64: "unat (sat_add_u64 a b) = min (unat a + unat b) (2 ^ 64 - 1)"
proof (cases "unat a + unat b < 2 ^ 64")
  case True
  then show ?thesis by (simp add: sat_add_u64_def unat_word_ariths)
next
  case False
  moreover have "unat (- 1 :: u64) = 2 ^ 64 - 1"
    by (simp add: unsigned_minus_1_eq_mask mask_eq_exp_minus_1)
  ultimately show ?thesis by (simp add: sat_add_u64_def)
qed

lemma unat_sat_sub_u64: "unat (sat_sub_u64 a b) = unat a - unat b"
  by (simp add: sat_sub_u64_def word_less_nat_alt unat_sub_if')

section \<open>String slices\<close>

abbreviation slash :: char where "slash \<equiv> CHR ''/''"
abbreviation backslash :: char where "backslash \<equiv> CHR 0x5C"
abbreviation dot :: char where "dot \<equiv> CHR ''.''"

text \<open>A text between single quotes, as the error messages show paths.\<close>

abbreviation quoted :: "string \<Rightarrow> string" where "quoted s \<equiv> CHR 0x27 # s @ [CHR 0x27]"

abbreviation starts_with :: "string \<Rightarrow> string \<Rightarrow> bool" where
  "starts_with s p \<equiv> prefix p s"

abbreviation ends_with :: "string \<Rightarrow> string \<Rightarrow> bool" where
  "ends_with s p \<equiv> suffix p s"

abbreviation contains :: "string \<Rightarrow> string \<Rightarrow> bool" where
  "contains s p \<equiv> sublist p s"

fun split_on :: "char \<Rightarrow> string \<Rightarrow> string list" where
  "split_on c [] = [[]]"
| "split_on c (x # xs) =
     (if x = c then [] # split_on c xs
      else (case split_on c xs of [] \<Rightarrow> [[x]] | h # t \<Rightarrow> (x # h) # t))"

fun join_with :: "char \<Rightarrow> string list \<Rightarrow> string" where
  "join_with c [] = []"
| "join_with c [x] = x"
| "join_with c (x # y # ys) = x @ c # join_with c (y # ys)"

definition trim_start_matches :: "char \<Rightarrow> string \<Rightarrow> string" where
  "trim_start_matches c s = dropWhile (\<lambda>x. x = c) s"

definition trim_end_matches :: "char \<Rightarrow> string \<Rightarrow> string" where
  "trim_end_matches c s = rev (dropWhile (\<lambda>x. x = c) (rev s))"

definition trim_matches :: "char \<Rightarrow> string \<Rightarrow> string" where
  "trim_matches c s = trim_end_matches c (trim_start_matches c s)"

definition strip_prefix :: "string \<Rightarrow> string \<Rightarrow> string option" where
  "strip_prefix p s = (if prefix p s then Some (drop (length p) s) else None)"

definition strip_suffix :: "string \<Rightarrow> string \<Rightarrow> string option" where
  "strip_suffix p s = (if suffix p s then Some (take (length s - length p) s) else None)"

definition rsplit_once :: "char \<Rightarrow> string \<Rightarrow> (string \<times> string) option" where
  "rsplit_once c s =
     (case dropWhile (\<lambda>x. x \<noteq> c) (rev s) of
        [] \<Rightarrow> None
      | _ # b \<Rightarrow> Some (rev b, rev (takeWhile (\<lambda>x. x \<noteq> c) (rev s))))"

definition replace_char :: "char \<Rightarrow> char \<Rightarrow> string \<Rightarrow> string" where
  "replace_char c d s = map (\<lambda>x. if x = c then d else x) s"

definition lower_char :: "char \<Rightarrow> char" where
  "lower_char c =
     (let n = (of_char c :: nat) in if 65 \<le> n \<and> n \<le> 90 then char_of (n + 32) else c)"

definition to_ascii_lowercase :: "string \<Rightarrow> string" where
  "to_ascii_lowercase s = map lower_char s"

text \<open>\<open>char::is_control\<close>: U+0000-U+001F, U+007F and, as two bytes, U+0080-U+009F.\<close>

fun has_control :: "string \<Rightarrow> bool" where
  "has_control [] = False"
| "has_control (c # cs) =
     ((of_char c :: nat) < 32 \<or> (of_char c :: nat) = 127 \<or>
      ((of_char c :: nat) = 194 \<and>
        (case cs of [] \<Rightarrow> False | d # _ \<Rightarrow> 128 \<le> (of_char d :: nat) \<and> (of_char d :: nat) < 160)) \<or>
      has_control cs)"

text \<open>\<open>char::is_whitespace\<close> (Unicode \<open>White_Space\<close>) as the UTF-8 sequences it stands for.\<close>

definition ws_seqs :: "string list" where
  "ws_seqs =
     map (\<lambda>n. [char_of (n :: nat)]) [9, 10, 11, 12, 13, 32] @
     map (map char_of) ([[194, 133], [194, 160], [225, 154, 128]] @
       map (\<lambda>n. [226, 128, n]) [128, 129, 130, 131, 132, 133, 134, 135, 136, 137, 138, 168, 169, 175] @
       [[226, 129, 159], [227, 128, 128 :: nat]])"

function trim_ws :: "string list \<Rightarrow> string \<Rightarrow> string" where
  "trim_ws ws s =
     (case find (\<lambda>w. w \<noteq> [] \<and> prefix w s) ws of
        None \<Rightarrow> s
      | Some w \<Rightarrow> trim_ws ws (drop (length w) s))"
  by pat_completeness auto
termination
proof (relation "measure (\<lambda>(ws, s). length s)", goal_cases)
  case 1
  show ?case by simp
next
  case (2 ws s w)
  then have "w \<noteq> []" and "prefix w s"
    by (auto simp: find_Some_iff)
  then have "0 < length w" and "length w \<le> length s"
    by (auto dest: prefix_length_le)
  then have "length s - length w < length s" by linarith
  then show ?case by simp
qed

declare trim_ws.simps [simp del]

definition rust_trim :: "string \<Rightarrow> string" where
  "rust_trim s = rev (trim_ws (map rev ws_seqs) (rev (trim_ws ws_seqs s)))"

subsection \<open>Splitting and joining\<close>

lemma split_on_not_Nil [simp]: "split_on c s \<noteq> []"
  by (induction s) (auto split: list.splits)

lemma split_on_sep: "x \<in> set (split_on c s) \<Longrightarrow> c \<notin> set x"
  by (induction s arbitrary: x) (auto split: list.splits if_splits)

lemma split_on_set: "x \<in> set (split_on c s) \<Longrightarrow> set x \<subseteq> set s"
  by (induction s arbitrary: x) (fastforce split: list.splits if_splits)+

lemma join_with_Cons: "xs \<noteq> [] \<Longrightarrow> join_with c (x # xs) = x @ c # join_with c xs"
  by (cases xs) auto

lemma join_split [simp]: "join_with c (split_on c s) = s"
proof (induction s)
  case Nil
  show ?case by simp
next
  case (Cons a s)
  show ?case
  proof (cases "a = c")
    case True
    with Cons show ?thesis by (simp add: join_with_Cons)
  next
    case False
    obtain h t where ht: "split_on c s = h # t"
      by (cases "split_on c s") auto
    with Cons False show ?thesis by (cases t) auto
  qed
qed

lemma split_on_free: "c \<notin> set s \<Longrightarrow> split_on c s = [s]"
  by (induction s) auto

lemma split_on_append: "split_on c (a @ c # b) = split_on c a @ split_on c b"
proof (induction a)
  case Nil
  show ?case by simp
next
  case (Cons x a)
  then show ?case
    by (cases "split_on c a") (auto split: list.splits)
qed

lemma split_join:
  "segs \<noteq> [] \<Longrightarrow> (\<And>x. x \<in> set segs \<Longrightarrow> c \<notin> set x) \<Longrightarrow> split_on c (join_with c segs) = segs"
proof (induction segs rule: join_with.induct)
  case (3 c x y ys)
  then show ?case by (simp add: split_on_append split_on_free)
qed (simp_all add: split_on_free)

lemma join_with_append:
  "xs \<noteq> [] \<Longrightarrow> ys \<noteq> [] \<Longrightarrow> join_with c (xs @ ys) = join_with c xs @ c # join_with c ys"
  by (induction c xs rule: join_with.induct) (auto simp: join_with_Cons)

lemma split_on_singleton_iff: "split_on c s = [x] \<longleftrightarrow> c \<notin> set s \<and> x = s"
proof
  assume *: "split_on c s = [x]"
  then have "join_with c [x] = s" by (metis join_split)
  then have "x = s" by simp
  moreover have "c \<notin> set x" using * split_on_sep[of x c s] by simp
  ultimately show "c \<notin> set s \<and> x = s" by simp
qed (simp add: split_on_free)

subsection \<open>Trimming\<close>

lemma trim_start_matches_simps [path_simps]:
  "trim_start_matches c [] = []"
  "trim_start_matches c (x # xs) = (if x = c then trim_start_matches c xs else x # xs)"
  by (simp_all add: trim_start_matches_def)

lemma trim_end_matches_snoc [path_simps]:
  "trim_end_matches c [] = []"
  "trim_end_matches c (xs @ [x]) = (if x = c then trim_end_matches c xs else xs @ [x])"
  by (simp_all add: trim_end_matches_def)

lemma trim_end_matches_id: "s = [] \<or> last s \<noteq> c \<Longrightarrow> trim_end_matches c s = s"
  by (cases s rule: rev_cases) (auto simp: trim_end_matches_snoc)

lemma trim_start_matches_id: "s = [] \<or> hd s \<noteq> c \<Longrightarrow> trim_start_matches c s = s"
  by (cases s) (auto simp: trim_start_matches_simps)

lemma trim_end_matches_last: "trim_end_matches c s \<noteq> [] \<Longrightarrow> last (trim_end_matches c s) \<noteq> c"
  by (induction s rule: rev_induct) (auto simp: trim_end_matches_snoc)

lemma trim_end_matches_prefix: "prefix (trim_end_matches c s) s"
  by (induction s rule: rev_induct) (auto simp: trim_end_matches_snoc prefix_append)

lemma trim_end_matches_set: "set (trim_end_matches c s) \<subseteq> set s"
  using set_mono_prefix[OF trim_end_matches_prefix] .

lemma trim_end_matches_decomp:
  "\<exists>n. s = trim_end_matches c s @ replicate n c"
proof (induction s rule: rev_induct)
  case Nil
  show ?case by (simp add: trim_end_matches_snoc)
next
  case (snoc x xs)
  then obtain n where n: "xs = trim_end_matches c xs @ replicate n c" by blast
  show ?case
  proof (cases "x = c")
    case True
    have "xs @ [x] = trim_end_matches c xs @ replicate (Suc n) c"
      using n True by (metis append.assoc replicate_append_same replicate_Suc)
    then have "xs @ [x] = trim_end_matches c (xs @ [x]) @ replicate (Suc n) c"
      using True trim_end_matches_snoc(2)[of c xs x] by simp
    then show ?thesis by blast
  next
    case False
    then show ?thesis by (auto simp: trim_end_matches_snoc intro: exI[of _ 0])
  qed
qed

lemma trim_end_matches_idem [simp]:
  "trim_end_matches c (trim_end_matches c s) = trim_end_matches c s"
  by (rule trim_end_matches_id) (metis trim_end_matches_last)

lemma trim_end_append_free:
  "b \<noteq> [] \<Longrightarrow> last b \<noteq> c \<Longrightarrow> trim_end_matches c (a @ b) = a @ b"
  by (rule trim_end_matches_id) simp

lemma rsplit_once_append:
  assumes "c \<notin> set b"
  shows "rsplit_once c (a @ c # b) = Some (a, b)"
proof -
  have free: "\<And>x. x \<in> set (rev b) \<Longrightarrow> x \<noteq> c" using assms by auto
  then have "dropWhile (\<lambda>x. x \<noteq> c) (rev b @ c # rev a) = c # rev a"
    by (subst dropWhile_append2) auto
  moreover have "takeWhile (\<lambda>x. x \<noteq> c) (rev b @ c # rev a) = rev b"
    using free by (subst takeWhile_append2) auto
  ultimately show ?thesis by (simp add: rsplit_once_def)
qed

lemma rsplit_once_None: "rsplit_once c s = None \<longleftrightarrow> c \<notin> set s"
proof -
  have "dropWhile (\<lambda>x. x \<noteq> c) (rev s) = [] \<longleftrightarrow> c \<notin> set s"
    by (auto simp: dropWhile_eq_Nil_conv)
  moreover have "rsplit_once c s = None \<longleftrightarrow> dropWhile (\<lambda>x. x \<noteq> c) (rev s) = []"
    by (simp add: rsplit_once_def del: dropWhile_eq_Nil_conv split: list.split)
  ultimately show ?thesis by simp
qed

lemma rsplit_once_Some:
  "rsplit_once c s = Some (a, b) \<Longrightarrow> s = a @ c # b \<and> c \<notin> set b"
proof -
  assume *: "rsplit_once c s = Some (a, b)"
  then have "c \<in> set s" using rsplit_once_None[of c s] by fastforce
  then obtain a' b' where ab: "s = a' @ c # b'" "c \<notin> set b'"
    by (metis split_list_last)
  with * rsplit_once_append[of c b' a'] show ?thesis by simp
qed

lemma strip_prefix_append [simp]: "strip_prefix p (p @ s) = Some s"
  by (simp add: strip_prefix_def)

lemma strip_prefix_Some: "strip_prefix p s = Some r \<longleftrightarrow> s = p @ r"
  by (auto simp: strip_prefix_def prefix_def)

lemma strip_prefix_None: "strip_prefix p s = None \<longleftrightarrow> \<not> prefix p s"
  by (simp add: strip_prefix_def)

subsection \<open>Case folding\<close>

lemma of_char_less_256: "(of_char c :: nat) < 256"
  by (rule nat_of_char_less_256)

lemma lower_char_idem [simp]: "lower_char (lower_char c) = lower_char c"
proof -
  have "(of_char c :: nat) < 256" by (rule of_char_less_256)
  then show ?thesis by (auto simp: lower_char_def Let_def of_char_of)
qed

lemma lower_char_fixed:
  assumes "(of_char d :: nat) < 97" "\<not> (65 \<le> (of_char d :: nat) \<and> (of_char d :: nat) \<le> 90)"
  shows "lower_char c = d \<longleftrightarrow> c = d"
proof (cases "65 \<le> (of_char c :: nat) \<and> (of_char c :: nat) \<le> 90")
  case True
  then have "(of_char (lower_char c) :: nat) = of_char c + 32" by (simp add: lower_char_def Let_def of_char_of)
  then have "(of_char (lower_char c) :: nat) \<noteq> of_char d" using True assms(1) by simp
  moreover have "c \<noteq> d" using True assms(2) by auto
  ultimately show ?thesis by auto
qed (auto simp: lower_char_def Let_def)

lemma lower_char_marks [simp]:
  "lower_char c = slash \<longleftrightarrow> c = slash" "lower_char c = CHR ''%'' \<longleftrightarrow> c = CHR ''%''"
  "lower_char c = CHR ''_'' \<longleftrightarrow> c = CHR ''_''"
  by (rule lower_char_fixed; simp)+

lemma to_ascii_lowercase_idem [simp]:
  "to_ascii_lowercase (to_ascii_lowercase s) = to_ascii_lowercase s"
  by (simp add: to_ascii_lowercase_def)

lemma length_to_ascii_lowercase [simp]: "length (to_ascii_lowercase s) = length s"
  by (simp add: to_ascii_lowercase_def)

subsection \<open>Trimming white space\<close>

lemma trim_ws_suffix: "suffix (trim_ws ws s) s"
proof (induction ws s rule: trim_ws.induct)
  case (1 ws s)
  show ?case
  proof (cases "find (\<lambda>w. w \<noteq> [] \<and> prefix w s) ws")
    case None
    then show ?thesis by (subst trim_ws.simps) simp
  next
    case (Some w)
    with 1 have "suffix (trim_ws ws (drop (length w) s)) (drop (length w) s)" by simp
    then have "suffix (trim_ws ws (drop (length w) s)) s"
      using suffix_drop suffix_order.trans by blast
    then show ?thesis using Some by (subst trim_ws.simps) simp
  qed
qed

lemma trim_ws_stop: "find (\<lambda>w. w \<noteq> [] \<and> prefix w (trim_ws ws s)) ws = None"
proof (induction ws s rule: trim_ws.induct)
  case (1 ws s)
  show ?case
  proof (cases "find (\<lambda>w. w \<noteq> [] \<and> prefix w s) ws")
    case None
    then show ?thesis by (simp add: trim_ws.simps[of ws s])
  next
    case (Some w)
    then show ?thesis using 1 by (simp add: trim_ws.simps[of ws s])
  qed
qed

lemma trim_ws_id: "find (\<lambda>w. w \<noteq> [] \<and> prefix w s) ws = None \<Longrightarrow> trim_ws ws s = s"
  by (simp add: trim_ws.simps[of ws s])

lemma trim_ws_prefix_id:
  assumes "prefix r (trim_ws ws s)"
  shows "trim_ws ws r = r"
proof (rule trim_ws_id)
  show "find (\<lambda>w. w \<noteq> [] \<and> prefix w r) ws = None"
    using trim_ws_stop[of ws s] assms by (auto simp: find_None_iff dest: prefix_order.trans)
qed

lemma rust_trim_prefix: "prefix (rust_trim s) (trim_ws ws_seqs s)"
  using trim_ws_suffix[of "map rev ws_seqs" "rev (trim_ws ws_seqs s)"]
  by (simp add: rust_trim_def suffix_to_prefix)

lemma rust_trim_idem [simp]: "rust_trim (rust_trim s) = rust_trim s"
proof -
  let ?t = "trim_ws ws_seqs s"
  have start: "trim_ws ws_seqs (rust_trim s) = rust_trim s"
    using rust_trim_prefix by (rule trim_ws_prefix_id)
  have "trim_ws (map rev ws_seqs) (rev (rust_trim s)) = rev (rust_trim s)"
    unfolding rust_trim_def rev_rev_ident
    by (rule trim_ws_prefix_id[where s = "rev (trim_ws ws_seqs s)"]) simp
  then show ?thesis
    unfolding rust_trim_def[of "rust_trim s"] start by simp
qed

lemma rust_trim_set: "set (rust_trim s) \<subseteq> set s"
  using set_mono_prefix[OF rust_trim_prefix] set_mono_suffix[OF trim_ws_suffix] by blast

lemma rust_trim_Nil [simp]: "rust_trim [] = []"
  by (simp add: rust_trim_def trim_ws.simps ws_seqs_def)

lemma rust_trim_id:
  assumes "\<And>w. w \<in> set ws_seqs \<Longrightarrow> \<not> prefix w s \<and> \<not> suffix w s"
  shows "rust_trim s = s"
proof -
  have "trim_ws ws_seqs s = s"
    using assms by (intro trim_ws_id) (auto simp: find_None_iff)
  moreover have "trim_ws (map rev ws_seqs) (rev s) = rev s"
    using assms by (intro trim_ws_id) (auto simp: find_None_iff suffix_to_prefix)
  ultimately show ?thesis by (simp add: rust_trim_def)
qed

lemma rust_trim_no_suffix:
  assumes "rust_trim s = s" "w \<in> set ws_seqs" "w \<noteq> []"
  shows "\<not> suffix w s"
proof
  assume "suffix w s"
  then have "prefix (rev w) (rev (rust_trim s))" using assms(1) by (simp add: suffix_to_prefix)
  moreover have "find (\<lambda>v. v \<noteq> [] \<and> prefix v (rev (rust_trim s))) (map rev ws_seqs) = None"
    unfolding rust_trim_def rev_rev_ident by (rule trim_ws_stop)
  ultimately show False using assms(2,3) by (auto simp: find_None_iff)
qed

lemma ws_seqs_shape: "w \<in> set ws_seqs \<Longrightarrow> w \<noteq> [] \<and> slash \<notin> set w"
proof -
  have "list_all (\<lambda>w. w \<noteq> [] \<and> slash \<notin> set w) ws_seqs" by code_simp
  then show "w \<in> set ws_seqs \<Longrightarrow> w \<noteq> [] \<and> slash \<notin> set w" by (simp add: list_all_iff)
qed

text \<open>A string that starts and ends with a printable ASCII character is its own trim.\<close>

definition plain_char :: "char \<Rightarrow> bool" where
  "plain_char c \<longleftrightarrow> 33 \<le> (of_char c :: nat) \<and> (of_char c :: nat) < 127"

lemma rust_trim_plain:
  assumes "s \<noteq> []" "plain_char (hd s)" "plain_char (last s)"
  shows "rust_trim s = s"
proof (rule rust_trim_id)
  have "list_all (\<lambda>w. w \<noteq> [] \<and> \<not> plain_char (hd w) \<and> \<not> plain_char (last w)) ws_seqs"
    by (simp add: ws_seqs_def plain_char_def)
  moreover fix w assume "w \<in> set ws_seqs"
  ultimately have w: "w \<noteq> []" "\<not> plain_char (hd w)" "\<not> plain_char (last w)"
    by (auto simp: list_all_iff)
  then have "hd w \<noteq> hd s" "last w \<noteq> last s" using assms by auto
  then show "\<not> prefix w s \<and> \<not> suffix w s"
    using w(1) assms(1) by (auto simp: prefix_def suffix_def)
qed

section \<open>\<open>std::path::Path\<close>\<close>

text \<open>
  \<open>Path::parent\<close> and \<open>Path::file_name\<close> on Unix: a path is read by components, where empty components
  and \<open>.\<close> components after the first are skipped, and the parent is the slice that ends with the
  last but one component.
\<close>

definition path_trim :: "string list \<Rightarrow> string list" where
  "path_trim segs = take 1 segs @ rev (dropWhile (\<lambda>x. x = [] \<or> x = ''.'') (rev (drop 1 segs)))"

definition path_parent :: "string \<Rightarrow> string option" where
  "path_parent s =
     (let segs = path_trim (split_on slash s) in
      if s = [] then None
      else if length segs \<le> 1 then (if prefix ''/'' s then None else Some [])
      else (let p = path_trim (butlast segs) in
            if p = [[]] then Some ''/'' else Some (join_with slash p)))"

definition path_file_name :: "string \<Rightarrow> string option" where
  "path_file_name s =
     (let segs = path_trim (split_on slash s) in
      if length segs \<le> 1 \<and> (s = [] \<or> prefix ''/'' s \<or> segs = [''.'']) then None
      else if last segs = ''..'' then None
      else Some (last segs))"

section \<open>SQL string functions\<close>

text \<open>
  The database is SQLite. \<open>x LIKE p\<close>: \<open>%\<close> stands for any string, \<open>_\<close> for one character, which in UTF-8 is one
  byte with the continuation bytes after it, any other character for itself and, when it is an ASCII letter, for
  the same letter in the other case; there is no escape character. \<open>REPLACE(s, p, r)\<close> replaces every occurrence
  of \<open>p\<close>, left to right, and tells the cases apart.
\<close>

definition is_cont_byte :: "char \<Rightarrow> bool" where
  "is_cont_byte c \<longleftrightarrow> 128 \<le> (of_char c :: nat) \<and> (of_char c :: nat) < 192"

function sql_like :: "string \<Rightarrow> string \<Rightarrow> bool" where
  "sql_like [] s = (s = [])"
| "sql_like (p # ps) [] = (p = CHR ''%'' \<and> sql_like ps [])"
| "sql_like (p # ps) (c # cs) =
     (if p = CHR ''%'' then sql_like ps (c # cs) \<or> sql_like (p # ps) cs
      else if p = CHR ''_'' then sql_like ps (dropWhile is_cont_byte cs)
      else lower_char p = lower_char c \<and> sql_like ps cs)"
  by pat_completeness auto
termination
proof (relation "measure (\<lambda>(p, s). length p + length s)", goal_cases)
  case (5 p ps c cs)
  have "length (dropWhile is_cont_byte cs) \<le> length cs" by (rule length_dropWhile_le)
  then show ?case by simp
qed auto

function sql_replace :: "string \<Rightarrow> string \<Rightarrow> string \<Rightarrow> string" where
  "sql_replace p r s =
     (if p = [] then s
      else (case s of [] \<Rightarrow> []
            | c # cs \<Rightarrow> (if prefix p s then r @ sql_replace p r (drop (length p) s)
                         else c # sql_replace p r cs)))"
  by pat_completeness auto
termination
  by (relation "measure (\<lambda>(p, r, s). length s)") auto

declare sql_replace.simps [simp del]

text \<open>A pattern without wildcards followed by \<open>%\<close> is a prefix test that ignores case.\<close>

definition like_free :: "string \<Rightarrow> bool" where
  "like_free p \<longleftrightarrow> CHR ''%'' \<notin> set p \<and> CHR ''_'' \<notin> set p"

lemma sql_like_percent: "sql_like ''%'' s"
  by (induction s) auto

lemma sql_like_prefix:
  "like_free p \<Longrightarrow> sql_like (p @ ''%'') s \<longleftrightarrow> prefix (to_ascii_lowercase p) (to_ascii_lowercase s)"
proof (induction p arbitrary: s)
  case Nil
  show ?case by (simp add: sql_like_percent to_ascii_lowercase_def)
next
  case (Cons a p)
  then show ?case by (cases s) (auto simp: like_free_def to_ascii_lowercase_def)
qed

lemma lowercase_prefix: "prefix p s \<Longrightarrow> prefix (to_ascii_lowercase p) (to_ascii_lowercase s)"
  by (auto simp: prefix_def to_ascii_lowercase_def)

end
