(* ===== verification/Paths.thy ===== *)
theory Paths
  imports Prelude
begin

text \<open>
  Logical and physical paths of the scoped engine (\<open>vfs/scoped/internal.rs\<close>, \<open>vfs/scoped/write.rs\<close>):
  validation of a client path, its mapping below the user's directory, the mapping back, and the
  classification of a path (temp, thumbnail cache, protected storage, recycle bin). The contract that
  the layers above rely on, that users cannot leave their directory and never collide, is the locale
  \<open>tenant_namespace\<close>; the engine's own functions interpret it.

  Percent-decoding is a crate outside the repository and a parameter: \<open>pct p\<close> is the decoded text, or
  \<open>None\<close> when the decoded bytes are not UTF-8.
\<close>

record vfs_file_info =
  fi_name :: string
  fi_path :: string
  fi_is_dir :: bool
  fi_size :: u64
  fi_modified :: "int option"
  fi_favorite_color :: int
  fi_has_active_share :: "bool option"
  fi_has_active_direct :: "bool option"
  fi_trashed_at :: "int option"
  fi_original_path :: "string option"

section \<open>Validation\<close>

definition good_seg :: "string \<Rightarrow> bool" where
  "good_seg s \<longleftrightarrow> s \<noteq> [] \<and> s \<noteq> ''.'' \<and> s \<noteq> ''..''"

fun validate_segs :: "bool \<Rightarrow> nat \<Rightarrow> string \<Rightarrow> string list \<Rightarrow> vfs_error + unit" where
  "validate_segs ends_slash idx p [] = Inr ()"
| "validate_segs ends_slash idx p (seg # rest) =
     (let is_last = (rest = []) in
      if seg = [] then
        (if idx = 0 \<or> (ends_slash \<and> is_last) then validate_segs ends_slash (Suc idx) p rest
         else Inl (Internal (''Security violation: empty path segment in '' @ quoted p)))
      else if seg = ''.'' \<or> seg = ''..'' then
        Inl (Internal (''Security violation: dot segment detected in '' @ quoted p))
      else validate_segs ends_slash (Suc idx) p rest)"

definition validate_segments :: "string \<Rightarrow> vfs_error + unit" where
  "validate_segments p =
     (if \<not> starts_with p ''/'' then
        Inl (Internal ''Security violation: path must be absolute'')
      else if p = ''/'' then Inr ()
      else validate_segs (ends_with p ''/'' \<and> length p > 1) 0 p (split_on slash p))"

definition validate_file_operation_impl ::
  "(string \<Rightarrow> string option) \<Rightarrow> string \<Rightarrow> vfs_error + string" where
  "validate_file_operation_impl pct path =
     (let normalized = (if starts_with path ''/'' then path else slash # path) in
      if has_control normalized then
        Inl (Internal ''Security violation: control characters in path'')
      else
        (let normalized = replace_char backslash slash normalized in
         res_bind (validate_segments normalized) (\<lambda>_.
         res_bind
           (if CHR ''%'' \<in> set normalized then
              (case pct normalized of
                 None \<Rightarrow> Inl (Internal ''Security violation: invalid percent encoding in path'')
               | Some decoded \<Rightarrow> validate_segments decoded)
            else Inr ()) (\<lambda>_.
         Inr (if normalized = ''/'' then normalized else trim_end_matches slash normalized)))))"

text \<open>What an accepted path looks like: absolute, no empty, \<open>.\<close> or \<open>..\<close> segment, no trailing slash.\<close>

fun clean_path :: "string \<Rightarrow> bool" where
  "clean_path [] = False"
| "clean_path (c # q) = (c = slash \<and> (q = [] \<or> list_all good_seg (split_on slash q)))"

section \<open>Physical paths\<close>

definition get_physical_path ::
  "(string \<Rightarrow> string option) \<Rightarrow> string \<Rightarrow> string \<Rightarrow> vfs_error + string" where
  "get_physical_path pct uid logical_path =
     res_bind (validate_file_operation_impl pct logical_path) (\<lambda>validated.
     Inr (uid @ ''/'' @ trim_start_matches slash validated))"

text \<open>The same mapping without validation, as WAL recovery applies it to logged paths.\<close>

definition to_physical_user_path :: "string \<Rightarrow> string \<Rightarrow> string" where
  "to_physical_user_path uid logical_path = uid @ ''/'' @ trim_start_matches slash logical_path"

fun find_sub :: "string \<Rightarrow> string \<Rightarrow> nat option" where
  "find_sub p [] = (if p = [] then Some 0 else None)"
| "find_sub p (c # cs) = (if prefix p (c # cs) then Some 0 else map_option Suc (find_sub p cs))"

definition LOGICAL_TEMP_PREFIX :: string where
  "LOGICAL_TEMP_PREFIX = ''/.virtual/tmp''"

definition translate_path :: "string \<Rightarrow> bool \<Rightarrow> string \<Rightarrow> string" where
  "translate_path uid is_temp raw =
     (let rooted = (\<lambda>l. slash # trim_end_matches slash (trim_start_matches slash l)) in
      if is_temp then LOGICAL_TEMP_PREFIX @ raw
      else
        (let np = (if backslash \<in> set raw then replace_char backslash slash raw else raw) in
         case strip_prefix (uid @ ''/'') np of
           Some logical \<Rightarrow> rooted logical
         | None \<Rightarrow>
             (if np = uid \<or> np = uid @ ''/'' \<or> np = ''.'' \<or> np = ''./'' then ''/''
              else
                (let pat = ''/'' @ uid @ ''/'' in
                 case find_sub pat np of
                   Some pos \<Rightarrow> rooted (drop (pos + length pat) np)
                 | None \<Rightarrow> rooted np))))"

definition translate_file_info :: "string \<Rightarrow> vfs_file_info \<Rightarrow> bool \<Rightarrow> vfs_file_info" where
  "translate_file_info uid info is_temp =
     info\<lparr>fi_path := translate_path uid is_temp (fi_path info)\<rparr>"

section \<open>Classification\<close>

definition is_temp_path :: "string \<Rightarrow> bool" where
  "is_temp_path path \<longleftrightarrow> starts_with path LOGICAL_TEMP_PREFIX"

definition is_thumbnail_cache_path :: "string \<Rightarrow> bool" where
  "is_thumbnail_cache_path path =
     (let n = trim_end_matches slash path in
      if n = ''/.fileuni-thumbnail'' \<or> n = ''/.thumbs'' \<or> n = ''/.thumbs_cache'' then True
      else if contains n ''/.fileuni-thumbnail/'' \<or> contains n ''/.thumbs/'' then True
      else starts_with n ''/.thumbs_cache/'')"

definition PROTECTED_STORAGE_DIR :: string where
  "PROTECTED_STORAGE_DIR = ''/.protected''"

definition is_protected_blob_path :: "string \<Rightarrow> bool" where
  "is_protected_blob_path path =
     (let n = trim_end_matches slash path in
      n = PROTECTED_STORAGE_DIR \<or> starts_with n (PROTECTED_STORAGE_DIR @ ''/''))"

definition is_hidden_storage_path :: "string \<Rightarrow> bool" where
  "is_hidden_storage_path path \<longleftrightarrow> is_thumbnail_cache_path path \<or> is_protected_blob_path path"

definition get_relative_path :: "string \<Rightarrow> string \<Rightarrow> string" where
  "get_relative_path full_path p =
     (case strip_prefix p full_path of
        Some stripped \<Rightarrow> trim_start_matches slash stripped
      | None \<Rightarrow> trim_start_matches slash full_path)"

definition is_refresh_trigger :: "string \<Rightarrow> bool" where
  "is_refresh_trigger path \<longleftrightarrow> ends_with path ''/._refresh_here_.txt''"

definition parent_path :: "string \<Rightarrow> string" where
  "parent_path path =
     (case rsplit_once slash (trim_end_matches slash path) of
        Some (parent, _) \<Rightarrow> (if parent = [] then ''/'' else parent)
      | None \<Rightarrow> ''/'')"

definition should_prune_stale_recycle_index :: "string \<Rightarrow> vfs_error \<Rightarrow> bool" where
  "should_prune_stale_recycle_index path err =
     (if \<not> starts_with path ''/.recycle_bin/'' then False
      else case err of
        NotFound _ \<Rightarrow> True
      | OpenDal k _ \<Rightarrow> k = DalNotFound \<or> k = DalUnexpected
      | IoError k _ \<Rightarrow> k = IoNotFound \<or> k = IoInvalidInput
      | Internal msg \<Rightarrow>
          (let l = to_ascii_lowercase msg in
           contains l ''not found'' \<or> contains l ''no such file'' \<or>
           contains l ''invalid argument'' \<or> contains l ''unsupported file type'' \<or>
           contains l ''unexpected'')
      | _ \<Rightarrow> False)"

section \<open>Accepted paths are clean\<close>

lemma validate_segs_after_root:
  "0 < idx \<Longrightarrow>
   validate_segs ews idx p segs = Inr () \<longleftrightarrow>
     list_all good_seg segs \<or>
     (ews \<and> segs \<noteq> [] \<and> last segs = [] \<and> list_all good_seg (butlast segs))"
proof (induction segs arbitrary: idx)
  case Nil
  show ?case by simp
next
  case (Cons seg rest)
  show ?case
    using Cons.IH[of "Suc idx"] Cons.prems
    by (cases rest) (auto simp: good_seg_def Let_def)
qed

lemma no_dot_segs:
  "validate_segs ews idx p segs = Inr () \<Longrightarrow> s \<in> set segs \<Longrightarrow> s \<noteq> ''.'' \<and> s \<noteq> ''..''"
  by (induction segs arbitrary: idx) (auto simp: Let_def split: if_splits)

lemma good_segs_shape:
  assumes "list_all good_seg (split_on slash q)"
  shows "q \<noteq> []" "last q \<noteq> slash" "hd q \<noteq> slash"
proof -
  show "q \<noteq> []" using assms by (auto simp: good_seg_def)
  show "last q \<noteq> slash"
  proof
    assume l: "last q = slash"
    with \<open>q \<noteq> []\<close> have "q = butlast q @ slash # []" by (metis append_butlast_last_id)
    then have "split_on slash q = split_on slash (butlast q) @ [[]]"
      by (metis split_on.simps(1) split_on_append)
    with assms show False by (simp add: good_seg_def)
  qed
  show "hd q \<noteq> slash"
    using assms \<open>q \<noteq> []\<close> by (cases q) (auto simp: good_seg_def)
qed

lemma trailing_empty_seg:
  assumes "split_on slash q = init @ [[]]" "init \<noteq> []"
  shows "q = join_with slash init @ [slash]" "split_on slash (join_with slash init) = init"
proof -
  have "q = join_with slash (init @ [[]])" by (metis assms(1) join_split)
  then show "q = join_with slash init @ [slash]" using assms(2) by (simp add: join_with_append)
  show "split_on slash (join_with slash init) = init"
  proof (rule split_join[OF assms(2)])
    fix x assume "x \<in> set init"
    then have "x \<in> set (split_on slash q)" using assms(1) by simp
    then show "slash \<notin> set x" by (rule split_on_sep)
  qed
qed

lemma validate_segments_clean:
  assumes "validate_segments p = Inr ()" "p \<noteq> ''/''"
  shows "clean_path (trim_end_matches slash p)"
proof -
  from assms obtain q where p: "p = slash # q" and "q \<noteq> []"
    by (cases p) (auto simp: validate_segments_def split: if_splits)
  let ?ews = "suffix ''/'' p \<and> length p > 1"
  from assms p have "validate_segs ?ews (Suc 0) p (split_on slash q) = Inr ()"
    by (auto simp: validate_segments_def split: if_splits)
  then consider "list_all good_seg (split_on slash q)"
    | "last (split_on slash q) = []" "list_all good_seg (butlast (split_on slash q))"
    by (auto simp: validate_segs_after_root)
  then show ?thesis
  proof cases
    case 1
    then have "trim_end_matches slash p = p"
      using good_segs_shape[OF 1] p by (intro trim_end_matches_id) auto
    then show ?thesis using 1 p by simp
  next
    case 2
    define init where "init = butlast (split_on slash q)"
    have sp: "split_on slash q = init @ [[]]"
      unfolding init_def using 2(1) by (metis append_butlast_last_id split_on_not_Nil)
    have "init \<noteq> []"
      using sp \<open>q \<noteq> []\<close> split_on_singleton_iff[of slash q "[]"] by auto
    note te = trailing_empty_seg[OF sp this]
    have good: "list_all good_seg (split_on slash (join_with slash init))"
      using 2(2) te(2) by (simp add: init_def)
    have "trim_end_matches slash p = slash # join_with slash init"
      using good_segs_shape[OF good] te(1) p trim_end_matches_snoc(2)[of slash "slash # join_with slash init" slash]
      by (auto intro: trim_end_matches_id)
    then show ?thesis using good by simp
  qed
qed

lemma validate_cases:
  assumes "validate_file_operation_impl pct p = Inr q"
  obtains n where
    "n = replace_char backslash slash (if starts_with p ''/'' then p else slash # p)"
    "\<not> has_control (if starts_with p ''/'' then p else slash # p)"
    "validate_segments n = Inr ()"
    "CHR ''%'' \<in> set n \<Longrightarrow> \<exists>d. pct n = Some d \<and> validate_segments d = Inr ()"
    "q = (if n = ''/'' then n else trim_end_matches slash n)"
  using assms that
  by (auto simp: validate_file_operation_impl_def Let_def split: if_splits option.splits)

lemma validate_clean:
  assumes "validate_file_operation_impl pct p = Inr q"
  shows "clean_path q"
  using assms
proof (cases rule: validate_cases)
  case (1 n)
  show ?thesis
  proof (cases "n = ''/''")
    case True
    then show ?thesis using 1(5) by simp
  next
    case False
    then show ?thesis using 1(3,5) validate_segments_clean by simp
  qed
qed

lemma set_replace_char: "set (replace_char c d s) \<subseteq> insert d (set s - {c})"
  by (auto simp: replace_char_def)

lemma validate_no_backslash:
  assumes "validate_file_operation_impl pct p = Inr q"
  shows "backslash \<notin> set q"
  using assms
proof (cases rule: validate_cases)
  case (1 n)
  have "set q \<subseteq> set n" using 1(5) trim_end_matches_set[of slash n] by simp
  moreover have "backslash \<notin> set n" using 1(1) by (auto simp: replace_char_def split: if_splits)
  ultimately show ?thesis by auto
qed

lemma has_control_replace: "has_control (replace_char backslash slash s) = has_control s"
proof (induction s rule: has_control.induct)
  case (2 c cs)
  have m: "replace_char backslash slash (x # xs) =
      (if x = backslash then slash else x) # replace_char backslash slash xs" for x xs
    by (simp add: replace_char_def)
  have n: "(if x = backslash then slash else x) = x \<or> x = backslash" for x by simp
  show ?case
  proof (cases cs)
    case Nil
    then show ?thesis using 2 by (simp add: replace_char_def)
  next
    case (Cons d ds)
    have "of_char (if x = backslash then slash else x) =
        (if x = backslash then 47 else of_char x :: nat)" for x
      by simp
    then show ?thesis using 2 Cons by (simp add: m)
  qed
qed (simp add: replace_char_def)

lemma has_control_prefix: "has_control a \<Longrightarrow> has_control (a @ b)"
proof (induction a rule: has_control.induct)
  case (2 c cs)
  show ?case
  proof (cases cs)
    case Nil
    then show ?thesis using 2 by fastforce
  next
    case (Cons d ds)
    then show ?thesis using 2 by (simp only: append_Cons has_control.simps list.case) blast
  qed
qed simp

lemma validate_no_control:
  assumes "validate_file_operation_impl pct p = Inr q"
  shows "\<not> has_control q"
  using assms
proof (cases rule: validate_cases)
  case (1 n)
  have "\<not> has_control n" using 1(1,2) by (simp add: has_control_replace)
  moreover have "prefix q n" using 1(5) trim_end_matches_prefix[of slash n] by simp
  ultimately show ?thesis using has_control_prefix by (auto simp: prefix_def)
qed

text \<open>A clean path, taken apart.\<close>

lemma clean_path_cases [consumes 1, case_names root below]:
  assumes "clean_path p"
  obtains (root) "p = ''/''"
    | (below) q where "p = slash # q" "list_all good_seg (split_on slash q)"
                      "q \<noteq> []" "hd q \<noteq> slash" "last q \<noteq> slash"
proof (cases p)
  case Nil
  then show thesis using assms by simp
next
  case (Cons c q)
  then have c: "c = slash" and q: "q = [] \<or> list_all good_seg (split_on slash q)"
    using assms by simp_all
  from q show thesis
  proof
    assume "q = []"
    then show thesis using Cons c root by simp
  next
    assume g: "list_all good_seg (split_on slash q)"
    show thesis using below[of q] Cons c g good_segs_shape[OF g] by simp
  qed
qed

lemma clean_path_trim_start:
  assumes "clean_path p"
  shows "slash # trim_start_matches slash p = p"
  using assms
proof (cases rule: clean_path_cases)
  case root
  then show ?thesis by (simp add: trim_start_matches_simps)
next
  case (below q)
  then show ?thesis by (simp add: trim_start_matches_simps trim_start_matches_id)
qed

section \<open>Staying below the user's directory\<close>

text \<open>
  The specification of containment: resolve a relative path lexically, \<open>.\<close> and empty segments being
  skipped and \<open>..\<close> going up; \<open>None\<close> when it leaves the root.
\<close>

fun resolve_segs :: "string list \<Rightarrow> string list \<Rightarrow> string list option" where
  "resolve_segs acc [] = Some (rev acc)"
| "resolve_segs acc (s # ss) =
     (if s = [] \<or> s = ''.'' then resolve_segs acc ss
      else if s = ''..'' then (case acc of [] \<Rightarrow> None | _ # a \<Rightarrow> resolve_segs a ss)
      else resolve_segs (s # acc) ss)"

definition resolve_path :: "string \<Rightarrow> string list option" where
  "resolve_path p = resolve_segs [] (split_on slash p)"

lemma resolve_segs_good:
  "list_all good_seg segs \<Longrightarrow> resolve_segs acc segs = Some (rev acc @ segs)"
  by (induction segs arbitrary: acc) (auto simp: good_seg_def)

definition valid_user :: "string \<Rightarrow> bool" where
  "valid_user uid \<longleftrightarrow> good_seg uid \<and> slash \<notin> set uid \<and> backslash \<notin> set uid"

definition path_segs :: "string \<Rightarrow> string list" where
  "path_segs p = (if p = ''/'' then [] else split_on slash (tl p))"

lemma resolve_physical:
  assumes "valid_user uid" "clean_path p"
  shows "resolve_path (to_physical_user_path uid p) = Some (uid # path_segs p)"
proof -
  have step: "resolve_path (uid @ slash # r) = resolve_segs [uid] (split_on slash r)" for r
    using assms(1)
    by (simp add: valid_user_def good_seg_def resolve_path_def split_on_append split_on_free)
  from assms(2) show ?thesis
  proof (cases rule: clean_path_cases)
    case root
    then show ?thesis
      using step[of "[]"] by (simp add: to_physical_user_path_def path_segs_def trim_start_matches_simps)
  next
    case (below q)
    then show ?thesis
      using step[of q]
      by (simp add: to_physical_user_path_def path_segs_def
          trim_start_matches_simps trim_start_matches_id resolve_segs_good)
  qed
qed

lemma get_physical_path_eq:
  "get_physical_path pct uid p = Inr q \<longleftrightarrow>
     (\<exists>v. validate_file_operation_impl pct p = Inr v \<and> q = to_physical_user_path uid v)"
  by (auto simp: get_physical_path_def to_physical_user_path_def)

text \<open>The physical path of a clean path is the user, a slash and the path without its own slash.\<close>

lemma to_physical_clean:
  "clean_path p \<Longrightarrow> to_physical_user_path uid p = uid @ p"
  using clean_path_trim_start[of p] by (metis append_Cons append_Nil to_physical_user_path_def)

lemma translate_physical:
  assumes "backslash \<notin> set uid" "clean_path p" "backslash \<notin> set p"
  shows "translate_path uid False (to_physical_user_path uid p) = p"
proof -
  from assms(2) obtain q where p: "p = slash # q" by (cases p) auto
  have nb: "backslash \<notin> set (uid @ p)" using assms by auto
  have "translate_path uid False (uid @ p) = slash # trim_end_matches slash (trim_start_matches slash q)"
    using nb p strip_prefix_append[of "uid @ ''/''" q]
    by (simp add: translate_path_def Let_def)
  also have "\<dots> = p"
    using assms(2)
    by (cases rule: clean_path_cases)
       (auto simp: p trim_start_matches_simps trim_end_matches_snoc trim_start_matches_id trim_end_matches_id)
  finally show ?thesis using assms(2) by (simp add: to_physical_clean)
qed

section \<open>The namespace contract\<close>

text \<open>
  What the storage layers rely on: every valid pair of user and logical path has its own physical
  path, from which both can be read back.
\<close>

locale tenant_namespace =
  fixes valid_owner :: "'u \<Rightarrow> bool"
    and valid_path :: "'l \<Rightarrow> bool"
    and phys :: "'u \<Rightarrow> 'l \<Rightarrow> 'p"
    and logical :: "'u \<Rightarrow> 'p \<Rightarrow> 'l"
    and owner_of :: "'p \<Rightarrow> 'u option"
  assumes logical_phys: "valid_owner u \<Longrightarrow> valid_path l \<Longrightarrow> logical u (phys u l) = l"
    and owner_phys: "valid_owner u \<Longrightarrow> valid_path l \<Longrightarrow> owner_of (phys u l) = Some u"
begin

lemma phys_inj:
  assumes "valid_owner u" "valid_owner v" "valid_path l" "valid_path k" "phys u l = phys v k"
  shows "u = v \<and> l = k"
proof -
  have "u = v" using assms owner_phys by (metis option.inject)
  then show ?thesis using assms logical_phys by metis
qed

lemma tenant_frame:
  assumes "valid_owner u" "valid_owner v" "valid_path l" "valid_path k" "u \<noteq> v \<or> l \<noteq> k"
  shows "(store(phys u l := x)) (phys v k) = store (phys v k)"
  using phys_inj[OF assms(1-4)] assms(5) by auto

lemma tenant_read_own:
  assumes "valid_owner u" "valid_path l"
  shows "(store(phys u l := x)) (phys u l) = x"
  by simp

end

definition physical_owner :: "string \<Rightarrow> string option" where
  "physical_owner p = (case resolve_path p of Some (u # _) \<Rightarrow> Some u | _ \<Rightarrow> None)"

definition clean_logical :: "string \<Rightarrow> bool" where
  "clean_logical p \<longleftrightarrow> clean_path p \<and> backslash \<notin> set p"

interpretation engine_ns: tenant_namespace valid_user clean_logical to_physical_user_path
    "\<lambda>uid. translate_path uid False" physical_owner
proof (unfold_locales, goal_cases)
  case (1 u l)
  then show ?case by (simp add: valid_user_def clean_logical_def translate_physical)
next
  case (2 u l)
  then show ?case by (simp add: clean_logical_def physical_owner_def resolve_physical)
qed

lemma validated_is_clean_logical:
  "validate_file_operation_impl pct p = Inr q \<Longrightarrow> clean_logical q"
  by (simp add: clean_logical_def validate_clean validate_no_backslash)

section \<open>Properties\<close>

text \<open>
  C1: whatever path a client sends and however the percent-decoder behaves, the physical path of an
  accepted request resolves to a location below the user's own directory, with exactly the segments
  of the validated path after it: no traversal leaves the tenant.
\<close>

theorem physical_path_contained:
  assumes "valid_user uid" "get_physical_path pct uid p = Inr q"
  shows "\<exists>v. validate_file_operation_impl pct p = Inr v \<and> list_all good_seg (path_segs v) \<and>
             resolve_path q = Some (uid # path_segs v)"
proof -
  from assms(2) obtain v where v: "validate_file_operation_impl pct p = Inr v"
      "q = to_physical_user_path uid v"
    by (auto simp: get_physical_path_eq)
  have c: "clean_path v" using v(1) by (rule validate_clean)
  have "list_all good_seg (path_segs v)"
    using c by (cases rule: clean_path_cases) (auto simp: path_segs_def)
  then show ?thesis using v resolve_physical[OF assms(1) c] by auto
qed

theorem physical_path_contained_witness:
  "resolve_path ''alice/docs/a.txt'' = Some [''alice'', ''docs'', ''a.txt'']"
proof -
  have u: "valid_user ''alice''" by code_simp
  have q: "get_physical_path (\<lambda>_. None) ''alice'' ''docs/a.txt/'' = Inr ''alice/docs/a.txt''"
    by code_simp
  have s: "validate_file_operation_impl (\<lambda>_. None) ''docs/a.txt/'' = Inr ''/docs/a.txt''"
    "path_segs ''/docs/a.txt'' = [''docs'', ''a.txt'']"
    by code_simp+
  show ?thesis using physical_path_contained[OF u q] s by auto
qed

text \<open>
  C2: mapping a validated path to its physical path and back gives the same path, so what a listing
  shows is what the client can open.
\<close>

theorem translate_roundtrip:
  assumes "backslash \<notin> set uid" "get_physical_path pct uid p = Inr q"
  shows "validate_file_operation_impl pct p = Inr (translate_path uid False q)"
proof -
  from assms(2) obtain v where v: "validate_file_operation_impl pct p = Inr v"
      "q = to_physical_user_path uid v"
    by (auto simp: get_physical_path_eq)
  then show ?thesis
    using translate_physical[OF assms(1) validate_clean[OF v(1)] validate_no_backslash[OF v(1)]] by simp
qed

theorem translate_roundtrip_witness:
  "translate_path ''alice'' False ''alice/docs/a.txt'' = ''/docs/a.txt''"
proof -
  have u: "backslash \<notin> set ''alice''" by code_simp
  have q: "get_physical_path (\<lambda>_. None) ''alice'' ''docs/a.txt/'' = Inr ''alice/docs/a.txt''"
    by code_simp
  have "validate_file_operation_impl (\<lambda>_. None) ''docs/a.txt/'' = Inr ''/docs/a.txt''"
    by code_simp
  with translate_roundtrip[OF u q] show ?thesis by simp
qed

text \<open>
  C3: two accepted requests have the same physical path only if they are of the same user and name
  the same validated path, so one tenant's write never reaches a file of another.
\<close>

theorem tenants_disjoint:
  assumes "valid_user u" "valid_user v"
    and "get_physical_path pct u p = Inr a" "get_physical_path pct v r = Inr b" "a = b"
  shows "u = v \<and> validate_file_operation_impl pct p = validate_file_operation_impl pct r"
proof -
  from assms(3) obtain l where l: "validate_file_operation_impl pct p = Inr l"
      "a = to_physical_user_path u l"
    by (auto simp: get_physical_path_eq)
  from assms(4) obtain k where k: "validate_file_operation_impl pct r = Inr k"
      "b = to_physical_user_path v k"
    by (auto simp: get_physical_path_eq)
  have "u = v \<and> l = k"
    using engine_ns.phys_inj[OF assms(1,2)] l k assms(5) validated_is_clean_logical by blast
  then show ?thesis using l k by simp
qed

theorem tenants_disjoint_witness:
  "validate_file_operation_impl (\<lambda>_. None) ''/a/'' = validate_file_operation_impl (\<lambda>_. None) ''a''"
proof -
  have u: "valid_user ''bob''" by code_simp
  have a: "get_physical_path (\<lambda>_. None) ''bob'' ''/a/'' = Inr ''bob/a''" by code_simp
  have b: "get_physical_path (\<lambda>_. None) ''bob'' ''a'' = Inr ''bob/a''" by code_simp
  show ?thesis using tenants_disjoint[OF u u a b] by simp
qed

text \<open>
  A path whose percent-decoded form has a dot segment or an empty inner segment is refused, also
  when the path as written has none.
\<close>

theorem encoded_traversal_refused:
  assumes "pct (replace_char backslash slash (slash # p)) = Some d" "CHR ''%'' \<in> set p"
    and "s \<in> set (split_on slash d)" "s = ''.'' \<or> s = ''..''"
  shows "\<exists>e. validate_file_operation_impl pct (slash # p) = Inl e"
proof (rule ccontr)
  assume "\<not> ?thesis"
  then obtain q where "validate_file_operation_impl pct (slash # p) = Inr q"
    by (cases "validate_file_operation_impl pct (slash # p)") auto
  then have "validate_segments d = Inr ()"
  proof (cases rule: validate_cases)
    case (1 n)
    have "CHR ''%'' \<in> set n"
      using 1(1) assms(2) by (force simp: replace_char_def)
    then show ?thesis using 1(1,4) assms(1) by simp
  qed
  moreover have "validate_segments d \<noteq> Inr ()"
  proof
    assume ok: "validate_segments d = Inr ()"
    show False
    proof (cases "d = ''/''")
      case True
      then show False using assms(3,4) by auto
    next
      case False
      with ok have "validate_segs (suffix ''/'' d \<and> length d > 1) 0 d (split_on slash d) = Inr ()"
        by (simp add: validate_segments_def split: if_splits)
      then show False using assms(3,4) no_dot_segs by blast
    qed
  qed
  ultimately show False by blast
qed

theorem encoded_traversal_refused_witness:
  "\<exists>e. validate_file_operation_impl (\<lambda>_. Some ''/a/../b'') ''/a/%2e%2e/b'' = Inl e"
  by (rule encoded_traversal_refused[where d = "''/a/../b''" and s = "''..''"]) code_simp+

end
