(* ===== verification/Share_Access.thy ===== *)
theory Share_Access
  imports Paths
begin

text \<open>
  Paths inside a public share (\<open>utils/share_access.rs\<close>): normalisation, the containment test, the
  resolution of a visitor's path below the shared root, and the allow-list for direct links. The
  containment test is refined to the prefix order on segment lists. \<open>char::is_alphanumeric\<close> beyond
  ASCII is a Unicode table and a parameter, on the UTF-8 sequence of the character.
\<close>

section \<open>Definitions\<close>

definition normalize_absolute_path :: "string \<Rightarrow> string" where
  "normalize_absolute_path path =
     (let trimmed = rust_trim path in
      if trimmed = [] \<or> trimmed = ''/'' then ''/''
      else
        (let replaced = replace_char backslash slash trimmed;
             segments = filter (\<lambda>s. s \<noteq> [] \<and> s \<noteq> ''.'') (map rust_trim (split_on slash replaced)) in
         if segments = [] then ''/'' else ''/'' @ join_with slash segments))"

definition decode_share_path :: "(string \<Rightarrow> string option) \<Rightarrow> string \<Rightarrow> string + string" where
  "decode_share_path pct raw =
     (let normalized = replace_char backslash slash raw in
      if CHR ''%'' \<in> set normalized then
        (case pct normalized of None \<Rightarrow> Inl ''INVALID_PATH'' | Some v \<Rightarrow> Inr v)
      else Inr normalized)"

fun share_segments :: "string list \<Rightarrow> string list \<Rightarrow> string + string list" where
  "share_segments acc [] = Inr acc"
| "share_segments acc (raw # rest) =
     (let segment = rust_trim raw in
      if segment = [] \<or> segment = ''.'' then share_segments acc rest
      else if segment = ''..'' \<or> has_control segment then Inl ''INVALID_PATH''
      else share_segments (acc @ [segment]) rest)"

definition normalize_share_relative_path ::
  "(string \<Rightarrow> string option) \<Rightarrow> string \<Rightarrow> string + string" where
  "normalize_share_relative_path pct requested_path =
     res_bind (decode_share_path pct (rust_trim requested_path)) (\<lambda>decoded.
     res_bind (share_segments [] (split_on slash decoded)) (\<lambda>segments.
     Inr (if segments = [] then ''/'' else ''/'' @ join_with slash segments)))"

definition is_path_within_root :: "string \<Rightarrow> string \<Rightarrow> bool" where
  "is_path_within_root root0 candidate0 =
     (let root = normalize_absolute_path root0;
          candidate = normalize_absolute_path candidate0 in
      root = ''/'' \<or> candidate = root \<or>
      (case strip_prefix root candidate of None \<Rightarrow> False | Some rest \<Rightarrow> starts_with rest ''/''))"

definition resolve_share_descendant_path ::
  "(string \<Rightarrow> string option) \<Rightarrow> string \<Rightarrow> string \<Rightarrow> bool \<Rightarrow> string + string" where
  "resolve_share_descendant_path pct base0 requested_path base_is_dir =
     (let base_path = normalize_absolute_path base0 in
      res_bind (normalize_share_relative_path pct requested_path) (\<lambda>relative_path.
      if relative_path = ''/'' then Inr base_path
      else if \<not> base_is_dir then Inl ''NOT_A_DIRECTORY''
      else
        (let candidate =
           (if base_path = ''/'' then relative_path
            else trim_end_matches slash base_path @ ''/'' @ trim_start_matches slash relative_path) in
         if is_path_within_root base_path candidate then Inr candidate else Inl ''INVALID_PATH'')))"

fun utf8_chars :: "string \<Rightarrow> string list" where
  "utf8_chars [] = []"
| "utf8_chars (c # cs) =
     (case utf8_chars cs of
        [] \<Rightarrow> [[c]]
      | g # gs \<Rightarrow> (if cs \<noteq> [] \<and> is_cont_byte (hd cs) then (c # g) # gs else [c] # g # gs))"

definition ascii_alnum :: "char \<Rightarrow> bool" where
  "ascii_alnum c =
     (let n = (of_char c :: nat) in
      (48 \<le> n \<and> n \<le> 57) \<or> (65 \<le> n \<and> n \<le> 90) \<or> (97 \<le> n \<and> n \<le> 122))"

definition direct_share_char :: "(string \<Rightarrow> bool) \<Rightarrow> string \<Rightarrow> bool" where
  "direct_share_char alnum ch =
     (case ch of
        [c] \<Rightarrow> (ascii_alnum c \<or> c \<in> set '' ._-()[]'')
      | _ \<Rightarrow> alnum ch)"

definition is_direct_share_name_allowed :: "(string \<Rightarrow> bool) \<Rightarrow> string \<Rightarrow> bool" where
  "is_direct_share_name_allowed alnum name =
     (let trimmed = rust_trim name in
      trimmed \<noteq> [] \<and> list_all (direct_share_char alnum) (utf8_chars trimmed))"

definition is_direct_share_path_allowed ::
  "(string \<Rightarrow> string option) \<Rightarrow> (string \<Rightarrow> bool) \<Rightarrow> string \<Rightarrow> bool" where
  "is_direct_share_path_allowed pct alnum requested_path =
     (case normalize_share_relative_path pct requested_path of
        Inl _ \<Rightarrow> False
      | Inr path \<Rightarrow>
          (if path = ''/'' then True
           else list_all (is_direct_share_name_allowed alnum) (split_on slash (trim_matches slash path))))"

section \<open>Segments\<close>

definition abs_segs :: "string \<Rightarrow> string list" where
  "abs_segs p = filter (\<lambda>s. s \<noteq> [] \<and> s \<noteq> ''.'')
     (map rust_trim (split_on slash (replace_char backslash slash (rust_trim p))))"

definition proper_segs :: "string list \<Rightarrow> bool" where
  "proper_segs segs \<longleftrightarrow>
     list_all (\<lambda>s. s \<noteq> [] \<and> s \<noteq> ''.'' \<and> slash \<notin> set s \<and> backslash \<notin> set s \<and> rust_trim s = s) segs"

definition rooted :: "string list \<Rightarrow> string" where
  "rooted segs = slash # join_with slash segs"

lemma rooted_root: "rooted [] = ''/''"
  by (simp add: rooted_def)

lemma normalize_absolute_path_rooted: "normalize_absolute_path p = rooted (abs_segs p)"
proof -
  have "rust_trim [] = []"
    by (simp add: rust_trim_def trim_ws.simps ws_seqs_def)
  then show ?thesis
    by (auto simp: normalize_absolute_path_def abs_segs_def rooted_def Let_def replace_char_def)
qed

lemma proper_abs_segs: "proper_segs (abs_segs p)"
proof -
  have "slash \<notin> set (rust_trim x) \<and> backslash \<notin> set (rust_trim x)"
    if "x \<in> set (split_on slash (replace_char backslash slash q))" for x q
  proof -
    have "slash \<notin> set x" using that by (rule split_on_sep)
    moreover have "backslash \<notin> set x"
      using split_on_set[OF that] by (auto simp: replace_char_def split: if_splits)
    ultimately show ?thesis using rust_trim_set[of x] by blast
  qed
  then show ?thesis by (auto simp: proper_segs_def abs_segs_def list_all_iff)
qed

lemma proper_segs_append [simp]:
  "proper_segs (a @ b) \<longleftrightarrow> proper_segs a \<and> proper_segs b"
  by (simp add: proper_segs_def)

lemma split_rooted:
  assumes "proper_segs segs" "segs \<noteq> []"
  shows "split_on slash (join_with slash segs) = segs"
  using assms by (intro split_join) (auto simp: proper_segs_def list_all_iff)

lemma rooted_inj:
  assumes "proper_segs a" "proper_segs b" "rooted a = rooted b"
  shows "a = b"
proof -
  have j: "join_with slash a = join_with slash b" using assms(3) by (simp add: rooted_def)
  have ne: "join_with slash s = [] \<Longrightarrow> s = []" if "proper_segs s" for s
    using that split_rooted[of s] by (cases s) (auto simp: proper_segs_def)
  show ?thesis
  proof (cases "a = [] \<or> b = []")
    case True
    then show ?thesis using j ne[OF assms(1)] ne[OF assms(2)] by fastforce
  next
    case False
    then show ?thesis using j split_rooted assms(1,2) by metis
  qed
qed

lemma rooted_last:
  assumes "proper_segs segs" "segs \<noteq> []"
  shows "last (rooted segs) \<noteq> slash"
proof -
  obtain xs x where x: "segs = xs @ [x]" using assms(2) by (cases segs rule: rev_cases) auto
  then have "x \<noteq> []" "slash \<notin> set x" using assms(1) by (auto simp: proper_segs_def)
  moreover have "last (rooted segs) = last x"
    using x \<open>x \<noteq> []\<close> by (cases "xs = []") (auto simp: rooted_def join_with_append)
  ultimately show ?thesis by (metis last_in_set)
qed

lemma rooted_append:
  "a \<noteq> [] \<Longrightarrow> b \<noteq> [] \<Longrightarrow> rooted (a @ b) = rooted a @ rooted b"
  by (simp add: rooted_def join_with_append)

lemma rooted_below_iff:
  assumes "proper_segs a" "a \<noteq> []" "proper_segs b"
  shows "(rooted b = rooted a \<or> (\<exists>r. rooted b = rooted a @ slash # r)) \<longleftrightarrow> prefix a b"
proof
  assume "prefix a b"
  then obtain d where d: "b = a @ d" by (auto simp: prefix_def)
  show "rooted b = rooted a \<or> (\<exists>r. rooted b = rooted a @ slash # r)"
    using d rooted_append[OF assms(2), of d] by (cases "d = []") (auto simp: rooted_def)
next
  assume "rooted b = rooted a \<or> (\<exists>r. rooted b = rooted a @ slash # r)"
  then show "prefix a b"
  proof
    assume "rooted b = rooted a"
    then show ?thesis using rooted_inj assms by blast
  next
    assume "\<exists>r. rooted b = rooted a @ slash # r"
    then obtain r where r: "join_with slash b = join_with slash a @ slash # r"
      by (auto simp: rooted_def)
    then have "b \<noteq> []" by auto
    have "split_on slash (join_with slash b) = split_on slash (join_with slash a) @ split_on slash r"
      by (simp add: r split_on_append)
    then have "b = a @ split_on slash r" using split_rooted assms \<open>b \<noteq> []\<close> by simp
    then show ?thesis by simp
  qed
qed

lemma suffix_after_slash:
  assumes "suffix w (a @ slash # b)" "slash \<notin> set w"
  shows "suffix w b"
proof -
  have "suffix w (slash # b)"
  proof (rule ccontr)
    assume "\<not> suffix w (slash # b)"
    moreover have "suffix (slash # b) (a @ slash # b)" by (simp add: suffix_def)
    ultimately have "suffix (slash # b) w"
      using suffix_same_cases[OF assms(1)] by blast
    then show False using assms(2) by (auto simp: suffix_def)
  qed
  then show ?thesis using assms(2) by (auto simp: suffix_Cons)
qed

lemma rust_trim_rooted:
  assumes "proper_segs segs"
  shows "rust_trim (rooted segs) = rooted segs"
proof (rule rust_trim_id)
  fix w assume w: "w \<in> set ws_seqs"
  have no_pre: "\<not> prefix w (rooted segs)"
    using ws_seqs_shape[OF w] by (cases w) (auto simp: rooted_def)
  have "\<not> suffix w (rooted segs)"
  proof
    assume sfx: "suffix w (rooted segs)"
    obtain a b where ab: "rooted segs = a @ slash # b" "b = [] \<or> rust_trim b = b"
    proof (cases segs rule: rev_cases)
      case Nil
      then show ?thesis using that[of "[]" "[]"] by (simp add: rooted_def)
    next
      case (snoc xs x)
      have t: "rust_trim x = x" using assms snoc by (simp add: proper_segs_def)
      show ?thesis
      proof (cases "xs = []")
        case True
        then show ?thesis using that[of "[]" x] snoc t by (simp add: rooted_def)
      next
        case False
        then show ?thesis using that[of "slash # join_with slash xs" x] snoc t
          by (simp add: rooted_def join_with_append)
      qed
    qed
    have "suffix w b" using suffix_after_slash sfx ab(1) ws_seqs_shape[OF w] by metis
    then show False using ab(2) rust_trim_no_suffix[OF _ w] ws_seqs_shape[OF w] by auto
  qed
  with no_pre show "\<not> prefix w (rooted segs) \<and> \<not> suffix w (rooted segs)" by simp
qed

lemma abs_segs_rooted:
  assumes "proper_segs segs"
  shows "abs_segs (rooted segs) = segs"
proof -
  have nb: "backslash \<notin> set (join_with slash segs)"
    using assms(1) by (induction slash segs rule: join_with.induct) (auto simp: proper_segs_def)
  then have rep: "replace_char backslash slash (rooted segs) = rooted segs"
    by (auto simp: replace_char_def rooted_def intro: map_idI)
  have m: "map rust_trim segs = segs" and f: "filter (\<lambda>s. s \<noteq> [] \<and> s \<noteq> ''.'') segs = segs"
    using assms(1) by (auto simp: proper_segs_def list_all_iff intro: map_idI)
  show ?thesis
  proof (cases "segs = []")
    case True
    then show ?thesis using rust_trim_rooted[OF assms] by (simp add: abs_segs_def rooted_def replace_char_def)
  next
    case False
    then have "split_on slash (rooted segs) = [] # segs"
      using split_rooted[OF assms(1)] by (simp add: rooted_def)
    then show ?thesis by (simp add: abs_segs_def rust_trim_rooted[OF assms] rep m f)
  qed
qed

lemma normalize_absolute_path_idem:
  "normalize_absolute_path (normalize_absolute_path p) = normalize_absolute_path p"
  by (simp add: normalize_absolute_path_rooted abs_segs_rooted proper_abs_segs)

section \<open>Properties\<close>

text \<open>
  The containment test of a share is the prefix order on the cleaned segment lists of the two
  paths, so \<open>/data\<close> contains \<open>/data/x\<close> and never \<open>/database\<close>.
\<close>

theorem within_root_iff_prefix:
  "is_path_within_root root candidate \<longleftrightarrow> prefix (abs_segs root) (abs_segs candidate)"
proof (cases "abs_segs root = []")
  case True
  then show ?thesis
    by (simp add: is_path_within_root_def normalize_absolute_path_rooted Let_def rooted_root)
next
  case False
  let ?a = "abs_segs root" and ?b = "abs_segs candidate"
  have "rooted ?a \<noteq> ''/''"
    using False rooted_inj[OF proper_abs_segs, of "[]" root] by (auto simp: rooted_root proper_segs_def)
  then have "is_path_within_root root candidate \<longleftrightarrow>
      rooted ?b = rooted ?a \<or> (\<exists>r. rooted ?b = rooted ?a @ slash # r)"
    by (auto simp: is_path_within_root_def normalize_absolute_path_rooted Let_def strip_prefix_Some
        prefix_def split: option.splits)
  also have "\<dots> \<longleftrightarrow> prefix ?a ?b"
    using rooted_below_iff[OF proper_abs_segs False proper_abs_segs] .
  finally show ?thesis .
qed

lemma share_segments_ok:
  "share_segments acc parts = Inr segs \<Longrightarrow>
   (\<forall>x \<in> set parts. slash \<notin> set x \<and> backslash \<notin> set x) \<Longrightarrow>
   \<exists>new. segs = acc @ new \<and> proper_segs new \<and> list_all (\<lambda>s. good_seg s \<and> \<not> has_control s) new"
proof (induction parts arbitrary: acc)
  case Nil
  then show ?case by (auto simp: proper_segs_def)
next
  case (Cons raw rest)
  let ?s = "rust_trim raw"
  show ?case
  proof (cases "?s = [] \<or> ?s = ''.''")
    case True
    then show ?thesis using Cons by (auto simp: Let_def)
  next
    case False
    then have "share_segments (acc @ [?s]) rest = Inr segs" "?s \<noteq> ''..''" "\<not> has_control ?s"
      using Cons.prems(1) by (auto simp: Let_def split: if_splits)
    then obtain new where new: "segs = acc @ ?s # new" "proper_segs new"
        "list_all (\<lambda>s. good_seg s \<and> \<not> has_control s) new"
      using Cons.IH[of "acc @ [?s]"] Cons.prems(2) by auto
    have "proper_segs [?s]"
      using False Cons.prems(2) rust_trim_set[of raw] by (auto simp: proper_segs_def)
    then have "proper_segs (?s # new)" using new(2) proper_segs_append[of "[?s]" new] by simp
    moreover have "list_all (\<lambda>s. good_seg s \<and> \<not> has_control s) (?s # new)"
      using False new(3) \<open>?s \<noteq> ''..''\<close> \<open>\<not> has_control ?s\<close> by (simp add: good_seg_def)
    ultimately show ?thesis using new(1) by blast
  qed
qed

lemma normalize_share_relative_ok:
  assumes "normalize_share_relative_path pct req = Inr rel"
    and "decode_share_path pct (rust_trim req) = Inr dec" "backslash \<notin> set dec"
  shows "\<exists>segs. rel = rooted segs \<and> proper_segs segs \<and> list_all (\<lambda>s. good_seg s \<and> \<not> has_control s) segs"
proof -
  from assms obtain segs where s: "share_segments [] (split_on slash dec) = Inr segs"
      "rel = rooted segs"
    by (auto simp: normalize_share_relative_path_def rooted_def)
  have "\<forall>x \<in> set (split_on slash dec). slash \<notin> set x \<and> backslash \<notin> set x"
    using split_on_sep split_on_set assms(3) by blast
  then show ?thesis using share_segments_ok[OF s(1)] s(2) by auto
qed

text \<open>
  C22: when a visitor's path resolves below a share, the result is the shared root followed by segments
  none of which is empty, \<open>.\<close>, \<open>..\<close> or carries a control character, and a share of a single file has
  nothing below it. The decoded request must be free of backslashes, which the code keeps.
\<close>

theorem share_descendant_contained:
  assumes "resolve_share_descendant_path pct base req is_dir = Inr r"
    and "decode_share_path pct (rust_trim req) = Inr dec" "backslash \<notin> set dec"
  shows "\<exists>rel. abs_segs r = abs_segs base @ rel \<and> list_all (\<lambda>s. good_seg s \<and> \<not> has_control s) rel \<and>
               (rel = [] \<or> is_dir) \<and> is_path_within_root base r"
proof -
  from assms(1) obtain relp where relp: "normalize_share_relative_path pct req = Inr relp"
    by (auto simp: resolve_share_descendant_path_def Let_def)
  with normalize_share_relative_ok[OF relp assms(2,3)] obtain rel where rel:
    "relp = rooted rel" "proper_segs rel" "list_all (\<lambda>s. good_seg s \<and> \<not> has_control s) rel"
    by auto
  let ?b = "abs_segs base"
  have b: "normalize_absolute_path base = rooted ?b" by (rule normalize_absolute_path_rooted)
  have "r = rooted (?b @ rel) \<and> (rel = [] \<or> is_dir)"
  proof (cases "rel = []")
    case True
    then show ?thesis using assms(1) relp rel(1) b
      by (simp add: resolve_share_descendant_path_def Let_def rooted_root)
  next
    case False
    have nr: "relp \<noteq> ''/''"
      using rel(1,2) False rooted_inj[of rel "[]"] by (auto simp: rooted_root proper_segs_def)
    have sl: "rooted ?b @ ''/'' @ trim_start_matches slash relp = rooted (?b @ rel)" if "?b \<noteq> []"
    proof -
      have "hd (join_with slash rel) \<noteq> slash"
        using False rel(2) hd_in_set
        by (cases rel rule: remdups_adj.cases) (fastforce simp: proper_segs_def hd_append)+
      then have "trim_start_matches slash relp = join_with slash rel"
        using rel(1) by (simp add: rooted_def trim_start_matches_simps trim_start_matches_id)
      then show ?thesis using that False by (simp add: rooted_def join_with_append)
    qed
    have te: "trim_end_matches slash (rooted ?b) = rooted ?b" if "?b \<noteq> []"
      using rooted_last[OF proper_abs_segs that] by (intro trim_end_matches_id) simp
    show ?thesis
    proof (cases "?b = []")
      case True
      then show ?thesis using assms(1) relp rel(1) b nr
        by (auto simp: resolve_share_descendant_path_def Let_def rooted_root split: if_splits)
    next
      case nb: False
      then have "rooted ?b \<noteq> ''/''"
        using rooted_inj[OF proper_abs_segs, of "[]" base] by (auto simp: rooted_root proper_segs_def)
      then show ?thesis using assms(1) relp b nr te[OF nb] sl[OF nb]
        by (auto simp: resolve_share_descendant_path_def Let_def split: if_splits)
    qed
  qed
  then show ?thesis
    using rel(2,3) abs_segs_rooted[of "?b @ rel"] proper_abs_segs[of base]
    by (auto simp: within_root_iff_prefix)
qed

theorem share_descendant_contained_witness:
  "is_path_within_root ''/Docs'' ''/Docs/nested/file.txt''"
proof -
  have d: "decode_share_path (\<lambda>_. None) (rust_trim ''nested/file.txt'') = Inr ''nested/file.txt''"
    by (simp add: rust_trim_plain plain_char_def decode_share_path_def replace_char_def)
  have t: "rust_trim ''nested'' = ''nested''" "rust_trim ''file.txt'' = ''file.txt''"
    "rust_trim ''Docs'' = ''Docs''" "rust_trim ''/Docs'' = ''/Docs''"
    "rust_trim ''/Docs/nested/file.txt'' = ''/Docs/nested/file.txt''"
    by (simp_all add: rust_trim_plain plain_char_def)
  have sg: "share_segments [] (split_on slash ''nested/file.txt'') = Inr [''nested'', ''file.txt'']"
    by (simp add: t)
  have rel: "normalize_share_relative_path (\<lambda>_. None) ''nested/file.txt'' = Inr ''/nested/file.txt''"
    unfolding normalize_share_relative_path_def d res_bind.simps sg by simp
  have base: "normalize_absolute_path ''/Docs'' = ''/Docs''"
    unfolding normalize_absolute_path_rooted abs_segs_def t by (simp add: replace_char_def rooted_def t)
  have full: "normalize_absolute_path ''/Docs/nested/file.txt'' = ''/Docs/nested/file.txt''"
    unfolding normalize_absolute_path_rooted abs_segs_def t by (simp add: replace_char_def rooted_def t)
  have cand: "trim_end_matches slash ''/Docs'' @ ''/'' @
      trim_start_matches slash ''/nested/file.txt'' = ''/Docs/nested/file.txt''"
    by code_simp
  have w: "is_path_within_root ''/Docs'' ''/Docs/nested/file.txt''"
    unfolding is_path_within_root_def base full Let_def by (simp add: strip_prefix_def)
  have r: "resolve_share_descendant_path (\<lambda>_. None) ''/Docs'' ''nested/file.txt'' True =
      Inr ''/Docs/nested/file.txt''"
    unfolding resolve_share_descendant_path_def base rel Let_def res_bind.simps cand
    using w by simp
  have b: "backslash \<notin> set ''nested/file.txt''" by code_simp
  show ?thesis using share_descendant_contained[OF r d b] by blast
qed

text \<open>
  Without that condition the boundary does not hold. A percent-encoded backslash is decoded after
  separators were normalised, so \<open>..%5csecret\<close> passes as one segment; the containment test accepts the
  result, although its cleaned segments climb out of the shared directory.
\<close>

theorem share_encoded_backslash_escapes:
  assumes "pct ''..%5csecret'' = Some (''..'' @ backslash # ''secret'')"
  shows "resolve_share_descendant_path pct ''/Docs'' ''..%5csecret'' True =
           Inr (''/Docs/..'' @ backslash # ''secret'') \<and>
         is_path_within_root ''/Docs'' (''/Docs/..'' @ backslash # ''secret'') \<and>
         resolve_segs [] (abs_segs (''/Docs/..'' @ backslash # ''secret'')) = Some [''secret'']"
proof -
  let ?r = "''/Docs/..'' @ backslash # ''secret''"
  have t0: "rust_trim ''..%5csecret'' = ''..%5csecret''" by (simp_all add: rust_trim_plain plain_char_def)
  have rc: "replace_char backslash slash ''..%5csecret'' = ''..%5csecret''" by code_simp
  have p: "CHR ''%'' \<in> set ''..%5csecret''" by simp
  have d: "decode_share_path pct (rust_trim ''..%5csecret'') = Inr (''..'' @ backslash # ''secret'')"
    unfolding t0 decode_share_path_def rc Let_def using p assms by simp
  have t: "rust_trim (''..'' @ backslash # ''secret'') = ''..'' @ backslash # ''secret''"
    "rust_trim ''..'' = ''..''" "rust_trim ''secret'' = ''secret''" "rust_trim ''Docs'' = ''Docs''"
    "rust_trim ''/Docs'' = ''/Docs''" "rust_trim ?r = ?r"
    by (simp_all add: rust_trim_plain plain_char_def)
  have sg: "share_segments [] (split_on slash (''..'' @ backslash # ''secret'')) =
      Inr [''..'' @ backslash # ''secret'']"
    using t by simp
  have seg_r: "abs_segs ?r = [''Docs'', ''..'', ''secret'']"
    unfolding abs_segs_def t by (simp add: replace_char_def t)
  have rel: "normalize_share_relative_path pct ''..%5csecret'' = Inr (''/..'' @ backslash # ''secret'')"
    unfolding normalize_share_relative_path_def d res_bind.simps sg by simp
  have base: "normalize_absolute_path ''/Docs'' = ''/Docs''"
    unfolding normalize_absolute_path_rooted abs_segs_def t by (simp add: replace_char_def rooted_def t)
  have full: "normalize_absolute_path ?r = ''/Docs/../secret''"
    unfolding normalize_absolute_path_rooted abs_segs_def t by (simp add: replace_char_def rooted_def t)
  have within: "is_path_within_root ''/Docs'' ?r"
    unfolding is_path_within_root_def base full Let_def by (simp add: strip_prefix_def)
  have cand: "trim_end_matches slash ''/Docs'' @ ''/'' @
      trim_start_matches slash (''/..'' @ backslash # ''secret'') = ?r"
    by code_simp
  have "resolve_share_descendant_path pct ''/Docs'' ''..%5csecret'' True = Inr ?r"
    unfolding resolve_share_descendant_path_def base rel Let_def res_bind.simps cand
    using within by simp
  moreover have "resolve_segs [] (abs_segs ?r) = Some [''secret'']"
    unfolding seg_r by simp
  ultimately show ?thesis using within by blast
qed

theorem share_encoded_backslash_escapes_witness:
  "is_path_within_root ''/Docs'' (''/Docs/..'' @ backslash # ''secret'')"
  using share_encoded_backslash_escapes[of "\<lambda>_. Some (''..'' @ backslash # ''secret'')"] by blast

end
