(* ===== verification/Cache_Policy.thy ===== *)
theory Cache_Policy
  imports Paths
begin

text \<open>
  Which paths a cache may hold (\<open>vfs/cache/policy.rs\<close>). Both cache managers own a \<open>cache_path_policy\<close>
  and consult \<open>allows\<close>; what they rely on is that it depends on the path alone and keeps the temp
  namespace and the recycle bin out.
\<close>

record cache_path_policy =
  allow_thumbnail_paths :: bool
  skip_extensions :: "string list"

definition normalize_extension :: "string \<Rightarrow> string" where
  "normalize_extension ext = to_ascii_lowercase (trim_start_matches dot (rust_trim ext))"

definition normalized_file_extension :: "string \<Rightarrow> string option" where
  "normalized_file_extension path =
     (let file_name = last (split_on slash path) in
      case rsplit_once dot file_name of
        None \<Rightarrow> None
      | Some (_, ext) \<Rightarrow>
          (let normalized = rust_trim ext in
           if normalized = [] then None else Some (normalize_extension normalized)))"

definition is_thumbnail_path :: "string \<Rightarrow> bool" where
  "is_thumbnail_path path =
     (let n = trim_end_matches slash path in
      n = ''/.thumbs'' \<or> n = ''/.thumbs_cache'' \<or> ends_with n ''/.thumbs'' \<or>
      contains n ''/.thumbs/'' \<or> starts_with n ''/.thumbs_cache/'' \<or>
      ends_with n ''/.thumbs_cache'' \<or> contains n ''/.thumbs_cache/'')"

definition is_temp_namespace_path :: "string \<Rightarrow> bool" where
  "is_temp_namespace_path path \<longleftrightarrow>
     starts_with path ''/.virtual/tmp'' \<or> contains path ''/.virtual/tmp/''"

definition is_recycle_bin_path :: "string \<Rightarrow> bool" where
  "is_recycle_bin_path path \<longleftrightarrow>
     path = ''/.recycle_bin'' \<or> starts_with path ''/.recycle_bin/'' \<or>
     ends_with path ''/.recycle_bin'' \<or> contains path ''/.recycle_bin/''"

definition policy_new :: "bool \<Rightarrow> string list \<Rightarrow> cache_path_policy" where
  "policy_new allow exts =
     \<lparr>allow_thumbnail_paths = allow, skip_extensions = map normalize_extension exts\<rparr>"

definition policy_allows :: "cache_path_policy \<Rightarrow> string \<Rightarrow> bool" where
  "policy_allows p path =
     (if is_temp_namespace_path path \<or> is_recycle_bin_path path then False
      else if \<not> allow_thumbnail_paths p \<and> is_thumbnail_path path then False
      else (case normalized_file_extension path of
              Some ext \<Rightarrow> ext \<notin> set (skip_extensions p)
            | None \<Rightarrow> True))"

section \<open>Logical and physical names of the same file\<close>

lemma contains_prepend: "contains s p \<Longrightarrow> contains (u @ s) p"
  by (auto simp: sublist_def) (metis append.assoc)

lemma suffix_prepend: "suffix p s \<Longrightarrow> suffix p (u @ s)"
  by (auto simp: suffix_def)

lemma recycle_physical:
  assumes "is_recycle_bin_path l" shows "is_recycle_bin_path (u @ l)"
proof -
  consider "l = ''/.recycle_bin''" | "prefix ''/.recycle_bin/'' l" | "suffix ''/.recycle_bin'' l"
    | "contains l ''/.recycle_bin/''"
    using assms by (auto simp: is_recycle_bin_path_def)
  then show ?thesis
  proof cases
    case 1
    then have "suffix ''/.recycle_bin'' (u @ l)" by (simp add: suffix_def)
    then show ?thesis by (simp add: is_recycle_bin_path_def)
  next
    case 2
    then have "contains l ''/.recycle_bin/''" using prefix_imp_sublist by blast
    then show ?thesis using contains_prepend by (simp add: is_recycle_bin_path_def)
  next
    case 3
    then have "suffix ''/.recycle_bin'' (u @ l)" by (rule suffix_prepend)
    then show ?thesis by (simp only: is_recycle_bin_path_def) blast
  next
    case 4
    then show ?thesis using contains_prepend by (simp add: is_recycle_bin_path_def)
  qed
qed

lemma policy_no_recycle: "is_recycle_bin_path l \<Longrightarrow> \<not> policy_allows p (u @ l)"
  by (simp add: policy_allows_def recycle_physical)

lemma split_on_last_append:
  "prefix ''/'' l \<Longrightarrow> last (split_on slash (u @ l)) = last (split_on slash l)"
proof -
  assume "prefix ''/'' l"
  then obtain q where l: "l = slash # q" by (auto simp: prefix_def)
  then show ?thesis using split_on_append[of slash u q] by simp
qed

lemma extension_physical:
  "prefix ''/'' l \<Longrightarrow> normalized_file_extension (u @ l) = normalized_file_extension l"
  by (simp add: normalized_file_extension_def split_on_last_append)

text \<open>
  No trashed file is ever cached: neither cache accepts a path of the recycle bin, in its logical
  form or below any user's directory, whatever the configuration.
\<close>

theorem recycle_bin_never_cached:
  "\<not> policy_allows p ''/.recycle_bin'' \<and> \<not> policy_allows p (''/.recycle_bin/'' @ name) \<and>
   \<not> policy_allows p (uid @ ''/.recycle_bin/'' @ name)"
proof -
  have "is_recycle_bin_path ''/.recycle_bin''" "is_recycle_bin_path (''/.recycle_bin/'' @ name)"
    by (simp_all add: is_recycle_bin_path_def)
  then show ?thesis
    using policy_no_recycle[of _ p "[]"] policy_no_recycle[of "''/.recycle_bin/'' @ name" p uid] by simp
qed

text \<open>
  The extension filter ignores ASCII case and leading dots of the configured extensions: a file is
  refused exactly when the lower-cased extension of its name is in the configured list after
  normalisation, for every directory it is in.
\<close>

theorem extension_filter_exact:
  assumes "\<not> is_temp_namespace_path path" "\<not> is_recycle_bin_path path"
    and "path = dir @ ''/'' @ stem @ ''.'' @ ext" "slash \<notin> set stem" "slash \<notin> set ext" "dot \<notin> set ext"
    and "rust_trim ext = ext" "ext \<noteq> []"
  shows "policy_allows (policy_new True exts) path \<longleftrightarrow>
         to_ascii_lowercase ext \<notin> normalize_extension ` set exts"
proof -
  have "last (split_on slash path) = stem @ dot # ext"
    using assms(3-5) split_on_append[of slash dir "stem @ dot # ext"]
    by (simp add: split_on_free)
  then have "normalized_file_extension path = Some (normalize_extension ext)"
    using rsplit_once_append[OF assms(6)] assms(7,8) by (simp add: normalized_file_extension_def)
  moreover have "normalize_extension ext = to_ascii_lowercase ext"
    using assms(6-8) by (cases ext)
      (auto simp: normalize_extension_def trim_start_matches_id)
  ultimately show ?thesis
    using assms(1,2) by (simp add: policy_allows_def policy_new_def)
qed

theorem extension_filter_exact_witness:
  "\<not> policy_allows (policy_new True [''.MP4'']) ''/v/a.mp4''"
proof -
  have t: "rust_trim ''mp4'' = ''mp4''" "rust_trim ''.MP4'' = ''.MP4''"
    by (simp_all add: rust_trim_plain plain_char_def)
  have n: "\<not> is_temp_namespace_path ''/v/a.mp4''" "\<not> is_recycle_bin_path ''/v/a.mp4''" by code_simp+
  have e: "normalize_extension ''.MP4'' = ''mp4''" "to_ascii_lowercase ''mp4'' = ''mp4''"
    unfolding normalize_extension_def t by code_simp+
  show ?thesis
    using extension_filter_exact[OF n, of "''/v''" "''a''" "''mp4''" "[''.MP4'']"] t e by simp
qed

end
