(* ===== verification/Maintenance.thy ===== *)
theory Maintenance
  imports Prelude
begin

text \<open>
  Who may work and who must wait: the set of users in maintenance mode (\<open>vfs/maintenance_mode.rs\<close>, a
  process-wide \<open>DashSet\<close> with RAII guards) and the locks of directory synchronisation
  (\<open>vfs/maintenance/sync_guard.rs\<close>, a two-level \<open>DashMap\<close> of shared mutexes).
\<close>

section \<open>Maintenance mode\<close>

text \<open>
  The state is the set of locked users, in iteration order, and the guards that are alive. A guard is the
  user it names; dropping one runs its \<open>Drop\<close>.
\<close>

record maintenance =
  locked_users :: "string list"
  live_guards :: "string list"

definition enter_user_maintenance :: "string \<Rightarrow> maintenance \<Rightarrow> maintenance" where
  "enter_user_maintenance u m =
     m\<lparr>locked_users := List.insert u (locked_users m), live_guards := u # live_guards m\<rparr>"

definition drop_guard :: "string \<Rightarrow> maintenance \<Rightarrow> maintenance" where
  "drop_guard u m =
     (if u \<in> set (live_guards m)
      then m\<lparr>locked_users := removeAll u (locked_users m), live_guards := remove1 u (live_guards m)\<rparr>
      else m)"

definition exit_user_maintenance :: "string \<Rightarrow> maintenance \<Rightarrow> maintenance" where
  "exit_user_maintenance u m = m\<lparr>locked_users := removeAll u (locked_users m)\<rparr>"

definition clear_all_maintenance :: "maintenance \<Rightarrow> maintenance" where
  "clear_all_maintenance m = m\<lparr>locked_users := []\<rparr>"

definition is_user_under_maintenance :: "string \<Rightarrow> maintenance \<Rightarrow> bool" where
  "is_user_under_maintenance u m \<longleftrightarrow> u \<in> set (locked_users m)"

definition get_all_locked_users :: "maintenance \<Rightarrow> string list" where
  "get_all_locked_users m = locked_users m"

definition is_maintenance_mode :: "maintenance \<Rightarrow> bool" where
  "is_maintenance_mode m \<longleftrightarrow> locked_users m \<noteq> []"

inductive maintenance_step :: "maintenance \<Rightarrow> maintenance \<Rightarrow> bool" where
  enter: "maintenance_step m (enter_user_maintenance u m)"
| drop: "u \<in> set (live_guards m) \<Longrightarrow> maintenance_step m (drop_guard u m)"
| exit: "maintenance_step m (exit_user_maintenance u m)"
| clear: "maintenance_step m (clear_all_maintenance m)"

inductive_cases maintenance_stepE: "maintenance_step m m'"

text \<open>
  C25: no lock without a guard: in every reachable state a locked user has a live guard, so a user
  whose guards are all gone is never left locked, on any path out of a recovery, and with no guard
  alive the whole process is out of maintenance mode.
\<close>

theorem maintenance_locks_are_guarded:
  assumes "maintenance_step\<^sup>*\<^sup>* \<lparr>locked_users = [], live_guards = []\<rparr> m"
  shows "(is_user_under_maintenance u m \<longrightarrow> u \<in> set (live_guards m)) \<and>
         (live_guards m = [] \<longrightarrow> \<not> is_maintenance_mode m)"
proof -
  have "set (locked_users m) \<subseteq> set (live_guards m)"
    using assms
  proof (induction rule: rtranclp_induct)
    case (step m m')
    from step(2) show ?case
      using step.IH
      by (elim maintenance_stepE)
        (auto simp: drop_guard_def enter_user_maintenance_def exit_user_maintenance_def
            clear_all_maintenance_def, metis in_set_remove1 subsetD)
  qed simp
  then show ?thesis by (auto simp: is_user_under_maintenance_def is_maintenance_mode_def)
qed

theorem maintenance_locks_are_guarded_witness:
  "\<not> is_maintenance_mode
      (drop_guard ''u'' (enter_user_maintenance ''u'' \<lparr>locked_users = [], live_guards = []\<rparr>))"
proof -
  let ?m = "enter_user_maintenance ''u'' \<lparr>locked_users = [], live_guards = []\<rparr>"
  have "maintenance_step\<^sup>*\<^sup>* \<lparr>locked_users = [], live_guards = []\<rparr> (drop_guard ''u'' ?m)"
  proof (rule rtranclp.rtrancl_into_rtrancl[OF r_into_rtranclp])
    show "maintenance_step \<lparr>locked_users = [], live_guards = []\<rparr> ?m" by (rule maintenance_step.enter)
    show "maintenance_step ?m (drop_guard ''u'' ?m)"
      by (rule maintenance_step.drop) (simp add: enter_user_maintenance_def)
  qed
  from maintenance_locks_are_guarded[OF this, of "''u''"] show ?thesis
    by (simp add: drop_guard_def enter_user_maintenance_def)
qed

text \<open>
  The guards do not count. Two recoveries of the same user each hold a guard; when the first one
  ends, its \<open>Drop\<close> takes the user out of maintenance mode although the second guard is still alive.
\<close>

theorem maintenance_guard_not_counted:
  "let m = drop_guard u (enter_user_maintenance u (enter_user_maintenance u \<lparr>locked_users = [], live_guards = []\<rparr>))
   in u \<in> set (live_guards m) \<and> \<not> is_user_under_maintenance u m"
  by (simp add: Let_def drop_guard_def enter_user_maintenance_def is_user_under_maintenance_def)

section \<open>Directory synchronisation locks\<close>

text \<open>
  \<open>PathGuard = Arc<Mutex<()>>\<close>: a guard is an identity, and the holders of its \<open>Arc\<close> outside the table
  are counted by \<open>sg_held\<close>. \<open>or_insert_with\<close> makes a fresh identity.
\<close>

record sync_guards =
  sg_table :: "(string \<times> (string \<times> nat) list) list"
  sg_held :: "nat list"
  sg_next :: nat

definition sg_lookup :: "string \<Rightarrow> string \<Rightarrow> sync_guards \<Rightarrow> nat option" where
  "sg_lookup u p s = (case map_of (sg_table s) u of None \<Rightarrow> None | Some ps \<Rightarrow> map_of ps p)"

definition al_set :: "'k \<Rightarrow> 'v \<Rightarrow> ('k \<times> 'v) list \<Rightarrow> ('k \<times> 'v) list" where
  "al_set k v xs = (k, v) # filter (\<lambda>q. fst q \<noteq> k) xs"

lemma map_of_al_set [simp]: "map_of (al_set k v xs) j = (if j = k then Some v else map_of xs j)"
  by (induction xs) (auto simp: al_set_def)

lemma distinct_al_set: "distinct (map fst xs) \<Longrightarrow> distinct (map fst (al_set k v xs))"
  by (auto simp: al_set_def distinct_map_filter)

definition get_guard :: "string \<Rightarrow> string \<Rightarrow> sync_guards \<Rightarrow> nat \<times> sync_guards" where
  "get_guard u p s =
     (case sg_lookup u p s of
        Some g \<Rightarrow> (g, s\<lparr>sg_held := g # sg_held s\<rparr>)
      | None \<Rightarrow>
          (let g = sg_next s;
               ps = (case map_of (sg_table s) u of Some ps \<Rightarrow> ps | None \<Rightarrow> []) in
           (g, s\<lparr>sg_table := al_set u (al_set p g ps) (sg_table s),
                 sg_held := g # sg_held s, sg_next := g + 1\<rparr>)))"

definition release_guard :: "nat \<Rightarrow> sync_guards \<Rightarrow> sync_guards" where
  "release_guard g s = s\<lparr>sg_held := remove1 g (sg_held s)\<rparr>"

definition sg_prune :: "sync_guards \<Rightarrow> sync_guards" where
  "sg_prune s =
     s\<lparr>sg_table := filter (\<lambda>(u, ps). ps \<noteq> [])
         (map (\<lambda>(u, ps). (u, filter (\<lambda>(p, g). g \<in> set (sg_held s)) ps)) (sg_table s))\<rparr>"

inductive sync_step :: "sync_guards \<Rightarrow> sync_guards \<Rightarrow> bool" where
  get: "sync_step s (snd (get_guard u p s))"
| release: "g \<in> set (sg_held s) \<Longrightarrow> sync_step s (release_guard g s)"
| prune: "sync_step s (sg_prune s)"

inductive_cases sync_stepE: "sync_step s s'"

definition sg_inv :: "sync_guards \<Rightarrow> bool" where
  "sg_inv s \<longleftrightarrow>
     distinct (map fst (sg_table s)) \<and> (\<forall>(u, ps) \<in> set (sg_table s). distinct (map fst ps)) \<and>
     (\<forall>u p g. sg_lookup u p s = Some g \<longrightarrow> g < sg_next s) \<and>
     (\<forall>u p u' p' g. sg_lookup u p s = Some g \<longrightarrow> sg_lookup u' p' s = Some g \<longrightarrow> u' = u \<and> p' = p)"

lemma map_of_map_filter_vals:
  "distinct (map fst xs) \<Longrightarrow>
   map_of (filter (\<lambda>(u, ps). ps \<noteq> []) (map (\<lambda>(u, ps). (u, f ps)) xs)) u =
   (case map_of xs u of None \<Rightarrow> None | Some ps \<Rightarrow> if f ps = [] then None else Some (f ps))"
proof (induction xs)
  case (Cons x xs)
  obtain v ps where x: "x = (v, ps)" by (cases x)
  have none: "map_of xs v = None" using Cons.prems x by (auto simp: map_of_eq_None_iff)
  show ?case
    using Cons x none by (cases "u = v") (auto split: option.splits)
qed simp

lemma map_of_filter_vals:
  "distinct (map fst ps) \<Longrightarrow>
   map_of (filter (\<lambda>(p, g). P g) ps) p = (case map_of ps p of None \<Rightarrow> None | Some g \<Rightarrow> if P g then Some g else None)"
proof (induction ps)
  case (Cons x ps)
  obtain q g where x: "x = (q, g)" by (cases x)
  have none: "map_of ps q = None" using Cons.prems x by (auto simp: map_of_eq_None_iff)
  show ?case
    using Cons x none by (cases "p = q") (auto split: option.splits)
qed simp

lemma sg_lookup_prune:
  assumes "sg_inv s"
  shows "sg_lookup u p (sg_prune s) =
    (case sg_lookup u p s of None \<Rightarrow> None | Some g \<Rightarrow> if g \<in> set (sg_held s) then Some g else None)"
proof (cases "map_of (sg_table s) u")
  case None
  then show ?thesis
    using assms by (simp add: sg_lookup_def sg_prune_def sg_inv_def map_of_map_filter_vals)
next
  case (Some ps)
  let ?f = "filter (\<lambda>(p, g). g \<in> set (sg_held s))"
  have d: "distinct (map fst ps)" using assms Some by (auto simp: sg_inv_def dest: map_of_SomeD)
  have "sg_lookup u p (sg_prune s) = map_of (?f ps) p"
    using assms Some by (simp add: sg_lookup_def sg_prune_def sg_inv_def map_of_map_filter_vals)
  then show ?thesis
    using Some d by (simp add: sg_lookup_def map_of_filter_vals)
qed

lemma sg_lookup_get:
  "sg_lookup u' p' (snd (get_guard u p s)) =
     (if sg_lookup u p s = None \<and> u' = u \<and> p' = p then Some (sg_next s) else sg_lookup u' p' s)"
  by (auto simp: get_guard_def sg_lookup_def Let_def split: option.splits)

lemma sg_shape_get:
  "sg_inv s \<Longrightarrow> s' = snd (get_guard u p s) \<Longrightarrow>
   distinct (map fst (sg_table s')) \<and> (\<forall>(u, ps) \<in> set (sg_table s'). distinct (map fst ps))"
  by (auto simp: get_guard_def Let_def sg_inv_def al_set_def distinct_map_filter split: option.splits
      dest!: map_of_SomeD)

lemma sg_inv_get:
  assumes "sg_inv s" shows "sg_inv (snd (get_guard u p s))"
proof (cases "sg_lookup u p s")
  case None
  have n: "sg_next (snd (get_guard u p s)) = Suc (sg_next s)"
    using None by (simp add: get_guard_def Let_def)
  have less: "sg_lookup u' p' s = Some g \<Longrightarrow> g < sg_next s" for u' p' g
    using assms by (auto simp: sg_inv_def)
  show ?thesis
    unfolding sg_inv_def
  proof (intro conjI allI impI)
    show "distinct (map fst (sg_table (snd (get_guard u p s))))"
      "\<forall>(u, ps)\<in>set (sg_table (snd (get_guard u p s))). distinct (map fst ps)"
      using sg_shape_get[OF assms refl] by blast+
    fix u' p' g assume g: "sg_lookup u' p' (snd (get_guard u p s)) = Some g"
    then show "g < sg_next (snd (get_guard u p s))"
      using n less by (auto simp: sg_lookup_get less_Suc_eq split: if_splits)
    fix u'' p'' assume "sg_lookup u'' p'' (snd (get_guard u p s)) = Some g"
    then have "u'' = u' \<and> p'' = p'"
      using g None less assms unfolding sg_lookup_get sg_inv_def
      by (auto split: if_splits)
    then show "u'' = u'" "p'' = p'" by simp_all
  qed
next
  case (Some g)
  then have "sg_table (snd (get_guard u p s)) = sg_table s" "sg_next (snd (get_guard u p s)) = sg_next s"
    by (simp_all add: get_guard_def)
  then show ?thesis using assms by (simp add: sg_inv_def sg_lookup_def)
qed

lemma sg_inv_prune:
  assumes "sg_inv s" shows "sg_inv (sg_prune s)"
proof -
  have look: "sg_lookup u p (sg_prune s) = Some g \<Longrightarrow> sg_lookup u p s = Some g" for u p g
    by (auto simp: sg_lookup_prune[OF assms] split: option.splits if_splits)
  have "distinct (map fst (sg_table (sg_prune s)))"
    "\<forall>(u, ps) \<in> set (sg_table (sg_prune s)). distinct (map fst ps)"
    using assms unfolding sg_inv_def sg_prune_def
    by (auto simp: distinct_map_filter comp_def case_prod_beta)
  moreover have "sg_next (sg_prune s) = sg_next s" by (simp add: sg_prune_def)
  ultimately show ?thesis
    using assms look unfolding sg_inv_def by (metis (no_types, lifting))
qed

lemma sg_inv_step: "sync_step s s' \<Longrightarrow> sg_inv s \<Longrightarrow> sg_inv s'"
  by (elim sync_stepE)
    (auto simp: sg_inv_get sg_inv_prune, simp add: sg_inv_def sg_lookup_def release_guard_def)

lemma sg_lookup_release [simp]: "sg_lookup u p (release_guard g s) = sg_lookup u p s"
  by (simp add: sg_lookup_def release_guard_def)

lemma sg_held_lookup:
  assumes "sync_step s s'" "sg_inv s" "sg_lookup u p s = Some g" "g \<in> set (sg_held s')"
    and "g \<in> set (sg_held s)"
  shows "sg_lookup u p s' = Some g"
  using assms(1)
  by (elim sync_stepE)
    (use assms in \<open>auto simp: sg_lookup_get sg_lookup_prune\<close>)

text \<open>
  The steps another task can take while somebody holds \<open>g\<close> all along: the table may be pruned, other
  guards taken and released.
\<close>

inductive while_held :: "nat \<Rightarrow> sync_guards \<Rightarrow> sync_guards \<Rightarrow> bool" for g where
  stay: "while_held g s s"
| move: "while_held g s s' \<Longrightarrow> sync_step s' s'' \<Longrightarrow> g \<in> set (sg_held s'') \<Longrightarrow> while_held g s s''"

text \<open>
  The locks exclude: as long as a task holds the guard of a directory, every other task that asks
  for the guard of the same user and path gets the same mutex, whatever was pruned, taken and released
  in between; and a request for another directory gets another mutex.
\<close>

theorem sync_guard_exclusive:
  assumes "sync_step\<^sup>*\<^sup>* \<lparr>sg_table = [], sg_held = [], sg_next = 0\<rparr> s0"
    and "get_guard u p s0 = (g, s1)" "while_held g s1 s2"
  shows "fst (get_guard u p s2) = g \<and> (fst (get_guard u' p' s2) = g \<longrightarrow> u' = u \<and> p' = p)"
proof -
  have "sg_inv s0" using assms(1)
    by (induction rule: rtranclp_induct) (auto simp: sg_inv_def[of "\<lparr>sg_table = _, sg_held = _, sg_next = _\<rparr>"]
        sg_lookup_def intro: sg_inv_step)
  moreover have "s1 = snd (get_guard u p s0)" using assms(2) by simp
  ultimately have s1: "sg_inv s1" "sg_lookup u p s1 = Some g" "g \<in> set (sg_held s1)"
    using assms(2) sg_inv_get
    by (auto simp: get_guard_def Let_def sg_lookup_def split: option.splits)
  have s2: "sg_inv s2 \<and> sg_lookup u p s2 = Some g \<and> g \<in> set (sg_held s2)"
    using assms(3) s1 by (induction rule: while_held.induct) (auto intro: sg_inv_step sg_held_lookup)
  have "u' = u \<and> p' = p" if eq: "fst (get_guard u' p' s2) = g"
  proof (cases "sg_lookup u' p' s2")
    case None
    then have "g = sg_next s2" using eq by (simp add: get_guard_def Let_def)
    then show ?thesis using s2 by (auto simp: sg_inv_def)
  next
    case (Some g')
    then have "sg_lookup u' p' s2 = Some g" using eq by (simp add: get_guard_def)
    then show ?thesis using s2 by (auto simp: sg_inv_def)
  qed
  then show ?thesis using s2 by (simp add: get_guard_def)
qed

theorem sync_guard_exclusive_witness:
  "let s0 = \<lparr>sg_table = [], sg_held = [], sg_next = 0\<rparr>; s1 = snd (get_guard ''u'' ''/a'' s0)
   in fst (get_guard ''u'' ''/a'' (sg_prune s1)) = 0"
proof -
  let ?s0 = "\<lparr>sg_table = [], sg_held = [], sg_next = 0\<rparr>" and ?s1 = "snd (get_guard ''u'' ''/a'' \<lparr>sg_table = [], sg_held = [], sg_next = 0\<rparr>)"
  have g: "get_guard ''u'' ''/a'' ?s0 = (0, ?s1)" by (simp add: get_guard_def sg_lookup_def Let_def)
  have "while_held 0 ?s1 (sg_prune ?s1)"
    by (rule while_held.move[OF while_held.stay sync_step.prune])
      (simp add: get_guard_def sg_lookup_def Let_def sg_prune_def)
  from sync_guard_exclusive[OF rtranclp.rtrancl_refl g this] show ?thesis by (simp add: Let_def)
qed

end
