(* ===== verification/Metrics.thy ===== *)
theory Metrics
  imports Prelude
begin

text \<open>
  The process-wide counters of \<open>vfs/metrics.rs\<close>. Every counter is an \<open>AtomicU64\<close> that only grows, with
  the wrapping \<open>fetch_add\<close>; the components below carry the counters they touch in their own state.
\<close>

record vfs_metrics =
  read_cache_hits :: u64
  read_cache_misses :: u64
  read_cache_puts :: u64
  read_cache_put_bytes :: u64
  write_cache_enqueues :: u64
  write_cache_bypasses :: u64
  write_cache_pending_reads :: u64
  write_cache_flush_success :: u64
  write_cache_flush_failures :: u64
  write_cache_abnormal_spills :: u64
  index_sync_spawned :: u64
  index_sync_skipped_debounce :: u64
  index_sync_skipped_inflight :: u64
  index_sync_completed :: u64
  index_sync_failed :: u64
  index_sync_rows :: u64
  index_sync_chunks :: u64
  quota_sync_scheduled :: u64
  quota_sync_success :: u64
  quota_sync_failed :: u64

definition record_read_cache_hit :: "vfs_metrics \<Rightarrow> vfs_metrics" where
  "record_read_cache_hit m = m\<lparr>read_cache_hits := read_cache_hits m + 1\<rparr>"

definition record_read_cache_miss :: "vfs_metrics \<Rightarrow> vfs_metrics" where
  "record_read_cache_miss m = m\<lparr>read_cache_misses := read_cache_misses m + 1\<rparr>"

definition record_read_cache_put :: "u64 \<Rightarrow> vfs_metrics \<Rightarrow> vfs_metrics" where
  "record_read_cache_put b m =
     m\<lparr>read_cache_puts := read_cache_puts m + 1, read_cache_put_bytes := read_cache_put_bytes m + b\<rparr>"

definition record_write_cache_enqueue :: "vfs_metrics \<Rightarrow> vfs_metrics" where
  "record_write_cache_enqueue m = m\<lparr>write_cache_enqueues := write_cache_enqueues m + 1\<rparr>"

definition record_write_cache_bypass :: "vfs_metrics \<Rightarrow> vfs_metrics" where
  "record_write_cache_bypass m = m\<lparr>write_cache_bypasses := write_cache_bypasses m + 1\<rparr>"

definition record_write_cache_pending_read :: "vfs_metrics \<Rightarrow> vfs_metrics" where
  "record_write_cache_pending_read m = m\<lparr>write_cache_pending_reads := write_cache_pending_reads m + 1\<rparr>"

definition record_write_cache_flush_success :: "vfs_metrics \<Rightarrow> vfs_metrics" where
  "record_write_cache_flush_success m = m\<lparr>write_cache_flush_success := write_cache_flush_success m + 1\<rparr>"

definition record_write_cache_flush_failure :: "vfs_metrics \<Rightarrow> vfs_metrics" where
  "record_write_cache_flush_failure m = m\<lparr>write_cache_flush_failures := write_cache_flush_failures m + 1\<rparr>"

definition record_write_cache_abnormal_spill :: "vfs_metrics \<Rightarrow> vfs_metrics" where
  "record_write_cache_abnormal_spill m = m\<lparr>write_cache_abnormal_spills := write_cache_abnormal_spills m + 1\<rparr>"

definition record_index_sync_spawned :: "vfs_metrics \<Rightarrow> vfs_metrics" where
  "record_index_sync_spawned m = m\<lparr>index_sync_spawned := index_sync_spawned m + 1\<rparr>"

definition record_index_sync_skipped_debounce :: "vfs_metrics \<Rightarrow> vfs_metrics" where
  "record_index_sync_skipped_debounce m = m\<lparr>index_sync_skipped_debounce := index_sync_skipped_debounce m + 1\<rparr>"

definition record_index_sync_skipped_inflight :: "vfs_metrics \<Rightarrow> vfs_metrics" where
  "record_index_sync_skipped_inflight m = m\<lparr>index_sync_skipped_inflight := index_sync_skipped_inflight m + 1\<rparr>"

definition record_index_sync_completed :: "u64 \<Rightarrow> u64 \<Rightarrow> vfs_metrics \<Rightarrow> vfs_metrics" where
  "record_index_sync_completed rows chunks m =
     m\<lparr>index_sync_completed := index_sync_completed m + 1,
       index_sync_rows := index_sync_rows m + rows,
       index_sync_chunks := index_sync_chunks m + chunks\<rparr>"

definition record_index_sync_failed :: "vfs_metrics \<Rightarrow> vfs_metrics" where
  "record_index_sync_failed m = m\<lparr>index_sync_failed := index_sync_failed m + 1\<rparr>"

definition record_quota_sync_scheduled :: "vfs_metrics \<Rightarrow> vfs_metrics" where
  "record_quota_sync_scheduled m = m\<lparr>quota_sync_scheduled := quota_sync_scheduled m + 1\<rparr>"

definition record_quota_sync_success :: "vfs_metrics \<Rightarrow> vfs_metrics" where
  "record_quota_sync_success m = m\<lparr>quota_sync_success := quota_sync_success m + 1\<rparr>"

definition record_quota_sync_failed :: "vfs_metrics \<Rightarrow> vfs_metrics" where
  "record_quota_sync_failed m = m\<lparr>quota_sync_failed := quota_sync_failed m + 1\<rparr>"

definition zero_metrics :: vfs_metrics where
  "zero_metrics =
     \<lparr>read_cache_hits = 0, read_cache_misses = 0, read_cache_puts = 0, read_cache_put_bytes = 0,
      write_cache_enqueues = 0, write_cache_bypasses = 0, write_cache_pending_reads = 0,
      write_cache_flush_success = 0, write_cache_flush_failures = 0, write_cache_abnormal_spills = 0,
      index_sync_spawned = 0, index_sync_skipped_debounce = 0, index_sync_skipped_inflight = 0,
      index_sync_completed = 0, index_sync_failed = 0, index_sync_rows = 0, index_sync_chunks = 0,
      quota_sync_scheduled = 0, quota_sync_success = 0, quota_sync_failed = 0\<rparr>"

end
