(* ===== verification/Cache_Store.thy ===== *)
theory Cache_Store
  imports Paths
begin

text \<open>
  What the read cache and the write cache share (\<open>vfs/cache/read_cache.rs\<close>, \<open>vfs/cache/write_cache.rs\<close>):
  a keyed table of entries (a \<open>DashMap\<close>, here an association list in its iteration order), an atomic
  byte counter next to it, and blobs with JSON sidecar files in a local directory. The local file
  system is a map; every write, read and removal can fail, as the environment says, and a failed write
  leaves whatever the environment says it leaves. SHA-256 is a parameter.
\<close>

section \<open>Local files\<close>

datatype 'm cache_file = DataFile string | MetaFile 'm | TornFile

type_synonym 'm cache_fs = "string \<Rightarrow> 'm cache_file option"

record 'm fs_env =
  wr_ok :: "string \<Rightarrow> bool"
  rd_ok :: "string \<Rightarrow> bool"
  rm_ok :: "string \<Rightarrow> bool"
  mkdir_ok :: "string \<Rightarrow> bool"
  torn :: "string \<Rightarrow> 'm cache_file option"
  hash :: "string \<Rightarrow> string"

definition fs_write :: "'m fs_env \<Rightarrow> string \<Rightarrow> 'm cache_file \<Rightarrow> 'm cache_fs \<Rightarrow> bool \<times> 'm cache_fs" where
  "fs_write env p f fs = (if wr_ok env p then (True, fs(p \<mapsto> f)) else (False, fs(p := torn env p)))"

definition fs_read :: "'m fs_env \<Rightarrow> string \<Rightarrow> 'm cache_fs \<Rightarrow> string option" where
  "fs_read env p fs =
     (if rd_ok env p then (case fs p of Some (DataFile d) \<Rightarrow> Some d | _ \<Rightarrow> None) else None)"

definition fs_remove :: "'m fs_env \<Rightarrow> string \<Rightarrow> 'm cache_fs \<Rightarrow> 'm cache_fs" where
  "fs_remove env p fs = (if rm_ok env p then fs(p := None) else fs)"

definition join_path :: "string \<Rightarrow> string \<Rightarrow> string" where
  "join_path root name =
     (if root = [] then name else if ends_with root ''/'' then root @ name else root @ ''/'' @ name)"

definition data_path :: "'m fs_env \<Rightarrow> string \<Rightarrow> string \<Rightarrow> string" where
  "data_path env root key = join_path root (hash env key @ ''.bin'')"

definition meta_path :: "'m fs_env \<Rightarrow> string \<Rightarrow> string \<Rightarrow> string" where
  "meta_path env root key = join_path root (hash env key @ ''.json'')"

definition all_ok :: "'m fs_env \<Rightarrow> bool" where
  "all_ok env \<longleftrightarrow> wr_ok env = (\<lambda>_. True) \<and> rd_ok env = (\<lambda>_. True) \<and>
     rm_ok env = (\<lambda>_. True) \<and> mkdir_ok env = (\<lambda>_. True)"

lemma suffix_distinct: "x @ ''.bin'' \<noteq> y @ ''.json''"
proof
  assume "x @ ''.bin'' = y @ ''.json''"
  then have "rev (x @ ''.bin'') = rev (y @ ''.json'')" by simp
  then show False by simp
qed

lemma data_meta_distinct [simp]: "data_path env root k \<noteq> meta_path env root j"
proof -
  have "join_path root a = join_path root b \<Longrightarrow> a = b" for a b
    by (auto simp: join_path_def split: if_splits)
  then show ?thesis
    unfolding data_path_def meta_path_def using suffix_distinct by metis
qed

section \<open>Keyed tables\<close>

definition al_remove :: "'k \<Rightarrow> ('k \<times> 'e) list \<Rightarrow> ('k \<times> 'e) list" where
  "al_remove k es = filter (\<lambda>p. fst p \<noteq> k) es"

definition al_put :: "'k \<Rightarrow> 'e \<Rightarrow> ('k \<times> 'e) list \<Rightarrow> ('k \<times> 'e) list" where
  "al_put k e es = al_remove k es @ [(k, e)]"

definition al_update :: "'k \<Rightarrow> ('e \<Rightarrow> 'e) \<Rightarrow> ('k \<times> 'e) list \<Rightarrow> ('k \<times> 'e) list" where
  "al_update k f es = map (\<lambda>p. if fst p = k then (fst p, f (snd p)) else p) es"

lemma map_of_al_remove [simp]: "map_of (al_remove k es) j = (if j = k then None else map_of es j)"
  by (induction es) (auto simp: al_remove_def)

lemma map_of_append_None: "map_of es j = None \<Longrightarrow> map_of (es @ [(k, e)]) j = (if j = k then Some e else None)"
  by (induction es) (auto split: if_splits)

lemma map_of_al_put [simp]: "map_of (al_put k e es) j = (if j = k then Some e else map_of es j)"
proof -
  have "map_of (al_put k e es) = map_of [(k, e)] ++ map_of (al_remove k es)"
    by (simp add: al_put_def)
  then show ?thesis by (auto simp: map_add_def split: option.splits)
qed

lemma map_of_al_update [simp]:
  "map_of (al_update k f es) j = (if j = k then map_option f (map_of es j) else map_of es j)"
  by (induction es) (auto simp: al_update_def)

lemma keys_al_remove [simp]: "map fst (al_remove k es) = filter (\<lambda>j. j \<noteq> k) (map fst es)"
  by (induction es) (auto simp: al_remove_def)

lemma keys_al_update [simp]: "map fst (al_update k f es) = map fst es"
  by (induction es) (auto simp: al_update_def)

lemma distinct_al_remove [simp]: "distinct (map fst es) \<Longrightarrow> distinct (map fst (al_remove k es))"
  by simp

lemma distinct_al_put [simp]: "distinct (map fst es) \<Longrightarrow> distinct (map fst (al_put k e es))"
  unfolding al_put_def map_append keys_al_remove by simp

lemma al_remove_id: "map_of es k = None \<Longrightarrow> al_remove k es = es"
  by (auto simp: al_remove_def map_of_eq_None_iff intro!: filter_True)

lemma set_al_remove [simp]: "set (al_remove k es) = {p \<in> set es. fst p \<noteq> k}"
  by (auto simp: al_remove_def)

lemma length_al_remove: "map_of es k = Some e \<Longrightarrow> length (al_remove k es) < length es"
  by (auto simp: al_remove_def intro!: length_filter_less dest!: map_of_SomeD)

section \<open>The byte ledger\<close>

definition total_bytes :: "('e \<Rightarrow> u64) \<Rightarrow> ('k \<times> 'e) list \<Rightarrow> nat" where
  "total_bytes w es = sum_list (map (\<lambda>p. unat (w (snd p))) es)"

lemma total_bytes_append [simp]:
  "total_bytes w (xs @ ys) = total_bytes w xs + total_bytes w ys"
  by (simp add: total_bytes_def)

lemma total_bytes_Nil [simp]: "total_bytes w [] = 0"
  by (simp add: total_bytes_def)

lemma total_bytes_Cons [simp]: "total_bytes w (p # es) = unat (w (snd p)) + total_bytes w es"
  by (simp add: total_bytes_def)

lemma total_bytes_remove:
  assumes "distinct (map fst es)" "map_of es k = Some e"
  shows "total_bytes w es = unat (w e) + total_bytes w (al_remove k es)"
  using assms
proof (induction es)
  case (Cons p es)
  show ?case
  proof (cases "fst p = k")
    case True
    then have "map_of es k = None" using Cons.prems(1) by (auto simp: map_of_eq_None_iff)
    then have "al_remove k es = es" by (rule al_remove_id)
    then show ?thesis using True Cons.prems by (simp add: al_remove_def)
  next
    case False
    then show ?thesis using Cons by (auto simp: al_remove_def split: if_splits)
  qed
qed simp

lemma total_bytes_remove_le: "total_bytes w (al_remove k es) \<le> total_bytes w es"
  by (induction es) (auto simp: al_remove_def)

lemma total_bytes_update:
  assumes "distinct (map fst es)" "map_of es k = Some e"
  shows "total_bytes w (al_update k f es) + unat (w e) = total_bytes w es + unat (w (f e))"
  using assms
proof (induction es)
  case (Cons p es)
  show ?case
  proof (cases "fst p = k")
    case True
    then have "\<forall>q \<in> set es. fst q \<noteq> k" using Cons.prems(1) True by (auto simp: image_iff)
    then have "al_update k f es = es"
      unfolding al_update_def by (intro map_idI) auto
    then show ?thesis using True Cons.prems by (simp add: al_update_def)
  next
    case False
    then show ?thesis using Cons by (auto simp: al_update_def split: if_splits)
  qed
qed simp

text \<open>
  The contract between a cache's table and its counter: dropping a key removes its entry and subtracts
  its weight with the wrapping \<open>fetch_sub\<close>. A cache whose counter equals the sum of the weights keeps it so.
\<close>

locale byte_ledger =
  fixes entries :: "'s \<Rightarrow> (string \<times> 'e) list"
    and weight :: "'s \<Rightarrow> 'e \<Rightarrow> u64"
    and counter :: "'s \<Rightarrow> u64"
    and drop_key :: "string \<Rightarrow> 's \<Rightarrow> 's"
  assumes drop_entries: "entries (drop_key k s) = al_remove k (entries s)"
    and drop_counter: "map_of (entries s) k = Some e \<Longrightarrow> counter (drop_key k s) = counter s - weight s e"
    and drop_absent: "map_of (entries s) k = None \<Longrightarrow> counter (drop_key k s) = counter s"
    and drop_weight: "weight (drop_key k s) = weight s"
begin

definition balanced :: "'s \<Rightarrow> bool" where
  "balanced s \<longleftrightarrow> distinct (map fst (entries s)) \<and>
     counter s = word_of_nat (total_bytes (weight s) (entries s)) \<and>
     total_bytes (weight s) (entries s) < 2 ^ 64"

lemma balanced_counter: "balanced s \<Longrightarrow> unat (counter s) = total_bytes (weight s) (entries s)"
  by (simp add: balanced_def unat_of_nat)

lemma balanced_drop:
  assumes "balanced s"
  shows "balanced (drop_key k s)"
proof -
  have le: "total_bytes (weight s) (al_remove k (entries s)) < 2 ^ 64"
    using assms total_bytes_remove_le[of "weight s" k "entries s"] by (simp add: balanced_def)
  have "counter (drop_key k s) = word_of_nat (total_bytes (weight s) (al_remove k (entries s)))"
  proof (cases "map_of (entries s) k")
    case None
    then show ?thesis using assms by (simp add: balanced_def drop_absent al_remove_id)
  next
    case (Some e)
    then show ?thesis
      using assms total_bytes_remove[of "entries s" k e "weight s"]
      by (simp add: balanced_def drop_counter)
  qed
  then show ?thesis
    using assms le by (simp add: balanced_def drop_entries drop_weight del: keys_al_remove)
qed

lemma balanced_drop_total:
  "total_bytes (weight (drop_key k s)) (entries (drop_key k s)) \<le> total_bytes (weight s) (entries s)"
  by (simp add: drop_entries drop_weight total_bytes_remove_le)

lemma balanced_fold_drop:
  "balanced s \<Longrightarrow> balanced (fold drop_key ks s)"
  by (induction ks arbitrary: s) (auto intro: balanced_drop)

lemma entries_fold_drop:
  "entries (fold drop_key ks s) = filter (\<lambda>p. fst p \<notin> set ks) (entries s)"
  by (induction ks arbitrary: s) (auto simp: drop_entries al_remove_def intro!: filter_cong)

end

end
