(* ===== verification/Read_Cache.thy ===== *)
theory Read_Cache
  imports Metrics Cache_Policy Cache_Store
begin

text \<open>
  The read cache (\<open>vfs/cache/read_cache.rs\<close>): a table of entries with an expiry time and a last access
  time, bounded in bytes, whose blobs are held in memory or in a local directory with a JSON sidecar
  file each. The state is that of \<open>ReadCacheManager\<close> with the files of its directory and the counters it
  reports. The clock is an argument of each operation, one reading for each \<open>now_ts()\<close> of the code.
\<close>

datatype read_backend = ReadMemory | ReadLocalDir

datatype read_blob = MemBlob string | DiskBlob string

record rc_entry =
  re_key :: string
  re_info :: vfs_file_info
  re_size :: u64
  re_last :: int
  re_expires :: int
  re_blob :: read_blob

record read_meta =
  dm_key :: string
  dm_info :: vfs_file_info
  dm_size :: u64
  dm_created :: int
  dm_expires :: int

record read_cache =
  rc_enabled :: bool
  rc_backend :: read_backend
  rc_root :: string
  rc_capacity :: u64
  rc_max_file :: u64
  rc_ttl :: u64
  rc_cleanup_interval :: u64
  rc_policy :: cache_path_policy
  rc_entries :: "(string \<times> rc_entry) list"
  rc_accounted :: u64
  rc_last_cleanup :: int
  rc_fs :: "read_meta cache_fs"
  rc_metrics :: vfs_metrics

record read_cache_config =
  cfg_enable :: bool
  cfg_backend :: string
  cfg_local_dir :: string
  cfg_capacity :: u64
  cfg_max_file :: u64
  cfg_ttl :: u64
  cfg_thumbs :: bool
  cfg_skip :: "string list"

text \<open>\<open>created_at + self.ttl_secs as i64\<close>: the cast reinterprets, the sum wraps.\<close>

definition expiry :: "int \<Rightarrow> u64 \<Rightarrow> int" where
  "expiry created ttl = sint (word_of_int (created + sint ttl) :: u64)"

definition rc_should_cache :: "read_cache \<Rightarrow> string \<Rightarrow> u64 \<Rightarrow> bool" where
  "rc_should_cache s path sz \<longleftrightarrow>
     rc_enabled s \<and> policy_allows (rc_policy s) path \<and> sz > 0 \<and>
     sz \<le> rc_max_file s \<and> sz \<le> rc_capacity s"

definition rc_remove :: "read_meta fs_env \<Rightarrow> string \<Rightarrow> read_cache \<Rightarrow> read_cache" where
  "rc_remove env key s =
     (case map_of (rc_entries s) key of
        None \<Rightarrow> s
      | Some e \<Rightarrow>
          (let s1 = s\<lparr>rc_entries := al_remove key (rc_entries s), rc_accounted := rc_accounted s - re_size e\<rparr> in
           case re_blob e of
             MemBlob _ \<Rightarrow> s1
           | DiskBlob p \<Rightarrow>
               s1\<lparr>rc_fs := fs_remove env (meta_path env (rc_root s) (re_key e)) (fs_remove env p (rc_fs s))\<rparr>))"

definition rc_miss :: "read_cache \<Rightarrow> read_cache" where
  "rc_miss s = s\<lparr>rc_metrics := record_read_cache_miss (rc_metrics s)\<rparr>"

definition rc_hit :: "read_cache \<Rightarrow> read_cache" where
  "rc_hit s = s\<lparr>rc_metrics := record_read_cache_hit (rc_metrics s)\<rparr>"

definition rc_get ::
  "read_meta fs_env \<Rightarrow> int \<Rightarrow> string \<Rightarrow> read_cache \<Rightarrow> (string \<times> vfs_file_info) option \<times> read_cache" where
  "rc_get env now key s =
     (if \<not> rc_enabled s \<or> \<not> policy_allows (rc_policy s) key then (None, rc_miss s)
      else case map_of (rc_entries s) key of
        None \<Rightarrow> (None, rc_miss s)
      | Some e \<Rightarrow>
          if re_expires e \<le> now then (None, rc_miss (rc_remove env key s))
          else
            (let s1 = s\<lparr>rc_entries := al_update key (\<lambda>e. e\<lparr>re_last := now\<rparr>) (rc_entries s)\<rparr> in
             case re_blob e of
               MemBlob d \<Rightarrow> (Some (d, re_info e), rc_hit s1)
             | DiskBlob p \<Rightarrow>
                 (case fs_read env p (rc_fs s) of
                    Some d \<Rightarrow> (Some (d, re_info e), rc_hit s1)
                  | None \<Rightarrow> (None, rc_miss (rc_remove env key s1)))))"

definition rc_cleanup :: "read_meta fs_env \<Rightarrow> int \<Rightarrow> bool \<Rightarrow> read_cache \<Rightarrow> read_cache" where
  "rc_cleanup env now force s =
     (if \<not> force \<and> sat_sub_i64 now (rc_last_cleanup s) < sint (rc_cleanup_interval s) then s
      else
        (let expired_keys = map fst (filter (\<lambda>p. re_expires (snd p) \<le> now) (rc_entries s)) in
         fold (rc_remove env) expired_keys (s\<lparr>rc_last_cleanup := now\<rparr>)))"

text \<open>\<open>min_by_key\<close> returns the first entry with the least access time.\<close>

fun oldest :: "(string \<times> rc_entry) list \<Rightarrow> (string \<times> rc_entry) option" where
  "oldest [] = None"
| "oldest (p # ps) =
     (case oldest ps of
        None \<Rightarrow> Some p
      | Some q \<Rightarrow> if re_last (snd p) \<le> re_last (snd q) then Some p else Some q)"

lemma oldest_Some:
  "oldest ps = Some q \<Longrightarrow> q \<in> set ps \<and> (\<forall>p \<in> set ps. re_last (snd q) \<le> re_last (snd p))"
proof (induction ps arbitrary: q)
  case (Cons p ps)
  show ?case
  proof (cases "oldest ps")
    case None
    then have "ps = []" by (cases ps) (auto split: option.splits if_splits)
    then show ?thesis using Cons.prems by simp
  next
    case (Some r)
    note IH = Cons.IH[OF Some]
    show ?thesis
    proof (cases "re_last (snd p) \<le> re_last (snd r)")
      case True
      then show ?thesis using Cons.prems Some IH by (auto intro: order_trans)
    next
      case False
      then show ?thesis using Cons.prems Some IH by auto
    qed
  qed
qed simp

lemma oldest_None [simp]: "oldest ps = None \<longleftrightarrow> ps = []"
  by (cases ps) (auto split: option.splits)

lemma rc_remove_entries: "rc_entries (rc_remove env k s) = al_remove k (rc_entries s)"
  by (auto simp: rc_remove_def Let_def al_remove_id split: option.splits read_blob.splits)

function rc_evict :: "read_meta fs_env \<Rightarrow> u64 \<Rightarrow> read_cache \<Rightarrow> bool \<times> read_cache" where
  "rc_evict env required s =
     (if sat_add_u64 (rc_accounted s) required \<le> rc_capacity s then (True, s)
      else case oldest (rc_entries s) of
        None \<Rightarrow> (False, s)
      | Some (key, _) \<Rightarrow> rc_evict env required (rc_remove env key s))"
  by pat_completeness auto
termination
proof (relation "measure (\<lambda>(env, r, s). length (rc_entries s))", goal_cases)
  case (2 env required s p key e)
  then have "(key, e) \<in> set (rc_entries s)" by (metis oldest_Some)
  then show ?case
    by (auto simp: rc_remove_entries al_remove_def intro!: length_filter_less)
qed simp

declare rc_evict.simps [simp del]

definition rc_ensure_capacity :: "read_meta fs_env \<Rightarrow> int \<Rightarrow> u64 \<Rightarrow> read_cache \<Rightarrow> bool \<times> read_cache" where
  "rc_ensure_capacity env now required s = rc_evict env required (rc_cleanup env now True s)"

text \<open>The three clock readings of a \<open>put\<close>: the due clean-up, the forced one, and the creation time.\<close>

definition rc_put ::
  "read_meta fs_env \<Rightarrow> int \<times> int \<times> int \<Rightarrow> string \<Rightarrow> string \<Rightarrow> vfs_file_info \<Rightarrow> read_cache \<Rightarrow> read_cache" where
  "rc_put env ts key data info s =
     (case ts of (t1, t2, created_at) \<Rightarrow>
      (let sz = word_of_nat (length data) in
       if \<not> rc_should_cache s key sz then s
       else
         (let (ok, s1) = rc_ensure_capacity env t2 sz (rc_cleanup env t1 False (rc_remove env key s)) in
          if \<not> ok then s1
          else
            (let expires_at = expiry created_at (rc_ttl s1);
                 insert_entry = (\<lambda>blob s2.
                   s2\<lparr>rc_accounted := rc_accounted s2 + sz,
                      rc_entries := al_put key \<lparr>re_key = key, re_info = info, re_size = sz,
                        re_last = created_at, re_expires = expires_at, re_blob = blob\<rparr> (rc_entries s2),
                      rc_metrics := record_read_cache_put sz (rc_metrics s2)\<rparr>) in
             case rc_backend s1 of
               ReadMemory \<Rightarrow> insert_entry (MemBlob data) s1
             | ReadLocalDir \<Rightarrow>
                 (let dp = data_path env (rc_root s1) key;
                      mp = meta_path env (rc_root s1) key;
                      meta = \<lparr>dm_key = key, dm_info = info, dm_size = sz,
                              dm_created = created_at, dm_expires = expires_at\<rparr>;
                      (ok1, fs1) = fs_write env dp (DataFile data) (rc_fs s1);
                      (ok2, fs2) = (if ok1 then fs_write env mp (MetaFile meta) fs1 else (False, fs1)) in
                  if \<not> ok2 then s1\<lparr>rc_fs := fs_remove env mp (fs_remove env dp fs2)\<rparr>
                  else insert_entry (DiskBlob dp) (s1\<lparr>rc_fs := fs2\<rparr>))))))"

section \<open>Loading a directory\<close>

text \<open>
  \<open>listing\<close> is what \<open>read_dir\<close> yields, each name with the clock reading of its turn; \<open>None\<close> when the
  directory cannot be read.
\<close>

definition json_name :: "string \<Rightarrow> bool" where
  "json_name name = (case rsplit_once dot name of Some (stem, ext) \<Rightarrow> stem \<noteq> [] \<and> ext = ''json'' | None \<Rightarrow> False)"

definition rc_load_one :: "read_meta fs_env \<Rightarrow> string \<times> int \<Rightarrow> read_cache \<Rightarrow> read_cache" where
  "rc_load_one env nt s =
     (case nt of (name, now) \<Rightarrow>
      (let path = join_path (rc_root s) name in
       if \<not> json_name name then s
       else if \<not> rd_ok env path then s
       else case rc_fs s path of
         Some (MetaFile meta) \<Rightarrow>
           (let dp = data_path env (rc_root s) (dm_key meta) in
            if dm_expires meta \<le> now then s\<lparr>rc_fs := fs_remove env dp (fs_remove env path (rc_fs s))\<rparr>
            else if rc_fs s dp = None then s\<lparr>rc_fs := fs_remove env path (rc_fs s)\<rparr>
            else s\<lparr>rc_accounted := rc_accounted s + dm_size meta,
                   rc_entries := al_put (dm_key meta)
                     \<lparr>re_key = dm_key meta, re_info = dm_info meta, re_size = dm_size meta,
                      re_last = dm_created meta, re_expires = dm_expires meta,
                      re_blob = DiskBlob dp\<rparr> (rc_entries s)\<rparr>)
       | _ \<Rightarrow> s))"

definition rc_load ::
  "read_meta fs_env \<Rightarrow> (string \<times> int) list option \<Rightarrow> int \<Rightarrow> read_cache \<Rightarrow> read_cache" where
  "rc_load env listing now s =
     (if \<not> rc_enabled s \<or> rc_backend s \<noteq> ReadLocalDir then s
      else case listing of
        None \<Rightarrow> s
      | Some names \<Rightarrow> rc_cleanup env now True (fold (rc_load_one env) names s))"

definition rc_new ::
  "read_meta fs_env \<Rightarrow> read_meta cache_fs \<Rightarrow> (string \<times> int) list option \<Rightarrow> int \<Rightarrow> string \<Rightarrow>
   read_cache_config \<Rightarrow> string + read_cache" where
  "rc_new env fs listing now pool_name cfg =
     (let backend = (if cfg_backend cfg = ''memory'' then ReadMemory else ReadLocalDir);
          root = (if starts_with pool_name ''/'' then pool_name else join_path (cfg_local_dir cfg) pool_name) in
      if backend = ReadLocalDir \<and> \<not> mkdir_ok env root then Inl ''create_dir_all''
      else Inr (rc_load env listing now
        \<lparr>rc_enabled = cfg_enable cfg, rc_backend = backend, rc_root = root,
         rc_capacity = cfg_capacity cfg, rc_max_file = cfg_max_file cfg, rc_ttl = cfg_ttl cfg,
         rc_cleanup_interval = max 1 (min 60 (cfg_ttl cfg div 4)),
         rc_policy = policy_new (cfg_thumbs cfg) (cfg_skip cfg),
         rc_entries = [], rc_accounted = 0, rc_last_cleanup = 0, rc_fs = fs,
         rc_metrics = zero_metrics\<rparr>))"

section \<open>The frame of the operations\<close>

lemma rc_remove_frame [simp]:
  "rc_enabled (rc_remove env k s) = rc_enabled s"
  "rc_backend (rc_remove env k s) = rc_backend s"
  "rc_root (rc_remove env k s) = rc_root s"
  "rc_capacity (rc_remove env k s) = rc_capacity s"
  "rc_max_file (rc_remove env k s) = rc_max_file s"
  "rc_ttl (rc_remove env k s) = rc_ttl s"
  "rc_policy (rc_remove env k s) = rc_policy s"
  "rc_last_cleanup (rc_remove env k s) = rc_last_cleanup s"
  "rc_metrics (rc_remove env k s) = rc_metrics s"
  by (auto simp: rc_remove_def Let_def split: option.splits read_blob.splits)

text \<open>
  Everything the cache does on its own account is a sequence of removals. A relation that holds between
  a state and the state with other files removed covers them all.
\<close>

definition rc_shrinks :: "read_cache \<Rightarrow> read_cache \<Rightarrow> bool" where
  "rc_shrinks s t \<longleftrightarrow>
     rc_enabled t = rc_enabled s \<and> rc_backend t = rc_backend s \<and> rc_root t = rc_root s \<and>
     rc_capacity t = rc_capacity s \<and> rc_max_file t = rc_max_file s \<and> rc_ttl t = rc_ttl s \<and>
     rc_policy t = rc_policy s \<and>
     (\<exists>P. rc_entries t = filter P (rc_entries s)) \<and>
     (\<forall>k. map_of (rc_entries t) k = None \<or> map_of (rc_entries t) k = map_of (rc_entries s) k) \<and>
     (\<forall>p. rc_fs t p = None \<or> rc_fs t p = rc_fs s p)"

lemma rc_shrinks_refl [simp]: "rc_shrinks s s"
  by (auto simp: rc_shrinks_def intro!: exI[of _ "\<lambda>_. True"])

lemma rc_shrinks_trans: "rc_shrinks s t \<Longrightarrow> rc_shrinks t u \<Longrightarrow> rc_shrinks s u"
proof -
  assume st: "rc_shrinks s t" and tu: "rc_shrinks t u"
  then obtain P Q where "rc_entries t = filter P (rc_entries s)" "rc_entries u = filter Q (rc_entries t)"
    by (auto simp: rc_shrinks_def)
  then have "rc_entries u = filter (\<lambda>x. P x \<and> Q x) (rc_entries s)" by (simp add: filter_filter conj_commute)
  with st tu show ?thesis unfolding rc_shrinks_def by metis
qed

lemma fs_remove_shrinks: "fs_remove env q fs p = None \<or> fs_remove env q fs p = fs p"
  by (simp add: fs_remove_def)

lemma rc_remove_fs: "rc_fs (rc_remove env k s) p = None \<or> rc_fs (rc_remove env k s) p = rc_fs s p"
  by (auto simp: rc_remove_def Let_def fs_remove_def split: option.splits read_blob.splits)

lemma rc_remove_shrinks: "rc_shrinks s (rc_remove env k s)"
proof -
  have "\<exists>P. al_remove k (rc_entries s) = filter P (rc_entries s)"
    unfolding al_remove_def by blast
  then show ?thesis
    using rc_remove_fs[of env k s] by (auto simp: rc_shrinks_def rc_remove_entries)
qed

lemma rc_fold_remove_shrinks: "rc_shrinks s (fold (rc_remove env) ks s)"
  by (induction ks arbitrary: s) (auto intro: rc_shrinks_trans[OF rc_remove_shrinks])

lemma rc_cleanup_shrinks: "rc_shrinks s (rc_cleanup env now force s)"
proof -
  have "rc_shrinks s (s\<lparr>rc_last_cleanup := now\<rparr>)"
    by (auto simp: rc_shrinks_def intro!: exI[of _ "\<lambda>_. True"])
  then show ?thesis
    by (auto simp: rc_cleanup_def Let_def intro: rc_shrinks_trans[OF _ rc_fold_remove_shrinks])
qed

text \<open>The eviction loop as an induction over its iterations.\<close>

lemma rc_evict_rule:
  assumes room: "\<And>s. sat_add_u64 (rc_accounted s) r \<le> rc_capacity s \<Longrightarrow> Q s (True, s)"
    and empty: "\<And>s. \<not> sat_add_u64 (rc_accounted s) r \<le> rc_capacity s \<Longrightarrow> rc_entries s = [] \<Longrightarrow> Q s (False, s)"
    and step: "\<And>s k e. \<not> sat_add_u64 (rc_accounted s) r \<le> rc_capacity s \<Longrightarrow>
      oldest (rc_entries s) = Some (k, e) \<Longrightarrow>
      Q (rc_remove env k s) (rc_evict env r (rc_remove env k s)) \<Longrightarrow>
      Q s (rc_evict env r (rc_remove env k s))"
  shows "Q s (rc_evict env r s)"
proof (induction "length (rc_entries s)" arbitrary: s rule: less_induct)
  case less
  show ?case
  proof (cases "sat_add_u64 (rc_accounted s) r \<le> rc_capacity s")
    case True
    then show ?thesis using room by (simp add: rc_evict.simps[of env r s])
  next
    case False
    note full = False
    show ?thesis
    proof (cases "oldest (rc_entries s)")
      case None
      then show ?thesis using empty[OF full] full by (simp add: rc_evict.simps[of env r s])
    next
      case (Some p)
      obtain k e where p: "p = (k, e)" by (cases p)
      then have "(k, e) \<in> set (rc_entries s)" using Some oldest_Some by metis
      then have "length (rc_entries (rc_remove env k s)) < length (rc_entries s)"
        unfolding rc_remove_entries al_remove_def by (auto intro!: length_filter_less)
      with less step[OF full] show ?thesis
        using Some p full by (simp add: rc_evict.simps[of env r s])
    qed
  qed
qed

lemma rc_evict_shrinks: "rc_shrinks s (snd (rc_evict env r s))"
  by (rule rc_evict_rule[where Q = "\<lambda>s t. rc_shrinks s (snd t)"])
    (auto intro: rc_shrinks_trans[OF rc_remove_shrinks])

lemma rc_ensure_capacity_shrinks: "rc_shrinks s (snd (rc_ensure_capacity env now r s))"
  unfolding rc_ensure_capacity_def
  by (rule rc_shrinks_trans[OF rc_cleanup_shrinks rc_evict_shrinks])

section \<open>The ledger\<close>

interpretation rcl: byte_ledger rc_entries "\<lambda>_. re_size" rc_accounted "rc_remove env"
  for env
  by unfold_locales
    (auto simp: rc_remove_entries,
     auto simp: rc_remove_def Let_def split: option.splits read_blob.splits)

definition rc_balanced :: "read_cache \<Rightarrow> bool" where
  "rc_balanced s \<longleftrightarrow> distinct (map fst (rc_entries s)) \<and> unat (rc_accounted s) = total_bytes re_size (rc_entries s)"

lemma rc_balanced_iff: "rc_balanced s \<longleftrightarrow> rcl.balanced s"
proof
  assume "rc_balanced s"
  then have "unat (rc_accounted s) = total_bytes re_size (rc_entries s)" "distinct (map fst (rc_entries s))"
    by (auto simp: rc_balanced_def)
  moreover from this(1) have "rc_accounted s = word_of_nat (total_bytes re_size (rc_entries s))"
    by (metis of_nat_unat ucast_id)
  moreover have "unat (rc_accounted s) < 2 ^ 64" using unat_u64_less[of "rc_accounted s"] by simp
  ultimately show "rcl.balanced s" unfolding rcl.balanced_def by simp
qed (simp add: rc_balanced_def rcl.balanced_counter, simp add: rcl.balanced_def)

lemma rc_remove_balanced: "rc_balanced s \<Longrightarrow> rc_balanced (rc_remove env k s)"
  by (simp add: rc_balanced_iff rcl.balanced_drop)

lemma rc_cleanup_balanced: "rc_balanced s \<Longrightarrow> rc_balanced (rc_cleanup env now force s)"
  by (auto simp: rc_balanced_iff rc_cleanup_def Let_def rcl.balanced_def[of "rc_last_cleanup_update _ _"]
      intro!: rcl.balanced_fold_drop) (simp_all add: rcl.balanced_def)

lemma rc_evict_balanced:
  assumes "rc_balanced s" shows "rc_balanced (snd (rc_evict env r s))"
proof -
  have "rc_balanced s \<longrightarrow> rc_balanced (snd (rc_evict env r s))"
    by (rule rc_evict_rule[where Q = "\<lambda>s t. rc_balanced s \<longrightarrow> rc_balanced (snd t)"])
      (simp_all add: rc_remove_balanced)
  then show ?thesis using assms by simp
qed

lemma rc_evict_room:
  assumes "fst (rc_evict env r s)"
  shows "sat_add_u64 (rc_accounted (snd (rc_evict env r s))) r \<le> rc_capacity s"
proof -
  have "fst (rc_evict env r s) \<longrightarrow> sat_add_u64 (rc_accounted (snd (rc_evict env r s))) r \<le> rc_capacity s"
    by (rule rc_evict_rule[where Q = "\<lambda>s t. fst t \<longrightarrow> sat_add_u64 (rc_accounted (snd t)) r \<le> rc_capacity s"])
      simp_all
  then show ?thesis using assms by simp
qed

lemma rc_empty_room:
  assumes "rc_balanced s" "rc_entries s = []" "r \<le> rc_capacity s"
  shows "sat_add_u64 (rc_accounted s) r \<le> rc_capacity s"
proof -
  have "rc_accounted s = 0" using assms by (simp add: rc_balanced_def unat_0_iff)
  then show ?thesis using assms by simp
qed

lemma rc_evict_succeeds:
  assumes "rc_balanced s" "r \<le> rc_capacity s" shows "fst (rc_evict env r s)"
proof -
  have "rc_balanced s \<and> r \<le> rc_capacity s \<longrightarrow> fst (rc_evict env r s)"
    by (rule rc_evict_rule[where Q = "\<lambda>s t. rc_balanced s \<and> r \<le> rc_capacity s \<longrightarrow> fst t"])
      (auto simp: rc_remove_balanced dest: rc_empty_room)
  then show ?thesis using assms by simp
qed

section \<open>What a put can leave\<close>

definition rc_put_entry :: "string \<Rightarrow> string \<Rightarrow> vfs_file_info \<Rightarrow> int \<Rightarrow> u64 \<Rightarrow> read_blob \<Rightarrow> rc_entry" where
  "rc_put_entry key data info t ttl blob =
     \<lparr>re_key = key, re_info = info, re_size = word_of_nat (length data),
      re_last = t, re_expires = expiry t ttl, re_blob = blob\<rparr>"

definition rc_make_room :: "read_meta fs_env \<Rightarrow> int \<Rightarrow> int \<Rightarrow> string \<Rightarrow> u64 \<Rightarrow> read_cache \<Rightarrow> bool \<times> read_cache" where
  "rc_make_room env t1 t2 key sz s =
     rc_ensure_capacity env t2 sz (rc_cleanup env t1 False (rc_remove env key s))"

lemma rc_make_room_shrinks: "rc_shrinks (rc_remove env key s) (snd (rc_make_room env t1 t2 key sz s))"
  unfolding rc_make_room_def
  by (rule rc_shrinks_trans[OF rc_cleanup_shrinks rc_ensure_capacity_shrinks])

lemma rc_make_room_balanced: "rc_balanced s \<Longrightarrow> rc_balanced (snd (rc_make_room env t1 t2 key sz s))"
  by (simp add: rc_make_room_def rc_ensure_capacity_def rc_evict_balanced rc_cleanup_balanced rc_remove_balanced)

lemma rc_make_room_succeeds:
  "rc_balanced s \<Longrightarrow> sz \<le> rc_capacity s \<Longrightarrow> fst (rc_make_room env t1 t2 key sz s)"
proof -
  assume b: "rc_balanced s" and "sz \<le> rc_capacity s"
  let ?u = "rc_cleanup env t2 True (rc_cleanup env t1 False (rc_remove env key s))"
  have "rc_shrinks (rc_remove env key s) ?u"
    by (rule rc_shrinks_trans[OF rc_cleanup_shrinks rc_cleanup_shrinks])
  then have "sz \<le> rc_capacity ?u" using \<open>sz \<le> rc_capacity s\<close> by (simp add: rc_shrinks_def)
  then show ?thesis
    using b by (simp add: rc_make_room_def rc_ensure_capacity_def rc_evict_succeeds
      rc_cleanup_balanced rc_remove_balanced)
qed

lemma rc_make_room_room:
  assumes "fst (rc_make_room env t1 t2 key sz s)"
  shows "sat_add_u64 (rc_accounted (snd (rc_make_room env t1 t2 key sz s))) sz \<le> rc_capacity s"
proof -
  let ?u = "rc_cleanup env t2 True (rc_cleanup env t1 False (rc_remove env key s))"
  have "rc_shrinks (rc_remove env key s) ?u"
    by (rule rc_shrinks_trans[OF rc_cleanup_shrinks rc_cleanup_shrinks])
  then have "rc_capacity ?u = rc_capacity s" by (simp add: rc_shrinks_def)
  then show ?thesis
    using assms rc_evict_room[of env sz ?u] by (simp add: rc_make_room_def rc_ensure_capacity_def)
qed

lemma rc_make_room_absent: "map_of (rc_entries (snd (rc_make_room env t1 t2 key sz s))) key = None"
  using rc_make_room_shrinks[of env key s t1 t2 sz]
  by (auto simp: rc_shrinks_def rc_remove_entries dest!: spec[of _ key])

lemma rc_put_cases:
  assumes "t = rc_put env (t1, t2, t3) key data info s"
    and "sz = word_of_nat (length data)" and "s1 = snd (rc_make_room env t1 t2 key sz s)"
  obtains (skip) "\<not> rc_should_cache s key sz" "t = s"
  | (dropped) f where "rc_should_cache s key sz" "t = s1\<lparr>rc_fs := f\<rparr>"
      "\<And>p. p \<noteq> data_path env (rc_root s) key \<Longrightarrow> p \<noteq> meta_path env (rc_root s) key \<Longrightarrow> f p = rc_fs s1 p"
      "all_ok env \<Longrightarrow> \<not> fst (rc_make_room env t1 t2 key sz s)"
  | (stored) f blob where "rc_should_cache s key sz" "fst (rc_make_room env t1 t2 key sz s)"
      "t = s1\<lparr>rc_fs := f, rc_accounted := rc_accounted s1 + sz,
              rc_entries := al_put key (rc_put_entry key data info t3 (rc_ttl s) blob) (rc_entries s1),
              rc_metrics := record_read_cache_put sz (rc_metrics s1)\<rparr>"
      "\<And>p. p \<noteq> data_path env (rc_root s) key \<Longrightarrow> p \<noteq> meta_path env (rc_root s) key \<Longrightarrow> f p = rc_fs s1 p"
      "blob = MemBlob data \<or>
       blob = DiskBlob (data_path env (rc_root s) key) \<and> f (data_path env (rc_root s) key) = Some (DataFile data)"
proof -
  have sh: "rc_shrinks s s1"
    using rc_shrinks_trans[OF rc_remove_shrinks rc_make_room_shrinks] assms(3) by simp
  then have r: "rc_root s1 = rc_root s" "rc_ttl s1 = rc_ttl s" by (simp_all add: rc_shrinks_def)
  let ?dp = "data_path env (rc_root s) key" and ?mp = "meta_path env (rc_root s) key"
  have rm: "rc_make_room env t1 t2 key sz s = (fst (rc_make_room env t1 t2 key sz s), s1)"
    using assms(3) by simp
  show thesis
  proof (cases "rc_should_cache s key sz")
    case False
    then show ?thesis using skip assms(1,2) by (simp add: rc_put_def Let_def)
  next
    case True
    show ?thesis
    proof (cases "fst (rc_make_room env t1 t2 key sz s)")
      case False
      then have "t = s1\<lparr>rc_fs := rc_fs s1\<rparr>"
        using assms(1,2) True rm
        by (simp add: rc_put_def Let_def rc_make_room_def[symmetric])
      then show ?thesis using dropped[of "rc_fs s1"] True False by simp
    next
      case ok: True
      note put = assms(1)[unfolded rc_put_def prod.case rc_make_room_def[symmetric]]
      show ?thesis
      proof (cases "rc_backend s1")
        case ReadMemory
        then show ?thesis
          using put assms(2) True ok rm r
          by (intro stored[of "MemBlob data" "rc_fs s1"])
            (auto simp: Let_def rc_put_entry_def split: prod.splits)
      next
        case ReadLocalDir
        let ?meta = "\<lparr>dm_key = key, dm_info = info, dm_size = sz, dm_created = t3,
                     dm_expires = expiry t3 (rc_ttl s)\<rparr>"
        show ?thesis
        proof (cases "wr_ok env ?dp \<and> wr_ok env ?mp")
          case w: True
          let ?f = "(rc_fs s1)(?dp \<mapsto> DataFile data, ?mp \<mapsto> MetaFile ?meta)"
          have t: "t = s1\<lparr>rc_fs := ?f, rc_accounted := rc_accounted s1 + sz,
              rc_entries := al_put key (rc_put_entry key data info t3 (rc_ttl s) (DiskBlob ?dp)) (rc_entries s1),
              rc_metrics := record_read_cache_put sz (rc_metrics s1)\<rparr>"
            unfolding put using rm[unfolded assms(2)] ok[unfolded assms(2)] True[unfolded assms(2)] r ReadLocalDir w
            by (simp add: Let_def rc_put_entry_def fs_write_def assms(2))
          show ?thesis
          proof (rule stored[OF True ok t])
            show "?f p = rc_fs s1 p" if "p \<noteq> ?dp" "p \<noteq> ?mp" for p using that by simp
            show "DiskBlob ?dp = MemBlob data \<or> DiskBlob ?dp = DiskBlob ?dp \<and> ?f ?dp = Some (DataFile data)"
              by simp
          qed
        next
          case w: False
          let ?g = "if wr_ok env ?dp then (rc_fs s1)(?dp \<mapsto> DataFile data, ?mp := torn env ?mp)
                    else (rc_fs s1)(?dp := torn env ?dp)"
          have "t = s1\<lparr>rc_fs := fs_remove env ?mp (fs_remove env ?dp ?g)\<rparr>"
            unfolding put
            using rm[unfolded assms(2)] ok[unfolded assms(2)] True[unfolded assms(2)] r ReadLocalDir w
            by (simp add: Let_def fs_write_def assms(2))
          moreover have "fs_remove env ?mp (fs_remove env ?dp ?g) p = rc_fs s1 p"
            if "p \<noteq> ?dp" "p \<noteq> ?mp" for p
            using that by (simp add: fs_remove_def)
          moreover have "\<not> all_ok env" using w by (auto simp: all_ok_def)
          ultimately show ?thesis using dropped True by blast
        qed
      qed
    qed
  qed
qed

section \<open>Reading back\<close>

text \<open>
  The entries refer to themselves: an entry's key is its own, and a blob on disk is at the path of the
  key. Both hold by construction and are kept by every operation.
\<close>

definition rc_wf :: "read_meta fs_env \<Rightarrow> read_cache \<Rightarrow> bool" where
  "rc_wf env s \<longleftrightarrow>
     (\<forall>(k, e) \<in> set (rc_entries s). re_key e = k \<and>
        (\<forall>p. re_blob e = DiskBlob p \<longrightarrow> p = data_path env (rc_root s) k))"

lemma rc_wfD: "rc_wf env s \<Longrightarrow> map_of (rc_entries s) k = Some e \<Longrightarrow>
    re_key e = k \<and> (\<forall>p. re_blob e = DiskBlob p \<longrightarrow> p = data_path env (rc_root s) k)"
  by (auto simp: rc_wf_def dest!: map_of_SomeD)

lemma rc_shrinks_wf: "rc_shrinks s t \<Longrightarrow> rc_wf env s \<Longrightarrow> rc_wf env t"
  unfolding rc_shrinks_def rc_wf_def by fastforce

lemma rc_get_result:
  "fst (rc_get env now k s) =
     (if \<not> rc_enabled s \<or> \<not> policy_allows (rc_policy s) k then None
      else case map_of (rc_entries s) k of
        None \<Rightarrow> None
      | Some e \<Rightarrow>
          if re_expires e \<le> now then None
          else case re_blob e of
            MemBlob d \<Rightarrow> Some (d, re_info e)
          | DiskBlob p \<Rightarrow> map_option (\<lambda>d. (d, re_info e)) (fs_read env p (rc_fs s)))"
  by (simp add: rc_get_def Let_def split: option.split read_blob.split)

lemma fs_read_shrinks: "f p = None \<or> f p = g p \<Longrightarrow> fs_read env p f = None \<or> fs_read env p f = fs_read env p g"
  by (auto simp: fs_read_def)

lemma rc_get_cong:
  assumes "rc_wf env s"
    and "rc_enabled t = rc_enabled s" "rc_policy t = rc_policy s"
    and "map_of (rc_entries t) j = None \<or> map_of (rc_entries t) j = map_of (rc_entries s) j"
    and "rc_fs t (data_path env (rc_root s) j) = None \<or>
         rc_fs t (data_path env (rc_root s) j) = rc_fs s (data_path env (rc_root s) j)"
  shows "fst (rc_get env now j t) \<in> {None, fst (rc_get env now j s)}"
proof (cases "map_of (rc_entries t) j")
  case None
  then show ?thesis by (simp add: rc_get_result)
next
  case (Some e)
  with assms(4) have e: "map_of (rc_entries s) j = Some e" by simp
  show ?thesis
  proof (cases "re_blob e")
    case (MemBlob d)
    then show ?thesis using Some e assms(2,3) by (simp add: rc_get_result)
  next
    case (DiskBlob p)
    then have "p = data_path env (rc_root s) j" using rc_wfD[OF assms(1) e] by simp
    then have "fs_read env p (rc_fs t) = None \<or> fs_read env p (rc_fs t) = fs_read env p (rc_fs s)"
      using fs_read_shrinks[of "rc_fs t" p "rc_fs s" env] assms(5) by simp
    then show ?thesis using Some e assms(2,3) DiskBlob
      by (elim disjE) (simp_all add: rc_get_result)
  qed
qed

lemma rc_shrinks_get:
  "rc_shrinks s t \<Longrightarrow> rc_wf env s \<Longrightarrow> fst (rc_get env now j t) \<in> {None, fst (rc_get env now j s)}"
  by (rule rc_get_cong) (auto simp: rc_shrinks_def)

lemma rc_put_serves:
  assumes "rc_wf env s" "j \<noteq> k \<Longrightarrow> hash env j \<noteq> hash env k"
  shows "fst (rc_get env now j (rc_put env (t1, t2, t3) k d i s)) \<in>
    {None, if j = k \<and> rc_should_cache s k (word_of_nat (length d)) then Some (d, i)
           else fst (rc_get env now j s)}"
proof -
  let ?t = "rc_put env (t1, t2, t3) k d i s" and ?sz = "word_of_nat (length d) :: u64"
  define s1 where "s1 = snd (rc_make_room env t1 t2 k ?sz s)"
  have sh: "rc_shrinks s s1"
    using rc_shrinks_trans[OF rc_remove_shrinks rc_make_room_shrinks] s1_def by simp
  have absent: "map_of (rc_entries s1) k = None" unfolding s1_def by (rule rc_make_room_absent)
  have apart: "data_path env (rc_root s) j \<noteq> data_path env (rc_root s) k" if "j \<noteq> k"
    using assms(2)[OF that] by (auto simp: data_path_def join_path_def split: if_splits)
  show ?thesis
  proof (cases rule: rc_put_cases[of ?t env t1 t2 t3 k d i s ?sz s1, OF refl refl s1_def, case_names skip dropped stored])
    case skip
    then show ?thesis by simp
  next
    case (dropped f)
    show ?thesis
    proof (cases "j = k")
      case True
      then show ?thesis using dropped(2) absent by (simp add: rc_get_result)
    next
      case False
      have "fst (rc_get env now j ?t) \<in> {None, fst (rc_get env now j s)}"
        using sh dropped(2) dropped(3)[OF apart[OF False] data_meta_distinct]
        by (intro rc_get_cong[OF assms(1)]) (auto simp: rc_shrinks_def)
      then show ?thesis using False by simp
    qed
  next
    case (stored f blob)
    show ?thesis
    proof (cases "j = k")
      case True
      then have "fst (rc_get env now j ?t) \<in> {None, Some (d, i)}"
        using stored(3,5)
        by (auto simp: rc_get_result rc_put_entry_def fs_read_def)
      then show ?thesis using True stored(1) by simp
    next
      case False
      have "fst (rc_get env now j ?t) \<in> {None, fst (rc_get env now j s)}"
        using sh False stored(3) stored(4)[OF apart[OF False] data_meta_distinct]
        by (intro rc_get_cong[OF assms(1)]) (auto simp: rc_shrinks_def)
      then show ?thesis using False by simp
    qed
  qed
qed

lemma rc_put_wf: "rc_wf env s \<Longrightarrow> rc_wf env (rc_put env (t1, t2, t3) k d i s)"
proof -
  assume wf: "rc_wf env s"
  let ?sz = "word_of_nat (length d) :: u64"
  define s1 where "s1 = snd (rc_make_room env t1 t2 k ?sz s)"
  have sh: "rc_shrinks s s1"
    using rc_shrinks_trans[OF rc_remove_shrinks rc_make_room_shrinks] s1_def by simp
  then have wf1: "rc_wf env s1" and r: "rc_root s1 = rc_root s"
    using rc_shrinks_wf[OF _ wf] by (auto simp: rc_shrinks_def)
  show ?thesis
  proof (cases rule: rc_put_cases[of "rc_put env (t1, t2, t3) k d i s" env t1 t2 t3 k d i s ?sz s1, OF refl refl s1_def, case_names skip dropped stored])
    case skip
    then show ?thesis using wf by simp
  next
    case (dropped f)
    then show ?thesis using wf1 by (simp add: rc_wf_def)
  next
    case (stored f blob)
    then show ?thesis using wf1 r
      by (fastforce simp: rc_wf_def rc_put_entry_def al_put_def)
  qed
qed

lemma rc_get_shrinks_wf: "rc_wf env s \<Longrightarrow> rc_wf env (snd (rc_get env now k s))"
proof -
  assume wf: "rc_wf env s"
  then have wf': "rc_wf env (s\<lparr>rc_entries := al_update k (\<lambda>e. e\<lparr>re_last := now\<rparr>) (rc_entries s)\<rparr>)"
    by (fastforce simp: rc_wf_def al_update_def)
  have rm: "rc_wf env (rc_remove env k t)" if "rc_wf env t" for t
    using rc_shrinks_wf[OF rc_remove_shrinks that] .
  have [simp]: "rc_wf env (rc_miss t) = rc_wf env t" "rc_wf env (rc_hit t) = rc_wf env t" for t
    by (simp_all add: rc_wf_def rc_miss_def rc_hit_def)
  show ?thesis
    using wf wf' rm by (simp add: rc_get_def Let_def split: option.split read_blob.split)
qed

lemma rc_get_frame: "fst (rc_get env now j (snd (rc_get env now' k s))) \<in> {None, fst (rc_get env now j s)}"
  if "rc_wf env s"
proof -
  have rm: "fst (rc_get env now j (rc_remove env k t)) \<in> {None, fst (rc_get env now j s)}"
    if "rc_wf env t" "rc_enabled t = rc_enabled s" "rc_policy t = rc_policy s" "rc_fs t = rc_fs s" "rc_root t = rc_root s"
      "j \<noteq> k \<Longrightarrow> map_of (rc_entries t) j = map_of (rc_entries s) j" for t
  proof (cases "j = k")
    case True
    then show ?thesis by (simp add: rc_get_result rc_remove_entries)
  next
    case False
    have "fst (rc_get env now j t) = fst (rc_get env now j s)"
      unfolding rc_get_result that(2-4) that(6)[OF False] by (rule refl)
    then show ?thesis using rc_shrinks_get[OF rc_remove_shrinks[of t env k] that(1), of now j] by simp
  qed
  have [simp]: "fst (rc_get env now j (rc_miss t)) = fst (rc_get env now j t)"
      "fst (rc_get env now j (rc_hit t)) = fst (rc_get env now j t)" for t
    by (auto simp: rc_get_result rc_miss_def rc_hit_def split: option.split read_blob.split)
  let ?u = "s\<lparr>rc_entries := al_update k (\<lambda>e. e\<lparr>re_last := now'\<rparr>) (rc_entries s)\<rparr>"
  have u: "rc_wf env ?u" using that by (fastforce simp: rc_wf_def al_update_def)
  have g: "fst (rc_get env now j ?u) = fst (rc_get env now j s)"
    by (auto simp: rc_get_result split: option.split read_blob.split)
  show ?thesis
    using rm[OF that] rm[OF u] g
    by (simp add: rc_get_def[of env now' k s] Let_def split: option.split read_blob.split)
qed

text \<open>
  C23: the cache never invents an answer. After a put, whatever fails on disk and whatever was evicted
  for it, a lookup either misses, or returns what that put stored when it is for the same key (and the
  put was admitted), or returns what it would have returned before. The digests of the two keys differ,
  as SHA-256's do.
\<close>

theorem read_cache_coherent:
  assumes "rc_wf env s" "j \<noteq> k \<Longrightarrow> hash env j \<noteq> hash env k"
  shows "fst (rc_get env now j (rc_put env (t1, t2, t3) k d i s)) \<in>
    {None, if j = k \<and> rc_should_cache s k (word_of_nat (length d)) then Some (d, i)
           else fst (rc_get env now j s)}"
  using assms by (rule rc_put_serves)

text \<open>
  An admitted put is served until it expires: when the files can be written and read, the next
  lookup before \<open>created_at + ttl\<close> returns exactly the data and the metadata that were put. In
  particular the eviction always finds room for a file the cache admits.
\<close>

theorem read_cache_put_get:
  assumes "rc_balanced s" "rc_should_cache s k (word_of_nat (length d))" "all_ok env"
    and "now < expiry t3 (rc_ttl s)"
  shows "fst (rc_get env now k (rc_put env (t1, t2, t3) k d i s)) = Some (d, i)"
proof -
  let ?t = "rc_put env (t1, t2, t3) k d i s" and ?sz = "word_of_nat (length d) :: u64"
  define s1 where "s1 = snd (rc_make_room env t1 t2 k ?sz s)"
  have sh: "rc_shrinks s s1"
    using rc_shrinks_trans[OF rc_remove_shrinks rc_make_room_shrinks] s1_def by simp
  have on: "rc_enabled s" "policy_allows (rc_policy s) k" "?sz \<le> rc_capacity s"
    using assms(2) by (simp_all add: rc_should_cache_def)
  show ?thesis
  proof (cases rule: rc_put_cases[of ?t env t1 t2 t3 k d i s ?sz s1, OF refl refl s1_def, case_names skip dropped stored])
    case skip
    then show ?thesis using assms(2) by simp
  next
    case (dropped f)
    then show ?thesis using assms(3) rc_make_room_succeeds[OF assms(1) on(3)] by blast
  next
    case (stored f blob)
    have "rd_ok env p" for p using assms(3) by (simp add: all_ok_def)
    then show ?thesis
      using stored(3,5) sh on assms(4)
      by (auto simp: rc_get_result rc_put_entry_def fs_read_def rc_shrinks_def)
  qed
qed

section \<open>The byte bound over any run\<close>

datatype rc_op =
    RcGet int string
  | RcPut "int \<times> int \<times> int" string string vfs_file_info
  | RcRemove string

fun rc_apply :: "read_meta fs_env \<Rightarrow> rc_op \<Rightarrow> read_cache \<Rightarrow> read_cache" where
  "rc_apply env (RcGet now k) s = snd (rc_get env now k s)"
| "rc_apply env (RcPut ts k d i) s = rc_put env ts k d i s"
| "rc_apply env (RcRemove k) s = rc_remove env k s"

definition rc_within :: "read_cache \<Rightarrow> bool" where
  "rc_within s \<longleftrightarrow> rc_balanced s \<and> rc_accounted s \<le> rc_capacity s"

lemma total_bytes_al_update_same:
  "(\<And>e. w (f e) = w e) \<Longrightarrow> total_bytes w (al_update k f es) = total_bytes w es"
  by (induction es) (auto simp: al_update_def)

lemma total_bytes_al_put_absent:
  "map_of es k = None \<Longrightarrow> total_bytes w (al_put k e es) = total_bytes w es + unat (w e)"
  by (simp add: al_put_def al_remove_id)

lemma rc_balanced_cong:
  "rc_balanced s \<Longrightarrow> rc_accounted t = rc_accounted s \<Longrightarrow>
   map fst (rc_entries t) = map fst (rc_entries s) \<Longrightarrow>
   total_bytes re_size (rc_entries t) = total_bytes re_size (rc_entries s) \<Longrightarrow> rc_balanced t"
  by (simp add: rc_balanced_def)

lemma rc_balanced_le:
  assumes "rc_balanced s" "rc_balanced t" "\<exists>P. rc_entries t = filter P (rc_entries s)"
  shows "rc_accounted t \<le> rc_accounted s"
proof -
  have "total_bytes re_size (filter P es) \<le> total_bytes re_size es" for P and es :: "(string \<times> rc_entry) list"
    by (induction es) auto
  then show ?thesis using assms by (auto simp: rc_balanced_def word_le_nat_alt)
qed

lemma rc_remove_within: "rc_within s \<Longrightarrow> rc_within (rc_remove env k s)"
  using rc_balanced_le[of s "rc_remove env k s"] rc_remove_shrinks[of s env k]
  by (auto simp: rc_within_def rc_remove_balanced rc_shrinks_def)

lemma rc_get_within:
  assumes "rc_within s" shows "rc_within (snd (rc_get env now k s))"
proof -
  let ?u = "s\<lparr>rc_entries := al_update k (\<lambda>e. e\<lparr>re_last := now\<rparr>) (rc_entries s)\<rparr>"
  have u: "rc_within ?u"
    using assms by (auto simp: rc_within_def rc_balanced_def total_bytes_al_update_same)
  have hm: "rc_within t \<Longrightarrow> rc_within (rc_hit t)" "rc_within t \<Longrightarrow> rc_within (rc_miss t)" for t
    by (simp_all add: rc_within_def rc_balanced_def rc_hit_def rc_miss_def)
  show ?thesis
    using hm assms u rc_remove_within by (simp add: rc_get_def Let_def split: option.split read_blob.split)
qed

lemma rc_put_within:
  assumes "rc_within s" "rc_capacity s \<noteq> - 1"
  shows "rc_within (rc_put env (t1, t2, t3) k d i s)"
proof -
  let ?t = "rc_put env (t1, t2, t3) k d i s" and ?sz = "word_of_nat (length d) :: u64"
  define s1 where "s1 = snd (rc_make_room env t1 t2 k ?sz s)"
  have b: "rc_balanced s" using assms(1) by (simp add: rc_within_def)
  have b1: "rc_balanced s1" unfolding s1_def using b by (rule rc_make_room_balanced)
  have sh: "rc_shrinks s s1"
    using rc_shrinks_trans[OF rc_remove_shrinks rc_make_room_shrinks] s1_def by simp
  then have le: "rc_accounted s1 \<le> rc_capacity s1"
    using rc_balanced_le[OF b b1] assms(1) by (auto simp: rc_shrinks_def rc_within_def)
  show ?thesis
  proof (cases rule: rc_put_cases[of ?t env t1 t2 t3 k d i s ?sz s1, OF refl refl s1_def, case_names skip dropped stored])
    case skip
    then show ?thesis using assms by simp
  next
    case (dropped f)
    then show ?thesis using b1 le by (simp add: rc_within_def rc_balanced_def)
  next
    case (stored f blob)
    have cap: "sat_add_u64 (rc_accounted s1) ?sz \<le> rc_capacity s"
      using rc_make_room_room[OF stored(2)] s1_def by simp
    have fits: "unat (rc_accounted s1) + unat ?sz < 2 ^ 64"
    proof (rule ccontr)
      assume "\<not> ?thesis"
      then have "- 1 \<le> rc_capacity s" using cap unfolding sat_add_u64_def by simp
      then show False using assms(2) word_order.extremum_unique[of "rc_capacity s"] by simp
    qed
    then have sum: "rc_accounted s1 + ?sz \<le> rc_capacity s"
      and u: "unat (rc_accounted s1 + ?sz) = unat (rc_accounted s1) + unat ?sz"
      using cap by (simp_all add: sat_add_u64_def unat_word_ariths)
    have "map_of (rc_entries s1) k = None" unfolding s1_def by (rule rc_make_room_absent)
    then have "total_bytes re_size (rc_entries ?t) = total_bytes re_size (rc_entries s1) + unat ?sz"
      using stored(3) by (simp add: total_bytes_al_put_absent rc_put_entry_def)
    moreover have "distinct (map fst (rc_entries ?t))"
      using b1 stored(3) by (simp add: rc_balanced_def)
    ultimately have "rc_balanced ?t" using b1 u stored(3) by (simp add: rc_balanced_def)
    then show ?thesis using sum stored(3) sh by (simp add: rc_within_def rc_shrinks_def)
  qed
qed

lemma rc_apply_capacity: "rc_capacity (rc_apply env op s) = rc_capacity s"
proof (cases op)
  case (RcPut ts k d i)
  obtain t1 t2 t3 where ts: "ts = (t1, t2, t3)" by (cases ts)
  define s1 where "s1 = snd (rc_make_room env t1 t2 k (word_of_nat (length d)) s)"
  have "rc_capacity s1 = rc_capacity s"
    using rc_shrinks_trans[OF rc_remove_shrinks rc_make_room_shrinks] s1_def by (simp add: rc_shrinks_def)
  then show ?thesis
    unfolding RcPut rc_apply.simps ts
    by (cases rule: rc_put_cases[of "rc_put env (t1, t2, t3) k d i s", OF refl refl s1_def]) simp_all
next
  case (RcGet now k)
  then show ?thesis
    by (simp add: rc_get_def Let_def rc_hit_def rc_miss_def split: option.split read_blob.split)
qed simp

text \<open>
  C24: From a cache whose byte counter is the exact sum of the sizes of its entries and within the capacity (an
  empty one is), and with a capacity other than 2^64 - 1, both stay so whatever is looked up, stored and removed,
  in any order and with any failures on disk: the wrapping subtraction never underflows and the counter never
  exceeds the capacity. Loading the files of an earlier run is not one of these operations. It adds up the sizes
  of the entries it finds without comparing the sum with the capacity, so a cache may start above it.
\<close>

theorem read_cache_bounded:
  assumes "rc_within s" "rc_capacity s \<noteq> - 1"
  shows "rc_within (fold (rc_apply env) ops s) \<and>
         total_bytes re_size (rc_entries (fold (rc_apply env) ops s)) \<le> unat (rc_capacity s)"
proof -
  have step: "rc_within (rc_apply env op u)" if "rc_within u" "rc_capacity u \<noteq> - 1" for op u
  proof (cases op)
    case (RcPut ts k d i)
    then show ?thesis using that by (cases ts) (simp add: rc_put_within)
  qed (simp_all add: that rc_get_within rc_remove_within)
  have "rc_within (fold (rc_apply env) ops u) \<and> rc_capacity (fold (rc_apply env) ops u) = rc_capacity u"
    if "rc_within u" "rc_capacity u \<noteq> - 1" for u
    using that by (induction ops arbitrary: u) (simp_all add: step rc_apply_capacity)
  from this[OF assms] show ?thesis
    by (auto simp: rc_within_def rc_balanced_def word_le_nat_alt)
qed

section \<open>Eviction order\<close>

lemma rc_evict_order:
  "distinct (map fst (rc_entries s)) \<longrightarrow>
   (\<forall>p \<in> set (rc_entries s) - set (rc_entries (snd (rc_evict env r s))).
    \<forall>q \<in> set (rc_entries (snd (rc_evict env r s))). re_last (snd p) \<le> re_last (snd q))"
proof (rule rc_evict_rule[where Q = "\<lambda>s t. distinct (map fst (rc_entries s)) \<longrightarrow>
    (\<forall>p \<in> set (rc_entries s) - set (rc_entries (snd t)).
     \<forall>q \<in> set (rc_entries (snd t)). re_last (snd p) \<le> re_last (snd q))"], goal_cases)
  case (3 s k e)
  let ?u = "rc_remove env k s"
  have old: "(k, e) \<in> set (rc_entries s)" "\<And>q. q \<in> set (rc_entries s) \<Longrightarrow> re_last e \<le> re_last (snd q)"
    using oldest_Some[OF 3(2)] by auto
  have sub: "set (rc_entries (snd (rc_evict env r ?u))) \<subseteq> set (rc_entries s)"
    using rc_shrinks_trans[OF rc_remove_shrinks[of s env k] rc_evict_shrinks[of _ env r]]
    by (auto simp: rc_shrinks_def)
  show ?case
  proof (intro impI ballI)
    fix p q
    assume d: "distinct (map fst (rc_entries s))"
      and p: "p \<in> set (rc_entries s) - set (rc_entries (snd (rc_evict env r ?u)))"
      and q: "q \<in> set (rc_entries (snd (rc_evict env r ?u)))"
    show "re_last (snd p) \<le> re_last (snd q)"
    proof (cases "fst p = k")
      case True
      then have "p = (k, e)" using d p old(1) by (metis DiffD1 eq_key_imp_eq_value prod.collapse)
      then show ?thesis using old(2)[of q] sub q by auto
    next
      case False
      then have "p \<in> set (rc_entries ?u)" using p by (simp add: rc_remove_entries)
      then show ?thesis using 3(3) d p q by (simp add: rc_remove_entries)
    qed
  qed
qed simp_all

text \<open>
  Making room is least-recently-used: an entry that is dropped for a new one had expired, or was
  accessed no later than every entry that is kept.
\<close>

theorem read_cache_evicts_lru:
  assumes "rc_balanced s"
    and "(k, e) \<in> set (rc_entries s)" "(k, e) \<notin> set (rc_entries (snd (rc_ensure_capacity env now r s)))"
    and "(k', e') \<in> set (rc_entries (snd (rc_ensure_capacity env now r s)))"
  shows "re_expires e \<le> now \<or> re_last e \<le> re_last e'"
proof (cases "(k, e) \<in> set (rc_entries (rc_cleanup env now True s))")
  case True
  have "distinct (map fst (rc_entries (rc_cleanup env now True s)))"
    using rc_cleanup_balanced[OF assms(1)] by (simp add: rc_balanced_def)
  then show ?thesis
    using rc_evict_order[of "rc_cleanup env now True s" env r] True assms(3,4)
    by (force simp: rc_ensure_capacity_def)
next
  case False
  then obtain e2 where "(k, e2) \<in> set (rc_entries s)" "re_expires e2 \<le> now"
    using assms(2) by (auto simp: rc_cleanup_def rcl.entries_fold_drop)
  then have "re_expires e \<le> now"
    using assms(1,2) by (metis rc_balanced_def eq_key_imp_eq_value)
  then show ?thesis ..
qed

section \<open>Restart\<close>

text \<open>
  What a directory holds for key \<open>k\<close>: its data and its metadata, at their paths. A load goes through the
  listing; the files of \<open>k\<close> survive the turns of other keys, and the turn of its own metadata file enters it.
\<close>

definition rc_disk_entry :: "read_meta fs_env \<Rightarrow> string \<Rightarrow> read_meta \<Rightarrow> rc_entry" where
  "rc_disk_entry env root m =
     \<lparr>re_key = dm_key m, re_info = dm_info m, re_size = dm_size m, re_last = dm_created m,
      re_expires = dm_expires m, re_blob = DiskBlob (data_path env root (dm_key m))\<rparr>"

definition meta_name :: "read_meta fs_env \<Rightarrow> string \<Rightarrow> string" where
  "meta_name env k = hash env k @ ''.json''"

text \<open>The other metadata files of the directory belong to keys with other digests.\<close>

definition rc_dir_ok :: "read_meta fs_env \<Rightarrow> string \<Rightarrow> read_meta cache_fs \<Rightarrow> string \<Rightarrow> string list \<Rightarrow> bool" where
  "rc_dir_ok env root fs k names \<longleftrightarrow>
     (\<forall>n \<in> set names. n \<noteq> meta_name env k \<longrightarrow>
        (\<forall>m. fs (join_path root n) = Some (MetaFile m) \<longrightarrow> hash env (dm_key m) \<noteq> hash env k))"

definition rc_holds :: "read_meta fs_env \<Rightarrow> string \<Rightarrow> read_meta \<Rightarrow> string \<Rightarrow> bool \<Rightarrow> read_cache \<Rightarrow> bool" where
  "rc_holds env k m d loaded s \<longleftrightarrow>
     rc_fs s (data_path env (rc_root s) k) = Some (DataFile d) \<and>
     rc_fs s (meta_path env (rc_root s) k) = Some (MetaFile m) \<and>
     (loaded \<longrightarrow> map_of (rc_entries s) k = Some (rc_disk_entry env (rc_root s) m))"

lemma join_path_inj: "join_path root a = join_path root b \<longleftrightarrow> a = b"
  by (auto simp: join_path_def split: if_splits)

lemma data_path_eq: "data_path env root a = data_path env root b \<longleftrightarrow> hash env a = hash env b"
  by (simp add: data_path_def join_path_inj)

lemma meta_path_name: "meta_path env root k = join_path root (meta_name env k)"
  by (simp add: meta_path_def meta_name_def)

lemma json_meta_name: "json_name (meta_name env k) \<longleftrightarrow> hash env k \<noteq> []"
  using rsplit_once_append[of dot "''json''" "hash env k"]
  by (simp add: json_name_def meta_name_def)

lemma rc_load_one_root [simp]: "rc_root (rc_load_one env nt s) = rc_root s"
  by (cases nt) (auto simp: rc_load_one_def Let_def split: option.splits cache_file.splits)

lemma rc_load_one_fs:
  "rc_fs (rc_load_one env nt s) p = None \<or> rc_fs (rc_load_one env nt s) p = rc_fs s p"
  by (cases nt) (auto simp: rc_load_one_def Let_def fs_remove_def split: option.splits cache_file.splits)

lemma rc_load_one_other:
  assumes "rc_holds env k m d l s" "n \<noteq> meta_name env k"
    and "\<forall>m. rc_fs s (join_path (rc_root s) n) = Some (MetaFile m) \<longrightarrow> hash env (dm_key m) \<noteq> hash env k"
  shows "rc_holds env k m d l (rc_load_one env (n, now) s)"
proof (cases "json_name n \<and> rd_ok env (join_path (rc_root s) n)")
  case True
  show ?thesis
  proof (cases "\<exists>m'. rc_fs s (join_path (rc_root s) n) = Some (MetaFile m')")
    case meta: True
    then obtain m' where m': "rc_fs s (join_path (rc_root s) n) = Some (MetaFile m')" by blast
    then have h: "hash env (dm_key m') \<noteq> hash env k" "dm_key m' \<noteq> k" using assms(3) by auto
    have ne: "join_path (rc_root s) n \<noteq> meta_path env (rc_root s) k"
      "join_path (rc_root s) n \<noteq> data_path env (rc_root s) k"
      using assms(1,2) m' by (auto simp: meta_path_name join_path_inj rc_holds_def)
    have nd: "data_path env (rc_root s) (dm_key m') \<noteq> data_path env (rc_root s) k"
      using h(1) by (simp add: data_path_eq)
    show ?thesis
      using assms(1) True m' h ne nd data_meta_distinct[of env "rc_root s" "dm_key m'" k, symmetric]
      by (simp add: rc_holds_def rc_load_one_def Let_def fs_remove_def)
  next
    case False
    then have "rc_load_one env (n, now) s = s"
      by (auto simp: rc_load_one_def Let_def split: option.splits cache_file.splits)
    then show ?thesis using assms(1) by simp
  qed
next
  case False
  then have "rc_load_one env (n, now) s = s" by (auto simp: rc_load_one_def Let_def)
  then show ?thesis using assms(1) by simp
qed

lemma rc_load_one_own:
  assumes "rc_holds env k m d l s" "dm_key m = k" "hash env k \<noteq> []" "now < dm_expires m" "all_ok env"
  shows "rc_holds env k m d True (rc_load_one env (meta_name env k, now) s)"
  using assms
  by (simp add: rc_load_one_def rc_holds_def json_meta_name all_ok_def meta_path_name rc_disk_entry_def Let_def)

lemma rc_load_fold:
  assumes "rc_holds env k m d l s" "rc_dir_ok env (rc_root s) (rc_fs s) k (map fst names)"
    and "dm_key m = k" "hash env k \<noteq> []" "all_ok env" "\<forall>(n, t) \<in> set names. t < dm_expires m"
  shows "rc_holds env k m d (l \<or> meta_name env k \<in> set (map fst names)) (fold (rc_load_one env) names s)"
  using assms
proof (induction names arbitrary: s l)
  case (Cons nt names)
  obtain n t where nt: "nt = (n, t)" by (cases nt)
  let ?s = "rc_load_one env nt s"
  have dir: "rc_dir_ok env (rc_root ?s) (rc_fs ?s) k (map fst names)"
    using Cons.prems(2) rc_load_one_fs[of env nt s] unfolding rc_dir_ok_def rc_load_one_root
    by (metis list.set_intros(2) list.simps(9) option.distinct(1))
  have "rc_holds env k m d (l \<or> n = meta_name env k) ?s"
  proof (cases "n = meta_name env k")
    case True
    then show ?thesis
      using rc_load_one_own[OF Cons.prems(1,3,4) _ Cons.prems(5), of t] Cons.prems(6) nt by simp
  next
    case False
    then show ?thesis
      using rc_load_one_other[OF Cons.prems(1) False] Cons.prems(2) nt by (simp add: rc_dir_ok_def)
  qed
  then show ?case
    using Cons.IH[of "l \<or> n = meta_name env k", OF _ dir Cons.prems(3,4,5)] Cons.prems(6) nt
    by (simp add: disj_assoc eq_commute[of n])
qed simp

lemma rc_load_one_wf: "rc_wf env s \<Longrightarrow> rc_wf env (rc_load_one env nt s)"
  by (cases nt) (auto simp: rc_load_one_def Let_def rc_wf_def al_put_def split: option.splits cache_file.splits)

lemma rc_load_one_distinct:
  "distinct (map fst (rc_entries s)) \<Longrightarrow> distinct (map fst (rc_entries (rc_load_one env nt s)))"
  by (cases nt) (simp add: rc_load_one_def Let_def split: option.split cache_file.split)

lemma rc_fold_load:
  "rc_wf env s \<Longrightarrow> distinct (map fst (rc_entries s)) \<Longrightarrow>
   rc_wf env (fold (rc_load_one env) names s) \<and>
   distinct (map fst (rc_entries (fold (rc_load_one env) names s))) \<and>
   rc_root (fold (rc_load_one env) names s) = rc_root s"
  by (induction names arbitrary: s) (simp_all add: rc_load_one_wf rc_load_one_distinct)

text \<open>Removing other keys keeps what is held for \<open>k\<close> when no other entry has its digest.\<close>

lemma rc_load_one_frame [simp]:
  "rc_enabled (rc_load_one env nt s) = rc_enabled s" "rc_backend (rc_load_one env nt s) = rc_backend s"
  "rc_policy (rc_load_one env nt s) = rc_policy s"
  by (cases nt; simp add: rc_load_one_def Let_def split: option.split cache_file.split)+

lemma rc_fold_load_frame [simp]:
  "rc_enabled (fold (rc_load_one env) names s) = rc_enabled s"
  "rc_policy (fold (rc_load_one env) names s) = rc_policy s"
  by (induction names arbitrary: s) simp_all

definition rc_apart :: "read_meta fs_env \<Rightarrow> string \<Rightarrow> read_cache \<Rightarrow> bool" where
  "rc_apart env k s \<longleftrightarrow> (\<forall>j \<in> fst ` set (rc_entries s). j \<noteq> k \<longrightarrow> hash env j \<noteq> hash env k)"

lemma rc_load_one_apart:
  assumes "rc_apart env k s"
    and "\<forall>m. rc_fs s (join_path (rc_root s) n) = Some (MetaFile m) \<longrightarrow>
         dm_key m = k \<or> hash env (dm_key m) \<noteq> hash env k"
  shows "rc_apart env k (rc_load_one env (n, t) s)"
  using assms
  by (auto simp: rc_load_one_def Let_def rc_apart_def al_put_def split: option.splits cache_file.splits)

lemma rc_fold_load_apart:
  assumes "rc_apart env k s"
    and "\<forall>n \<in> set (map fst names). \<forall>m. rc_fs s (join_path (rc_root s) n) = Some (MetaFile m) \<longrightarrow>
         dm_key m = k \<or> hash env (dm_key m) \<noteq> hash env k"
  shows "rc_apart env k (fold (rc_load_one env) names s)"
  using assms
proof (induction names arbitrary: s)
  case (Cons nt names)
  obtain n t where nt: "nt = (n, t)" by (cases nt)
  have "rc_apart env k (rc_load_one env nt s)"
    using Cons.prems nt by (intro rc_load_one_apart[of env k s n t, folded nt]) auto
  moreover have "\<forall>n \<in> set (map fst names). \<forall>m. rc_fs (rc_load_one env nt s) (join_path (rc_root s) n) = Some (MetaFile m) \<longrightarrow>
         dm_key m = k \<or> hash env (dm_key m) \<noteq> hash env k"
    using Cons.prems(2) rc_load_one_fs[of env nt s]
    by (metis list.set_intros(2) list.simps(9) option.distinct(1))
  ultimately show ?case using Cons.IH by simp
qed simp

lemma rc_remove_other_file:
  assumes "rc_wf env s" "hash env j \<noteq> hash env k"
  shows "rc_fs (rc_remove env j s) (data_path env (rc_root s) k) = rc_fs s (data_path env (rc_root s) k)"
proof (cases "map_of (rc_entries s) j")
  case (Some e)
  have "data_path env (rc_root s) k \<noteq> data_path env (rc_root s) j" using assms(2) by (simp add: data_path_eq)
  then show ?thesis
    using Some rc_wfD[OF assms(1) Some]
    by (cases "re_blob e") (auto simp: rc_remove_def fs_remove_def Let_def)
qed (simp add: rc_remove_def)

lemma rc_fold_remove_other:
  assumes "rc_wf env s" "\<forall>j \<in> set js. hash env j \<noteq> hash env k"
  shows "rc_fs (fold (rc_remove env) js s) (data_path env (rc_root s) k) = rc_fs s (data_path env (rc_root s) k)"
  using assms
proof (induction js arbitrary: s)
  case (Cons j js)
  have "rc_wf env (rc_remove env j s)" using Cons.prems(1) rc_shrinks_wf[OF rc_remove_shrinks] by blast
  from Cons.IH[OF this] show ?case using Cons.prems rc_remove_other_file[of env s j k] by simp
qed simp

lemma rc_cleanup_holds:
  assumes "rc_holds env k m d True s" "rc_wf env s" "rc_apart env k s" "distinct (map fst (rc_entries s))"
    and "now < dm_expires m"
  shows "rc_fs (rc_cleanup env now True s) (data_path env (rc_root s) k) = Some (DataFile d) \<and>
         map_of (rc_entries (rc_cleanup env now True s)) k = Some (rc_disk_entry env (rc_root s) m)"
proof -
  let ?ks = "map fst (filter (\<lambda>p. re_expires (snd p) \<le> now) (rc_entries s))" and ?u = "s\<lparr>rc_last_cleanup := now\<rparr>"
  have e: "map_of (rc_entries s) k = Some (rc_disk_entry env (rc_root s) m)"
    using assms(1) by (simp add: rc_holds_def)
  have k: "k \<notin> set ?ks"
  proof
    assume "k \<in> set ?ks"
    then obtain e2 where "(k, e2) \<in> set (rc_entries s)" "re_expires e2 \<le> now" by auto
    moreover have "e2 = rc_disk_entry env (rc_root s) m"
      using calculation(1) e assms(4) by simp
    ultimately show False using assms(5) by (simp add: rc_disk_entry_def)
  qed
  have "\<forall>j \<in> set ?ks. hash env j \<noteq> hash env k"
  proof
    fix j assume j: "j \<in> set ?ks"
    then have "j \<noteq> k" using k by blast
    moreover have "j \<in> fst ` set (rc_entries s)" using j by auto
    ultimately show "hash env j \<noteq> hash env k" using assms(3) unfolding rc_apart_def by blast
  qed
  then have "rc_fs (fold (rc_remove env) ?ks ?u) (data_path env (rc_root s) k) = Some (DataFile d)"
    using rc_fold_remove_other[of env ?u ?ks k] assms(1,2) by (simp add: rc_wf_def rc_holds_def)
  moreover have "map_of (rc_entries (fold (rc_remove env) ?ks ?u)) k = map_of (rc_entries s) k"
  proof -
    have "map_of (filter (\<lambda>p. fst p \<notin> set ?ks) es) k = map_of es k" for es :: "(string \<times> rc_entry) list"
      using k by (induction es) auto
    then show ?thesis by (simp only: rcl.entries_fold_drop) simp
  qed
  ultimately show ?thesis using e by (simp add: rc_cleanup_def Let_def)
qed

text \<open>
  The cache survives a restart: a manager that is created over the directory of a former one, with
  the data and metadata of a key in it, serves that key until its recorded expiry, whatever else the
  directory holds and in whatever order it is listed. The digests of other keys differ, as SHA-256's do.
\<close>

theorem read_cache_restart:
  assumes new: "rc_new env fs (Some names) now0 pool cfg = Inr s" "cfg_enable cfg" "cfg_backend cfg \<noteq> ''memory''"
    and files: "fs (data_path env (rc_root s) k) = Some (DataFile d)" "fs (meta_path env (rc_root s) k) = Some (MetaFile m)"
    and listed: "meta_name env k \<in> set (map fst names)" "hash env k \<noteq> []" "dm_key m = k"
    and apart: "rc_dir_ok env (rc_root s) fs k (map fst names)"
    and fresh: "\<forall>(n, t) \<in> set names. t < dm_expires m" "now0 < dm_expires m" "now < dm_expires m"
    and ok: "all_ok env" "policy_allows (policy_new (cfg_thumbs cfg) (cfg_skip cfg)) k"
  shows "fst (rc_get env now k s) = Some (d, dm_info m)"
proof -
  let ?root = "if starts_with pool ''/'' then pool else join_path (cfg_local_dir cfg) pool"
  let ?s0 = "\<lparr>rc_enabled = True, rc_backend = ReadLocalDir, rc_root = ?root,
         rc_capacity = cfg_capacity cfg, rc_max_file = cfg_max_file cfg, rc_ttl = cfg_ttl cfg,
         rc_cleanup_interval = max 1 (min 60 (cfg_ttl cfg div 4)),
         rc_policy = policy_new (cfg_thumbs cfg) (cfg_skip cfg),
         rc_entries = [], rc_accounted = 0, rc_last_cleanup = 0, rc_fs = fs,
         rc_metrics = zero_metrics\<rparr>"
  let ?s1 = "fold (rc_load_one env) names ?s0"
  have s: "s = rc_cleanup env now0 True ?s1"
    using new by (simp add: rc_new_def rc_load_def Let_def split: if_splits)
  have f: "rc_wf env ?s1" "distinct (map fst (rc_entries ?s1))" "rc_root ?s1 = ?root"
  proof -
    have "rc_wf env ?s0" "distinct (map fst (rc_entries ?s0))" by (simp_all add: rc_wf_def)
    from rc_fold_load[OF this, of names]
    show "rc_wf env ?s1" "distinct (map fst (rc_entries ?s1))" "rc_root ?s1 = ?root" by (simp_all only: read_cache.simps)
  qed
  have "rc_shrinks ?s1 s" unfolding s by (rule rc_cleanup_shrinks)
  then have fr: "rc_root s = ?root" "rc_enabled s" "rc_policy s = policy_new (cfg_thumbs cfg) (cfg_skip cfg)"
    using f(3) by (simp_all add: rc_shrinks_def)
  have "rc_holds env k m d False ?s0" using files fr(1) by (simp add: rc_holds_def)
  then have "rc_holds env k m d (False \<or> meta_name env k \<in> set (map fst names)) ?s1"
    by (rule rc_load_fold) (use apart fr(1) listed fresh ok in simp_all)
  then have h: "rc_holds env k m d True ?s1" using listed(1) by simp
  have "rc_apart env k ?s1"
  proof (rule rc_fold_load_apart)
    show "\<forall>n\<in>set (map fst names). \<forall>m. rc_fs ?s0 (join_path (rc_root ?s0) n) = Some (MetaFile m) \<longrightarrow>
            dm_key m = k \<or> hash env (dm_key m) \<noteq> hash env k"
      using apart files(2) listed(3) fr(1) unfolding rc_dir_ok_def meta_path_name by auto
  qed (simp add: rc_apart_def)
  from rc_cleanup_holds[OF h f(1) this f(2) fresh(2)]
  have "rc_fs s (data_path env ?root k) = Some (DataFile d)"
    "map_of (rc_entries s) k = Some (rc_disk_entry env ?root m)"
    using f(3) s by simp_all
  then show ?thesis
    using fr ok fresh(3) listed(3)
    by (simp add: rc_get_result rc_disk_entry_def fs_read_def all_ok_def)
qed

section \<open>Concrete runs\<close>

definition ex_env :: "'m fs_env" where
  "ex_env = \<lparr>wr_ok = (\<lambda>_. True), rd_ok = (\<lambda>_. True), rm_ok = (\<lambda>_. True), mkdir_ok = (\<lambda>_. True),
             torn = (\<lambda>_. None), hash = (\<lambda>s. s)\<rparr>"

definition ex_info :: "string \<Rightarrow> vfs_file_info" where
  "ex_info p = \<lparr>fi_name = p, fi_path = p, fi_is_dir = False, fi_size = 2, fi_modified = None,
               fi_favorite_color = 0, fi_has_active_share = None, fi_has_active_direct = None,
               fi_trashed_at = None, fi_original_path = None\<rparr>"

definition ex_entry :: "string \<Rightarrow> int \<Rightarrow> rc_entry" where
  "ex_entry k t = \<lparr>re_key = k, re_info = ex_info k, re_size = 2, re_last = t, re_expires = 100,
                     re_blob = MemBlob ''ab''\<rparr>"

definition ex_cache :: read_cache where
  "ex_cache = \<lparr>rc_enabled = True, rc_backend = ReadLocalDir, rc_root = ''/c'', rc_capacity = 5,
     rc_max_file = 4, rc_ttl = 60, rc_cleanup_interval = 15, rc_policy = policy_new True [],
     rc_entries = [(''a'', ex_entry ''a'' 3), (''b'', ex_entry ''b'' 2)], rc_accounted = 4,
     rc_last_cleanup = 0, rc_fs = Map.empty, rc_metrics = zero_metrics\<rparr>"

lemma ex_env_ok [simp]: "all_ok ex_env" "hash ex_env k = k" "wr_ok ex_env p" "rd_ok ex_env p" "rm_ok ex_env p" "mkdir_ok ex_env p"
  by (simp_all add: all_ok_def ex_env_def)

lemma ex_allows [simp]: "policy_allows (policy_new True []) [c]"
proof -
  have "\<not> is_temp_namespace_path [c]" "\<not> is_recycle_bin_path [c]"
    by (auto simp: is_temp_namespace_path_def is_recycle_bin_path_def dest: prefix_length_le suffix_length_le sublist_length_le)
  then show ?thesis
    by (simp add: policy_allows_def policy_new_def split: option.split)
qed

lemma ex_cache_ok: "rc_balanced ex_cache" "rc_wf env ex_cache" "rc_within ex_cache" "rc_capacity ex_cache \<noteq> - 1"
  "rc_should_cache ex_cache ''c'' (word_of_nat (length ''xy''))"
  by (simp_all add: rc_balanced_def rc_wf_def rc_within_def ex_cache_def ex_entry_def rc_should_cache_def)

theorem read_cache_coherent_witness:
  "fst (rc_get ex_env 9 ''a'' (rc_put ex_env (5, 5, 5) ''c'' ''xy'' (ex_info ''c'') ex_cache)) \<in>
     {None, fst (rc_get ex_env 9 ''a'' ex_cache)}"
  using read_cache_coherent[of ex_env ex_cache "''a''" "''c''" 9 5 5 5 "''xy''" "ex_info ''c''"]
  by (simp add: ex_cache_ok)

theorem read_cache_put_get_witness:
  "fst (rc_get ex_env 64 ''c'' (rc_put ex_env (5, 5, 5) ''c'' ''xy'' (ex_info ''c'') ex_cache)) =
     Some (''xy'', ex_info ''c'')"
proof -
  have "expiry 5 60 = 65" by (simp add: expiry_def)
  then have "64 < expiry 5 (rc_ttl ex_cache)" by (simp add: ex_cache_def)
  then show ?thesis
    using read_cache_put_get[OF ex_cache_ok(1,5), of ex_env 64 5 5 5 "ex_info ''c''"] by simp
qed

theorem read_cache_bounded_witness:
  "rc_within (fold (rc_apply ex_env) [RcPut (5, 5, 5) ''c'' ''xy'' (ex_info ''c''), RcGet 6 ''a'', RcRemove ''b''] ex_cache)"
  using read_cache_bounded[OF ex_cache_ok(3,4)] by blast

lemma ex_evict: "rc_entries (snd (rc_ensure_capacity ex_env 5 2 ex_cache)) = [(''a'', ex_entry ''a'' 3)]"
  by (simp add: rc_ensure_capacity_def rc_cleanup_def ex_cache_def ex_entry_def rc_evict.simps
      rc_remove_def al_remove_def sat_add_u64_def)

theorem read_cache_evicts_lru_witness:
  "re_expires (ex_entry ''b'' 2) \<le> 5 \<or> re_last (ex_entry ''b'' 2) \<le> re_last (ex_entry ''a'' 3)"
  by (rule read_cache_evicts_lru[OF ex_cache_ok(1), of "''b''" "ex_entry ''b'' 2" ex_env 5 2 "''a''" "ex_entry ''a'' 3"])
    (simp_all add: ex_evict, simp add: ex_cache_def)

definition ex_meta :: read_meta where
  "ex_meta = \<lparr>dm_key = ''c'', dm_info = ex_info ''c'', dm_size = 2, dm_created = 5, dm_expires = 65\<rparr>"

definition ex_cfg :: read_cache_config where
  "ex_cfg = \<lparr>cfg_enable = True, cfg_backend = ''local_dir'', cfg_local_dir = ''/c'', cfg_capacity = 5,
            cfg_max_file = 4, cfg_ttl = 60, cfg_thumbs = True, cfg_skip = []\<rparr>"

definition ex_dir :: "read_meta cache_fs" where
  "ex_dir = [''/c/p/c.bin'' \<mapsto> DataFile ''xy'', ''/c/p/c.json'' \<mapsto> MetaFile ex_meta, ''/c/p/x.json'' \<mapsto> TornFile]"

theorem read_cache_restart_witness:
  "\<exists>s. rc_new ex_env ex_dir (Some [(''x.json'', 20), (''c.json'', 20)]) 21 ''p'' ex_cfg = Inr s \<and>
       fst (rc_get ex_env 30 ''c'' s) = Some (''xy'', ex_info ''c'')"
proof -
  let ?n = "[(''x.json'', 20 :: int), (''c.json'', 20)]"
  obtain s where s: "rc_new ex_env ex_dir (Some ?n) 21 ''p'' ex_cfg = Inr s"
    by (simp add: rc_new_def Let_def ex_cfg_def)
  have root: "rc_root s = ''/c/p''"
  proof -
    have "rc_shrinks u v \<Longrightarrow> rc_root v = rc_root u" for u v by (simp add: rc_shrinks_def)
    note rt = this[OF rc_cleanup_shrinks]
    show ?thesis
      using s by (auto simp: rc_new_def rc_load_def rt ex_cfg_def Let_def join_path_def suffix_def split: if_splits)
  qed
  have "fst (rc_get ex_env 30 ''c'' s) = Some (''xy'', dm_info ex_meta)"
  proof (rule read_cache_restart[OF s])
    show "rc_dir_ok ex_env (rc_root s) ex_dir ''c'' (map fst ?n)"
      by (simp add: rc_dir_ok_def root ex_dir_def join_path_def meta_name_def suffix_def)
  qed (simp_all add: root ex_cfg_def ex_dir_def ex_meta_def data_path_def meta_path_def join_path_def meta_name_def suffix_def)
  then show ?thesis using s by (auto simp: ex_meta_def)
qed

text \<open>
  Loading compares nothing with the capacity. A directory with one file of two bytes, found under a capacity of one
  byte, makes a cache that is above its capacity from the start.
\<close>

lemma loaded_above_capacity:
  "case rc_new ex_env ex_dir (Some [(''c.json'', 20)]) 21 ''p'' (ex_cfg\<lparr>cfg_capacity := 1\<rparr>) of
     Inr s \<Rightarrow> rc_capacity s < rc_accounted s | Inl _ \<Rightarrow> False"
  by code_simp

end
