(* ===== verification/Operator.thy ===== *)
theory Operator
  imports Prelude
begin

text \<open>
  The storage behind a pool is an OpenDAL \<open>Operator\<close>, which is not part of the sources: it is a record of
  functions on a store of type \<open>'p\<close>, an argument of every definition that uses it. \<open>lawful_op\<close> is what its
  documentation promises for a set of distinct object names; \<open>map_op\<close> is an operator that keeps it.
\<close>

record dal_meta =
  md_is_dir :: bool
  md_length :: u64
  md_modified :: "int option"

type_synonym dal_error = "dal_kind \<times> string"

type_synonym 'p dal_update = "'p \<Rightarrow> (dal_error + unit) \<times> 'p"

text \<open>
  \<open>op_list recursive path\<close> is \<open>lister\<close>: the lister itself may be refused, and so may each entry. A streamed
  write is \<open>writer\<close>, one \<open>append\<close> for each chunk, and \<open>close\<close>; a streamed read is \<open>reader\<close> with the chunks of a
  range. What an object store keeps of a stream before it is closed is part of its state.
\<close>

record 'p operator =
  op_stat :: "string \<Rightarrow> 'p \<Rightarrow> dal_error + dal_meta"
  op_read :: "string \<Rightarrow> 'p \<Rightarrow> dal_error + string"
  op_write :: "string \<Rightarrow> string \<Rightarrow> 'p dal_update"
  op_exists :: "string \<Rightarrow> 'p \<Rightarrow> dal_error + bool"
  op_read_range :: "string \<Rightarrow> u64 \<Rightarrow> u64 \<Rightarrow> 'p \<Rightarrow> dal_error + string"
  op_reader :: "string \<Rightarrow> 'p \<Rightarrow> dal_error + unit"
  op_chunks :: "string \<Rightarrow> u64 \<Rightarrow> u64 \<Rightarrow> 'p \<Rightarrow> dal_error + (dal_error + string) list"
  op_list :: "bool \<Rightarrow> string \<Rightarrow> 'p \<Rightarrow> dal_error + (dal_error + string \<times> dal_meta) list"
  op_delete :: "string \<Rightarrow> 'p dal_update"
  op_rename :: "string \<Rightarrow> string \<Rightarrow> 'p dal_update"
  op_copy :: "string \<Rightarrow> string \<Rightarrow> 'p dal_update"
  op_create_dir :: "string \<Rightarrow> 'p dal_update"
  op_writer :: "string \<Rightarrow> 'p dal_update"
  op_append :: "string \<Rightarrow> string \<Rightarrow> 'p dal_update"
  op_close :: "string \<Rightarrow> 'p dal_update"

text \<open>
  A successful write makes the object readable with the written content and of its length; a write,
  also one that fails, changes no other object.
\<close>

definition lawful_op :: "'p operator \<Rightarrow> string set \<Rightarrow> bool" where
  "lawful_op opr P \<longleftrightarrow>
     (\<forall>p \<in> P. \<forall>d st st'. op_write opr p d st = (Inr (), st') \<longrightarrow>
        op_read opr p st' = Inr d \<and>
        (\<exists>m. op_stat opr p st' = Inr m \<and> \<not> md_is_dir m \<and> md_length m = word_of_nat (length d))) \<and>
     (\<forall>p \<in> P. \<forall>q \<in> P. \<forall>d st. q \<noteq> p \<longrightarrow>
        op_read opr q (snd (op_write opr p d st)) = op_read opr q st \<and>
        op_stat opr q (snd (op_write opr p d st)) = op_stat opr q st)"

lemma lawful_written:
  "lawful_op opr P \<Longrightarrow> p \<in> P \<Longrightarrow> op_write opr p d st = (Inr (), st') \<Longrightarrow> op_read opr p st' = Inr d"
  by (auto simp: lawful_op_def)

lemma lawful_length:
  "lawful_op opr P \<Longrightarrow> p \<in> P \<Longrightarrow> op_write opr p d st = (Inr (), st') \<Longrightarrow>
   \<exists>m. op_stat opr p st' = Inr m \<and> \<not> md_is_dir m \<and> md_length m = word_of_nat (length d)"
  unfolding lawful_op_def by blast

lemma lawful_other:
  "lawful_op opr P \<Longrightarrow> p \<in> P \<Longrightarrow> q \<in> P \<Longrightarrow> q \<noteq> p \<Longrightarrow> op_read opr q (snd (op_write opr p d st)) = op_read opr q st"
  by (auto simp: lawful_op_def)

text \<open>
  What the pool relies on besides: names in \<open>P\<close> are files; deleting, copying, renaming and the steps of a streamed
  write touch the named objects only.
\<close>

definition leaves :: "'p operator \<Rightarrow> string set \<Rightarrow> 'p dal_update \<Rightarrow> bool" where
  "leaves opr Q u \<longleftrightarrow> (\<forall>q \<in> Q. \<forall>st. op_read opr q (snd (u st)) = op_read opr q st)"

definition files_op :: "'p operator \<Rightarrow> string set \<Rightarrow> bool" where
  "files_op opr P \<longleftrightarrow>
     (\<forall>p \<in> P. \<forall>st m. op_stat opr p st = Inr m \<longrightarrow> \<not> md_is_dir m) \<and>
     (\<forall>p \<in> P. leaves opr (P - {p}) (op_delete opr p)) \<and>
     (\<forall>p \<in> P. \<forall>q \<in> P. leaves opr (P - {q}) (op_copy opr p q)) \<and>
     (\<forall>p. \<forall>q \<in> P. leaves opr (P - {p, q}) (op_rename opr p q)) \<and>
     (\<forall>p. leaves opr (P - {p}) (op_writer opr p) \<and> leaves opr (P - {p}) (op_close opr p) \<and>
        (\<forall>d. leaves opr (P - {p}) (op_append opr p d)))"

text \<open>
  A streamed write from its writer to its close. Only when it is closed are the chunks promised to be readable, in
  order; a rename moves the bytes and leaves no object behind.
\<close>

fun append_all :: "'p operator \<Rightarrow> string \<Rightarrow> string list \<Rightarrow> 'p dal_update" where
  "append_all opr t [] st = (Inr (), st)"
| "append_all opr t (d # ds) st =
     (case op_append opr t d st of (Inl e, st1) \<Rightarrow> (Inl e, st1) | (Inr _, st1) \<Rightarrow> append_all opr t ds st1)"

definition streamed :: "'p operator \<Rightarrow> string \<Rightarrow> string list \<Rightarrow> 'p dal_update" where
  "streamed opr t ds st =
     (case op_writer opr t st of
        (Inl e, st1) \<Rightarrow> (Inl e, st1)
      | (Inr _, st1) \<Rightarrow>
          (case append_all opr t ds st1 of (Inl e, st2) \<Rightarrow> (Inl e, st2) | (Inr _, st2) \<Rightarrow> op_close opr t st2))"

definition streaming_op :: "'p operator \<Rightarrow> string \<Rightarrow> string \<Rightarrow> bool" where
  "streaming_op opr t p \<longleftrightarrow>
     (\<forall>ds st st'. streamed opr t ds st = (Inr (), st') \<longrightarrow> op_read opr t st' = Inr (concat ds)) \<and>
     (\<forall>st st' x. op_read opr t st = Inr x \<and> op_rename opr t p st = (Inr (), st') \<longrightarrow>
        op_read opr p st' = Inr x \<and> (\<exists>e. op_read opr t st' = Inl e)) \<and>
     leaves opr {p} (op_writer opr t) \<and> leaves opr {p} (op_close opr t) \<and> (\<forall>c. leaves opr {p} (op_append opr t c))"

lemma streamingD:
  assumes "streaming_op opr t p"
  shows "streamed opr t ds st = (Inr (), st') \<Longrightarrow> op_read opr t st' = Inr (concat ds)"
    and "op_read opr t st = Inr x \<Longrightarrow> op_rename opr t p st = (Inr (), st') \<Longrightarrow>
           op_read opr p st' = Inr x \<and> (\<exists>e. op_read opr t st' = Inl e)"
    and "leaves opr {p} (op_writer opr t)" "leaves opr {p} (op_close opr t)" "leaves opr {p} (op_append opr t c)"
  using assms unfolding streaming_op_def by blast+

text \<open>
  The object holds \<open>d\<close>: every call that asks for it may fail, and one that succeeds agrees with \<open>d\<close>. A stream of
  chunks may also break off with an error.
\<close>

definition serves :: "'p operator \<Rightarrow> string \<Rightarrow> 'p \<Rightarrow> string \<Rightarrow> bool" where
  "serves opr p st d \<longleftrightarrow>
     length d < 2 ^ 64 \<and> (\<forall>x. op_read opr p st = Inr x \<longrightarrow> x = d) \<and>
     (\<forall>m. op_stat opr p st = Inr m \<longrightarrow> md_length m = word_of_nat (length d)) \<and>
     (\<forall>a b. a \<le> b \<and> unat b \<le> length d \<longrightarrow>
        (\<forall>x. op_read_range opr p a b st = Inr x \<longrightarrow> x = take (unat b - unat a) (drop (unat a) d)) \<and>
        (\<forall>cs. op_chunks opr p a b st = Inr (map Inr cs) \<longrightarrow> concat cs = take (unat b - unat a) (drop (unat a) d)))"

text \<open>
  The same without failures: when a whole read succeeds, a ranged read returns the bytes of the range, in one piece
  or in chunks, and a stat the length.
\<close>

definition ranged_op :: "'p operator \<Rightarrow> string \<Rightarrow> 'p \<Rightarrow> bool" where
  "ranged_op opr p st \<longleftrightarrow>
     (case op_read opr p st of
        Inl e \<Rightarrow> True
      | Inr d \<Rightarrow>
          length d < 2 ^ 64 \<and> op_reader opr p st = Inr () \<and>
          (\<exists>m. op_stat opr p st = Inr m \<and> md_length m = word_of_nat (length d)) \<and>
          (\<forall>a b. a \<le> b \<and> unat b \<le> length d \<longrightarrow>
             op_read_range opr p a b st = Inr (take (unat b - unat a) (drop (unat a) d)) \<and>
             (\<exists>cs. op_chunks opr p a b st = Inr (map Inr cs) \<and> concat cs = take (unat b - unat a) (drop (unat a) d))))"

section \<open>A store in memory\<close>

text \<open>An in-memory object store, whose writes fail below a broken prefix and which lists nothing.\<close>

definition map_op :: "(string \<Rightarrow> bool) \<Rightarrow> (string \<Rightarrow> string option) operator" where
  "map_op broken =
     \<lparr>op_stat = (\<lambda>p st. case st p of
          None \<Rightarrow> Inl (DalNotFound, p)
        | Some d \<Rightarrow> Inr \<lparr>md_is_dir = False, md_length = word_of_nat (length d), md_modified = None\<rparr>),
      op_read = (\<lambda>p st. case st p of None \<Rightarrow> Inl (DalNotFound, p) | Some d \<Rightarrow> Inr d),
      op_write = (\<lambda>p d st. if broken p then (Inl (DalUnexpected, ''io''), st) else (Inr (), st(p \<mapsto> d))),
      op_exists = (\<lambda>p st. Inr (st p \<noteq> None)),
      op_read_range = (\<lambda>p a b st. case st p of
          None \<Rightarrow> Inl (DalNotFound, p)
        | Some d \<Rightarrow> Inr (take (unat b - unat a) (drop (unat a) d))),
      op_reader = (\<lambda>p st. case st p of None \<Rightarrow> Inl (DalNotFound, p) | Some d \<Rightarrow> Inr ()),
      op_chunks = (\<lambda>p a b st. case st p of
          None \<Rightarrow> Inl (DalNotFound, p)
        | Some d \<Rightarrow> Inr [Inr (take (unat b - unat a) (drop (unat a) d))]),
      op_list = (\<lambda>r p st. Inl (DalOther, ''unsupported'')),
      op_delete = (\<lambda>p st. (Inr (), st(p := None))),
      op_rename = (\<lambda>p q st. case st p of
          None \<Rightarrow> (Inl (DalNotFound, p), st)
        | Some d \<Rightarrow> (Inr (), st(p := None, q := Some d))),
      op_copy = (\<lambda>p q st. case st p of None \<Rightarrow> (Inl (DalNotFound, p), st) | Some d \<Rightarrow> (Inr (), st(q \<mapsto> d))),
      op_create_dir = (\<lambda>p st. (Inl (DalOther, ''unsupported''), st)),
      op_writer = (\<lambda>p st. if broken p then (Inl (DalUnexpected, ''io''), st) else (Inr (), st(p \<mapsto> []))),
      op_append = (\<lambda>p d st. case st p of
          None \<Rightarrow> (Inl (DalNotFound, p), st)
        | Some x \<Rightarrow> (Inr (), st(p \<mapsto> x @ d))),
      op_close = (\<lambda>p st. (Inr (), st))\<rparr>"

lemma lawful_map_op: "lawful_op (map_op broken) P"
  by (auto simp: lawful_op_def map_op_def)

lemma files_map_op: "files_op (map_op broken) P"
  by (auto simp: files_op_def leaves_def map_op_def split: option.splits)

lemma ranged_map_op: "(\<And>d. st p = Some d \<Longrightarrow> length d < 2 ^ 64) \<Longrightarrow> ranged_op (map_op broken) p st"
  by (cases "st p") (simp_all add: ranged_op_def map_op_def exI[of _ "[_]"])

lemma serves_map_op: "st p = Some d \<Longrightarrow> length d < 2 ^ 64 \<Longrightarrow> serves (map_op broken) p st d"
  by (auto simp: serves_def map_op_def map_eq_Cons_conv)

lemma append_all_map_op:
  "st t = Some x \<Longrightarrow> append_all (map_op broken) t ds st = (Inr (), st(t \<mapsto> x @ concat ds))"
  by (induction ds arbitrary: st x) (auto simp: map_op_def)

lemma streaming_map_op: "t \<noteq> p \<Longrightarrow> streaming_op (map_op broken) t p"
proof -
  assume "t \<noteq> p"
  have "op_read (map_op broken) t st' = Inr (concat ds)" if run: "streamed (map_op broken) t ds st = (Inr (), st')" for ds st st'
  proof -
    have w: "op_writer (map_op broken) t st = (Inr (), st(t \<mapsto> []))"
      using run by (auto simp: streamed_def map_op_def split: if_splits)
    have "append_all (map_op broken) t ds (st(t \<mapsto> [])) = (Inr (), st(t \<mapsto> concat ds))"
      using append_all_map_op[of "st(t \<mapsto> [])" t "[]"] by simp
    then show ?thesis using run w by (auto simp: streamed_def map_op_def)
  qed
  then show ?thesis
    using \<open>t \<noteq> p\<close> unfolding streaming_op_def
    by (auto simp: leaves_def map_op_def split: option.splits if_splits)
qed

end
