(* ===== verification/Write_Cache.thy ===== *)
theory Write_Cache
  imports Operator Read_Cache
begin

text \<open>
  The write-back cache (\<open>vfs/cache/write_cache.rs\<close>). An admitted write is acknowledged once it is pending;
  a flush delivers it to the primary storage, and a write that keeps failing is spilled to the abnormal
  directory after its deadline. The entries are shared records (\<open>Arc<PendingWriteRecord>\<close>): the table maps
  a physical path to the identity of a record in \<open>wc_heap\<close>, because a task keeps its record after the
  table has dropped it. Each section the code runs under the record's lock is a definition of its own, and
  an operation is their composition; the findings about interleavings compose them in another order.
\<close>

datatype write_backend = WriteMemory | WriteLocalDir

datatype pending_state = Pending | Flushing | Abnormal

datatype pending_blob = PMem string | PDisk string

record write_meta =
  wm_user :: string
  wm_logical :: string
  wm_physical :: string
  wm_blob_path :: "string option"
  wm_size :: u64
  wm_modified :: int
  wm_deadline :: int
  wm_generation :: u64
  wm_abnormal :: bool

record pending =
  pe_user :: string
  pe_logical :: string
  pe_physical :: string
  pe_parent :: string
  pe_blob :: pending_blob
  pe_size :: u64
  pe_modified :: int
  pe_deadline :: int
  pe_next_retry :: int
  pe_generation :: u64
  pe_retry :: nat
  pe_state :: pending_state
  pe_abnormal_logged :: bool
  pe_error :: "string option"

record index_task =
  it_user :: string
  it_logical_parent :: string
  it_physical_parent :: string
  it_next :: int
  it_retry :: nat

record quota_task =
  qt_user :: string
  qt_delta :: int
  qt_next :: int
  qt_retry :: nat

record journal_event =
  je_user :: string
  je_action :: string
  je_src :: string
  je_dst :: "string option"
  je_success :: bool
  je_error :: "string option"

record 'p write_cache =
  wc_enabled :: bool
  wc_backend :: write_backend
  wc_queue_dir :: string
  wc_abnormal_dir :: string
  wc_capacity :: u64
  wc_max_file :: u64
  wc_interval_ms :: u64
  wc_deadline_secs :: u64
  wc_policy :: cache_path_policy
  wc_accounted :: u64
  wc_entries :: "(string \<times> nat) list"
  wc_dirty_paths :: "(string \<times> unit) list"
  wc_dirty_dirs :: "(string \<times> unit) list"
  wc_index_tasks :: "(string \<times> index_task) list"
  wc_quota_tasks :: "(string \<times> quota_task) list"
  wc_read :: "read_cache option"
  wc_store :: 'p
  wc_heap :: "nat \<Rightarrow> pending"
  wc_next_id :: nat
  wc_next_uuid :: nat
  wc_fs :: "write_meta cache_fs"
  wc_metrics :: vfs_metrics
  wc_journal :: "journal_event list"

text \<open>What the manager calls and does not own: the file systems, \<open>Uuid::now_v7\<close>, the primary operator,
  and whether a journal recorder is registered.\<close>

record 'p wc_env =
  we_fs :: "write_meta fs_env"
  we_read :: "read_meta fs_env"
  we_uuid :: "nat \<Rightarrow> string"
  we_op :: "'p operator"
  we_recorder :: bool

section \<open>Small helpers\<close>

definition sat_inc_u32 :: "nat \<Rightarrow> nat" where
  "sat_inc_u32 n = min (n + 1) (2 ^ 32 - 1)"

definition wc_parent_path :: "string \<Rightarrow> string" where
  "wc_parent_path path = (case path_parent path of Some p \<Rightarrow> if p = [] then ''/'' else p | None \<Rightarrow> ''/'')"

definition file_info_from_pending :: "string \<Rightarrow> u64 \<Rightarrow> int \<Rightarrow> vfs_file_info" where
  "file_info_from_pending path sz modified =
     \<lparr>fi_name = (case path_file_name path of Some n \<Rightarrow> n | None \<Rightarrow> path), fi_path = path, fi_is_dir = False,
      fi_size = sz, fi_modified = Some modified, fi_favorite_color = 0, fi_has_active_share = None,
      fi_has_active_direct = None, fi_trashed_at = None, fi_original_path = None\<rparr>"

text \<open>\<open>Path::with_extension("json")\<close> on a file name, and on a path.\<close>

definition file_stem :: "string \<Rightarrow> string" where
  "file_stem n = (case rsplit_once dot n of Some (a, _) \<Rightarrow> if a = [] then n else a | None \<Rightarrow> n)"

definition meta_path_for_blob :: "string \<Rightarrow> string" where
  "meta_path_for_blob p =
     (case rsplit_once slash p of
        Some (d, n) \<Rightarrow> d @ ''/'' @ file_stem n @ ''.json''
      | None \<Rightarrow> file_stem p @ ''.json'')"

text \<open>\<open>Path::starts_with\<close> compares components.\<close>

definition path_components :: "string \<Rightarrow> string list" where
  "path_components p =
     (if prefix ''/'' p then [''/''] else []) @ filter (\<lambda>x. x \<noteq> [] \<and> x \<noteq> ''.'') (split_on slash p)"

definition path_starts_with :: "string \<Rightarrow> string \<Rightarrow> bool" where
  "path_starts_with p d \<longleftrightarrow> prefix (path_components d) (path_components p)"

definition accounted_bytes_for_blob :: "'p write_cache \<Rightarrow> pending \<Rightarrow> u64" where
  "accounted_bytes_for_blob s e =
     (case (wc_backend s, pe_blob e) of
        (WriteMemory, PMem _) \<Rightarrow> pe_size e
      | (WriteLocalDir, PDisk _) \<Rightarrow> pe_size e
      | _ \<Rightarrow> 0)"

definition retry_delay_secs :: "u64 \<Rightarrow> nat \<Rightarrow> bool \<Rightarrow> int" where
  "retry_delay_secs interval_ms retry abnormal_logged =
     (let base = sint (max (interval_ms div 1000) 1);
          e = 2 ^ min (retry - 1) 6;
          delay = sat_mul_i64 base e in
      if abnormal_logged then max 5 (min 300 delay) else max 1 (min 60 delay))"

definition physical_to_logical_path :: "string \<Rightarrow> string \<Rightarrow> string option" where
  "physical_to_logical_path user physical =
     (if physical = user then Some ''/''
      else case strip_prefix (user @ ''/'') physical of
        None \<Rightarrow> None
      | Some stripped \<Rightarrow> Some (trim_end_matches slash (''/'' @ trim_start_matches slash stripped)))"

definition wc_metric :: "(vfs_metrics \<Rightarrow> vfs_metrics) \<Rightarrow> 'p write_cache \<Rightarrow> 'p write_cache" where
  "wc_metric f s = s\<lparr>wc_metrics := f (wc_metrics s)\<rparr>"

definition upd_entry :: "nat \<Rightarrow> (pending \<Rightarrow> pending) \<Rightarrow> 'p write_cache \<Rightarrow> 'p write_cache" where
  "upd_entry i f s = s\<lparr>wc_heap := (wc_heap s)(i := f (wc_heap s i))\<rparr>"

section \<open>Blobs\<close>

definition wc_should_cache :: "'p write_cache \<Rightarrow> string \<Rightarrow> nat \<Rightarrow> bool" where
  "wc_should_cache s path n \<longleftrightarrow>
     wc_enabled s \<and> policy_allows (wc_policy s) path \<and> n > 0 \<and>
     (word_of_nat n :: u64) \<le> wc_max_file s \<and> (word_of_nat n :: u64) \<le> wc_capacity s"

definition read_blob_bytes :: "'p wc_env \<Rightarrow> pending_blob \<Rightarrow> 'p write_cache \<Rightarrow> string option" where
  "read_blob_bytes env b s = (case b of PMem d \<Rightarrow> Some d | PDisk p \<Rightarrow> fs_read (we_fs env) p (wc_fs s))"

definition remove_blob_files :: "'p wc_env \<Rightarrow> pending_blob \<Rightarrow> 'p write_cache \<Rightarrow> 'p write_cache" where
  "remove_blob_files env b s =
     (case b of
        PMem _ \<Rightarrow> s
      | PDisk p \<Rightarrow>
          s\<lparr>wc_fs := fs_remove (we_fs env) (meta_path_for_blob p) (fs_remove (we_fs env) p (wc_fs s))\<rparr>)"

definition write_blob_files ::
  "'p wc_env \<Rightarrow> string \<Rightarrow> write_meta \<Rightarrow> string \<Rightarrow> 'p write_cache \<Rightarrow> pending_blob option \<times> 'p write_cache" where
  "write_blob_files env file_path meta data s =
     (let (ok1, fs1) = fs_write (we_fs env) file_path (DataFile data) (wc_fs s) in
      if \<not> ok1 then (None, s\<lparr>wc_fs := fs1\<rparr>)
      else
        (let (ok2, fs2) = fs_write (we_fs env) (meta_path_for_blob file_path) (MetaFile meta) fs1 in
         (if ok2 then Some (PDisk file_path) else None, s\<lparr>wc_fs := fs2\<rparr>)))"

definition base_dir :: "bool \<Rightarrow> 'p write_cache \<Rightarrow> string" where
  "base_dir abnormal s = (if abnormal then wc_abnormal_dir s else wc_queue_dir s)"

definition store_blob ::
  "'p wc_env \<Rightarrow> write_meta \<Rightarrow> string \<Rightarrow> 'p write_cache \<Rightarrow> pending_blob option \<times> 'p write_cache" where
  "store_blob env meta data s =
     (if wc_backend s = WriteMemory \<and> \<not> wm_abnormal meta then (Some (PMem data), s)
      else if \<not> mkdir_ok (we_fs env) (base_dir (wm_abnormal meta) s) then (None, s)
      else write_blob_files env (data_path (we_fs env) (base_dir (wm_abnormal meta) s) (wm_physical meta)) meta data s)"

definition staged_name :: "'p wc_env \<Rightarrow> string \<Rightarrow> nat \<Rightarrow> string" where
  "staged_name env physical n = hash (we_fs env) physical @ ''-'' @ we_uuid env n @ ''.bin''"

definition store_staged_blob ::
  "'p wc_env \<Rightarrow> write_meta \<Rightarrow> string \<Rightarrow> 'p write_cache \<Rightarrow> pending_blob option \<times> 'p write_cache" where
  "store_staged_blob env meta data s =
     (if \<not> mkdir_ok (we_fs env) (base_dir (wm_abnormal meta) s) then (None, s)
      else
        (let file_path = join_path (base_dir (wm_abnormal meta) s) (staged_name env (wm_physical meta) (wc_next_uuid s)) in
         write_blob_files env file_path (meta\<lparr>wm_blob_path := Some file_path\<rparr>) data
           (s\<lparr>wc_next_uuid := wc_next_uuid s + 1\<rparr>)))"

section \<open>Markers and scheduled work\<close>

definition task_key :: "string \<Rightarrow> string \<Rightarrow> string" where
  "task_key user logical_parent = user @ [CHR 0x0A] @ logical_parent"

definition mark_dirty :: "int \<Rightarrow> string \<Rightarrow> string \<Rightarrow> string \<Rightarrow> 'p write_cache \<Rightarrow> 'p write_cache" where
  "mark_dirty now logical physical user s =
     s\<lparr>wc_dirty_paths := al_put physical () (wc_dirty_paths s),
       wc_dirty_dirs := al_put (wc_parent_path physical) () (wc_dirty_dirs s),
       wc_index_tasks := al_put (task_key user (wc_parent_path logical))
         \<lparr>it_user = user, it_logical_parent = wc_parent_path logical,
          it_physical_parent = wc_parent_path physical, it_next = now + 1, it_retry = 0\<rparr> (wc_index_tasks s)\<rparr>"

definition schedule_index_sync :: "int \<Rightarrow> pending \<Rightarrow> 'p write_cache \<Rightarrow> 'p write_cache" where
  "schedule_index_sync now e s =
     (if \<not> policy_allows (wc_policy s) (pe_logical e) then s
      else
        (let k = task_key (pe_user e) (wc_parent_path (pe_logical e)) in
         wc_metric record_index_sync_spawned
           (s\<lparr>wc_index_tasks :=
               (if map_of (wc_index_tasks s) k \<noteq> None
                then al_update k (\<lambda>t. t\<lparr>it_next := now + 1, it_retry := 0\<rparr>) (wc_index_tasks s)
                else al_put k \<lparr>it_user = pe_user e, it_logical_parent = wc_parent_path (pe_logical e),
                  it_physical_parent = wc_parent_path (pe_physical e), it_next = now + 1, it_retry = 0\<rparr>
                  (wc_index_tasks s))\<rparr>)))"

definition schedule_quota_sync :: "int \<Rightarrow> string \<Rightarrow> string \<Rightarrow> int \<Rightarrow> 'p write_cache \<Rightarrow> 'p write_cache" where
  "schedule_quota_sync now user logical delta s =
     (if delta = 0 \<or> contains logical ''/.thumbs'' \<or> contains logical ''/.thumbs_cache'' then s
      else case map_of (wc_quota_tasks s) user of
        Some t \<Rightarrow>
          wc_metric record_quota_sync_scheduled
            (s\<lparr>wc_quota_tasks :=
                (if wrap_i64 (qt_delta t + delta) = 0 then al_remove user (wc_quota_tasks s)
                 else al_update user (\<lambda>t. t\<lparr>qt_delta := wrap_i64 (qt_delta t + delta), qt_next := now + 1, qt_retry := 0\<rparr>)
                   (wc_quota_tasks s))\<rparr>)
      | None \<Rightarrow>
          wc_metric record_quota_sync_scheduled
            (s\<lparr>wc_quota_tasks := al_put user \<lparr>qt_user = user, qt_delta = delta, qt_next = now + 1, qt_retry = 0\<rparr>
                (wc_quota_tasks s)\<rparr>))"

definition pending_quota_delta :: "string \<Rightarrow> 'p write_cache \<Rightarrow> int" where
  "pending_quota_delta user s = (case map_of (wc_quota_tasks s) user of Some t \<Rightarrow> qt_delta t | None \<Rightarrow> 0)"

definition clear_dirty_markers :: "string \<Rightarrow> 'p write_cache \<Rightarrow> 'p write_cache" where
  "clear_dirty_markers physical_parent s =
     s\<lparr>wc_dirty_dirs := al_remove physical_parent (wc_dirty_dirs s),
       wc_dirty_paths := filter (\<lambda>p. wc_parent_path (fst p) \<noteq> physical_parent) (wc_dirty_paths s)\<rparr>"

definition is_dirty_path :: "string \<Rightarrow> 'p write_cache \<Rightarrow> bool" where
  "is_dirty_path physical s \<longleftrightarrow> map_of (wc_dirty_paths s) physical \<noteq> None"

definition is_dirty_dir :: "string \<Rightarrow> 'p write_cache \<Rightarrow> bool" where
  "is_dirty_dir physical s \<longleftrightarrow> map_of (wc_dirty_dirs s) physical \<noteq> None"

section \<open>Reading what is pending\<close>

definition lookup_entry :: "string \<Rightarrow> 'p write_cache \<Rightarrow> pending option" where
  "lookup_entry physical s = map_option (wc_heap s) (map_of (wc_entries s) physical)"

definition pending_stat :: "string \<Rightarrow> 'p write_cache \<Rightarrow> vfs_file_info option" where
  "pending_stat physical s =
     (case lookup_entry physical s of
        None \<Rightarrow> None
      | Some e \<Rightarrow> Some (file_info_from_pending physical (pe_size e) (pe_modified e)))"

definition pending_read ::
  "'p wc_env \<Rightarrow> string \<Rightarrow> 'p write_cache \<Rightarrow> (string \<times> vfs_file_info) option \<times> 'p write_cache" where
  "pending_read env physical s =
     (case lookup_entry physical s of
        None \<Rightarrow> (None, s)
      | Some e \<Rightarrow>
          (case read_blob_bytes env (pe_blob e) s of
             None \<Rightarrow> (None, s)
           | Some data \<Rightarrow>
               (Some (data, file_info_from_pending physical (pe_size e) (pe_modified e)),
                wc_metric record_write_cache_pending_read s)))"

definition pending_children :: "string \<Rightarrow> 'p write_cache \<Rightarrow> vfs_file_info list" where
  "pending_children parent s =
     map (\<lambda>e. file_info_from_pending (pe_physical e) (pe_size e) (pe_modified e))
       (filter (\<lambda>e. pe_parent e = parent) (map (\<lambda>p. wc_heap s (snd p)) (wc_entries s)))"

section \<open>Accepting a write\<close>

definition can_admit :: "string \<Rightarrow> u64 \<Rightarrow> 'p write_cache \<Rightarrow> bool" where
  "can_admit physical new_size s =
     (let existing = (case lookup_entry physical s of Some e \<Rightarrow> accounted_bytes_for_blob s e | None \<Rightarrow> 0) in
      sat_add_u64 (sat_sub_u64 (wc_accounted s) existing) new_size \<le> wc_capacity s)"

datatype update_plan = InMemory | StageDisk bool

text \<open>\<open>update_existing_entry\<close>: the first locked section, the staging without the lock, the second locked section.\<close>

definition update_begin ::
  "nat \<Rightarrow> string \<Rightarrow> int \<Rightarrow> int \<Rightarrow> 'p write_cache \<Rightarrow> (u64 \<times> u64 \<times> update_plan) \<times> 'p write_cache" where
  "update_begin i data modified deadline s =
     (let e = wc_heap s i;
          generation = sat_add_u64 (pe_generation e) 1;
          plan = (case (wc_backend s, pe_blob e) of
                    (WriteMemory, PMem _) \<Rightarrow> InMemory
                  | (_, PDisk p) \<Rightarrow> StageDisk (path_starts_with p (wc_abnormal_dir s))
                  | (WriteLocalDir, PMem _) \<Rightarrow> StageDisk False) in
      ((generation, accounted_bytes_for_blob s e, plan),
       upd_entry i (\<lambda>e. e\<lparr>pe_generation := generation, pe_size := word_of_nat (length data),
         pe_modified := modified, pe_deadline := deadline, pe_next_retry := modified,
         pe_state := (if pe_abnormal_logged e then Abnormal else Pending), pe_error := None\<rparr>) s))"

definition update_stage ::
  "'p wc_env \<Rightarrow> nat \<Rightarrow> string \<Rightarrow> string \<Rightarrow> int \<Rightarrow> int \<Rightarrow> u64 \<Rightarrow> update_plan \<Rightarrow> 'p write_cache \<Rightarrow>
   pending_blob option \<times> 'p write_cache" where
  "update_stage env i physical data modified deadline generation plan s =
     (case plan of
        InMemory \<Rightarrow> (Some (PMem data), s)
      | StageDisk abnormal \<Rightarrow>
          store_staged_blob env
            \<lparr>wm_user = pe_user (wc_heap s i), wm_logical = pe_logical (wc_heap s i), wm_physical = physical,
             wm_blob_path = None, wm_size = word_of_nat (length data), wm_modified = modified,
             wm_deadline = deadline, wm_generation = generation, wm_abnormal = abnormal\<rparr> data s)"

definition swap_blob :: "nat \<Rightarrow> u64 \<Rightarrow> pending_blob \<Rightarrow> 'p write_cache \<Rightarrow> 'p write_cache" where
  "swap_blob i previous_accounted blob s =
     (let s1 = upd_entry i (\<lambda>e. e\<lparr>pe_blob := blob\<rparr>) s;
          new_accounted = accounted_bytes_for_blob s1 (wc_heap s1 i) in
      if previous_accounted \<le> new_accounted
      then s1\<lparr>wc_accounted := wc_accounted s1 + (new_accounted - previous_accounted)\<rparr>
      else s1\<lparr>wc_accounted := wc_accounted s1 - (previous_accounted - new_accounted)\<rparr>)"

definition update_swap ::
  "'p wc_env \<Rightarrow> nat \<Rightarrow> u64 \<Rightarrow> u64 \<Rightarrow> pending_blob \<Rightarrow> 'p write_cache \<Rightarrow> 'p write_cache" where
  "update_swap env i generation previous_accounted staged s =
     (if pe_generation (wc_heap s i) \<noteq> generation then remove_blob_files env staged s
      else remove_blob_files env (pe_blob (wc_heap s i)) (swap_blob i previous_accounted staged s))"

definition update_existing_entry ::
  "'p wc_env \<Rightarrow> nat \<Rightarrow> string \<Rightarrow> string \<Rightarrow> int \<Rightarrow> int \<Rightarrow> 'p write_cache \<Rightarrow> bool \<times> 'p write_cache" where
  "update_existing_entry env i physical data modified deadline s =
     (case update_begin i data modified deadline s of ((generation, previous, plan), s1) \<Rightarrow>
      (case update_stage env i physical data modified deadline generation plan s1 of
         (None, s2) \<Rightarrow> (False, s2)
       | (Some staged, s2) \<Rightarrow> (True, update_swap env i generation previous staged s2)))"

definition add_entry :: "string \<Rightarrow> pending \<Rightarrow> 'p write_cache \<Rightarrow> 'p write_cache" where
  "add_entry physical e s =
     s\<lparr>wc_heap := (wc_heap s)(wc_next_id s := e), wc_next_id := wc_next_id s + 1,
       wc_accounted := wc_accounted s + accounted_bytes_for_blob s e,
       wc_entries := al_put physical (wc_next_id s) (wc_entries s)\<rparr>"

definition wc_enqueue ::
  "'p wc_env \<Rightarrow> int \<Rightarrow> string \<Rightarrow> string \<Rightarrow> string \<Rightarrow> string \<Rightarrow> 'p write_cache \<Rightarrow>
   (string + vfs_file_info option) \<times> 'p write_cache" where
  "wc_enqueue env now user logical physical data s =
     (if \<not> wc_should_cache s logical (length data) then (Inr None, wc_metric record_write_cache_bypass s)
      else
        (let s1 = s\<lparr>wc_read := map_option (rc_remove (we_read env) physical) (wc_read s)\<rparr>;
             sz = word_of_nat (length data) in
         if \<not> can_admit physical sz s1 then (Inr None, wc_metric record_write_cache_bypass s1)
         else
           (let deadline = expiry now (wc_deadline_secs s1) in
            case map_of (wc_entries s1) physical of
              Some i \<Rightarrow>
                (case update_existing_entry env i physical data now deadline s1 of
                   (False, s2) \<Rightarrow> (Inl ''stage'', s2)
                 | (True, s2) \<Rightarrow>
                     (let s3 = mark_dirty now logical physical user s2 in
                      (Inr (Some (file_info_from_pending physical (pe_size (wc_heap s3 i)) now)),
                       wc_metric record_write_cache_enqueue s3)))
            | None \<Rightarrow>
                (case store_blob env
                   \<lparr>wm_user = user, wm_logical = logical, wm_physical = physical, wm_blob_path = None, wm_size = sz,
                    wm_modified = now, wm_deadline = deadline, wm_generation = 1, wm_abnormal = False\<rparr> data s1 of
                   (None, s2) \<Rightarrow> (Inl ''store'', s2)
                 | (Some blob, s2) \<Rightarrow>
                     (let e = \<lparr>pe_user = user, pe_logical = logical, pe_physical = physical,
                           pe_parent = wc_parent_path physical, pe_blob = blob, pe_size = sz, pe_modified = now,
                           pe_deadline = deadline, pe_next_retry = now, pe_generation = 1, pe_retry = 0,
                           pe_state = Pending, pe_abnormal_logged = False, pe_error = None\<rparr> in
                      (Inr (Some (file_info_from_pending physical sz now)),
                       wc_metric record_write_cache_enqueue
                         (mark_dirty now logical physical user (add_entry physical e s2))))))))"

section \<open>Flushing\<close>

type_synonym flush_snap = "pending_blob \<times> u64 \<times> u64 \<times> int \<times> int"

definition flush_begin :: "int \<Rightarrow> bool \<Rightarrow> nat \<Rightarrow> 'p write_cache \<Rightarrow> flush_snap option \<times> 'p write_cache" where
  "flush_begin now force i s =
     (let e = wc_heap s i in
      if pe_state e = Flushing then (None, s)
      else if \<not> force \<and> pe_next_retry e > now then (None, s)
      else (Some (pe_blob e, pe_generation e, pe_size e, pe_modified e, pe_deadline e),
            upd_entry i (\<lambda>e. e\<lparr>pe_state := Flushing\<rparr>) s))"

datatype promotion = Promoted pending_blob | AlreadyAbnormal | PromotionFailed

definition promote_to_abnormal :: "'p wc_env \<Rightarrow> nat \<Rightarrow> string \<Rightarrow> 'p write_cache \<Rightarrow> promotion \<times> 'p write_cache" where
  "promote_to_abnormal env i data s =
     (let e = wc_heap s i in
      if (case pe_blob e of PDisk p \<Rightarrow> path_starts_with p (wc_abnormal_dir s) | PMem _ \<Rightarrow> False)
      then (AlreadyAbnormal, upd_entry i (\<lambda>e. e\<lparr>pe_state := Abnormal\<rparr>) s)
      else
        (case store_staged_blob env
           \<lparr>wm_user = pe_user e, wm_logical = pe_logical e, wm_physical = pe_physical e, wm_blob_path = None,
            wm_size = pe_size e, wm_modified = pe_modified e, wm_deadline = pe_deadline e,
            wm_generation = pe_generation e, wm_abnormal = True\<rparr> data s of
           (None, s1) \<Rightarrow> (PromotionFailed, s1)
         | (Some staged, s1) \<Rightarrow>
             (if pe_generation (wc_heap s1 i) \<noteq> pe_generation e
              then (PromotionFailed, remove_blob_files env staged s1)
              else (Promoted (pe_blob (wc_heap s1 i)),
                    upd_entry i (\<lambda>e. e\<lparr>pe_state := Abnormal\<rparr>)
                      (swap_blob i (accounted_bytes_for_blob s e) staged s1)))))"

definition log_abnormal_journal :: "'p wc_env \<Rightarrow> nat \<Rightarrow> string \<Rightarrow> 'p write_cache \<Rightarrow> 'p write_cache" where
  "log_abnormal_journal env i msg s =
     (if we_recorder env
      then s\<lparr>wc_journal := wc_journal s @
        [\<lparr>je_user = pe_user (wc_heap s i), je_action = ''FILE:WRITE_CACHE_DEADLINE_EXCEEDED'',
          je_src = pe_logical (wc_heap s i), je_dst = Some (pe_physical (wc_heap s i)),
          je_success = False, je_error = Some msg\<rparr>]\<rparr>
      else s)"

definition flush_failed_tail ::
  "int \<Rightarrow> nat \<Rightarrow> int \<Rightarrow> string \<Rightarrow> 'p write_cache \<Rightarrow> (vfs_error + unit) \<times> 'p write_cache" where
  "flush_failed_tail now i deadline msg s =
     (Inl (Internal msg),
      wc_metric record_write_cache_flush_failure
        (upd_entry i (\<lambda>e. e\<lparr>
           pe_next_retry := (if now > deadline then now + retry_delay_secs (wc_interval_ms s) (pe_retry e) True
                             else pe_next_retry e),
           pe_state := (if pe_abnormal_logged e then Abnormal else Pending)\<rparr>) s))"

definition flush_failed ::
  "'p wc_env \<Rightarrow> int \<Rightarrow> nat \<Rightarrow> int \<Rightarrow> string \<Rightarrow> string \<Rightarrow> 'p write_cache \<Rightarrow> (vfs_error + unit) \<times> 'p write_cache" where
  "flush_failed env now i deadline msg data s =
     (let s1 = upd_entry i (\<lambda>e. e\<lparr>pe_retry := sat_inc_u32 (pe_retry e), pe_error := Some msg,
            pe_next_retry := now + retry_delay_secs (wc_interval_ms s) (sat_inc_u32 (pe_retry e)) (pe_abnormal_logged e)\<rparr>) s in
      if now > deadline then
        (case promote_to_abnormal env i data s1 of
           (Promoted old, s2) \<Rightarrow>
             (if \<not> pe_abnormal_logged (wc_heap s2 i)
              then (Inl (Internal msg),
                    wc_metric record_write_cache_flush_failure
                      (log_abnormal_journal env i msg
                        (wc_metric record_write_cache_abnormal_spill
                          (remove_blob_files env old
                            (upd_entry i (\<lambda>e. e\<lparr>pe_abnormal_logged := True, pe_state := Abnormal,
                               pe_next_retry := now + retry_delay_secs (wc_interval_ms s) (pe_retry e) True\<rparr>) s2)))))
              else flush_failed_tail now i deadline msg s2)
         | (AlreadyAbnormal, s2) \<Rightarrow>
             flush_failed_tail now i deadline msg (upd_entry i (\<lambda>e. e\<lparr>pe_state := Abnormal\<rparr>) s2)
         | (PromotionFailed, s2) \<Rightarrow> flush_failed_tail now i deadline msg s2)
      else flush_failed_tail now i deadline msg s1)"

definition flushed_info :: "'p wc_env \<Rightarrow> string \<Rightarrow> u64 \<Rightarrow> int \<Rightarrow> 'p write_cache \<Rightarrow> vfs_file_info" where
  "flushed_info env physical sz modified s =
     (case op_stat (we_op env) physical (wc_store s) of
        Inr m \<Rightarrow> \<lparr>fi_name = (case path_file_name physical of Some n \<Rightarrow> n | None \<Rightarrow> physical), fi_path = physical,
                 fi_is_dir = md_is_dir m, fi_size = md_length m, fi_modified = md_modified m, fi_favorite_color = 0,
                 fi_has_active_share = None, fi_has_active_direct = None, fi_trashed_at = None, fi_original_path = None\<rparr>
      | Inl _ \<Rightarrow> file_info_from_pending physical sz modified)"

definition flush_commit ::
  "'p wc_env \<Rightarrow> int \<Rightarrow> nat \<Rightarrow> flush_snap \<Rightarrow> int \<Rightarrow> string \<Rightarrow> 'p write_cache \<Rightarrow> (vfs_error + unit) \<times> 'p write_cache" where
  "flush_commit env now i snap previous_size data s =
     (case snap of (blob, generation, sz, modified, deadline) \<Rightarrow>
      (let e = wc_heap s i;
           info = flushed_info env (pe_physical e) sz modified s in
       if pe_generation e \<noteq> generation
       then (Inr (), upd_entry i (\<lambda>e. e\<lparr>pe_state := Pending, pe_next_retry := now\<rparr>) s)
       else
         (let s1 = remove_blob_files env (pe_blob e) (s\<lparr>wc_accounted := wc_accounted s - accounted_bytes_for_blob s e\<rparr>);
              s2 = s1\<lparr>wc_entries := al_remove (pe_physical e) (wc_entries s1),
                       wc_read := map_option (rc_put (we_read env) (now, now, now) (pe_physical e) data info) (wc_read s1)\<rparr>;
              delta = wrap_i64 (sint (fi_size info) - previous_size) in
          (Inr (), wc_metric record_write_cache_flush_success
             (schedule_quota_sync now (pe_user e) (pe_logical e) delta (schedule_index_sync now e s2))))))"

definition flush_io ::
  "'p wc_env \<Rightarrow> int \<Rightarrow> nat \<Rightarrow> flush_snap \<Rightarrow> 'p write_cache \<Rightarrow> (vfs_error + unit) \<times> 'p write_cache" where
  "flush_io env now i snap s =
     (case snap of (blob, generation, sz, modified, deadline) \<Rightarrow>
      (case read_blob_bytes env blob s of
         None \<Rightarrow> (Inl (Internal ''read''), s)
       | Some data \<Rightarrow>
           (let physical = pe_physical (wc_heap s i);
                previous_size = (case op_stat (we_op env) physical (wc_store s) of
                                   Inr m \<Rightarrow> sint (md_length m) | Inl _ \<Rightarrow> 0);
                (r, st) = op_write (we_op env) physical data (wc_store s);
                s1 = s\<lparr>wc_store := st\<rparr> in
            case r of
              Inl (k, msg) \<Rightarrow> flush_failed env now i deadline msg data s1
            | Inr _ \<Rightarrow> flush_commit env now i snap previous_size data s1)))"

definition flush_entry ::
  "'p wc_env \<Rightarrow> int \<Rightarrow> int \<Rightarrow> nat \<Rightarrow> bool \<Rightarrow> 'p write_cache \<Rightarrow> (vfs_error + unit) \<times> 'p write_cache" where
  "flush_entry env now now' i force s =
     (case flush_begin now force i s of
        (None, s1) \<Rightarrow> (Inr (), s1)
      | (Some snap, s1) \<Rightarrow> flush_io env now' i snap s1)"

definition flush_path ::
  "'p wc_env \<Rightarrow> int \<Rightarrow> int \<Rightarrow> string \<Rightarrow> 'p write_cache \<Rightarrow> (vfs_error + unit) \<times> 'p write_cache" where
  "flush_path env now now' physical s =
     (case map_of (wc_entries s) physical of
        None \<Rightarrow> (Inr (), s)
      | Some i \<Rightarrow> flush_entry env now now' i True s)"

section \<open>The background worker\<close>

definition is_due_for_background_flush :: "int \<Rightarrow> pending \<Rightarrow> bool" where
  "is_due_for_background_flush now e \<longleftrightarrow> pe_state e \<noteq> Flushing \<and> pe_next_retry e \<le> now"

text \<open>
  One tick flushes at most as many due entries as there are permits. The spawned tasks are run one after
  another here.
\<close>

definition worker_flush :: "'p wc_env \<Rightarrow> nat \<Rightarrow> int \<Rightarrow> int \<Rightarrow> 'p write_cache \<Rightarrow> 'p write_cache" where
  "worker_flush env permits now now' s =
     fold (\<lambda>i s. snd (flush_entry env now now' i False s))
       (take permits (filter (\<lambda>i. is_due_for_background_flush now (wc_heap s i)) (map snd (wc_entries s)))) s"

definition due_quota_tasks :: "int \<Rightarrow> 'p write_cache \<Rightarrow> (string \<times> quota_task) list" where
  "due_quota_tasks now s = filter (\<lambda>p. qt_next (snd p) \<le> now) (wc_quota_tasks s)"

text \<open>A removed task is charged to the user's row; \<open>db_ok\<close> is the outcome of \<open>update_storage_used\<close>.\<close>

definition sync_user_quota :: "int \<Rightarrow> bool \<Rightarrow> string \<Rightarrow> quota_task \<Rightarrow> 'p write_cache \<Rightarrow> bool \<times> 'p write_cache" where
  "sync_user_quota now db_ok key task s =
     (if qt_delta task = 0 then (True, s)
      else if db_ok then (True, wc_metric record_quota_sync_success s)
      else
        (False, wc_metric record_quota_sync_failed
           (s\<lparr>wc_quota_tasks :=
              (if map_of (wc_quota_tasks s) key \<noteq> None
               then al_update key (\<lambda>t. t\<lparr>qt_delta := wrap_i64 (qt_delta t + qt_delta task),
                      qt_next := now + retry_delay_secs (wc_interval_ms s) (sat_inc_u32 (qt_retry t)) False,
                      qt_retry := sat_inc_u32 (qt_retry t)\<rparr>) (wc_quota_tasks s)
               else al_put key \<lparr>qt_user = qt_user task, qt_delta = qt_delta task,
                      qt_next = now + retry_delay_secs (wc_interval_ms s) (sat_inc_u32 (qt_retry task)) False,
                      qt_retry = sat_inc_u32 (qt_retry task)\<rparr> (wc_quota_tasks s))\<rparr>)))"

section \<open>Start-up\<close>

definition wc_load_one ::
  "'p wc_env \<Rightarrow> string \<Rightarrow> bool \<Rightarrow> string \<times> int \<Rightarrow> 'p write_cache \<Rightarrow> 'p write_cache" where
  "wc_load_one env dir abnormal nt s =
     (case nt of (name, now) \<Rightarrow>
      (let path = join_path dir name in
       if \<not> json_name name then s
       else if \<not> rd_ok (we_fs env) path then s
       else case wc_fs s path of
         Some (MetaFile meta) \<Rightarrow>
           (let bp = (case wm_blob_path meta of Some p \<Rightarrow> p | None \<Rightarrow> data_path (we_fs env) dir (wm_physical meta)) in
            if wc_fs s bp = None then s\<lparr>wc_fs := fs_remove (we_fs env) path (wc_fs s)\<rparr>
            else
              (let e = \<lparr>pe_user = wm_user meta, pe_logical = wm_logical meta, pe_physical = wm_physical meta,
                    pe_parent = wc_parent_path (wm_physical meta), pe_blob = PDisk bp, pe_size = wm_size meta,
                    pe_modified = wm_modified meta, pe_deadline = wm_deadline meta, pe_next_retry = now,
                    pe_generation = wm_generation meta, pe_retry = 0,
                    pe_state = (if abnormal then Abnormal else Pending), pe_abnormal_logged = abnormal,
                    pe_error = None\<rparr> in
               mark_dirty now (wm_logical meta) (wm_physical meta) (wm_user meta)
                 (add_entry (wm_physical meta) e s)))
       | _ \<Rightarrow> s))"

definition wc_load_dir ::
  "'p wc_env \<Rightarrow> string \<Rightarrow> bool \<Rightarrow> (string \<times> int) list option \<Rightarrow> 'p write_cache \<Rightarrow> 'p write_cache" where
  "wc_load_dir env dir abnormal listing s =
     (case listing of None \<Rightarrow> s | Some names \<Rightarrow> fold (wc_load_one env dir abnormal) names s)"

definition wc_load ::
  "'p wc_env \<Rightarrow> (string \<times> int) list option \<Rightarrow> (string \<times> int) list option \<Rightarrow> 'p write_cache \<Rightarrow> 'p write_cache" where
  "wc_load env queue_listing abnormal_listing s =
     (if \<not> wc_enabled s then s
      else wc_load_dir env (wc_abnormal_dir s) True abnormal_listing
        (if wc_backend s = WriteLocalDir then wc_load_dir env (wc_queue_dir s) False queue_listing s else s))"

record write_cache_config =
  wcfg_enable :: bool
  wcfg_backend :: string
  wcfg_local_dir :: string
  wcfg_spill_dir :: string
  wcfg_capacity :: u64
  wcfg_max_file :: u64
  wcfg_interval_ms :: u64
  wcfg_deadline :: u64
  wcfg_thumbs :: bool
  wcfg_skip :: "string list"

definition path_join :: "string \<Rightarrow> string \<Rightarrow> string" where
  "path_join root name = (if starts_with name ''/'' then name else join_path root name)"

definition wc_new ::
  "'p wc_env \<Rightarrow> 'p \<Rightarrow> write_meta cache_fs \<Rightarrow> (nat \<Rightarrow> pending) \<Rightarrow> (string \<times> int) list option \<Rightarrow>
   (string \<times> int) list option \<Rightarrow> string \<Rightarrow> read_cache option \<Rightarrow> write_cache_config \<Rightarrow> string + 'p write_cache" where
  "wc_new env store fs heap ql al pool_name rc cfg =
     (let backend = (if wcfg_backend cfg = ''memory'' then WriteMemory else WriteLocalDir);
          queue = join_path (path_join (wcfg_local_dir cfg) pool_name) ''queue'';
          abnormal = path_join (wcfg_spill_dir cfg) pool_name in
      if \<not> mkdir_ok (we_fs env) abnormal then Inl ''create_dir_all''
      else if backend = WriteLocalDir \<and> \<not> mkdir_ok (we_fs env) queue then Inl ''create_dir_all''
      else Inr (wc_load env ql al
        \<lparr>wc_enabled = wcfg_enable cfg, wc_backend = backend, wc_queue_dir = queue, wc_abnormal_dir = abnormal,
         wc_capacity = wcfg_capacity cfg, wc_max_file = wcfg_max_file cfg, wc_interval_ms = wcfg_interval_ms cfg,
         wc_deadline_secs = wcfg_deadline cfg, wc_policy = policy_new (wcfg_thumbs cfg) (wcfg_skip cfg),
         wc_accounted = 0, wc_entries = [], wc_dirty_paths = [], wc_dirty_dirs = [], wc_index_tasks = [],
         wc_quota_tasks = [], wc_read = rc, wc_store = store, wc_heap = heap, wc_next_id = 0,
         wc_next_uuid = 0, wc_fs = fs, wc_metrics = zero_metrics, wc_journal = []\<rparr>))"

end
