(* ===== verification/Write_Back.thy ===== *)
theory Write_Back
  imports Write_Cache
begin

text \<open>
  Correctness of the write-back cache. The first part is the geometry of the blob files: every file an
  operation on a physical path touches carries the digest of that path in its name, so operations on
  different paths do not meet on disk. The second part is the invariant of the table and the frame of
  each operation, the third the refinement: to a reader that asks the cache first and the primary storage
  second, the cache is a map from paths to contents, written by acknowledged enqueues and left alone by
  flushes. The last part has the byte ledger and the interleavings that break these guarantees.
\<close>

section \<open>Blob files\<close>

text \<open>SHA-256 digests and UUIDs as the code prints them: fixed length and no separators, fresh UUIDs.\<close>

definition hash_ok :: "'p wc_env \<Rightarrow> bool" where
  "hash_ok env \<longleftrightarrow>
     (\<forall>k. length (hash (we_fs env) k) = 64 \<and> slash \<notin> set (hash (we_fs env) k) \<and> dot \<notin> set (hash (we_fs env) k)) \<and>
     (\<forall>n. slash \<notin> set (we_uuid env n) \<and> dot \<notin> set (we_uuid env n)) \<and> inj (we_uuid env)"

definition owned :: "'p wc_env \<Rightarrow> string \<Rightarrow> string \<Rightarrow> bool" where
  "owned env k p \<longleftrightarrow> (\<exists>root t. p = join_path root (hash (we_fs env) k @ t) \<and> slash \<notin> set t)"

text \<open>A blob path of \<open>k\<close> that is not the name of a future staging.\<close>

definition blob_path_ok :: "'p wc_env \<Rightarrow> string \<Rightarrow> nat \<Rightarrow> string \<Rightarrow> bool" where
  "blob_path_ok env k nu p \<longleftrightarrow>
     (\<exists>root t. p = join_path root (hash (we_fs env) k @ t @ ''.bin'') \<and> slash \<notin> set t \<and> dot \<notin> set t \<and>
        (\<forall>n \<ge> nu. t \<noteq> ''-'' @ we_uuid env n))"

lemma last_seg_join: "slash \<notin> set a \<Longrightarrow> last (split_on slash (join_path root a)) = a"
  by (auto simp: join_path_def split_on_free split_on_append suffix_def)

lemma join_path_name: 
  "join_path r a = join_path q b \<Longrightarrow> slash \<notin> set a \<Longrightarrow> slash \<notin> set b \<Longrightarrow> a = b"
  by (metis last_seg_join)

lemma rsplit_join:
  assumes "slash \<notin> set a" "root \<noteq> []"
  shows "\<exists>d. rsplit_once slash (join_path root a) = Some (d, a) \<and> (\<forall>x. d @ ''/'' @ x = join_path root x)"
proof (cases "suffix ''/'' root")
  case True
  then obtain d where "root = d @ ''/''" by (auto simp: suffix_def)
  then show ?thesis using assms rsplit_once_append[of slash a d] by (auto simp: join_path_def)
next
  case False
  then show ?thesis using assms rsplit_once_append[of slash a root] by (auto simp: join_path_def)
qed

lemma meta_path_for_blob_join:
  assumes "slash \<notin> set a" "a \<noteq> []"
  shows "meta_path_for_blob (join_path root (a @ ''.bin'')) = join_path root (a @ ''.json'')"
proof -
  have stem: "file_stem (a @ ''.bin'') = a"
    using rsplit_once_append[of dot "''bin''" a] assms by (simp add: file_stem_def)
  have s: "slash \<notin> set (a @ ''.bin'')" using assms by simp
  show ?thesis
  proof (cases "root = []")
    case True
    then have "rsplit_once slash (a @ ''.bin'') = None" using s by (simp only: rsplit_once_None) simp
    then show ?thesis using True stem by (simp add: meta_path_for_blob_def join_path_def)
  next
    case False
    then show ?thesis using rsplit_join[OF s False] stem by (auto simp: meta_path_for_blob_def)
  qed
qed

lemma hash_append_eq:
  assumes "hash_ok env" "hash (we_fs env) j @ t = hash (we_fs env) k @ u"
  shows "hash (we_fs env) j = hash (we_fs env) k \<and> t = u"
proof -
  have "length (hash (we_fs env) j) = length (hash (we_fs env) k)" using assms(1) by (simp add: hash_ok_def)
  then show ?thesis using assms(2) by simp
qed

lemma hash_nonempty: "hash_ok env \<Longrightarrow> hash (we_fs env) k @ t \<noteq> []"
  by (auto simp: hash_ok_def dest!: spec[of _ k])

lemma hash_no_slash: "hash_ok env \<Longrightarrow> slash \<notin> set (hash (we_fs env) k)"
  by (simp add: hash_ok_def)

lemma owned_disjoint:
  assumes "hash_ok env" "owned env j p" "owned env k p"
  shows "hash (we_fs env) j = hash (we_fs env) k"
proof -
  obtain r t where p: "p = join_path r (hash (we_fs env) j @ t)" "slash \<notin> set t"
    using assms(2) unfolding owned_def by blast
  obtain q u where q: "p = join_path q (hash (we_fs env) k @ u)" "slash \<notin> set u"
    using assms(3) unfolding owned_def by blast
  note p q
  then have "hash (we_fs env) j @ t = hash (we_fs env) k @ u"
    using hash_no_slash[OF assms(1)] join_path_name[of r "hash (we_fs env) j @ t" q "hash (we_fs env) k @ u"] by simp
  then show ?thesis using hash_append_eq[OF assms(1)] by blast
qed

lemma blob_path_owned:
  assumes "hash_ok env" "blob_path_ok env k nu p"
  shows "owned env k p" "owned env k (meta_path_for_blob p)"
proof -
  obtain root t where p: "p = join_path root (hash (we_fs env) k @ t @ ''.bin'')" "slash \<notin> set t"
    using assms(2) by (auto simp: blob_path_ok_def)
  show "owned env k p" unfolding owned_def using p by (intro exI[of _ root] exI[of _ "t @ ''.bin''"]) simp
  have "meta_path_for_blob p = join_path root (hash (we_fs env) k @ t @ ''.json'')"
    using meta_path_for_blob_join[of "hash (we_fs env) k @ t" root] p hash_no_slash[OF assms(1)] hash_nonempty[OF assms(1)]
    by simp
  then show "owned env k (meta_path_for_blob p)"
    unfolding owned_def using p(2) by (intro exI[of _ root] exI[of _ "t @ ''.json''"]) simp
qed

lemma blob_meta_distinct:
  assumes "hash_ok env" "blob_path_ok env k nu p" "blob_path_ok env k' nu' q"
  shows "meta_path_for_blob p \<noteq> q"
proof
  assume eq: "meta_path_for_blob p = q"
  obtain root t r u where p: "p = join_path root (hash (we_fs env) k @ t @ ''.bin'')" "slash \<notin> set t"
    and q: "q = join_path r (hash (we_fs env) k' @ u @ ''.bin'')" "slash \<notin> set u"
    using assms(2,3) by (auto simp: blob_path_ok_def)
  have "meta_path_for_blob p = join_path root (hash (we_fs env) k @ t @ ''.json'')"
    using meta_path_for_blob_join[of "hash (we_fs env) k @ t" root] p hash_no_slash[OF assms(1)] hash_nonempty[OF assms(1)]
    by simp
  then have "join_path root (hash (we_fs env) k @ t @ ''.json'') = join_path r (hash (we_fs env) k' @ u @ ''.bin'')"
    using eq q by simp
  from join_path_name[OF this] have "hash (we_fs env) k @ t @ ''.json'' = hash (we_fs env) k' @ u @ ''.bin''"
    using p(2) q(2) hash_no_slash[OF assms(1)] by simp
  then show False using suffix_distinct[of "hash (we_fs env) k' @ u" "hash (we_fs env) k @ t"] by simp
qed

lemma staged_path_ok:
  assumes "hash_ok env"
  shows "blob_path_ok env k (Suc n) (join_path root (staged_name env k n))"
proof -
  have "we_uuid env n \<noteq> we_uuid env m" if "Suc n \<le> m" for m
    using assms that unfolding hash_ok_def inj_def by (metis Suc_n_not_le_n)
  then show ?thesis
    unfolding blob_path_ok_def staged_name_def
    using assms by (intro exI[of _ root] exI[of _ "''-'' @ we_uuid env n"]) (auto simp: hash_ok_def)
qed

lemma staged_path_fresh:
  assumes "hash_ok env" "blob_path_ok env k n p"
  shows "p \<noteq> join_path root (staged_name env k n)"
proof
  assume eq: "p = join_path root (staged_name env k n)"
  obtain r t where p: "p = join_path r (hash (we_fs env) k @ t @ ''.bin'')" "slash \<notin> set t" "t \<noteq> ''-'' @ we_uuid env n"
    using assms(2) by (auto simp: blob_path_ok_def)
  have "join_path r (hash (we_fs env) k @ t @ ''.bin'') = join_path root (staged_name env k n)"
    using eq p(1) by simp
  from join_path_name[OF this] have "hash (we_fs env) k @ t @ ''.bin'' = staged_name env k n"
    using p(2) assms(1) by (simp add: staged_name_def hash_ok_def)
  then show False using p(3) by (simp add: staged_name_def)
qed

lemma data_path_ok:
  assumes "hash_ok env"
  shows "blob_path_ok env k nu (data_path (we_fs env) root k)"
  unfolding blob_path_ok_def data_path_def by (intro exI[of _ root] exI[of _ "[]"]) simp

lemma blob_path_ok_mono:
  assumes "blob_path_ok env k n p" "n \<le> m" shows "blob_path_ok env k m p"
proof -
  obtain root t where "p = join_path root (hash (we_fs env) k @ t @ ''.bin'')" "slash \<notin> set t" "dot \<notin> set t"
    "\<forall>l \<ge> n. t \<noteq> ''-'' @ we_uuid env l"
    using assms(1) unfolding blob_path_ok_def by blast
  then show ?thesis
    unfolding blob_path_ok_def using assms(2) by (intro exI[of _ root] exI[of _ t]) simp
qed

section \<open>The invariant and the frame\<close>

definition blob_ok :: "'p wc_env \<Rightarrow> string \<Rightarrow> 'p write_cache \<Rightarrow> pending_blob \<Rightarrow> bool" where
  "blob_ok env k s b \<longleftrightarrow>
     (case b of PMem _ \<Rightarrow> wc_backend s = WriteMemory | PDisk p \<Rightarrow> blob_path_ok env k (wc_next_uuid s) p)"

definition wc_wf :: "'p wc_env \<Rightarrow> 'p write_cache \<Rightarrow> bool" where
  "wc_wf env s \<longleftrightarrow>
     distinct (map fst (wc_entries s)) \<and> distinct (map snd (wc_entries s)) \<and>
     (\<forall>(k, i) \<in> set (wc_entries s).
        i < wc_next_id s \<and> pe_physical (wc_heap s i) = k \<and> blob_ok env k s (pe_blob (wc_heap s i)))"

lemma wc_wfD:
  "wc_wf env s \<Longrightarrow> map_of (wc_entries s) k = Some i \<Longrightarrow>
   i < wc_next_id s \<and> pe_physical (wc_heap s i) = k \<and> blob_ok env k s (pe_blob (wc_heap s i))"
  by (auto simp: wc_wf_def dest!: map_of_SomeD)

lemma wc_wf_id_inj:
  "wc_wf env s \<Longrightarrow> map_of (wc_entries s) k = Some i \<Longrightarrow> map_of (wc_entries s) j = Some i \<Longrightarrow> j = k"
  using wc_wfD by blast

text \<open>
  \<open>wc_touch env k i s s'\<close>: between the states, only the record \<open>i\<close> and files of \<open>k\<close> changed, besides
  counters, markers, the read cache and the journal.
\<close>

definition wc_touch :: "'p wc_env \<Rightarrow> string \<Rightarrow> nat \<Rightarrow> 'p write_cache \<Rightarrow> 'p write_cache \<Rightarrow> bool" where
  "wc_touch env k i s s' \<longleftrightarrow>
     wc_enabled s' = wc_enabled s \<and> wc_backend s' = wc_backend s \<and> wc_queue_dir s' = wc_queue_dir s \<and>
     wc_abnormal_dir s' = wc_abnormal_dir s \<and> wc_capacity s' = wc_capacity s \<and> wc_policy s' = wc_policy s \<and>
     wc_entries s' = wc_entries s \<and> wc_next_id s' = wc_next_id s \<and> wc_next_uuid s \<le> wc_next_uuid s' \<and>
     wc_store s' = wc_store s \<and>
     pe_physical (wc_heap s' i) = pe_physical (wc_heap s i) \<and>
     (\<forall>j. j \<noteq> i \<longrightarrow> wc_heap s' j = wc_heap s j) \<and>
     (\<forall>p. \<not> owned env k p \<longrightarrow> wc_fs s' p = wc_fs s p)"

lemma wc_touch_refl [simp]: "wc_touch env k i s s"
  by (simp add: wc_touch_def)

lemma wc_touch_trans: "wc_touch env k i s t \<Longrightarrow> wc_touch env k i t u \<Longrightarrow> wc_touch env k i s u"
  unfolding wc_touch_def by (simp add: le_trans)

lemma wc_touch_upd_entry:
  "(\<And>e. pe_physical (f e) = pe_physical e) \<Longrightarrow> wc_touch env k i s (upd_entry i f s)"
  by (simp add: wc_touch_def upd_entry_def)

lemma wc_touch_inert [simp]:
  "wc_touch env k i s (wc_metric f s)"
  "wc_touch env k i s (mark_dirty now l p u s)"
  "wc_touch env k i s (schedule_index_sync now e s)"
  "wc_touch env k i s (schedule_quota_sync now u l d s)"
  "wc_touch env k i s (log_abnormal_journal env j m s)"
  "wc_touch env k i s (s\<lparr>wc_read := r\<rparr>)"
  "wc_touch env k i s (s\<lparr>wc_accounted := a\<rparr>)"
  by (simp_all add: wc_touch_def wc_metric_def mark_dirty_def schedule_index_sync_def Let_def
      schedule_quota_sync_def log_abnormal_journal_def split: option.split)

lemma wc_touch_remove_files:
  "hash_ok env \<Longrightarrow> blob_ok env k s b \<Longrightarrow> wc_touch env k i s (remove_blob_files env b s)"
  using blob_path_owned[of env k "wc_next_uuid s"]
  by (auto simp: wc_touch_def remove_blob_files_def blob_ok_def fs_remove_def split: pending_blob.splits)

lemma write_blob_files_touch:
  assumes "hash_ok env" "blob_path_ok env k nu p"
  shows "wc_touch env k i s (snd (write_blob_files env p m d s))"
  using blob_path_owned[OF assms]
  by (auto simp: write_blob_files_def wc_touch_def fs_write_def Let_def)

lemma store_blob_touch:
  "hash_ok env \<Longrightarrow> wm_physical m = k \<Longrightarrow> wc_touch env k i s (snd (store_blob env m d s))"
  using write_blob_files_touch[OF _ data_path_ok]
  by (auto simp: store_blob_def)

lemma store_staged_touch:
  assumes "hash_ok env" "wm_physical m = k"
  shows "wc_touch env k i s (snd (store_staged_blob env m d s))"
proof -
  let ?s = "s\<lparr>wc_next_uuid := wc_next_uuid s + 1\<rparr>"
  have "wc_touch env k i s ?s" by (simp add: wc_touch_def)
  then show ?thesis
    using wc_touch_trans[OF _ write_blob_files_touch[OF assms(1) staged_path_ok[OF assms(1)]]] assms(2)
    by (auto simp: store_staged_blob_def Let_def)
qed

lemma store_blob_ok:
  "hash_ok env \<Longrightarrow> store_blob env m d s = (Some b, s') \<Longrightarrow> blob_ok env (wm_physical m) s' b"
  by (auto simp: store_blob_def write_blob_files_def fs_write_def Let_def blob_ok_def data_path_ok split: if_splits)

lemma store_staged_result:
  assumes "store_staged_blob env m d s = (Some b, s')"
  shows "b = PDisk (join_path (base_dir (wm_abnormal m) s) (staged_name env (wm_physical m) (wc_next_uuid s))) \<and>
         wc_next_uuid s' = Suc (wc_next_uuid s)"
  using assms by (auto simp: store_staged_blob_def write_blob_files_def fs_write_def Let_def split: if_splits)

lemma store_staged_ok:
  assumes "hash_ok env" "store_staged_blob env m d s = (Some b, s')"
  shows "blob_ok env (wm_physical m) s' b" "\<not> blob_ok env (wm_physical m) s b"
  using store_staged_result[OF assms(2)] staged_path_ok[OF assms(1)] staged_path_fresh[OF assms(1)]
  by (simp add: blob_ok_def, unfold blob_ok_def, force)

lemma blob_ok_mono:
  "blob_ok env k s b \<Longrightarrow> wc_next_uuid s \<le> wc_next_uuid s' \<Longrightarrow> wc_backend s' = wc_backend s \<Longrightarrow> blob_ok env k s' b"
  by (auto simp: blob_ok_def intro: blob_path_ok_mono split: pending_blob.splits)

lemma wc_touch_wf:
  assumes "wc_wf env s" "wc_touch env k i s s'" "map_of (wc_entries s) k = Some i"
    and "blob_ok env k s' (pe_blob (wc_heap s' i))"
  shows "wc_wf env s'"
proof -
  have "j < wc_next_id s' \<and> pe_physical (wc_heap s' j) = q \<and> blob_ok env q s' (pe_blob (wc_heap s' j))"
    if "(q, j) \<in> set (wc_entries s)" for q j
  proof -
    have q: "map_of (wc_entries s) q = Some j" using that assms(1) by (simp add: wc_wf_def)
    note D = wc_wfD[OF assms(1) q]
    show ?thesis
    proof (cases "j = i")
      case True
      then have "q = k" using wc_wf_id_inj[OF assms(1,3)] q by blast
      then show ?thesis using True D assms(2,4) by (simp add: wc_touch_def)
    next
      case False
      then show ?thesis using D assms(2) blob_ok_mono[of env q s _ s'] by (simp add: wc_touch_def)
    qed
  qed
  then show ?thesis using assms(1,2) by (auto simp: wc_wf_def wc_touch_def)
qed

lemma read_blob_other:
  assumes "hash_ok env" "hash (we_fs env) j \<noteq> hash (we_fs env) k" "blob_ok env j s b"
    and "\<forall>p. \<not> owned env k p \<longrightarrow> wc_fs s' p = wc_fs s p"
  shows "read_blob_bytes env b s' = read_blob_bytes env b s"
proof (cases b)
  case (PDisk p)
  then have "owned env j p" using assms(3) blob_path_owned[OF assms(1)] by (simp add: blob_ok_def)
  then have "\<not> owned env k p" using owned_disjoint[OF assms(1)] assms(2) by blast
  then show ?thesis using assms(4) PDisk by (simp add: read_blob_bytes_def fs_read_def)
qed (simp add: read_blob_bytes_def)

section \<open>What a reader sees\<close>

text \<open>The cache first, the primary storage second.\<close>

definition wc_content :: "'p wc_env \<Rightarrow> string \<Rightarrow> 'p write_cache \<Rightarrow> string option" where
  "wc_content env k s =
     (case lookup_entry k s of None \<Rightarrow> None | Some e \<Rightarrow> read_blob_bytes env (pe_blob e) s)"

definition wc_view :: "'p wc_env \<Rightarrow> string \<Rightarrow> 'p write_cache \<Rightarrow> string option" where
  "wc_view env k s =
     (case fst (pending_read env k s) of
        Some (d, _) \<Rightarrow> Some d
      | None \<Rightarrow> (case op_read (we_op env) k (wc_store s) of Inr d \<Rightarrow> Some d | Inl _ \<Rightarrow> None))"

lemma wc_view_content:
  "wc_view env k s =
     (case wc_content env k s of
        Some d \<Rightarrow> Some d
      | None \<Rightarrow> (case op_read (we_op env) k (wc_store s) of Inr d \<Rightarrow> Some d | Inl _ \<Rightarrow> None))"
  by (simp add: wc_view_def wc_content_def pending_read_def split: option.split)

lemma wc_view_cong:
  "wc_content env k s' = wc_content env k s \<Longrightarrow>
   op_read (we_op env) k (wc_store s') = op_read (we_op env) k (wc_store s) \<Longrightarrow> wc_view env k s' = wc_view env k s"
  by (simp add: wc_view_content split: option.split)

lemma wc_content_other:
  assumes "hash_ok env" "wc_wf env s" "hash (we_fs env) j \<noteq> hash (we_fs env) k"
    and "map_of (wc_entries s') j = map_of (wc_entries s) j"
    and "\<And>i. map_of (wc_entries s) j = Some i \<Longrightarrow> wc_heap s' i = wc_heap s i"
    and "\<forall>p. \<not> owned env k p \<longrightarrow> wc_fs s' p = wc_fs s p"
  shows "wc_content env j s' = wc_content env j s"
proof (cases "map_of (wc_entries s) j")
  case (Some i)
  then show ?thesis
    using assms(4) assms(5)[OF Some] wc_wfD[OF assms(2) Some] read_blob_other[OF assms(1,3) _ assms(6)]
    by (simp add: wc_content_def lookup_entry_def)
qed (simp add: wc_content_def lookup_entry_def assms(4))

lemma wc_touch_content_other:
  assumes "hash_ok env" "wc_wf env s" "hash (we_fs env) j \<noteq> hash (we_fs env) k"
    and "wc_touch env k i s s'" "map_of (wc_entries s) k = Some i \<or> wc_next_id s \<le> i"
  shows "wc_content env j s' = wc_content env j s"
proof (rule wc_content_other[OF assms(1-3)])
  show "map_of (wc_entries s') j = map_of (wc_entries s) j" using assms(4) by (simp add: wc_touch_def)
  show "\<forall>p. \<not> owned env k p \<longrightarrow> wc_fs s' p = wc_fs s p" using assms(4) by (simp add: wc_touch_def)
  fix l assume l: "map_of (wc_entries s) j = Some l"
  have "l \<noteq> i" using assms(3,5) wc_wf_id_inj[OF assms(2) l] wc_wfD[OF assms(2) l] by auto
  then show "wc_heap s' l = wc_heap s l" using assms(4) by (simp add: wc_touch_def)
qed

section \<open>Enqueue\<close>

lemma write_blob_files_heap [simp]:
  "wc_heap (snd (write_blob_files env p m d s)) = wc_heap s"
  "wc_accounted (snd (write_blob_files env p m d s)) = wc_accounted s"
  "wc_backend (snd (write_blob_files env p m d s)) = wc_backend s"
  "wc_entries (snd (write_blob_files env p m d s)) = wc_entries s"
  by (simp_all add: write_blob_files_def fs_write_def Let_def)

lemma store_blob_heap [simp]:
  "wc_heap (snd (store_blob env m d s)) = wc_heap s"
  "wc_accounted (snd (store_blob env m d s)) = wc_accounted s"
  "wc_backend (snd (store_blob env m d s)) = wc_backend s"
  "wc_entries (snd (store_blob env m d s)) = wc_entries s"
  by (simp_all add: store_blob_def)

lemma store_staged_heap [simp]:
  "wc_heap (snd (store_staged_blob env m d s)) = wc_heap s"
  "wc_accounted (snd (store_staged_blob env m d s)) = wc_accounted s"
  "wc_backend (snd (store_staged_blob env m d s)) = wc_backend s"
  "wc_entries (snd (store_staged_blob env m d s)) = wc_entries s"
  by (simp_all add: store_staged_blob_def Let_def)

lemma remove_blob_files_heap [simp]:
  "wc_heap (remove_blob_files env b s) = wc_heap s"
  "wc_accounted (remove_blob_files env b s) = wc_accounted s"
  "wc_backend (remove_blob_files env b s) = wc_backend s"
  "wc_entries (remove_blob_files env b s) = wc_entries s"
  by (simp_all add: remove_blob_files_def split: pending_blob.split)

lemma write_blob_files_stored:
  assumes "write_blob_files env p m d s = (Some b, s')" "all_ok (we_fs env)" "meta_path_for_blob p \<noteq> p"
  shows "b = PDisk p \<and> read_blob_bytes env b s' = Some d"
proof -
  have "s' = s\<lparr>wc_fs := (wc_fs s)(p \<mapsto> DataFile d, meta_path_for_blob p \<mapsto> MetaFile m)\<rparr>" "b = PDisk p"
    using assms(1,2) by (simp_all add: write_blob_files_def fs_write_def all_ok_def Let_def)
  then show ?thesis using assms(2,3) by (simp add: read_blob_bytes_def fs_read_def all_ok_def)
qed

lemma write_blob_files_total: "all_ok (we_fs env) \<Longrightarrow> \<exists>b s'. write_blob_files env p m d s = (Some b, s')"
  by (simp add: write_blob_files_def fs_write_def all_ok_def Let_def)

lemma store_blob_total:
  assumes "all_ok (we_fs env)" "hash_ok env"
  shows "\<exists>b s'. store_blob env m d s = (Some b, s') \<and> read_blob_bytes env b s' = Some d"
proof (cases "wc_backend s = WriteMemory \<and> \<not> wm_abnormal m")
  case True
  then show ?thesis by (simp add: store_blob_def read_blob_bytes_def)
next
  case False
  let ?p = "data_path (we_fs env) (base_dir (wm_abnormal m) s) (wm_physical m)"
  obtain b s' where w: "write_blob_files env ?p m d s = (Some b, s')"
    using write_blob_files_total[OF assms(1)] by metis
  have "meta_path_for_blob ?p \<noteq> ?p"
    by (rule blob_meta_distinct[OF assms(2) data_path_ok[OF assms(2)] data_path_ok[OF assms(2)]])
  from write_blob_files_stored[OF w assms(1) this] show ?thesis
    using False assms(1) w by (auto simp: store_blob_def all_ok_def)
qed

lemma store_staged_total:
  assumes "all_ok (we_fs env)" "hash_ok env"
  shows "\<exists>b s'. store_staged_blob env m d s = (Some b, s') \<and> read_blob_bytes env b s' = Some d"
proof -
  let ?p = "join_path (base_dir (wm_abnormal m) s) (staged_name env (wm_physical m) (wc_next_uuid s))"
  let ?m = "m\<lparr>wm_blob_path := Some ?p\<rparr>" and ?s = "s\<lparr>wc_next_uuid := wc_next_uuid s + 1\<rparr>"
  obtain b s' where w: "write_blob_files env ?p ?m d ?s = (Some b, s')"
    using write_blob_files_total[OF assms(1)] by metis
  have "meta_path_for_blob ?p \<noteq> ?p"
    by (rule blob_meta_distinct[OF assms(2) staged_path_ok[OF assms(2)] staged_path_ok[OF assms(2)]])
  from write_blob_files_stored[OF w assms(1) this] show ?thesis
    using assms(1) w by (auto simp: store_staged_blob_def all_ok_def Let_def)
qed

lemma read_after_remove:
  assumes "hash_ok env" "blob_ok env k s b" "blob_ok env k s' b'" "b' \<noteq> b \<or> (\<exists>d. b = PMem d)"
  shows "read_blob_bytes env b' (remove_blob_files env b u) = read_blob_bytes env b' u"
proof (cases b)
  case (PDisk p)
  show ?thesis
  proof (cases b')
    case d: (PDisk q)
    have "meta_path_for_blob p \<noteq> q"
      using assms(2,3) PDisk d by (intro blob_meta_distinct[OF assms(1)]) (simp_all add: blob_ok_def)
    then show ?thesis
      using PDisk d assms(4) by (auto simp: read_blob_bytes_def remove_blob_files_def fs_read_def fs_remove_def)
  qed (simp add: read_blob_bytes_def)
qed (simp add: remove_blob_files_def)

lemma swap_blob_result:
  "wc_heap (swap_blob i prev b s) = (wc_heap s)(i := (wc_heap s i)\<lparr>pe_blob := b\<rparr>)"
  "wc_accounted (swap_blob i prev b s) =
     wc_accounted s + accounted_bytes_for_blob s ((wc_heap s i)\<lparr>pe_blob := b\<rparr>) - prev"
  "wc_fs (swap_blob i prev b s) = wc_fs s" "wc_backend (swap_blob i prev b s) = wc_backend s"
  "wc_entries (swap_blob i prev b s) = wc_entries s" "wc_next_uuid (swap_blob i prev b s) = wc_next_uuid s"
  "wc_next_id (swap_blob i prev b s) = wc_next_id s"
  by (simp_all add: swap_blob_def upd_entry_def Let_def accounted_bytes_for_blob_def
      split: write_backend.split pending_blob.split)

lemma wc_touch_swap [simp]: "wc_touch env k i s (swap_blob i prev b s)"
  by (auto simp: swap_blob_def upd_entry_def Let_def wc_touch_def)

lemma read_blob_fs: "wc_fs s' = wc_fs s \<Longrightarrow> read_blob_bytes env b s' = read_blob_bytes env b s"
  by (simp add: read_blob_bytes_def split: pending_blob.split)

text \<open>The outcome of replacing the contents of a pending entry when the local disk works.\<close>

lemma update_existing_ok:
  assumes h: "hash_ok env" and ok: "all_ok (we_fs env)" and wf: "wc_wf env s"
    and i: "map_of (wc_entries s) k = Some i"
    and r: "update_existing_entry env i k d modified deadline s = (r, s')"
  shows "r" "wc_touch env k i s s'" "wc_wf env s'" "wc_content env k s' = Some d"
    "pe_size (wc_heap s' i) = word_of_nat (length d)"
    "wc_accounted s' = wc_accounted s + accounted_bytes_for_blob s' (wc_heap s' i) - accounted_bytes_for_blob s (wc_heap s i)"
proof -
  obtain g prev plan s1 where b: "update_begin i d modified deadline s = ((g, prev, plan), s1)"
    by (metis prod_cases3 surj_pair)
  have prev: "prev = accounted_bytes_for_blob s (wc_heap s i)" using b by (simp add: update_begin_def Let_def)
  have s1: "wc_touch env k i s s1" "wc_heap s1 i = (wc_heap s1 i)\<lparr>pe_blob := pe_blob (wc_heap s i)\<rparr>"
    "pe_size (wc_heap s1 i) = word_of_nat (length d)" "pe_generation (wc_heap s1 i) = g"
    "wc_accounted s1 = wc_accounted s" "pe_physical (wc_heap s1 i) = k"
    using b wc_wfD[OF wf i] by (auto simp: update_begin_def Let_def upd_entry_def wc_touch_def)
  have bl: "pe_blob (wc_heap s1 i) = pe_blob (wc_heap s i)" using s1(2) by (metis pending.select_convs(5) pending.surjective pending.update_convs(5))
  have old: "blob_ok env k s (pe_blob (wc_heap s i))" using wc_wfD[OF wf i] by blast
  have old1: "blob_ok env k s1 (pe_blob (wc_heap s i))"
    using blob_ok_mono[OF old] s1(1) by (simp add: wc_touch_def)
  have mem: "plan = InMemory \<Longrightarrow> wc_backend s1 = WriteMemory"
    using b by (auto simp: update_begin_def Let_def upd_entry_def split: write_backend.splits pending_blob.splits)
  have stage: "\<exists>staged s2. update_stage env i k d modified deadline g plan s1 = (Some staged, s2) \<and>
      wc_touch env k i s1 s2 \<and> wc_heap s2 = wc_heap s1 \<and> wc_accounted s2 = wc_accounted s1 \<and>
      read_blob_bytes env staged s2 = Some d \<and> blob_ok env k s2 staged \<and>
      (pe_blob (wc_heap s i) \<noteq> staged \<or> (\<exists>x. staged = PMem x))"
  proof (cases plan)
    case InMemory
    then show ?thesis using mem by (auto simp: update_stage_def read_blob_bytes_def blob_ok_def)
  next
    case (StageDisk ab)
    let ?m = "\<lparr>wm_user = pe_user (wc_heap s1 i), wm_logical = pe_logical (wc_heap s1 i), wm_physical = k,
             wm_blob_path = None, wm_size = word_of_nat (length d), wm_modified = modified,
             wm_deadline = deadline, wm_generation = g, wm_abnormal = ab\<rparr>"
    obtain staged s2 where st: "store_staged_blob env ?m d s1 = (Some staged, s2)" "read_blob_bytes env staged s2 = Some d"
      using store_staged_total[OF ok h] by blast
    have "wc_touch env k i s1 s2" using store_staged_touch[OF h, where m = ?m and k = k and i = i and d = d and s = s1] st(1) by simp
    moreover have "wc_heap s2 = wc_heap s1" "wc_accounted s2 = wc_accounted s1"
      using store_staged_heap[of env ?m d s1] st(1) by simp_all
    moreover have "blob_ok env k s2 staged" "\<not> blob_ok env k s1 staged"
      using store_staged_ok[OF h st(1)] by simp_all
    ultimately show ?thesis using st StageDisk old1 by (auto simp: update_stage_def)
  qed
  then obtain staged s2 where st: "update_stage env i k d modified deadline g plan s1 = (Some staged, s2)"
    "wc_touch env k i s1 s2" "wc_heap s2 = wc_heap s1" "wc_accounted s2 = wc_accounted s1"
    "read_blob_bytes env staged s2 = Some d" "blob_ok env k s2 staged"
    "pe_blob (wc_heap s i) \<noteq> staged \<or> (\<exists>x. staged = PMem x)" by blast
  have res: "r" "s' = remove_blob_files env (pe_blob (wc_heap s i)) (swap_blob i prev staged s2)"
    using r b st(1) s1(4) bl st(3) by (auto simp: update_existing_entry_def update_swap_def)
  have old2: "blob_ok env k (swap_blob i prev staged s2) (pe_blob (wc_heap s i))"
    using blob_ok_mono[OF old1] st(2) by (simp add: wc_touch_def swap_blob_result)
  show "r" by (rule res(1))
  show t: "wc_touch env k i s s'"
    unfolding res(2)
    by (rule wc_touch_trans[OF s1(1) wc_touch_trans[OF st(2) wc_touch_trans[OF wc_touch_swap
        wc_touch_remove_files[OF h old2]]]])
  have heap: "wc_heap s' i = (wc_heap s1 i)\<lparr>pe_blob := staged\<rparr>" using res(2) st(3) by (simp add: swap_blob_result)
  have "wc_next_uuid s2 \<le> wc_next_uuid s'"
    using wc_touch_remove_files[OF h old2, of i] res(2) by (simp add: wc_touch_def swap_blob_result)
  moreover have "wc_backend s' = wc_backend s2" using res(2) by (simp add: swap_blob_result)
  ultimately have bok: "blob_ok env k s' staged" by (rule blob_ok_mono[OF st(6)])
  then show "wc_wf env s'" using wc_touch_wf[OF wf t i] heap by simp
  have "read_blob_bytes env staged s' = Some d"
  proof (cases "\<exists>x. staged = PMem x")
    case True
    then show ?thesis using st(5) by (auto simp: read_blob_bytes_def)
  next
    case False
    then have "read_blob_bytes env staged s' = read_blob_bytes env staged (swap_blob i prev staged s2)"
      unfolding res(2) using read_after_remove[OF h old2 bok] st(7) by blast
    then show ?thesis using st(5) read_blob_fs[OF swap_blob_result(3)] by metis
  qed
  then show "wc_content env k s' = Some d"
    using t i heap by (simp add: wc_content_def lookup_entry_def wc_touch_def)
  show "pe_size (wc_heap s' i) = word_of_nat (length d)" using heap s1(3) by simp
  have "wc_backend s' = wc_backend s2" using res(2) by (simp add: swap_blob_result)
  then show "wc_accounted s' = wc_accounted s + accounted_bytes_for_blob s' (wc_heap s' i) - accounted_bytes_for_blob s (wc_heap s i)"
    using res(2) st(3,4) s1(5) heap prev
    by (simp add: swap_blob_result accounted_bytes_for_blob_def)
qed

section \<open>The ledger\<close>

text \<open>Dropping an entry from the table, as a successful flush does.\<close>

definition wc_drop :: "string \<Rightarrow> 'p write_cache \<Rightarrow> 'p write_cache" where
  "wc_drop k s =
     (case map_of (wc_entries s) k of
        None \<Rightarrow> s
      | Some i \<Rightarrow> s\<lparr>wc_entries := al_remove k (wc_entries s),
                   wc_accounted := wc_accounted s - accounted_bytes_for_blob s (wc_heap s i)\<rparr>)"

definition wc_weight :: "'p write_cache \<Rightarrow> nat \<Rightarrow> u64" where
  "wc_weight s i = accounted_bytes_for_blob s (wc_heap s i)"

definition wc_within :: "'p write_cache \<Rightarrow> bool" where
  "wc_within s \<longleftrightarrow> distinct (map fst (wc_entries s)) \<and>
     unat (wc_accounted s) = total_bytes (wc_weight s) (wc_entries s) \<and> wc_accounted s \<le> wc_capacity s"

lemma accounted_cong:
  "wc_backend s' = wc_backend s \<Longrightarrow> pe_blob e' = pe_blob e \<Longrightarrow> pe_size e' = pe_size e \<Longrightarrow>
   accounted_bytes_for_blob s' e' = accounted_bytes_for_blob s e"
  by (simp add: accounted_bytes_for_blob_def split: write_backend.split pending_blob.split)

lemma wc_drop_frame:
  "wc_weight (wc_drop k s) = wc_weight s" "wc_entries (wc_drop k s) = al_remove k (wc_entries s)"
  "wc_capacity (wc_drop k s) = wc_capacity s"
  by (auto simp: wc_drop_def wc_weight_def al_remove_id fun_eq_iff intro!: accounted_cong split: option.split)

interpretation wcl: byte_ledger wc_entries wc_weight wc_accounted wc_drop
proof unfold_locales
  fix k and s :: "'a write_cache" and e
  show "wc_entries (wc_drop k s) = al_remove k (wc_entries s)" by (rule wc_drop_frame)
  show "map_of (wc_entries s) k = Some e \<Longrightarrow> wc_accounted (wc_drop k s) = wc_accounted s - wc_weight s e"
    by (simp add: wc_drop_def wc_weight_def)
  show "map_of (wc_entries s) k = None \<Longrightarrow> wc_accounted (wc_drop k s) = wc_accounted s"
    by (simp add: wc_drop_def)
  show "wc_weight (wc_drop k s) = wc_weight s" by (rule wc_drop_frame)
qed

lemma wc_within_iff: "wc_within s \<longleftrightarrow> wcl.balanced s \<and> wc_accounted s \<le> wc_capacity s"
proof -
  have "unat (wc_accounted s) = n \<longleftrightarrow> wc_accounted s = word_of_nat n \<and> n < 2 ^ 64" for n
    using unat_u64_less[of "wc_accounted s"] by (auto simp: unat_of_nat)
  then show ?thesis by (auto simp: wc_within_def wcl.balanced_def)
qed

lemma wc_drop_within:
  assumes "wc_within s" shows "wc_within (wc_drop k s)"
proof -
  have "wcl.balanced (wc_drop k s)" using assms wcl.balanced_drop unfolding wc_within_iff by blast
  moreover from this have "unat (wc_accounted (wc_drop k s)) \<le> unat (wc_accounted s)"
    using wcl.balanced_counter wcl.balanced_drop_total assms by (metis wc_within_iff)
  ultimately show ?thesis
    using assms by (simp add: wc_within_iff wc_drop_frame word_le_nat_alt)
qed

lemma total_bytes_change:
  assumes "distinct (map snd es)" "(k, i) \<in> set es" "\<And>j. j \<noteq> i \<Longrightarrow> f j = g j"
  shows "total_bytes f es + unat (g i) = total_bytes g es + unat (f i)"
proof -
  have same: "total_bytes f xs = total_bytes g xs" if "i \<notin> snd ` set xs" for xs
    using that assms(3) by (induction xs) auto
  show ?thesis
    using assms(1,2)
  proof (induction es)
    case (Cons p es)
    show ?case
    proof (cases "snd p = i")
      case True
      then have "total_bytes f es = total_bytes g es" using Cons.prems by (intro same) auto
      then show ?thesis using True by simp
    next
      case False
      then have "total_bytes f es + unat (g i) = total_bytes g es + unat (f i)" using Cons by auto
      then show ?thesis using assms(3)[OF False] by simp
    qed
  qed simp
qed

lemma total_bytes_member: "(k, i) \<in> set es \<Longrightarrow> unat (f i) \<le> total_bytes f es"
  by (induction es) auto

lemma wc_within_update:
  assumes w: "wc_within s" and d: "distinct (map snd (wc_entries s))" and i: "map_of (wc_entries s) k = Some i"
    and same: "wc_entries s' = wc_entries s" "wc_capacity s' = wc_capacity s" "\<And>j. j \<noteq> i \<Longrightarrow> wc_weight s' j = wc_weight s j"
    and acc: "wc_accounted s' = wc_accounted s + wc_weight s' i - wc_weight s i"
    and room: "unat (wc_accounted s) - unat (wc_weight s i) + unat (wc_weight s' i) \<le> unat (wc_capacity s)"
  shows "wc_within s'"
proof -
  have m: "(k, i) \<in> set (wc_entries s)" using i by (rule map_of_SomeD)
  have le: "unat (wc_weight s i) \<le> unat (wc_accounted s)"
    using total_bytes_member[OF m, of "wc_weight s"] w by (simp add: wc_within_def)
  have tot: "total_bytes (wc_weight s') (wc_entries s) + unat (wc_weight s i) =
      total_bytes (wc_weight s) (wc_entries s) + unat (wc_weight s' i)"
    using total_bytes_change[OF d m, of "wc_weight s'" "wc_weight s"] same(3) by simp
  let ?n = "unat (wc_accounted s) - unat (wc_weight s i) + unat (wc_weight s' i)"
  have "wc_accounted s' = (wc_accounted s - wc_weight s i) + wc_weight s' i" using acc by simp
  moreover have "unat (wc_accounted s - wc_weight s i) = unat (wc_accounted s) - unat (wc_weight s i)"
    using le by (simp add: unat_sub_if')
  moreover have "?n < 2 ^ 64" using room unat_u64_less[of "wc_capacity s"] by linarith
  ultimately have "unat (wc_accounted s') = ?n" by (simp add: unat_word_ariths)
  moreover have "?n = total_bytes (wc_weight s') (wc_entries s)" using tot le w by (simp add: wc_within_def)
  ultimately show ?thesis
    using w same room by (simp add: wc_within_def word_le_nat_alt)
qed

lemma can_admit_room:
  assumes "can_admit k n s" "wc_capacity s \<noteq> - 1"
  shows "unat (wc_accounted s) - (case map_of (wc_entries s) k of Some i \<Rightarrow> unat (wc_weight s i) | None \<Rightarrow> 0) + unat n
    \<le> unat (wc_capacity s)"
proof -
  let ?w = "case lookup_entry k s of Some e \<Rightarrow> accounted_bytes_for_blob s e | None \<Rightarrow> 0"
  have "unat (wc_capacity s) < 2 ^ 64 - 1"
  proof -
    have "unat (- 1 :: u64) = 2 ^ 64 - 1" by (simp add: unsigned_minus_1_eq_mask mask_eq_exp_minus_1)
    moreover have "unat (wc_capacity s) \<noteq> unat (- 1 :: u64)" using assms(2) by (metis word_unat_eq_iff)
    ultimately show ?thesis using unat_u64_less[of "wc_capacity s"] by linarith
  qed
  moreover have "min (unat (wc_accounted s) - unat ?w + unat n) (2 ^ 64 - 1) \<le> unat (wc_capacity s)"
    using assms(1) by (simp only: can_admit_def Let_def word_le_nat_alt unat_sat_add_u64 unat_sat_sub_u64)
  ultimately have "unat (wc_accounted s) - unat ?w + unat n \<le> unat (wc_capacity s)" by linarith
  then show ?thesis by (simp add: lookup_entry_def wc_weight_def split: option.splits)
qed

lemma add_entry_within:
  assumes "wc_within s" "map_of (wc_entries s) k = None" "\<forall>(q, j) \<in> set (wc_entries s). j < wc_next_id s"
    and "unat (wc_accounted s) + unat (accounted_bytes_for_blob s e) \<le> unat (wc_capacity s)"
  shows "wc_within (add_entry k e s)"
proof -
  have put: "wc_entries (add_entry k e s) = wc_entries s @ [(k, wc_next_id s)]"
    using al_remove_id[OF assms(2)] by (simp add: add_entry_def al_put_def)
  have wt: "wc_weight (add_entry k e s) j = (if j = wc_next_id s then accounted_bytes_for_blob s e else wc_weight s j)" for j
    by (auto simp: wc_weight_def add_entry_def intro!: accounted_cong)
  have "total_bytes (wc_weight (add_entry k e s)) es = total_bytes (wc_weight s) es"
    if "\<forall>(q, j) \<in> set es. j < wc_next_id s" for es :: "(string \<times> nat) list"
    using that by (induction es) (auto simp: wt)
  then have tot: "total_bytes (wc_weight (add_entry k e s)) (wc_entries (add_entry k e s)) =
      total_bytes (wc_weight s) (wc_entries s) + unat (accounted_bytes_for_blob s e)"
    using assms(3) by (simp add: put wt)
  have "unat (wc_accounted s) + unat (accounted_bytes_for_blob s e) < 2 ^ 64"
    using assms(4) unat_u64_less[of "wc_capacity s"] by linarith
  then have "unat (wc_accounted (add_entry k e s)) = unat (wc_accounted s) + unat (accounted_bytes_for_blob s e)"
    by (simp add: add_entry_def unat_word_ariths)
  then show ?thesis
    using assms tot put by (auto simp: wc_within_def add_entry_def word_le_nat_alt map_of_eq_None_iff)
qed

text \<open>States with the same table, records and files are the same to the invariant and to readers.\<close>

definition wc_same :: "'p write_cache \<Rightarrow> 'p write_cache \<Rightarrow> bool" where
  "wc_same s t \<longleftrightarrow>
     wc_entries t = wc_entries s \<and> wc_heap t = wc_heap s \<and> wc_fs t = wc_fs s \<and> wc_next_id t = wc_next_id s \<and>
     wc_next_uuid t = wc_next_uuid s \<and> wc_accounted t = wc_accounted s \<and> wc_backend t = wc_backend s \<and>
     wc_store t = wc_store s \<and> wc_capacity t = wc_capacity s"

lemma wc_same_refl [simp]: "wc_same s s"
  by (simp add: wc_same_def)

lemma wc_same_trans: "wc_same s t \<Longrightarrow> wc_same t u \<Longrightarrow> wc_same s u"
  by (simp add: wc_same_def)

lemma wc_same_inert [simp]:
  "wc_same s (wc_metric f s)"
  "wc_same s (mark_dirty now l p u s)"
  "wc_same s (schedule_index_sync now e s)"
  "wc_same s (schedule_quota_sync now u l d s)"
  "wc_same s (log_abnormal_journal env j m s)"
  "wc_same s (s\<lparr>wc_read := r\<rparr>)"
  by (simp_all add: wc_same_def wc_metric_def mark_dirty_def schedule_index_sync_def Let_def
      schedule_quota_sync_def log_abnormal_journal_def split: option.split)

lemma wc_same_wf: "wc_same s t \<Longrightarrow> wc_wf env t = wc_wf env s"
  by (simp add: wc_same_def wc_wf_def blob_ok_def cong: pending_blob.case_cong)

lemma wc_same_content: "wc_same s t \<Longrightarrow> wc_content env k t = wc_content env k s"
  using read_blob_fs[of t s env]
  by (simp add: wc_same_def wc_content_def lookup_entry_def split: option.split)

lemma add_entry_wf:
  assumes "wc_wf env s" "map_of (wc_entries s) k = None" "pe_physical e = k" "blob_ok env k s (pe_blob e)"
  shows "wc_wf env (add_entry k e s)"
proof -
  have fresh: "wc_next_id s \<notin> snd ` set (wc_entries s)"
    using assms(1) by (fastforce simp: wc_wf_def)
  have put: "wc_entries (add_entry k e s) = wc_entries s @ [(k, wc_next_id s)]"
    using al_remove_id[OF assms(2)] by (simp add: add_entry_def al_put_def)
  have k: "k \<notin> fst ` set (wc_entries s)" using assms(2) by (auto simp: map_of_eq_None_iff)
  have bo: "blob_ok env q (add_entry k e s) b = blob_ok env q s b" for q b
    by (simp add: blob_ok_def add_entry_def cong: pending_blob.case_cong)
  have old: "j < wc_next_id (add_entry k e s) \<and> pe_physical (wc_heap (add_entry k e s) j) = q \<and>
      blob_ok env q s (pe_blob (wc_heap (add_entry k e s) j))" if "(q, j) \<in> set (wc_entries s)" for q j
  proof -
    have "j < wc_next_id s \<and> pe_physical (wc_heap s j) = q \<and> blob_ok env q s (pe_blob (wc_heap s j))"
      using assms(1) that by (auto simp: wc_wf_def)
    then show ?thesis by (simp add: add_entry_def)
  qed
  have new: "wc_next_id s < wc_next_id (add_entry k e s) \<and> pe_physical (wc_heap (add_entry k e s) (wc_next_id s)) = k \<and>
      blob_ok env k s (pe_blob (wc_heap (add_entry k e s) (wc_next_id s)))"
    using assms(3,4) by (simp add: add_entry_def)
  have "distinct (map fst (wc_entries s @ [(k, wc_next_id s)]))" "distinct (map snd (wc_entries s @ [(k, wc_next_id s)]))"
    using assms(1) k fresh by (auto simp: wc_wf_def)
  then show ?thesis
    unfolding wc_wf_def put bo using old new by auto
qed

lemma add_entry_content:
  "wc_content env j (add_entry k e s) =
     (if j = k then read_blob_bytes env (pe_blob e) s
      else case map_of (wc_entries s) j of
        None \<Rightarrow> None
      | Some i \<Rightarrow> read_blob_bytes env (pe_blob (if i = wc_next_id s then e else wc_heap s i)) s)"
  using read_blob_fs[of "add_entry k e s" s env]
  by (simp add: wc_content_def lookup_entry_def add_entry_def split: option.split)

lemma enqueue_new:
  assumes h: "hash_ok env" and ok: "all_ok (we_fs env)" and wf: "wc_wf env s"
    and none: "map_of (wc_entries s) k = None" and m: "wm_physical m = k"
    and st: "store_blob env m d s = (Some b, s1)" and e: "pe_physical e = k" "pe_blob e = b"
  shows "wc_wf env (add_entry k e s1)" "wc_content env k (add_entry k e s1) = Some d"
    "hash (we_fs env) j \<noteq> hash (we_fs env) k \<Longrightarrow> wc_content env j (add_entry k e s1) = wc_content env j s"
    "wc_accounted (add_entry k e s1) = wc_accounted s + accounted_bytes_for_blob s e"
    "wc_store (add_entry k e s1) = wc_store s"
    "wc_within s \<Longrightarrow> unat (wc_accounted s) + unat (accounted_bytes_for_blob s e) \<le> unat (wc_capacity s) \<Longrightarrow>
     wc_within (add_entry k e s1)"
    "fst ` set (wc_entries (add_entry k e s1)) = insert k (fst ` set (wc_entries s))"
    "wc_capacity (add_entry k e s1) = wc_capacity s"
proof -
  have t: "wc_touch env k (wc_next_id s) s s1" using store_blob_touch[OF h m, where s = s] st by (metis snd_conv)
  have same: "wc_heap s1 = wc_heap s" "wc_accounted s1 = wc_accounted s" "wc_entries s1 = wc_entries s"
    "wc_backend s1 = wc_backend s" "wc_next_id s1 = wc_next_id s" "wc_next_uuid s \<le> wc_next_uuid s1" "wc_store s1 = wc_store s"
    "wc_capacity s1 = wc_capacity s"
    using store_blob_heap[of env m d s] st t by (simp_all add: wc_touch_def)
  have wf1: "wc_wf env s1"
    using wf same blob_ok_mono[OF _ same(6)] by (fastforce simp: wc_wf_def)
  have bok: "blob_ok env k s1 b" using store_blob_ok[OF h st] m by simp
  have rd: "read_blob_bytes env b s1 = Some d" using store_blob_total[OF ok h, of m d s] st by auto
  show "wc_wf env (add_entry k e s1)" using add_entry_wf[OF wf1] none same e bok by simp
  show "wc_content env k (add_entry k e s1) = Some d" using rd e by (simp add: add_entry_content)
  show "wc_accounted (add_entry k e s1) = wc_accounted s + accounted_bytes_for_blob s e"
    using same by (simp add: add_entry_def accounted_bytes_for_blob_def)
  show "wc_store (add_entry k e s1) = wc_store s" "wc_capacity (add_entry k e s1) = wc_capacity s"
    using same by (simp_all add: add_entry_def)
  show "fst ` set (wc_entries (add_entry k e s1)) = insert k (fst ` set (wc_entries s))"
    using same none al_remove_id[of "wc_entries s" k] by (simp add: add_entry_def al_put_def)
  have wt: "wc_weight s1 = wc_weight s" "accounted_bytes_for_blob s1 e = accounted_bytes_for_blob s e"
    using same by (auto simp: fun_eq_iff wc_weight_def intro!: accounted_cong)
  show "wc_within (add_entry k e s1)"
    if "wc_within s" "unat (wc_accounted s) + unat (accounted_bytes_for_blob s e) \<le> unat (wc_capacity s)"
  proof (rule add_entry_within)
    show "wc_within s1" using that(1) same wt by (simp add: wc_within_def)
    show "\<forall>(q, j) \<in> set (wc_entries s1). j < wc_next_id s1" using wf1 by (auto simp: wc_wf_def)
  qed (use none same wt that(2) in simp_all)
  assume j: "hash (we_fs env) j \<noteq> hash (we_fs env) k"
  have "wc_content env j s1 = wc_content env j s"
    using wc_touch_content_other[OF h wf j t] by simp
  moreover have "wc_content env j (add_entry k e s1) = wc_content env j s1"
    using j wc_wfD[OF wf1, of j]
    by (auto simp: add_entry_content wc_content_def[of _ _ s1] lookup_entry_def split: option.splits)
  ultimately show "wc_content env j (add_entry k e s1) = wc_content env j s" by simp
qed

lemma wc_same_within: "wc_same s t \<Longrightarrow> wc_within t = wc_within s"
proof -
  assume s: "wc_same s t"
  then have "wc_weight t = wc_weight s"
    by (auto simp: wc_same_def fun_eq_iff wc_weight_def intro!: accounted_cong)
  with s show ?thesis by (simp add: wc_same_def wc_within_def)
qed

lemma accounted_le: "accounted_bytes_for_blob s e \<le> pe_size e"
  by (simp add: accounted_bytes_for_blob_def split: write_backend.split pending_blob.split)

lemma wc_touch_weight:
  "wc_touch env k i s s' \<Longrightarrow> j \<noteq> i \<Longrightarrow> wc_weight s' j = wc_weight s j"
  by (auto simp: wc_touch_def wc_weight_def intro!: accounted_cong)

lemma enqueue_ok:
  assumes h: "hash_ok env" and ok: "all_ok (we_fs env)" and wf: "wc_wf env s"
    and r: "wc_enqueue env now u l k d s = (r, s')"
  shows "wc_wf env s' \<and> wc_store s' = wc_store s \<and> wc_capacity s' = wc_capacity s \<and>
         fst ` set (wc_entries s') \<subseteq> insert k (fst ` set (wc_entries s)) \<and>
         (wc_capacity s \<noteq> - 1 \<longrightarrow> wc_within s \<longrightarrow> wc_within s') \<and>
         (\<forall>j. hash (we_fs env) j \<noteq> hash (we_fs env) k \<longrightarrow> wc_content env j s' = wc_content env j s) \<and>
         (r = Inr None \<and> wc_content env k s' = wc_content env k s \<or>
          r = Inr (Some (file_info_from_pending k (word_of_nat (length d)) now)) \<and> wc_content env k s' = Some d)"
proof -
  let ?s1 = "s\<lparr>wc_read := map_option (rc_remove (we_read env) k) (wc_read s)\<rparr>"
  let ?sz = "word_of_nat (length d) :: u64"
  have s1: "wc_same s ?s1" by simp
  have wf1: "wc_wf env ?s1" using wf wc_same_wf[OF s1] by simp
  have skip: "r = Inr None \<Longrightarrow> wc_same s s' \<Longrightarrow> ?thesis"
    using wf wc_same_wf[of s s' env] wc_same_content[of s s' env] wc_same_within[of s s']
    by (auto simp: wc_same_def)
  show ?thesis
  proof (cases "wc_should_cache s l (length d) \<and> can_admit k ?sz ?s1")
    case False
    then have "r = Inr None" "wc_same s s'"
      using r wc_same_trans[OF s1] by (auto simp: wc_enqueue_def Let_def split: if_splits)
    then show ?thesis by (rule skip)
  next
    case admit: True
    let ?dl = "expiry now (wc_deadline_secs s)"
    show ?thesis
    proof (cases "map_of (wc_entries s) k")
      case (Some i)
      obtain q s2 where q: "update_existing_entry env i k d now ?dl ?s1 = (q, s2)" by (cases "update_existing_entry env i k d now ?dl ?s1")
      have i1: "map_of (wc_entries ?s1) k = Some i" using Some by simp
      note U = update_existing_ok[OF h ok wf1 i1 q]
      let ?s3 = "wc_metric record_write_cache_enqueue (mark_dirty now l k u s2)"
      have s3: "wc_same s2 ?s3" by (rule wc_same_trans[OF wc_same_inert(2) wc_same_inert(1)])
      have "pe_size (wc_heap (mark_dirty now l k u s2) i) = ?sz"
        using U(5) by (simp add: mark_dirty_def)
      then have res: "r = Inr (Some (file_info_from_pending k ?sz now))" "s' = ?s3"
        using r admit Some q U(1) by (auto simp: wc_enqueue_def Let_def)
      have "wc_content env j s' = wc_content env j s" if "hash (we_fs env) j \<noteq> hash (we_fs env) k" for j
        using wc_touch_content_other[OF h wf1 that U(2)] i1 wc_same_content[OF s3] wc_same_content[OF s1] res(2) by simp
      moreover have "wc_store s' = wc_store s" using U(2) s3 res(2) by (simp add: wc_touch_def wc_same_def)
      moreover have "wc_entries s' = wc_entries s" "wc_capacity s' = wc_capacity s"
        using U(2) s3 res(2) by (simp_all add: wc_touch_def wc_same_def)
      moreover have "wc_within s'" if cap: "wc_capacity s \<noteq> - 1" and w: "wc_within s"
      proof -
        have "wc_within s2"
        proof (rule wc_within_update[OF _ _ i1])
          show "wc_within ?s1" using w wc_same_within[OF s1] by simp
          show "distinct (map snd (wc_entries ?s1))" using wf by (simp add: wc_wf_def)
          show "wc_weight s2 j = wc_weight ?s1 j" if "j \<noteq> i" for j using wc_touch_weight[OF U(2) that] .
          show "wc_accounted s2 = wc_accounted ?s1 + wc_weight s2 i - wc_weight ?s1 i"
            using U(6) by (simp add: wc_weight_def)
          have "unat (wc_weight s2 i) \<le> unat ?sz"
            using accounted_le[of s2 "wc_heap s2 i"] U(5) by (simp add: wc_weight_def word_le_nat_alt)
          then show "unat (wc_accounted ?s1) - unat (wc_weight ?s1 i) + unat (wc_weight s2 i) \<le> unat (wc_capacity ?s1)"
            using can_admit_room[of k ?sz ?s1] admit cap i1 by simp
        qed (use U(2) in \<open>simp_all add: wc_touch_def\<close>)
        then show ?thesis using wc_same_within[OF s3] res(2) by simp
      qed
      ultimately show ?thesis
        using res U(3,4) wc_same_wf[OF s3] wc_same_content[OF s3] by auto
    next
      case None
      let ?m = "\<lparr>wm_user = u, wm_logical = l, wm_physical = k, wm_blob_path = None, wm_size = ?sz,
                    wm_modified = now, wm_deadline = ?dl, wm_generation = 1, wm_abnormal = False\<rparr>"
      obtain b s2 where st: "store_blob env ?m d ?s1 = (Some b, s2)" using store_blob_total[OF ok h] by blast
      let ?e = "\<lparr>pe_user = u, pe_logical = l, pe_physical = k, pe_parent = wc_parent_path k, pe_blob = b,
        pe_size = ?sz, pe_modified = now, pe_deadline = ?dl, pe_next_retry = now, pe_generation = 1, pe_retry = 0,
        pe_state = Pending, pe_abnormal_logged = False, pe_error = None\<rparr>"
      have n1: "map_of (wc_entries ?s1) k = None" using None by simp
      note N = enqueue_new[OF h ok wf1 n1 _ st, of ?e, simplified]
      let ?s3 = "wc_metric record_write_cache_enqueue (mark_dirty now l k u (add_entry k ?e s2))"
      have s3: "wc_same (add_entry k ?e s2) ?s3" by (rule wc_same_trans[OF wc_same_inert(2) wc_same_inert(1)])
      have res: "r = Inr (Some (file_info_from_pending k ?sz now))" "s' = ?s3"
        using r admit None st by (auto simp: wc_enqueue_def Let_def)
      have "wc_content env j s' = wc_content env j s" if "hash (we_fs env) j \<noteq> hash (we_fs env) k" for j
        using N(3)[OF that] wc_same_content[OF s3] wc_same_content[OF s1] res(2) by simp
      moreover have "wc_store s' = wc_store s" using N(5) s3 res(2) by (simp add: wc_same_def)
      moreover have "fst ` set (wc_entries s') = insert k (fst ` set (wc_entries s))" "wc_capacity s' = wc_capacity s"
        using N(7,8) s3 res(2) by (simp_all add: wc_same_def)
      moreover have "wc_within s'" if cap: "wc_capacity s \<noteq> - 1" and w: "wc_within s"
      proof -
        have "unat (accounted_bytes_for_blob ?s1 ?e) \<le> unat ?sz"
          using accounted_le[of ?s1 ?e] by (simp add: word_le_nat_alt)
        then have "unat (wc_accounted ?s1) + unat (accounted_bytes_for_blob ?s1 ?e) \<le> unat (wc_capacity ?s1)"
          using can_admit_room[of k ?sz ?s1] admit cap n1 by simp
        then show ?thesis using N(6) w wc_same_within[OF s1] wc_same_within[OF s3] res(2) by simp
      qed
      ultimately show ?thesis
        using res N(1,2) wc_same_wf[OF s3] wc_same_content[OF s3] by auto
    qed
  qed
qed

section \<open>Flush\<close>

text \<open>An update of a record that keeps its path, its blob and its size.\<close>

definition keeps :: "(pending \<Rightarrow> pending) \<Rightarrow> bool" where
  "keeps f \<longleftrightarrow> (\<forall>e. pe_physical (f e) = pe_physical e \<and> pe_blob (f e) = pe_blob e \<and> pe_size (f e) = pe_size e)"

definition ledger_step :: "nat \<Rightarrow> 'p write_cache \<Rightarrow> 'p write_cache \<Rightarrow> bool" where
  "ledger_step i s s' \<longleftrightarrow>
     wc_accounted s' = wc_accounted s + accounted_bytes_for_blob s' (wc_heap s' i) - accounted_bytes_for_blob s (wc_heap s i)"

lemma ledger_step_trans: "ledger_step i s t \<Longrightarrow> ledger_step i t u \<Longrightarrow> ledger_step i s u"
  by (simp add: ledger_step_def)

text \<open>What a section leaves when it keeps the contents \<open>d\<close> of record \<open>i\<close>.\<close>

definition holds_data :: "'p wc_env \<Rightarrow> string \<Rightarrow> nat \<Rightarrow> string \<Rightarrow> 'p write_cache \<Rightarrow> bool" where
  "holds_data env k i d s \<longleftrightarrow>
     blob_ok env k s (pe_blob (wc_heap s i)) \<and> read_blob_bytes env (pe_blob (wc_heap s i)) s = Some d"

definition safe_step :: "'p wc_env \<Rightarrow> string \<Rightarrow> nat \<Rightarrow> string \<Rightarrow> 'p write_cache \<Rightarrow> 'p write_cache \<Rightarrow> bool" where
  "safe_step env k i d s s' \<longleftrightarrow>
     wc_touch env k i s s' \<and> ledger_step i s s' \<and> holds_data env k i d s' \<and>
     accounted_bytes_for_blob s' (wc_heap s' i) \<le> accounted_bytes_for_blob s (wc_heap s i)"

lemma safe_step_trans: "safe_step env k i d s t \<Longrightarrow> safe_step env k i d t u \<Longrightarrow> safe_step env k i d s u"
  unfolding safe_step_def using wc_touch_trans ledger_step_trans order_trans by blast

lemma safe_step_upd:
  assumes "keeps f" "holds_data env k i d s"
  shows "safe_step env k i d s (upd_entry i f s)"
proof -
  have "read_blob_bytes env b (upd_entry i f s) = read_blob_bytes env b s" for b
    by (rule read_blob_fs) (simp add: upd_entry_def)
  moreover have "blob_ok env k (upd_entry i f s) b = blob_ok env k s b" for b
    by (simp add: blob_ok_def upd_entry_def cong: pending_blob.case_cong)
  moreover have "accounted_bytes_for_blob (upd_entry i f s) (f (wc_heap s i)) = accounted_bytes_for_blob s (wc_heap s i)"
    using assms(1) by (intro accounted_cong) (simp_all add: upd_entry_def keeps_def)
  ultimately show ?thesis
    using assms wc_touch_upd_entry[of f env k i s]
    by (simp add: safe_step_def ledger_step_def holds_data_def upd_entry_def keeps_def)
qed

lemma safe_step_same:
  assumes "wc_same s t" "wc_touch env k i s t" "holds_data env k i d s"
  shows "safe_step env k i d s t"
proof -
  have "read_blob_bytes env b t = read_blob_bytes env b s" for b
    using assms(1) by (intro read_blob_fs) (simp add: wc_same_def)
  moreover have "blob_ok env k t b = blob_ok env k s b" for b
    using assms(1) by (simp add: blob_ok_def wc_same_def cong: pending_blob.case_cong)
  moreover have "accounted_bytes_for_blob t (wc_heap s i) = accounted_bytes_for_blob s (wc_heap s i)"
    using assms(1) by (intro accounted_cong) (simp_all add: wc_same_def)
  ultimately show ?thesis
    using assms by (simp add: safe_step_def ledger_step_def holds_data_def wc_same_def)
qed

lemma safe_step_wf:
  "safe_step env k i d s s' \<Longrightarrow> wc_wf env s \<Longrightarrow> map_of (wc_entries s) k = Some i \<Longrightarrow>
   wc_wf env s' \<and> wc_content env k s' = Some d"
  using wc_touch_wf[of env s k i s']
  by (auto simp: safe_step_def holds_data_def wc_content_def lookup_entry_def wc_touch_def)

lemma safe_step_remove:
  assumes h: "hash_ok env" and d: "holds_data env k i d s" and b: "blob_ok env k s b"
    and ne: "pe_blob (wc_heap s i) \<noteq> b \<or> (\<exists>x. b = PMem x)"
  shows "safe_step env k i d s (remove_blob_files env b s)"
proof -
  have t: "wc_touch env k i s (remove_blob_files env b s)" by (rule wc_touch_remove_files[OF h b])
  have bok: "blob_ok env k s (pe_blob (wc_heap s i))" using d by (simp add: holds_data_def)
  have "blob_ok env k (remove_blob_files env b s) (pe_blob (wc_heap s i))"
    using blob_ok_mono[OF bok] t by (simp add: wc_touch_def)
  moreover have "read_blob_bytes env (pe_blob (wc_heap s i)) (remove_blob_files env b s) = Some d"
    using read_after_remove[OF h b bok ne] d by (simp add: holds_data_def)
  moreover have "accounted_bytes_for_blob (remove_blob_files env b s) (wc_heap s i) = accounted_bytes_for_blob s (wc_heap s i)"
    by (intro accounted_cong) simp_all
  ultimately show ?thesis
    using t by (simp add: safe_step_def ledger_step_def holds_data_def)
qed

lemma promote_ok:
  assumes h: "hash_ok env" and ok: "all_ok (we_fs env)" and d: "holds_data env k i d s"
    and ph: "pe_physical (wc_heap s i) = k"
    and r: "promote_to_abnormal env i d s = (r, s')"
  shows "safe_step env k i d s s'"
    "r = Promoted old \<Longrightarrow> blob_ok env k s' old \<and> (pe_blob (wc_heap s' i) \<noteq> old \<or> (\<exists>x. old = PMem x))"
    "pe_abnormal_logged (wc_heap s' i) = pe_abnormal_logged (wc_heap s i)"
    "r \<noteq> PromotionFailed"
proof -
  let ?e = "wc_heap s i"
  let ?m = "\<lparr>wm_user = pe_user ?e, wm_logical = pe_logical ?e, wm_physical = pe_physical ?e, wm_blob_path = None,
            wm_size = pe_size ?e, wm_modified = pe_modified ?e, wm_deadline = pe_deadline ?e,
            wm_generation = pe_generation ?e, wm_abnormal = True\<rparr>"
  have state: "keeps (\<lambda>e. e\<lparr>pe_state := Abnormal\<rparr>)" by (simp add: keeps_def)
  have "safe_step env k i d s s' \<and>
    (r = Promoted old \<longrightarrow> blob_ok env k s' old \<and> (pe_blob (wc_heap s' i) \<noteq> old \<or> (\<exists>x. old = PMem x))) \<and>
    pe_abnormal_logged (wc_heap s' i) = pe_abnormal_logged ?e \<and> r \<noteq> PromotionFailed"
  proof (cases "case pe_blob ?e of PDisk p \<Rightarrow> path_starts_with p (wc_abnormal_dir s) | PMem _ \<Rightarrow> False")
    case True
    then show ?thesis
      using r safe_step_upd[OF state d] by (auto simp: promote_to_abnormal_def Let_def upd_entry_def)
  next
    case False
    obtain staged s1 where st: "store_staged_blob env ?m d s = (Some staged, s1)" "read_blob_bytes env staged s1 = Some d"
      using store_staged_total[OF ok h] by blast
    have heap: "wc_heap s1 = wc_heap s" "wc_accounted s1 = wc_accounted s" "wc_backend s1 = wc_backend s"
      using store_staged_heap[of env ?m d s] st(1) by simp_all
    have t1: "wc_touch env k i s s1"
      using store_staged_touch[OF h, where m = ?m and k = k and i = i and d = d and s = s] st(1) ph by simp
    have new: "blob_ok env k s1 staged" "\<not> blob_ok env k s staged"
      using store_staged_ok[OF h st(1)] ph by simp_all
    let ?s2 = "swap_blob i (accounted_bytes_for_blob s ?e) staged s1"
    have res: "r = Promoted (pe_blob ?e)" "s' = upd_entry i (\<lambda>e. e\<lparr>pe_state := Abnormal\<rparr>) ?s2"
      using r False st(1) heap by (auto simp: promote_to_abnormal_def Let_def)
    have rd: "read_blob_bytes env staged ?s2 = Some d"
      using st(2) read_blob_fs[of ?s2 s1] by (simp add: swap_blob_result)
    have bo: "blob_ok env k ?s2 b = blob_ok env k s1 b" for b
      by (simp add: blob_ok_def swap_blob_result cong: pending_blob.case_cong)
    have acc: "accounted_bytes_for_blob ?s2 (wc_heap ?s2 i) = accounted_bytes_for_blob s1 (?e\<lparr>pe_blob := staged\<rparr>)"
      using heap by (intro accounted_cong) (simp_all add: swap_blob_result)
    have "accounted_bytes_for_blob s1 (?e\<lparr>pe_blob := staged\<rparr>) \<le> accounted_bytes_for_blob s ?e"
      using store_staged_result[OF st(1)] d heap(3)
      by (auto simp: accounted_bytes_for_blob_def holds_data_def blob_ok_def split: write_backend.split pending_blob.splits)
    then have "safe_step env k i d s ?s2"
      using wc_touch_trans[OF t1 wc_touch_swap] rd new(1) heap acc
      by (simp add: safe_step_def ledger_step_def holds_data_def bo swap_blob_result)
    moreover from this have "safe_step env k i d ?s2 s'"
      unfolding res(2) by (intro safe_step_upd[OF state]) (simp add: safe_step_def)
    ultimately have "safe_step env k i d s s'" by (rule safe_step_trans)
    moreover have "blob_ok env k s (pe_blob ?e)" using d by (simp add: holds_data_def)
    moreover from calculation have "blob_ok env k s' (pe_blob ?e)"
      using blob_ok_mono[of env k s] by (simp add: safe_step_def wc_touch_def)
    moreover have "pe_blob (wc_heap s' i) = staged"
      using res(2) by (simp add: upd_entry_def swap_blob_result)
    ultimately show ?thesis
      using res new(2) heap by (auto simp: upd_entry_def swap_blob_result)
  qed
  then show "safe_step env k i d s s'"
    "r = Promoted old \<Longrightarrow> blob_ok env k s' old \<and> (pe_blob (wc_heap s' i) \<noteq> old \<or> (\<exists>x. old = PMem x))"
    "pe_abnormal_logged (wc_heap s' i) = pe_abnormal_logged (wc_heap s i)"
    "r \<noteq> PromotionFailed"
    by blast+
qed

lemma tail_safe:
  assumes "holds_data env k i d s" "flush_failed_tail now i dl msg s = (r, s')"
  shows "safe_step env k i d s s' \<and> r = Inl (Internal msg) \<and> pe_state (wc_heap s' i) \<noteq> Flushing"
proof -
  let ?f = "\<lambda>e. e\<lparr>pe_next_retry := (if now > dl then now + retry_delay_secs (wc_interval_ms s) (pe_retry e) True
                             else pe_next_retry e),
           pe_state := (if pe_abnormal_logged e then Abnormal else Pending)\<rparr>"
  have res: "r = Inl (Internal msg)" "s' = wc_metric record_write_cache_flush_failure (upd_entry i ?f s)"
    using assms(2) by (simp_all add: flush_failed_tail_def)
  have "keeps ?f" by (simp add: keeps_def)
  then have 1: "safe_step env k i d s (upd_entry i ?f s)" using assms(1) by (rule safe_step_upd)
  then have "safe_step env k i d (upd_entry i ?f s) s'"
    unfolding res(2) by (intro safe_step_same) (simp_all add: safe_step_def)
  then show ?thesis
    using safe_step_trans[OF 1] res by (simp add: wc_metric_def upd_entry_def)
qed

lemma flush_failed_safe:
  assumes h: "hash_ok env" and ok: "all_ok (we_fs env)" and d: "holds_data env k i d s"
    and ph: "pe_physical (wc_heap s i) = k"
    and r: "flush_failed env now i dl msg d s = (r, s')"
  shows "safe_step env k i d s s' \<and> r = Inl (Internal msg) \<and> pe_state (wc_heap s' i) \<noteq> Flushing"
proof -
  let ?f = "\<lambda>e. e\<lparr>pe_retry := sat_inc_u32 (pe_retry e), pe_error := Some msg,
    pe_next_retry := now + retry_delay_secs (wc_interval_ms s) (sat_inc_u32 (pe_retry e)) (pe_abnormal_logged e)\<rparr>"
  let ?s1 = "upd_entry i ?f s"
  have "keeps ?f" by (simp add: keeps_def)
  then have s1: "safe_step env k i d s ?s1" using d by (rule safe_step_upd)
  then have d1: "holds_data env k i d ?s1" by (simp add: safe_step_def)
  have ph1: "pe_physical (wc_heap ?s1 i) = k" using ph by (simp add: upd_entry_def)
  obtain p s2 where p: "promote_to_abnormal env i d ?s1 = (p, s2)" by (cases "promote_to_abnormal env i d ?s1")
  note P = promote_ok[OF h ok d1 ph1 p]
  have s2: "safe_step env k i d s s2" by (rule safe_step_trans[OF s1 P(1)])
  have d2: "holds_data env k i d s2" using P(1) by (simp add: safe_step_def)
  have tail: ?thesis if "safe_step env k i d s u" "flush_failed_tail now i dl msg u = (r, s')" for u
  proof -
    have "holds_data env k i d u" using that(1) by (simp add: safe_step_def)
    from tail_safe[OF this that(2)] show ?thesis using safe_step_trans[OF that(1)] by blast
  qed
  show ?thesis
  proof (cases "now > dl")
    case False
    then have "flush_failed_tail now i dl msg ?s1 = (r, s')" using r by (simp add: flush_failed_def Let_def)
    then show ?thesis by (rule tail[OF s1])
  next
    case late: True
    show ?thesis
    proof (cases p)
      case (Promoted old)
      show ?thesis
      proof (cases "pe_abnormal_logged (wc_heap s2 i)")
        case True
        then have "flush_failed_tail now i dl msg s2 = (r, s')"
          using r late p Promoted by (simp add: flush_failed_def Let_def)
        then show ?thesis by (rule tail[OF s2])
      next
        case False
        let ?g = "\<lambda>e. e\<lparr>pe_abnormal_logged := True, pe_state := Abnormal,
          pe_next_retry := now + retry_delay_secs (wc_interval_ms s) (pe_retry e) True\<rparr>"
        let ?s3 = "upd_entry i ?g s2"
        let ?s4 = "remove_blob_files env old ?s3"
        have res: "r = Inl (Internal msg)" "s' = wc_metric record_write_cache_flush_failure
            (log_abnormal_journal env i msg (wc_metric record_write_cache_abnormal_spill ?s4))"
          using r late p Promoted False by (simp_all add: flush_failed_def Let_def)
        have "keeps ?g" by (simp add: keeps_def)
        then have s3: "safe_step env k i d s2 ?s3" using d2 by (rule safe_step_upd)
        then have d3: "holds_data env k i d ?s3" by (simp add: safe_step_def)
        have old: "blob_ok env k ?s3 old" "pe_blob (wc_heap ?s3 i) \<noteq> old \<or> (\<exists>x. old = PMem x)"
          using P(2)[OF Promoted] by (auto simp: blob_ok_def upd_entry_def split: pending_blob.split)
        have s4: "safe_step env k i d ?s3 ?s4" by (rule safe_step_remove[OF h d3 old])
        have "wc_same ?s4 s'"
          unfolding res(2) by (rule wc_same_trans[OF wc_same_inert(1) wc_same_trans[OF wc_same_inert(5) wc_same_inert(1)]])
        moreover have "wc_touch env k i ?s4 s'"
          unfolding res(2) by (rule wc_touch_trans[OF wc_touch_inert(1) wc_touch_trans[OF wc_touch_inert(5) wc_touch_inert(1)]])
        ultimately have s5: "safe_step env k i d ?s4 s'"
          using s4 by (intro safe_step_same) (simp_all add: safe_step_def)
        have "pe_state (wc_heap s' i) = Abnormal"
          using res(2) by (simp add: wc_metric_def log_abnormal_journal_def upd_entry_def)
        then show ?thesis
          using safe_step_trans[OF s2 safe_step_trans[OF s3 safe_step_trans[OF s4 s5]]] res(1) by simp
      qed
    next
      case AlreadyAbnormal
      have "keeps (\<lambda>e. e\<lparr>pe_state := Abnormal\<rparr>)" by (simp add: keeps_def)
      then have "safe_step env k i d s (upd_entry i (\<lambda>e. e\<lparr>pe_state := Abnormal\<rparr>) s2)"
        using safe_step_upd[OF _ d2] safe_step_trans[OF s2] by blast
      then show ?thesis
        by (rule tail) (use r late p AlreadyAbnormal in \<open>simp add: flush_failed_def Let_def\<close>)
    next
      case PromotionFailed
      then show ?thesis using P(4) by simp
    qed
  qed
qed

lemma wc_drop_wf: "wc_wf env s \<Longrightarrow> wc_wf env (wc_drop k s)"
proof -
  assume wf: "wc_wf env s"
  show ?thesis
  proof (cases "map_of (wc_entries s) k")
    case (Some i)
    have bo: "blob_ok env q (wc_drop k s) b = blob_ok env q s b" for q b
      using Some by (simp add: wc_drop_def blob_ok_def cong: pending_blob.case_cong)
    have "distinct (map snd (al_remove k (wc_entries s)))"
      using wf by (auto simp: wc_wf_def al_remove_def distinct_map_filter)
    then show ?thesis using wf unfolding wc_wf_def bo using Some by (auto simp: wc_drop_def simp del: keys_al_remove)
  qed (simp add: wc_drop_def wf)
qed

lemma flush_commit_ok:
  assumes h: "hash_ok env" and wf: "wc_wf env s" and i: "map_of (wc_entries s) k = Some i"
    and r: "flush_commit env now i snap prev d s = (r, s')" and g: "fst (snd snap) = pe_generation (wc_heap s i)"
  shows "r = Inr ()" "wc_wf env s'" "wc_content env k s' = None" "wc_store s' = wc_store s"
    "hash (we_fs env) j \<noteq> hash (we_fs env) k \<Longrightarrow> wc_content env j s' = wc_content env j s"
    "\<exists>f. wc_same (wc_drop k s\<lparr>wc_fs := f\<rparr>) s'"
proof -
  obtain blob gen sz md dl where snap: "snap = (blob, gen, sz, md, dl)" by (cases snap)
  let ?e = "wc_heap s i"
  have e: "pe_physical ?e = k" "blob_ok env k s (pe_blob ?e)" using wc_wfD[OF wf i] by simp_all
  let ?s1 = "remove_blob_files env (pe_blob ?e) (s\<lparr>wc_accounted := wc_accounted s - accounted_bytes_for_blob s ?e\<rparr>)"
  let ?info = "flushed_info env k sz md s"
  let ?s2 = "?s1\<lparr>wc_entries := al_remove k (wc_entries ?s1),
                wc_read := map_option (rc_put (we_read env) (now, now, now) k d ?info) (wc_read ?s1)\<rparr>"
  have res: "r = Inr ()" "s' = wc_metric record_write_cache_flush_success
      (schedule_quota_sync now (pe_user ?e) (pe_logical ?e) (wrap_i64 (sint (fi_size ?info) - prev))
        (schedule_index_sync now ?e ?s2))"
    using r g snap e(1) by (simp_all add: flush_commit_def Let_def)
  have same: "wc_same ?s2 s'"
    unfolding res(2) by (rule wc_same_trans[OF wc_same_inert(3) wc_same_trans[OF wc_same_inert(4) wc_same_inert(1)]])
  have drop: "wc_same (wc_drop k s\<lparr>wc_fs := wc_fs ?s2\<rparr>) ?s2"
    using i by (simp add: wc_same_def wc_drop_def remove_blob_files_def split: pending_blob.split)
  show "r = Inr ()" by (rule res(1))
  have "wc_wf env (wc_drop k s\<lparr>wc_fs := wc_fs ?s2\<rparr>)"
    using wc_drop_wf[OF wf, of k] by (simp add: wc_wf_def blob_ok_def cong: pending_blob.case_cong)
  then show "wc_wf env s'" using wc_same_wf[OF drop] wc_same_wf[OF same] by simp
  show "\<exists>f. wc_same (wc_drop k s\<lparr>wc_fs := f\<rparr>) s'" using wc_same_trans[OF drop same] by blast
  have ent: "wc_entries s' = al_remove k (wc_entries s)" "wc_heap s' = wc_heap s" "wc_fs s' = wc_fs ?s1"
    "wc_store s' = wc_store s"
    using same wc_touch_remove_files[OF h e(2), of i] by (simp_all add: wc_same_def remove_blob_files_def split: pending_blob.split)
  then show "wc_content env k s' = None" "wc_store s' = wc_store s" by (simp_all add: wc_content_def lookup_entry_def)
  assume j: "hash (we_fs env) j \<noteq> hash (we_fs env) k"
  show "wc_content env j s' = wc_content env j s"
  proof (rule wc_content_other[OF h wf j])
    show "map_of (wc_entries s') j = map_of (wc_entries s) j" using ent j by auto
    show "\<forall>p. \<not> owned env k p \<longrightarrow> wc_fs s' p = wc_fs s p"
      using wc_touch_remove_files[OF h, of k "s\<lparr>wc_accounted := wc_accounted s - accounted_bytes_for_blob s ?e\<rparr>" "pe_blob ?e" i] e(2) ent(3)
      by (simp add: wc_touch_def blob_ok_def cong: pending_blob.case_cong)
  qed (simp add: ent)
qed

lemma wc_store_update:
  "wc_wf env (s\<lparr>wc_store := st\<rparr>) = wc_wf env s"
  "wc_content env k (s\<lparr>wc_store := st\<rparr>) = wc_content env k s"
  "holds_data env k i d (s\<lparr>wc_store := st\<rparr>) = holds_data env k i d s"
  "accounted_bytes_for_blob (s\<lparr>wc_store := st\<rparr>) e = accounted_bytes_for_blob s e"
  using read_blob_fs[of "s\<lparr>wc_store := st\<rparr>" s env]
  by (simp_all add: wc_wf_def blob_ok_def wc_content_def lookup_entry_def holds_data_def accounted_bytes_for_blob_def
      split: option.split cong: pending_blob.case_cong)

definition flushing :: "nat \<Rightarrow> 'p write_cache \<Rightarrow> 'p write_cache" where
  "flushing i s = upd_entry i (\<lambda>e. e\<lparr>pe_state := Flushing\<rparr>) s"

lemma flush_entry_cases:
  assumes "flush_entry env now now' i force s = (r, s')"
  obtains (idle) "r = Inr ()" "s' = s" "pe_state (wc_heap s i) = Flushing \<or> \<not> force \<and> now < pe_next_retry (wc_heap s i)"
  | (unreadable) "r = Inl (Internal ''read'')" "s' = flushing i s" "pe_state (wc_heap s i) \<noteq> Flushing"
      "read_blob_bytes env (pe_blob (wc_heap s i)) s = None"
  | (failed) d kk msg st where "read_blob_bytes env (pe_blob (wc_heap s i)) s = Some d"
      "op_write (we_op env) (pe_physical (wc_heap s i)) d (wc_store s) = (Inl (kk, msg), st)"
      "flush_failed env now' i (pe_deadline (wc_heap s i)) msg d (flushing i s\<lparr>wc_store := st\<rparr>) = (r, s')"
      "pe_state (wc_heap s i) \<noteq> Flushing"
  | (delivered) d st where "read_blob_bytes env (pe_blob (wc_heap s i)) s = Some d"
      "op_write (we_op env) (pe_physical (wc_heap s i)) d (wc_store s) = (Inr (), st)"
      "flush_commit env now' i (pe_blob (wc_heap s i), pe_generation (wc_heap s i), pe_size (wc_heap s i),
         pe_modified (wc_heap s i), pe_deadline (wc_heap s i))
         (case op_stat (we_op env) (pe_physical (wc_heap s i)) (wc_store s) of Inr m \<Rightarrow> sint (md_length m) | Inl _ \<Rightarrow> 0)
         d (flushing i s\<lparr>wc_store := st\<rparr>) = (r, s')"
      "pe_state (wc_heap s i) \<noteq> Flushing"
proof (cases "pe_state (wc_heap s i) = Flushing \<or> \<not> force \<and> now < pe_next_retry (wc_heap s i)")
  case True
  then have "flush_begin now force i s = (None, s)" by (auto simp: flush_begin_def Let_def)
  then show ?thesis using idle[OF _ _ True] assms by (simp add: flush_entry_def)
next
  case False
  let ?snap = "(pe_blob (wc_heap s i), pe_generation (wc_heap s i), pe_size (wc_heap s i),
         pe_modified (wc_heap s i), pe_deadline (wc_heap s i))"
  have io: "flush_io env now' i ?snap (flushing i s) = (r, s')"
    using False assms by (auto simp: flush_entry_def flush_begin_def Let_def flushing_def)
  have rd: "read_blob_bytes env (pe_blob (wc_heap s i)) (flushing i s) = read_blob_bytes env (pe_blob (wc_heap s i)) s"
    by (rule read_blob_fs) (simp add: flushing_def upd_entry_def)
  have f: "pe_physical (wc_heap (flushing i s) i) = pe_physical (wc_heap s i)" "wc_store (flushing i s) = wc_store s"
    by (simp_all add: flushing_def upd_entry_def)
  show ?thesis
  proof (cases "read_blob_bytes env (pe_blob (wc_heap s i)) s")
    case None
    then show ?thesis using unreadable False io rd by (simp add: flush_io_def)
  next
    case (Some d)
    obtain x st where w: "op_write (we_op env) (pe_physical (wc_heap s i)) d (wc_store s) = (x, st)"
      by (cases "op_write (we_op env) (pe_physical (wc_heap s i)) d (wc_store s)")
    show ?thesis
    proof (cases x)
      case (Inl e)
      then show ?thesis
        using failed[OF Some, of "fst e" "snd e" st] False io rd f w Some by (simp add: flush_io_def Let_def split_beta)
    next
      case (Inr u)
      then show ?thesis
        using delivered[OF Some, of st] False io rd f w Some by (simp add: flush_io_def Let_def split_beta)
    qed
  qed
qed

lemma flushing_keeps: "keeps (\<lambda>e. e\<lparr>pe_state := Flushing\<rparr>)"
  by (simp add: keeps_def)

lemma flushing_result [simp]:
  "wc_entries (flushing i s) = wc_entries s" "wc_store (flushing i s) = wc_store s"
  "wc_accounted (flushing i s) = wc_accounted s" "wc_backend (flushing i s) = wc_backend s"
  "pe_physical (wc_heap (flushing i s) j) = pe_physical (wc_heap s j)"
  "pe_blob (wc_heap (flushing i s) j) = pe_blob (wc_heap s j)"
  "pe_size (wc_heap (flushing i s) j) = pe_size (wc_heap s j)"
  "pe_generation (wc_heap (flushing i s) j) = pe_generation (wc_heap s j)"
  "wc_fs (flushing i s) = wc_fs s" "wc_next_id (flushing i s) = wc_next_id s" "wc_next_uuid (flushing i s) = wc_next_uuid s"
  by (simp_all add: flushing_def upd_entry_def)

lemma flushing_wf: "wc_wf env (flushing i s) = wc_wf env s"
  by (simp add: wc_wf_def blob_ok_def cong: pending_blob.case_cong)

lemma flushing_content: "wc_content env k (flushing i s) = wc_content env k s"
  using read_blob_fs[of "flushing i s" s env]
  by (simp add: wc_content_def lookup_entry_def split: option.split)

lemma content_readable:
  "wc_wf env s \<Longrightarrow> map_of (wc_entries s) k = Some i \<Longrightarrow>
   read_blob_bytes env (pe_blob (wc_heap s i)) s = Some d \<Longrightarrow> holds_data env k i d s \<and> wc_content env k s = Some d"
  using wc_wfD[of env s k i] by (simp add: holds_data_def wc_content_def lookup_entry_def)

lemma wc_within_weight:
  "wc_entries t = wc_entries s \<Longrightarrow> wc_weight t = wc_weight s \<Longrightarrow> wc_accounted t = wc_accounted s \<Longrightarrow>
   wc_capacity t = wc_capacity s \<Longrightarrow> wc_within t = wc_within s"
  by (simp add: wc_within_def)

lemma wc_within_inert [simp]:
  "wc_within (s\<lparr>wc_fs := f\<rparr>) = wc_within s" "wc_within (s\<lparr>wc_store := st\<rparr>) = wc_within s"
  "wc_within (flushing i s) = wc_within s"
  by (rule wc_within_weight;
      auto simp: fun_eq_iff wc_weight_def flushing_def upd_entry_def intro!: accounted_cong)+

lemma flushing_capacity [simp]: "wc_capacity (flushing i s) = wc_capacity s"
  by (simp add: flushing_def upd_entry_def)

lemma safe_step_within:
  assumes "safe_step env k i d s s'" "wc_within s" "wc_wf env s" "map_of (wc_entries s) k = Some i"
  shows "wc_within s'"
proof (rule wc_within_update[OF assms(2) _ assms(4)])
  show "distinct (map snd (wc_entries s))" using assms(3) by (simp add: wc_wf_def)
  show "wc_weight s' j = wc_weight s j" if "j \<noteq> i" for j
    using assms(1) wc_touch_weight[of env k i s s', OF _ that] by (simp add: safe_step_def)
  show "wc_accounted s' = wc_accounted s + wc_weight s' i - wc_weight s i"
    using assms(1) by (simp add: safe_step_def ledger_step_def wc_weight_def)
  have "unat (wc_weight s' i) \<le> unat (wc_weight s i)"
    using assms(1) by (simp add: safe_step_def wc_weight_def word_le_nat_alt)
  moreover have "unat (wc_weight s i) \<le> unat (wc_accounted s)" "unat (wc_accounted s) \<le> unat (wc_capacity s)"
    using total_bytes_member[OF map_of_SomeD[OF assms(4)], of "wc_weight s"] assms(2)
    by (simp_all add: wc_within_def word_le_nat_alt)
  ultimately show "unat (wc_accounted s) - unat (wc_weight s i) + unat (wc_weight s' i) \<le> unat (wc_capacity s)"
    by linarith
qed (use assms(1) in \<open>simp_all add: safe_step_def wc_touch_def\<close>)

lemma flush_entry_ok:
  assumes h: "hash_ok env" and ok: "all_ok (we_fs env)" and wf: "wc_wf env s"
    and i: "map_of (wc_entries s) k = Some i" and law: "lawful_op (we_op env) P" "k \<in> P"
    and r: "flush_entry env now now' i force s = (r, s')"
  shows "wc_wf env s' \<and> wc_view env k s' = wc_view env k s \<and> wc_capacity s' = wc_capacity s \<and>
    wc_entries s' \<in> {wc_entries s, al_remove k (wc_entries s)} \<and> (wc_within s \<longrightarrow> wc_within s') \<and>
    (\<forall>j. hash (we_fs env) j \<noteq> hash (we_fs env) k \<longrightarrow> wc_content env j s' = wc_content env j s) \<and>
    (\<forall>j \<in> P. j \<noteq> k \<longrightarrow> op_read (we_op env) j (wc_store s') = op_read (we_op env) j (wc_store s))"
  using r
proof (cases rule: flush_entry_cases)
  case idle
  then show ?thesis using wf by simp
next
  case unreadable
  then show ?thesis using wf by (simp add: flushing_wf flushing_content wc_view_content split: option.split)
next
  case (failed d kk msg st)
  let ?s = "flushing i s\<lparr>wc_store := st\<rparr>"
  have k: "pe_physical (wc_heap s i) = k" using wc_wfD[OF wf i] by simp
  have wf1: "wc_wf env ?s" using wf by (simp add: wc_store_update flushing_wf)
  have hd: "holds_data env k i d ?s"
    using content_readable[of env "flushing i s" k i d] failed(1) wf i read_blob_fs[of "flushing i s" s env]
    by (simp add: wc_store_update flushing_wf)
  from flush_failed_safe[OF h ok hd _ failed(3)] have safe: "safe_step env k i d ?s s'" using k by simp
  have i1: "map_of (wc_entries ?s) k = Some i" using i by simp
  note W = safe_step_wf[OF safe wf1 i1]
  have "wc_content env j s' = wc_content env j s" if "hash (we_fs env) j \<noteq> hash (we_fs env) k" for j
    using wc_touch_content_other[OF h wf1 that, of i s'] safe i1
    by (simp add: safe_step_def wc_store_update flushing_content)
  moreover have "wc_view env k s' = wc_view env k s"
    using W content_readable[OF wf i failed(1)] by (simp add: wc_view_content)
  moreover have "op_read (we_op env) j (wc_store s') = op_read (we_op env) j (wc_store s)" if "j \<in> P" "j \<noteq> k" for j
    using safe failed(2) k lawful_other[OF law that, of d "wc_store s"] by (simp add: safe_step_def wc_touch_def)
  moreover have "wc_entries s' = wc_entries s" "wc_capacity s' = wc_capacity s"
    using safe by (simp_all add: safe_step_def wc_touch_def)
  moreover have "wc_within s \<longrightarrow> wc_within s'"
    using safe_step_within[OF safe _ wf1 i1] by simp
  ultimately show ?thesis using W by blast
next
  case (delivered d st)
  let ?s = "flushing i s\<lparr>wc_store := st\<rparr>"
  have k: "pe_physical (wc_heap s i) = k" using wc_wfD[OF wf i] by simp
  have wf1: "wc_wf env ?s" using wf by (simp add: wc_store_update flushing_wf)
  have i1: "map_of (wc_entries ?s) k = Some i" using i by simp
  note C = flush_commit_ok[OF h wf1 i1 delivered(3), simplified]
  have "wc_content env j s' = wc_content env j s" if "hash (we_fs env) j \<noteq> hash (we_fs env) k" for j
    using C(5)[OF that] by (simp add: wc_store_update flushing_content)
  moreover have "wc_view env k s' = wc_view env k s"
    using C(3,4) content_readable[OF wf i delivered(1)] lawful_written[OF law, of d "wc_store s" st] delivered(2) k
    by (simp add: wc_view_content)
  moreover have "op_read (we_op env) j (wc_store s') = op_read (we_op env) j (wc_store s)" if "j \<in> P" "j \<noteq> k" for j
    using C(4) delivered(2) k lawful_other[OF law that, of d "wc_store s"] by simp
  moreover obtain f where f: "wc_same (wc_drop k ?s\<lparr>wc_fs := f\<rparr>) s'" using C(6) by blast
  moreover have "wc_entries s' = al_remove k (wc_entries s)" "wc_capacity s' = wc_capacity s"
    using f by (simp_all add: wc_same_def wc_drop_frame)
  moreover have "wc_within s \<longrightarrow> wc_within s'"
    using wc_same_within[OF f] wc_drop_within[of ?s k] by simp
  ultimately show ?thesis using C(2) by blast
qed

section \<open>Runs\<close>

datatype wc_op =
    WEnqueue int string string string string
  | WFlush int int string
  | WTick nat int int

text \<open>One operation, with the writes it acknowledged; the caller of a refused enqueue writes elsewhere.\<close>

fun wc_step :: "'p wc_env \<Rightarrow> wc_op \<Rightarrow> 'p write_cache \<Rightarrow> (string \<times> string) list \<times> 'p write_cache" where
  "wc_step env (WEnqueue now user logical physical data) s =
     (case wc_enqueue env now user logical physical data s of
        (Inr (Some _), s') \<Rightarrow> ([(physical, data)], s')
      | (_, s') \<Rightarrow> ([], s'))"
| "wc_step env (WFlush now now' physical) s = ([], snd (flush_path env now now' physical s))"
| "wc_step env (WTick permits now now') s = ([], worker_flush env permits now now' s)"

fun wc_run :: "'p wc_env \<Rightarrow> wc_op list \<Rightarrow> 'p write_cache \<Rightarrow> (string \<times> string) list \<times> 'p write_cache" where
  "wc_run env [] s = ([], s)"
| "wc_run env (op # ops) s =
     (case wc_step env op s of (acks, s1) \<Rightarrow>
      (case wc_run env ops s1 of (acks', s2) \<Rightarrow> (acks @ acks', s2)))"

fun op_path :: "wc_op \<Rightarrow> string set" where
  "op_path (WEnqueue _ _ _ physical _) = {physical}"
| "op_path (WFlush _ _ physical) = {physical}"
| "op_path (WTick _ _ _) = {}"

text \<open>What the environment promises: a local disk that works, digests that differ on the paths in use.\<close>

definition wc_env_ok :: "'p wc_env \<Rightarrow> string set \<Rightarrow> bool" where
  "wc_env_ok env P \<longleftrightarrow> hash_ok env \<and> all_ok (we_fs env) \<and> lawful_op (we_op env) P \<and> inj_on (hash (we_fs env)) P"

definition wc_good :: "'p wc_env \<Rightarrow> string set \<Rightarrow> 'p write_cache \<Rightarrow> bool" where
  "wc_good env P s \<longleftrightarrow> wc_wf env s \<and> fst ` set (wc_entries s) \<subseteq> P"

lemma flush_entry_good:
  assumes e: "wc_env_ok env P" and g: "wc_good env P s" and i: "map_of (wc_entries s) k = Some i"
    and r: "flush_entry env now now' i force s = (r, s')"
  shows "wc_good env P s' \<and> (\<forall>j \<in> P. wc_view env j s' = wc_view env j s) \<and>
    wc_entries s' \<in> {wc_entries s, al_remove k (wc_entries s)} \<and> wc_capacity s' = wc_capacity s \<and>
    (wc_within s \<longrightarrow> wc_within s')"
proof -
  have k: "k \<in> P" using g i map_of_SomeD[OF i] by (auto simp: wc_good_def)
  have e': "hash_ok env" "all_ok (we_fs env)" "lawful_op (we_op env) P" using e by (simp_all add: wc_env_ok_def)
  have wf: "wc_wf env s" using g by (simp add: wc_good_def)
  note F = flush_entry_ok[OF e'(1,2) wf i e'(3) k r]
  have "wc_view env j s' = wc_view env j s" if j: "j \<in> P" for j
  proof (cases "j = k")
    case False
    then have "hash (we_fs env) j \<noteq> hash (we_fs env) k" using e j k by (auto simp: wc_env_ok_def inj_on_def)
    then show ?thesis using F False j by (intro wc_view_cong) simp_all
  qed (use F in simp)
  moreover have "fst ` set (wc_entries s') \<subseteq> fst ` set (wc_entries s)"
    using F by (elim conjE insertE) auto
  then have "fst ` set (wc_entries s') \<subseteq> P" using g unfolding wc_good_def by blast
  ultimately show ?thesis using F by (simp add: wc_good_def)
qed

lemma worker_fold_good:
  assumes "wc_env_ok env P" "wc_good env P s" "distinct ids"
    and "\<forall>i \<in> set ids. \<exists>k. map_of (wc_entries s) k = Some i"
  shows "let s' = fold (\<lambda>i s. snd (flush_entry env now now' i False s)) ids s in
    wc_good env P s' \<and> (\<forall>j \<in> P. wc_view env j s' = wc_view env j s) \<and> wc_capacity s' = wc_capacity s \<and>
    (wc_within s \<longrightarrow> wc_within s')"
  using assms(2-4)
proof (induction ids arbitrary: s)
  case (Cons i ids)
  let ?s = "snd (flush_entry env now now' i False s)"
  obtain k where k: "map_of (wc_entries s) k = Some i" using Cons.prems by auto
  have F: "wc_good env P ?s \<and> (\<forall>j \<in> P. wc_view env j ?s = wc_view env j s) \<and>
    wc_entries ?s \<in> {wc_entries s, al_remove k (wc_entries s)} \<and> wc_capacity ?s = wc_capacity s \<and>
    (wc_within s \<longrightarrow> wc_within ?s)"
    using flush_entry_good[OF assms(1) Cons.prems(1) k, of now now' False "fst (flush_entry env now now' i False s)" ?s]
    by simp
  have "\<exists>k. map_of (wc_entries ?s) k = Some j" if j: "j \<in> set ids" for j
  proof -
    obtain q where q: "map_of (wc_entries s) q = Some j" using Cons.prems j by auto
    have "q \<noteq> k" using q k j Cons.prems(2) by auto
    then have "map_of (wc_entries ?s) q = Some j" using F q by auto
    then show ?thesis ..
  qed
  then show ?case using Cons.IH[of ?s] F Cons.prems(2) by (simp add: Let_def)
qed simp

lemma wc_step_good:
  assumes e: "wc_env_ok env P" and g: "wc_good env P s" and p: "op_path op \<subseteq> P" and r: "wc_step env op s = (acks, s')"
  shows "wc_good env P s' \<and> (\<forall>j \<in> P. wc_view env j s' = (case map_of (rev acks) j of Some d \<Rightarrow> Some d | None \<Rightarrow> wc_view env j s)) \<and>
    wc_capacity s' = wc_capacity s \<and> (wc_capacity s \<noteq> - 1 \<longrightarrow> wc_within s \<longrightarrow> wc_within s')"
proof (cases op)
  case (WEnqueue now u l k d)
  obtain q s1 where q: "wc_enqueue env now u l k d s = (q, s1)" by (cases "wc_enqueue env now u l k d s")
  have e': "hash_ok env" "all_ok (we_fs env)" using e by (simp_all add: wc_env_ok_def)
  have wf: "wc_wf env s" using g by (simp add: wc_good_def)
  note E = enqueue_ok[OF e' wf q]
  have s1: "s' = s1" "acks = (if q = Inr None then [] else [(k, d)])"
    using r WEnqueue q E by (auto split: sum.splits option.splits)
  have "wc_view env j s' = (case map_of (rev acks) j of Some d \<Rightarrow> Some d | None \<Rightarrow> wc_view env j s)" if j: "j \<in> P" for j
  proof (cases "j = k")
    case True
    have "acks = [] \<Longrightarrow> wc_view env k s' = wc_view env k s" using E s1 by (intro wc_view_cong) (auto split: if_splits)
    moreover have "acks \<noteq> [] \<Longrightarrow> wc_view env k s' = Some d" using E s1 by (auto simp: wc_view_content)
    ultimately show ?thesis using True s1(2) by (auto split: if_splits)
  next
    case False
    then have "hash (we_fs env) j \<noteq> hash (we_fs env) k" using e j p WEnqueue by (auto simp: wc_env_ok_def inj_on_def)
    then have "wc_view env j s' = wc_view env j s" using E s1(1) by (intro wc_view_cong) simp_all
    then show ?thesis using s1(2) False by simp
  qed
  moreover have "insert k (fst ` set (wc_entries s)) \<subseteq> P" using g p WEnqueue by (simp add: wc_good_def)
  then have "wc_good env P s'" using E s1(1) unfolding wc_good_def by blast
  ultimately show ?thesis using E s1 by blast
next
  case (WFlush now now' k)
  show ?thesis
  proof (cases "map_of (wc_entries s) k")
    case None
    then show ?thesis using r WFlush g by (auto simp: flush_path_def)
  next
    case (Some i)
    obtain q s1 where q: "flush_entry env now now' i True s = (q, s1)" by (cases "flush_entry env now now' i True s")
    then show ?thesis
      using r WFlush Some flush_entry_good[OF e g Some q] by (auto simp: flush_path_def)
  qed
next
  case (WTick n now now')
  let ?ids = "take n (filter (\<lambda>i. is_due_for_background_flush now (wc_heap s i)) (map snd (wc_entries s)))"
  have d: "distinct ?ids" using g by (simp add: wc_good_def wc_wf_def)
  have "\<forall>i \<in> set ?ids. \<exists>k. map_of (wc_entries s) k = Some i"
    using g by (auto simp: wc_good_def wc_wf_def dest!: in_set_takeD) blast
  from worker_fold_good[OF e g d this, of now now'] show ?thesis
    using r WTick by (auto simp: worker_flush_def Let_def)
qed

lemma wc_run_good:
  assumes "wc_env_ok env P" "wc_good env P s" "\<Union> (op_path ` set ops) \<subseteq> P" "wc_run env ops s = (acks, s')"
  shows "wc_good env P s' \<and> (\<forall>j \<in> P. wc_view env j s' = (case map_of (rev acks) j of Some d \<Rightarrow> Some d | None \<Rightarrow> wc_view env j s)) \<and>
    wc_capacity s' = wc_capacity s \<and> (wc_capacity s \<noteq> - 1 \<longrightarrow> wc_within s \<longrightarrow> wc_within s')"
  using assms(2-4)
proof (induction ops arbitrary: s acks)
  case (Cons op ops)
  obtain a s1 where s1: "wc_step env op s = (a, s1)" by (cases "wc_step env op s")
  obtain b s2 where s2: "wc_run env ops s1 = (b, s2)" by (cases "wc_run env ops s1")
  have eq: "acks = a @ b" "s' = s2" using Cons.prems(3) s1 s2 by simp_all
  have p: "op_path op \<subseteq> P" "\<Union> (op_path ` set ops) \<subseteq> P" using Cons.prems(2) by auto
  note A = wc_step_good[OF assms(1) Cons.prems(1) p(1) s1]
  note B = Cons.IH[OF conjunct1[OF A] p(2), of b]
  have B': "wc_good env P s2 \<and> (\<forall>j \<in> P. wc_view env j s2 = (case map_of (rev b) j of Some d \<Rightarrow> Some d | None \<Rightarrow> wc_view env j s1)) \<and>
    wc_capacity s2 = wc_capacity s1 \<and> (wc_capacity s1 \<noteq> - 1 \<longrightarrow> wc_within s1 \<longrightarrow> wc_within s2)"
    using B s2 eq(2) by simp
  have "wc_view env j s2 = (case map_of (rev (a @ b)) j of Some d \<Rightarrow> Some d | None \<Rightarrow> wc_view env j s)" if "j \<in> P" for j
    using A B' that by (simp add: map_add_def split: option.split)
  then show ?case using A B' eq by simp
qed simp

end
