(* ===== verification/Write_Cache_Claims.thy ===== *)
theory Write_Cache_Claims
  imports Write_Back
begin

text \<open>
  The properties of the write-back cache, each a few steps over \<open>Write_Back\<close>: what its callers rely on,
  and the executions in which the code does not keep it.
\<close>

text \<open>
  C26: the write-back cache refines a map from paths to contents. Run any sequence of enqueues, forced
  flushes and background ticks, with any failures of the primary storage: a reader who asks the cache
  first and the primary second sees, for every path, the data of the last acknowledged enqueue, or what
  was there before when there was none. A flush never changes what is seen. The local disk works and
  the digests of the paths in use differ.
\<close>

theorem write_cache_refines_map:
  assumes "wc_env_ok env P" "wc_good env P s" "\<Union> (op_path ` set ops) \<subseteq> P" "wc_run env ops s = (acks, s')"
    and "k \<in> P"
  shows "wc_view env k s' = (case map_of (rev acks) k of Some d \<Rightarrow> Some d | None \<Rightarrow> wc_view env k s)"
  using wc_run_good[OF assms(1-4)] assms(5) by blast

text \<open>
  C27: over any such run the byte counter stays the exact sum of the sizes the backend accounts for and
  within the configured capacity: admission, replacement, spilling and delivery keep it, and no
  subtraction underflows.
\<close>

theorem write_cache_bounded:
  assumes "wc_env_ok env P" "wc_good env P s" "\<Union> (op_path ` set ops) \<subseteq> P" "wc_run env ops s = (acks, s')"
    and "wc_within s" "wc_capacity s \<noteq> - 1"
  shows "wc_within s' \<and> total_bytes (wc_weight s') (wc_entries s') \<le> unat (wc_capacity s)"
  using wc_run_good[OF assms(1-4)] assms(5,6) by (auto simp: wc_within_def word_le_nat_alt)

lemma quota_scheduled:
  assumes "\<not> contains l ''/.thumbs''" "\<not> contains l ''/.thumbs_cache''" "is_i64 (pending_quota_delta u s + delta)"
  shows "pending_quota_delta u (schedule_quota_sync now u l delta s) = pending_quota_delta u s + delta"
proof (cases "delta = 0")
  case True
  then show ?thesis by (simp add: schedule_quota_sync_def)
next
  case False
  show ?thesis
  proof (cases "map_of (wc_quota_tasks s) u")
    case None
    then show ?thesis using False assms by (simp add: schedule_quota_sync_def pending_quota_delta_def wc_metric_def)
  next
    case (Some t)
    have "wrap_i64 (qt_delta t + delta) = qt_delta t + delta"
      using assms(3) Some by (intro wrap_i64_id) (simp add: pending_quota_delta_def)
    then show ?thesis
      using Some False assms(1,2) by (simp add: schedule_quota_sync_def pending_quota_delta_def wc_metric_def)
  qed
qed

lemma pending_quota_cong: "wc_quota_tasks t = wc_quota_tasks s \<Longrightarrow> pending_quota_delta u t = pending_quota_delta u s"
  by (simp add: pending_quota_delta_def)

lemma flush_commit_quota:
  assumes "flush_commit env now i snap prev d s = (r, s')" "fst (snd snap) = pe_generation (wc_heap s i)"
    and "op_stat (we_op env) (pe_physical (wc_heap s i)) (wc_store s) = Inr m"
  shows "pending_quota_delta u s' = pending_quota_delta u
     (schedule_quota_sync now (pe_user (wc_heap s i)) (pe_logical (wc_heap s i)) (wrap_i64 (sint (md_length m) - prev)) s)"
proof -
  obtain b g z md dl where snap: "snap = (b, g, z, md, dl)" by (cases snap)
  have tasks: "wc_quota_tasks t = wc_quota_tasks s \<Longrightarrow>
      pending_quota_delta u (wc_metric f (schedule_quota_sync now u' l dlt (schedule_index_sync now e t))) =
      pending_quota_delta u (schedule_quota_sync now u' l dlt s)" for t f e l dlt u'
    by (auto simp: pending_quota_delta_def schedule_quota_sync_def schedule_index_sync_def wc_metric_def Let_def
        split: option.splits)
  show ?thesis
    using assms(1,2) snap
    by (auto simp: flush_commit_def Let_def flushed_info_def assms(3) remove_blob_files_def
        intro!: tasks split: pending_blob.split)
qed

text \<open>
  C28: A forced flush delivers. In a well-formed cache whose primary reads back what it wrote, when the entry is
  not already being flushed, its blob can be read, the primary accepts the write, and its logical path contains
  neither /.thumbs nor /.thumbs_cache, the flush succeeds, the primary holds exactly the pending data, the entry
  is gone, and the user's pending quota change grows by the new size less the size the object had before, where
  a failing lookup of the old object counts as size 0 and the sizes and the sum are within the 64-bit range. (For
  a thumbnail the data are delivered too, but its quota is not counted, so the last part does not hold there.)
\<close>

theorem flush_delivers:
  assumes e: "wc_env_ok env P" and g: "wc_good env P s"
    and i: "map_of (wc_entries s) k = Some i" "pe_state (wc_heap s i) \<noteq> Flushing"
    and d: "wc_content env k s = Some d" "op_write (we_op env) k d (wc_store s) = (Inr (), st)"
    and r: "flush_path env now now' k s = (r, s')"
    and q: "\<not> contains (pe_logical (wc_heap s i)) ''/.thumbs''" "\<not> contains (pe_logical (wc_heap s i)) ''/.thumbs_cache''"
      "prev = (case op_stat (we_op env) k (wc_store s) of Inr m \<Rightarrow> sint (md_length m) | Inl _ \<Rightarrow> 0)"
      "is_i64 (int (length d) - prev)" "length d < 2 ^ 63"
      "is_i64 (pending_quota_delta (pe_user (wc_heap s i)) s + (int (length d) - prev))"
  shows "r = Inr () \<and> op_read (we_op env) k (wc_store s') = Inr d \<and> pending_stat k s' = None \<and>
         pending_quota_delta (pe_user (wc_heap s i)) s' =
           pending_quota_delta (pe_user (wc_heap s i)) s + (int (length d) - prev)"
proof -
  have wf: "wc_wf env s" and h: "hash_ok env" and law: "lawful_op (we_op env) P" and k: "k \<in> P"
    using e g map_of_SomeD[OF i(1)] by (auto simp: wc_env_ok_def wc_good_def)
  have ph: "pe_physical (wc_heap s i) = k" using wc_wfD[OF wf i(1)] by simp
  have rd: "read_blob_bytes env (pe_blob (wc_heap s i)) s = Some d"
    using d(1) i(1) by (simp add: wc_content_def lookup_entry_def)
  have fl: "flush_entry env now now' i True s = (r, s')" using r i(1) by (simp add: flush_path_def)
  let ?u = "pe_user (wc_heap s i)"
  let ?s = "flushing i s\<lparr>wc_store := st\<rparr>"
  from fl show ?thesis
  proof (cases rule: flush_entry_cases)
    case (delivered d' st')
    have same: "d' = d" "st' = st" using delivered(1,2) rd d(2) ph by simp_all
    have wf1: "wc_wf env ?s" using wf by (simp add: wc_store_update flushing_wf)
    have i1: "map_of (wc_entries ?s) k = Some i" using i(1) by simp
    note C = flush_commit_ok[OF h wf1 i1 delivered(3)[unfolded same], simplified]
    obtain m where m: "op_stat (we_op env) k st = Inr m" "md_length m = word_of_nat (length d)"
      using lawful_length[OF law k d(2)] by blast
    have "lookup_entry k s' = None"
    proof -
      obtain f where "wc_same (wc_drop k ?s\<lparr>wc_fs := f\<rparr>) s'" using C(6) by blast
      then show ?thesis by (simp add: wc_same_def wc_drop_frame lookup_entry_def)
    qed
    moreover have "op_read (we_op env) k (wc_store s') = Inr d"
      using C(4) lawful_written[OF law k d(2)] by simp
    moreover have "pending_quota_delta ?u s' = pending_quota_delta ?u s + (int (length d) - prev)"
    proof -
      have "sint (word_of_nat (length d) :: u64) = int (length d)"
        using q(5) by (simp add: signed_of_nat signed_take_bit_int_eq_self)
      then have w: "wrap_i64 (sint (md_length m) - prev) = int (length d) - prev" using q(4) m(2) wrap_i64_id by simp
      have pr: "(case op_stat (we_op env) (pe_physical (wc_heap s i)) (wc_store s) of Inr m \<Rightarrow> sint (md_length m) | Inl _ \<Rightarrow> 0) = prev"
        using q(3) ph by simp
      have u: "pe_user (wc_heap ?s i) = ?u" "pe_logical (wc_heap ?s i) = pe_logical (wc_heap s i)"
        by (simp_all add: flushing_def upd_entry_def)
      have "pending_quota_delta ?u s' =
          pending_quota_delta ?u (schedule_quota_sync now' ?u (pe_logical (wc_heap s i)) (int (length d) - prev) ?s)"
        using flush_commit_quota[OF delivered(3)[unfolded same pr], of m ?u] m(1) ph w u by simp
      also have "\<dots> = pending_quota_delta ?u ?s + (int (length d) - prev)"
        using q(1,2,6) pending_quota_cong[of ?s s]
        by (intro quota_scheduled) (simp_all add: flushing_def upd_entry_def)
      also have "pending_quota_delta ?u ?s = pending_quota_delta ?u s"
        by (rule pending_quota_cong) (simp add: flushing_def upd_entry_def)
      finally show ?thesis .
    qed
    ultimately show ?thesis using C(1) by (simp add: pending_stat_def)
  qed (use i rd d(2) ph in simp_all)
qed

section \<open>A concrete cache\<close>

definition wx_hash :: "string \<Rightarrow> string" where
  "wx_hash k = take 64 (map (\<lambda>c. if c = slash \<or> c = dot then CHR ''x'' else c) k @ replicate 64 (CHR ''0''))"

definition wx_env :: "bool \<Rightarrow> (string \<Rightarrow> bool) \<Rightarrow> (string \<Rightarrow> string option) wc_env" where
  "wx_env mk broken =
     \<lparr>we_fs = \<lparr>wr_ok = (\<lambda>_. True), rd_ok = (\<lambda>_. True), rm_ok = (\<lambda>_. True), mkdir_ok = (\<lambda>_. mk),
               torn = (\<lambda>_. None), hash = wx_hash\<rparr>,
      we_read = ex_env, we_uuid = (\<lambda>n. replicate n (CHR ''a'')), we_op = map_op broken, we_recorder = True\<rparr>"

definition wx_cache :: "write_backend \<Rightarrow> (string \<Rightarrow> string option) write_cache" where
  "wx_cache b =
     \<lparr>wc_enabled = True, wc_backend = b, wc_queue_dir = ''/q'', wc_abnormal_dir = ''/s'', wc_capacity = 9,
      wc_max_file = 9, wc_interval_ms = 1000, wc_deadline_secs = 10, wc_policy = policy_new True [],
      wc_accounted = 0, wc_entries = [], wc_dirty_paths = [], wc_dirty_dirs = [], wc_index_tasks = [],
      wc_quota_tasks = [], wc_read = None, wc_store = Map.empty, wc_heap = (\<lambda>_. undefined), wc_next_id = 0,
      wc_next_uuid = 0, wc_fs = Map.empty, wc_metrics = zero_metrics, wc_journal = []\<rparr>"

lemma wx_hash_ok: "length (wx_hash k) = 64" "slash \<notin> set (wx_hash k)" "dot \<notin> set (wx_hash k)"
proof -
  show "length (wx_hash k) = 64" by (simp add: wx_hash_def)
  have "set (wx_hash k) \<subseteq> set (map (\<lambda>c. if c = slash \<or> c = dot then CHR ''x'' else c) k @ replicate 64 (CHR ''0''))"
    unfolding wx_hash_def by (rule set_take_subset)
  then show "slash \<notin> set (wx_hash k)" "dot \<notin> set (wx_hash k)" by (auto split: if_splits)
qed

lemma wx_env_hash: "hash_ok (wx_env mk broken)"
  by (auto simp: hash_ok_def wx_env_def wx_hash_ok inj_def replicate_eq_replicate)

lemma wx_env_ok: "wc_env_ok (wx_env True broken) {''u/a''}"
  by (simp add: wc_env_ok_def wx_env_hash, simp add: wx_env_def all_ok_def lawful_map_op)

lemma wx_cache_ok: "wc_good env P (wx_cache b)" "wc_within (wx_cache b)" "wc_capacity (wx_cache b) \<noteq> - 1"
  by (simp_all add: wc_good_def wc_wf_def wx_cache_def wc_within_def)

lemma wx_allows: "policy_allows (policy_new True []) ''/a''"
proof -
  have "\<not> is_temp_namespace_path ''/a''" "\<not> is_recycle_bin_path ''/a''"
    by (auto simp: is_temp_namespace_path_def is_recycle_bin_path_def dest: prefix_length_le suffix_length_le sublist_length_le)
  then show ?thesis by (simp add: policy_allows_def policy_new_def split: option.split)
qed

text \<open>The state after one acknowledged write, in the memory backend.\<close>

definition wx_entry :: pending where
  "wx_entry = \<lparr>pe_user = ''u'', pe_logical = ''/a'', pe_physical = ''u/a'', pe_parent = wc_parent_path ''u/a'',
     pe_blob = PMem ''xy'', pe_size = 2, pe_modified = 5, pe_deadline = 15, pe_next_retry = 5, pe_generation = 1,
     pe_retry = 0, pe_state = Pending, pe_abnormal_logged = False, pe_error = None\<rparr>"

definition wx_pending :: "(string \<Rightarrow> string option) write_cache" where
  "wx_pending = wc_metric record_write_cache_enqueue (mark_dirty 5 ''/a'' ''u/a'' ''u''
     (add_entry ''u/a'' wx_entry (wx_cache WriteMemory)))"

lemma wx_enqueue:
  "wc_enqueue (wx_env True broken) 5 ''u'' ''/a'' ''u/a'' ''xy'' (wx_cache WriteMemory) =
     (Inr (Some (file_info_from_pending ''u/a'' 2 5)), wx_pending)"
proof -
  have s: "wx_cache WriteMemory\<lparr>wc_read := map_option f (wc_read (wx_cache WriteMemory))\<rparr> = wx_cache WriteMemory" for f
    by (simp add: wx_cache_def)
  have "wc_should_cache (wx_cache WriteMemory) ''/a'' (Suc (Suc 0))" "can_admit ''u/a'' 2 (wx_cache WriteMemory)"
    using wx_allows by (simp_all add: wc_should_cache_def can_admit_def lookup_entry_def wx_cache_def sat_sub_u64_def)
  moreover have "expiry 5 (wc_deadline_secs (wx_cache WriteMemory)) = 15"
    by (simp add: expiry_def wx_cache_def)
  moreover have "map_of (wc_entries (wx_cache WriteMemory)) ''u/a'' = None" "wc_backend (wx_cache WriteMemory) = WriteMemory"
    by (simp_all add: wx_cache_def)
  ultimately show ?thesis
    by (simp add: wc_enqueue_def s store_blob_def wx_pending_def wx_entry_def)
qed

theorem write_cache_refines_map_witness:
  "let (acks, s') = wc_run (wx_env True (\<lambda>_. True)) [WEnqueue 5 ''u'' ''/a'' ''u/a'' ''xy'', WFlush 6 7 ''u/a'', WTick 1 8 9] (wx_cache WriteMemory)
   in wc_view (wx_env True (\<lambda>_. True)) ''u/a'' s' = Some ''xy''"
proof -
  let ?env = "wx_env True (\<lambda>_. True)"
  let ?ops = "[WEnqueue 5 ''u'' ''/a'' ''u/a'' ''xy'', WFlush 6 7 ''u/a'', WTick 1 8 9]"
  obtain acks s' where r: "wc_run ?env ?ops (wx_cache WriteMemory) = (acks, s')"
    by (cases "wc_run ?env ?ops (wx_cache WriteMemory)")
  then have "acks = [(''u/a'', ''xy'')]" by (auto simp: wx_enqueue split: prod.splits)
  then show ?thesis
    using write_cache_refines_map[OF wx_env_ok wx_cache_ok(1) _ r, of "''u/a''"] r by simp
qed

theorem write_cache_bounded_witness:
  "wc_within (snd (wc_run (wx_env True (\<lambda>_. False)) [WEnqueue 5 ''u'' ''/a'' ''u/a'' ''xy'', WFlush 6 7 ''u/a''] (wx_cache WriteLocalDir)))"
proof -
  let ?ops = "[WEnqueue 5 ''u'' ''/a'' ''u/a'' ''xy'', WFlush 6 7 ''u/a'']"
  have "\<Union> (op_path ` set ?ops) \<subseteq> {''u/a''}" by simp
  from write_cache_bounded[OF wx_env_ok wx_cache_ok(1) this prod.collapse[symmetric] wx_cache_ok(2,3)]
  show ?thesis by blast
qed

lemma wx_pending_ok:
  "wc_good (wx_env True broken) {''u/a''} wx_pending" "map_of (wc_entries wx_pending) ''u/a'' = Some 0"
  "wc_heap wx_pending 0 = wx_entry" "wc_store wx_pending = Map.empty" "wc_content (wx_env True broken) ''u/a'' wx_pending = Some ''xy''"
  "wc_backend wx_pending = WriteMemory" "pending_quota_delta u wx_pending = 0" "wc_entries wx_pending = [(''u/a'', 0)]"
  "wc_accounted wx_pending = 2" "wc_next_id wx_pending = 1"
  by (simp_all add: wx_pending_def wx_cache_def wx_entry_def add_entry_def wc_metric_def mark_dirty_def wc_good_def wc_wf_def
      blob_ok_def wc_content_def lookup_entry_def read_blob_bytes_def al_put_def al_remove_def pending_quota_delta_def
      accounted_bytes_for_blob_def)

theorem flush_delivers_witness:
  "op_read (map_op (\<lambda>_. False)) ''u/a'' (wc_store (snd (flush_path (wx_env True (\<lambda>_. False)) 6 7 ''u/a'' wx_pending))) = Inr ''xy'' \<and>
   pending_quota_delta ''u'' (snd (flush_path (wx_env True (\<lambda>_. False)) 6 7 ''u/a'' wx_pending)) = 2"
proof -
  let ?env = "wx_env True (\<lambda>_. False)"
  have op: "we_op ?env = map_op (\<lambda>_. False)" by (simp add: wx_env_def)
  have "\<not> contains ''/a'' ''/.thumbs''" "\<not> contains ''/a'' ''/.thumbs_cache''"
    by (auto dest: sublist_length_le)
  then show ?thesis
    using flush_delivers[OF wx_env_ok[of "\<lambda>_. False"] wx_pending_ok(1,2) _ wx_pending_ok(5) _ prod.collapse[symmetric],
        where st = "Map.empty(''u/a'' \<mapsto> ''xy'')" and now = 6 and now' = 7 and prev = 0] op
    by (simp add: wx_pending_ok wx_entry_def map_op_def is_i64_def)
qed

section \<open>Retries and the deadline\<close>

lemma sint_of_nat_small: "n < 2 ^ 63 \<Longrightarrow> sint (word_of_nat n :: u64) = int n"
  by (simp add: signed_of_nat signed_take_bit_int_eq_self)

lemma clamp_mono: "x \<le> y \<Longrightarrow> max l (min h x) \<le> max l (min h (y :: int))"
  by (intro max.mono min.mono order_refl)

lemma sint_small: "unat (w :: u64) < 2 ^ 63 \<Longrightarrow> sint w = int (unat w)"
  using sint_of_nat_small[of "unat w"] by simp

text \<open>
  The retry delay is bounded and backs off: between 1 and 60 seconds for an ordinary entry, between 5
  and 300 for an abnormal one, for every flush interval and any number of failures (no overflow of the
  shift or the product), and it never shrinks when another attempt fails.
\<close>

theorem retry_delay_bounded_monotone:
  "1 \<le> retry_delay_secs ms n False \<and> retry_delay_secs ms n False \<le> 60 \<and>
   5 \<le> retry_delay_secs ms n True \<and> retry_delay_secs ms n True \<le> 300 \<and>
   retry_delay_secs ms n b \<le> retry_delay_secs ms (sat_inc_u32 n) b"
proof -
  let ?b = "sint (max (ms div 1000) 1)"
  have pos: "0 \<le> ?b"
  proof -
    have "unat (max (ms div 1000) 1) < 2 ^ 63"
    proof (cases "ms div 1000 \<le> 1")
      case False
      have "unat (ms div 1000) = unat ms div 1000" by (simp add: unat_div)
      also have "\<dots> < 2 ^ 63" using unat_u64_less[of ms] by (intro less_mult_imp_div_less) simp
      finally show ?thesis using False by (simp add: max_def)
    qed (simp add: max_def)
    then have "?b = int (unat (max (ms div 1000) 1))" by (rule sint_small)
    then show ?thesis by simp
  qed
  have "min (n - 1) 6 \<le> min (sat_inc_u32 n - 1) 6"
    by (auto simp: sat_inc_u32_def)
  then have "(2 :: int) ^ min (n - 1) 6 \<le> 2 ^ min (sat_inc_u32 n - 1) 6" by (intro power_increasing) auto
  then have "?b * 2 ^ min (n - 1) 6 \<le> ?b * 2 ^ min (sat_inc_u32 n - 1) 6" using pos by (intro mult_left_mono)
  then have le: "sat_mul_i64 ?b (2 ^ min (n - 1) 6) \<le> sat_mul_i64 ?b (2 ^ min (sat_inc_u32 n - 1) 6)"
    unfolding sat_mul_i64_def clamp_i64_def by (rule clamp_mono)
  have "retry_delay_secs ms n b \<le> retry_delay_secs ms (sat_inc_u32 n) b"
  proof (cases b)
    case True
    show ?thesis
      unfolding retry_delay_secs_def Let_def if_P[OF True] using le by (rule clamp_mono)
  next
    case False
    show ?thesis
      unfolding retry_delay_secs_def Let_def if_not_P[OF False] using le by (rule clamp_mono)
  qed
  moreover have "1 \<le> retry_delay_secs ms n False" "retry_delay_secs ms n False \<le> 60"
    "5 \<le> retry_delay_secs ms n True" "retry_delay_secs ms n True \<le> 300"
    unfolding retry_delay_secs_def Let_def by simp_all
  ultimately show ?thesis by blast
qed

definition in_abnormal_dir :: "'p write_cache \<Rightarrow> pending_blob \<Rightarrow> bool" where
  "in_abnormal_dir s b \<longleftrightarrow> (case b of PDisk p \<Rightarrow> path_starts_with p (wc_abnormal_dir s) | PMem _ \<Rightarrow> False)"

lemma promote_spills:
  assumes "all_ok (we_fs env)" "hash_ok env" "\<not> in_abnormal_dir s (pe_blob (wc_heap s i))"
  shows "\<exists>s2. promote_to_abnormal env i d s = (Promoted (pe_blob (wc_heap s i)), s2) \<and>
    wc_heap s2 i = (wc_heap s i)\<lparr>pe_blob := PDisk (join_path (wc_abnormal_dir s)
        (staged_name env (pe_physical (wc_heap s i)) (wc_next_uuid s))), pe_state := Abnormal\<rparr> \<and>
    wc_journal s2 = wc_journal s"
proof -
  let ?e = "wc_heap s i"
  let ?m = "\<lparr>wm_user = pe_user ?e, wm_logical = pe_logical ?e, wm_physical = pe_physical ?e, wm_blob_path = None,
            wm_size = pe_size ?e, wm_modified = pe_modified ?e, wm_deadline = pe_deadline ?e,
            wm_generation = pe_generation ?e, wm_abnormal = True\<rparr>"
  obtain b s1 where st: "store_staged_blob env ?m d s = (Some b, s1)"
    using store_staged_total[OF assms(1,2)] by blast
  have b: "b = PDisk (join_path (wc_abnormal_dir s) (staged_name env (pe_physical ?e) (wc_next_uuid s)))"
    using store_staged_result[OF st] by (simp add: base_dir_def)
  have h: "wc_heap s1 = wc_heap s" using store_staged_heap(1)[of env ?m d s] st by simp
  have j: "wc_journal (snd (store_staged_blob env m d s)) = wc_journal s" for m
    by (simp add: store_staged_blob_def write_blob_files_def Let_def fs_write_def)
  then have "wc_journal s1 = wc_journal s" using st by (metis snd_conv)
  then have "wc_journal (swap_blob i a b s1) = wc_journal s" for a
    by (simp add: swap_blob_def upd_entry_def Let_def)
  then show ?thesis
    using assms(3) st h b
    by (simp add: promote_to_abnormal_def Let_def in_abnormal_dir_def upd_entry_def swap_blob_result)
qed

text \<open>
  A write that the primary keeps refusing is not lost at its deadline: the failing flush moves the
  data to the abnormal directory, where it stays readable, marks the entry abnormal, and logs exactly one
  journal event with the user, the path and the error.
\<close>

theorem deadline_spills:
  assumes e: "wc_env_ok env P" "we_recorder env" and g: "wc_good env P s"
    and i: "map_of (wc_entries s) k = Some i" "pe_state (wc_heap s i) \<noteq> Flushing"
    and d: "wc_content env k s = Some d" "op_write (we_op env) k d (wc_store s) = (Inl (kk, msg), st)"
    and late: "pe_deadline (wc_heap s i) < now'" "\<not> pe_abnormal_logged (wc_heap s i)"
      "\<not> in_abnormal_dir s (pe_blob (wc_heap s i))"
    and r: "flush_path env now now' k s = (r, s')"
  shows "r = Inl (Internal msg) \<and> wc_content env k s' = Some d \<and>
    pe_blob (wc_heap s' i) = PDisk (join_path (wc_abnormal_dir s) (staged_name env k (wc_next_uuid s))) \<and>
    pe_state (wc_heap s' i) = Abnormal \<and> pe_abnormal_logged (wc_heap s' i) \<and>
    wc_journal s' = wc_journal s @
      [\<lparr>je_user = pe_user (wc_heap s i), je_action = ''FILE:WRITE_CACHE_DEADLINE_EXCEEDED'',
        je_src = pe_logical (wc_heap s i), je_dst = Some k, je_success = False, je_error = Some msg\<rparr>]"
proof -
  have wf: "wc_wf env s" and h: "hash_ok env" and ok: "all_ok (we_fs env)"
    using e(1) g by (auto simp: wc_env_ok_def wc_good_def)
  have ph: "pe_physical (wc_heap s i) = k" using wc_wfD[OF wf i(1)] by simp
  have rd: "read_blob_bytes env (pe_blob (wc_heap s i)) s = Some d"
    using d(1) i(1) by (simp add: wc_content_def lookup_entry_def)
  have fl: "flush_entry env now now' i True s = (r, s')" using r i(1) by (simp add: flush_path_def)
  let ?s = "flushing i s\<lparr>wc_store := st\<rparr>"
  from fl show ?thesis
  proof (cases rule: flush_entry_cases)
    case (failed d' kk' msg' st')
    have same: "d' = d" "msg' = msg" "st' = st" using failed(1,2) rd d(2) ph by simp_all
    note f = failed(3)[unfolded same]
    have wf1: "wc_wf env ?s" using wf by (simp add: wc_store_update flushing_wf)
    have i1: "map_of (wc_entries ?s) k = Some i" using i(1) by simp
    have hd: "holds_data env k i d ?s"
      using content_readable[of env "flushing i s" k i d] rd wf i read_blob_fs[of "flushing i s" s env]
      by (simp add: wc_store_update flushing_wf)
    have ph1: "pe_physical (wc_heap ?s i) = k" using ph by simp
    from flush_failed_safe[OF h ok hd ph1 f] have safe: "safe_step env k i d ?s s'" "r = Inl (Internal msg)" by simp_all
    define s1 where "s1 = upd_entry i (\<lambda>e. e\<lparr>pe_retry := sat_inc_u32 (pe_retry e), pe_error := Some msg,
      pe_next_retry := now' + retry_delay_secs (wc_interval_ms ?s) (sat_inc_u32 (pe_retry e)) (pe_abnormal_logged e)\<rparr>) ?s"
    have s1: "pe_blob (wc_heap s1 i) = pe_blob (wc_heap s i)" "pe_physical (wc_heap s1 i) = k"
      "pe_abnormal_logged (wc_heap s1 i) = pe_abnormal_logged (wc_heap s i)" "wc_journal s1 = wc_journal s"
      "pe_user (wc_heap s1 i) = pe_user (wc_heap s i)" "pe_logical (wc_heap s1 i) = pe_logical (wc_heap s i)"
      "wc_abnormal_dir s1 = wc_abnormal_dir s" "wc_next_uuid s1 = wc_next_uuid s"
      using ph by (simp_all add: s1_def flushing_def upd_entry_def)
    have "\<not> in_abnormal_dir s1 (pe_blob (wc_heap s1 i))" using late(3) s1 by (cases "pe_blob (wc_heap s i)") (simp_all add: in_abnormal_dir_def)
    from promote_spills[OF ok h this, of d] obtain s2 where
      s2: "promote_to_abnormal env i d s1 = (Promoted (pe_blob (wc_heap s i)), s2)"
      "wc_heap s2 i = (wc_heap s1 i)\<lparr>pe_blob := PDisk (join_path (wc_abnormal_dir s) (staged_name env k (wc_next_uuid s))),
         pe_state := Abnormal\<rparr>" "wc_journal s2 = wc_journal s"
      using s1 by auto
    note f1 = f[unfolded flush_failed_def Let_def, folded s1_def]
    have "s' = wc_metric record_write_cache_flush_failure (log_abnormal_journal env i msg
        (wc_metric record_write_cache_abnormal_spill (remove_blob_files env (pe_blob (wc_heap s i))
          (upd_entry i (\<lambda>e. e\<lparr>pe_abnormal_logged := True, pe_state := Abnormal,
             pe_next_retry := now' + retry_delay_secs (wc_interval_ms ?s) (pe_retry e) True\<rparr>) s2))))"
      using f1 late(1,2) s1(3) s2(1,2) by simp
    then have "pe_blob (wc_heap s' i) = PDisk (join_path (wc_abnormal_dir s) (staged_name env k (wc_next_uuid s))) \<and>
      pe_state (wc_heap s' i) = Abnormal \<and> pe_abnormal_logged (wc_heap s' i) \<and>
      wc_journal s' = wc_journal s @
        [\<lparr>je_user = pe_user (wc_heap s i), je_action = ''FILE:WRITE_CACHE_DEADLINE_EXCEEDED'',
          je_src = pe_logical (wc_heap s i), je_dst = Some k, je_success = False, je_error = Some msg\<rparr>]"
      using s1 s2(2,3) e(2)
      by (cases "pe_blob (wc_heap s i)")
        (simp_all add: log_abnormal_journal_def wc_metric_def remove_blob_files_def upd_entry_def)
    then show ?thesis using safe safe_step_wf[OF safe(1) wf1 i1] by simp
  qed (use i rd d(2) ph in simp_all)
qed

theorem deadline_spills_witness:
  "wc_content (wx_env True (\<lambda>_. True)) ''u/a'' (snd (flush_path (wx_env True (\<lambda>_. True)) 16 17 ''u/a'' wx_pending)) = Some ''xy'' \<and>
   length (wc_journal (snd (flush_path (wx_env True (\<lambda>_. True)) 16 17 ''u/a'' wx_pending))) = length (wc_journal wx_pending) + 1"
proof -
  let ?env = "wx_env True (\<lambda>_. True)"
  have "we_recorder ?env" "op_write (we_op ?env) ''u/a'' ''xy'' (wc_store wx_pending) = (Inl (DalUnexpected, ''io''), wc_store wx_pending)"
    by (simp_all add: wx_env_def map_op_def)
  then show ?thesis
    using deadline_spills[OF wx_env_ok _ wx_pending_ok(1,2) _ wx_pending_ok(5) _ _ _ _ prod.collapse[symmetric], where kk = DalUnexpected and msg = "''io''" and st = "wc_store wx_pending" and now' = 17 and now = 16]
    by (simp add: wx_pending_ok wx_entry_def in_abnormal_dir_def)
qed

section \<open>Where the guarantees end\<close>

text \<open>
  A blob that cannot be read back wedges its entry. The flush reports the error once and leaves the
  entry in state \<open>Flushing\<close>; from then on every forced flush answers \<open>Ok\<close> without writing anything and the
  background worker never picks the entry again, although its data was acknowledged.
\<close>

theorem unreadable_blob_wedges:
  assumes "map_of (wc_entries s) k = Some i" "pe_state (wc_heap s i) \<noteq> Flushing"
    and "read_blob_bytes env (pe_blob (wc_heap s i)) s = None"
  shows "\<exists>s1. flush_path env now now' k s = (Inl (Internal ''read''), s1) \<and> wc_store s1 = wc_store s \<and>
    lookup_entry k s1 \<noteq> None \<and> flush_path env2 t t' k s1 = (Inr (), s1) \<and>
    \<not> is_due_for_background_flush t'' (wc_heap s1 i)"
proof -
  have rd: "read_blob_bytes env (pe_blob (wc_heap s i)) (flushing i s) = None"
    using read_blob_fs[of "flushing i s" s env] assms(3) by simp
  have "flush_path env now now' k s = (Inl (Internal ''read''), flushing i s)"
    using assms rd by (simp add: flush_path_def flush_entry_def flush_begin_def flush_io_def Let_def flushing_def)
  moreover have "pe_state (wc_heap (flushing i s) i) = Flushing" by (simp add: flushing_def upd_entry_def)
  ultimately show ?thesis
    using assms(1)
    by (auto simp: lookup_entry_def flush_path_def flush_entry_def flush_begin_def Let_def is_due_for_background_flush_def)
qed

definition wx_wedged :: "(string \<Rightarrow> string option) write_cache" where
  "wx_wedged = wx_pending\<lparr>wc_backend := WriteLocalDir, wc_heap := (\<lambda>_. wx_entry\<lparr>pe_blob := PDisk ''/q/gone.bin''\<rparr>)\<rparr>"

theorem unreadable_blob_wedges_witness:
  "\<exists>s1. flush_path (wx_env True (\<lambda>_. False)) 6 7 ''u/a'' wx_wedged = (Inl (Internal ''read''), s1) \<and>
     flush_path (wx_env True (\<lambda>_. False)) 8 9 ''u/a'' s1 = (Inr (), s1)"
proof -
  have "map_of (wc_entries wx_wedged) ''u/a'' = Some 0" "pe_state (wc_heap wx_wedged 0) \<noteq> Flushing"
    "read_blob_bytes (wx_env True (\<lambda>_. False)) (pe_blob (wc_heap wx_wedged 0)) wx_wedged = None"
    by (simp_all add: wx_wedged_def wx_pending_ok wx_entry_def read_blob_bytes_def fs_read_def wx_env_def)
      (simp add: wx_pending_def wx_cache_def add_entry_def mark_dirty_def wc_metric_def)
  from unreadable_blob_wedges[OF this, of 6 7 "wx_env True (\<lambda>_. False)" 8 9 10] show ?thesis by blast
qed

text \<open>
  C29: an acknowledged overwrite can be lost. \<open>update_existing_entry\<close> raises the generation in its first
  locked section and swaps the blob in its second one. A flush that runs in between reads the old blob
  with the new generation, delivers the old data and drops the entry; the swap then succeeds on a record
  nobody refers to. The enqueue still reports success, the primary holds the old data, and no pending
  entry is left.
\<close>

theorem overwrite_lost_between_sections:
  assumes e: "wc_env_ok env P" and g: "wc_good env P s"
    and i: "map_of (wc_entries s) k = Some i" and old: "wc_content env k s = Some old"
    and b: "update_begin i new now deadline s = ((generation, previous, plan), s1)"
    and w: "op_write (we_op env) k old (wc_store s) = (Inr (), st)"
    and f: "flush_path env t t' k s1 = (r, s2)"
    and u: "update_stage env i k new now deadline generation plan s2 = (Some staged, s3)"
  shows "r = Inr () \<and> (let s4 = update_swap env i generation previous staged s3
     in lookup_entry k s4 = None \<and> op_read (we_op env) k (wc_store s4) = Inr old)"
proof -
  have wf: "wc_wf env s" and h: "hash_ok env" and law: "lawful_op (we_op env) P" and k: "k \<in> P"
    using e g map_of_SomeD[OF i] by (auto simp: wc_env_ok_def wc_good_def)
  have ph: "pe_physical (wc_heap s i) = k" using wc_wfD[OF wf i] by simp
  have s1: "wc_touch env k i s s1" "pe_blob (wc_heap s1 i) = pe_blob (wc_heap s i)" "pe_state (wc_heap s1 i) \<noteq> Flushing"
    "wc_fs s1 = wc_fs s" "wc_next_uuid s1 = wc_next_uuid s" "wc_backend s1 = wc_backend s"
    using b by (auto simp: update_begin_def Let_def upd_entry_def wc_touch_def split: if_splits)
  have "blob_ok env k s1 (pe_blob (wc_heap s1 i))"
    using wc_wfD[OF wf i] s1 by (simp add: blob_ok_def cong: pending_blob.case_cong)
  from wc_touch_wf[OF wf s1(1) i this] have wf1: "wc_wf env s1" .
  have i1: "map_of (wc_entries s1) k = Some i" and st1: "wc_store s1 = wc_store s" and ph1: "pe_physical (wc_heap s1 i) = k"
    using s1(1) i ph by (simp_all add: wc_touch_def)
  have rd: "read_blob_bytes env (pe_blob (wc_heap s1 i)) s1 = Some old"
    using old i s1(2) read_blob_fs[OF s1(4), of env] by (simp add: wc_content_def lookup_entry_def)
  have fl: "flush_entry env t t' i True s1 = (r, s2)" using f i1 by (simp add: flush_path_def)
  have s2: "r = Inr () \<and> map_of (wc_entries s2) k = None \<and> wc_store s2 = st"
    using fl
  proof (cases rule: flush_entry_cases)
    case (delivered d st')
    let ?s = "flushing i s1\<lparr>wc_store := st'\<rparr>"
    have same: "d = old" "st' = st" using delivered(1,2) rd w ph1 st1 by simp_all
    have "wc_wf env ?s" "map_of (wc_entries ?s) k = Some i" using wf1 i1 by (simp_all add: wc_store_update flushing_wf)
    note C = flush_commit_ok[OF h this delivered(3), simplified]
    then obtain x where "wc_same (wc_drop k ?s\<lparr>wc_fs := x\<rparr>) s2" by blast
    then show ?thesis using C(1,4) same by (simp add: wc_same_def wc_drop_frame)
  qed (use s1(3) rd w ph1 st1 in simp_all)
  have "wc_entries (snd (update_stage env i k new now deadline generation plan s2)) = wc_entries s2 \<and>
      wc_store (snd (update_stage env i k new now deadline generation plan s2)) = wc_store s2"
    by (cases plan) (simp_all add: update_stage_def store_staged_blob_def write_blob_files_def fs_write_def Let_def)
  then have s3: "wc_entries s3 = wc_entries s2" "wc_store s3 = wc_store s2" using u by simp_all
  have "wc_entries (update_swap env i generation previous staged s3) = wc_entries s3"
    "wc_store (update_swap env i generation previous staged s3) = wc_store s3"
    by (simp_all add: update_swap_def remove_blob_files_def swap_blob_def upd_entry_def Let_def split: pending_blob.split)
  then show ?thesis
    using s2 s3 lawful_written[OF law k w] by (simp add: Let_def lookup_entry_def)
qed

theorem overwrite_lost_between_sections_witness:
  "let env = wx_env True (\<lambda>_. False); ((generation, previous, plan), s1) = update_begin 0 ''new'' 6 16 wx_pending;
       s2 = snd (flush_path env 7 8 ''u/a'' s1); s4 = update_swap env 0 generation previous (PMem ''new'') s2
   in lookup_entry ''u/a'' s4 = None \<and> op_read (we_op env) ''u/a'' (wc_store s4) = Inr ''xy''"
proof -
  let ?env = "wx_env True (\<lambda>_. False)"
  obtain g p s1 where b: "update_begin 0 ''new'' 6 16 wx_pending = ((g, p, InMemory), s1)"
    by (simp add: update_begin_def Let_def wx_pending_ok wx_entry_def)
  have w: "op_write (we_op ?env) ''u/a'' ''xy'' (wc_store wx_pending) = (Inr (), Map.empty(''u/a'' \<mapsto> ''xy''))"
    by (simp add: wx_pending_ok wx_env_def map_op_def)
  have u: "update_stage ?env 0 ''u/a'' ''new'' 6 16 g InMemory s2 = (Some (PMem ''new''), s2)" for s2
    by (simp add: update_stage_def)
  show ?thesis
    using overwrite_lost_between_sections[OF wx_env_ok wx_pending_ok(1,2,5) b w prod.collapse[symmetric] u, of 7 8] b
    by (simp add: Let_def)
qed

end
