(* ===== verification/Index_Table.thy ===== *)
theory Index_Table
  imports Paths
begin

text \<open>
  The table \<open>yh_vfs_file_index\<close> (\<open>business/entities/file_index.rs\<close>), the table of shares that refers to
  it (\<open>business/entities/file_share.rs\<close>), and the SQL statements the index service issues on them. A
  table is the list of its rows in the order a scan returns them. The constraints are those of
  \<open>business/services/db_init.rs\<close>: the primary key \<open>(id, user_id)\<close>, the unique index \<open>(user_id, path)\<close>,
  the foreign key of the shares with \<open>ON DELETE CASCADE\<close>. They are checked row by row, as SQLite and
  PostgreSQL do. Time stamps are seconds.
\<close>

record index_row =
  ir_id :: string
  ir_user :: string
  ir_parent :: string
  ir_name :: string
  ir_path :: string
  ir_is_dir :: bool
  ir_storage :: "string option"
  ir_backend :: "string option"
  ir_key :: "string option"
  ir_size :: int
  ir_physical_size :: "int option"
  ir_etag :: "string option"
  ir_protected :: "string option"
  ir_created :: "int option"
  ir_modified :: "int option"
  ir_trashed :: "int option"
  ir_row_created :: int
  ir_row_updated :: int
  ir_row_deleted :: "int option"
  ir_favorite :: int
  ir_original :: "string option"
  ir_remark :: "string option"

text \<open>An \<open>ActiveModel\<close>: a column is set, or left out of the statement.\<close>

record index_active =
  ia_id :: "string option"
  ia_user :: "string option"
  ia_parent :: "string option"
  ia_name :: "string option"
  ia_path :: "string option"
  ia_is_dir :: "bool option"
  ia_storage :: "string option option"
  ia_backend :: "string option option"
  ia_key :: "string option option"
  ia_size :: "int option"
  ia_physical_size :: "int option option"
  ia_etag :: "string option option"
  ia_protected :: "string option option"
  ia_created :: "int option option"
  ia_modified :: "int option option"
  ia_trashed :: "int option option"
  ia_row_created :: "int option"
  ia_row_updated :: "int option"
  ia_row_deleted :: "int option option"
  ia_favorite :: "int option"
  ia_original :: "string option option"
  ia_remark :: "string option option"

record share_row =
  sh_id :: string
  sh_file :: string
  sh_user :: string
  sh_password :: "string option"
  sh_expire :: "int option"
  sh_views :: int
  sh_max_downloads :: "int option"
  sh_public :: bool
  sh_direct :: bool
  sh_can_upload :: bool
  sh_can_update :: bool
  sh_can_delete :: bool
  sh_note :: "string option"
  sh_label :: "string option"
  sh_attributes :: "string option"
  sh_hide_download :: bool
  sh_snapshot_path :: "string option"
  sh_snapshot_name :: "string option"
  sh_snapshot_is_dir :: "bool option"
  sh_deleted :: bool
  sh_created :: int

record index_db =
  db_files :: "index_row list"
  db_shares :: "share_row list"

datatype db_error = DbCustom string | DbUnique | DbNotNull | DbForeignKey | DbRecordNotFound string | DbUnavailable | DbPanic

fun db_text :: "db_error \<Rightarrow> string" where
  "db_text (DbCustom s) = ''Custom Error: '' @ s"
| "db_text DbUnique = ''UNIQUE constraint failed''"
| "db_text DbNotNull = ''NOT NULL constraint failed''"
| "db_text DbForeignKey = ''FOREIGN KEY constraint failed''"
| "db_text (DbRecordNotFound s) = ''RecordNotFound Error: '' @ s"
| "db_text DbUnavailable = ''unavailable''"
| "db_text DbPanic = ''panic''"

section \<open>Statements\<close>

definition same_key :: "index_row \<Rightarrow> index_row \<Rightarrow> bool" where
  "same_key r q \<longleftrightarrow> ir_user r = ir_user q \<and> (ir_path r = ir_path q \<or> ir_id r = ir_id q)"

definition clashes :: "index_row \<Rightarrow> index_row list \<Rightarrow> bool" where
  "clashes r rs \<longleftrightarrow> list_ex (same_key r) rs"

fun table_ok :: "index_row list \<Rightarrow> bool" where
  "table_ok [] = True"
| "table_ok (r # rs) = (\<not> clashes r rs \<and> table_ok rs)"

text \<open>\<open>UPDATE ... SET ... WHERE\<close>: the rows are visited in order, \<open>pre\<close> holds those already visited.\<close>

fun update_rows ::
  "(index_row \<Rightarrow> bool) \<Rightarrow> (index_row \<Rightarrow> index_row) \<Rightarrow> index_row list \<Rightarrow> index_row list \<Rightarrow> index_row list option" where
  "update_rows P f pre [] = Some pre"
| "update_rows P f pre (r # rs) =
     (if \<not> P r then update_rows P f (pre @ [r]) rs
      else if clashes (f r) (pre @ rs) then None
      else update_rows P f (pre @ [f r]) rs)"

definition update_many ::
  "(index_row \<Rightarrow> bool) \<Rightarrow> (index_row \<Rightarrow> index_row) \<Rightarrow> index_row list \<Rightarrow> db_error + index_row list" where
  "update_many P f rs = (case update_rows P f [] rs of None \<Rightarrow> Inl DbUnique | Some rs' \<Rightarrow> Inr rs')"

definition insert_row :: "index_row \<Rightarrow> index_row list \<Rightarrow> db_error + index_row list" where
  "insert_row r rs = (if clashes r rs then Inl DbUnique else Inr (rs @ [r]))"

definition delete_rows :: "(index_row \<Rightarrow> bool) \<Rightarrow> index_db \<Rightarrow> index_db" where
  "delete_rows P db =
     (let gone = filter P (db_files db) in
      db\<lparr>db_files := filter (\<lambda>r. \<not> P r) (db_files db),
         db_shares := filter (\<lambda>s. \<not> list_ex (\<lambda>r. sh_file s = ir_id r \<and> sh_user s = ir_user r) gone) (db_shares db)\<rparr>)"

text \<open>The row an \<open>INSERT\<close> makes of an active model; a column that is left out is \<open>NULL\<close>.\<close>

definition null_unless :: "'a option option \<Rightarrow> 'a option" where
  "null_unless c = (case c of Some v \<Rightarrow> v | None \<Rightarrow> None)"

definition row_of_active :: "index_active \<Rightarrow> index_row option" where
  "row_of_active a =
     (case (ia_id a, ia_user a, ia_parent a, ia_name a, ia_path a) of
        (Some i, Some u, Some pp, Some n, Some p) \<Rightarrow>
          (case (ia_is_dir a, ia_size a, ia_row_created a, ia_row_updated a, ia_favorite a) of
             (Some d, Some sz, Some c, Some m, Some fav) \<Rightarrow>
               Some \<lparr>ir_id = i, ir_user = u, ir_parent = pp, ir_name = n, ir_path = p, ir_is_dir = d,
                 ir_storage = null_unless (ia_storage a), ir_backend = null_unless (ia_backend a),
                 ir_key = null_unless (ia_key a), ir_size = sz,
                 ir_physical_size = null_unless (ia_physical_size a), ir_etag = null_unless (ia_etag a),
                 ir_protected = null_unless (ia_protected a), ir_created = null_unless (ia_created a),
                 ir_modified = null_unless (ia_modified a), ir_trashed = null_unless (ia_trashed a),
                 ir_row_created = c, ir_row_updated = m, ir_row_deleted = null_unless (ia_row_deleted a),
                 ir_favorite = fav, ir_original = null_unless (ia_original a), ir_remark = null_unless (ia_remark a)\<rparr>
           | _ \<Rightarrow> None)
      | _ \<Rightarrow> None)"

text \<open>\<open>INSERT ... ON CONFLICT (user_id, path) DO UPDATE\<close>: \<open>merge\<close> takes the stored row and the excluded one.\<close>

definition same_path :: "string \<Rightarrow> string \<Rightarrow> index_row \<Rightarrow> bool" where
  "same_path u p r \<longleftrightarrow> ir_user r = u \<and> ir_path r = p"

definition upsert_row ::
  "(index_row \<Rightarrow> index_row \<Rightarrow> index_row) \<Rightarrow> index_active \<Rightarrow> index_row list \<Rightarrow> db_error + index_row list" where
  "upsert_row merge a rs =
     (case row_of_active a of
        None \<Rightarrow> Inl DbNotNull
      | Some r \<Rightarrow>
          if list_ex (same_path (ir_user r) (ir_path r)) rs
          then update_many (same_path (ir_user r) (ir_path r)) (\<lambda>q. merge q r) rs
          else insert_row r rs)"

fun upsert_rows ::
  "(index_row \<Rightarrow> index_row \<Rightarrow> index_row) \<Rightarrow> index_active list \<Rightarrow> index_row list \<Rightarrow> db_error + index_row list" where
  "upsert_rows merge [] rs = Inr rs"
| "upsert_rows merge (a # as) rs = res_bind (upsert_row merge a rs) (upsert_rows merge as)"

section \<open>Laws of the statements\<close>

lemma same_key_sym: "same_key r q \<longleftrightarrow> same_key q r"
  by (auto simp: same_key_def)

lemma clashes_iff: "clashes r rs \<longleftrightarrow> (\<exists>q \<in> set rs. same_key r q)"
  by (simp add: clashes_def list_ex_iff)

lemma table_ok_append:
  "table_ok (xs @ ys) \<longleftrightarrow> table_ok xs \<and> table_ok ys \<and> (\<forall>x \<in> set xs. \<not> clashes x ys)"
  by (induction xs) (auto simp: clashes_iff)

lemma table_ok_filter: "table_ok rs \<Longrightarrow> table_ok (filter P rs)"
  by (induction rs) (auto simp: clashes_iff)

lemma table_ok_unique:
  "table_ok rs \<Longrightarrow> r \<in> set rs \<Longrightarrow> q \<in> set rs \<Longrightarrow> same_key r q \<Longrightarrow> r = q"
proof (induction rs)
  case (Cons a rs)
  then show ?case by (auto simp: clashes_iff same_key_sym)
qed simp

lemma update_rows_ok:
  "update_rows P f pre rs = Some rs' \<Longrightarrow> table_ok (pre @ rs) \<Longrightarrow> table_ok rs'"
proof (induction P f pre rs rule: update_rows.induct)
  case (2 P f pre r rs)
  show ?case
  proof (cases "P r")
    case False
    then show ?thesis using 2 by simp
  next
    case True
    with "2.prems" have n: "\<not> clashes (f r) (pre @ rs)" and u: "update_rows P f (pre @ [f r]) rs = Some rs'"
      by (simp_all split: if_splits)
    have "table_ok (pre @ [f r] @ rs)"
      using "2.prems"(2) n by (auto simp: table_ok_append clashes_iff same_key_sym)
    then show ?thesis using 2(2)[OF _ n] True u by simp
  qed
qed simp

lemma update_rows_map:
  "update_rows P f pre rs = Some rs' \<Longrightarrow> rs' = pre @ map (\<lambda>r. if P r then f r else r) rs"
  by (induction P f pre rs rule: update_rows.induct) (auto split: if_splits)

lemma update_many_map:
  "update_many P f rs = Inr rs' \<Longrightarrow> rs' = map (\<lambda>r. if P r then f r else r) rs"
  by (auto simp: update_many_def dest: update_rows_map split: option.splits)

lemma update_many_ok: "update_many P f rs = Inr rs' \<Longrightarrow> table_ok rs \<Longrightarrow> table_ok rs'"
  by (auto simp: update_many_def dest: update_rows_ok split: option.splits)

text \<open>
  An update succeeds when its result has no duplicate keys and no new key collides with a row that is
  still to be visited. In particular an update that leaves the keys alone succeeds.
\<close>

lemma table_ok_distinct: "table_ok rs \<Longrightarrow> distinct rs"
  by (induction rs) (auto simp: clashes_iff same_key_def)

lemma update_rows_fresh:
  assumes "table_ok (pre @ map (\<lambda>r. if P r then f r else r) rs)" "distinct rs"
    and "\<And>r q. r \<in> set rs \<Longrightarrow> P r \<Longrightarrow> q \<in> set rs \<Longrightarrow> q \<noteq> r \<Longrightarrow> \<not> same_key (f r) q"
  shows "update_rows P f pre rs = Some (pre @ map (\<lambda>r. if P r then f r else r) rs)"
  using assms
proof (induction P f pre rs rule: update_rows.induct)
  case (2 P f pre r rs)
  show ?case
  proof (cases "P r")
    case False
    then show ?thesis using 2(1)[OF False] "2.prems" by auto
  next
    case True
    have "\<not> clashes (f r) rs"
      using "2.prems"(2,3) True by (auto simp: clashes_iff)
    moreover have "\<not> clashes (f r) pre"
      using "2.prems"(1) True by (auto simp: table_ok_append clashes_iff same_key_sym)
    ultimately have n: "\<not> clashes (f r) (pre @ rs)" by (auto simp: clashes_iff)
    show ?thesis
      using 2(2)[OF _ n] "2.prems" True n by auto
  qed
qed simp

lemma update_many_fresh:
  assumes "table_ok rs" "table_ok (map (\<lambda>r. if P r then f r else r) rs)"
    and "\<And>r q. r \<in> set rs \<Longrightarrow> P r \<Longrightarrow> q \<in> set rs \<Longrightarrow> q \<noteq> r \<Longrightarrow> \<not> same_key (f r) q"
  shows "update_many P f rs = Inr (map (\<lambda>r. if P r then f r else r) rs)"
  using update_rows_fresh[of "[]" P f rs] assms by (simp add: update_many_def table_ok_distinct)

definition keeps_keys :: "(index_row \<Rightarrow> index_row) \<Rightarrow> bool" where
  "keeps_keys f \<longleftrightarrow> (\<forall>r. ir_user (f r) = ir_user r \<and> ir_path (f r) = ir_path r \<and> ir_id (f r) = ir_id r)"

lemma same_key_keeps:
  "keeps_keys f \<Longrightarrow> same_key (f r) q = same_key r q" "keeps_keys f \<Longrightarrow> same_key r (f q) = same_key r q"
  by (auto simp: keeps_keys_def same_key_def)

lemma clashes_keeps:
  assumes "keeps_keys f"
  shows "clashes r (map (\<lambda>r. if P r then f r else r) rs) = clashes r rs" "clashes (f r) rs = clashes r rs"
  using assms by (induction rs) (simp_all add: clashes_def same_key_keeps)

lemma table_ok_keeps: "keeps_keys f \<Longrightarrow> table_ok (map (\<lambda>r. if P r then f r else r) rs) = table_ok rs"
  by (induction rs) (simp_all add: clashes_keeps)

lemma update_many_keeps:
  assumes "keeps_keys f" "table_ok rs"
  shows "update_many P f rs = Inr (map (\<lambda>r. if P r then f r else r) rs)"
proof (rule update_many_fresh[OF assms(2)])
  show "table_ok (map (\<lambda>r. if P r then f r else r) rs)" using assms by (simp add: table_ok_keeps)
next
  fix r q assume "r \<in> set rs" "P r" "q \<in> set rs" "q \<noteq> r"
  then show "\<not> same_key (f r) q"
    using table_ok_unique[OF assms(2)] same_key_keeps(1)[OF assms(1)] by blast
qed

lemma insert_row_ok: "insert_row r rs = Inr rs' \<Longrightarrow> table_ok rs \<Longrightarrow> table_ok rs'"
  by (auto simp: insert_row_def table_ok_append clashes_iff same_key_sym split: if_splits)

lemma upsert_row_ok: "upsert_row m a rs = Inr rs' \<Longrightarrow> table_ok rs \<Longrightarrow> table_ok rs'"
  by (auto simp: upsert_row_def dest: insert_row_ok update_many_ok split: option.splits if_splits)

lemma upsert_rows_ok: "upsert_rows m as rs = Inr rs' \<Longrightarrow> table_ok rs \<Longrightarrow> table_ok rs'"
  by (induction as arbitrary: rs) (auto dest: upsert_row_ok)

text \<open>The rows a statement for one user leaves alone.\<close>

definition rows_of :: "string \<Rightarrow> index_row list \<Rightarrow> index_row list" where
  "rows_of u rs = filter (\<lambda>r. ir_user r = u) rs"

lemma rows_of_append [simp]: "rows_of u (xs @ ys) = rows_of u xs @ rows_of u ys"
  by (simp add: rows_of_def)

lemma rows_of_map_other:
  assumes "\<And>r. P r \<Longrightarrow> ir_user r \<noteq> v" "\<And>r. P r \<Longrightarrow> ir_user (f r) \<noteq> v"
  shows "rows_of v (map (\<lambda>r. if P r then f r else r) rs) = rows_of v rs"
  using assms by (induction rs) (auto simp: rows_of_def)

lemma rows_of_update_other:
  assumes "update_many P f rs = Inr rs'" "\<And>r. P r \<Longrightarrow> ir_user r \<noteq> v" "\<And>r. P r \<Longrightarrow> ir_user (f r) \<noteq> v"
  shows "rows_of v rs' = rows_of v rs"
  using update_many_map[OF assms(1)] rows_of_map_other[OF assms(2,3)] by simp

lemma rows_of_delete_other:
  assumes "\<And>r. P r \<Longrightarrow> ir_user r \<noteq> v"
  shows "rows_of v (db_files (delete_rows P db)) = rows_of v (db_files db)"
proof -
  have "\<And>r. (ir_user r = v \<and> \<not> P r) = (ir_user r = v)" using assms by blast
  then show ?thesis by (simp add: delete_rows_def rows_of_def conj_commute)
qed

end
