(* ===== verification/File_Index.thy ===== *)
theory File_Index
  imports Index_Table
begin

text \<open>
  The operations of \<open>FileIndexService\<close> (\<open>business/services/file_index_service.rs\<close>) that change the
  index. Every one of them issues a single writing statement or runs in a transaction, so it either
  succeeds or leaves the database as it was; \<open>up\<close> says whether the database answers. The clock, the
  fresh identifiers and the rows read between the statements are those of an undisturbed run.
\<close>

section \<open>Calls on the database\<close>

type_synonym 'a db_call = "index_db \<Rightarrow> (db_error + 'a) \<times> index_db"

definition on_files :: "bool \<Rightarrow> (index_row list \<Rightarrow> db_error + index_row list) \<Rightarrow> unit db_call" where
  "on_files up m db =
     (if \<not> up then (Inl DbUnavailable, db)
      else (case m (db_files db) of
              Inl e \<Rightarrow> (Inl e, db)
            | Inr rs \<Rightarrow> (Inr (), db\<lparr>db_files := rs\<rparr>)))"

text \<open>\<open>ActiveModel::update\<close> addresses a row by its primary key.\<close>

definition same_id :: "index_row \<Rightarrow> index_row \<Rightarrow> bool" where
  "same_id r q \<longleftrightarrow> ir_id q = ir_id r \<and> ir_user q = ir_user r"

definition update_one :: "index_row \<Rightarrow> (index_row \<Rightarrow> index_row) \<Rightarrow> index_row list \<Rightarrow> db_error + index_row list" where
  "update_one r f rs =
     (if \<not> list_ex (same_id r) rs then Inl (DbRecordNotFound ''None of the records are updated'')
      else update_many (same_id r) f rs)"

fun update_each ::
  "(index_row \<Rightarrow> index_row \<Rightarrow> index_row) \<Rightarrow> index_row list \<Rightarrow> index_row list \<Rightarrow> db_error + index_row list" where
  "update_each g [] rs = Inr rs"
| "update_each g (r # todo) rs = res_bind (update_one r (g r) rs) (update_each g todo)"

section \<open>Adding and updating an entry\<close>

definition set_col :: "'a option \<Rightarrow> 'a \<Rightarrow> 'a" where
  "set_col c old = (case c of Some v \<Rightarrow> v | None \<Rightarrow> old)"

definition merge_active :: "index_active \<Rightarrow> index_row \<Rightarrow> index_row" where
  "merge_active a r =
     r\<lparr>ir_parent := set_col (ia_parent a) (ir_parent r), ir_name := set_col (ia_name a) (ir_name r),
       ir_is_dir := set_col (ia_is_dir a) (ir_is_dir r), ir_storage := set_col (ia_storage a) (ir_storage r),
       ir_backend := set_col (ia_backend a) (ir_backend r), ir_key := set_col (ia_key a) (ir_key r),
       ir_size := set_col (ia_size a) (ir_size r),
       ir_physical_size := set_col (ia_physical_size a) (ir_physical_size r),
       ir_protected := set_col (ia_protected a) (ir_protected r), ir_etag := set_col (ia_etag a) (ir_etag r),
       ir_modified := set_col (ia_modified a) (ir_modified r),
       ir_row_updated := set_col (ia_row_updated a) (ir_row_updated r),
       ir_row_deleted := None, ir_trashed := None, ir_original := None\<rparr>"

definition add_or_update_entry :: "bool \<Rightarrow> index_active \<Rightarrow> index_row db_call" where
  "add_or_update_entry up entry db =
     (case ia_user entry of
        None \<Rightarrow> (Inl (DbCustom ''user_id is required for file index upsert''), db)
      | Some u \<Rightarrow>
     (case ia_path entry of
        None \<Rightarrow> (Inl (DbCustom ''path is required for file index upsert''), db)
      | Some p \<Rightarrow>
     (let a = entry\<lparr>ia_row_deleted := Some None, ia_trashed := Some None, ia_original := Some None\<rparr> in
      if \<not> up then (Inl DbUnavailable, db)
      else
        (case find (same_path u p) (db_files db) of
           Some existing \<Rightarrow>
             (case on_files up (update_one existing (merge_active a)) db of
                (Inl e, db') \<Rightarrow> (Inl e, db')
              | (Inr _, db') \<Rightarrow> (Inr (merge_active a existing), db'))
         | None \<Rightarrow>
             (case row_of_active a of
                None \<Rightarrow> (Inl DbNotNull, db)
              | Some r \<Rightarrow>
                  (case on_files up (insert_row r) db of
                     (Inl e, db') \<Rightarrow> (Inl e, db')
                   | (Inr _, db') \<Rightarrow> (Inr r, db')))))))"

definition index_path :: "string \<Rightarrow> string" where
  "index_path p = (if p = ''/'' then ''/'' else trim_end_matches slash p)"

definition index_parent :: "string \<Rightarrow> string" where
  "index_parent np =
     (let parent = (case path_parent np of Some q \<Rightarrow> q | None \<Rightarrow> ''/'');
          parent = (if parent = [] then ''/'' else trim_end_matches slash parent) in
      if parent = [] then ''/'' else parent)"

definition upsert_file_with_location ::
  "bool \<Rightarrow> string \<Rightarrow> int \<Rightarrow> string \<Rightarrow> string \<Rightarrow> vfs_file_info \<Rightarrow> string option \<Rightarrow> string option \<Rightarrow> string option \<Rightarrow>
   int option \<Rightarrow> string option \<Rightarrow> index_row db_call" where
  "upsert_file_with_location up uuid now u logical_path info storage_id backend_type backend_key physical_size
       protected_meta =
     (let np = index_path logical_path in
      add_or_update_entry up
        \<lparr>ia_id = Some uuid, ia_user = Some u, ia_parent = Some (index_parent np), ia_name = Some (fi_name info),
         ia_path = Some np, ia_is_dir = Some (fi_is_dir info), ia_storage = Some storage_id,
         ia_backend = Some backend_type, ia_key = Some backend_key, ia_size = Some (sint (fi_size info)),
         ia_physical_size = Some physical_size, ia_etag = None, ia_protected = Some protected_meta,
         ia_created = None, ia_modified = Some (fi_modified info), ia_trashed = None,
         ia_row_created = Some now, ia_row_updated = Some now, ia_row_deleted = None, ia_favorite = Some 0,
         ia_original = None, ia_remark = None\<rparr>)"

definition upsert_file :: "bool \<Rightarrow> string \<Rightarrow> int \<Rightarrow> string \<Rightarrow> string \<Rightarrow> vfs_file_info \<Rightarrow> index_row db_call" where
  "upsert_file up uuid now u logical_path info =
     upsert_file_with_location up uuid now u logical_path info None None None None None"

section \<open>Moving, trashing, restoring and deleting a subtree\<close>

definition last_name :: "string \<Rightarrow> string" where
  "last_name p = last (split_on slash p)"

definition child_parent :: "string \<Rightarrow> string" where
  "child_parent p = (case rsplit_once slash p of Some (q, _) \<Rightarrow> (if q = [] then ''/'' else q) | None \<Rightarrow> ''/'')"

text \<open>\<open>Column::starts_with(prefix)\<close> is \<open>LIKE\<close> with a percent sign after the prefix, which is not escaped.\<close>

definition like_prefix :: "string \<Rightarrow> string \<Rightarrow> bool" where
  "like_prefix pre s = sql_like (pre @ ''%'') s"

definition below :: "string \<Rightarrow> string \<Rightarrow> index_row \<Rightarrow> bool" where
  "below u p r \<longleftrightarrow> ir_user r = u \<and> like_prefix (p @ ''/'') (ir_path r)"

definition trash_top :: "int \<Rightarrow> string \<Rightarrow> string \<Rightarrow> index_row \<Rightarrow> index_row" where
  "trash_top now old_path new_path r =
     r\<lparr>ir_path := new_path, ir_name := last_name new_path, ir_parent := ''/.recycle_bin'',
       ir_trashed := Some now, ir_original := Some old_path, ir_row_updated := now\<rparr>"

definition trash_child :: "int \<Rightarrow> string \<Rightarrow> string \<Rightarrow> index_row \<Rightarrow> index_row" where
  "trash_child now old_path new_path r =
     r\<lparr>ir_original := Some (ir_path r), ir_path := sql_replace old_path new_path (ir_path r),
       ir_parent := sql_replace old_path new_path (ir_parent r), ir_trashed := Some now, ir_row_updated := now\<rparr>"

definition trash_file :: "bool \<Rightarrow> int \<Rightarrow> string \<Rightarrow> string \<Rightarrow> string \<Rightarrow> unit db_call" where
  "trash_file up now u old_path new_path =
     on_files up (\<lambda>rs.
       res_bind (update_many (same_path u old_path) (trash_top now old_path new_path) rs)
         (update_many (below u old_path) (trash_child now old_path new_path)))"

definition restored_path :: "string \<Rightarrow> string \<Rightarrow> index_row \<Rightarrow> string" where
  "restored_path trash_path target r =
     (if ir_path r = trash_path then target else target @ drop (length trash_path) (ir_path r))"

definition restore_row :: "int \<Rightarrow> string \<Rightarrow> string \<Rightarrow> index_row \<Rightarrow> index_row \<Rightarrow> index_row" where
  "restore_row now trash_path target r q =
     (let p = restored_path trash_path target r in
      q\<lparr>ir_path := p, ir_name := last_name p, ir_parent := child_parent p, ir_trashed := None,
        ir_original := None, ir_row_updated := now\<rparr>)"

definition restore_file :: "bool \<Rightarrow> int \<Rightarrow> string \<Rightarrow> string \<Rightarrow> string \<Rightarrow> unit db_call" where
  "restore_file up now u trash_path target =
     on_files up (\<lambda>rs.
       update_each (restore_row now trash_path target)
         (sort_key (\<lambda>r. length (ir_path r)) (filter (\<lambda>r. same_path u trash_path r \<or> below u trash_path r) rs)) rs)"

definition moved_flags :: "string \<Rightarrow> index_row \<Rightarrow> index_row" where
  "moved_flags dst q = (if starts_with dst ''/.recycle_bin'' then q else q\<lparr>ir_trashed := None, ir_original := None\<rparr>)"

definition move_top :: "int \<Rightarrow> string \<Rightarrow> index_row \<Rightarrow> index_row" where
  "move_top now dst q =
     moved_flags dst (q\<lparr>ir_path := dst, ir_name := last_name dst, ir_parent := child_parent dst, ir_row_updated := now\<rparr>)"

definition move_child :: "int \<Rightarrow> string \<Rightarrow> string \<Rightarrow> index_row \<Rightarrow> index_row \<Rightarrow> index_row" where
  "move_child now src dst r q =
     (let p = dst @ drop (length src) (ir_path r) in
      moved_flags dst (q\<lparr>ir_path := p, ir_parent := child_parent p, ir_row_updated := now\<rparr>))"

definition move_file :: "bool \<Rightarrow> int \<Rightarrow> string \<Rightarrow> string \<Rightarrow> string \<Rightarrow> unit db_call" where
  "move_file up now u src dst =
     on_files up (\<lambda>rs.
       res_bind
         (case find (same_path u src) rs of
            Some node \<Rightarrow> update_one node (move_top now dst) rs
          | None \<Rightarrow> Inr rs)
         (update_each (move_child now src dst) (filter (below u src) rs)))"

definition delete_file :: "bool \<Rightarrow> string \<Rightarrow> string \<Rightarrow> unit db_call" where
  "delete_file up u path db =
     (if \<not> up then (Inl DbUnavailable, db)
      else
        (let tops = filter (\<lambda>r. same_path u path r \<and> ir_row_deleted r = None) (db_files db);
             originals = map (\<lambda>p. trim_end_matches slash p @ ''/'') (List.map_filter ir_original tops);
             db1 = delete_rows (\<lambda>r. same_path u path r \<or> below u path r) db in
         (Inr (),
          fold (\<lambda>pre. delete_rows (\<lambda>r. ir_user r = u \<and>
            (case ir_original r of Some q \<Rightarrow> like_prefix pre q | None \<Rightarrow> False))) originals db1)))"

section \<open>Single columns\<close>

definition set_favorite_color :: "bool \<Rightarrow> string \<Rightarrow> string \<Rightarrow> int \<Rightarrow> unit db_call" where
  "set_favorite_color up u path color =
     on_files up (update_many (\<lambda>r. same_path u path r \<and> ir_row_deleted r = None) (\<lambda>r. r\<lparr>ir_favorite := color\<rparr>))"

definition update_storage_id :: "bool \<Rightarrow> string \<Rightarrow> string \<Rightarrow> string \<Rightarrow> unit db_call" where
  "update_storage_id up u path target =
     on_files up (update_many (\<lambda>r. same_path u path r \<and> ir_row_deleted r = None) (\<lambda>r. r\<lparr>ir_storage := Some target\<rparr>))"

definition sync_trash_share_status :: "bool \<Rightarrow> string \<Rightarrow> string \<Rightarrow> unit db_call" where
  "sync_trash_share_status up u file_index_id db =
     (if \<not> up then (Inl DbUnavailable, db)
      else (Inr (), db\<lparr>db_shares := map (\<lambda>s. if sh_user s = u \<and> sh_file s = file_index_id
                                         then s\<lparr>sh_deleted := True\<rparr> else s) (db_shares db)\<rparr>))"

section \<open>Directory synchronisation\<close>

definition merge_items :: "index_row \<Rightarrow> index_row \<Rightarrow> index_row" where
  "merge_items q x =
     q\<lparr>ir_parent := ir_parent x, ir_name := ir_name x, ir_is_dir := ir_is_dir x, ir_storage := ir_storage x,
       ir_backend := ir_backend x, ir_key := ir_key x, ir_size := ir_size x,
       ir_physical_size := ir_physical_size x, ir_protected := ir_protected x, ir_modified := ir_modified x,
       ir_row_updated := ir_row_updated x\<rparr>"

definition sync_directory_items :: "bool \<Rightarrow> index_active list \<Rightarrow> unit db_call" where
  "sync_directory_items up items db =
     (if items = [] then (Inr (), db) else on_files up (upsert_rows merge_items items) db)"

definition merge_chunk :: "index_row \<Rightarrow> index_row \<Rightarrow> index_row" where
  "merge_chunk q x =
     q\<lparr>ir_parent := ir_parent x, ir_name := ir_name x, ir_is_dir := ir_is_dir x, ir_size := ir_size x,
       ir_modified := ir_modified x, ir_row_updated := ir_row_updated x, ir_row_deleted := ir_row_deleted x\<rparr>"

definition upsert_directory_chunk_txn :: "index_active list \<Rightarrow> index_row list \<Rightarrow> db_error + index_row list" where
  "upsert_directory_chunk_txn chunk rs =
     (if chunk = [] then Inr rs
      else upsert_rows merge_chunk (map (\<lambda>a. a\<lparr>ia_row_deleted := Some None\<rparr>) chunk) rs)"

definition begin_directory_sync_txn :: "int \<Rightarrow> int" where
  "begin_directory_sync_txn now = now - 1"

definition finish_directory_sync_txn :: "string \<Rightarrow> string \<Rightarrow> int \<Rightarrow> index_db \<Rightarrow> index_db" where
  "finish_directory_sync_txn u parent sync_start =
     delete_rows (\<lambda>r. ir_user r = u \<and> ir_parent r = parent \<and> ir_row_updated r < sync_start)"

function sync_chunks :: "nat \<Rightarrow> index_active list \<Rightarrow> index_row list \<Rightarrow> db_error + index_row list" where
  "sync_chunks n items rs =
     (if items = [] then Inr rs
      else res_bind (upsert_directory_chunk_txn (take (max n 1) items) rs) (sync_chunks n (drop (max n 1) items)))"
  by pat_completeness auto
termination
  by (relation "measure (\<lambda>(n, items, rs). length items)") auto

declare sync_chunks.simps [simp del]

definition sync_directory_optimized ::
  "bool \<Rightarrow> int \<Rightarrow> string \<Rightarrow> string \<Rightarrow> index_active list \<Rightarrow> nat \<Rightarrow> unit db_call" where
  "sync_directory_optimized up now u dir items chunk_size db =
     (let parent = index_path dir;
          sync_start = begin_directory_sync_txn now in
      case on_files up (sync_chunks chunk_size items) db of
        (Inl e, db') \<Rightarrow> (Inl e, db')
      | (Inr _, db') \<Rightarrow> (Inr (), finish_directory_sync_txn u parent sync_start db'))"

definition sync_directory_complete :: "bool \<Rightarrow> int \<Rightarrow> string \<Rightarrow> string \<Rightarrow> index_active list \<Rightarrow> unit db_call" where
  "sync_directory_complete up now u dir items = sync_directory_optimized up now u dir items 500"

section \<open>Reading single entries\<close>

definition get_file_metadata :: "string \<Rightarrow> string \<Rightarrow> index_db \<Rightarrow> index_row option" where
  "get_file_metadata u path db = find (\<lambda>r. same_path u path r \<and> ir_row_deleted r = None) (db_files db)"

definition get_total_size :: "string \<Rightarrow> string \<Rightarrow> index_db \<Rightarrow> int" where
  "get_total_size u path_prefix db =
     sum_list (map ir_size (filter (\<lambda>r. (same_path u path_prefix r \<or> below u path_prefix r) \<and>
       ir_row_deleted r = None \<and> ir_trashed r = None) (db_files db)))"

end
