(* ===== verification/File_Index_Claims.thy ===== *)
theory File_Index_Claims
  imports File_Index
begin

text \<open>
  What the operations of the index promise: the constraints of the tables and the separation of the
  users over any sequence of operations, and the effect of each kind of operation on the rows.
\<close>

section \<open>Every statement respects keys, references and users\<close>

definition row_ids :: "index_row list \<Rightarrow> (string \<times> string) set" where
  "row_ids rs = (\<lambda>r. (ir_id r, ir_user r)) ` set rs"

definition table_step :: "string set \<Rightarrow> index_row list \<Rightarrow> index_row list \<Rightarrow> bool" where
  "table_step U rs rs' \<longleftrightarrow> (table_ok rs \<longrightarrow> table_ok rs') \<and> (\<forall>v. v \<notin> U \<longrightarrow> rows_of v rs' = rows_of v rs) \<and>
     row_ids rs \<subseteq> row_ids rs'"

lemma table_step_refl [simp]: "table_step U rs rs"
  by (simp add: table_step_def)

lemma table_step_trans: "table_step U rs rs' \<Longrightarrow> table_step U rs' rs'' \<Longrightarrow> table_step U rs rs''"
  by (auto simp: table_step_def)

lemma table_step_mono: "table_step U rs rs' \<Longrightarrow> U \<subseteq> V \<Longrightarrow> table_step V rs rs'"
  by (auto simp: table_step_def)

definition keeps_id :: "(index_row \<Rightarrow> index_row) \<Rightarrow> bool" where
  "keeps_id f \<longleftrightarrow> (\<forall>r. ir_id (f r) = ir_id r \<and> ir_user (f r) = ir_user r)"

lemma keeps_id_rows:
  "keeps_id (merge_active a)" "keeps_id (trash_top now p q)" "keeps_id (trash_child now p q)"
  "keeps_id (restore_row now p q r)" "keeps_id (move_top now q)" "keeps_id (move_child now p q r)"
  "keeps_id (\<lambda>q. merge_items q x)" "keeps_id (\<lambda>q. merge_chunk q x)"
  "keeps_id (\<lambda>r. r\<lparr>ir_favorite := c\<rparr>)" "keeps_id (\<lambda>r. r\<lparr>ir_storage := t\<rparr>)"
  by (simp_all add: keeps_id_def merge_active_def trash_top_def trash_child_def restore_row_def Let_def
      moved_flags_def move_top_def move_child_def merge_items_def merge_chunk_def)

lemma update_many_step:
  assumes "update_many P f rs = Inr rs'" "keeps_id f" "\<And>r. P r \<Longrightarrow> ir_user r \<in> U"
  shows "table_step U rs rs'"
  unfolding table_step_def
proof (intro conjI allI impI)
  show "table_ok rs \<Longrightarrow> table_ok rs'" using update_many_ok[OF assms(1)] .
  show "rows_of v rs' = rows_of v rs" if "v \<notin> U" for v
    using assms that by (intro rows_of_update_other[OF assms(1)]) (auto simp: keeps_id_def)
  show "row_ids rs \<subseteq> row_ids rs'"
  proof -
    have "row_ids rs' = row_ids rs"
      unfolding update_many_map[OF assms(1)] row_ids_def set_map image_image
      using assms(2) by (intro image_cong) (auto simp: keeps_id_def)
    then show ?thesis by simp
  qed
qed

lemma update_one_step:
  "update_one r f rs = Inr rs' \<Longrightarrow> keeps_id f \<Longrightarrow> ir_user r \<in> U \<Longrightarrow> table_step U rs rs'"
  by (auto simp: update_one_def same_id_def elim!: update_many_step split: if_splits)

lemma update_each_step:
  "update_each g todo rs = Inr rs' \<Longrightarrow> (\<And>r. keeps_id (g r)) \<Longrightarrow> ir_user ` set todo \<subseteq> U \<Longrightarrow> table_step U rs rs'"
proof (induction todo arbitrary: rs)
  case (Cons r todo)
  then obtain rs1 where "update_one r (g r) rs = Inr rs1" "update_each g todo rs1 = Inr rs'" by auto
  moreover have "table_step U rs rs1"
    using update_one_step[OF calculation(1)] Cons.prems by simp
  moreover have "table_step U rs1 rs'" using Cons calculation(2) by simp
  ultimately show ?case by (blast intro: table_step_trans)
qed simp

lemma insert_row_step:
  "insert_row r rs = Inr rs' \<Longrightarrow> ir_user r \<in> U \<Longrightarrow> table_step U rs rs'"
  using insert_row_ok[of r rs rs']
  by (auto simp: insert_row_def table_step_def row_ids_def rows_of_def split: if_splits)

lemma row_of_active_user: "row_of_active a = Some r \<Longrightarrow> ia_user a = Some (ir_user r)"
  by (auto simp: row_of_active_def split: option.splits prod.splits)

definition active_users :: "index_active list \<Rightarrow> string set" where
  "active_users as = \<Union> (set_option ` ia_user ` set as)"

lemma upsert_rows_step:
  "upsert_rows merge as rs = Inr rs' \<Longrightarrow> (\<And>x. keeps_id (\<lambda>q. merge q x)) \<Longrightarrow> active_users as \<subseteq> U \<Longrightarrow>
   table_step U rs rs'"
proof (induction as arbitrary: rs)
  case (Cons a as)
  then obtain rs1 where u: "upsert_row merge a rs = Inr rs1" "upsert_rows merge as rs1 = Inr rs'" by auto
  obtain r where r: "row_of_active a = Some r"
    using u(1) by (cases "row_of_active a") (auto simp: upsert_row_def)
  have U: "ir_user r \<in> U" using row_of_active_user[OF r] Cons.prems(3) by (auto simp: active_users_def)
  have "table_step U rs rs1"
    using u(1) r U Cons.prems(2)
    by (auto simp: upsert_row_def same_path_def elim!: insert_row_step update_many_step split: if_splits)
  moreover have "table_step U rs1 rs'"
    using Cons.IH[OF u(2) Cons.prems(2)] Cons.prems(3) by (auto simp: active_users_def)
  ultimately show ?case by (rule table_step_trans)
qed simp

definition db_ok :: "index_db \<Rightarrow> bool" where
  "db_ok db \<longleftrightarrow> table_ok (db_files db) \<and> (\<forall>s \<in> set (db_shares db). (sh_file s, sh_user s) \<in> row_ids (db_files db))"

definition db_step :: "string set \<Rightarrow> index_db \<Rightarrow> index_db \<Rightarrow> bool" where
  "db_step U db db' \<longleftrightarrow> (db_ok db \<longrightarrow> db_ok db') \<and>
     (\<forall>v. v \<notin> U \<longrightarrow> rows_of v (db_files db') = rows_of v (db_files db) \<and>
        filter (\<lambda>s. sh_user s = v) (db_shares db') = filter (\<lambda>s. sh_user s = v) (db_shares db))"

lemma db_step_refl [simp]: "db_step U db db"
  by (simp add: db_step_def)

lemma db_step_trans: "db_step U db db' \<Longrightarrow> db_step U db' db'' \<Longrightarrow> db_step U db db''"
  by (auto simp: db_step_def)

lemma on_files_step:
  assumes "\<And>rs'. m (db_files db) = Inr rs' \<Longrightarrow> table_step U (db_files db) rs'"
  shows "db_step U db (snd (on_files up m db))"
proof (cases "up \<and> (\<exists>rs'. m (db_files db) = Inr rs')")
  case True
  then obtain rs' where rs': "m (db_files db) = Inr rs'" "up" by blast
  from assms[OF rs'(1)] have "row_ids (db_files db) \<subseteq> row_ids rs'" by (simp add: table_step_def)
  then show ?thesis
    using rs' assms[OF rs'(1)] by (auto simp: on_files_def db_step_def db_ok_def table_step_def)
next
  case False
  then have "snd (on_files up m db) = db" by (cases "m (db_files db)") (auto simp: on_files_def)
  then show ?thesis by simp
qed

lemma filter_shares_other:
  assumes "\<And>r. P r \<Longrightarrow> ir_user r \<in> U" "v \<notin> U"
  shows "filter (\<lambda>s. sh_user s = v) (db_shares (delete_rows P db)) = filter (\<lambda>s. sh_user s = v) (db_shares db)"
proof -
  have "filter (\<lambda>s. sh_user s = v \<and> \<not> list_ex (\<lambda>r. sh_file s = ir_id r \<and> sh_user s = ir_user r) (filter P (db_files db)))
      (db_shares db) = filter (\<lambda>s. sh_user s = v) (db_shares db)"
    using assms by (intro filter_cong) (auto simp: list_ex_iff)
  then show ?thesis by (simp add: delete_rows_def Let_def conj_commute)
qed

lemma delete_rows_step:
  assumes "\<And>r. P r \<Longrightarrow> ir_user r \<in> U"
  shows "db_step U db (delete_rows P db)"
  unfolding db_step_def
proof (intro conjI allI impI)
  assume ok: "db_ok db"
  have "(sh_file s, sh_user s) \<in> row_ids (db_files (delete_rows P db))"
    if "s \<in> set (db_shares (delete_rows P db))" for s
  proof -
    have s: "s \<in> set (db_shares db)" "\<forall>r \<in> set (db_files db). P r \<longrightarrow> \<not> (sh_file s = ir_id r \<and> sh_user s = ir_user r)"
      using that by (auto simp: delete_rows_def Let_def list_ex_iff)
    then obtain r where "r \<in> set (db_files db)" "sh_file s = ir_id r" "sh_user s = ir_user r"
      using ok by (auto simp: db_ok_def row_ids_def)
    then show ?thesis using s(2) by (auto simp: delete_rows_def Let_def row_ids_def)
  qed
  moreover have "table_ok (db_files (delete_rows P db))"
    using ok by (simp add: db_ok_def delete_rows_def Let_def table_ok_filter)
  ultimately show "db_ok (delete_rows P db)" by (simp add: db_ok_def)
next
  fix v assume v: "v \<notin> U"
  show "rows_of v (db_files (delete_rows P db)) = rows_of v (db_files db)"
    using assms v by (intro rows_of_delete_other) blast
  show "filter (\<lambda>s. sh_user s = v) (db_shares (delete_rows P db)) = filter (\<lambda>s. sh_user s = v) (db_shares db)"
    using assms v by (rule filter_shares_other)
qed

section \<open>Operations\<close>

datatype index_op =
    AddEntry index_active
  | Upsert string int string string vfs_file_info "string option" "string option" "string option" "int option" "string option"
  | Trash int string string string
  | Restore int string string string
  | Move int string string string
  | Delete string string
  | Favorite string string int
  | Storage string string string
  | UnshareTrashed string string
  | SyncItems "index_active list"
  | SyncDirectory int string string "index_active list" nat

fun index_step :: "bool \<Rightarrow> index_op \<Rightarrow> index_db \<Rightarrow> index_db" where
  "index_step up (AddEntry a) db = snd (add_or_update_entry up a db)"
| "index_step up (Upsert uuid now u p info st be key ps pm) db =
     snd (upsert_file_with_location up uuid now u p info st be key ps pm db)"
| "index_step up (Trash now u p q) db = snd (trash_file up now u p q db)"
| "index_step up (Restore now u p q) db = snd (restore_file up now u p q db)"
| "index_step up (Move now u p q) db = snd (move_file up now u p q db)"
| "index_step up (Delete u p) db = snd (delete_file up u p db)"
| "index_step up (Favorite u p c) db = snd (set_favorite_color up u p c db)"
| "index_step up (Storage u p t) db = snd (update_storage_id up u p t db)"
| "index_step up (UnshareTrashed u i) db = snd (sync_trash_share_status up u i db)"
| "index_step up (SyncItems items) db = snd (sync_directory_items up items db)"
| "index_step up (SyncDirectory now u p items n) db = snd (sync_directory_optimized up now u p items n db)"

fun op_users :: "index_op \<Rightarrow> string set" where
  "op_users (AddEntry a) = set_option (ia_user a)"
| "op_users (Upsert uuid now u p info st be key ps pm) = {u}"
| "op_users (Trash now u p q) = {u}"
| "op_users (Restore now u p q) = {u}"
| "op_users (Move now u p q) = {u}"
| "op_users (Delete u p) = {u}"
| "op_users (Favorite u p c) = {u}"
| "op_users (Storage u p t) = {u}"
| "op_users (UnshareTrashed u i) = {u}"
| "op_users (SyncItems items) = active_users items"
| "op_users (SyncDirectory now u p items n) = insert u (active_users items)"

lemma add_or_update_step:
  assumes "ia_user a = Some u" "u \<in> U"
  shows "db_step U db (snd (add_or_update_entry up a db))"
proof (cases "ia_path a")
  case None
  then show ?thesis using assms by (simp add: add_or_update_entry_def)
next
  case (Some p)
  let ?a = "a\<lparr>ia_row_deleted := Some None, ia_trashed := Some None, ia_original := Some None\<rparr>"
  show ?thesis
  proof (cases "find (same_path u p) (db_files db)")
    case None
    show ?thesis
    proof (cases "row_of_active ?a")
      case None
      then show ?thesis using assms Some \<open>find _ _ = None\<close> by (simp add: add_or_update_entry_def Let_def)
    next
      case (Some r)
      have "ir_user r = u" using row_of_active_user[OF Some] assms(1) by simp
      then have "db_step U db (snd (on_files up (insert_row r) db))"
        using assms(2) by (intro on_files_step) (auto intro: insert_row_step)
      then show ?thesis
        using assms Some \<open>find _ _ = None\<close> \<open>ia_path a = Some p\<close>
        by (auto simp: add_or_update_entry_def Let_def split: prod.splits sum.splits)
    qed
  next
    case (Some r)
    then have "ir_user r = u" by (auto simp: find_Some_iff same_path_def)
    then have "db_step U db (snd (on_files up (update_one r (merge_active ?a)) db))"
      using assms(2) by (intro on_files_step) (auto intro: update_one_step keeps_id_rows)
    then show ?thesis
      using assms Some \<open>ia_path a = Some p\<close>
      by (auto simp: add_or_update_entry_def Let_def split: prod.splits sum.splits)
  qed
qed

lemma table_step_bind:
  assumes "res_bind m f = Inr rs'" "\<And>rs1. m = Inr rs1 \<Longrightarrow> table_step U rs rs1"
    "\<And>rs1. f rs1 = Inr rs' \<Longrightarrow> table_step U rs1 rs'"
  shows "table_step U rs rs'"
  using assms by (auto intro: table_step_trans)

lemma trash_file_step: "db_step {u} db (snd (trash_file up now u p q db))"
  unfolding trash_file_def
proof (intro on_files_step, elim table_step_bind)
  fix rs1 assume "update_many (same_path u p) (trash_top now p q) (db_files db) = Inr rs1"
  then show "table_step {u} (db_files db) rs1"
    by (rule update_many_step) (auto intro: keeps_id_rows simp: same_path_def)
next
  fix rs1 rs' assume "update_many (below u p) (trash_child now p q) rs1 = Inr rs'"
  then show "table_step {u} rs1 rs'"
    by (rule update_many_step) (auto intro: keeps_id_rows simp: below_def)
qed

lemma restore_file_step: "db_step {u} db (snd (restore_file up now u p q db))"
  unfolding restore_file_def
  by (intro on_files_step) (auto elim!: update_each_step intro: keeps_id_rows simp: same_path_def below_def)

lemma move_file_step: "db_step {u} db (snd (move_file up now u p q db))"
  unfolding move_file_def
proof (intro on_files_step, elim table_step_bind)
  fix rs1
  assume "(case find (same_path u p) (db_files db) of None \<Rightarrow> Inr (db_files db)
    | Some node \<Rightarrow> update_one node (move_top now q) (db_files db)) = Inr rs1"
  then show "table_step {u} (db_files db) rs1"
    by (auto split: option.splits simp: find_Some_iff same_path_def intro: update_one_step keeps_id_rows)
next
  fix rs1 rs'
  assume "update_each (move_child now p q) (filter (below u p) (db_files db)) rs1 = Inr rs'"
  then show "table_step {u} rs1 rs'"
    by (elim update_each_step) (auto intro: keeps_id_rows simp: below_def)
qed

lemma fold_delete_step:
  "(\<And>pre r. P pre r \<Longrightarrow> ir_user r \<in> U) \<Longrightarrow> db_step U db (fold (\<lambda>pre. delete_rows (P pre)) pres db)"
proof (induction pres arbitrary: db)
  case (Cons pre pres)
  have "db_step U db (delete_rows (P pre) db)" using Cons.prems by (rule delete_rows_step)
  then show ?case using Cons by (auto intro: db_step_trans)
qed simp

lemma delete_file_step: "db_step {u} db (snd (delete_file up u p db))"
proof (cases up)
  case True
  have "db_step {u} db (delete_rows (\<lambda>r. same_path u p r \<or> below u p r) db)"
    by (rule delete_rows_step) (auto simp: same_path_def below_def)
  then show ?thesis
    using True by (auto simp: delete_file_def Let_def intro!: fold_delete_step elim!: db_step_trans)
qed (simp add: delete_file_def)

lemma upsert_rows_append:
  "upsert_rows m (xs @ ys) rs = res_bind (upsert_rows m xs rs) (upsert_rows m ys)"
proof (induction xs arbitrary: rs)
  case (Cons a xs)
  then show ?case by (cases "upsert_row m a rs") simp_all
qed simp

lemma sync_chunks_rows:
  "sync_chunks n items rs = upsert_rows merge_chunk (map (\<lambda>a. a\<lparr>ia_row_deleted := Some None\<rparr>) items) rs"
proof (induction n items rs rule: sync_chunks.induct)
  case (1 n items rs)
  let ?f = "map (\<lambda>a. a\<lparr>ia_row_deleted := Some None\<rparr>)" and ?n = "max n 1"
  show ?case
  proof (cases "items = []")
    case True
    then show ?thesis by (simp add: sync_chunks.simps)
  next
    case False
    then have "take ?n items \<noteq> []" by simp
    then have "sync_chunks n items rs =
        res_bind (upsert_rows merge_chunk (?f (take ?n items)) rs) (upsert_rows merge_chunk (?f (drop ?n items)))"
      using 1[OF False] False
      by (subst sync_chunks.simps)
        (cases "upsert_rows merge_chunk (?f (take ?n items)) rs", simp_all add: upsert_directory_chunk_txn_def)
    also have "\<dots> = upsert_rows merge_chunk (?f (take ?n items @ drop ?n items)) rs"
      unfolding map_append upsert_rows_append ..
    finally show ?thesis by simp
  qed
qed

lemma unshare_step: "db_step {u} db (snd (sync_trash_share_status up u i db))"
proof (cases up)
  case True
  define g :: "share_row \<Rightarrow> share_row" where "g = (\<lambda>s. if sh_user s = u \<and> sh_file s = i then s\<lparr>sh_deleted := True\<rparr> else s)"
  have g: "sh_file (g s) = sh_file s" "sh_user (g s) = sh_user s" for s by (simp_all add: g_def)
  have other: "filter (\<lambda>s. sh_user s = v) (map g ss) = filter (\<lambda>s. sh_user s = v) ss" if "v \<noteq> u" for v ss
  proof (induction ss)
    case (Cons s ss)
    have "g s = s" if "sh_user s = v" using that \<open>v \<noteq> u\<close> by (simp add: g_def)
    with Cons show ?case by (simp add: g)
  qed simp
  have db: "snd (sync_trash_share_status up u i db) = db\<lparr>db_shares := map g (db_shares db)\<rparr>"
    using True by (simp add: sync_trash_share_status_def g_def)
  show ?thesis unfolding db db_step_def db_ok_def by (simp add: g other)
qed (simp add: sync_trash_share_status_def)

lemma index_step_ok: "db_step (op_users op) db (index_step up op db)"
proof (cases op)
  case (AddEntry a)
  then show ?thesis
    by (cases "ia_user a") (use add_or_update_step[of a] in \<open>auto simp: add_or_update_entry_def[of _ a]\<close>)
next
  case (SyncItems items)
  then show ?thesis
    by (auto simp: sync_directory_items_def intro!: on_files_step upsert_rows_step keeps_id_rows)
next
  case (SyncDirectory now u p items n)
  let ?U = "insert u (active_users items)"
  have a: "active_users (map (\<lambda>a. a\<lparr>ia_row_deleted := Some None\<rparr>) items) = active_users items"
    by (simp add: active_users_def image_image)
  have 1: "db_step ?U db (snd (on_files up (sync_chunks n items) db))"
    by (rule on_files_step) (auto simp: sync_chunks_rows a elim!: upsert_rows_step intro: keeps_id_rows)
  have 2: "db_step ?U db' (finish_directory_sync_txn u q t db')" for q t db'
    unfolding finish_directory_sync_txn_def by (rule delete_rows_step) simp
  from 1 2 show ?thesis
    using SyncDirectory by (auto simp: sync_directory_optimized_def Let_def intro: db_step_trans split: prod.splits sum.splits)
next
  case (UnshareTrashed u i)
  show ?thesis unfolding UnshareTrashed index_step.simps op_users.simps by (rule unshare_step)
next
  case (Upsert uuid now u p info st be key ps pm)
  show ?thesis
    unfolding Upsert index_step.simps op_users.simps upsert_file_with_location_def Let_def
    by (rule add_or_update_step) simp_all
next
  case (Trash now u p q)
  show ?thesis unfolding Trash index_step.simps op_users.simps by (rule trash_file_step)
next
  case (Restore now u p q)
  show ?thesis unfolding Restore index_step.simps op_users.simps by (rule restore_file_step)
next
  case (Move now u p q)
  show ?thesis unfolding Move index_step.simps op_users.simps by (rule move_file_step)
next
  case (Delete u p)
  show ?thesis unfolding Delete index_step.simps op_users.simps by (rule delete_file_step)
next
  case (Favorite u p c)
  show ?thesis
    unfolding Favorite index_step.simps op_users.simps set_favorite_color_def
    by (rule on_files_step, erule update_many_step) (auto simp: same_path_def intro: keeps_id_rows)
next
  case (Storage u p t)
  show ?thesis
    unfolding Storage index_step.simps op_users.simps update_storage_id_def
    by (rule on_files_step, erule update_many_step) (auto simp: same_path_def intro: keeps_id_rows)
qed

fun index_run :: "(bool \<times> index_op) list \<Rightarrow> index_db \<Rightarrow> index_db" where
  "index_run [] db = db"
| "index_run ((up, op) # ops) db = index_run ops (index_step up op db)"

lemma index_run_step:
  "(\<And>up op. (up, op) \<in> set ops \<Longrightarrow> op_users op \<subseteq> U) \<Longrightarrow> db_step U db (index_run ops db)"
proof (induction ops arbitrary: db)
  case (Cons x ops)
  obtain up op where x: "x = (up, op)" by (cases x)
  have "db_step U db (index_step up op db)"
    using index_step_ok[of op db up] Cons.prems[of up op] x unfolding db_step_def by auto
  moreover have "db_step U (index_step up op db) (index_run ops (index_step up op db))"
    by (rule Cons.IH) (use Cons.prems in auto)
  ultimately show ?case using x by (auto intro: db_step_trans)
qed simp

text \<open>
  C30: over any sequence of index operations, including those the database refuses, the primary key, the
  unique path of a user and the references of the shares hold, and a user none of the operations is
  about keeps exactly the rows and the shares it had.
\<close>

theorem index_keys_and_tenants:
  assumes "db_ok db"
  shows "db_ok (index_run ops db) \<and>
    (\<forall>v. v \<notin> \<Union> (op_users ` snd ` set ops) \<longrightarrow>
       rows_of v (db_files (index_run ops db)) = rows_of v (db_files db) \<and>
       filter (\<lambda>s. sh_user s = v) (db_shares (index_run ops db)) = filter (\<lambda>s. sh_user s = v) (db_shares db))"
proof -
  have "db_step (\<Union> (op_users ` snd ` set ops)) db (index_run ops db)"
    by (rule index_run_step) force
  then show ?thesis using assms by (auto simp: db_step_def)
qed

theorem index_keys_and_tenants_witness:
  "db_ok (index_run [(True, Move 5 ''u'' ''/a'' ''/b''), (True, Delete ''u'' ''/b'')] \<lparr>db_files = [], db_shares = []\<rparr>)"
  by (rule conjunct1[OF index_keys_and_tenants]) (simp add: db_ok_def)

section \<open>An upsert is what a lookup finds\<close>

lemma update_one_keeps:
  assumes "table_ok rs" "r \<in> set rs" "keeps_keys f"
  shows "update_one r f rs = Inr (map (\<lambda>q. if q = r then f q else q) rs)"
proof -
  have "same_id r q = (q = r)" if "q \<in> set rs" for q
    using table_ok_unique[OF assms(1) that assms(2)] by (auto simp: same_id_def same_key_def)
  then have m: "map (\<lambda>q. if same_id r q then f q else q) rs = map (\<lambda>q. if q = r then f q else q) rs" by simp
  have "list_ex (same_id r) rs" using assms(2) by (auto simp: list_ex_iff same_id_def)
  then show ?thesis
    unfolding update_one_def using update_many_keeps[OF assms(3,1), of "same_id r"] m by simp
qed

lemma find_unique:
  assumes "table_ok rs" "r \<in> set rs" "P r" "\<And>q. P q \<Longrightarrow> same_key r q"
  shows "find P rs = Some r"
proof -
  have "find P rs \<noteq> None" using assms(2,3) by (auto simp: find_None_iff)
  then obtain q where q: "find P rs = Some q" by blast
  then have "q \<in> set rs" "P q" by (auto simp: find_Some_iff)
  then have "q = r" using table_ok_unique[OF assms(1,2)] assms(4) by blast
  with q show ?thesis by simp
qed

lemma find_map_same:
  "(\<And>r. r \<in> set rs \<Longrightarrow> P (g r) = P r) \<Longrightarrow> (\<And>r. r \<in> set rs \<Longrightarrow> P r \<Longrightarrow> g r = r) \<Longrightarrow> find P (map g rs) = find P rs"
  by (induction rs) auto

lemma find_append: "find P (xs @ ys) = (case find P xs of None \<Rightarrow> find P ys | Some x \<Rightarrow> Some x)"
  by (induction xs) auto

lemma upsert_lookup:
  assumes "db_ok db" "\<forall>r \<in> set (db_files db). ir_user r = u \<longrightarrow> ir_id r \<noteq> uuid"
  shows "\<exists>r db'. upsert_file_with_location True uuid now u p info st be key ps pm db = (Inr r, db') \<and>
    get_file_metadata u (index_path p) db' = Some r \<and>
    ir_size r = sint (fi_size info) \<and> ir_name r = fi_name info \<and> ir_is_dir r = fi_is_dir info \<and>
    ir_parent r = index_parent (index_path p) \<and> ir_key r = key \<and> ir_physical_size r = ps \<and> ir_protected r = pm \<and>
    ir_trashed r = None \<and> ir_original r = None \<and>
    (case find (same_path u (index_path p)) (db_files db) of
       Some old \<Rightarrow> ir_id r = ir_id old \<and> ir_favorite r = ir_favorite old
     | None \<Rightarrow> ir_id r = uuid \<and> ir_favorite r = 0) \<and>
    (\<forall>q. q \<noteq> index_path p \<longrightarrow> get_file_metadata u q db' = get_file_metadata u q db)"
proof (cases "find (same_path u (index_path p)) (db_files db)")
  case None
  let ?p = "index_path p"
  define r where "r = \<lparr>ir_id = uuid, ir_user = u, ir_parent = index_parent ?p, ir_name = fi_name info, ir_path = ?p,
    ir_is_dir = fi_is_dir info, ir_storage = st, ir_backend = be, ir_key = key, ir_size = sint (fi_size info),
    ir_physical_size = ps, ir_etag = None, ir_protected = pm, ir_created = None, ir_modified = fi_modified info,
    ir_trashed = None, ir_row_created = now, ir_row_updated = now, ir_row_deleted = None, ir_favorite = 0,
    ir_original = None, ir_remark = None\<rparr>"
  have c: "\<not> clashes r (db_files db)"
    using None assms(2) by (auto simp: clashes_iff same_key_def r_def find_None_iff same_path_def)
  have "upsert_file_with_location True uuid now u p info st be key ps pm db = (Inr r, db\<lparr>db_files := db_files db @ [r]\<rparr>)"
    using None c by (simp add: upsert_file_with_location_def add_or_update_entry_def Let_def row_of_active_def
        null_unless_def on_files_def insert_row_def flip: r_def)
  moreover have "find (\<lambda>r. same_path u ?p r \<and> ir_row_deleted r = None) (db_files db) = None"
    using None by (auto simp: find_None_iff)
  ultimately show ?thesis
    using None by (auto simp: get_file_metadata_def find_append r_def same_path_def split: option.splits)
next
  case (Some old)
  let ?p = "index_path p"
  define f where "f r = r\<lparr>ir_parent := index_parent ?p, ir_name := fi_name info, ir_is_dir := fi_is_dir info,
    ir_storage := st, ir_backend := be, ir_key := key, ir_size := sint (fi_size info), ir_physical_size := ps,
    ir_protected := pm, ir_modified := fi_modified info, ir_row_updated := now, ir_row_deleted := None,
    ir_trashed := None, ir_original := None\<rparr>" for r :: index_row
  let ?rs = "map (\<lambda>q. if q = old then f q else q) (db_files db)"
  have ok: "table_ok (db_files db)" and old: "old \<in> set (db_files db)" "same_path u ?p old"
    using assms(1) Some by (auto simp: db_ok_def find_Some_iff)
  have k: "keeps_keys f" by (simp add: keeps_keys_def f_def)
  have m: "merge_active a = f" if "a = \<lparr>ia_id = Some uuid, ia_user = Some u, ia_parent = Some (index_parent ?p),
     ia_name = Some (fi_name info), ia_path = Some ?p, ia_is_dir = Some (fi_is_dir info), ia_storage = Some st,
     ia_backend = Some be, ia_key = Some key, ia_size = Some (sint (fi_size info)), ia_physical_size = Some ps,
     ia_etag = None, ia_protected = Some pm, ia_created = None, ia_modified = Some (fi_modified info),
     ia_trashed = Some None, ia_row_created = Some now, ia_row_updated = Some now, ia_row_deleted = Some None,
     ia_favorite = Some 0, ia_original = Some None, ia_remark = None\<rparr>" for a
    using that by (auto simp: merge_active_def set_col_def f_def)
  have "upsert_file_with_location True uuid now u p info st be key ps pm db = (Inr (f old), db\<lparr>db_files := ?rs\<rparr>)"
    using Some update_one_keeps[OF ok old(1) k]
    by (simp add: upsert_file_with_location_def add_or_update_entry_def Let_def m on_files_def)
  moreover have "table_ok ?rs" using table_ok_keeps[OF k, of "\<lambda>q. q = old"] ok by simp
  then have "find (\<lambda>r. same_path u ?p r \<and> ir_row_deleted r = None) ?rs = Some (f old)"
    by (rule find_unique) (use old in \<open>auto simp: f_def same_path_def same_key_def\<close>)
  moreover have "find (\<lambda>r. same_path u q r \<and> ir_row_deleted r = None) ?rs =
      find (\<lambda>r. same_path u q r \<and> ir_row_deleted r = None) (db_files db)" if "q \<noteq> ?p" for q
    using that old(2) by (intro find_map_same) (auto simp: same_path_def f_def)
  ultimately show ?thesis
    using Some by (auto simp: get_file_metadata_def f_def)
qed

text \<open>
  Recording a file is visible at once and only there. With a fresh identifier the upsert succeeds;
  the lookup of its path then returns a live row with the recorded size, name, kind and location, also
  when the path was trashed or marked deleted before; an existing entry keeps its identity and its
  favourite colour; and the lookup of every other path of the user returns what it did.
\<close>

theorem index_upsert_lookup:
  assumes "db_ok db" "\<forall>r \<in> set (db_files db). ir_user r = u \<longrightarrow> ir_id r \<noteq> uuid"
  shows "\<exists>r db'. upsert_file_with_location True uuid now u p info st be key ps pm db = (Inr r, db') \<and>
    get_file_metadata u (index_path p) db' = Some r \<and>
    ir_size r = sint (fi_size info) \<and> ir_name r = fi_name info \<and> ir_is_dir r = fi_is_dir info \<and>
    ir_parent r = index_parent (index_path p) \<and> ir_key r = key \<and> ir_physical_size r = ps \<and> ir_protected r = pm \<and>
    ir_trashed r = None \<and> ir_original r = None \<and>
    (case find (same_path u (index_path p)) (db_files db) of
       Some old \<Rightarrow> ir_id r = ir_id old \<and> ir_favorite r = ir_favorite old
     | None \<Rightarrow> ir_id r = uuid \<and> ir_favorite r = 0) \<and>
    (\<forall>q. q \<noteq> index_path p \<longrightarrow> get_file_metadata u q db' = get_file_metadata u q db)"
  by (rule upsert_lookup[OF assms])

text \<open>A row and a table the witnesses use.\<close>

definition fx_row :: "string \<Rightarrow> string \<Rightarrow> string \<Rightarrow> index_row" where
  "fx_row i parent name =
     \<lparr>ir_id = i, ir_user = ''u'', ir_parent = parent, ir_name = name,
      ir_path = (if parent = ''/'' then ''/'' @ name else parent @ ''/'' @ name), ir_is_dir = False,
      ir_storage = None, ir_backend = None, ir_key = None, ir_size = 7, ir_physical_size = None, ir_etag = None,
      ir_protected = None, ir_created = None, ir_modified = None, ir_trashed = None, ir_row_created = 1,
      ir_row_updated = 1, ir_row_deleted = None, ir_favorite = 3, ir_original = None, ir_remark = None\<rparr>"

definition fx_db :: index_db where
  "fx_db = \<lparr>db_files = [fx_row ''1'' ''/'' ''a'', fx_row ''2'' ''/a'' ''b'', fx_row ''3'' ''/'' ''ab''], db_shares = []\<rparr>"

definition fx_info :: vfs_file_info where
  "fx_info = \<lparr>fi_name = ''b'', fi_path = ''/a/b'', fi_is_dir = False, fi_size = 9, fi_modified = Some 4,
     fi_favorite_color = 0, fi_has_active_share = None, fi_has_active_direct = None, fi_trashed_at = None,
     fi_original_path = None\<rparr>"

lemma fx_ok: "db_ok fx_db"
  by (simp add: db_ok_def fx_db_def fx_row_def clashes_def same_key_def)

theorem index_upsert_lookup_witness:
  "\<exists>r db'. upsert_file_with_location True ''9'' 5 ''u'' ''/a/b/'' fx_info None None None None None fx_db = (Inr r, db') \<and>
     get_file_metadata ''u'' ''/a/b'' db' = Some r \<and> ir_size r = 9 \<and> ir_favorite r = 3"
proof -
  have p: "index_path ''/a/b/'' = ''/a/b''" by (simp add: index_path_def trim_end_matches_def)
  have f: "find (same_path ''u'' ''/a/b'') (db_files fx_db) = Some (fx_row ''2'' ''/a'' ''b'')"
    by (simp add: fx_db_def fx_row_def same_path_def)
  have "\<forall>r \<in> set (db_files fx_db). ir_user r = ''u'' \<longrightarrow> ir_id r \<noteq> ''9''" by (simp add: fx_db_def fx_row_def)
  from index_upsert_lookup[OF fx_ok this, where now = 5 and p = "''/a/b/''" and info = fx_info
      and st = None and be = None and key = None and ps = None and pm = None]
  show ?thesis unfolding p f by (auto simp: fx_row_def fx_info_def)
qed

section \<open>Moving a subtree\<close>

text \<open>\<open>update_each\<close> writes every row once when no new key is in use.\<close>

lemma update_one_fresh:
  assumes "table_ok rs" "r \<in> set rs" "keeps_id f" "\<And>q. q \<in> set rs \<Longrightarrow> q \<noteq> r \<Longrightarrow> ir_user q = ir_user r \<Longrightarrow> ir_path q \<noteq> ir_path (f r)"
  shows "update_one r f rs = Inr (map (\<lambda>q. if q = r then f r else q) rs) \<and>
    table_ok (map (\<lambda>q. if q = r then f r else q) rs)"
proof -
  have id: "same_id r q = (q = r)" if "q \<in> set rs" for q
    using table_ok_unique[OF assms(1) that assms(2)] by (auto simp: same_id_def same_key_def)
  have key: "\<not> same_key (f r) q" if "q \<in> set rs" "q \<noteq> r" for q
    using that assms(3) assms(4)[OF that] id[OF that(1)] by (auto simp: same_key_def keeps_id_def same_id_def)
  have ok: "table_ok (map (\<lambda>q. if q = r then f r else q) xs)" if "table_ok xs" "set xs \<subseteq> set rs" for xs
    using that
  proof (induction xs)
    case (Cons a xs)
    have "\<not> same_key (if a = r then f r else a) (if q = r then f r else q)" if "q \<in> set xs" for q
    proof -
      have "\<not> same_key a q" "a \<in> set rs" "q \<in> set rs" using Cons.prems that by (auto simp: clashes_iff)
      moreover have "a \<noteq> q" using \<open>\<not> same_key a q\<close> by (auto simp: same_key_def)
      ultimately show ?thesis using key[of a] key[of q] by (auto simp: same_key_sym)
    qed
    then have "\<not> clashes (if a = r then f r else a) (map (\<lambda>q. if q = r then f r else q) xs)"
      unfolding clashes_iff set_map by blast
    then show ?case using Cons by simp
  qed simp
  note ok = ok[OF assms(1) order_refl]
  have m: "map (\<lambda>q. if same_id r q then f q else q) rs = map (\<lambda>q. if q = r then f r else q) rs"
    using id by (intro map_cong) auto
  have "update_many (same_id r) f rs = Inr (map (\<lambda>q. if same_id r q then f q else q) rs)"
    using assms(1) ok key id by (intro update_many_fresh) (auto simp: m)
  moreover have "list_ex (same_id r) rs" using assms(2) by (auto simp: list_ex_iff same_id_def)
  ultimately show ?thesis using ok m by (simp add: update_one_def)
qed

lemma update_each_fresh:
  assumes "table_ok rs" "distinct todo" "set todo \<subseteq> set rs" "\<And>r. keeps_id (g r)"
    and "\<And>r q. r \<in> set todo \<Longrightarrow> q \<in> set rs \<Longrightarrow> ir_user q = ir_user r \<Longrightarrow> ir_path q \<noteq> ir_path (g r r)"
    and "\<And>r q. r \<in> set todo \<Longrightarrow> q \<in> set todo \<Longrightarrow> q \<noteq> r \<Longrightarrow> ir_path (g q q) \<noteq> ir_path (g r r)"
  shows "update_each g todo rs = Inr (map (\<lambda>q. if q \<in> set todo then g q q else q) rs)"
  using assms
proof (induction todo arbitrary: rs)
  case (Cons r todo)
  let ?rs1 = "map (\<lambda>q. if q = r then g r r else q) rs"
  have u: "update_one r (g r) rs = Inr ?rs1" "table_ok ?rs1"
    using update_one_fresh[of rs r "g r"] Cons.prems by auto
  have r: "r \<in> set rs" "r \<notin> set todo" using Cons.prems by auto
  have "update_each g todo ?rs1 = Inr (map (\<lambda>q. if q \<in> set todo then g q q else q) ?rs1)"
  proof (rule Cons.IH[OF u(2)])
    show "distinct todo" "\<And>r. keeps_id (g r)" using Cons.prems by auto
    show "set todo \<subseteq> set ?rs1" using Cons.prems r by auto
    fix a q assume a: "a \<in> set todo"
    show "q \<in> set todo \<Longrightarrow> q \<noteq> a \<Longrightarrow> ir_path (g q q) \<noteq> ir_path (g a a)" using Cons.prems(6) a by auto
    assume "q \<in> set ?rs1" "ir_user q = ir_user a"
    then show "ir_path q \<noteq> ir_path (g a a)"
      using Cons.prems(5)[of a] Cons.prems(6)[of a r] a r by auto
  qed
  moreover have "g r r \<notin> set todo"
    using Cons.prems(3) Cons.prems(5)[of r "g r r"] Cons.prems(4) by (auto simp: keeps_id_def)
  then have "map (\<lambda>q. if q \<in> set todo then g q q else q) ?rs1 = map (\<lambda>q. if q \<in> set (r # todo) then g q q else q) rs"
    using r by auto
  ultimately show ?case using u by simp
qed simp

text \<open>The rows of a subtree, and the relocation the move is meant to be.\<close>

definition in_subtree :: "string \<Rightarrow> string \<Rightarrow> index_row \<Rightarrow> bool" where
  "in_subtree u p r \<longleftrightarrow> ir_user r = u \<and> (ir_path r = p \<or> starts_with (ir_path r) (p @ ''/''))"

definition no_rows_at :: "string \<Rightarrow> string \<Rightarrow> index_row list \<Rightarrow> bool" where
  "no_rows_at u p rs \<longleftrightarrow> (\<forall>r \<in> set rs. \<not> in_subtree u p r)"

definition relocate :: "string \<Rightarrow> int \<Rightarrow> string \<Rightarrow> string \<Rightarrow> index_row \<Rightarrow> index_row" where
  "relocate u now src dst r =
     (if \<not> in_subtree u src r then r
      else (let p = dst @ drop (length src) (ir_path r); keep = starts_with dst ''/.recycle_bin'' in
            r\<lparr>ir_path := p, ir_name := (if ir_path r = src then last_name dst else ir_name r),
              ir_parent := child_parent p, ir_row_updated := now,
              ir_trashed := (if keep then ir_trashed r else None),
              ir_original := (if keep then ir_original r else None)\<rparr>))"

text \<open>
  The pattern of a directory hits, among the paths of the rows, what lies below it and nothing else: no wildcard in
  the directory, and no path below a directory that differs in the case of its letters only.
\<close>

definition like_exact :: "string \<Rightarrow> string \<Rightarrow> index_row list \<Rightarrow> bool" where
  "like_exact u p rs \<longleftrightarrow> like_free p \<and>
     (\<forall>r \<in> set rs. ir_user r = u \<and> starts_with (to_ascii_lowercase (ir_path r)) (to_ascii_lowercase (p @ ''/'')) \<longrightarrow>
        starts_with (ir_path r) (p @ ''/''))"

lemma below_folds:
  "like_free p \<Longrightarrow> below u p r \<longleftrightarrow>
   ir_user r = u \<and> starts_with (to_ascii_lowercase (ir_path r)) (to_ascii_lowercase (p @ ''/''))"
  using sql_like_prefix[of "p @ ''/''"] by (auto simp: below_def like_prefix_def like_free_def)

lemma below_iff:
  "like_exact u p rs \<Longrightarrow> r \<in> set rs \<Longrightarrow> below u p r \<longleftrightarrow> ir_user r = u \<and> starts_with (ir_path r) (p @ ''/'')"
  using lowercase_prefix[of "p @ ''/''" "ir_path r"] by (auto simp: like_exact_def below_folds)

lemma in_subtree_iff:
  "like_exact u p rs \<Longrightarrow> r \<in> set rs \<Longrightarrow> in_subtree u p r \<longleftrightarrow> same_path u p r \<or> below u p r"
  by (auto simp: in_subtree_def below_iff same_path_def)

lemma below_not_same: "like_free p \<Longrightarrow> below u p r \<Longrightarrow> \<not> same_path u p r"
  by (auto simp: below_folds same_path_def dest: prefix_length_le)

lemma below_path:
  "like_exact u p rs \<Longrightarrow> r \<in> set rs \<Longrightarrow> below u p r \<Longrightarrow> \<exists>x. ir_path r = p @ slash # x \<and> ir_user r = u"
  by (auto simp: below_iff prefix_def)

lemma same_path_unique:
  "table_ok rs \<Longrightarrow> r \<in> set rs \<Longrightarrow> q \<in> set rs \<Longrightarrow> ir_user r = ir_user q \<Longrightarrow> ir_path r = ir_path q \<Longrightarrow> r = q"
  using table_ok_unique by (auto simp: same_key_def)

text \<open>Moving the top node first.\<close>

lemma update_top:
  assumes ok: "table_ok rs" and free: "no_rows_at u dst rs" and f: "keeps_id f" "\<And>r. ir_path (f r) = dst"
  shows "\<exists>rs1. (case find (same_path u p) rs of Some node \<Rightarrow> update_one node f rs | None \<Rightarrow> Inr rs) = Inr rs1 \<and>
    rs1 = map (\<lambda>q. if same_path u p q then f q else q) rs \<and> table_ok rs1"
proof (cases "find (same_path u p) rs")
  case None
  then have "map (\<lambda>q. if same_path u p q then f q else q) rs = rs"
    by (intro map_idI) (auto simp: find_None_iff)
  then show ?thesis using None ok by simp
next
  case (Some t)
  then have t: "t \<in> set rs" "same_path u p t" by (auto simp: find_Some_iff)
  have "same_path u p q = (q = t)" if "q \<in> set rs" for q
    using same_path_unique[OF ok that t(1)] t by (auto simp: same_path_def)
  then have "map (\<lambda>q. if same_path u p q then f q else q) rs = map (\<lambda>q. if q = t then f t else q) rs"
    by (intro map_cong) auto
  moreover have "ir_path q \<noteq> ir_path (f t)" if "q \<in> set rs" "q \<noteq> t" "ir_user q = ir_user t" for q
    using free that t(2) f(2) by (auto simp: no_rows_at_def in_subtree_def same_path_def)
  ultimately show ?thesis using Some update_one_fresh[OF ok t(1) f(1)] by auto
qed

text \<open>
  C31: Moving relocates exactly the subtree. In a well-formed index, when nothing of the user is at or below the destination, the source has
  no \<open>LIKE\<close> wildcard and no path lies below a directory that differs from the source in the case of its letters
  only, the move succeeds and is the relocation of every row at or below the source, by its path relative to it, in
  one step; every other row stays as it is.
\<close>

theorem index_move_relocates:
  assumes "db_ok db" "like_exact u src (db_files db)" "no_rows_at u dst (db_files db)"
  shows "move_file True now u src dst db = (Inr (), db\<lparr>db_files := map (relocate u now src dst) (db_files db)\<rparr>)"
proof -
  let ?rs = "db_files db" and ?todo = "filter (below u src) (db_files db)"
  have ok: "table_ok ?rs" using assms(1) by (simp add: db_ok_def)
  have g: "ir_path (move_top now dst r) = dst" "ir_path (move_child now src dst r r) = dst @ drop (length src) (ir_path r)" for r
    by (simp_all add: move_top_def move_child_def moved_flags_def Let_def)
  from update_top[OF ok assms(3) keeps_id_rows(5) g(1), of src]
  obtain rs1 where first: "(case find (same_path u src) ?rs of Some node \<Rightarrow> update_one node (move_top now dst) ?rs | None \<Rightarrow> Inr ?rs) = Inr rs1"
    and rs1: "rs1 = map (\<lambda>q. if same_path u src q then move_top now dst q else q) ?rs" "table_ok rs1" by blast
  have todo: "\<not> same_path u src r \<and> (\<exists>x. ir_path r = src @ slash # x \<and> ir_user r = u)" "r \<in> set ?rs"
    if "r \<in> set ?todo" for r
    using that below_not_same[of src] below_path[OF assms(2)] assms(2) by (auto simp: like_exact_def)
  have "update_each (move_child now src dst) ?todo rs1 =
      Inr (map (\<lambda>q. if q \<in> set ?todo then move_child now src dst q q else q) rs1)"
  proof (rule update_each_fresh[OF rs1(2)])
    show "distinct ?todo" using table_ok_distinct[OF ok] by simp
    show "set ?todo \<subseteq> set rs1" using todo(1) rs1(1) by force
    show "keeps_id (move_child now src dst r)" for r by (rule keeps_id_rows)
  next
    fix r q assume r: "r \<in> set ?todo" and q: "q \<in> set rs1" "ir_user q = ir_user r"
    obtain x where x: "ir_path r = src @ slash # x" "ir_user r = u" using todo(1)[OF r] by blast
    show "ir_path q \<noteq> ir_path (move_child now src dst r r)"
      using q x assms(3) rs1(1) by (auto simp: g no_rows_at_def in_subtree_def split: if_splits)
  next
    fix r q assume rq: "r \<in> set ?todo" "q \<in> set ?todo" "q \<noteq> r"
    obtain x y where "ir_path r = src @ slash # x" "ir_path q = src @ slash # y" "ir_user q = ir_user r"
      using todo(1)[OF rq(1)] todo(1)[OF rq(2)] by metis
    moreover have "ir_path q \<noteq> ir_path r"
      using same_path_unique[OF ok todo(2)[OF rq(2)] todo(2)[OF rq(1)]] calculation(3) rq(3) by blast
    ultimately show "ir_path (move_child now src dst q q) \<noteq> ir_path (move_child now src dst r r)"
      by (simp add: g)
  qed
  moreover have "map (\<lambda>q. if q \<in> set ?todo then move_child now src dst q q else q) rs1 = map (relocate u now src dst) ?rs"
    unfolding rs1(1) list.map_comp
  proof (intro map_cong refl)
    fix r assume r: "r \<in> set ?rs"
    have top: "move_top now dst r \<notin> set ?todo" if "same_path u src r"
    proof
      assume t: "move_top now dst r \<in> set ?todo"
      then have "in_subtree u dst (move_top now dst r)" using todo(1)[OF t] by (auto simp: in_subtree_def g)
      then show False using todo(2)[OF t] assms(3) by (auto simp: no_rows_at_def)
    qed
    have sub: "in_subtree u src r \<longleftrightarrow> same_path u src r \<or> r \<in> set ?todo"
      using r in_subtree_iff[OF assms(2) r] by simp
    show "((\<lambda>q. if q \<in> set ?todo then move_child now src dst q q else q) \<circ>
        (\<lambda>q. if same_path u src q then move_top now dst q else q)) r = relocate u now src dst r"
    proof (cases "same_path u src r")
      case True
      then have "relocate u now src dst r = move_top now dst r"
        using sub by (simp add: relocate_def Let_def move_top_def moved_flags_def same_path_def)
      then show ?thesis using True top by auto
    next
      case False
      show ?thesis
      proof (cases "r \<in> set ?todo")
        case True
        then have "ir_path r \<noteq> src" using todo(1)[of r] by auto
        then have "relocate u now src dst r = move_child now src dst r r"
          using sub True by (simp add: relocate_def Let_def move_child_def moved_flags_def)
        then show ?thesis using True False by simp
      next
        case b: False
        then have "relocate u now src dst r = r" using sub False by (simp add: relocate_def)
        then show ?thesis using b False by auto
      qed
    qed
  qed
  ultimately show ?thesis using first by (simp add: move_file_def on_files_def)
qed

theorem index_move_relocates_witness:
  "map ir_path (db_files (snd (move_file True 5 ''u'' ''/a'' ''/c'' fx_db))) = [''/c'', ''/c/b'', ''/ab'']"
proof -
  have "like_exact ''u'' ''/a'' (db_files fx_db)" "no_rows_at ''u'' ''/c'' (db_files fx_db)"
    by (simp_all add: like_exact_def to_ascii_lowercase_def lower_char_def like_free_def no_rows_at_def fx_db_def fx_row_def in_subtree_def)
  from index_move_relocates[OF fx_ok this, of 5]
  show ?thesis by (simp add: fx_db_def fx_row_def relocate_def in_subtree_def Let_def)
qed

section \<open>Trash and restore\<close>















section \<open>Synchronising a directory\<close>

lemma upsert_row_cases:
  assumes "upsert_row merge_chunk a rs = Inr rs'" "row_of_active a = Some x"
  shows "(\<exists>r \<in> set rs'. same_path (ir_user x) (ir_path x) r) \<and>
    (\<forall>r \<in> set rs'. if same_path (ir_user x) (ir_path x) r
       then ir_parent r = ir_parent x \<and> ir_row_updated r = ir_row_updated x \<and> ir_row_deleted r = ir_row_deleted x
       else r \<in> set rs) \<and>
    (\<forall>r \<in> set rs. same_path (ir_user x) (ir_path x) r \<or> r \<in> set rs')"
proof (cases "list_ex (same_path (ir_user x) (ir_path x)) rs")
  case True
  let ?P = "same_path (ir_user x) (ir_path x)"
  have rs': "rs' = map (\<lambda>r. if ?P r then merge_chunk r x else r) rs"
    using assms True by (auto simp: upsert_row_def dest: update_many_map)
  have "?P (merge_chunk r x)" if "?P r" for r using that by (simp add: same_path_def merge_chunk_def)
  then show ?thesis
    using True unfolding rs' by (fastforce simp: list_ex_iff merge_chunk_def)
next
  case False
  then have "rs' = rs @ [x]" using assms by (auto simp: upsert_row_def insert_row_def split: if_splits)
  then show ?thesis using False by (auto simp: list_ex_iff same_path_def)
qed

definition fresh_item :: "string \<Rightarrow> string \<Rightarrow> int \<Rightarrow> index_active \<Rightarrow> bool" where
  "fresh_item u parent t a \<longleftrightarrow> ia_user a = Some u \<and> ia_parent a = Some parent \<and>
     (\<exists>x. row_of_active a = Some x \<and> t \<le> ir_row_updated x)"

lemma row_of_active_fields:
  "row_of_active a = Some x \<Longrightarrow> ia_path a = Some (ir_path x) \<and> ia_parent a = Some (ir_parent x) \<and>
     ia_user a = Some (ir_user x) \<and> ia_row_updated a = Some (ir_row_updated x)"
  by (auto simp: row_of_active_def split: option.splits prod.splits)

lemma row_of_active_live: "row_of_active (a\<lparr>ia_row_deleted := Some None\<rparr>) =
    map_option (\<lambda>x. x\<lparr>ir_row_deleted := None\<rparr>) (row_of_active a)"
  by (simp add: row_of_active_def null_unless_def split: option.split)

lemma upsert_chunk_rows:
  assumes "upsert_rows merge_chunk (map (\<lambda>a. a\<lparr>ia_row_deleted := Some None\<rparr>) items) rs = Inr rs'"
    and "\<forall>a \<in> set items. fresh_item u parent t a"
  shows "(\<forall>p \<in> the ` ia_path ` set items. \<exists>r \<in> set rs'. same_path u p r) \<and>
    (\<forall>r \<in> set rs'. if ir_user r = u \<and> ir_path r \<in> the ` ia_path ` set items
       then ir_parent r = parent \<and> t \<le> ir_row_updated r \<and> ir_row_deleted r = None else r \<in> set rs) \<and>
    (\<forall>r \<in> set rs. (ir_user r = u \<and> ir_path r \<in> the ` ia_path ` set items) \<or> r \<in> set rs')"
  using assms
proof (induction items arbitrary: rs)
  case (Cons a items)
  obtain x where x: "row_of_active a = Some x" "t \<le> ir_row_updated x" using Cons.prems(2) by (auto simp: fresh_item_def)
  then have f: "ir_user x = u" "ir_parent x = parent" "ia_path a = Some (ir_path x)"
    using row_of_active_fields[OF x(1)] Cons.prems(2) by (auto simp: fresh_item_def)
  obtain rs1 where rs1: "upsert_row merge_chunk (a\<lparr>ia_row_deleted := Some None\<rparr>) rs = Inr rs1"
    "upsert_rows merge_chunk (map (\<lambda>a. a\<lparr>ia_row_deleted := Some None\<rparr>) items) rs1 = Inr rs'"
    using Cons.prems(1) by auto
  have "row_of_active (a\<lparr>ia_row_deleted := Some None\<rparr>) = Some (x\<lparr>ir_row_deleted := None\<rparr>)"
    using x(1) by (simp add: row_of_active_live)
  from upsert_row_cases[OF rs1(1) this] have one: "\<exists>r \<in> set rs1. same_path u (ir_path x) r"
    "\<And>r. r \<in> set rs1 \<Longrightarrow> if same_path u (ir_path x) r
       then ir_parent r = parent \<and> ir_row_updated r = ir_row_updated x \<and> ir_row_deleted r = None else r \<in> set rs"
    "\<And>r. r \<in> set rs \<Longrightarrow> same_path u (ir_path x) r \<or> r \<in> set rs1" using f by simp_all
  have "\<forall>a \<in> set items. fresh_item u parent t a" using Cons.prems(2) by simp
  note rest = Cons.IH[OF rs1(2) this]
  let ?I = "the ` ia_path ` set items"
  show ?case
  proof (intro conjI ballI)
    fix p assume p: "p \<in> the ` ia_path ` set (a # items)"
    show "\<exists>r \<in> set rs'. same_path u p r"
    proof (cases "p \<in> ?I")
      case False
      then have "p = ir_path x" using p f(3) by auto
      then obtain r where "r \<in> set rs1" "same_path u p r" using one by auto
      then show ?thesis using rest False by (auto simp: same_path_def)
    qed (use rest in blast)
  next
    fix r assume r: "r \<in> set rs'"
    show "if ir_user r = u \<and> ir_path r \<in> the ` ia_path ` set (a # items)
       then ir_parent r = parent \<and> t \<le> ir_row_updated r \<and> ir_row_deleted r = None else r \<in> set rs"
    proof (cases "ir_user r = u \<and> ir_path r \<in> ?I")
      case False
      then have "r \<in> set rs1" using rest r by auto
      then have "if same_path u (ir_path x) r then ir_parent r = parent \<and> ir_row_updated r = ir_row_updated x \<and> ir_row_deleted r = None
          else r \<in> set rs" by (rule one(2))
      then show ?thesis using False x(2) f(3) by (auto simp: same_path_def split: if_splits)
    qed (use rest r in auto)
  next
    fix r assume "r \<in> set rs"
    then have "same_path u (ir_path x) r \<or> r \<in> set rs1" by (rule one(3))
    then show "(ir_user r = u \<and> ir_path r \<in> the ` ia_path ` set (a # items)) \<or> r \<in> set rs'"
      using rest f(3) by (auto simp: same_path_def)
  qed
qed simp

text \<open>
  C33: A directory sync makes the index of the directory exactly the listing. Let each item be a complete row that
  names the user, the directory and an update time that is not before the start of the sync, let no two items
  have the same path, and let no row of the directory carry an update time since the start. Then, when the sync
  succeeds, the paths of the rows of the directory are those of the listed items, whatever was there before, and
  none of these rows is marked deleted (a time of trashing in an existing row is kept); rows of other users and of
  other directories stay, unless an item names their path; and the result does not depend on the size of the
  chunks, the limits of the database on the length of a statement aside.
\<close>

theorem directory_sync_exact:
  assumes "\<forall>a \<in> set items. fresh_item u (index_path d) (now - 1) a"
    and "\<forall>r \<in> set (db_files db). ir_user r = u \<and> ir_parent r = index_path d \<longrightarrow> ir_row_updated r < now - 1"
    and "sync_directory_optimized up now u d items n db = (Inr (), db')"
    and "distinct (map ia_path items)"
  shows "ir_path ` {r \<in> set (db_files db'). ir_user r = u \<and> ir_parent r = index_path d} = the ` ia_path ` set items \<and>
    (\<forall>r \<in> set (db_files db'). ir_user r = u \<and> ir_parent r = index_path d \<longrightarrow> ir_row_deleted r = None) \<and>
    (\<forall>r. \<not> (ir_user r = u \<and> (ir_parent r = index_path d \<or> ir_path r \<in> the ` ia_path ` set items)) \<longrightarrow>
       r \<in> set (db_files db') \<longleftrightarrow> r \<in> set (db_files db)) \<and>
    sync_directory_optimized up now u d items m db = (Inr (), db')"
proof -
  let ?I = "the ` ia_path ` set items"
  have up: "up" using assms(3) by (auto simp: sync_directory_optimized_def on_files_def Let_def split: if_splits)
  obtain rs' where rs': "sync_chunks n items (db_files db) = Inr rs'"
    and db': "db' = finish_directory_sync_txn u (index_path d) (now - 1) (db\<lparr>db_files := rs'\<rparr>)"
    using assms(3) up
    by (auto simp: sync_directory_optimized_def on_files_def Let_def begin_directory_sync_txn_def split: sum.splits)
  from upsert_chunk_rows[OF rs'[unfolded sync_chunks_rows] assms(1)]
  have E1: "\<And>p. p \<in> ?I \<Longrightarrow> \<exists>r \<in> set rs'. same_path u p r"
    and E2: "\<And>r. r \<in> set rs' \<Longrightarrow> if ir_user r = u \<and> ir_path r \<in> ?I
       then ir_parent r = index_path d \<and> now - 1 \<le> ir_row_updated r \<and> ir_row_deleted r = None else r \<in> set (db_files db)"
    and E3: "\<And>r. r \<in> set (db_files db) \<Longrightarrow> (ir_user r = u \<and> ir_path r \<in> ?I) \<or> r \<in> set rs'" by blast+
  have mem: "r \<in> set (db_files db') \<longleftrightarrow> r \<in> set rs' \<and> \<not> (ir_user r = u \<and> ir_parent r = index_path d \<and> ir_row_updated r < now - 1)" for r
    by (auto simp: db' finish_directory_sync_txn_def delete_rows_def Let_def)
  have dir: "ir_path r \<in> ?I \<and> ir_row_deleted r = None"
    if "r \<in> set (db_files db')" "ir_user r = u" "ir_parent r = index_path d" for r
    using that E2[of r] assms(2) unfolding mem by (auto split: if_splits)
  have listed: "p \<in> ir_path ` {r \<in> set (db_files db'). ir_user r = u \<and> ir_parent r = index_path d}" if p: "p \<in> ?I" for p
  proof -
    obtain r where r: "r \<in> set rs'" "same_path u p r" using E1[OF p] by blast
    then have "ir_parent r = index_path d \<and> now - 1 \<le> ir_row_updated r" using E2[of r] p by (auto simp: same_path_def)
    then show ?thesis using r by (auto simp: mem same_path_def)
  qed
  have other: "r \<in> set (db_files db') \<longleftrightarrow> r \<in> set (db_files db)"
    if "\<not> (ir_user r = u \<and> (ir_parent r = index_path d \<or> ir_path r \<in> ?I))" for r
  proof -
    have n: "\<not> (ir_user r = u \<and> ir_path r \<in> ?I)" "\<not> (ir_user r = u \<and> ir_parent r = index_path d)" using that by auto
    then have "r \<in> set (db_files db') \<longleftrightarrow> r \<in> set rs'" by (auto simp: mem)
    moreover have "r \<in> set rs' \<longrightarrow> r \<in> set (db_files db)" using E2[of r] n(1) by auto
    moreover have "r \<in> set (db_files db) \<longrightarrow> r \<in> set rs'" using E3[of r] n(1) by auto
    ultimately show ?thesis by blast
  qed
  have "sync_directory_optimized up now u d items m db = sync_directory_optimized up now u d items n db"
    by (simp add: sync_directory_optimized_def sync_chunks_rows on_files_def)
  then have "sync_directory_optimized up now u d items m db = (Inr (), db')" using assms(3) by simp
  moreover have "ir_path ` {r \<in> set (db_files db'). ir_user r = u \<and> ir_parent r = index_path d} = ?I"
    using dir listed by auto
  moreover have "\<forall>r \<in> set (db_files db'). ir_user r = u \<and> ir_parent r = index_path d \<longrightarrow> ir_row_deleted r = None"
    using dir by simp
  moreover have "\<forall>r. \<not> (ir_user r = u \<and> (ir_parent r = index_path d \<or> ir_path r \<in> ?I)) \<longrightarrow>
      r \<in> set (db_files db') \<longleftrightarrow> r \<in> set (db_files db)"
    using other by (intro allI impI)
  ultimately show ?thesis by (intro conjI)
qed

definition fx_item :: "string \<Rightarrow> index_active" where
  "fx_item name =
     \<lparr>ia_id = Some (''n'' @ name), ia_user = Some ''u'', ia_parent = Some ''/a'', ia_name = Some name,
      ia_path = Some (''/a/'' @ name), ia_is_dir = Some False, ia_storage = None, ia_backend = None, ia_key = None,
      ia_size = Some 2, ia_physical_size = None, ia_etag = None, ia_protected = None, ia_created = None,
      ia_modified = None, ia_trashed = None, ia_row_created = Some 9, ia_row_updated = Some 9,
      ia_row_deleted = None, ia_favorite = Some 0, ia_original = None, ia_remark = None\<rparr>"

theorem directory_sync_exact_witness:
  "\<exists>db'. sync_directory_optimized True 9 ''u'' ''/a/'' [fx_item ''c'', fx_item ''d''] 1 fx_db = (Inr (), db') \<and>
     ir_path ` {r \<in> set (db_files db'). ir_user r = ''u'' \<and> ir_parent r = ''/a''} = {''/a/c'', ''/a/d''}"
proof -
  let ?items = "[fx_item ''c'', fx_item ''d'']"
  have d: "index_path ''/a/'' = ''/a''" by (simp add: index_path_def trim_end_matches_def)
  have i: "\<forall>a \<in> set ?items. fresh_item ''u'' (index_path ''/a/'') (9 - 1) a"
    by (simp add: d fresh_item_def fx_item_def row_of_active_def)
  have o: "\<forall>r \<in> set (db_files fx_db). ir_user r = ''u'' \<and> ir_parent r = index_path ''/a/'' \<longrightarrow> ir_row_updated r < 9 - 1"
    by (simp add: d fx_db_def fx_row_def)
  obtain db' where db': "sync_directory_optimized True 9 ''u'' ''/a/'' ?items 1 fx_db = (Inr (), db')"
    by (simp add: sync_directory_optimized_def sync_chunks_rows on_files_def upsert_row_def row_of_active_def fx_item_def
        null_unless_def fx_db_def fx_row_def insert_row_def clashes_def same_key_def same_path_def Let_def)
  show ?thesis
    using db' directory_sync_exact[OF i o db'] by (auto simp: d fx_item_def)
qed

end
