(* ===== verification/File_Query.thy ===== *)
theory File_Query
  imports File_Index "HOL-Library.List_Lexorder" "HOL-Library.Char_ord" "HOL-Library.Option_ord" "HOL-Library.Multiset"
begin

text \<open>
  The queries of \<open>FileIndexService\<close>: listings, searches, favourites and the recycle bin, as streams of
  pages and as numbered pages with a total. \<open>ORDER BY\<close> sorts stably, \<open>NULL\<close> sorts before every value (as
  SQLite does), and text compares by bytes. A failing database ends every query with its error and is
  not modelled here. The numbers of a page are \<open>i64\<close> in the request and \<open>u64\<close> in the statement; the
  arithmetic wraps as in a release build.
\<close>

section \<open>Ordering and paging\<close>

definition order_asc :: "('a \<Rightarrow> 'k::linorder) \<Rightarrow> 'a list \<Rightarrow> 'a list" where
  "order_asc f rs = sort_key f rs"

definition order_desc :: "('a \<Rightarrow> 'k::linorder) \<Rightarrow> 'a list \<Rightarrow> 'a list" where
  "order_desc f rs = rev (sort_key f (rev rs))"

definition as_u64 :: "int \<Rightarrow> u64" where
  "as_u64 x = word_of_int x"

definition sql_page :: "u64 \<Rightarrow> u64 \<Rightarrow> 'a list \<Rightarrow> 'a list" where
  "sql_page limit offset rs = take (unat limit) (drop (unat offset) rs)"

text \<open>The \<open>unfold\<close> behind every stream: page after page until one is not full.\<close>

function stream_pages :: "nat \<Rightarrow> nat \<Rightarrow> 'a list \<Rightarrow> 'a list" where
  "stream_pages ps page rs =
     (let items = take (max ps 1) (drop ((page - 1) * max ps 1) rs) in
      if length items = max ps 1 then items @ stream_pages ps (page + 1) rs else items)"
  by pat_completeness auto
termination
proof (relation "measure (\<lambda>(ps, page, rs). length rs + 1 - page)", goal_cases)
  case (2 ps page rs items)
  let ?n = "max ps 1"
  have "?n \<le> length rs - (page - 1) * ?n" using 2 by auto
  moreover have "(page - 1) * 1 \<le> (page - 1) * ?n" by (intro mult_le_mono) auto
  ultimately have "page \<le> length rs" by linarith
  then show ?case by simp
qed simp

declare stream_pages.simps [simp del]

record page_params =
  pp_page :: int
  pp_page_size :: int
  pp_sort_by :: "string option"
  pp_order :: "string option"
  pp_keyword :: "string option"

definition page_offset :: "int \<Rightarrow> int \<Rightarrow> int" where
  "page_offset page page_size = wrap_i64 (wrap_i64 (page - 1) * page_size)"

definition like_contains :: "string \<Rightarrow> string \<Rightarrow> bool" where
  "like_contains kw s = sql_like (''%'' @ kw @ ''%'') s"

text \<open>The pages with a look-ahead row: one row more than asked for tells whether there are more.\<close>

definition peek_page :: "int \<Rightarrow> int \<Rightarrow> int \<Rightarrow> 'a list \<Rightarrow> 'a list \<times> int" where
  "peek_page page page_size total_count rs =
     (let offset = page_offset page page_size;
          limit = as_u64 (max page_size 1);
          files = sql_page (limit + 1) (as_u64 offset) rs;
          has_more = unat limit < length files;
          files = (if has_more then take (unat limit) files else files) in
      (files, if \<not> has_more then wrap_i64 (offset + int (length files)) else total_count))"

section \<open>Directories\<close>

definition live_in :: "string \<Rightarrow> string \<Rightarrow> index_row \<Rightarrow> bool" where
  "live_in u dir r \<longleftrightarrow> ir_user r = u \<and> ir_parent r = dir \<and> ir_row_deleted r = None \<and> ir_trashed r = None"

definition list_files :: "string \<Rightarrow> string \<Rightarrow> index_db \<Rightarrow> index_row list" where
  "list_files u dir db = filter (live_in u dir) (db_files db)"

definition by_kind_and_name :: "index_row list \<Rightarrow> index_row list" where
  "by_kind_and_name rs = order_desc ir_is_dir (order_asc ir_name rs)"

definition list_files_stream_with_page_size :: "string \<Rightarrow> string \<Rightarrow> u64 \<Rightarrow> index_db \<Rightarrow> index_row list" where
  "list_files_stream_with_page_size u dir page_size db =
     stream_pages (unat page_size) 1 (by_kind_and_name (list_files u dir db))"

definition list_files_stream :: "string \<Rightarrow> string \<Rightarrow> index_db \<Rightarrow> index_row list" where
  "list_files_stream u dir = list_files_stream_with_page_size u dir 100"

definition count_files :: "string \<Rightarrow> string \<Rightarrow> index_db \<Rightarrow> int" where
  "count_files u dir db = int (length (list_files u dir db))"

definition list_files_paginated :: "string \<Rightarrow> string \<Rightarrow> int \<Rightarrow> int \<Rightarrow> index_db \<Rightarrow> index_row list \<times> int" where
  "list_files_paginated u dir page page_size db =
     (sql_page (as_u64 page_size) (as_u64 (page_offset page page_size)) (by_kind_and_name (list_files u dir db)),
      count_files u dir db)"

definition keyword_hits :: "string option \<Rightarrow> index_row \<Rightarrow> bool" where
  "keyword_hits keyword r =
     (case keyword of None \<Rightarrow> True
      | Some kw \<Rightarrow> kw = [] \<or> like_contains kw (ir_name r) \<or> like_contains kw (ir_path r))"

definition order_by :: "bool \<Rightarrow> (index_row \<Rightarrow> 'k::linorder) \<Rightarrow> index_row list \<Rightarrow> index_row list" where
  "order_by is_desc f rs = (if is_desc then order_desc f rs else order_asc f rs)"

definition sort_listing :: "string option \<Rightarrow> string option \<Rightarrow> index_row list \<Rightarrow> index_row list" where
  "sort_listing sort_by order rs =
     (let is_desc = ((case order of Some q \<Rightarrow> q | None \<Rightarrow> ''asc'') = ''desc'') in
      order_desc ir_is_dir
        (if sort_by = Some ''size'' then order_by is_desc ir_size rs
         else if sort_by = Some ''modified'' then order_by is_desc ir_modified rs
         else if sort_by = Some ''path'' then order_by is_desc ir_path rs
         else if sort_by = Some ''created_at'' then order_by is_desc ir_row_updated rs
         else order_by is_desc ir_name rs))"

definition count_files_with_filter :: "string \<Rightarrow> string \<Rightarrow> string option \<Rightarrow> index_db \<Rightarrow> int" where
  "count_files_with_filter u dir keyword db = int (length (filter (keyword_hits keyword) (list_files u dir db)))"

definition list_files_paginated_with_sort :: "string \<Rightarrow> string \<Rightarrow> page_params \<Rightarrow> index_db \<Rightarrow> index_row list \<times> int" where
  "list_files_paginated_with_sort u dir ps db =
     (sql_page (as_u64 (pp_page_size ps)) (as_u64 (page_offset (pp_page ps) (pp_page_size ps)))
        (sort_listing (pp_sort_by ps) (pp_order ps) (filter (keyword_hits (pp_keyword ps)) (list_files u dir db))),
      count_files_with_filter u dir (pp_keyword ps) db)"

definition list_files_recursive :: "string \<Rightarrow> string \<Rightarrow> index_db \<Rightarrow> index_row list" where
  "list_files_recursive u dir db =
     filter (\<lambda>r. ir_user r = u \<and> ir_row_deleted r = None \<and> ir_trashed r = None \<and>
       (dir = ''/'' \<or> ir_path r = dir \<or> like_prefix (trim_end_matches slash dir @ ''/'') (ir_path r))) (db_files db)"

section \<open>Search\<close>

definition search_matches :: "string \<Rightarrow> string \<Rightarrow> index_db \<Rightarrow> index_row list" where
  "search_matches u kw db =
     filter (\<lambda>r. ir_user r = u \<and> like_contains kw (ir_name r) \<and> ir_row_deleted r = None \<and> ir_trashed r = None) (db_files db)"

definition search_files_stream_with_page_size :: "string \<Rightarrow> string \<Rightarrow> u64 \<Rightarrow> index_db \<Rightarrow> index_row list" where
  "search_files_stream_with_page_size u kw page_size db =
     stream_pages (unat page_size) 1 (by_kind_and_name (search_matches u kw db))"

definition search_files :: "string \<Rightarrow> string \<Rightarrow> index_db \<Rightarrow> index_row list" where
  "search_files u kw = search_files_stream_with_page_size u kw 100"

definition count_search_files :: "string \<Rightarrow> string \<Rightarrow> index_db \<Rightarrow> int" where
  "count_search_files u kw db = int (length (search_matches u kw db))"

definition search_files_paginated :: "string \<Rightarrow> string \<Rightarrow> int \<Rightarrow> int \<Rightarrow> index_db \<Rightarrow> index_row list \<times> int" where
  "search_files_paginated u kw page page_size db =
     peek_page page page_size (count_search_files u kw db) (by_kind_and_name (search_matches u kw db))"

section \<open>Favourites\<close>

definition favorites :: "string \<Rightarrow> index_db \<Rightarrow> index_row list" where
  "favorites u db =
     filter (\<lambda>r. ir_user r = u \<and> 0 < ir_favorite r \<and> ir_trashed r = None \<and> ir_row_deleted r = None) (db_files db)"

definition list_favorites_stream_with_page_size :: "string \<Rightarrow> int option \<Rightarrow> u64 \<Rightarrow> index_db \<Rightarrow> index_row list" where
  "list_favorites_stream_with_page_size u color page_size db =
     stream_pages (unat page_size) 1
       (by_kind_and_name (filter (\<lambda>r. case color of Some c \<Rightarrow> ir_favorite r = c | None \<Rightarrow> True) (favorites u db)))"

definition list_favorites :: "string \<Rightarrow> int option \<Rightarrow> index_db \<Rightarrow> index_row list" where
  "list_favorites u color = list_favorites_stream_with_page_size u color 100"

definition favorites_with_filter :: "string \<Rightarrow> string option \<Rightarrow> int option \<Rightarrow> index_db \<Rightarrow> index_row list" where
  "favorites_with_filter u keyword color db =
     filter (\<lambda>r. (case color of Some c \<Rightarrow> c \<le> 0 \<or> ir_favorite r = c | None \<Rightarrow> True) \<and> keyword_hits keyword r) (favorites u db)"

definition count_favorites_with_filter :: "string \<Rightarrow> string option \<Rightarrow> int option \<Rightarrow> index_db \<Rightarrow> int" where
  "count_favorites_with_filter u keyword color db = int (length (favorites_with_filter u keyword color db))"

definition list_favorites_paginated ::
  "string \<Rightarrow> page_params \<Rightarrow> int option \<Rightarrow> index_db \<Rightarrow> index_row list \<times> int" where
  "list_favorites_paginated u ps color db =
     peek_page (pp_page ps) (pp_page_size ps) (count_favorites_with_filter u (pp_keyword ps) color db)
       (sort_listing (pp_sort_by ps) (pp_order ps) (favorites_with_filter u (pp_keyword ps) color db))"

section \<open>The recycle bin\<close>

definition trashed_tops :: "string \<Rightarrow> index_db \<Rightarrow> index_row list" where
  "trashed_tops u db =
     filter (\<lambda>r. ir_user r = u \<and> ir_trashed r \<noteq> None \<and> ir_parent r = ''/.recycle_bin'' \<and> ir_row_deleted r = None) (db_files db)"

definition by_kind_and_trash_time :: "index_row list \<Rightarrow> index_row list" where
  "by_kind_and_trash_time rs = order_desc ir_is_dir (order_desc ir_trashed rs)"

definition list_trash_stream_with_page_size :: "string \<Rightarrow> u64 \<Rightarrow> index_db \<Rightarrow> index_row list" where
  "list_trash_stream_with_page_size u page_size db =
     stream_pages (unat page_size) 1 (by_kind_and_trash_time (trashed_tops u db))"

definition list_trash :: "string \<Rightarrow> index_db \<Rightarrow> index_row list" where
  "list_trash u = list_trash_stream_with_page_size u 100"

definition count_trash_files :: "string \<Rightarrow> index_db \<Rightarrow> int" where
  "count_trash_files u db = int (length (trashed_tops u db))"

definition list_trash_paginated :: "string \<Rightarrow> int \<Rightarrow> int \<Rightarrow> index_db \<Rightarrow> index_row list \<times> int" where
  "list_trash_paginated u page page_size db =
     peek_page page page_size (count_trash_files u db) (by_kind_and_trash_time (trashed_tops u db))"

definition trash_hits :: "string option \<Rightarrow> index_row \<Rightarrow> bool" where
  "trash_hits keyword r =
     (case keyword of None \<Rightarrow> True
      | Some kw \<Rightarrow> kw = [] \<or> like_contains kw (ir_name r) \<or> like_contains kw (ir_path r) \<or>
          (case ir_original r of Some q \<Rightarrow> like_contains kw q | None \<Rightarrow> False))"

definition count_trash_files_with_filter :: "string \<Rightarrow> string option \<Rightarrow> index_db \<Rightarrow> int" where
  "count_trash_files_with_filter u keyword db = int (length (filter (trash_hits keyword) (trashed_tops u db)))"

definition list_trash_paginated_with_sort :: "string \<Rightarrow> page_params \<Rightarrow> index_db \<Rightarrow> index_row list \<times> int" where
  "list_trash_paginated_with_sort u ps db =
     (let rs = filter (trash_hits (pp_keyword ps)) (trashed_tops u db);
          is_desc = ((case pp_order ps of Some q \<Rightarrow> q | None \<Rightarrow> ''desc'') = ''desc'');
          sort_by = pp_sort_by ps;
          sorted_rows =
            order_desc ir_is_dir
              (if sort_by = Some ''name'' then order_by is_desc ir_name rs
               else if sort_by = Some ''path'' then order_by is_desc ir_path rs
               else if sort_by = Some ''original_path'' then order_by is_desc ir_original rs
               else if sort_by = Some ''size'' then order_by is_desc ir_size rs
               else if sort_by = Some ''modified'' then order_by is_desc ir_modified rs
               else order_by is_desc ir_trashed rs) in
      peek_page (pp_page ps) (pp_page_size ps) (count_trash_files_with_filter u (pp_keyword ps) db) sorted_rows)"

definition expired_trash :: "int \<Rightarrow> nat \<Rightarrow> index_db \<Rightarrow> index_row list" where
  "expired_trash now retention_days db =
     filter (\<lambda>r. (case ir_trashed r of Some t \<Rightarrow> t < now - int retention_days * 86400 | None \<Rightarrow> False) \<and>
       ir_parent r = ''/.recycle_bin'' \<and> ir_row_deleted r = None) (db_files db)"

definition find_expired_trash :: "int \<Rightarrow> nat \<Rightarrow> index_db \<Rightarrow> index_row list" where
  "find_expired_trash now retention_days db = (if retention_days = 0 then [] else expired_trash now retention_days db)"

definition find_expired_trash_batch :: "int \<Rightarrow> nat \<Rightarrow> u64 \<Rightarrow> index_db \<Rightarrow> index_row list" where
  "find_expired_trash_batch now retention_days limit db =
     (if retention_days = 0 then []
      else take (unat (max limit 1)) (order_asc ir_trashed (expired_trash now retention_days db)))"

section \<open>Active shares\<close>

definition share_active :: "int \<Rightarrow> share_row \<Rightarrow> bool" where
  "share_active now s \<longleftrightarrow>
     \<not> (case sh_expire s of Some t \<Rightarrow> t < now | None \<Rightarrow> False) \<and>
     \<not> (case sh_max_downloads s of Some m \<Rightarrow> 0 < m \<and> m \<le> sh_views s | None \<Rightarrow> False)"

definition note_share :: "int \<Rightarrow> share_row \<Rightarrow> (string \<Rightarrow> (bool \<times> bool) option) \<Rightarrow> string \<Rightarrow> (bool \<times> bool) option" where
  "note_share now s res =
     (if \<not> share_active now s then res
      else (case (case res (sh_file s) of Some e \<Rightarrow> e | None \<Rightarrow> (False, False)) of
              (_, direct) \<Rightarrow> res(sh_file s \<mapsto> (True, sh_direct s \<or> direct))))"

definition get_active_shares_for_files :: "int \<Rightarrow> string list \<Rightarrow> index_db \<Rightarrow> string \<Rightarrow> (bool \<times> bool) option" where
  "get_active_shares_for_files now file_ids db =
     (if file_ids = [] then Map.empty
      else fold (note_share now) (filter (\<lambda>s. sh_file s \<in> set file_ids) (db_shares db)) Map.empty)"

definition resolve_file_ids_by_paths :: "string \<Rightarrow> string list \<Rightarrow> index_db \<Rightarrow> (string \<times> string) list" where
  "resolve_file_ids_by_paths u paths db =
     map (\<lambda>r. (ir_path r, ir_id r))
       (filter (\<lambda>r. ir_user r = u \<and> ir_path r \<in> set paths \<and> ir_row_deleted r = None) (db_files db))"

definition get_active_shares_for_paths :: "int \<Rightarrow> string \<Rightarrow> string list \<Rightarrow> index_db \<Rightarrow> string \<Rightarrow> (bool \<times> bool) option" where
  "get_active_shares_for_paths now u paths db =
     (let path_to_id = resolve_file_ids_by_paths u paths db;
          share_map = get_active_shares_for_files now (map snd path_to_id) db in
      (\<lambda>p. map_option (\<lambda>i. case share_map i of Some e \<Rightarrow> e | None \<Rightarrow> (False, False)) (map_of (rev path_to_id) p)))"

section \<open>Laws of ordering and paging\<close>

lemma order_perm [simp]:
  "mset (order_asc f rs) = mset rs" "mset (order_desc f rs) = mset rs"
  by (simp_all add: order_asc_def order_desc_def)

lemma order_length [simp]: "length (order_asc f rs) = length rs" "length (order_desc f rs) = length rs"
  by (simp_all add: order_asc_def order_desc_def)

lemma by_kind_and_name_perm [simp]:
  "mset (by_kind_and_name rs) = mset rs" "length (by_kind_and_name rs) = length rs"
  by (simp_all add: by_kind_and_name_def)

lemma by_kind_and_trash_time_perm [simp]:
  "mset (by_kind_and_trash_time rs) = mset rs" "length (by_kind_and_trash_time rs) = length rs"
  by (simp_all add: by_kind_and_trash_time_def)

lemma stream_pages_drop:
  "1 \<le> page \<Longrightarrow> stream_pages ps page rs = drop ((page - 1) * max ps 1) rs"
proof (induction ps page rs rule: stream_pages.induct)
  case (1 ps page rs)
  let ?n = "max ps 1" and ?rest = "drop ((page - 1) * max ps 1) rs"
  show ?case
  proof (cases "length (take ?n ?rest) = ?n")
    case True
    have "stream_pages ps (page + 1) rs = drop (page * ?n) rs"
      using 1(1)[OF refl True] by simp
    moreover have "page * ?n = ?n + (page - 1) * ?n" using "1.prems" by (cases page) simp_all
    then have "drop (page * ?n) rs = drop ?n ?rest" by simp
    ultimately have "stream_pages ps page rs = take ?n ?rest @ drop ?n ?rest"
      using True by (subst stream_pages.simps) (simp only: Let_def refl if_True)
    then show ?thesis by (simp only: append_take_drop_id)
  next
    case False
    then have "take ?n ?rest = ?rest" by (cases "length ?rest \<le> ?n") (auto simp del: length_drop)
    then show ?thesis using False by (subst stream_pages.simps) (simp only: Let_def if_False)
  qed
qed

lemma stream_pages_all: "stream_pages ps (Suc 0) rs = rs"
  by (simp add: stream_pages_drop)

text \<open>
  Streaming by pages loses nothing and repeats nothing. For every page size, zero included, the stream
  of a directory, of a search, of the favourites and of the recycle bin is exactly the ordered result of
  the query, so the numbers that are counted separately are those of the items delivered.
\<close>

theorem streams_complete:
  "list_files_stream_with_page_size u d ps db = by_kind_and_name (list_files u d db) \<and>
   int (length (list_files_stream_with_page_size u d ps db)) = count_files u d db \<and>
   search_files_stream_with_page_size u kw ps db = by_kind_and_name (search_matches u kw db) \<and>
   int (length (search_files u kw db)) = count_search_files u kw db \<and>
   mset (list_favorites u None db) = mset (favorites u db) \<and>
   list_trash_stream_with_page_size u ps db = by_kind_and_trash_time (trashed_tops u db) \<and>
   int (length (list_trash u db)) = count_trash_files u db"
  by (simp add: list_files_stream_with_page_size_def count_files_def search_files_stream_with_page_size_def
      count_search_files_def search_files_def list_favorites_def list_favorites_stream_with_page_size_def
      list_trash_stream_with_page_size_def list_trash_def count_trash_files_def stream_pages_all)

lemma as_u64_small: "0 \<le> x \<Longrightarrow> x < 2 ^ 64 \<Longrightarrow> unat (as_u64 x) = nat x"
  by (simp add: as_u64_def unat_eq_nat_uint uint_word_of_int)

text \<open>
  A page with look-ahead has the right rows, and its total is right as long as the page is not past
  the end: when at most \<open>offset\<close> rows match, the page is empty and the reported total is the offset
  of the page, however few rows there are.
\<close>

theorem peeked_page_total:
  assumes "1 \<le> page" "1 \<le> n" "page * n < 2 ^ 62" "length rs < 2 ^ 62"
  shows "peek_page page n (int (length rs)) rs =
    (take (nat n) (drop (nat ((page - 1) * n)) rs),
     if int (length rs) < (page - 1) * n then (page - 1) * n else int (length rs))"
proof -
  let ?off = "(page - 1) * n"
  have "(page - 1) * n \<le> page * n" "n \<le> page * n" "page \<le> page * n"
    using assms(1,2) by (simp_all add: mult_right_mono mult_le_cancel_right1 mult_le_cancel_left1)
  then have b: "0 \<le> ?off" "?off < 2 ^ 62" "n < 2 ^ 62" "page < 2 ^ 62"
    using assms by (auto intro: order.strict_trans1[OF _ assms(3)] simp del: power_numeral)
  have off: "page_offset page n = ?off"
  proof -
    have "is_i64 (page - 1)" using b assms(1) by (auto simp: is_i64_def)
    moreover have "is_i64 ?off" unfolding is_i64_def
    proof
      show "- (2 ^ 63) \<le> ?off" using b(1) by (rule order.trans[rotated]) simp
      show "?off < 2 ^ 63" using b(2) by (rule order.strict_trans) simp
    qed
    ultimately show ?thesis by (simp add: page_offset_def wrap_i64_id)
  qed
  have sz: "unat (as_u64 (max n 1)) = nat n" "unat (as_u64 ?off) = nat ?off"
    using b assms(2) by (simp_all add: as_u64_small)
  have "unat (as_u64 (max n 1) + 1) = nat n + 1"
  proof -
    have "nat n < 2 ^ 62" using b(3) assms(2) by simp
    then have "unat (as_u64 (max n 1)) + 1 < 2 ^ 64" using sz by simp
    then show ?thesis using sz by (simp add: unat_word_ariths)
  qed
  then have files: "sql_page (as_u64 (max n 1) + 1) (as_u64 ?off) rs = take (nat n + 1) (drop (nat ?off) rs)"
    using sz by (simp add: sql_page_def)
  define F where "F = take (nat n + 1) (drop (nat ?off) rs)"
  have page: "peek_page page n t rs = (if nat n < length F then take (nat n) F else F,
      if \<not> nat n < length F then wrap_i64 (?off + int (length (if nat n < length F then take (nat n) F else F))) else t)" for t
    unfolding peek_page_def Let_def off files sz F_def ..
  show ?thesis
  proof (cases "nat n < length rs - nat ?off")
    case True
    then have "nat n < length F" "take (nat n) F = take (nat n) (drop (nat ?off) rs)"
      by (simp_all add: F_def take_take min_def)
    moreover have "\<not> int (length rs) < ?off" using True b(1) by linarith
    ultimately show ?thesis by (simp add: page)
  next
    case False
    then have F: "F = drop (nat ?off) rs" "\<not> nat n < length F" "take (nat n) F = F" by (simp_all add: F_def)
    have len: "int (length F) = (if int (length rs) < ?off then 0 else int (length rs) - ?off)"
      using b(1) F(1) by auto
    have "is_i64 (?off + int (length F))"
      unfolding len is_i64_def using b(1,2) assms(4) by auto
    then have "wrap_i64 (?off + int (length F)) = ?off + int (length F)" by (rule wrap_i64_id)
    then show ?thesis using F len by (auto simp: page)
  qed
qed

theorem peeked_page_total_witness: "peek_page 3 2 (int (length [CHR 0x61, CHR 0x62])) ''ab'' = ([], 4)"
  using peeked_page_total[of 3 2 "''ab''"] by simp

end
