(* ===== verification/Share_Service.thy ===== *)
theory Share_Service
  imports File_Query
begin

text \<open>
  The share links (\<open>business/services/shares.rs\<close>): creating, changing, listing, counting and revoking
  shares of indexed files. Argon2 hashing and verification, the times that are dates, and the random identifiers are
  parameters; a share keeps a snapshot of its file from which it is shown when the index no longer has the file.
\<close>

record share_env =
  hash_password :: "string \<Rightarrow> string option"
  verify_password :: "string \<Rightarrow> string \<Rightarrow> bool"
  date_ok :: "int \<Rightarrow> bool"

record share_permissions =
  sp_direct :: bool
  sp_upload :: bool
  sp_update :: bool
  sp_delete :: bool

record create_share_params =
  cs_user :: string
  cs_file :: string
  cs_password :: "string option"
  cs_expire_days :: "u64 option"
  cs_max_downloads :: "int option"
  cs_permissions :: share_permissions
  cs_note :: "string option"
  cs_label :: "string option"
  cs_attributes :: "string option"
  cs_hide_download :: bool

record update_share_params =
  us_user :: string
  us_id :: string
  us_password :: "string option option"
  us_expire_days :: "u64 option option"
  us_max_downloads :: "int option option"
  us_direct :: "bool option"
  us_upload :: "bool option"
  us_update :: "bool option"
  us_delete :: "bool option"
  us_note :: "string option option"
  us_label :: "string option option"
  us_attributes :: "string option option"
  us_hide_download :: "bool option"

section \<open>Snapshots\<close>

definition fallback_file_from_share_snapshot :: "share_row \<Rightarrow> index_row option" where
  "fallback_file_from_share_snapshot s =
     (case sh_snapshot_path s of
        None \<Rightarrow> None
      | Some path \<Rightarrow>
          Some \<lparr>ir_id = sh_file s, ir_user = sh_user s,
            ir_parent = (case path_parent path of Some q \<Rightarrow> (if q = [] then ''/'' else q) | None \<Rightarrow> ''/''),
            ir_name = (case sh_snapshot_name s of Some n \<Rightarrow> n
                       | None \<Rightarrow> (case path_file_name path of Some n \<Rightarrow> n | None \<Rightarrow> ''file'')),
            ir_path = path, ir_is_dir = (case sh_snapshot_is_dir s of Some b \<Rightarrow> b | None \<Rightarrow> False),
            ir_storage = None, ir_backend = None, ir_key = None, ir_size = 0, ir_physical_size = None, ir_etag = None,
            ir_protected = None, ir_created = None, ir_modified = None, ir_trashed = None,
            ir_row_created = sh_created s, ir_row_updated = sh_created s, ir_row_deleted = None, ir_favorite = 0,
            ir_original = None, ir_remark = None\<rparr>)"

definition find_file :: "string \<Rightarrow> string \<Rightarrow> index_db \<Rightarrow> index_row option" where
  "find_file u file_id db = find (\<lambda>r. ir_user r = u \<and> ir_id r = file_id) (db_files db)"

definition with_file :: "index_db \<Rightarrow> share_row \<Rightarrow> share_row \<times> index_row option" where
  "with_file db s =
     (s, case find_file (sh_user s) (sh_file s) db of
           Some f \<Rightarrow> Some f | None \<Rightarrow> fallback_file_from_share_snapshot s)"

text \<open>\<open>backfill_file_share_snapshots\<close> of \<open>db_init.rs\<close>.\<close>

definition backfill_file_share_snapshots :: "index_db \<Rightarrow> index_db" where
  "backfill_file_share_snapshots db =
     db\<lparr>db_shares := map (\<lambda>s.
       case sh_snapshot_path s of
         Some _ \<Rightarrow> s
       | None \<Rightarrow>
           (case find_file (sh_user s) (sh_file s) db of
              None \<Rightarrow> s
            | Some f \<Rightarrow> s\<lparr>sh_snapshot_path := Some (ir_path f), sh_snapshot_name := Some (ir_name f),
                         sh_snapshot_is_dir := Some (ir_is_dir f)\<rparr>)) (db_shares db)\<rparr>"

section \<open>Creating and changing\<close>

text \<open>Adding days panics when the result is no date.\<close>

definition days_later :: "share_env \<Rightarrow> int \<Rightarrow> u64 \<Rightarrow> int option" where
  "days_later env now days = (let t = now + sint days * 86400 in if date_ok env t then Some t else None)"

text \<open>The outer \<open>None\<close> is the panic.\<close>

definition expires_from :: "share_env \<Rightarrow> int \<Rightarrow> u64 option \<Rightarrow> int option option" where
  "expires_from env now days = (case days of None \<Rightarrow> Some None | Some d \<Rightarrow> map_option Some (days_later env now d))"

definition create_share :: "share_env \<Rightarrow> bool \<Rightarrow> string \<Rightarrow> int \<Rightarrow> create_share_params \<Rightarrow> share_row db_call" where
  "create_share env up fresh now ps db =
     (case expires_from env now (cs_expire_days ps) of None \<Rightarrow> (Inl DbPanic, db) | Some expire_at \<Rightarrow>
      let is_public = (cs_password ps = None) in
      case (case cs_password ps of None \<Rightarrow> Some None | Some pwd \<Rightarrow> map_option Some (hash_password env pwd)) of
        None \<Rightarrow> (Inl (DbCustom ''Password hashing failed''), db)
      | Some hash \<Rightarrow>
          if \<not> up then (Inl DbUnavailable, db)
          else
            (let snapshot = find_file (cs_user ps) (cs_file ps) db;
                 s = \<lparr>sh_id = fresh, sh_file = cs_file ps, sh_user = cs_user ps, sh_password = hash,
                   sh_expire = expire_at, sh_views = 0, sh_max_downloads = cs_max_downloads ps, sh_public = is_public,
                   sh_direct = sp_direct (cs_permissions ps), sh_can_upload = sp_upload (cs_permissions ps),
                   sh_can_update = sp_update (cs_permissions ps), sh_can_delete = sp_delete (cs_permissions ps),
                   sh_note = cs_note ps, sh_label = cs_label ps, sh_attributes = cs_attributes ps,
                   sh_hide_download = cs_hide_download ps, sh_snapshot_path = map_option ir_path snapshot,
                   sh_snapshot_name = map_option ir_name snapshot, sh_snapshot_is_dir = map_option ir_is_dir snapshot,
                   sh_deleted = False, sh_created = now\<rparr> in
             if fresh \<in> sh_id ` set (db_shares db) then (Inl DbUnique, db)
             else if snapshot = None then (Inl DbForeignKey, db)
             else (Inr s, db\<lparr>db_shares := db_shares db @ [s]\<rparr>)))"

definition set_password :: "share_env \<Rightarrow> string option option \<Rightarrow> share_row \<Rightarrow> share_row option" where
  "set_password env pwd_opt s =
     (case pwd_opt of
        None \<Rightarrow> Some s
      | Some (Some pwd) \<Rightarrow>
          (if pwd \<noteq> [] then map_option (\<lambda>h. s\<lparr>sh_password := Some h, sh_public := False\<rparr>) (hash_password env pwd)
           else Some (s\<lparr>sh_password := None, sh_public := True\<rparr>))
      | Some None \<Rightarrow> Some (s\<lparr>sh_password := None, sh_public := True\<rparr>))"

definition apply_share_update :: "int option \<Rightarrow> update_share_params \<Rightarrow> share_row \<Rightarrow> share_row" where
  "apply_share_update expire_at ps s =
     s\<lparr>sh_expire := expire_at,
       sh_max_downloads := set_col (us_max_downloads ps) (sh_max_downloads s),
       sh_direct := set_col (us_direct ps) (sh_direct s), sh_can_upload := set_col (us_upload ps) (sh_can_upload s),
       sh_can_update := set_col (us_update ps) (sh_can_update s),
       sh_can_delete := set_col (us_delete ps) (sh_can_delete s), sh_note := set_col (us_note ps) (sh_note s),
       sh_label := set_col (us_label ps) (sh_label s), sh_attributes := set_col (us_attributes ps) (sh_attributes s),
       sh_hide_download := set_col (us_hide_download ps) (sh_hide_download s)\<rparr>"

definition update_share :: "share_env \<Rightarrow> bool \<Rightarrow> int \<Rightarrow> update_share_params \<Rightarrow> share_row db_call" where
  "update_share env up now ps db =
     (if \<not> up then (Inl DbUnavailable, db)
      else
        (case find (\<lambda>s. sh_id s = us_id ps \<and> sh_user s = us_user ps \<and> \<not> sh_deleted s) (db_shares db) of
           None \<Rightarrow> (Inl (DbCustom ''Share not found''), db)
         | Some s \<Rightarrow>
             (case set_password env (us_password ps) s of
                None \<Rightarrow> (Inl (DbCustom ''Password hashing failed''), db)
              | Some s1 \<Rightarrow>
                  (case (case us_expire_days ps of None \<Rightarrow> Some (sh_expire s1) | Some d \<Rightarrow> expires_from env now d) of
                     None \<Rightarrow> (Inl DbPanic, db)
                   | Some expire_at \<Rightarrow>
                       (let s2 = apply_share_update expire_at ps s1 in
                        (Inr s2, db\<lparr>db_shares := map (\<lambda>q. if sh_id q = sh_id s then s2 else q) (db_shares db)\<rparr>))))))"

definition map_shares :: "bool \<Rightarrow> (share_row \<Rightarrow> bool) \<Rightarrow> (share_row \<Rightarrow> share_row) \<Rightarrow> unit db_call" where
  "map_shares up P f db =
     (if \<not> up then (Inl DbUnavailable, db)
      else (Inr (), db\<lparr>db_shares := map (\<lambda>s. if P s then f s else s) (db_shares db)\<rparr>))"

definition increment_view_count :: "bool \<Rightarrow> string \<Rightarrow> unit db_call" where
  "increment_view_count up i =
     map_shares up (\<lambda>s. sh_id s = i \<and> \<not> sh_deleted s) (\<lambda>s. s\<lparr>sh_views := sh_views s + 1\<rparr>)"

definition delete_share :: "bool \<Rightarrow> string \<Rightarrow> string \<Rightarrow> unit db_call" where
  "delete_share up u i = map_shares up (\<lambda>s. sh_id s = i \<and> sh_user s = u) (\<lambda>s. s\<lparr>sh_deleted := True\<rparr>)"

definition delete_all_user_shares :: "bool \<Rightarrow> string \<Rightarrow> unit db_call" where
  "delete_all_user_shares up u = map_shares up (\<lambda>s. sh_user s = u \<and> \<not> sh_deleted s) (\<lambda>s. s\<lparr>sh_deleted := True\<rparr>)"

section \<open>Reading\<close>

definition get_share :: "string \<Rightarrow> index_db \<Rightarrow> (share_row \<times> index_row option) option" where
  "get_share i db = map_option (with_file db) (find (\<lambda>s. sh_id s = i \<and> \<not> sh_deleted s) (db_shares db))"

record share_query =
  sq_page :: u64
  sq_page_size :: u64
  sq_keyword :: "string option"
  sq_sort_by :: "string option"
  sq_order :: "string option"
  sq_has_password :: "bool option"
  sq_direct :: "bool option"

definition share_matches :: "share_query \<Rightarrow> string \<Rightarrow> share_row \<times> index_row option \<Rightarrow> bool" where
  "share_matches qo u sf \<longleftrightarrow>
     (case sf of (s, f) \<Rightarrow>
       sh_user s = u \<and> \<not> sh_deleted s \<and>
       (case sq_keyword qo of None \<Rightarrow> True
        | Some kw \<Rightarrow> kw = [] \<or> (case f of Some r \<Rightarrow> like_contains kw (ir_name r) \<or> like_contains kw (ir_path r) | None \<Rightarrow> False)) \<and>
       (case sq_has_password qo of None \<Rightarrow> True | Some b \<Rightarrow> (sh_password s \<noteq> None) = b) \<and>
       (case sq_direct qo of None \<Rightarrow> True | Some b \<Rightarrow> sh_direct s = b))"

definition order_shares ::
  "bool \<Rightarrow> (share_row \<times> index_row option \<Rightarrow> 'k::linorder) \<Rightarrow> (share_row \<times> index_row option) list \<Rightarrow>
   (share_row \<times> index_row option) list" where
  "order_shares asc f rs = (if asc then order_asc f rs else order_desc f rs)"

definition sort_shares :: "share_query \<Rightarrow> (share_row \<times> index_row option) list \<Rightarrow> (share_row \<times> index_row option) list" where
  "sort_shares qo rs =
     (let asc = ((case sq_order qo of Some q \<Rightarrow> q | None \<Rightarrow> ''desc'') = ''asc'');
          by = sq_sort_by qo in
      order_desc (\<lambda>(s, f). map_option ir_is_dir f)
        (if by = Some ''view_count'' then order_shares asc (\<lambda>(s, f). sh_views s) rs
         else if by = Some ''expire_at'' then order_shares asc (\<lambda>(s, f). sh_expire s) rs
         else if by = Some ''name'' then order_shares asc (\<lambda>(s, f). map_option ir_name f) rs
         else if by = Some ''path'' then order_shares asc (\<lambda>(s, f). map_option ir_path f) rs
         else if by = Some ''size'' then order_shares asc (\<lambda>(s, f). map_option ir_size f) rs
         else order_shares asc (\<lambda>(s, f). sh_created s) rs))"

text \<open>\<open>paginate\<close> refuses a page of no rows by a panic, here \<open>None\<close>.\<close>

definition list_user_shares_paginated ::
  "string \<Rightarrow> share_query \<Rightarrow> index_db \<Rightarrow> ((share_row \<times> index_row option) list \<times> nat) option" where
  "list_user_shares_paginated u qo db =
     (if sq_page_size qo = 0 then None
      else
        (let joined = map (\<lambda>s. (s, find_file (sh_user s) (sh_file s) db)) (db_shares db);
             hits = filter (share_matches qo u) joined;
             items = take (unat (sq_page_size qo))
               (drop (unat (sq_page_size qo * sat_sub_u64 (sq_page qo) 1)) (sort_shares qo hits)) in
         Some (map (\<lambda>(s, f). with_file db s) items, length hits)))"

section \<open>The life of a share\<close>

lemma find_append_fresh: "(\<And>x. x \<in> set xs \<Longrightarrow> \<not> P x) \<Longrightarrow> P y \<Longrightarrow> find P (xs @ [y]) = Some y"
  by (induction xs) auto

lemma map_shares_id: "(\<And>s. s \<in> set (db_shares db) \<Longrightarrow> \<not> P s) \<Longrightarrow> snd (map_shares up P f db) = db"
  by (auto simp: map_shares_def intro!: index_db.equality map_idI)

text \<open>
  C34: a share lives from its creation to its revocation by its owner. Creating one succeeds only for a
  file the user has in the index; the share is then found under its identifier together with that file,
  is public exactly when it has no password, and carries a snapshot of the file. Another user can neither
  revoke nor change it. Once its owner has revoked it, it is not found any more and cannot be changed.
\<close>

theorem share_lifecycle:
  assumes "create_share env True i now ps db = (Inr s, db1)" "v \<noteq> cs_user ps"
  shows "(\<exists>f. find_file (cs_user ps) (cs_file ps) db = Some f \<and> get_share i db1 = Some (s, Some f) \<and>
           sh_snapshot_path s = Some (ir_path f)) \<and>
    (sh_public s \<longleftrightarrow> cs_password ps = None) \<and>
    snd (delete_share True v i db1) = db1 \<and>
    (us_user q = v \<and> us_id q = i \<longrightarrow> update_share env True now' q db1 = (Inl (DbCustom ''Share not found''), db1)) \<and>
    (let db2 = snd (delete_share True (cs_user ps) i db1) in
       get_share i db2 = None \<and>
       (us_id r = i \<longrightarrow> update_share env True now' r db2 = (Inl (DbCustom ''Share not found''), db2)))"
proof -
  have fresh: "i \<notin> sh_id ` set (db_shares db)" and db1: "db1 = db\<lparr>db_shares := db_shares db @ [s]\<rparr>"
    and s: "sh_id s = i" "sh_user s = cs_user ps" "sh_file s = cs_file ps" "\<not> sh_deleted s"
      "sh_public s \<longleftrightarrow> cs_password ps = None"
    and f: "\<exists>f. find_file (cs_user ps) (cs_file ps) db = Some f \<and> sh_snapshot_path s = Some (ir_path f)"
    using assms(1) by (auto simp: create_share_def Let_def split: option.splits if_splits)
  have only: "x = s" if "x \<in> set (db_shares db1)" "sh_id x = i" for x using that fresh by (auto simp: db1)
  have "find (\<lambda>s. sh_id s = i \<and> \<not> sh_deleted s) (db_shares db @ [s]) = Some s"
  proof (rule find_append_fresh)
    fix x assume "x \<in> set (db_shares db)"
    then have "sh_id x \<noteq> i" using fresh by blast
    then show "\<not> (sh_id x = i \<and> \<not> sh_deleted x)" by simp
  qed (use s in simp)
  then have "get_share i db1 = Some (with_file db1 s)" by (simp add: get_share_def db1)
  moreover have "find_file u j db1 = find_file u j db" for u j by (simp add: find_file_def db1)
  ultimately have get: "\<exists>f. find_file (cs_user ps) (cs_file ps) db = Some f \<and> get_share i db1 = Some (s, Some f) \<and>
      sh_snapshot_path s = Some (ir_path f)"
    using f s by (auto simp: with_file_def)
  have other: "snd (delete_share True v i db1) = db1"
    unfolding delete_share_def by (rule map_shares_id) (use only s assms(2) in auto)
  have change: "update_share env True now' q db1 = (Inl (DbCustom ''Share not found''), db1)"
    if uq: "us_user q = v" "us_id q = i"
  proof -
    have "find (\<lambda>s. sh_id s = us_id q \<and> sh_user s = us_user q \<and> \<not> sh_deleted s) (db_shares db1) = None"
      unfolding find_None_iff
    proof
      assume "\<exists>x. x \<in> set (db_shares db1) \<and> sh_id x = us_id q \<and> sh_user x = us_user q \<and> \<not> sh_deleted x"
      then obtain x where x: "x \<in> set (db_shares db1)" "sh_id x = i" "sh_user x = v" using uq by auto
      then show False using only[OF x(1,2)] s(2) assms(2) by simp
    qed
    then show ?thesis by (simp add: update_share_def)
  qed
  define db2 where "db2 = snd (delete_share True (cs_user ps) i db1)"
  have "\<forall>x \<in> set (db_shares db2). sh_id x = i \<longrightarrow> sh_deleted x"
    using only s by (auto simp: db2_def delete_share_def map_shares_def)
  then have gone: "find (\<lambda>s. sh_id s = i \<and> P s \<and> \<not> sh_deleted s) (db_shares db2) = None" for P
    by (auto simp: find_None_iff)
  have "get_share i db2 = None" using gone[of "\<lambda>_. True"] by (simp add: get_share_def)
  moreover have "update_share env True now' r db2 = (Inl (DbCustom ''Share not found''), db2)" if "us_id r = i"
    using gone[of "\<lambda>s. sh_user s = us_user r"] that by (simp add: update_share_def)
  ultimately show ?thesis using get other change s(5) by (simp add: Let_def flip: db2_def)
qed

lemma note_share_keeps: "res p = Some (True, d) \<Longrightarrow> \<exists>d'. note_share now s res p = Some (True, d')"
  by (auto simp: note_share_def split: option.splits)

lemma fold_note_keeps: "res p = Some (True, d) \<Longrightarrow> \<exists>d'. fold (note_share now) ss res p = Some (True, d')"
proof (induction ss arbitrary: res d)
  case (Cons s ss)
  have "\<exists>d'. note_share now s res p = Some (True, d')" using Cons.prems by (rule note_share_keeps)
  then obtain d' where "note_share now s res p = Some (True, d')" by blast
  then show ?case using Cons.IH by simp
qed simp

lemma fold_note_active:
  "s \<in> set ss \<Longrightarrow> share_active now s \<Longrightarrow> \<exists>d. fold (note_share now) ss res (sh_file s) = Some (True, d)"
proof (induction ss arbitrary: res)
  case (Cons a ss)
  show ?case
  proof (cases "a = s")
    case True
    have "\<exists>d. note_share now s res (sh_file s) = Some (True, d)"
      using Cons.prems(2) by (auto simp: note_share_def split: option.splits)
    then obtain d where "note_share now s res (sh_file s) = Some (True, d)" by blast
    then have "\<exists>d'. fold (note_share now) ss (note_share now s res) (sh_file s) = Some (True, d')"
      by (rule fold_note_keeps)
    then show ?thesis using True by simp
  qed (use Cons in auto)
qed simp

text \<open>
  A revoked share is still shown as active. Revoking sets \<open>is_deleted\<close>, which \<open>get_share\<close> respects; the
  badge query of the file listing looks at the expiry and the download limit only, so a file whose share
  was revoked keeps being reported as shared.
\<close>

theorem revoked_share_still_active:
  assumes "s \<in> set (db_shares db)" "share_active now s" "distinct (map sh_id (db_shares db))"
  shows "let db' = snd (delete_share True (sh_user s) (sh_id s) db) in
    get_share (sh_id s) db' = None \<and>
    (\<exists>direct. get_active_shares_for_files now [sh_file s] db' (sh_file s) = Some (True, direct))"
proof -
  define db' where "db' = snd (delete_share True (sh_user s) (sh_id s) db)"
  have only: "x = s" if "x \<in> set (db_shares db)" "sh_id x = sh_id s" for x
    using assms(1,3) that by (auto dest: inj_onD simp: distinct_map)
  have sh: "db_shares db' = map (\<lambda>x. if sh_id x = sh_id s \<and> sh_user x = sh_user s then x\<lparr>sh_deleted := True\<rparr> else x) (db_shares db)"
    by (simp add: db'_def delete_share_def map_shares_def)
  have "get_share (sh_id s) db' = None"
    using only by (auto simp: get_share_def sh find_None_iff)
  moreover have "s\<lparr>sh_deleted := True\<rparr> \<in> set (filter (\<lambda>x. sh_file x \<in> {sh_file s}) (db_shares db'))"
    using assms(1) by (force simp: sh)
  moreover have "share_active now (s\<lparr>sh_deleted := True\<rparr>)" using assms(2) by (simp add: share_active_def cong: option.case_cong)
  ultimately show ?thesis
    using fold_note_active[of "s\<lparr>sh_deleted := True\<rparr>"]
    by (simp add: get_active_shares_for_files_def Let_def flip: db'_def)
qed

section \<open>A concrete share\<close>

definition sx_env :: share_env where
  "sx_env = \<lparr>hash_password = (\<lambda>p. Some (''#'' @ p)), verify_password = (\<lambda>h p. h = ''#'' @ p), date_ok = (\<lambda>t. True)\<rparr>"

definition sx_params :: create_share_params where
  "sx_params = \<lparr>cs_user = ''u'', cs_file = ''f'', cs_password = None, cs_expire_days = None,
     cs_max_downloads = None, cs_permissions = \<lparr>sp_direct = True, sp_upload = False, sp_update = False, sp_delete = False\<rparr>,
     cs_note = None, cs_label = None, cs_attributes = None, cs_hide_download = False\<rparr>"

definition sx_db :: index_db where
  "sx_db = \<lparr>db_files = [\<lparr>ir_id = ''f'', ir_user = ''u'', ir_parent = ''/'', ir_name = ''a'', ir_path = ''/a'',
      ir_is_dir = False, ir_storage = None, ir_backend = None, ir_key = None, ir_size = 7, ir_physical_size = None,
      ir_etag = None, ir_protected = None, ir_created = None, ir_modified = None, ir_trashed = None,
      ir_row_created = 1, ir_row_updated = 1, ir_row_deleted = None, ir_favorite = 0, ir_original = None,
      ir_remark = None\<rparr>], db_shares = []\<rparr>"

lemma sx_create: "\<exists>s db1. create_share sx_env True ''s1'' 5 sx_params sx_db = (Inr s, db1) \<and>
    db1 = sx_db\<lparr>db_shares := [s]\<rparr> \<and> sh_user s = ''u'' \<and> sh_id s = ''s1'' \<and> sh_file s = ''f'' \<and> share_active 6 s"
  by (simp add: create_share_def expires_from_def days_later_def sx_env_def sx_params_def sx_db_def find_file_def Let_def share_active_def)

theorem share_lifecycle_witness:
  "\<exists>s db1. create_share sx_env True ''s1'' 5 sx_params sx_db = (Inr s, db1) \<and>
     get_share ''s1'' (snd (delete_share True ''u'' ''s1'' db1)) = None"
proof -
  obtain s db1 where c: "create_share sx_env True ''s1'' 5 sx_params sx_db = (Inr s, db1)" using sx_create by blast
  have "''v'' \<noteq> cs_user sx_params" by (simp add: sx_params_def)
  from share_lifecycle[OF c this] c show ?thesis by (auto simp: Let_def sx_params_def)
qed

theorem revoked_share_still_active_witness:
  "\<exists>s db1. create_share sx_env True ''s1'' 5 sx_params sx_db = (Inr s, db1) \<and>
     (\<exists>direct. get_active_shares_for_files 6 [''f''] (snd (delete_share True ''u'' ''s1'' db1)) ''f'' = Some (True, direct))"
proof -
  obtain s db1 where c: "create_share sx_env True ''s1'' 5 sx_params sx_db = (Inr s, db1)"
    "db1 = sx_db\<lparr>db_shares := [s]\<rparr>" "sh_user s = ''u''" "sh_id s = ''s1''" "sh_file s = ''f''" "share_active 6 s"
    using sx_create by blast
  have "s \<in> set (db_shares db1)" "distinct (map sh_id (db_shares db1))" using c(2) by simp_all
  from revoked_share_still_active[OF this(1) c(6) this(2)] c show ?thesis by (auto simp: Let_def)
qed

end
