(* ===== verification/User_Settings.thy ===== *)
theory User_Settings
  imports File_Index
begin

text \<open>
  The settings row of a user (\<open>business/entities/user_settings.rs\<close>), the service that keeps it
  (\<open>business/services/user_settings.rs\<close>) and the quota gate of the engine (\<open>vfs/scoped/internal.rs\<close>). The
  table is a list of rows with \<open>user_id\<close> as its primary key; \<open>up\<close> says whether the database answers.
\<close>

record user_settings =
  st_user :: string
  st_pool_name :: string
  st_base_dir :: string
  st_quota :: int
  st_used :: int
  st_no_text :: bool
  st_no_markdown :: bool
  st_no_pdf :: bool
  st_no_image :: bool
  st_no_video :: bool
  st_no_audio :: bool
  st_no_office :: bool
  st_no_tex :: bool
  st_thumb_mode :: "string option"
  st_show_thumbs :: bool
  st_sftp_password :: bool
  st_s3_access :: "string option"
  st_s3_secret :: "string option"
  st_prot_root :: "string option"
  st_prot_mode :: "string option"
  st_prot_slot :: "string option"
  st_prot_key :: "string option"
  st_prot_enabled :: "int option"
  st_prot_updated :: "int option"
  st_created :: int
  st_updated :: int

text \<open>\<open>UserSettingsUpdatePatch\<close>: a column that is \<open>None\<close> is left out of the statement.\<close>

record settings_patch =
  pa_pool_name :: "string option"
  pa_base_dir :: "string option"
  pa_quota :: "int option"
  pa_used :: "int option"
  pa_no_text :: "bool option"
  pa_no_markdown :: "bool option"
  pa_no_pdf :: "bool option"
  pa_no_image :: "bool option"
  pa_no_video :: "bool option"
  pa_no_audio :: "bool option"
  pa_no_office :: "bool option"
  pa_no_tex :: "bool option"
  pa_thumb_mode :: "string option option"
  pa_show_thumbs :: "bool option"
  pa_sftp_password :: "bool option"
  pa_s3_access :: "string option option"
  pa_s3_secret :: "string option option"
  pa_prot_root :: "string option option"
  pa_prot_mode :: "string option option"
  pa_prot_slot :: "string option option"
  pa_prot_key :: "string option option"
  pa_prot_enabled :: "int option option"
  pa_prot_updated :: "int option option"

record settings_snapshot =
  sn_user :: string
  sn_pool_name :: string
  sn_base_dir :: string
  sn_quota :: int
  sn_used :: int
  sn_no_text :: bool
  sn_no_markdown :: bool
  sn_no_pdf :: bool
  sn_no_image :: bool
  sn_no_video :: bool
  sn_no_audio :: bool
  sn_no_office :: bool
  sn_no_tex :: bool
  sn_thumb_mode :: "string option"
  sn_show_thumbs :: bool
  sn_sftp_password :: bool
  sn_s3_access :: "string option"
  sn_s3_secret :: "string option"
  sn_prot_root :: "string option"
  sn_prot_mode :: "string option"
  sn_prot_slot :: "string option"
  sn_prot_key :: "string option"
  sn_prot_enabled :: "int option"
  sn_prot_updated :: "int option"

section \<open>Snapshots and the protected root\<close>

definition snapshot_of :: "user_settings \<Rightarrow> settings_snapshot" where
  "snapshot_of m =
     \<lparr>sn_user = st_user m, sn_pool_name = st_pool_name m, sn_base_dir = st_base_dir m, sn_quota = st_quota m,
      sn_used = st_used m, sn_no_text = st_no_text m, sn_no_markdown = st_no_markdown m,
      sn_no_pdf = st_no_pdf m, sn_no_image = st_no_image m, sn_no_video = st_no_video m,
      sn_no_audio = st_no_audio m, sn_no_office = st_no_office m, sn_no_tex = st_no_tex m,
      sn_thumb_mode = st_thumb_mode m, sn_show_thumbs = st_show_thumbs m, sn_sftp_password = st_sftp_password m,
      sn_s3_access = st_s3_access m, sn_s3_secret = st_s3_secret m, sn_prot_root = st_prot_root m,
      sn_prot_mode = st_prot_mode m, sn_prot_slot = st_prot_slot m, sn_prot_key = st_prot_key m,
      sn_prot_enabled = st_prot_enabled m, sn_prot_updated = st_prot_updated m\<rparr>"

definition protected_root_trimmed :: "settings_snapshot \<Rightarrow> string option" where
  "protected_root_trimmed s =
     (case sn_prot_root s of
        None \<Rightarrow> None
      | Some raw \<Rightarrow> (let root = rust_trim raw in if root = [] then None else Some root))"

definition is_protected_subdir_root :: "settings_snapshot \<Rightarrow> bool" where
  "is_protected_subdir_root s = (case protected_root_trimmed s of Some root \<Rightarrow> root \<noteq> ''/'' | None \<Rightarrow> False)"

definition root_or_trimmed :: "string \<Rightarrow> string" where
  "root_or_trimmed p = (let q = trim_end_matches slash p in if q = [] then ''/'' else q)"

definition matches_protected_root :: "settings_snapshot \<Rightarrow> string \<Rightarrow> bool" where
  "matches_protected_root s path =
     (case protected_root_trimmed s of
        None \<Rightarrow> False
      | Some root \<Rightarrow>
          (let p = root_or_trimmed path; r = root_or_trimmed root in
           r = ''/'' \<or> p = r \<or> starts_with p (r @ ''/'')))"

section \<open>The service\<close>

type_synonym 'a settings_call = "user_settings list \<Rightarrow> (db_error + 'a) \<times> user_settings list"

definition new_settings :: "int \<Rightarrow> string \<Rightarrow> string \<Rightarrow> string \<Rightarrow> int \<Rightarrow> user_settings" where
  "new_settings now u pool base quota =
     \<lparr>st_user = u, st_pool_name = pool, st_base_dir = base, st_quota = quota, st_used = 0, st_no_text = False,
      st_no_markdown = False, st_no_pdf = False, st_no_image = False, st_no_video = False, st_no_audio = False,
      st_no_office = False, st_no_tex = False, st_thumb_mode = None, st_show_thumbs = False,
      st_sftp_password = True, st_s3_access = None, st_s3_secret = None, st_prot_root = None,
      st_prot_mode = None, st_prot_slot = None, st_prot_key = None, st_prot_enabled = None,
      st_prot_updated = None, st_created = now, st_updated = now\<rparr>"

definition get_user_settings :: "string \<Rightarrow> user_settings list \<Rightarrow> user_settings option" where
  "get_user_settings u t = find (\<lambda>s. st_user s = u) t"

definition upsert_user_settings :: "bool \<Rightarrow> int \<Rightarrow> string \<Rightarrow> string \<Rightarrow> string \<Rightarrow> int \<Rightarrow> user_settings settings_call" where
  "upsert_user_settings up now u pool base quota t =
     (if \<not> up then (Inl DbUnavailable, t)
      else
        (case get_user_settings u t of
           None \<Rightarrow> (let s = new_settings now u pool base quota in (Inr s, t @ [s]))
         | Some old \<Rightarrow>
             (let s = old\<lparr>st_pool_name := pool, st_base_dir := base, st_quota := quota, st_updated := now\<rparr> in
              (Inr s, map (\<lambda>q. if st_user q = u then s else q) t))))"

definition update_settings :: "bool \<Rightarrow> string \<Rightarrow> (user_settings \<Rightarrow> user_settings) \<Rightarrow> unit settings_call" where
  "update_settings up u f t =
     (if \<not> up then (Inl DbUnavailable, t) else (Inr (), map (\<lambda>q. if st_user q = u then f q else q) t))"

definition apply_patch :: "int \<Rightarrow> settings_patch \<Rightarrow> user_settings \<Rightarrow> user_settings" where
  "apply_patch now p s =
     s\<lparr>st_pool_name := set_col (pa_pool_name p) (st_pool_name s),
       st_base_dir := set_col (pa_base_dir p) (st_base_dir s), st_quota := set_col (pa_quota p) (st_quota s),
       st_used := set_col (pa_used p) (st_used s), st_no_text := set_col (pa_no_text p) (st_no_text s),
       st_no_markdown := set_col (pa_no_markdown p) (st_no_markdown s),
       st_no_pdf := set_col (pa_no_pdf p) (st_no_pdf s), st_no_image := set_col (pa_no_image p) (st_no_image s),
       st_no_video := set_col (pa_no_video p) (st_no_video s),
       st_no_audio := set_col (pa_no_audio p) (st_no_audio s),
       st_no_office := set_col (pa_no_office p) (st_no_office s),
       st_no_tex := set_col (pa_no_tex p) (st_no_tex s),
       st_thumb_mode := set_col (pa_thumb_mode p) (st_thumb_mode s),
       st_show_thumbs := set_col (pa_show_thumbs p) (st_show_thumbs s),
       st_sftp_password := set_col (pa_sftp_password p) (st_sftp_password s),
       st_s3_access := set_col (pa_s3_access p) (st_s3_access s),
       st_s3_secret := set_col (pa_s3_secret p) (st_s3_secret s),
       st_prot_root := set_col (pa_prot_root p) (st_prot_root s),
       st_prot_mode := set_col (pa_prot_mode p) (st_prot_mode s),
       st_prot_slot := set_col (pa_prot_slot p) (st_prot_slot s),
       st_prot_key := set_col (pa_prot_key p) (st_prot_key s),
       st_prot_enabled := set_col (pa_prot_enabled p) (st_prot_enabled s),
       st_prot_updated := set_col (pa_prot_updated p) (st_prot_updated s), st_updated := now\<rparr>"

definition empty_patch :: settings_patch where
  "empty_patch =
     \<lparr>pa_pool_name = None, pa_base_dir = None, pa_quota = None, pa_used = None, pa_no_text = None,
      pa_no_markdown = None, pa_no_pdf = None, pa_no_image = None, pa_no_video = None, pa_no_audio = None,
      pa_no_office = None, pa_no_tex = None, pa_thumb_mode = None, pa_show_thumbs = None,
      pa_sftp_password = None, pa_s3_access = None, pa_s3_secret = None, pa_prot_root = None,
      pa_prot_mode = None, pa_prot_slot = None, pa_prot_key = None, pa_prot_enabled = None,
      pa_prot_updated = None\<rparr>"

definition update_user_settings_patch :: "bool \<Rightarrow> int \<Rightarrow> string \<Rightarrow> settings_patch \<Rightarrow> unit settings_call" where
  "update_user_settings_patch up now u p = update_settings up u (apply_patch now p)"

definition update_storage_quota :: "bool \<Rightarrow> int \<Rightarrow> string \<Rightarrow> int \<Rightarrow> unit settings_call" where
  "update_storage_quota up now u new_quota t =
     (if \<not> up then (Inl DbUnavailable, t)
      else if get_user_settings u t = None then (Inl (DbRecordNotFound ''None of the records are updated''), t)
      else update_settings up u (\<lambda>s. s\<lparr>st_quota := new_quota, st_updated := now\<rparr>) t)"

text \<open>The addition is the database's; a sum outside the column's range is an error and changes nothing.\<close>

definition update_storage_used :: "bool \<Rightarrow> int \<Rightarrow> string \<Rightarrow> int \<Rightarrow> unit settings_call" where
  "update_storage_used up now u delta t =
     (if \<not> up then (Inl DbUnavailable, t)
      else if list_ex (\<lambda>s. st_user s = u \<and> \<not> is_i64 (st_used s + delta)) t
      then (Inl (DbCustom ''integer out of range''), t)
      else update_settings up u (\<lambda>s. s\<lparr>st_used := st_used s + delta, st_updated := now\<rparr>) t)"

definition check_quota_exceeded :: "string \<Rightarrow> int \<Rightarrow> user_settings list \<Rightarrow> bool" where
  "check_quota_exceeded u additional t =
     (case get_user_settings u t of
        None \<Rightarrow> False
      | Some s \<Rightarrow> (if st_quota s = 0 then False else st_quota s < wrap_i64 (st_used s + additional)))"

definition list_all_settings :: "user_settings list \<Rightarrow> user_settings list" where
  "list_all_settings t = t"

definition delete_user_settings :: "bool \<Rightarrow> string \<Rightarrow> unit settings_call" where
  "delete_user_settings up u t =
     (if \<not> up then (Inl DbUnavailable, t) else (Inr (), filter (\<lambda>s. st_user s \<noteq> u) t))"

definition find_s3_credentials_by_access_key :: "string \<Rightarrow> user_settings list \<Rightarrow> (string \<times> string option) option" where
  "find_s3_credentials_by_access_key key t =
     map_option (\<lambda>s. (st_user s, st_s3_secret s)) (find (\<lambda>s. st_s3_access s = Some key) t)"

definition regenerate_s3_keys :: "bool \<Rightarrow> int \<Rightarrow> string \<Rightarrow> string \<Rightarrow> string \<Rightarrow> (string \<times> string) settings_call" where
  "regenerate_s3_keys up now access_key secret_key u t =
     (if \<not> up then (Inl DbUnavailable, t)
      else
        (case get_user_settings u t of
           None \<Rightarrow> (Inl (DbRecordNotFound ''User settings not found''), t)
         | Some s \<Rightarrow>
             (case update_user_settings_patch up now (st_user s)
                     (empty_patch\<lparr>pa_s3_access := Some (Some access_key), pa_s3_secret := Some (Some secret_key)\<rparr>) t of
                (Inl e, t') \<Rightarrow> (Inl e, t')
              | (Inr _, t') \<Rightarrow> (Inr (access_key, secret_key), t'))))"

section \<open>The quota gate\<close>

text \<open>\<open>pending\<close> is \<open>pool.pending_quota_delta(user)\<close>: the changes flushed but not yet booked.\<close>

definition db_internal :: "db_error + 'a \<Rightarrow> vfs_error + 'a" where
  "db_internal r = (case r of Inl e \<Rightarrow> Inl (Internal (db_text e)) | Inr x \<Rightarrow> Inr x)"

definition update_quota :: "bool \<Rightarrow> int \<Rightarrow> string \<Rightarrow> int \<Rightarrow> user_settings list \<Rightarrow> (vfs_error + unit) \<times> user_settings list" where
  "update_quota up now u delta t = (case update_storage_used up now u delta t of (r, t') \<Rightarrow> (db_internal r, t'))"

definition check_quota :: "bool \<Rightarrow> int \<Rightarrow> string \<Rightarrow> int \<Rightarrow> user_settings list \<Rightarrow> vfs_error + unit" where
  "check_quota up pending u additional t =
     (if \<not> up then Inl (Internal (db_text DbUnavailable))
      else
        (case get_user_settings u t of
           None \<Rightarrow> Inr ()
         | Some s \<Rightarrow>
             (if 0 < st_quota s \<and> st_quota s < sat_add_i64 (sat_add_i64 (st_used s) pending) additional
              then Inl QuotaExceeded else Inr ())))"

definition get_quota_impl :: "bool \<Rightarrow> int \<Rightarrow> string \<Rightarrow> user_settings list \<Rightarrow> vfs_error + (int \<times> int option)" where
  "get_quota_impl up pending u t =
     (if \<not> up then Inl (Internal (db_text DbUnavailable))
      else
        (case get_user_settings u t of
           None \<Rightarrow> Inr (0, None)
         | Some s \<Rightarrow> Inr (max (sat_add_i64 (st_used s) pending) 0, if 0 < st_quota s then Some (st_quota s) else None)))"

section \<open>Laws of the table\<close>

lemma get_user_settings_map:
  assumes "\<And>s. st_user (f s) = st_user s"
  shows "get_user_settings v (map (\<lambda>q. if st_user q = u then f q else q) t) =
         (if v = u then map_option f (get_user_settings u t) else get_user_settings v t)"
  unfolding get_user_settings_def by (induction t) (auto simp: assms)

lemma get_user_settings_user: "get_user_settings u t = Some s \<Longrightarrow> st_user s = u"
  unfolding get_user_settings_def by (induction t) (auto split: if_splits)

lemma get_user_settings_in: "get_user_settings u t = Some s \<Longrightarrow> s \<in> set t"
  unfolding get_user_settings_def by (induction t) (auto split: if_splits)

lemma settings_row_unique:
  "distinct (map st_user t) \<Longrightarrow> get_user_settings u t = Some s \<Longrightarrow> q \<in> set t \<Longrightarrow> st_user q = u \<Longrightarrow> q = s"
  using get_user_settings_user get_user_settings_in eq_key_imp_eq_value
  by (metis inj_on_eq_iff distinct_map)

lemma update_storage_used_found:
  assumes "distinct (map st_user t)" and "get_user_settings u t = Some s" and "is_i64 (st_used s + n)"
  shows "update_storage_used True now u n t =
         update_settings True u (\<lambda>s. s\<lparr>st_used := st_used s + n, st_updated := now\<rparr>) t"
proof -
  have "\<not> list_ex (\<lambda>q. st_user q = u \<and> \<not> is_i64 (st_used q + n)) t"
    using settings_row_unique[OF assms(1,2)] assms(3) by (auto simp: list_ex_iff)
  then show ?thesis by (simp add: update_storage_used_def)
qed

lemma root_or_trimmed_free: "root_or_trimmed p = ''/'' \<or> last (root_or_trimmed p) \<noteq> slash"
  using trim_end_matches_last[of slash p] by (auto simp: root_or_trimmed_def Let_def)

text \<open>
  The protected root matches exactly the directory itself and what lies below it, segment by segment,
  trailing slashes aside: a root \<open>/safe\<close> covers \<open>/safe\<close> and \<open>/safe/x\<close> and not \<open>/safer\<close>, the root
  \<open>/\<close> covers everything, and a blank root covers nothing.
\<close>

theorem protected_root_by_segments:
  "matches_protected_root s path \<longleftrightarrow>
     (\<exists>raw. sn_prot_root s = Some raw \<and> rust_trim raw \<noteq> [] \<and>
        (root_or_trimmed (rust_trim raw) = ''/'' \<or>
         prefix (split_on slash (root_or_trimmed (rust_trim raw))) (split_on slash (root_or_trimmed path))))"
proof -
  have seg: "prefix (split_on slash r) (split_on slash p) \<longleftrightarrow> p = r \<or> prefix (r @ ''/'') p" for r p :: string
  proof
    assume "p = r \<or> prefix (r @ ''/'') p"
    then show "prefix (split_on slash r) (split_on slash p)"
      by (auto simp: prefix_def split_on_append)
  next
    assume "prefix (split_on slash r) (split_on slash p)"
    then obtain ys where ys: "split_on slash p = split_on slash r @ ys" by (auto simp: prefix_def)
    have "p = join_with slash (split_on slash r @ ys)" using join_split[of slash p] ys by simp
    then show "p = r \<or> prefix (r @ ''/'') p"
      by (cases ys) (auto simp: join_with_append prefix_def)
  qed
  show ?thesis
    by (cases "sn_prot_root s")
      (auto simp: matches_protected_root_def protected_root_trimmed_def Let_def seg)
qed

text \<open>
  The quota gate admits an operation of \<open>additional\<close> bytes exactly when the booked bytes, the flushed but
  not yet booked bytes and the new ones fit in the user's quota; a user with quota zero is unlimited and a
  user without a settings row is not limited at all. Booking a change moves the used bytes of that user by
  exactly the change and leaves every other user's settings alone, and the report is the booked and pending
  bytes (never negative) with the quota.
\<close>

theorem quota_gate:
  assumes "distinct (map st_user t)" and "get_user_settings u t = Some s"
    and "is_i64 (st_used s + pending)" and "is_i64 (st_used s + pending + n)" and "is_i64 (st_used s + n)"
  shows "check_quota True pending u n t =
           (if 0 < st_quota s \<and> st_quota s < st_used s + pending + n then Inl QuotaExceeded else Inr ()) \<and>
         fst (update_quota True now u n t) = Inr () \<and>
         get_user_settings v (snd (update_quota True now u n t)) =
           (if v = u then Some (s\<lparr>st_used := st_used s + n, st_updated := now\<rparr>) else get_user_settings v t) \<and>
         get_quota_impl True pending u t =
           Inr (max (st_used s + pending) 0, if 0 < st_quota s then Some (st_quota s) else None)"
proof -
  have up: "update_quota True now u n t =
      (Inr (), map (\<lambda>q. if st_user q = u then q\<lparr>st_used := st_used q + n, st_updated := now\<rparr> else q) t)"
    by (simp add: update_quota_def update_storage_used_found[OF assms(1,2,5)] update_settings_def db_internal_def)
  have "get_user_settings v (snd (update_quota True now u n t)) =
           (if v = u then Some (s\<lparr>st_used := st_used s + n, st_updated := now\<rparr>) else get_user_settings v t)"
    by (simp add: up get_user_settings_map assms(2))
  then show ?thesis
    by (simp add: up check_quota_def get_quota_impl_def sat_add_i64_def assms)
qed

definition fx_settings :: "user_settings list" where
  "fx_settings =
     [new_settings 0 ''bob'' ''p'' ''/b'' 0, (new_settings 0 ''ann'' ''p'' ''/a'' 100)\<lparr>st_used := 60\<rparr>]"

lemma quota_gate_witness:
  "check_quota True 30 ''ann'' 11 fx_settings = Inl QuotaExceeded \<and>
   check_quota True 30 ''ann'' 10 fx_settings = Inr () \<and>
   get_user_settings ''bob'' (snd (update_quota True 7 ''ann'' 10 fx_settings)) = Some (new_settings 0 ''bob'' ''p'' ''/b'' 0)"
proof -
  let ?s = "(new_settings 0 ''ann'' ''p'' ''/a'' 100)\<lparr>st_used := 60\<rparr>"
  have d: "distinct (map st_user fx_settings)" and g: "get_user_settings ''ann'' fx_settings = Some ?s"
    by code_simp+
  have i: "is_i64 (st_used ?s + 30)" "is_i64 (st_used ?s + 30 + 11)" "is_i64 (st_used ?s + 11)"
      "is_i64 (st_used ?s + 30 + 10)" "is_i64 (st_used ?s + 10)"
    by code_simp+
  have b: "get_user_settings ''bob'' fx_settings = Some (new_settings 0 ''bob'' ''p'' ''/b'' 0)" by code_simp
  have q: "st_quota ?s = 100" "st_used ?s = 60" by (simp_all add: new_settings_def)
  show ?thesis
    using quota_gate[OF d g i(1-3), where v = "''bob''" and now = 7] quota_gate[OF d g i(1,4,5), where v = "''bob''" and now = 7]
    by (simp add: q b)
qed

end
