(* ===== verification/Pool.thy ===== *)
theory Pool
  imports Write_Cache
begin

text \<open>
  A storage pool (\<open>vfs/pool.rs\<close>): a primary operator, an optional backup, and the two caches in front of
  them. A read asks the pending writes first, then the read cache, then the primary, and the backup only
  when the primary fails. The write cache shares the primary and the read cache with its pool (both are
  \<open>Arc\<close>s of the same objects), so \<open>with_write_cache\<close> lends them to it for the call and takes them back.
\<close>

record 'p pool =
  pl_primary :: 'p
  pl_backup :: "'p option"
  pl_read :: "read_cache option"
  pl_write :: "'p write_cache option"

record 'p pool_env =
  pv_wc :: "'p wc_env"
  pv_backup :: "'p operator"

record batch_error =
  be_path :: string
  be_error :: string

record batch_result =
  br_success :: "string list"
  br_failed :: "batch_error list"

record vfs_metadata =
  vm_path :: string
  vm_is_dir :: bool
  vm_size :: u64
  vm_modified :: "int option"
  vm_content_type :: "string option"
  vm_etag :: "string option"

text \<open>The clock readings of a read: one for the lookup, three for the \<open>put\<close> that may follow.\<close>

type_synonym read_clock = "int \<times> int \<times> int \<times> int"

abbreviation primary :: "'p pool_env \<Rightarrow> 'p operator" where
  "primary env \<equiv> we_op (pv_wc env)"

abbreviation read_env :: "'p pool_env \<Rightarrow> read_meta fs_env" where
  "read_env env \<equiv> we_read (pv_wc env)"

section \<open>Paths, metadata and ranges\<close>

definition file_name_from_path :: "string \<Rightarrow> string" where
  "file_name_from_path path = last (split_on slash path)"

definition normalize_entry_path :: "string \<Rightarrow> string" where
  "normalize_entry_path path =
     (if path = ''/'' then path else case strip_suffix ''/'' path of Some t \<Rightarrow> t | None \<Rightarrow> path)"

definition to_vfs_file_info :: "string \<Rightarrow> dal_meta \<Rightarrow> vfs_file_info" where
  "to_vfs_file_info path m =
     \<lparr>fi_name = file_name_from_path path, fi_path = path, fi_is_dir = md_is_dir m, fi_size = md_length m,
      fi_modified = md_modified m, fi_favorite_color = 0, fi_has_active_share = None,
      fi_has_active_direct = None, fi_trashed_at = None, fi_original_path = None\<rparr>"

definition slice_bytes :: "string \<Rightarrow> u64 \<Rightarrow> u64 \<Rightarrow> string" where
  "slice_bytes data start stop =
     (let n = word_of_nat (length data); s = unat (min start n); e = unat (min stop n) in
      if e \<le> s then [] else take (e - s) (drop s data))"

definition clamp_read_range :: "u64 \<Rightarrow> u64 \<Rightarrow> u64 \<Rightarrow> u64 \<times> u64" where
  "clamp_read_range start stop sz = (let s = min start sz; e = min stop sz in (s, max e s))"

definition as_dir :: "string \<Rightarrow> string" where
  "as_dir path = (if ends_with path ''/'' then path else path @ ''/'')"

definition dal_res :: "dal_error + 'a \<Rightarrow> vfs_error + 'a" where
  "dal_res r = (case r of Inl (k, msg) \<Rightarrow> Inl (vfs_error_of_dal k msg) | Inr x \<Rightarrow> Inr x)"

text \<open>\<open>Display\<close> of an error.\<close>

fun vfs_text :: "vfs_error \<Rightarrow> string" where
  "vfs_text (OpenDal _ msg) = ''Storage error: '' @ msg"
| "vfs_text (Database msg) = ''Database error: '' @ msg"
| "vfs_text (Internal msg) = ''VFS logical error: '' @ msg"
| "vfs_text (NotFound msg) = ''Path not found: '' @ msg"
| "vfs_text (PermissionDenied msg) = ''Permission denied: '' @ msg"
| "vfs_text QuotaExceeded = ''Storage quota exceeded''"
| "vfs_text MaintenanceMode = ''System maintenance in progress (WAL recovery), please try again later''"
| "vfs_text (IoError _ msg) = ''IO error: '' @ msg"

section \<open>The caches\<close>

definition with_write_cache ::
  "('p write_cache \<Rightarrow> 'a \<times> 'p write_cache) \<Rightarrow> 'a \<Rightarrow> 'p pool \<Rightarrow> 'a \<times> 'p pool" where
  "with_write_cache f none s =
     (case pl_write s of
        None \<Rightarrow> (none, s)
      | Some w \<Rightarrow>
          (case f (w\<lparr>wc_store := pl_primary s, wc_read := pl_read s\<rparr>) of
             (x, w') \<Rightarrow> (x, s\<lparr>pl_primary := wc_store w', pl_read := wc_read w', pl_write := Some w'\<rparr>)))"

definition is_write_cache_enabled :: "'p pool \<Rightarrow> bool" where
  "is_write_cache_enabled s = (case pl_write s of None \<Rightarrow> False | Some w \<Rightarrow> wc_enabled w)"

definition write_cache_max_file_size :: "'p pool \<Rightarrow> u64 option" where
  "write_cache_max_file_size s = map_option wc_max_file (pl_write s)"

definition enqueue_write_cache ::
  "'p pool_env \<Rightarrow> int \<Rightarrow> string \<Rightarrow> string \<Rightarrow> string \<Rightarrow> string \<Rightarrow> 'p pool \<Rightarrow> (vfs_error + vfs_file_info option) \<times> 'p pool" where
  "enqueue_write_cache env now user logical physical data s =
     (case with_write_cache (wc_enqueue (pv_wc env) now user logical physical data) (Inr None) s of
        (Inl msg, s') \<Rightarrow> (Inl (Internal msg), s')
      | (Inr x, s') \<Rightarrow> (Inr x, s'))"

definition flush_write_cache :: "'p pool_env \<Rightarrow> int \<Rightarrow> int \<Rightarrow> string \<Rightarrow> 'p pool \<Rightarrow> (vfs_error + unit) \<times> 'p pool" where
  "flush_write_cache env now now' physical = with_write_cache (flush_path (pv_wc env) now now' physical) (Inr ())"

definition pool_pending_stat :: "string \<Rightarrow> 'p pool \<Rightarrow> vfs_file_info option" where
  "pool_pending_stat physical s = (case pl_write s of None \<Rightarrow> None | Some w \<Rightarrow> pending_stat physical w)"

definition pool_pending_children :: "string \<Rightarrow> 'p pool \<Rightarrow> vfs_file_info list" where
  "pool_pending_children parent s = (case pl_write s of None \<Rightarrow> [] | Some w \<Rightarrow> pending_children parent w)"

definition pool_is_dirty_path :: "string \<Rightarrow> 'p pool \<Rightarrow> bool" where
  "pool_is_dirty_path physical s = (case pl_write s of None \<Rightarrow> False | Some w \<Rightarrow> is_dirty_path physical w)"

definition pool_is_dirty_dir :: "string \<Rightarrow> 'p pool \<Rightarrow> bool" where
  "pool_is_dirty_dir physical s = (case pl_write s of None \<Rightarrow> False | Some w \<Rightarrow> is_dirty_dir physical w)"

definition pool_pending_quota_delta :: "string \<Rightarrow> 'p pool \<Rightarrow> int" where
  "pool_pending_quota_delta user s = (case pl_write s of None \<Rightarrow> 0 | Some w \<Rightarrow> pending_quota_delta user w)"

definition invalidate_read_cache :: "'p pool_env \<Rightarrow> string \<Rightarrow> 'p pool \<Rightarrow> 'p pool" where
  "invalidate_read_cache env path s = s\<lparr>pl_read := map_option (rc_remove (read_env env) path) (pl_read s)\<rparr>"

text \<open>The two lookups a read starts with.\<close>

definition cached_read ::
  "'p pool_env \<Rightarrow> int \<Rightarrow> string \<Rightarrow> 'p pool \<Rightarrow> (string \<times> vfs_file_info) option \<times> 'p pool" where
  "cached_read env now path s =
     (case with_write_cache (pending_read (pv_wc env) path) None s of
        (Some hit, s1) \<Rightarrow> (Some hit, s1)
      | (None, s1) \<Rightarrow>
          (case pl_read s1 of
             None \<Rightarrow> (None, s1)
           | Some r \<Rightarrow> (case rc_get (read_env env) now path r of (x, r') \<Rightarrow> (x, s1\<lparr>pl_read := Some r'\<rparr>))))"

section \<open>Reading\<close>

definition stat_with_operator :: "'p operator \<Rightarrow> string \<Rightarrow> 'p \<Rightarrow> vfs_error + vfs_file_info" where
  "stat_with_operator opr path st = (case op_stat opr path st of
     Inl (k, msg) \<Rightarrow> Inl (vfs_error_of_dal k msg) | Inr m \<Rightarrow> Inr (to_vfs_file_info path m))"

text \<open>\<open>fallback\<close>: what the backup answers, when there is one, else the error of the primary.\<close>

definition fallback :: "'p pool_env \<Rightarrow> vfs_error \<Rightarrow> ('p operator \<Rightarrow> 'p \<Rightarrow> vfs_error + 'a) \<Rightarrow> 'p pool \<Rightarrow> vfs_error + 'a" where
  "fallback env primary_err f s =
     (case pl_backup s of None \<Rightarrow> Inl primary_err | Some b \<Rightarrow> f (pv_backup env) b)"

definition pool_read ::
  "'p pool_env \<Rightarrow> read_clock \<Rightarrow> string \<Rightarrow> 'p pool \<Rightarrow> (vfs_error + string \<times> vfs_file_info) \<times> 'p pool" where
  "pool_read env clk path s =
     (case clk of (now, ts) \<Rightarrow>
      (case cached_read env now path s of
         (Some hit, s1) \<Rightarrow> (Inr hit, s1)
       | (None, s1) \<Rightarrow>
           (case op_read (primary env) path (pl_primary s1) of
              Inr data \<Rightarrow>
                (case stat_with_operator (primary env) path (pl_primary s1) of
                   Inl e \<Rightarrow> (Inl e, s1)
                 | Inr info \<Rightarrow>
                     (Inr (data, info),
                      s1\<lparr>pl_read := map_option (rc_put (read_env env) ts path data info) (pl_read s1)\<rparr>))
            | Inl (k, msg) \<Rightarrow>
                (fallback env (vfs_error_of_dal k msg)
                   (\<lambda>opr b. res_bind (dal_res (op_read opr path b)) (\<lambda>data.
                      res_bind (stat_with_operator opr path b) (\<lambda>info. Inr (data, info)))) s1, s1))))"

definition pool_read_range ::
  "'p pool_env \<Rightarrow> int \<Rightarrow> string \<Rightarrow> u64 \<Rightarrow> u64 \<Rightarrow> 'p pool \<Rightarrow> (vfs_error + string \<times> vfs_file_info) \<times> 'p pool" where
  "pool_read_range env now path start stop s =
     (case cached_read env now path s of
        (Some (data, info), s1) \<Rightarrow> (Inr (slice_bytes data start stop, info), s1)
      | (None, s1) \<Rightarrow>
          (let ranged = (\<lambda>opr st info. case clamp_read_range start stop (fi_size info) of (a, b) \<Rightarrow>
                 res_bind (dal_res (op_read_range opr path a b st)) (\<lambda>data. Inr (data, info))) in
           case stat_with_operator (primary env) path (pl_primary s1) of
             Inr info \<Rightarrow> (ranged (primary env) (pl_primary s1) info, s1)
           | Inl primary_err \<Rightarrow>
               (fallback env primary_err
                  (\<lambda>opr b. res_bind (stat_with_operator opr path b) (ranged opr b)) s1, s1)))"

text \<open>A stream is the list of its items; an item may be an error.\<close>

definition read_stream_range ::
  "'p pool_env \<Rightarrow> int \<Rightarrow> string \<Rightarrow> u64 \<Rightarrow> u64 \<Rightarrow> 'p pool \<Rightarrow>
   (vfs_error + (vfs_error + string) list \<times> vfs_file_info) \<times> 'p pool" where
  "read_stream_range env now path start stop s =
     (case cached_read env now path s of
        (Some (data, info), s1) \<Rightarrow> (Inr ([Inr (slice_bytes data start stop)], info), s1)
      | (None, s1) \<Rightarrow>
          (let streamed = (\<lambda>opr st info. case clamp_read_range start stop (fi_size info) of (a, b) \<Rightarrow>
                 res_bind (dal_res (op_chunks opr path a b st)) (\<lambda>cs. Inr (map dal_res cs, info))) in
           case op_reader (primary env) path (pl_primary s1) of
             Inr _ \<Rightarrow>
               (res_bind (stat_with_operator (primary env) path (pl_primary s1))
                  (streamed (primary env) (pl_primary s1)), s1)
           | Inl (k, msg) \<Rightarrow>
               (fallback env (vfs_error_of_dal k msg)
                  (\<lambda>opr b. res_bind (dal_res (op_reader opr path b)) (\<lambda>_.
                     res_bind (stat_with_operator opr path b) (streamed opr b))) s1, s1)))"

definition pool_read_stream ::
  "'p pool_env \<Rightarrow> int \<Rightarrow> string \<Rightarrow> 'p pool \<Rightarrow> (vfs_error + (vfs_error + string) list \<times> vfs_file_info) \<times> 'p pool" where
  "pool_read_stream env now path = read_stream_range env now path 0 (- 1)"

definition pool_stat :: "'p pool_env \<Rightarrow> string \<Rightarrow> 'p pool \<Rightarrow> vfs_error + vfs_file_info" where
  "pool_stat env path s =
     (case pool_pending_stat path s of
        Some info \<Rightarrow> Inr info
      | None \<Rightarrow>
          (case stat_with_operator (primary env) path (pl_primary s) of
             Inr info \<Rightarrow> Inr info
           | Inl primary_err \<Rightarrow> fallback env primary_err (\<lambda>opr b. stat_with_operator opr path b) s))"

definition pool_exists :: "'p pool_env \<Rightarrow> string \<Rightarrow> 'p pool \<Rightarrow> vfs_error + bool" where
  "pool_exists env path s =
     (if pool_pending_stat path s \<noteq> None then Inr True
      else
        (case op_exists (primary env) path (pl_primary s) of
           Inr True \<Rightarrow> Inr True
         | Inr False \<Rightarrow>
             (case pl_backup s of None \<Rightarrow> Inr False | Some b \<Rightarrow> dal_res (op_exists (pv_backup env) path b))
         | Inl (k, msg) \<Rightarrow>
             fallback env (vfs_error_of_dal k msg) (\<lambda>opr b. dal_res (op_exists opr path b)) s))"

definition pool_metadata :: "'p pool_env \<Rightarrow> string \<Rightarrow> 'p pool \<Rightarrow> vfs_error + vfs_metadata" where
  "pool_metadata env path s = res_bind (pool_stat env path s) (\<lambda>i.
     Inr \<lparr>vm_path = fi_path i, vm_is_dir = fi_is_dir i, vm_size = fi_size i, vm_modified = fi_modified i,
          vm_content_type = None, vm_etag = None\<rparr>)"

section \<open>Listing\<close>

definition list_entry_info :: "'p operator \<Rightarrow> 'p \<Rightarrow> string \<times> dal_meta \<Rightarrow> vfs_file_info" where
  "list_entry_info opr st entry =
     (case entry of (raw, meta) \<Rightarrow>
      (let path = normalize_entry_path raw in
       if md_modified meta = None
       then (case op_stat opr raw st of Inr m \<Rightarrow> to_vfs_file_info path m | Inl _ \<Rightarrow> to_vfs_file_info path meta)
       else to_vfs_file_info path meta))"

definition select_lister ::
  "'p pool_env \<Rightarrow> bool \<Rightarrow> string \<Rightarrow> 'p pool \<Rightarrow> vfs_error + 'p operator \<times> 'p \<times> (dal_error + string \<times> dal_meta) list" where
  "select_lister env recursive path s =
     (case op_list (primary env) recursive path (pl_primary s) of
        Inr es \<Rightarrow> Inr (primary env, pl_primary s, es)
      | Inl (k, msg) \<Rightarrow>
          fallback env (vfs_error_of_dal k msg)
            (\<lambda>opr b. res_bind (dal_res (op_list opr recursive path b)) (\<lambda>es. Inr (opr, b, es))) s)"

fun collect_entries :: "'p operator \<Rightarrow> 'p \<Rightarrow> (dal_error + string \<times> dal_meta) list \<Rightarrow> vfs_error + vfs_file_info list" where
  "collect_entries opr st [] = Inr []"
| "collect_entries opr st (Inl (k, msg) # es) = Inl (vfs_error_of_dal k msg)"
| "collect_entries opr st (Inr e # es) =
     res_bind (collect_entries opr st es) (\<lambda>xs. Inr (list_entry_info opr st e # xs))"

definition list_path :: "string \<Rightarrow> string" where
  "list_path path = (if path \<noteq> [] \<and> \<not> ends_with path ''/'' then path @ ''/'' else path)"

definition pool_list :: "'p pool_env \<Rightarrow> string \<Rightarrow> 'p pool \<Rightarrow> vfs_error + vfs_file_info list" where
  "pool_list env path s =
     res_bind (select_lister env False (list_path path) s) (\<lambda>(opr, st, es). collect_entries opr st es)"

definition pool_list_stream :: "'p pool_env \<Rightarrow> string \<Rightarrow> 'p pool \<Rightarrow> (vfs_error + vfs_file_info) list" where
  "pool_list_stream env path s =
     (case select_lister env False (list_path path) s of
        Inl e \<Rightarrow> [Inl e]
      | Inr (opr, st, es) \<Rightarrow>
          map (\<lambda>r. res_bind (dal_res r) (\<lambda>e. Inr (list_entry_info opr st e))) es)"

definition pool_list_recursive :: "'p pool_env \<Rightarrow> string \<Rightarrow> 'p pool \<Rightarrow> vfs_error + vfs_file_info list" where
  "pool_list_recursive env path s =
     res_bind (select_lister env True path s) (\<lambda>(opr, st, es). collect_entries opr st es)"

section \<open>Changing the primary\<close>

definition on_primary :: "'p dal_update \<Rightarrow> ('p pool, vfs_error, unit) call" where
  "on_primary u s = (case u (pl_primary s) of (r, st) \<Rightarrow> (dal_res r, s\<lparr>pl_primary := st\<rparr>))"

definition then_stat :: "'p pool_env \<Rightarrow> string \<Rightarrow> unit \<Rightarrow> ('p pool, vfs_error, vfs_file_info) call" where
  "then_stat env path u s = (pool_stat env path s, s)"

definition pool_write :: "'p pool_env \<Rightarrow> string \<Rightarrow> string \<Rightarrow> ('p pool, vfs_error, vfs_file_info) call" where
  "pool_write env path data s =
     st_bind (on_primary (op_write (primary env) path data)) (then_stat env path)
       (invalidate_read_cache env path s)"

fun delete_entries :: "'p pool_env \<Rightarrow> vfs_file_info list \<Rightarrow> ('p pool, vfs_error, unit) call" where
  "delete_entries env [] s = (Inr (), s)"
| "delete_entries env (e # es) s =
     (let delete_path = (if fi_is_dir e then as_dir (fi_path e) else fi_path e) in
      st_bind (on_primary (op_delete (primary env) delete_path)) (\<lambda>_. delete_entries env es)
        (invalidate_read_cache env delete_path s))"

definition tree_path :: "string \<Rightarrow> string" where
  "tree_path path =
     (let normalized = normalize_entry_path path in
      if normalized = ''/'' then ''/'' else trim_end_matches slash normalized @ ''/'')"

definition remove_tree :: "'p pool_env \<Rightarrow> string \<Rightarrow> ('p pool, vfs_error, unit) call" where
  "remove_tree env path s =
     (let normalized = normalize_entry_path path in
      case pool_list_recursive env (tree_path path) s of
        Inl e \<Rightarrow> (Inl e, s)
      | Inr es \<Rightarrow>
          st_bind (delete_entries env (rev (sort_key (\<lambda>e. length (fi_path e))
                     (filter (\<lambda>e. normalize_entry_path (fi_path e) \<noteq> normalized) es))))
            (\<lambda>_ s1. on_primary (op_delete (primary env) (tree_path path)) (invalidate_read_cache env normalized s1)) s)"

definition pool_delete :: "'p pool_env \<Rightarrow> string \<Rightarrow> ('p pool, vfs_error, vfs_file_info) call" where
  "pool_delete env path s =
     (case pool_stat env path s of
        Inl e \<Rightarrow> (Inl e, s)
      | Inr info \<Rightarrow>
          st_bind (if fi_is_dir info then remove_tree env path else on_primary (op_delete (primary env) path))
            (\<lambda>_ s1. (Inr info, s1)) (invalidate_read_cache env path s))"

fun append_chunks :: "'p pool_env \<Rightarrow> string \<Rightarrow> (vfs_error + string) list \<Rightarrow> ('p pool, vfs_error, unit) call" where
  "append_chunks env temp [] s = (Inr (), s)"
| "append_chunks env temp (Inl e # cs) s = (Inl e, s)"
| "append_chunks env temp (Inr c # cs) s =
     st_bind (on_primary (op_append (primary env) temp c)) (\<lambda>_. append_chunks env temp cs) s"

definition pool_write_stream :: "'p pool_env \<Rightarrow> string \<Rightarrow> (vfs_error + string) list \<Rightarrow> ('p pool, vfs_error, vfs_file_info) call" where
  "pool_write_stream env path stream s =
     (let temp = path @ ''.tmp'' in
      st_bind (on_primary (op_writer (primary env) temp)) (\<lambda>_.
        st_bind (append_chunks env temp stream) (\<lambda>_.
          st_bind (on_primary (op_close (primary env) temp)) (\<lambda>_.
            st_bind (on_primary (op_rename (primary env) temp path)) (then_stat env path))))
        (invalidate_read_cache env path s))"

definition pool_create_dir :: "'p pool_env \<Rightarrow> string \<Rightarrow> ('p pool, vfs_error, vfs_file_info) call" where
  "pool_create_dir env path s =
     st_bind (on_primary (op_create_dir (primary env) (as_dir path))) (then_stat env (as_dir path))
       (invalidate_read_cache env (as_dir path) s)"

definition pool_move_file :: "'p pool_env \<Rightarrow> string \<Rightarrow> string \<Rightarrow> ('p pool, vfs_error, vfs_file_info) call" where
  "pool_move_file env src dst s =
     st_bind (on_primary (op_rename (primary env) src dst)) (then_stat env dst)
       (invalidate_read_cache env dst (invalidate_read_cache env src s))"

definition pool_copy_file :: "'p pool_env \<Rightarrow> string \<Rightarrow> string \<Rightarrow> ('p pool, vfs_error, vfs_file_info) call" where
  "pool_copy_file env src dst s =
     st_bind (on_primary (op_copy (primary env) src dst)) (then_stat env dst)
       (invalidate_read_cache env dst (invalidate_read_cache env src s))"

text \<open>A batch goes on after a failure and reports every path once.\<close>

fun batch_each :: "(string \<Rightarrow> ('p pool, vfs_error, 'a) call) \<Rightarrow> string list \<Rightarrow> 'p pool \<Rightarrow> batch_result \<times> 'p pool" where
  "batch_each f [] s = (\<lparr>br_success = [], br_failed = []\<rparr>, s)"
| "batch_each f (p # ps) s =
     (case f p s of
        (Inr _, s1) \<Rightarrow> (case batch_each f ps s1 of (r, s2) \<Rightarrow> (r\<lparr>br_success := p # br_success r\<rparr>, s2))
      | (Inl e, s1) \<Rightarrow> (case batch_each f ps s1 of
            (r, s2) \<Rightarrow> (r\<lparr>br_failed := \<lparr>be_path = p, be_error = vfs_text e\<rparr> # br_failed r\<rparr>, s2)))"

definition pool_batch_remove :: "'p pool_env \<Rightarrow> string list \<Rightarrow> 'p pool \<Rightarrow> batch_result \<times> 'p pool" where
  "pool_batch_remove env paths = batch_each (pool_delete env) paths"

definition pool_batch_move :: "'p pool_env \<Rightarrow> string list \<Rightarrow> string \<Rightarrow> 'p pool \<Rightarrow> batch_result \<times> 'p pool" where
  "pool_batch_move env src_paths dst_dir =
     batch_each (\<lambda>src. pool_move_file env src (trim_end_matches slash dst_dir @ ''/'' @ file_name_from_path src)) src_paths"

text \<open>The operations of the storage trait a bare pool has no meaning for.\<close>

definition pool_write_at :: "string \<Rightarrow> u64 \<Rightarrow> string \<Rightarrow> vfs_error + vfs_file_info" where
  "pool_write_at path offset data = Inl (Internal ''Write at not supported in Pool'')"

definition pool_get_recursive_size :: "string \<Rightarrow> vfs_error + int" where
  "pool_get_recursive_size path = Inl (Internal ''Not implemented in Pool'')"

end
