(* ===== verification/Pool_Claims.thy ===== *)
theory Pool_Claims
  imports Pool
begin

text \<open>
  What a pool promises (\<open>vfs/pool.rs\<close>): its read cache never hides a change it made itself, every ranged
  read is the slice of the whole read, and a streamed write is atomic. The laws of the operators are those of
  \<open>Operator\<close>.
\<close>

section \<open>Slices\<close>

lemma unat_word_of_nat: "n < 2 ^ 64 \<Longrightarrow> unat (word_of_nat n :: u64) = n"
  by (simp add: unat_of_nat take_bit_nat_eq_self)

lemma dal_res_Inr [simp]: "dal_res (Inr x) = Inr x" "dal_res \<circ> Inr = Inr"
  by (auto simp: dal_res_def)

lemma slice_bytes_eq:
  assumes "length d < 2 ^ 64"
  shows "slice_bytes d a b = take (unat b - unat a) (drop (unat a) d)"
proof -
  have n: "unat (word_of_nat (length d) :: u64) = length d"
    using assms by (rule unat_word_of_nat)
  show ?thesis
    by (auto simp: slice_bytes_def Let_def n min_def word_le_nat_alt)
qed

lemma clamp_read_range_bounds:
  assumes "clamp_read_range a b sz = (x, y)"
  shows "x \<le> y" "y \<le> sz"
    "take (unat y - unat x) (drop (unat x) d) = take (min (unat b) (unat sz) - min (unat a) (unat sz)) (drop (min (unat a) (unat sz)) d)"
  using assms by (auto simp: clamp_read_range_def Let_def min_def max_def word_le_nat_alt split: if_splits)

lemma clamped_slice:
  assumes "clamp_read_range a b (word_of_nat (length d)) = (x, y)" and "length d < 2 ^ 64"
  shows "take (unat y - unat x) (drop (unat x) d) = slice_bytes d a b"
proof -
  have n: "unat (word_of_nat (length d) :: u64) = length d"
    using assms(2) by (rule unat_word_of_nat)
  show ?thesis
    using clamp_read_range_bounds(3)[OF assms(1), of d] slice_bytes_eq[OF assms(2), of a b]
    by (auto simp: n min_def split: if_splits)
qed

text \<open>An operator with ranged reads answers both ranged calls with the slice.\<close>

lemma ranged_reads:
  assumes "ranged_op opr p st" and "op_read opr p st = Inr d"
  obtains i where "stat_with_operator opr p st = Inr i" and "op_reader opr p st = Inr ()"
    and "(case clamp_read_range a b (fi_size i) of (x, y) \<Rightarrow>
            res_bind (dal_res (op_read_range opr p x y st)) (\<lambda>data. Inr (data, i))) = Inr (slice_bytes d a b, i)"
    and "\<exists>cs. (case clamp_read_range a b (fi_size i) of (x, y) \<Rightarrow>
            res_bind (dal_res (op_chunks opr p x y st)) (\<lambda>cs. Inr (map dal_res cs, i))) = Inr (map Inr cs, i) \<and>
          concat cs = slice_bytes d a b"
proof -
  from assms obtain m where m: "op_stat opr p st = Inr m" "md_length m = word_of_nat (length d)"
      and len: "length d < 2 ^ 64" and rd: "op_reader opr p st = Inr ()"
      and rng: "\<And>x y. x \<le> y \<Longrightarrow> unat y \<le> length d \<Longrightarrow>
        op_read_range opr p x y st = Inr (take (unat y - unat x) (drop (unat x) d)) \<and>
        (\<exists>cs. op_chunks opr p x y st = Inr (map Inr cs) \<and> concat cs = take (unat y - unat x) (drop (unat x) d))"
    by (auto simp: ranged_op_def)
  let ?i = "to_vfs_file_info p m"
  obtain x y where xy: "clamp_read_range a b (fi_size ?i) = (x, y)" by fastforce
  have sz: "fi_size ?i = word_of_nat (length d)" by (simp add: to_vfs_file_info_def m(2))
  have le: "x \<le> y" "unat y \<le> length d"
    using clamp_read_range_bounds(1,2)[OF xy] sz unat_word_of_nat[OF len] by (auto simp: word_le_nat_alt)
  note sl = clamped_slice[OF xy[unfolded sz] len]
  obtain cs where cs: "op_chunks opr p x y st = Inr (map Inr cs)" "concat cs = slice_bytes d a b"
    using rng[OF le] sl by auto
  show thesis
  proof (rule that[of ?i])
    show "stat_with_operator opr p st = Inr ?i" by (simp add: stat_with_operator_def m(1))
    show "op_reader opr p st = Inr ()" by (rule rd)
    show "(case clamp_read_range a b (fi_size ?i) of (x, y) \<Rightarrow>
            res_bind (dal_res (op_read_range opr p x y st)) (\<lambda>data. Inr (data, ?i))) = Inr (slice_bytes d a b, ?i)"
      using rng[OF le] sl by (simp add: xy)
    show "\<exists>cs. (case clamp_read_range a b (fi_size ?i) of (x, y) \<Rightarrow>
            res_bind (dal_res (op_chunks opr p x y st)) (\<lambda>cs. Inr (map dal_res cs, ?i))) = Inr (map Inr cs, ?i) \<and>
          concat cs = slice_bytes d a b"
      using cs by (intro exI[of _ cs]) (simp add: xy)
  qed
qed

text \<open>\<open>faithful\<close>: when an operator answers a whole read, its other answers agree with it.\<close>

definition faithful :: "'p operator \<Rightarrow> string \<Rightarrow> 'p \<Rightarrow> bool" where
  "faithful opr p st \<longleftrightarrow> (\<forall>d. op_read opr p st = Inr d \<longrightarrow> serves opr p st d)"

lemma faithful_map_op: "(\<And>d. st p = Some d \<Longrightarrow> length d < 2 ^ 64) \<Longrightarrow> faithful (map_op broken) p st"
proof -
  have "op_read (map_op broken) p st = Inr d \<Longrightarrow> st p = Some d" for d by (simp add: map_op_def split: option.splits)
  then show "(\<And>d. st p = Some d \<Longrightarrow> length d < 2 ^ 64) \<Longrightarrow> ?thesis"
    unfolding faithful_def using serves_map_op by blast
qed

definition answers :: "'e + 'a \<Rightarrow> bool" where
  "answers r \<longleftrightarrow> (\<exists>x. r = Inr x)"

lemma answers_simps [simp]: "answers (Inr x)" "\<not> answers (Inl e)"
  by (simp_all add: answers_def)

lemma served_reads:
  assumes "serves opr p st d" and "stat_with_operator opr p st = Inr i"
  shows "(case clamp_read_range a b (fi_size i) of (x, y) \<Rightarrow>
            res_bind (dal_res (op_read_range opr p x y st)) (\<lambda>data. Inr (data, i))) = Inr (c, j) \<Longrightarrow>
         c = slice_bytes d a b \<and> j = i"
    and "(case clamp_read_range a b (fi_size i) of (x, y) \<Rightarrow>
            res_bind (dal_res (op_chunks opr p x y st)) (\<lambda>cs. Inr (map dal_res cs, i))) = Inr (map Inr cs, j) \<Longrightarrow>
         concat cs = slice_bytes d a b \<and> j = i"
proof -
  obtain m where m: "op_stat opr p st = Inr m" "i = to_vfs_file_info p m"
    using assms(2) by (auto simp: stat_with_operator_def split: sum.splits)
  have len: "length d < 2 ^ 64" and sz: "fi_size i = word_of_nat (length d)"
    using assms(1) m by (auto simp: serves_def to_vfs_file_info_def)
  obtain x y where xy: "clamp_read_range a b (fi_size i) = (x, y)" by fastforce
  have le: "x \<le> y \<and> unat y \<le> length d"
    using clamp_read_range_bounds(1,2)[OF xy] sz unat_word_of_nat[OF len] by (auto simp: word_le_nat_alt)
  note sl = clamped_slice[OF xy[unfolded sz] len]
  have rng: "op_read_range opr p x y st = Inr c \<Longrightarrow> c = slice_bytes d a b"
      "op_chunks opr p x y st = Inr (map Inr cs) \<Longrightarrow> concat cs = slice_bytes d a b" for c cs
    using assms(1) le sl by (auto simp: serves_def)
  show "(case clamp_read_range a b (fi_size i) of (x, y) \<Rightarrow>
            res_bind (dal_res (op_read_range opr p x y st)) (\<lambda>data. Inr (data, i))) = Inr (c, j) \<Longrightarrow>
         c = slice_bytes d a b \<and> j = i"
    using rng(1) by (auto simp: xy dal_res_def split: sum.splits prod.splits)
  have fine: "xs = map Inr ys" if "map dal_res xs = map Inr ys" for xs and ys :: "string list"
    using that by (induction xs arbitrary: ys) (auto simp: map_eq_Cons_conv Cons_eq_map_conv dal_res_def split: sum.splits prod.splits)
  show "(case clamp_read_range a b (fi_size i) of (x, y) \<Rightarrow>
            res_bind (dal_res (op_chunks opr p x y st)) (\<lambda>cs. Inr (map dal_res cs, i))) = Inr (map Inr cs, j) \<Longrightarrow>
         concat cs = slice_bytes d a b \<and> j = i"
    using rng(2) fine by (auto simp: xy dal_res_def split: sum.splits prod.splits)
qed

lemma cached_read_same:
  "cached_read env now path s = (h, s1) \<Longrightarrow> pl_primary s1 = pl_primary s \<and> pl_backup s1 = pl_backup s"
  by (auto simp: cached_read_def with_write_cache_def pending_read_def wc_metric_def split: option.splits prod.splits)

lemma range_agrees:
  assumes "faithful (primary env) path (pl_primary s)"
    and "\<And>b. pl_backup s = Some b \<Longrightarrow> faithful (pv_backup env) path b"
    and w: "fst (pool_read env (now, ts) path s) = Inr (d, i)"
  shows "fst (pool_read_range env now path a b s) = Inr (c, j) \<Longrightarrow>
         c = slice_bytes d a b \<and> j = i \<or>
         answers (op_read (primary env) path (pl_primary s)) \<noteq> answers (op_stat (primary env) path (pl_primary s))"
    and "fst (read_stream_range env now path a b s) = Inr (map Inr cs, j) \<Longrightarrow>
         concat cs = slice_bytes d a b \<and> j = i \<or>
         answers (op_read (primary env) path (pl_primary s)) \<noteq> answers (op_reader (primary env) path (pl_primary s))"
proof -
  let ?o = "primary env" and ?st = "pl_primary s"
  obtain h s1 where ch: "cached_read env now path s = (h, s1)" by fastforce
  note s1 = cached_read_same[OF ch, THEN conjunct1] cached_read_same[OF ch, THEN conjunct2]
  have bkup: "\<exists>bk. pl_backup s = Some bk \<and> op_read (pv_backup env) path bk = Inr d \<and>
      stat_with_operator (pv_backup env) path bk = Inr i" if "h = None" "op_read ?o path ?st = Inl e" for e
    using w ch that s1 by (cases e; cases "pl_backup s") (auto simp: pool_read_def fallback_def dal_res_def split: sum.splits)
  have front: "x = d \<and> stat_with_operator ?o path ?st = Inr i" if "h = None" "op_read ?o path ?st = Inr x" for x
    using w ch that s1 by (auto simp: pool_read_def split: sum.splits)
  have stat: "answers (op_stat ?o path ?st) \<longleftrightarrow> (\<exists>k. stat_with_operator ?o path ?st = Inr k)"
    by (auto simp: stat_with_operator_def answers_def split: sum.splits prod.splits)
  show "c = slice_bytes d a b \<and> j = i \<or> answers (op_read ?o path ?st) \<noteq> answers (op_stat ?o path ?st)"
    if r: "fst (pool_read_range env now path a b s) = Inr (c, j)"
  proof (cases h)
    case (Some hit)
    then have "hit = (d, i)" using w ch by (simp add: pool_read_def)
    then show ?thesis using r ch Some by (auto simp: pool_read_range_def)
  next
    case None
    show ?thesis
    proof (cases "op_read ?o path ?st")
      case (Inr x)
      note f = front[OF None Inr]
      have "serves ?o path ?st d" using assms(1) Inr f by (auto simp: faithful_def)
      from served_reads(1)[OF this, of i a b c j] show ?thesis
        using r ch None s1 f by (simp add: pool_read_range_def Let_def)
    next
      case (Inl e)
      from bkup[OF None Inl] obtain bk where bk: "pl_backup s = Some bk" "op_read (pv_backup env) path bk = Inr d"
        "stat_with_operator (pv_backup env) path bk = Inr i" by blast
      have sv: "serves (pv_backup env) path bk d" using assms(2)[OF bk(1)] bk(2) by (auto simp: faithful_def)
      show ?thesis
      proof (cases "stat_with_operator ?o path ?st")
        case (Inl e2)
        from served_reads(1)[OF sv bk(3), of a b c j] show ?thesis
          using r ch None s1 bk Inl by (simp add: pool_read_range_def Let_def fallback_def)
      qed (use Inl stat in simp)
    qed
  qed
  show "concat cs = slice_bytes d a b \<and> j = i \<or> answers (op_read ?o path ?st) \<noteq> answers (op_reader ?o path ?st)"
    if r: "fst (read_stream_range env now path a b s) = Inr (map Inr cs, j)"
  proof (cases h)
    case (Some hit)
    then have "hit = (d, i)" using w ch by (simp add: pool_read_def)
    then show ?thesis using r ch Some by (auto simp: read_stream_range_def map_eq_Cons_conv Cons_eq_map_conv)
  next
    case None
    show ?thesis
    proof (cases "op_read ?o path ?st")
      case (Inr x)
      note f = front[OF None Inr]
      have "serves ?o path ?st d" using assms(1) Inr f by (auto simp: faithful_def)
      from served_reads(2)[OF this, of i a b cs j] show ?thesis
        using r ch None s1 f Inr by (cases "op_reader ?o path ?st") (auto simp: read_stream_range_def Let_def)
    next
      case (Inl e)
      from bkup[OF None Inl] obtain bk where bk: "pl_backup s = Some bk" "op_read (pv_backup env) path bk = Inr d"
        "stat_with_operator (pv_backup env) path bk = Inr i" by blast
      have sv: "serves (pv_backup env) path bk d" using assms(2)[OF bk(1)] bk(2) by (auto simp: faithful_def)
      show ?thesis
      proof (cases "op_reader ?o path ?st")
        case (Inl e2)
        from served_reads(2)[OF sv bk(3), of a b cs j] show ?thesis
          using r ch None s1 bk Inl
          by (cases e2) (auto simp: read_stream_range_def Let_def fallback_def dal_res_def split: sum.splits prod.splits)
      qed (use Inl in simp)
    qed
  qed
qed

text \<open>
  C36: Wherever the bytes of a file come from - a pending write, the read cache, the primary or the backup - a ranged
  read and a streamed ranged read that succeed return exactly the slice of what the whole read returns, with the
  bounds clamped to the file and the same metadata. The one exception is a primary that is asked differently: the
  whole read turns to the backup when the read fails, the ranged read when the stat fails and the stream when the
  reader cannot be opened, so when the primary answers one of them and refuses the other, the two can come from
  different places. What a primary serves without any failure is also served in ranges. An operator that answers a
  whole read gives no other answer for a part of it; any of its calls may fail.
\<close>

theorem pool_range_is_slice:
  assumes "faithful (primary env) path (pl_primary s)"
    and "\<And>b. pl_backup s = Some b \<Longrightarrow> faithful (pv_backup env) path b"
    and "fst (pool_read env (now, ts) path s) = Inr (d, i)"
  shows "(\<forall>c j. fst (pool_read_range env now path a b s) = Inr (c, j) \<longrightarrow>
            c = slice_bytes d a b \<and> j = i \<or>
            answers (op_read (primary env) path (pl_primary s)) \<noteq> answers (op_stat (primary env) path (pl_primary s))) \<and>
    (\<forall>cs j. fst (read_stream_range env now path a b s) = Inr (map Inr cs, j) \<longrightarrow>
            concat cs = slice_bytes d a b \<and> j = i \<or>
            answers (op_read (primary env) path (pl_primary s)) \<noteq> answers (op_reader (primary env) path (pl_primary s))) \<and>
    (ranged_op (primary env) path (pl_primary s) \<and> answers (op_read (primary env) path (pl_primary s)) \<longrightarrow>
       fst (pool_read_range env now path a b s) = Inr (slice_bytes d a b, i) \<and>
       (\<exists>cs. fst (read_stream_range env now path a b s) = Inr (map Inr cs, i) \<and> concat cs = slice_bytes d a b)) \<and>
    (length d < 2 ^ 64 \<longrightarrow> slice_bytes d a b = take (unat b - unat a) (drop (unat a) d))"
proof -
  let ?o = "primary env" and ?st = "pl_primary s"
  have served: "fst (pool_read_range env now path a b s) = Inr (slice_bytes d a b, i) \<and>
      (\<exists>cs. fst (read_stream_range env now path a b s) = Inr (map Inr cs, i) \<and> concat cs = slice_bytes d a b)"
    if rg: "ranged_op ?o path ?st" and data: "op_read ?o path ?st = Inr x" for x
  proof -
    obtain h s1 where c: "cached_read env now path s = (h, s1)" by fastforce
    note s1 = cached_read_same[OF c, THEN conjunct1]
    show ?thesis
    proof (cases h)
      case (Some hit)
      then have "hit = (d, i)" using assms(3) c by (simp add: pool_read_def)
      then show ?thesis using Some c
        by (auto simp: pool_read_range_def read_stream_range_def intro!: exI[of _ "[slice_bytes d a b]"])
    next
      case None
      from ranged_reads[OF rg data, where a = a and b = b] obtain i'
        where st: "stat_with_operator ?o path ?st = Inr i'"
          and m: "op_reader ?o path ?st = Inr ()"
            "(case clamp_read_range a b (fi_size i') of (x, y) \<Rightarrow>
              res_bind (dal_res (op_read_range ?o path x y ?st)) (\<lambda>data. Inr (data, i'))) = Inr (slice_bytes x a b, i')"
            "\<exists>cs. (case clamp_read_range a b (fi_size i') of (x, y) \<Rightarrow>
              res_bind (dal_res (op_chunks ?o path x y ?st)) (\<lambda>cs. Inr (map dal_res cs, i'))) = Inr (map Inr cs, i') \<and>
              concat cs = slice_bytes x a b"
        by blast
      have "x = d" "i' = i" using assms(3) c None data st s1 by (simp_all add: pool_read_def)
      then show ?thesis using m c None s1 st
        by (simp add: pool_read_range_def read_stream_range_def Let_def)
    qed
  qed
  show ?thesis
    using range_agrees[OF assms] served slice_bytes_eq[of d a b] by (auto simp: answers_def)
qed

section \<open>The read cache never hides a change\<close>

datatype pool_op =
    PRead read_clock string
  | PRange int string u64 u64
  | PWrite string string
  | PStream string "(vfs_error + string) list"
  | PDelete string
  | PCopy string string
  | PMove string string

fun pool_apply :: "'p pool_env \<Rightarrow> pool_op \<Rightarrow> 'p pool \<Rightarrow> 'p pool" where
  "pool_apply env (PRead clk p) s = snd (pool_read env clk p s)"
| "pool_apply env (PRange now p a b) s = snd (pool_read_range env now p a b s)"
| "pool_apply env (PWrite p d) s = snd (pool_write env p d s)"
| "pool_apply env (PStream p cs) s = snd (pool_write_stream env p cs s)"
| "pool_apply env (PDelete p) s = snd (pool_delete env p s)"
| "pool_apply env (PCopy p q) s = snd (pool_copy_file env p q s)"
| "pool_apply env (PMove p q) s = snd (pool_move_file env p q s)"

fun pool_op_paths :: "pool_op \<Rightarrow> string set" where
  "pool_op_paths (PRead clk p) = {p}"
| "pool_op_paths (PRange now p a b) = {p}"
| "pool_op_paths (PWrite p d) = {p}"
| "pool_op_paths (PStream p cs) = {p}"
| "pool_op_paths (PDelete p) = {p}"
| "pool_op_paths (PCopy p q) = {p, q}"
| "pool_op_paths (PMove p q) = {p, q}"

text \<open>
  \<open>fresh env P A s\<close>: a hit of the read cache for a name of \<open>P\<close> is what the primary holds, and there is no
  hit for a name of \<open>A\<close>.
\<close>

definition fresh :: "'p pool_env \<Rightarrow> string set \<Rightarrow> string set \<Rightarrow> 'p pool \<Rightarrow> bool" where
  "fresh env P A s \<longleftrightarrow>
     pl_write s = None \<and>
     (\<forall>r. pl_read s = Some r \<longrightarrow> rc_wf (read_env env) r \<and>
        (\<forall>p \<in> P. \<forall>now d i. fst (rc_get (read_env env) now p r) = Some (d, i) \<longrightarrow>
           p \<notin> A \<and> op_read (primary env) p (pl_primary s) = Inr d))"

lemma freshI:
  assumes "pl_write s = None"
    and "\<And>r. pl_read s = Some r \<Longrightarrow> rc_wf (read_env env) r"
    and "\<And>r p now d i. pl_read s = Some r \<Longrightarrow> p \<in> P \<Longrightarrow> fst (rc_get (read_env env) now p r) = Some (d, i) \<Longrightarrow>
           p \<notin> A \<and> op_read (primary env) p (pl_primary s) = Inr d"
  shows "fresh env P A s"
  unfolding fresh_def using assms by blast

lemma freshD:
  assumes "fresh env P A s" and "pl_read s = Some r"
  shows "rc_wf (read_env env) r"
    and "p \<in> P \<Longrightarrow> fst (rc_get (read_env env) now p r) = Some (d, i) \<Longrightarrow>
           p \<notin> A \<and> op_read (primary env) p (pl_primary s) = Inr d"
  using assms unfolding fresh_def by blast+

lemma fresh_no_write: "fresh env P A s \<Longrightarrow> pl_write s = None"
  by (simp add: fresh_def)

lemma rc_get_removed_Some:
  assumes "rc_wf e r" and "fst (rc_get e now p (rc_remove e q r)) = Some x"
  shows "p \<noteq> q \<and> fst (rc_get e now p r) = Some x"
proof (cases "p = q")
  case True
  then show ?thesis using assms(2) by (simp add: rc_get_result rc_remove_entries split: if_splits)
next
  case False
  then show ?thesis using assms(2) rc_shrinks_get[OF rc_remove_shrinks[of r e q] assms(1), of now p] by simp
qed

lemma fresh_invalidate:
  assumes "fresh env P A s"
  shows "fresh env P (insert q A) (invalidate_read_cache env q s)"
proof (rule freshI)
  show "pl_write (invalidate_read_cache env q s) = None"
    using fresh_no_write[OF assms] by (simp add: invalidate_read_cache_def)
next
  fix r assume "pl_read (invalidate_read_cache env q s) = Some r"
  then obtain r0 where r0: "pl_read s = Some r0" "r = rc_remove (read_env env) q r0"
    by (auto simp: invalidate_read_cache_def)
  show "rc_wf (read_env env) r"
    using rc_shrinks_wf[OF rc_remove_shrinks freshD(1)[OF assms r0(1)]] r0(2) by simp
  fix p now d i
  assume p: "p \<in> P" and hit: "fst (rc_get (read_env env) now p r) = Some (d, i)"
  note old = rc_get_removed_Some[OF freshD(1)[OF assms r0(1)] hit[unfolded r0(2)]]
  then show "p \<notin> insert q A \<and> op_read (primary env) p (pl_primary (invalidate_read_cache env q s)) = Inr d"
    using freshD(2)[OF assms r0(1) p, of now d i] by (simp add: invalidate_read_cache_def)
qed

lemma fresh_primary:
  assumes "fresh env P A s" and "\<And>p. p \<in> P - A \<Longrightarrow> op_read (primary env) p (snd (u (pl_primary s))) = op_read (primary env) p (pl_primary s)"
  shows "fresh env P A (snd (on_primary u s))"
proof -
  have "snd (on_primary u s) = s\<lparr>pl_primary := snd (u (pl_primary s))\<rparr>"
    by (simp add: on_primary_def split: prod.split)
  then show ?thesis
    using freshD[OF assms(1)] fresh_no_write[OF assms(1)] assms(2) by (intro freshI) auto
qed

lemma fresh_bind:
  assumes "fresh env P A (snd (m s))" and "\<And>x s'. fresh env P A s' \<Longrightarrow> fresh env P A (snd (f x s'))"
  shows "fresh env P A (snd (st_bind m f s))"
  using assms by (auto simp: st_bind_def split: prod.split sum.split)

lemma fresh_stat: "fresh env P A s \<Longrightarrow> fresh env P A (snd (then_stat env p u s))"
  by (simp add: then_stat_def)

lemma fresh_weaken: "fresh env P A s \<Longrightarrow> fresh env P {} s"
  by (rule freshI) (auto dest: freshD fresh_no_write)

lemma fresh_get:
  "fresh env P {} s \<Longrightarrow> cached_read env now p s = (h, s1) \<Longrightarrow>
   fresh env P {} s1 \<and> pl_primary s1 = pl_primary s \<and> pl_backup s1 = pl_backup s \<and>
   (\<forall>d i. h = Some (d, i) \<longrightarrow> p \<in> P \<longrightarrow> op_read (primary env) p (pl_primary s) = Inr d)"
proof (cases "pl_read s")
  case None
  then show "fresh env P {} s \<Longrightarrow> cached_read env now p s = (h, s1) \<Longrightarrow> ?thesis"
    by (auto simp: cached_read_def with_write_cache_def fresh_def)
next
  case (Some r)
  assume f: "fresh env P {} s" and c: "cached_read env now p s = (h, s1)"
  let ?g = "rc_get (read_env env) now p r"
  have h: "h = fst ?g" "s1 = s\<lparr>pl_read := Some (snd ?g)\<rparr>"
    using c f Some by (auto simp: cached_read_def with_write_cache_def fresh_def split: prod.splits)
  have wf: "rc_wf (read_env env) r"
    and hit: "\<And>q now d i. q \<in> P \<Longrightarrow> fst (rc_get (read_env env) now q r) = Some (d, i) \<Longrightarrow>
                op_read (primary env) q (pl_primary s) = Inr d"
    using freshD[OF f Some] by blast+
  have "op_read (primary env) q (pl_primary s) = Inr d"
    if "q \<in> P" "fst (rc_get (read_env env) t q (snd ?g)) = Some (d, i)" for q t d i
    using rc_get_frame[OF wf, of t q now p] that hit[of q t d i] wf by auto
  moreover have "rc_wf (read_env env) (snd ?g)" by (rule rc_get_shrinks_wf[OF wf])
  ultimately have "fresh env P {} s1"
    using fresh_no_write[OF f] h(2) by (intro freshI) auto
  then show ?thesis using h hit by auto
qed

lemma fresh_put:
  assumes "fresh env P {} s" and "op_read (primary env) p (pl_primary s) = Inr d"
    and "inj_on (hash (read_env env)) P" and "p \<in> P"
  shows "fresh env P {} (s\<lparr>pl_read := map_option (rc_put (read_env env) (t1, t2, t3) p d i) (pl_read s)\<rparr>)"
proof -
  have "op_read (primary env) q (pl_primary s) = Inr x"
    if r: "pl_read s = Some r" and q: "q \<in> P"
      and g: "fst (rc_get (read_env env) now q (rc_put (read_env env) (t1, t2, t3) p d i r)) = Some (x, j)" for r q now x j
  proof -
    have wf: "rc_wf (read_env env) r" by (rule freshD(1)[OF assms(1) r])
    have "q \<noteq> p \<Longrightarrow> hash (read_env env) q \<noteq> hash (read_env env) p"
      using assms(3,4) q by (auto simp: inj_on_def)
    from rc_put_serves[OF wf this, of now t1 t2 t3 d i] g
    have "(if q = p \<and> rc_should_cache r p (word_of_nat (length d)) then Some (d, i)
           else fst (rc_get (read_env env) now q r)) = Some (x, j)" by auto
    then show ?thesis using freshD(2)[OF assms(1) r q] assms(2) by (auto split: if_splits)
  qed
  then show ?thesis
    using fresh_no_write[OF assms(1)] freshD(1)[OF assms(1)]
    by (intro freshI) (auto intro!: rc_put_wf)
qed

definition pool_env_ok :: "'p pool_env \<Rightarrow> string set \<Rightarrow> bool" where
  "pool_env_ok env P \<longleftrightarrow>
     lawful_op (primary env) P \<and> files_op (primary env) P \<and> files_op (pv_backup env) P \<and>
     inj_on (hash (read_env env)) P \<and> (\<forall>p \<in> P. p @ ''.tmp'' \<notin> P)"

lemma fresh_leaves:
  "fresh env P A s \<Longrightarrow> leaves (primary env) (P - A) u \<Longrightarrow> fresh env P A (snd (on_primary u s))"
  by (rule fresh_primary) (simp_all add: leaves_def)

lemma leaves_mono: "leaves opr Q u \<Longrightarrow> R \<subseteq> Q \<Longrightarrow> leaves opr R u"
  by (auto simp: leaves_def)

lemma lawful_leaves: "lawful_op opr P \<Longrightarrow> p \<in> P \<Longrightarrow> leaves opr (P - {p}) (op_write opr p d)"
  by (auto simp: leaves_def lawful_op_def)

lemma files_leaves:
  assumes "files_op opr P"
  shows "p \<in> P \<Longrightarrow> leaves opr (P - {p}) (op_delete opr p)"
    and "p \<in> P \<Longrightarrow> q \<in> P \<Longrightarrow> leaves opr (P - {q}) (op_copy opr p q)"
    and "q \<in> P \<Longrightarrow> leaves opr (P - {p, q}) (op_rename opr p q)"
    and "leaves opr (P - {p}) (op_writer opr p)" "leaves opr (P - {p}) (op_close opr p)"
    and "leaves opr (P - {p}) (op_append opr p d)"
  using assms by (simp_all add: files_op_def)

lemma files_stat: "files_op opr P \<Longrightarrow> p \<in> P \<Longrightarrow> stat_with_operator opr p st = Inr i \<Longrightarrow> \<not> fi_is_dir i"
  by (auto simp: files_op_def stat_with_operator_def to_vfs_file_info_def split: sum.splits prod.splits)

lemma pool_stat_file:
  assumes "pool_env_ok env P" and "p \<in> P" and "pl_write s = None" and "pool_stat env p s = Inr i"
  shows "\<not> fi_is_dir i"
  using assms files_stat[of "primary env" P p] files_stat[of "pv_backup env" P p]
  by (auto simp: pool_env_ok_def pool_stat_def pool_pending_stat_def fallback_def split: sum.splits option.splits)

lemma append_chunks_fresh:
  "fresh env P A s \<Longrightarrow> (\<And>d. leaves (primary env) (P - A) (op_append (primary env) t d)) \<Longrightarrow>
   fresh env P A (snd (append_chunks env t cs s))"
  by (induction env t cs s rule: append_chunks.induct) (auto intro!: fresh_bind fresh_leaves)

lemma pool_read_fresh:
  assumes ok: "pool_env_ok env P" and p: "p \<in> P" and f: "fresh env P {} s"
    and r: "pool_read env clk p s = (res, s')"
  shows "fresh env P {} s' \<and> pl_primary s' = pl_primary s \<and>
    (\<forall>d i. res = Inr (d, i) \<longrightarrow> op_read (primary env) p (pl_primary s) = Inr d \<or>
       (\<exists>e b. op_read (primary env) p (pl_primary s) = Inl e \<and> pl_backup s = Some b \<and> op_read (pv_backup env) p b = Inr d))"
proof -
  obtain now t1 t2 t3 where clk: "clk = (now, t1, t2, t3)" by (cases clk) auto
  obtain h s1 where c: "cached_read env now p s = (h, s1)" by fastforce
  note g = fresh_get[OF f c]
  have inj: "inj_on (hash (read_env env)) P" using ok by (simp add: pool_env_ok_def)
  show ?thesis
  proof (cases h)
    case (Some hit)
    then show ?thesis using r c clk g p by (cases hit) (auto simp: pool_read_def)
  next
    case None
    show ?thesis
    proof (cases "op_read (primary env) p (pl_primary s)")
      case (Inl e)
      then show ?thesis using r c clk g None
        by (cases e; cases "pl_backup s") (auto simp: pool_read_def fallback_def dal_res_def split: sum.splits)
    next
      case (Inr d)
      then have d: "op_read (primary env) p (pl_primary s1) = Inr d" using g by simp
      show ?thesis
      proof (cases "stat_with_operator (primary env) p (pl_primary s1)")
        case (Inl e)
        then show ?thesis using r c clk g None d by (auto simp: pool_read_def)
      next
        case (Inr i)
        from fresh_put[OF g[THEN conjunct1] d inj p, of t1 t2 t3 i]
        show ?thesis using r c clk g None d Inr by (auto simp: pool_read_def)
      qed
    qed
  qed
qed

lemma pool_apply_fresh:
  assumes ok: "pool_env_ok env P" and f: "fresh env P {} s" and sub: "pool_op_paths op \<subseteq> P"
  shows "fresh env P {} (pool_apply env op s)"
proof -
  have l: "lawful_op (primary env) P" and fo: "files_op (primary env) P"
    using ok by (simp_all add: pool_env_ok_def)
  note inv = fresh_invalidate[OF f] fresh_invalidate[OF fresh_invalidate[OF f]]
  show ?thesis
  proof (cases op)
    case (PRead clk p)
    then show ?thesis
      using pool_read_fresh[OF ok _ f, of p clk] sub by (cases "pool_read env clk p s") auto
  next
    case (PRange now p a b)
    obtain h s1 where c: "cached_read env now p s = (h, s1)" by fastforce
    have "snd (pool_read_range env now p a b s) = s1"
      using c by (auto simp: pool_read_range_def Let_def split: option.split prod.split sum.split)
    then show ?thesis using fresh_get[OF f c] PRange by simp
  next
    case (PWrite p d)
    then show ?thesis
      using sub lawful_leaves[OF l, of p d]
      by (auto simp: pool_write_def intro!: fresh_weaken[OF fresh_bind] fresh_leaves[OF inv(1)] fresh_stat)
  next
    case (PStream p cs)
    have t: "p @ ''.tmp'' \<notin> P" and p: "p \<in> P" using ok sub PStream by (auto simp: pool_env_ok_def)
    have le: "leaves (primary env) (P - {p}) (op_writer (primary env) (p @ ''.tmp''))"
        "leaves (primary env) (P - {p}) (op_close (primary env) (p @ ''.tmp''))"
        "leaves (primary env) (P - {p}) (op_append (primary env) (p @ ''.tmp'') d)"
        "leaves (primary env) (P - {p}) (op_rename (primary env) (p @ ''.tmp'') p)" for d
      by (rule leaves_mono[OF files_leaves(4)[OF fo]] leaves_mono[OF files_leaves(5)[OF fo]]
            leaves_mono[OF files_leaves(6)[OF fo]] leaves_mono[OF files_leaves(3)[OF fo p]]; use t in blast)+
    show ?thesis
      unfolding PStream pool_apply.simps pool_write_stream_def Let_def
      by (rule fresh_weaken, rule fresh_bind, rule fresh_leaves, rule inv(1), rule le(1), rule fresh_bind,
          erule append_chunks_fresh, rule le(3), rule fresh_bind, erule fresh_leaves, rule le(2),
          rule fresh_bind, erule fresh_leaves, rule le(4), erule fresh_stat)
  next
    case (PDelete p)
    then have p: "p \<in> P" using sub by simp
    show ?thesis
    proof (cases "pool_stat env p s")
      case (Inl e)
      then show ?thesis using f PDelete by (simp add: pool_delete_def)
    next
      case (Inr i)
      then have "\<not> fi_is_dir i" by (rule pool_stat_file[OF ok p fresh_no_write[OF f]])
      then show ?thesis
        using Inr PDelete files_leaves(1)[OF fo p]
        by (auto simp: pool_delete_def intro!: fresh_weaken[OF fresh_bind] fresh_leaves[OF inv(1)])
    qed
  next
    case (PCopy p q)
    then show ?thesis
      using sub files_leaves(2)[OF fo, of p q, THEN leaves_mono, of "P - {q, p}"]
      by (auto simp: pool_copy_file_def intro!: fresh_weaken[OF fresh_bind] fresh_leaves[OF inv(2)] fresh_stat)
  next
    case (PMove p q)
    then show ?thesis
      using sub files_leaves(3)[OF fo, of q p]
      by (auto simp: pool_move_file_def insert_commute intro!: fresh_weaken[OF fresh_bind] fresh_leaves[OF inv(2)] fresh_stat)
  qed
qed

text \<open>
  C35: The read cache of a pool never serves stale bytes. Whatever sequence of reads, ranged reads, writes,
  streamed writes, deletions, copies and moves was run on file names whose digests differ, a successful read
  returns what the primary holds at that moment, or, when the primary refuses the read, what the backup
  holds. The pool has no write cache and starts with an empty read cache; on these names the operators treat
  objects as separate files (a write reads back, and no call changes another object than those it names). None of
  the names is the staging object \<open>p.tmp\<close> of another: a streamed write of \<open>p\<close> changes that object without telling
  the cache (\<open>staging_object_stale\<close>).
\<close>

theorem pool_never_stale:
  assumes "pool_env_ok env P" and "\<Union> (pool_op_paths ` set ops) \<subseteq> P" and "p \<in> P"
    and "pl_write s = None" and "\<And>r. pl_read s = Some r \<Longrightarrow> rc_entries r = []"
    and "s' = fold (pool_apply env) ops s" and "fst (pool_read env clk p s') = Inr (d, i)"
  shows "op_read (primary env) p (pl_primary s') = Inr d \<or>
     (\<exists>e b. op_read (primary env) p (pl_primary s') = Inl e \<and> pl_backup s' = Some b \<and> op_read (pv_backup env) p b = Inr d)"
proof -
  have "fresh env P {} s"
    using assms(4,5) by (intro freshI) (auto simp: rc_wf_def rc_get_result split: if_splits)
  then have "fresh env P {} s'"
    using assms(2) unfolding assms(6)
    by (induction ops arbitrary: s) (auto intro!: pool_apply_fresh[OF assms(1)])
  with assms(7) show ?thesis
    using pool_read_fresh[OF assms(1,3)] by (cases "pool_read env clk p s'") auto
qed

section \<open>The staging object of a streamed write\<close>

lemma append_chunks_frame: "append_chunks env t cs s = (r, s') \<Longrightarrow> pl_read s' = pl_read s \<and> pl_write s' = pl_write s"
  by (induction env t cs s arbitrary: r rule: append_chunks.induct)
    (auto simp: st_bind_def on_primary_def split: prod.splits sum.splits)

lemma pool_write_stream_frame:
  "pl_read (snd (pool_write_stream env p cs s)) = map_option (rc_remove (read_env env) p) (pl_read s) \<and>
   pl_write (snd (pool_write_stream env p cs s)) = pl_write s"
  by (auto simp: pool_write_stream_def st_bind_def on_primary_def then_stat_def invalidate_read_cache_def Let_def
      dest!: append_chunks_frame split: prod.split sum.split)

text \<open>
  A copy of the staging object in the read cache survives a streamed write, which has renamed the object away.
\<close>

lemma staging_object_stale:
  assumes "pl_write s = None" "pl_read s = Some r" "rc_enabled r" "policy_allows (rc_policy r) (p @ ''.tmp'')"
    and "map_of (rc_entries r) (p @ ''.tmp'') = Some e" "re_blob e = MemBlob d" "now < re_expires e"
  shows "\<exists>i. fst (pool_read env (now, ts) (p @ ''.tmp'') (snd (pool_write_stream env p cs s))) = Inr (d, i)"
proof -
  let ?s1 = "snd (pool_write_stream env p cs s)" and ?r1 = "rc_remove (read_env env) p r"
  have fr: "pl_read ?s1 = Some ?r1" "pl_write ?s1 = None" using pool_write_stream_frame[of env p cs s] assms(1,2) by auto
  have same: "rc_enabled ?r1 = rc_enabled r" "rc_policy ?r1 = rc_policy r"
    using rc_remove_shrinks[of r "read_env env" p] by (simp_all add: rc_shrinks_def)
  have "map_of (rc_entries ?r1) (p @ ''.tmp'') = Some e" using assms(5) by (simp add: rc_remove_entries)
  then have "fst (rc_get (read_env env) now (p @ ''.tmp'') ?r1) = Some (d, re_info e)"
    using assms(3,4,6,7) same by (simp add: rc_get_result)
  then show ?thesis
    by (cases "rc_get (read_env env) now (p @ ''.tmp'') ?r1") (simp add: pool_read_def cached_read_def with_write_cache_def fr)
qed

section \<open>Streamed writes\<close>

lemma on_primary_Inr:
  "on_primary u s = (Inr (), s') \<Longrightarrow> \<exists>st. u (pl_primary s) = (Inr (), st) \<and> s' = s\<lparr>pl_primary := st\<rparr>"
  by (auto simp: on_primary_def dal_res_def split: prod.splits sum.splits)

lemma on_primary_leaves:
  "leaves opr {p} u \<Longrightarrow> on_primary u s = (r, s') \<Longrightarrow> op_read opr p (pl_primary s') = op_read opr p (pl_primary s)"
  by (auto simp: on_primary_def leaves_def split: prod.splits dest!: spec[of _ "pl_primary s"])

lemma append_chunks_all:
  "append_chunks env t cs s = (Inr (), s') \<Longrightarrow>
   \<exists>ds. cs = map Inr ds \<and> append_all (primary env) t ds (pl_primary s) = (Inr (), pl_primary s')"
proof (induction env t cs s rule: append_chunks.induct)
  case (3 env t c cs s)
  then obtain s1 where s1: "on_primary (op_append (primary env) t c) s = (Inr (), s1)" "append_chunks env t cs s1 = (Inr (), s')"
    by (auto simp: st_bind_def split: prod.splits sum.splits)
  from "3.IH"[OF s1(2)] obtain ds where "cs = map Inr ds" "append_all (primary env) t ds (pl_primary s1) = (Inr (), pl_primary s')"
    by blast
  then show ?case using on_primary_Inr[OF s1(1)] by (intro exI[of _ "c # ds"]) auto
qed auto

lemma append_chunks_leaves:
  assumes "\<And>c. leaves (primary env) {p} (op_append (primary env) t c)"
  shows "append_chunks env t cs s = (r, s') \<Longrightarrow> op_read (primary env) p (pl_primary s') = op_read (primary env) p (pl_primary s)"
proof (induction cs arbitrary: s)
  case (Cons a cs)
  show ?case
  proof (cases a)
    case (Inr c)
    obtain r1 s1 where s1: "on_primary (op_append (primary env) t c) s = (r1, s1)" by fastforce
    then show ?thesis
      using Cons Inr on_primary_leaves[OF assms s1] by (cases r1) (auto simp: st_bind_def)
  qed (use Cons in auto)
qed simp

lemma pool_stream_result:
  assumes "streaming_op (primary env) (path @ ''.tmp'') path" and "pool_write_stream env path stream s = (r, s')"
  shows "(r = Inr info \<longrightarrow> (\<exists>ds. stream = map Inr ds \<and> op_read (primary env) path (pl_primary s') = Inr (concat ds) \<and>
           (\<exists>e. op_read (primary env) (path @ ''.tmp'') (pl_primary s') = Inl e))) \<and>
         (op_read (primary env) path (pl_primary s') = op_read (primary env) path (pl_primary s) \<or>
          (\<exists>ds st1. stream = map Inr ds \<and> streamed (primary env) (path @ ''.tmp'') ds (pl_primary s) = (Inr (), st1) \<and>
             pl_primary s' = snd (op_rename (primary env) (path @ ''.tmp'') path st1)))"
proof -
  let ?t = "path @ ''.tmp''" and ?o = "primary env"
  let ?s0 = "invalidate_read_cache env path s"
  note laws = streamingD[OF assms(1)]
  obtain r1 s1 where w: "on_primary (op_writer ?o ?t) ?s0 = (r1, s1)" by fastforce
  obtain r2 s2 where a: "append_chunks env ?t stream s1 = (r2, s2)" by fastforce
  obtain r3 s3 where c: "on_primary (op_close ?o ?t) s2 = (r3, s3)" by fastforce
  obtain r4 s4 where m: "on_primary (op_rename ?o ?t path) s3 = (r4, s4)" by fastforce
  have run: "pool_write_stream env path stream s =
      (case r1 of Inl e \<Rightarrow> (Inl e, s1) | Inr _ \<Rightarrow>
       (case r2 of Inl e \<Rightarrow> (Inl e, s2) | Inr _ \<Rightarrow>
       (case r3 of Inl e \<Rightarrow> (Inl e, s3) | Inr _ \<Rightarrow>
       (case r4 of Inl e \<Rightarrow> (Inl e, s4) | Inr _ \<Rightarrow> (pool_stat env path s4, s4)))))"
    by (cases r1; cases r2; cases r3; cases r4)
      (simp_all add: pool_write_stream_def Let_def st_bind_def w a c m then_stat_def)
  have s0: "pl_primary ?s0 = pl_primary s" by (simp add: invalidate_read_cache_def)
  have keep: "op_read ?o path (pl_primary s1) = op_read ?o path (pl_primary s)"
      "op_read ?o path (pl_primary s2) = op_read ?o path (pl_primary s)"
      "op_read ?o path (pl_primary s3) = op_read ?o path (pl_primary s)"
    using on_primary_leaves[OF laws(3) w] append_chunks_leaves[OF laws(5) a] on_primary_leaves[OF laws(4) c] s0 by simp_all
  show ?thesis
  proof (cases "r1 = Inr () \<and> r2 = Inr () \<and> r3 = Inr ()")
    case False
    then show ?thesis using run assms(2) keep by (cases r1; cases r2; cases r3) auto
  next
    case True
    then have ok: "r1 = Inr ()" "r2 = Inr ()" "r3 = Inr ()" by simp_all
    obtain ds where ds: "stream = map Inr ds" "append_all ?o ?t ds (pl_primary s1) = (Inr (), pl_primary s2)"
      using append_chunks_all[OF a[unfolded ok]] by blast
    have staged: "streamed ?o ?t ds (pl_primary s) = (Inr (), pl_primary s3)"
      using on_primary_Inr[OF w[unfolded ok]] on_primary_Inr[OF c[unfolded ok]] ds(2) s0 by (auto simp: streamed_def)
    have s4: "s' = s4" "pl_primary s4 = snd (op_rename ?o ?t path (pl_primary s3))"
      using run assms(2) ok m by (auto simp: on_primary_def split: sum.splits prod.splits)
    have "op_read ?o path (pl_primary s4) = Inr (concat ds) \<and> (\<exists>e. op_read ?o ?t (pl_primary s4) = Inl e)" if "r = Inr info"
    proof -
      have "r4 = Inr ()" using run assms(2) ok that by (cases r4) auto
      from on_primary_Inr[OF m[unfolded this]] show ?thesis using laws(2)[OF laws(1)[OF staged]] by auto
    qed
    then show ?thesis using ds(1) staged s4 by blast
  qed
qed

text \<open>
  C37: A streamed write is all or nothing for its target. When it succeeds, every item of the stream was a chunk and
  the target holds exactly their concatenation. Whatever it answers, the target still holds what it held before,
  unless every item was a chunk and the staging object \<open>path.tmp\<close> was written and closed without an error: then
  what happened to the target is what the final rename did. So an error item in the stream, a refused chunk or a
  refused close leave the target alone. The staging object is gone after a success, also when it was a file of the
  user. The chunks need not be visible before the staging object is closed.
\<close>

theorem pool_stream_atomic:
  assumes "streaming_op (primary env) (path @ ''.tmp'') path" and "pool_write_stream env path stream s = (r, s')"
  shows "(r = Inr info \<longrightarrow> (\<exists>ds. stream = map Inr ds \<and> op_read (primary env) path (pl_primary s') = Inr (concat ds) \<and>
           (\<exists>e. op_read (primary env) (path @ ''.tmp'') (pl_primary s') = Inl e))) \<and>
         (op_read (primary env) path (pl_primary s') = op_read (primary env) path (pl_primary s) \<or>
          (\<exists>ds st1. stream = map Inr ds \<and> streamed (primary env) (path @ ''.tmp'') ds (pl_primary s) = (Inr (), st1) \<and>
             pl_primary s' = snd (op_rename (primary env) (path @ ''.tmp'') path st1))) \<and>
         (Inl e \<in> set stream \<longrightarrow> op_read (primary env) path (pl_primary s') = op_read (primary env) path (pl_primary s))"
proof -
  note res = pool_stream_result[OF assms]
  have "Inl e \<notin> set (map Inr ds)" for ds :: "string list" by auto
  then show ?thesis using res by blast
qed

section \<open>Witnesses\<close>

definition px_env :: "(string \<Rightarrow> string option) pool_env" where
  "px_env = \<lparr>pv_wc = \<lparr>we_fs = ex_env, we_read = ex_env, we_uuid = (\<lambda>n. []), we_op = map_op (\<lambda>_. False),
               we_recorder = False\<rparr>, pv_backup = map_op (\<lambda>_. False)\<rparr>"

definition px_pool :: "(string \<Rightarrow> string option) pool" where
  "px_pool = \<lparr>pl_primary = [''b'' \<mapsto> ''old'', ''b.tmp'' \<mapsto> ''mine''], pl_backup = None,
              pl_read = Some (ex_cache\<lparr>rc_entries := [], rc_accounted := 0\<rparr>), pl_write = None\<rparr>"

definition px_ops :: "pool_op list" where
  "px_ops = [PWrite ''a'' ''x1'', PRead (1, 1, 1, 1) ''a'', PWrite ''a'' ''x2'']"

lemma px_env_simps:
  "primary px_env = map_op (\<lambda>_. False)" "pv_backup px_env = map_op (\<lambda>_. False)" "read_env px_env = ex_env"
  by (simp_all add: px_env_def)

lemma px_env_ok: "pool_env_ok px_env {''a'', ''b''}"
  by (simp add: pool_env_ok_def px_env_simps lawful_map_op files_map_op inj_on_def)

lemma pool_write_frame: "pl_backup (snd (pool_write env p d s)) = pl_backup s"
  by (simp add: pool_write_def st_bind_def on_primary_def then_stat_def invalidate_read_cache_def split: prod.split sum.split)

lemma pool_read_frame:
  assumes "fresh env P {} s"
  shows "pl_backup (snd (pool_read env clk p s)) = pl_backup s"
proof -
  obtain now ts where clk: "clk = (now, ts)" by (cases clk) auto
  obtain h s1 where c: "cached_read env now p s = (h, s1)" by fastforce
  show ?thesis
    using fresh_get[OF assms c] by (auto simp: pool_read_def clk c split: option.split sum.split)
qed

lemma read_after_write:
  assumes "pl_write s = None" and "op_write (primary env) p d (pl_primary s) = (Inr (), st)"
    and "op_read (primary env) p st = Inr d" and "op_stat (primary env) p st = Inr m"
  shows "fst (pool_read env clk p (snd (pool_write env p d s))) = Inr (d, to_vfs_file_info p m)"
proof -
  obtain now ts where clk: "clk = (now, ts)" by (cases clk) auto
  have w: "snd (pool_write env p d s) =
      s\<lparr>pl_read := map_option (rc_remove (read_env env) p) (pl_read s), pl_primary := st\<rparr>"
    using assms(2) by (simp add: pool_write_def st_bind_def on_primary_def then_stat_def invalidate_read_cache_def)
  have g: "fst (rc_get (read_env env) now p (rc_remove (read_env env) p r)) = None" for r
    by (simp add: rc_get_result rc_remove_entries)
  have "\<exists>r'. cached_read env now p (snd (pool_write env p d s)) = (None, s\<lparr>pl_read := r', pl_primary := st\<rparr>)"
  proof (cases "pl_read s")
    case None
    then show ?thesis using assms(1) unfolding w
      by (intro exI[of _ None]) (simp add: cached_read_def with_write_cache_def)
  next
    case (Some r)
    obtain r' where "rc_get (read_env env) now p (rc_remove (read_env env) p r) = (None, r')"
      using g[of r] by (metis prod.collapse)
    then show ?thesis using Some assms(1) unfolding w
      by (intro exI[of _ "Some r'"]) (simp add: cached_read_def with_write_cache_def)
  qed
  then obtain r' where "cached_read env now p (snd (pool_write env p d s)) =
      (None, s\<lparr>pl_read := r', pl_primary := st\<rparr>)" ..
  then show ?thesis
    using assms(3,4) by (simp add: pool_read_def clk stat_with_operator_def)
qed

lemma px_fresh: "fresh px_env {''a'', ''b''} {} px_pool"
  by (rule freshI) (auto simp: px_pool_def rc_wf_def rc_get_result split: if_splits)

lemma pool_never_stale_witness:
  "op_read (primary px_env) ''a'' (pl_primary (fold (pool_apply px_env) px_ops px_pool)) = Inr ''x2''"
proof -
  define s1 where "s1 = pool_apply px_env (PWrite ''a'' ''x1'') px_pool"
  define s2 where "s2 = pool_apply px_env (PRead (1, 1, 1, 1) ''a'') s1"
  have run: "fold (pool_apply px_env) px_ops px_pool = snd (pool_write px_env ''a'' ''x2'' s2)"
    by (simp add: px_ops_def s1_def s2_def)
  have f1: "fresh px_env {''a'', ''b''} {} s1"
    unfolding s1_def by (rule pool_apply_fresh[OF px_env_ok px_fresh]) simp
  then have f2: "fresh px_env {''a'', ''b''} {} s2"
    unfolding s2_def by (rule pool_apply_fresh[OF px_env_ok]) simp
  have "pl_backup s2 = None"
    using pool_read_frame[OF f1] by (simp add: s2_def s1_def pool_write_frame) (simp add: px_pool_def)
  then have b: "pl_backup (snd (pool_write px_env ''a'' ''x2'' s2)) = None" by (simp add: pool_write_frame)
  obtain i where r: "fst (pool_read px_env (2, 2, 2, 2) ''a'' (snd (pool_write px_env ''a'' ''x2'' s2))) = Inr (''x2'', i)"
    using read_after_write[OF fresh_no_write[OF f2], of px_env "''a''" "''x2''"]
    by (auto simp: px_env_simps map_op_def)
  have "pl_write px_pool = None" "\<And>r. pl_read px_pool = Some r \<Longrightarrow> rc_entries r = []"
    by (auto simp: px_pool_def)
  from pool_never_stale[OF px_env_ok _ _ this refl r[folded run]] b run show ?thesis
    by (simp add: px_ops_def)
qed

lemma px_read_b: "\<exists>i. fst (pool_read px_env (1, 1, 1, 1) ''b'' px_pool) = Inr (''old'', i)"
  by (simp add: pool_read_def cached_read_def with_write_cache_def rc_get_def rc_miss_def px_pool_def px_env_simps
      map_op_def stat_with_operator_def split: if_splits)

lemma pool_range_is_slice_witness:
  "\<exists>i. fst (pool_read_range px_env 1 ''b'' 1 9 px_pool) = Inr (''ld'', i)"
proof -
  have f: "faithful (primary px_env) ''b'' (pl_primary px_pool)"
    unfolding px_env_simps by (rule faithful_map_op) (auto simp: px_pool_def split: if_splits)
  have bk: "\<And>b. pl_backup px_pool = Some b \<Longrightarrow> faithful (pv_backup px_env) ''b'' b" by (simp add: px_pool_def)
  have rg: "ranged_op (primary px_env) ''b'' (pl_primary px_pool)"
    unfolding px_env_simps by (rule ranged_map_op) (auto simp: px_pool_def split: if_splits)
  have an: "answers (op_read (primary px_env) ''b'' (pl_primary px_pool))"
    by (simp add: px_env_simps px_pool_def map_op_def)
  have "slice_bytes ''old'' 1 9 = ''ld''" by code_simp
  with pool_range_is_slice[OF f bk, of 1 "(1, 1, 1)" "''old''" _ 1 9] px_read_b rg an show ?thesis by auto
qed

text \<open>A primary whose reads fail while it still gives lengths and ranges: two reads of a file, two contents.\<close>

definition px_torn :: "(string \<Rightarrow> string option) pool_env" where
  "px_torn = px_env\<lparr>pv_wc := (pv_wc px_env)\<lparr>we_op := (map_op (\<lambda>_. False))\<lparr>op_read := (\<lambda>p st. Inl (DalUnexpected, ''io''))\<rparr>\<rparr>\<rparr>"

lemma range_from_elsewhere:
  "\<exists>i j. fst (pool_read px_torn (1, 1, 1, 1) ''b'' (px_pool\<lparr>pl_backup := Some [''b'' \<mapsto> ''copy'']\<rparr>)) = Inr (''copy'', i) \<and>
     fst (pool_read_range px_torn 1 ''b'' 0 9 (px_pool\<lparr>pl_backup := Some [''b'' \<mapsto> ''copy'']\<rparr>)) = Inr (''old'', j)"
  by (simp add: pool_read_def pool_read_range_def cached_read_def with_write_cache_def rc_get_def rc_miss_def px_pool_def
      px_torn_def px_env_def map_op_def stat_with_operator_def fallback_def dal_res_def clamp_read_range_def
      to_vfs_file_info_def Let_def split: if_splits)

lemma pool_stream_atomic_witness:
  "op_read (primary px_env) ''b'' (pl_primary (snd (pool_write_stream px_env ''b'' [Inr ''xy'', Inr ''z''] px_pool))) = Inr ''xyz'' \<and>
   (\<exists>e. op_read (primary px_env) ''b.tmp'' (pl_primary (snd (pool_write_stream px_env ''b'' [Inr ''xy'', Inr ''z''] px_pool))) = Inl e) \<and>
   op_read (primary px_env) ''b'' (pl_primary (snd (pool_write_stream px_env ''b'' [Inr ''q'', Inl QuotaExceeded] px_pool))) = Inr ''old''"
proof -
  have st: "streaming_op (primary px_env) (''b'' @ ''.tmp'') ''b''"
    unfolding px_env_simps by (rule streaming_map_op) simp
  let ?run = "pool_write_stream px_env ''b'' [Inr ''xy'', Inr ''z''] px_pool"
  obtain i where ok: "fst ?run = Inr i"
    by (simp add: pool_write_stream_def Let_def st_bind_def on_primary_def then_stat_def invalidate_read_cache_def
        pool_stat_def pool_pending_stat_def stat_with_operator_def px_pool_def px_env_simps map_op_def)
  have old: "op_read (primary px_env) ''b'' (pl_primary px_pool) = Inr ''old''"
    by (simp add: px_pool_def px_env_simps map_op_def)
  note one = pool_stream_atomic[OF st prod.collapse[symmetric], of "[Inr ''xy'', Inr ''z'']" px_pool i]
  have "map Inr [''xy'', ''z''] = map Inr ds \<Longrightarrow> concat ds = ''xyz''" for ds :: "string list"
    by (auto simp: map_eq_Cons_conv)
  then have "op_read (primary px_env) ''b'' (pl_primary (snd ?run)) = Inr ''xyz'' \<and>
     (\<exists>e. op_read (primary px_env) ''b.tmp'' (pl_primary (snd ?run)) = Inl e)"
    using one ok by auto
  moreover have "Inl QuotaExceeded \<in> set [Inr ''q'', Inl QuotaExceeded :: vfs_error + string]" by simp
  note pool_stream_atomic[OF st prod.collapse[symmetric], of "[Inr ''q'', Inl QuotaExceeded]" px_pool _ QuotaExceeded,
      THEN conjunct2, THEN conjunct2, THEN mp, OF this]
  ultimately show ?thesis using old by simp
qed

end
