(* ===== verification/Wal.thy ===== *)
theory Wal
  imports Index_Table File_Query
begin

text \<open>
  The operation journal (\<open>vfs/wal/mod.rs\<close>, \<open>vfs/wal/entity.rs\<close>): a table of logged operations, each with
  the phase it has reached. The table is its rows in insertion order with the next automatic key; \<open>up\<close> says
  whether the database answers. An operation is stored as JSON: \<open>serde_json\<close> is a crate outside the
  repository, so \<open>enc\<close> and \<open>dec\<close> are parameters.
\<close>

section \<open>Phases\<close>

datatype wal_status = WalPending | WalRecovering | PhysicalDone | MetadataDone | Completed | Failed

fun status_str :: "wal_status \<Rightarrow> string" where
  "status_str WalPending = ''pending''"
| "status_str WalRecovering = ''recovering''"
| "status_str PhysicalDone = ''physical_done''"
| "status_str MetadataDone = ''metadata_done''"
| "status_str Completed = ''completed''"
| "status_str Failed = ''failed''"

definition parse_status :: "string \<Rightarrow> wal_status" where
  "parse_status raw =
     (let s = to_ascii_lowercase (rust_trim raw) in
      if s = ''recovering'' then WalRecovering
      else if s = ''physical_done'' then PhysicalDone
      else if s = ''metadata_done'' then MetadataDone
      else if s = ''completed'' then Completed
      else if s = ''failed'' then Failed
      else WalPending)"

definition is_active :: "wal_status \<Rightarrow> bool" where
  "is_active st \<longleftrightarrow> st \<noteq> Completed"

definition has_physical_done :: "wal_status \<Rightarrow> bool" where
  "has_physical_done st \<longleftrightarrow> st = PhysicalDone \<or> st = MetadataDone \<or> st = Completed"

definition has_metadata_done :: "wal_status \<Rightarrow> bool" where
  "has_metadata_done st \<longleftrightarrow> st = MetadataDone \<or> st = Completed"

section \<open>Operations and rows\<close>

record protected_write_meta =
  pw_backend_key :: string
  pw_physical_size :: int
  pw_meta :: string

record copy_entry =
  ce_src :: string
  ce_dst :: string
  ce_is_dir :: bool
  ce_size :: u64
  ce_storage :: "string option"
  ce_backend :: "string option"
  ce_key :: "string option"
  ce_physical_size :: "int option"
  ce_meta :: "string option"

datatype wal_operation =
    WalWrite string u64 "protected_write_meta option"
  | WalDelete string
  | WalCopy string string "copy_entry list option"
  | WalMove string string
  | WalRename string string
  | WalMoveToTrash string string
  | WalCreateDir string
  | WalRestoreTrash string string

fun op_str :: "wal_operation \<Rightarrow> string" where
  "op_str (WalWrite _ _ _) = ''WRITE''"
| "op_str (WalDelete _) = ''DELETE''"
| "op_str (WalCopy _ _ _) = ''COPY''"
| "op_str (WalMove _ _) = ''MOVE''"
| "op_str (WalRename _ _) = ''RENAME''"
| "op_str (WalMoveToTrash _ _) = ''MOVE_TO_TRASH''"
| "op_str (WalCreateDir _) = ''CREATE_DIR''"
| "op_str (WalRestoreTrash _ _) = ''RESTORE_TRASH''"

record wal_row =
  wl_id :: int
  wl_user :: string
  wl_type :: string
  wl_data :: string
  wl_status :: string
  wl_reason :: "string option"
  wl_created :: int
  wl_updated :: int
  wl_completed :: "int option"

record wal_log =
  wal_rows :: "wal_row list"
  wal_next :: int

section \<open>The log\<close>

type_synonym 'a wal_call = "wal_log \<Rightarrow> (db_error + 'a) \<times> wal_log"

definition log_operation :: "(wal_operation \<Rightarrow> string) \<Rightarrow> bool \<Rightarrow> int \<Rightarrow> string \<Rightarrow> wal_operation \<Rightarrow> int wal_call" where
  "log_operation enc up now u op l =
     (if \<not> up then (Inl DbUnavailable, l)
      else
        (Inr (wal_next l),
         l\<lparr>wal_rows := wal_rows l @
             [\<lparr>wl_id = wal_next l, wl_user = u, wl_type = op_str op, wl_data = enc op,
               wl_status = status_str WalPending, wl_reason = None, wl_created = now, wl_updated = now,
               wl_completed = None\<rparr>],
           wal_next := wal_next l + 1\<rparr>))"

definition set_phase :: "int \<Rightarrow> string \<Rightarrow> string option \<Rightarrow> int option \<Rightarrow> wal_row \<Rightarrow> wal_row" where
  "set_phase now st reason completed r =
     r\<lparr>wl_status := st, wl_reason := reason, wl_updated := now, wl_completed := completed\<rparr>"

definition update_rows_by_id :: "bool \<Rightarrow> int \<Rightarrow> (wal_row \<Rightarrow> wal_row) \<Rightarrow> unit wal_call" where
  "update_rows_by_id up i f l =
     (if \<not> up then (Inl DbUnavailable, l)
      else (Inr (), l\<lparr>wal_rows := map (\<lambda>r. if wl_id r = i then f r else r) (wal_rows l)\<rparr>))"

definition transition_operation :: "bool \<Rightarrow> int \<Rightarrow> int \<Rightarrow> wal_status \<Rightarrow> string option \<Rightarrow> unit wal_call" where
  "transition_operation up now i st reason =
     update_rows_by_id up i
       (set_phase now (status_str st) reason (if st = Completed then Some now else None))"

definition mark_recovering :: "bool \<Rightarrow> int \<Rightarrow> int \<Rightarrow> unit wal_call" where
  "mark_recovering up now i = transition_operation up now i WalRecovering None"

definition mark_physical_done :: "bool \<Rightarrow> int \<Rightarrow> int \<Rightarrow> unit wal_call" where
  "mark_physical_done up now i = transition_operation up now i PhysicalDone None"

definition fail_operation :: "bool \<Rightarrow> int \<Rightarrow> int \<Rightarrow> string \<Rightarrow> unit wal_call" where
  "fail_operation up now i reason = transition_operation up now i Failed (Some reason)"

definition complete_operation :: "bool \<Rightarrow> int \<Rightarrow> int \<Rightarrow> unit wal_call" where
  "complete_operation up now i =
     update_rows_by_id up i (set_phase now (status_str Completed) None (Some now))"

definition find_log :: "int \<Rightarrow> wal_log \<Rightarrow> wal_row option" where
  "find_log i l = find (\<lambda>r. wl_id r = i) (wal_rows l)"

text \<open>\<open>num\<close> renders the key in a message.\<close>

definition handled_reason :: "string option \<Rightarrow> string option \<Rightarrow> string" where
  "handled_reason note existing =
     (let mark = (case note of
            None \<Rightarrow> ''ADMIN_MARKED_HANDLED''
          | Some n \<Rightarrow> (if rust_trim n = [] then ''ADMIN_MARKED_HANDLED'' else ''ADMIN_MARKED_HANDLED: '' @ rust_trim n)) in
      case existing of
        Some e \<Rightarrow> (if e \<noteq> [] then e @ [CHR 0x0A] @ mark else mark)
      | None \<Rightarrow> mark)"

definition mark_issue_handled :: "(int \<Rightarrow> string) \<Rightarrow> bool \<Rightarrow> int \<Rightarrow> int \<Rightarrow> string option \<Rightarrow> unit wal_call" where
  "mark_issue_handled num up now i note l =
     (if \<not> up then (Inl DbUnavailable, l)
      else case find_log i l of
        None \<Rightarrow> (Inl (DbRecordNotFound (''WAL log '' @ num i @ '' not found'')), l)
      | Some row \<Rightarrow>
          update_rows_by_id up i
            (set_phase now (status_str Completed) (Some (handled_reason note (wl_reason row))) (Some now)) l)"

definition revoke_all :: "bool \<Rightarrow> nat wal_call" where
  "revoke_all up l =
     (if \<not> up then (Inl DbUnavailable, l) else (Inr (length (wal_rows l)), l\<lparr>wal_rows := []\<rparr>))"

section \<open>Looking at the log\<close>

text \<open>A row as the administrator sees it: the times as text, \<open>rfc\<close> being \<open>to_rfc3339\<close>.\<close>

record wal_issue =
  is_id :: int
  is_user :: string
  is_type :: string
  is_data :: string
  is_status :: string
  is_reason :: "string option"
  is_created :: string
  is_updated :: string
  is_completed :: "string option"

definition map_issue_record :: "(int \<Rightarrow> string) \<Rightarrow> wal_row \<Rightarrow> wal_issue" where
  "map_issue_record rfc r =
     \<lparr>is_id = wl_id r, is_user = wl_user r, is_type = wl_type r, is_data = wl_data r, is_status = wl_status r,
      is_reason = wl_reason r, is_created = rfc (wl_created r), is_updated = rfc (wl_updated r),
      is_completed = map_option rfc (wl_completed r)\<rparr>"

record wal_filters =
  wf_scope :: "string option"
  wf_status :: "string option"
  wf_user :: "string option"
  wf_type :: "string option"
  wf_from :: "int option"
  wf_to :: "int option"

definition is_issue :: "wal_row \<Rightarrow> bool" where
  "is_issue r \<longleftrightarrow> wl_status r = ''failed'' \<or> wl_status r = ''recovering''"

definition filtered_condition :: "wal_filters \<Rightarrow> wal_row \<Rightarrow> bool" where
  "filtered_condition f r \<longleftrightarrow>
     (case wf_user f of None \<Rightarrow> True | Some u \<Rightarrow> rust_trim u = [] \<or> wl_user r = rust_trim u) \<and>
     (case wf_type f of
        None \<Rightarrow> True
      | Some t \<Rightarrow> rust_trim t = [] \<or> to_ascii_lowercase (rust_trim t) = ''all'' \<or> wl_type r = rust_trim t) \<and>
     (case wf_from f of None \<Rightarrow> True | Some t \<Rightarrow> t \<le> wl_updated r) \<and>
     (case wf_to f of None \<Rightarrow> True | Some t \<Rightarrow> wl_updated r \<le> t) \<and>
     (let status = to_ascii_lowercase (rust_trim (case wf_status f of Some s \<Rightarrow> s | None \<Rightarrow> ''all''));
          scope = to_ascii_lowercase (rust_trim (case wf_scope f of Some s \<Rightarrow> s | None \<Rightarrow> ''issues'')) in
      if status = [] \<or> status = ''all'' then
        (if scope = ''history'' then wl_status r = ''completed''
         else if scope = ''all'' then True
         else is_issue r)
      else wl_status r = status)"

definition newest_first :: "wal_row list \<Rightarrow> wal_row list" where
  "newest_first rs = order_desc wl_updated rs"

definition list_issue_records :: "(int \<Rightarrow> string) \<Rightarrow> nat \<Rightarrow> wal_log \<Rightarrow> wal_issue list" where
  "list_issue_records rfc limit l =
     map (map_issue_record rfc) (take limit (newest_first (filter is_issue (wal_rows l))))"

definition list_issue_records_filtered ::
  "(int \<Rightarrow> string) \<Rightarrow> wal_filters \<Rightarrow> nat option \<Rightarrow> wal_log \<Rightarrow> wal_issue list" where
  "list_issue_records_filtered rfc f limit l =
     (let rs = newest_first (filter (filtered_condition f) (wal_rows l)) in
      map (map_issue_record rfc) (case limit of None \<Rightarrow> rs | Some n \<Rightarrow> take n rs))"

definition list_issue_records_paginated ::
  "(int \<Rightarrow> string) \<Rightarrow> nat \<Rightarrow> nat \<Rightarrow> wal_filters \<Rightarrow> wal_log \<Rightarrow> wal_issue list \<times> nat \<times> nat \<times> nat" where
  "list_issue_records_paginated rfc page page_size f l =
     (let page = max page 1; page_size = max page_size 1;
          rs = newest_first (filter (filtered_condition f) (wal_rows l)) in
      (map (map_issue_record rfc) (take page_size (drop ((page - 1) * page_size) rs)),
       length rs, page, page_size))"

definition get_issue_record_by_id :: "(int \<Rightarrow> string) \<Rightarrow> int \<Rightarrow> wal_log \<Rightarrow> wal_issue option" where
  "get_issue_record_by_id rfc i l = map_option (map_issue_record rfc) (find_log i l)"

section \<open>The life of a row\<close>

text \<open>
  \<open>wal_wf\<close>: the keys are distinct and below the next one, the status is one of the six, and a row carries a
  completion time exactly when it is completed.
\<close>

definition wal_row_ok :: "wal_row \<Rightarrow> bool" where
  "wal_row_ok r \<longleftrightarrow> (\<exists>st. wl_status r = status_str st \<and> (wl_completed r \<noteq> None \<longleftrightarrow> st = Completed))"

definition wal_wf :: "wal_log \<Rightarrow> bool" where
  "wal_wf l \<longleftrightarrow> distinct (map wl_id (wal_rows l)) \<and>
     (\<forall>r \<in> set (wal_rows l). wl_id r < wal_next l \<and> wal_row_ok r)"

inductive wal_step :: "wal_log \<Rightarrow> wal_log \<Rightarrow> bool" where
  log: "wal_step l (snd (log_operation enc up now u op l))"
| transition: "wal_step l (snd (transition_operation up now i st reason l))"
| complete: "wal_step l (snd (complete_operation up now i l))"
| handled: "wal_step l (snd (mark_issue_handled num up now i note l))"
| revoke: "wal_step l (snd (revoke_all up l))"

inductive_cases wal_stepE: "wal_step l l'"

lemma status_str_inj [simp]: "status_str a = status_str b \<longleftrightarrow> a = b"
  by (cases a; cases b) simp_all

lemma status_str_plain: "rust_trim (status_str st) = status_str st"
  by (rule rust_trim_plain; cases st) (simp_all add: plain_char_def)

lemma status_str_lower: "to_ascii_lowercase (status_str st) = status_str st"
  by (induction st; code_simp)

lemma parse_status_str [simp]: "parse_status (status_str st) = st"
  unfolding parse_status_def status_str_plain status_str_lower by (cases st) simp_all

declare status_str.simps [simp del]

lemma wl_id_set_phase [simp]: "wl_id (set_phase now st reason c r) = wl_id r"
  by (simp add: set_phase_def)

lemma set_phase_ok: "(c \<noteq> None \<longleftrightarrow> st = Completed) \<Longrightarrow> wal_row_ok (set_phase now (status_str st) reason c r)"
  by (auto simp: wal_row_ok_def set_phase_def)

lemma wal_wf_update:
  assumes "wal_wf l" and "\<And>r. wl_id (f r) = wl_id r" and "\<And>r. wal_row_ok (f r)"
  shows "wal_wf (snd (update_rows_by_id up i f l))"
proof -
  have "map wl_id (map (\<lambda>r. if wl_id r = i then f r else r) (wal_rows l)) = map wl_id (wal_rows l)"
    by (simp add: assms(2))
  then show ?thesis
    using assms unfolding wal_wf_def update_rows_by_id_def by (auto simp del: map_map)
qed

lemma wal_step_wf: "wal_step l l' \<Longrightarrow> wal_wf l \<Longrightarrow> wal_wf l'"
proof (induction rule: wal_step.induct)
  case (log l enc up now u op)
  have "wal_row_ok \<lparr>wl_id = i, wl_user = u, wl_type = t, wl_data = d, wl_status = status_str WalPending,
      wl_reason = None, wl_created = now, wl_updated = now, wl_completed = None\<rparr>" for i t d
    by (auto simp: wal_row_ok_def)
  then show ?case using log by (fastforce simp: wal_wf_def log_operation_def)
next
  case (transition l up now i st reason)
  then show ?case unfolding transition_operation_def by (intro wal_wf_update set_phase_ok) simp_all
next
  case (complete l up now i)
  then show ?case unfolding complete_operation_def by (intro wal_wf_update set_phase_ok) simp_all
next
  case (handled l num up now i remark)
  then show ?case unfolding mark_issue_handled_def
    by (auto split: option.split intro!: wal_wf_update set_phase_ok)
next
  case (revoke l up)
  then show ?case by (simp add: wal_wf_def revoke_all_def)
qed

text \<open>
  C20: In every state the journal can reach, the keys of its rows are distinct, every status is one of the six
  and reads back as the phase that was written, a row carries a completion time exactly when it is completed,
  and metadata-done implies physically done; a completed row is not active.
\<close>

theorem wal_log_lifecycle:
  assumes "wal_step\<^sup>*\<^sup>* \<lparr>wal_rows = [], wal_next = n\<rparr> l"
  shows "distinct (map wl_id (wal_rows l)) \<and>
    (\<forall>r \<in> set (wal_rows l).
       status_str (parse_status (wl_status r)) = wl_status r \<and>
       (wl_completed r \<noteq> None \<longleftrightarrow> \<not> is_active (parse_status (wl_status r))) \<and>
       (has_metadata_done (parse_status (wl_status r)) \<longrightarrow> has_physical_done (parse_status (wl_status r))))"
proof -
  have wf: "wal_wf l"
    using assms by (induction rule: rtranclp_induct) (auto simp: wal_wf_def[of "\<lparr>wal_rows = [], wal_next = n\<rparr>"] dest: wal_step_wf)
  have "status_str (parse_status (wl_status r)) = wl_status r \<and>
       (wl_completed r \<noteq> None \<longleftrightarrow> \<not> is_active (parse_status (wl_status r))) \<and>
       (has_metadata_done (parse_status (wl_status r)) \<longrightarrow> has_physical_done (parse_status (wl_status r)))"
    if "r \<in> set (wal_rows l)" for r
  proof -
    have "wal_row_ok r" using wf that by (simp add: wal_wf_def)
    then obtain st where "wl_status r = status_str st" "wl_completed r \<noteq> None \<longleftrightarrow> st = Completed"
      unfolding wal_row_ok_def by (elim exE conjE)
    then show ?thesis by (auto simp: is_active_def has_metadata_done_def has_physical_done_def)
  qed
  then show ?thesis using wf by (simp add: wal_wf_def)
qed

lemma wal_log_lifecycle_witness:
  "distinct (map wl_id (wal_rows (snd (complete_operation True 8 1 (snd (log_operation op_str True 7 ''u'' (WalDelete ''/a'')
     \<lparr>wal_rows = [], wal_next = 1\<rparr>))))))"
  by (rule conjunct1[OF wal_log_lifecycle], rule rtranclp.rtrancl_into_rtrancl,
      rule r_into_rtranclp, rule wal_step.log, rule wal_step.complete)

end
