(* ===== verification/Engine.thy ===== *)
theory Engine
  imports Wal User_Settings Pool Maintenance
begin

text \<open>
  The scoped engine (\<open>vfs/scoped/\<close>): what one user's requests do to the pool, the index, the settings row,
  the journal table and the temp directory. The state \<open>'p world\<close> holds these parts; \<open>'p engine\<close> is what an
  engine is created with and what it asks the outside. The directory listing cache (a key-value store outside
  the repository) and the log lines are left out. A clock is read once for an operation.

  Protected storage is a part of its own: the branches that enter it are arguments (\<open>protected_ops\<close>), and so
  is the check of mode, licence and keys (\<open>eg_unlock\<close>) that decides whether a plan can be opened.
\<close>

datatype temp_node = TempDir int | TempFile string int

record 'p world =
  wd_index :: index_db
  wd_settings :: "user_settings list"
  wd_wal :: wal_log
  wd_pool :: "'p pool"
  wd_temp :: "(string \<times> temp_node) list"
  wd_maint :: maintenance
  wd_journal :: "journal_event list"
  wd_recycle :: bool

type_synonym ('p, 'a) engine_call = "('p world, vfs_error, 'a) call"

record 'p protected_ops =
  po_read :: "string \<Rightarrow> ('p, string \<times> vfs_file_info) engine_call"
  po_read_range :: "string \<Rightarrow> u64 \<Rightarrow> u64 \<Rightarrow> ('p, string \<times> vfs_file_info) engine_call"
  po_read_stream_range :: "string \<Rightarrow> u64 \<Rightarrow> u64 \<Rightarrow> ('p, (vfs_error + string) list \<times> vfs_file_info) engine_call"
  po_write :: "string \<Rightarrow> string \<Rightarrow> ('p, vfs_file_info) engine_call"
  po_write_stream :: "string \<Rightarrow> (vfs_error + string) list \<Rightarrow> ('p, vfs_file_info) engine_call"
  po_write_at :: "string \<Rightarrow> u64 \<Rightarrow> string \<Rightarrow> ('p, vfs_file_info) engine_call"
  po_delete :: "string \<Rightarrow> ('p, vfs_file_info) engine_call"
  po_create_dir :: "string \<Rightarrow> ('p, vfs_file_info) engine_call"
  po_move :: "string \<Rightarrow> string \<Rightarrow> ('p, vfs_file_info) engine_call"
  po_copy :: "string \<Rightarrow> string \<Rightarrow> ('p, vfs_file_info) engine_call"

record 'p engine =
  eg_user :: string
  eg_pct :: "string \<Rightarrow> string option"
  eg_pool :: "'p pool_env"
  eg_pool_name :: string
  eg_backend :: string
  eg_wal_on :: bool
  eg_up_wal :: bool
  eg_up_index :: bool
  eg_up_settings :: bool
  eg_enc :: "wal_operation \<Rightarrow> string"
  eg_now :: int
  eg_clk :: read_clock
  eg_uuid :: "nat \<Rightarrow> string"
  eg_skip_temp :: bool
  eg_min_size :: u64
  eg_chunk :: nat
  eg_sync_mode :: nat
  eg_recorder :: bool
  eg_io :: "string \<Rightarrow> io_kind option"
  eg_plan :: "string option option"
  eg_unlock :: "settings_snapshot \<Rightarrow> vfs_error + unit"
  eg_protected :: "'p protected_ops"

section \<open>Calls\<close>

definition look :: "('p world \<Rightarrow> vfs_error + 'a) \<Rightarrow> ('p, 'a) engine_call" where
  "look f w = (f w, w)"

definition give :: "'a \<Rightarrow> ('p, 'a) engine_call" where
  "give x w = (Inr x, w)"

definition give_up :: "vfs_error \<Rightarrow> ('p, 'a) engine_call" where
  "give_up err w = (Inl err, w)"

definition change :: "('p world \<Rightarrow> 'p world) \<Rightarrow> ('p, unit) engine_call" where
  "change f w = (Inr (), f w)"

definition on_pool :: "('p pool, vfs_error, 'a) call \<Rightarrow> ('p, 'a) engine_call" where
  "on_pool f w = (case f (wd_pool w) of (r, p) \<Rightarrow> (r, w\<lparr>wd_pool := p\<rparr>))"

definition on_index :: "'a db_call \<Rightarrow> ('p, 'a) engine_call" where
  "on_index f w = (case f (wd_index w) of (r, db) \<Rightarrow> (db_internal r, w\<lparr>wd_index := db\<rparr>))"

section \<open>The temp directory\<close>

definition io_guard :: "'p engine \<Rightarrow> string \<Rightarrow> (vfs_error + 'a) \<Rightarrow> vfs_error + 'a" where
  "io_guard e rel r = (case eg_io e rel of Some k \<Rightarrow> Inl (IoError k rel) | None \<Rightarrow> r)"

definition temp_rel :: "string \<Rightarrow> string" where
  "temp_rel path = get_relative_path path LOGICAL_TEMP_PREFIX"

definition temp_node_at :: "string \<Rightarrow> 'p world \<Rightarrow> temp_node option" where
  "temp_node_at rel w = (if rel = [] then Some (TempDir 0) else map_of (wd_temp w) rel)"

text \<open>The directories a path lies in, itself included (\<open>create_dir_all\<close> makes them).\<close>

definition path_chain :: "string \<Rightarrow> string list" where
  "path_chain rel = map (\<lambda>n. join_with slash (take (Suc n) (split_on slash rel))) [0..<length (split_on slash rel)]"

definition temp_parent :: "string \<Rightarrow> string" where
  "temp_parent rel = (case rsplit_once slash rel of Some (d, _) \<Rightarrow> d | None \<Rightarrow> [])"

definition temp_mkdirs :: "'p engine \<Rightarrow> string \<Rightarrow> ('p, unit) engine_call" where
  "temp_mkdirs e rel w =
     (if rel = [] then (Inr (), w)
      else if list_ex (\<lambda>d. case map_of (wd_temp w) d of Some (TempFile _ _) \<Rightarrow> True | _ \<Rightarrow> False) (path_chain rel)
      then (Inl (IoError IoOther rel), w)
      else (case eg_io e rel of
          Some k \<Rightarrow> (Inl (IoError k rel), w)
        | None \<Rightarrow>
            (Inr (), w\<lparr>wd_temp := fold (\<lambda>d t. if map_of t d = None then al_put d (TempDir (eg_now e)) t else t)
                                    (path_chain rel) (wd_temp w)\<rparr>)))"

definition temp_write :: "'p engine \<Rightarrow> string \<Rightarrow> string \<Rightarrow> ('p, unit) engine_call" where
  "temp_write e rel data w =
     (case temp_node_at rel w of
        Some (TempDir _) \<Rightarrow> (Inl (IoError IoOther rel), w)
      | _ \<Rightarrow>
          (case temp_node_at (temp_parent rel) w of
             Some (TempDir _) \<Rightarrow>
               (case eg_io e rel of
                  Some k \<Rightarrow> (Inl (IoError k rel), w)
                | None \<Rightarrow> (Inr (), w\<lparr>wd_temp := al_put rel (TempFile data (eg_now e)) (wd_temp w)\<rparr>))
           | _ \<Rightarrow> (Inl (IoError IoNotFound rel), w)))"

definition temp_read :: "'p engine \<Rightarrow> string \<Rightarrow> 'p world \<Rightarrow> vfs_error + string" where
  "temp_read e rel w =
     (case temp_node_at rel w of
        None \<Rightarrow> Inl (IoError IoNotFound rel)
      | Some (TempDir _) \<Rightarrow> Inl (IoError IoOther rel)
      | Some (TempFile d _) \<Rightarrow> io_guard e rel (Inr d))"

definition temp_below :: "string \<Rightarrow> string \<Rightarrow> bool" where
  "temp_below rel p \<longleftrightarrow> p = rel \<or> prefix (rel @ ''/'') p"

definition temp_remove :: "'p engine \<Rightarrow> string \<Rightarrow> ('p, unit) engine_call" where
  "temp_remove e rel w =
     (case temp_node_at rel w of
        None \<Rightarrow> (Inl (IoError IoNotFound rel), w)
      | Some _ \<Rightarrow>
          (case eg_io e rel of
             Some k \<Rightarrow> (Inl (IoError k rel), w)
           | None \<Rightarrow> (Inr (), w\<lparr>wd_temp := filter (\<lambda>x. \<not> (rel = [] \<or> temp_below rel (fst x))) (wd_temp w)\<rparr>)))"

definition temp_rename :: "'p engine \<Rightarrow> string \<Rightarrow> string \<Rightarrow> ('p, unit) engine_call" where
  "temp_rename e src dst w =
     (if map_of (wd_temp w) src = None then (Inl (IoError IoNotFound src), w)
      else (case eg_io e src of
          Some k \<Rightarrow> (Inl (IoError k src), w)
        | None \<Rightarrow>
            (Inr (), w\<lparr>wd_temp := map (\<lambda>x. if temp_below src (fst x) then (dst @ drop (length src) (fst x), snd x) else x)
               (filter (\<lambda>x. src = dst \<or> fst x \<noteq> dst) (wd_temp w))\<rparr>)))"

definition temp_copy :: "'p engine \<Rightarrow> string \<Rightarrow> string \<Rightarrow> ('p, unit) engine_call" where
  "temp_copy e src dst w =
     (case temp_read e src w of Inl err \<Rightarrow> (Inl err, w) | Inr d \<Rightarrow> temp_write e dst d w)"

section \<open>Guards and look-ups\<close>

definition validate_path :: "'p engine \<Rightarrow> string \<Rightarrow> vfs_error + string" where
  "validate_path e path = validate_file_operation_impl (eg_pct e) path"

definition physical :: "'p engine \<Rightarrow> string \<Rightarrow> vfs_error + string" where
  "physical e path = get_physical_path (eg_pct e) (eg_user e) path"

definition check_maintenance :: "'p engine \<Rightarrow> 'p world \<Rightarrow> vfs_error + unit" where
  "check_maintenance e w = (if is_user_under_maintenance (eg_user e) (wd_maint w) then Inl MaintenanceMode else Inr ())"

definition get_user_settings_snapshot :: "'p engine \<Rightarrow> 'p world \<Rightarrow> vfs_error + settings_snapshot option" where
  "get_user_settings_snapshot e w =
     (if \<not> eg_up_settings e then Inl (Internal (db_text DbUnavailable))
      else Inr (map_option snapshot_of (get_user_settings (eg_user e) (wd_settings w))))"

definition get_index_metadata :: "'p engine \<Rightarrow> string \<Rightarrow> 'p world \<Rightarrow> vfs_error + index_row option" where
  "get_index_metadata e path w =
     (if \<not> eg_up_index e then Inl (Internal (db_text DbUnavailable))
      else Inr (get_file_metadata (eg_user e) path (wd_index w)))"

definition is_protected_subdir_path :: "'p engine \<Rightarrow> string \<Rightarrow> 'p world \<Rightarrow> vfs_error + bool" where
  "is_protected_subdir_path e path w =
     res_bind (get_user_settings_snapshot e w) (\<lambda>s.
       case s of None \<Rightarrow> Inr False
       | Some s \<Rightarrow> Inr (is_protected_subdir_root s \<and> matches_protected_root s path))"

text \<open>\<open>ProtectedPathPlan::matches_path\<close>. A plan is known by its root; the engine has one plan.\<close>

definition plan_matches_path :: "string \<Rightarrow> string \<Rightarrow> bool" where
  "plan_matches_path root path =
     (if root = ''/'' then True
      else (let n = root_or_trimmed path; r = root_or_trimmed root in n = r \<or> starts_with n (r @ ''/'')))"

text \<open>
  The plan is resolved once and kept in a \<open>OnceCell\<close>: \<open>eg_plan\<close> is what the cell holds when the operation
  starts. No operation changes the protected root of a user, so the cell is filled with the same value for the
  whole operation.
\<close>

definition resolve_protected_plan_uncached :: "'p engine \<Rightarrow> 'p world \<Rightarrow> vfs_error + string option" where
  "resolve_protected_plan_uncached e w =
     res_bind (get_user_settings_snapshot e w) (\<lambda>s.
       case s of None \<Rightarrow> Inr None
       | Some s \<Rightarrow>
           (case protected_root_trimmed s of
              None \<Rightarrow> Inr None
            | Some root \<Rightarrow> res_bind (eg_unlock e s) (\<lambda>_. Inr (Some root))))"

definition resolve_protected_plan :: "'p engine \<Rightarrow> 'p world \<Rightarrow> vfs_error + string option" where
  "resolve_protected_plan e w = (case eg_plan e of Some p \<Rightarrow> Inr p | None \<Rightarrow> resolve_protected_plan_uncached e w)"

definition get_protected_plan :: "'p engine \<Rightarrow> string \<Rightarrow> 'p world \<Rightarrow> vfs_error + string option" where
  "get_protected_plan e path w =
     res_bind (resolve_protected_plan e w) (\<lambda>p.
       case p of Some root \<Rightarrow> Inr (if plan_matches_path root path then Some root else None) | None \<Rightarrow> Inr None)"

section \<open>Pending writes\<close>

definition should_use_write_cache :: "'p engine \<Rightarrow> string \<Rightarrow> nat \<Rightarrow> 'p world \<Rightarrow> bool" where
  "should_use_write_cache e path n w =
     (if is_temp_path path \<or> is_thumbnail_cache_path path \<or> starts_with path ''/.recycle_bin/'' then False
      else (case pl_write (wd_pool w) of None \<Rightarrow> False | Some wc \<Rightarrow> wc_should_cache wc path n))"

definition try_enqueue_write_cache :: "'p engine \<Rightarrow> string \<Rightarrow> string \<Rightarrow> ('p, vfs_file_info option) engine_call" where
  "try_enqueue_write_cache e path data w =
     (if \<not> should_use_write_cache e path (length data) w then (Inr None, w)
      else case physical e path of
        Inl err \<Rightarrow> (Inl err, w)
      | Inr p \<Rightarrow>
          (case on_pool (enqueue_write_cache (eg_pool e) (eg_now e) (eg_user e) path p data) w of
             (Inl err, w1) \<Rightarrow> (Inr None, w1)
           | (Inr info, w1) \<Rightarrow> (Inr (map_option (\<lambda>i. translate_file_info (eg_user e) i False) info), w1)))"

definition flush_pending_for_path :: "'p engine \<Rightarrow> string \<Rightarrow> ('p, unit) engine_call" where
  "flush_pending_for_path e path w =
     (if is_temp_path path then (Inr (), w)
      else case physical e path of
        Inl err \<Rightarrow> (Inl err, w)
      | Inr p \<Rightarrow> on_pool (flush_write_cache (eg_pool e) (eg_now e) (eg_now e) p) w)"

definition engine_pending_stat :: "'p engine \<Rightarrow> string \<Rightarrow> 'p world \<Rightarrow> vfs_file_info option" where
  "engine_pending_stat e path w =
     (if is_temp_path path then None
      else case physical e path of
        Inl _ \<Rightarrow> None
      | Inr p \<Rightarrow> map_option (\<lambda>i. translate_file_info (eg_user e) i False) (pool_pending_stat p (wd_pool w)))"

definition engine_pending_children :: "'p engine \<Rightarrow> string \<Rightarrow> 'p world \<Rightarrow> vfs_error + vfs_file_info list" where
  "engine_pending_children e path w =
     (if is_temp_path path then Inr []
      else res_bind (physical e path) (\<lambda>p.
        Inr (map (\<lambda>i. translate_file_info (eg_user e) i False) (pool_pending_children p (wd_pool w)))))"

section \<open>Looking at files\<close>

definition file_info_of_row :: "index_row \<Rightarrow> vfs_file_info" where
  "file_info_of_row r =
     \<lparr>fi_name = ir_name r, fi_path = ir_path r, fi_is_dir = ir_is_dir r, fi_size = word_of_int (ir_size r),
      fi_modified = ir_modified r, fi_favorite_color = ir_favorite r, fi_has_active_share = None,
      fi_has_active_direct = None, fi_trashed_at = ir_trashed r, fi_original_path = ir_original r\<rparr>"

definition plain_info :: "string \<Rightarrow> string \<Rightarrow> bool \<Rightarrow> u64 \<Rightarrow> int option \<Rightarrow> vfs_file_info" where
  "plain_info name path is_dir sz modified =
     \<lparr>fi_name = name, fi_path = path, fi_is_dir = is_dir, fi_size = sz, fi_modified = modified,
      fi_favorite_color = 0, fi_has_active_share = None, fi_has_active_direct = None, fi_trashed_at = None,
      fi_original_path = None\<rparr>"

text \<open>The size of a local directory entry itself is the file system's; it is zero here.\<close>

definition temp_info :: "string \<Rightarrow> string \<Rightarrow> temp_node \<Rightarrow> vfs_file_info" where
  "temp_info name path n =
     (case n of
        TempDir t \<Rightarrow> plain_info name path True 0 (Some t)
      | TempFile d t \<Rightarrow> plain_info name path False (word_of_nat (length d)) (Some t))"

definition base_name :: "string \<Rightarrow> string" where
  "base_name path = (case rsplit_once slash path of Some (_, n) \<Rightarrow> n | None \<Rightarrow> path)"

definition exists_impl :: "'p engine \<Rightarrow> string \<Rightarrow> 'p world \<Rightarrow> vfs_error + bool" where
  "exists_impl e path w =
     res_bind (validate_path e path) (\<lambda>n.
       if engine_pending_stat e n w \<noteq> None then Inr True
       else if is_temp_path n then Inr (temp_node_at (temp_rel n) w \<noteq> None)
       else
         res_bind (physical e n) (\<lambda>p.
         res_bind (get_index_metadata e n w) (\<lambda>row.
           if row \<noteq> None then pool_exists (eg_pool e) p (wd_pool w)
           else
             res_bind (get_protected_plan e n w) (\<lambda>plan.
               if plan = Some n then Inr True else pool_exists (eg_pool e) p (wd_pool w)))))"

definition stat_impl :: "'p engine \<Rightarrow> string \<Rightarrow> 'p world \<Rightarrow> vfs_error + vfs_file_info" where
  "stat_impl e path w =
     res_bind (validate_path e path) (\<lambda>n.
       if is_temp_path n then
         (case temp_node_at (temp_rel n) w of
            None \<Rightarrow> Inl (IoError IoNotFound (temp_rel n))
          | Some t \<Rightarrow> Inr (temp_info (base_name n) n t))
       else case engine_pending_stat e n w of
         Some info \<Rightarrow> Inr info
       | None \<Rightarrow>
           res_bind (get_protected_plan e n w) (\<lambda>plan.
           res_bind
             (case plan of
                None \<Rightarrow> Inr None
              | Some root \<Rightarrow>
                  res_bind (get_index_metadata e n w) (\<lambda>row.
                    case row of
                      Some r \<Rightarrow> Inr (Some (file_info_of_row r))
                    | None \<Rightarrow> if n \<noteq> root then Inl (NotFound n) else Inr None)) (\<lambda>found.
             case found of
               Some info \<Rightarrow> Inr info
             | None \<Rightarrow>
                 res_bind (physical e n) (\<lambda>p.
                   case (if pool_is_dirty_path p (wd_pool w) then None
                         else (case get_index_metadata e n w of Inr (Some r) \<Rightarrow> Some r | _ \<Rightarrow> None)) of
                     Some r \<Rightarrow>
                       res_bind (pool_exists (eg_pool e) p (wd_pool w)) (\<lambda>there.
                         if there then Inr (file_info_of_row r) else Inl (NotFound n))
                   | None \<Rightarrow>
                       res_bind (pool_stat (eg_pool e) p (wd_pool w)) (\<lambda>m.
                         Inr (plain_info (base_name n) n (fi_is_dir m) (fi_size m) (fi_modified m)))))))"

definition get_file_size :: "'p engine \<Rightarrow> string \<Rightarrow> 'p world \<Rightarrow> int" where
  "get_file_size e path w = (case stat_impl e path w of Inr i \<Rightarrow> sint (fi_size i) | Inl _ \<Rightarrow> 0)"

definition read_impl :: "'p engine \<Rightarrow> string \<Rightarrow> ('p, string \<times> vfs_file_info) engine_call" where
  "read_impl e path w =
     (case validate_path e path of
        Inl err \<Rightarrow> (Inl err, w)
      | Inr n \<Rightarrow>
          if is_temp_path n then
            (res_bind (stat_impl e n w) (\<lambda>info.
             res_bind (temp_read e (temp_rel n) w) (\<lambda>data. Inr (data, info))), w)
          else case get_protected_plan e n w of
            Inl err \<Rightarrow> (Inl err, w)
          | Inr (Some _) \<Rightarrow> po_read (eg_protected e) n w
          | Inr None \<Rightarrow>
              (case (case engine_pending_stat e n w of Some i \<Rightarrow> Inr i | None \<Rightarrow> stat_impl e n w) of
                 Inl err \<Rightarrow> (Inl err, w)
               | Inr info \<Rightarrow>
                   (case physical e n of
                      Inl err \<Rightarrow> (Inl err, w)
                    | Inr p \<Rightarrow>
                        (case on_pool (pool_read (eg_pool e) (eg_clk e) p) w of
                           (Inl err, w1) \<Rightarrow> (Inl err, w1)
                         | (Inr (data, _), w1) \<Rightarrow> (Inr (data, info), w1)))))"

section \<open>Listing\<close>

text \<open>Only the entries whose parent is the listed directory, and no hidden ones.\<close>

definition listed :: "string \<Rightarrow> vfs_file_info \<Rightarrow> bool" where
  "listed dir i \<longleftrightarrow>
     \<not> is_hidden_storage_path (fi_path i) \<and> fi_path i \<noteq> dir \<and> \<not> (dir \<noteq> ''/'' \<and> fi_path i = dir @ ''/'') \<and>
     (case rsplit_once slash (fi_path i) of
        Some (p, _) \<Rightarrow> (if p = [] then ''/'' else p) = dir
      | None \<Rightarrow> False)"

definition list_temp :: "'p engine \<Rightarrow> string \<Rightarrow> 'p world \<Rightarrow> vfs_error + vfs_file_info list" where
  "list_temp e n w =
     (case temp_node_at (temp_rel n) w of
        None \<Rightarrow> Inl (IoError IoNotFound (temp_rel n))
      | Some (TempFile _ _) \<Rightarrow> Inl (IoError IoOther (temp_rel n))
      | Some (TempDir _) \<Rightarrow>
          io_guard e (temp_rel n)
            (Inr (map (\<lambda>x. (temp_info (base_name (fst x)) (trim_end_matches slash n @ ''/'' @ base_name (fst x)) (snd x))
                             \<lparr>fi_modified := Some (eg_now e)\<rparr>)
                   (filter (\<lambda>x. temp_parent (fst x) = temp_rel n) (wd_temp w)))))"

definition fresh_row :: "'p engine \<Rightarrow> string \<Rightarrow> nat \<Rightarrow> string \<times> vfs_file_info \<Rightarrow> index_active" where
  "fresh_row e dir k entry =
     (case entry of (key, i) \<Rightarrow>
      \<lparr>ia_id = Some (eg_uuid e k), ia_user = Some (eg_user e), ia_parent = Some dir, ia_name = Some (fi_name i),
       ia_path = Some (fi_path i), ia_is_dir = Some (fi_is_dir i), ia_storage = Some (Some (eg_pool_name e)),
       ia_backend = Some (Some (eg_backend e)), ia_key = Some (Some key), ia_size = Some (sint (fi_size i)),
       ia_physical_size = None, ia_etag = None, ia_protected = None, ia_created = None,
       ia_modified = Some (fi_modified i), ia_trashed = None, ia_row_created = Some (eg_now e),
       ia_row_updated = Some (eg_now e), ia_row_deleted = None, ia_favorite = Some 0, ia_original = None,
       ia_remark = None\<rparr>)"

definition index_rows_listed :: "'p engine \<Rightarrow> string \<Rightarrow> 'p world \<Rightarrow> vfs_error + vfs_file_info list" where
  "index_rows_listed e n w =
     (if \<not> eg_up_index e then Inl (Internal (db_text DbUnavailable))
      else Inr (map file_info_of_row (list_files (eg_user e) n (wd_index w))))"

definition by_name :: "vfs_file_info list \<Rightarrow> vfs_file_info list" where
  "by_name = order_asc fi_name"

definition sync_index_internal :: "'p engine \<Rightarrow> string \<Rightarrow> ('p, vfs_file_info list) engine_call" where
  "sync_index_internal e path w =
     (case validate_path e path of
        Inl err \<Rightarrow> (Inl err, w)
      | Inr n \<Rightarrow>
          (case get_protected_plan e n w of
             Inl err \<Rightarrow> (Inl err, w)
           | Inr (Some _) \<Rightarrow>
               (res_bind (index_rows_listed e n w) (\<lambda>is. Inr (filter (\<lambda>i. \<not> is_hidden_storage_path (fi_path i)) is)), w)
           | Inr None \<Rightarrow>
               (case res_bind (physical e n) (\<lambda>p. pool_list (eg_pool e) p (wd_pool w)) of
                  Inl err \<Rightarrow> (Inl err, w)
                | Inr raw \<Rightarrow>
                    (let entries = filter (listed n \<circ> snd)
                           (map (\<lambda>i. (fi_path i, translate_file_info (eg_user e) i False)) raw) in
                     case on_index (sync_directory_optimized (eg_up_index e) (eg_now e) (eg_user e) n
                            (map2 (fresh_row e n) [0..<length entries] entries) (eg_chunk e)) w of
                       (Inl err, w1) \<Rightarrow> (Inl err, w1)
                     | (Inr _, w1) \<Rightarrow> (Inr (by_name (map snd entries)), w1)))))"

text \<open>The refresh in the background (mode 1) is a later run of \<open>sync_index_internal\<close>.\<close>

definition execute_sync_decision :: "'p engine \<Rightarrow> string \<Rightarrow> ('p, vfs_file_info list option) engine_call" where
  "execute_sync_decision e n w =
     (case get_protected_plan e n w of
        Inl err \<Rightarrow> (Inl err, w)
      | Inr (Some _) \<Rightarrow> (Inr None, w)
      | Inr None \<Rightarrow>
          if eg_sync_mode e = 2
          then (case sync_index_internal e n w of (Inl err, w1) \<Rightarrow> (Inl err, w1) | (Inr is, w1) \<Rightarrow> (Inr (Some is), w1))
          else (Inr None, w))"

text \<open>Pending writes replace the listed entry of the same path; the merged list is in the order of the names.\<close>

definition merge_pending :: "vfs_file_info list \<Rightarrow> vfs_file_info list \<Rightarrow> vfs_file_info list" where
  "merge_pending results pend =
     (if pend = [] then results
      else by_name (map snd (fold (\<lambda>i m. al_put (fi_path i) i m) (results @ pend) [])))"

definition list_impl :: "'p engine \<Rightarrow> string \<Rightarrow> ('p, vfs_file_info list) engine_call" where
  "list_impl e path w =
     (case validate_path e path of
        Inl err \<Rightarrow> (Inl err, w)
      | Inr n \<Rightarrow>
          if is_temp_path n then (list_temp e n w, w)
          else case get_protected_plan e n w of
            Inl err \<Rightarrow> (Inl err, w)
          | Inr (Some _) \<Rightarrow>
              (res_bind (index_rows_listed e n w) (\<lambda>is. Inr (filter (\<lambda>i. \<not> is_hidden_storage_path (fi_path i)) is)), w)
          | Inr None \<Rightarrow>
              (case physical e n of
                 Inl err \<Rightarrow> (Inl err, w)
               | Inr p \<Rightarrow>
                   (let from_pool = (\<lambda>w. res_bind (pool_list (eg_pool e) p (wd_pool w)) (\<lambda>raw.
                          Inr (filter (listed n) (map (\<lambda>i. translate_file_info (eg_user e) i False) raw))));
                        finish = (\<lambda>r w. (res_bind r (\<lambda>results.
                          res_bind (engine_pending_children e n w) (\<lambda>pend. Inr (merge_pending results pend))), w)) in
                    if pool_is_dirty_dir p (wd_pool w) then finish (from_pool w) w
                    else case execute_sync_decision e n w of
                      (Inl err, w1) \<Rightarrow> (Inl err, w1)
                    | (Inr _, w1) \<Rightarrow>
                        finish
                          (res_bind (index_rows_listed e n w1) (\<lambda>is.
                             if is \<noteq> [] then Inr (filter (listed n) is) else from_pool w1)) w1)))"

definition list_recursive_impl :: "'p engine \<Rightarrow> string \<Rightarrow> 'p world \<Rightarrow> vfs_error + vfs_file_info list" where
  "list_recursive_impl e path w =
     res_bind (validate_path e path) (\<lambda>n.
       if is_temp_path n then list_temp e n w
       else
         (let rows = (if \<not> eg_up_index e then Inl (Internal (db_text DbUnavailable))
                      else Inr (map file_info_of_row (list_files_recursive (eg_user e) n (wd_index w)))) in
          res_bind (get_protected_plan e n w) (\<lambda>plan.
            if plan \<noteq> None then rows
            else
              res_bind (physical e n) (\<lambda>p.
              res_bind (if pool_is_dirty_dir p (wd_pool w) then Inr [] else rows) (\<lambda>is.
                if is \<noteq> [] then Inr is
                else
                  res_bind (pool_list_recursive (eg_pool e) p (wd_pool w)) (\<lambda>raw.
                    Inr (filter (\<lambda>i. \<not> is_hidden_storage_path (fi_path i) \<and> fi_path i \<noteq> n \<and> fi_path i \<noteq> n @ ''/'')
                           (map (\<lambda>i. translate_file_info (eg_user e) i False) raw))))))))"

end
