(* ===== verification/Hub.thy ===== *)
theory Hub
  imports Engine
begin

text \<open>
  The storage hub (\<open>vfs/hub.rs\<close>): which pool serves a user, the default settings row, and the engines made for
  a user. The pools are named; the map's iteration order is that of the list. \<open>role_quota\<close> is the query of the
  roles table, which belongs to another program: \<open>None\<close> when the role is no number or has no row.
\<close>

record role_policy =
  rp_role :: "string option"
  rp_pool :: "string option"
  rp_quota :: int

record 'p hub =
  hb_pools :: "(string \<times> 'p pool) list"
  hb_policies :: "role_policy list"
  hb_default :: "string option"
  hb_settings_cache :: "(string \<times> user_settings) list"

definition get_pool :: "string \<Rightarrow> 'p hub \<Rightarrow> 'p pool option" where
  "get_pool name h = map_of (hb_pools h) name"

definition policy_pool :: "string \<Rightarrow> 'p hub \<Rightarrow> role_policy \<Rightarrow> string option" where
  "policy_pool role h p =
     (if rp_role p = Some role
      then (case rp_pool p of Some name \<Rightarrow> (if \<not> Option.is_none (get_pool name h) then Some name else None) | None \<Rightarrow> None)
      else None)"

text \<open>A pool is known by its name.\<close>

definition route_by_role :: "string \<Rightarrow> 'p hub \<Rightarrow> vfs_error + string" where
  "route_by_role role h =
     (case List.map_filter (policy_pool role h) (hb_policies h) of
        name # _ \<Rightarrow> Inr name
      | [] \<Rightarrow>
          (case (case hb_default h of
                   Some name \<Rightarrow> (if rust_trim name \<noteq> [] \<and> \<not> Option.is_none (get_pool name h) then Some name else None)
                 | None \<Rightarrow> None) of
             Some name \<Rightarrow> Inr name
           | None \<Rightarrow>
               (case hb_pools h of
                  [] \<Rightarrow> Inl (Internal ''No pools configured or initialized'')
                | (name, _) # _ \<Rightarrow> Inr name)))"

definition route_for_user :: "bool \<Rightarrow> user_settings list \<Rightarrow> string \<Rightarrow> string \<Rightarrow> 'p hub \<Rightarrow> vfs_error + string" where
  "route_for_user up settings u role h =
     (case (if up then get_user_settings u settings else None) of
        Some s \<Rightarrow> (if \<not> Option.is_none (get_pool (st_pool_name s) h) then Inr (st_pool_name s) else route_by_role role h)
      | None \<Rightarrow> route_by_role role h)"

definition role_default_quota :: "(string \<Rightarrow> vfs_error + int option) \<Rightarrow> string \<Rightarrow> 'p hub \<Rightarrow> vfs_error + int" where
  "role_default_quota role_quota role h =
     res_bind (role_quota role) (\<lambda>q.
       case q of
         Some quota \<Rightarrow> Inr quota
       | None \<Rightarrow> Inr (case find (\<lambda>p. rp_role p = Some role) (hb_policies h) of Some p \<Rightarrow> rp_quota p | None \<Rightarrow> 0))"

definition ensure_user_settings ::
  "(string \<Rightarrow> vfs_error + int option) \<Rightarrow> bool \<Rightarrow> int \<Rightarrow> string \<Rightarrow> string \<Rightarrow>
   ('p hub \<times> user_settings list, vfs_error, user_settings) call" where
  "ensure_user_settings role_quota up now u role s =
     (case s of (h, settings) \<Rightarrow>
      (case map_of (hb_settings_cache h) u of
         Some c \<Rightarrow> (Inr c, s)
       | None \<Rightarrow>
           if \<not> up then (Inl (Database (db_text DbUnavailable)), s)
           else
             (let remember = (\<lambda>row settings. (Inr row, h\<lparr>hb_settings_cache := al_put u row (hb_settings_cache h)\<rparr>, settings)) in
              case get_user_settings u settings of
                Some row \<Rightarrow> remember row settings
              | None \<Rightarrow>
                  (case res_bind (role_default_quota role_quota role h) (\<lambda>quota.
                          res_bind (route_by_role role h) (\<lambda>pool. Inr (quota, pool))) of
                     Inl err \<Rightarrow> (Inl err, s)
                   | Inr (quota, pool) \<Rightarrow>
                       (case upsert_user_settings up now u pool (''/users/'' @ u) quota settings of
                          (Inl err, settings') \<Rightarrow>
                            (Inl (Internal (''Failed to create default user settings: '' @ db_text err)), h, settings')
                        | (Inr row, settings') \<Rightarrow> remember row settings')))))"

definition invalidate_user_settings_cache :: "string \<Rightarrow> 'p hub \<Rightarrow> 'p hub" where
  "invalidate_user_settings_cache u h = h\<lparr>hb_settings_cache := filter (\<lambda>x. fst x \<noteq> u) (hb_settings_cache h)\<rparr>"

text \<open>An engine on a pool; \<open>new_engine\<close> is the constructor with what the process provides, which may refuse.\<close>

definition create_scoped_engine_with_pool ::
  "(string \<Rightarrow> string \<Rightarrow> vfs_error + 'p engine) \<Rightarrow> string \<Rightarrow> string \<Rightarrow> string \<Rightarrow> 'p hub \<Rightarrow> vfs_error + 'p engine" where
  "create_scoped_engine_with_pool new_engine u role pool_name h =
     res_bind (if \<not> Option.is_none (get_pool pool_name h) then Inr pool_name else route_by_role role h) (new_engine u)"

definition create_scoped_engine ::
  "(string \<Rightarrow> vfs_error + int option) \<Rightarrow> (string \<Rightarrow> string \<Rightarrow> vfs_error + 'p engine) \<Rightarrow> bool \<Rightarrow> int \<Rightarrow> string \<Rightarrow> string \<Rightarrow>
   ('p hub \<times> user_settings list, vfs_error, 'p engine) call" where
  "create_scoped_engine role_quota new_engine up now u role =
     st_bind (ensure_user_settings role_quota up now u role) (\<lambda>row s.
       (create_scoped_engine_with_pool new_engine u role (st_pool_name row) (fst s), s))"

end
