(* ===== verification/Engine_Ops.thy ===== *)
theory Engine_Ops
  imports Engine
begin

text \<open>
  The operations of the scoped engine that change something (\<open>vfs/scoped/write.rs\<close>, \<open>vfs/scoped/ops.rs\<close> and
  their helpers in \<open>vfs/scoped/internal.rs\<close>). Each one is gated by maintenance and validation, logs the operation
  in the journal table, changes the storage, marks the log row as physically done, changes the index, and
  completes or fails the row.
\<close>

section \<open>The journal\<close>

definition on_wal :: "'p engine \<Rightarrow> int option \<Rightarrow> (int \<Rightarrow> unit wal_call) \<Rightarrow> 'p world \<Rightarrow> 'p world" where
  "on_wal e wal_id f w =
     (case wal_id of
        Some i \<Rightarrow> if eg_wal_on e then w\<lparr>wd_wal := snd (f i (wd_wal w))\<rparr> else w
      | None \<Rightarrow> w)"

definition should_skip_wal_for_path :: "'p engine \<Rightarrow> string \<Rightarrow> bool" where
  "should_skip_wal_for_path e path \<longleftrightarrow> (eg_skip_temp e \<and> is_temp_path path) \<or> is_thumbnail_cache_path path"

definition should_skip_wal_for_write :: "'p engine \<Rightarrow> string \<Rightarrow> u64 \<Rightarrow> bool" where
  "should_skip_wal_for_write e path sz \<longleftrightarrow> should_skip_wal_for_path e path \<or> sz < eg_min_size e"

definition begin_wal :: "'p engine \<Rightarrow> wal_operation \<Rightarrow> bool \<Rightarrow> ('p, int option) engine_call" where
  "begin_wal e op skip w =
     (if skip \<or> \<not> eg_wal_on e then (Inr None, w)
      else case log_operation (eg_enc e) (eg_up_wal e) (eg_now e) (eg_user e) op (wd_wal w) of
        (Inl err, l) \<Rightarrow> (Inl (Internal (db_text err)), w\<lparr>wd_wal := l\<rparr>)
      | (Inr i, l) \<Rightarrow> (Inr (Some i), w\<lparr>wd_wal := l\<rparr>))"

definition complete_wal :: "'p engine \<Rightarrow> int option \<Rightarrow> 'p world \<Rightarrow> 'p world" where
  "complete_wal e i = on_wal e i (complete_operation (eg_up_wal e) (eg_now e))"

definition mark_wal_physical_done :: "'p engine \<Rightarrow> int option \<Rightarrow> 'p world \<Rightarrow> 'p world" where
  "mark_wal_physical_done e i = on_wal e i (mark_physical_done (eg_up_wal e) (eg_now e))"

definition fail_wal :: "'p engine \<Rightarrow> int option \<Rightarrow> string \<Rightarrow> 'p world \<Rightarrow> 'p world" where
  "fail_wal e i reason = on_wal e i (\<lambda>i. fail_operation (eg_up_wal e) (eg_now e) i reason)"

definition journal_log ::
  "'p engine \<Rightarrow> string \<Rightarrow> string \<Rightarrow> string option \<Rightarrow> bool \<Rightarrow> string option \<Rightarrow> 'p world \<Rightarrow> 'p world" where
  "journal_log e action src dst success err w =
     (if eg_recorder e
      then w\<lparr>wd_journal := wd_journal w @
        [\<lparr>je_user = eg_user e, je_action = action, je_src = src, je_dst = dst, je_success = success, je_error = err\<rparr>]\<rparr>
      else w)"

text \<open>What most operations end with: complete or fail the row, and report to the recorder.\<close>

definition settle ::
  "'p engine \<Rightarrow> int option \<Rightarrow> bool \<Rightarrow> string \<Rightarrow> string \<Rightarrow> string option \<Rightarrow> ('p world \<Rightarrow> 'p world) \<Rightarrow>
   ('p, 'a) engine_call \<Rightarrow> ('p, 'a) engine_call" where
  "settle e wal_id complete action src dst book m w =
     (case m w of
        (Inr x, w1) \<Rightarrow>
          (Inr x, journal_log e action src dst True None (book (if complete then complete_wal e wal_id w1 else w1)))
      | (Inl err, w1) \<Rightarrow>
          (Inl err, journal_log e action src dst False (Some (vfs_text err)) (fail_wal e wal_id (vfs_text err) w1)))"

section \<open>Quota and index\<close>

definition add_quota :: "'p engine \<Rightarrow> int \<Rightarrow> 'p world \<Rightarrow> 'p world" where
  "add_quota e delta w =
     w\<lparr>wd_settings := snd (update_quota (eg_up_settings e) (eg_now e) (eg_user e) delta (wd_settings w))\<rparr>"

definition engine_check_quota :: "'p engine \<Rightarrow> int \<Rightarrow> 'p world \<Rightarrow> vfs_error + unit" where
  "engine_check_quota e additional w =
     check_quota (eg_up_settings e) (pool_pending_quota_delta (eg_user e) (wd_pool w)) (eg_user e) additional
       (wd_settings w)"

definition upsert_index_with_key ::
  "'p engine \<Rightarrow> string \<Rightarrow> vfs_file_info \<Rightarrow> string option \<Rightarrow> int option \<Rightarrow> string option \<Rightarrow> ('p, unit) engine_call" where
  "upsert_index_with_key e path info key physical_size meta w =
     (if is_protected_blob_path path then (Inr (), w)
      else case (if is_thumbnail_cache_path path
                 then res_bind (get_protected_plan e path w) (\<lambda>plan. Inr (plan = None)) else Inr False) of
        Inl err \<Rightarrow> (Inl err, w)
      | Inr True \<Rightarrow> (Inr (), w)
      | Inr False \<Rightarrow>
          (case on_index (upsert_file_with_location (eg_up_index e) (eg_uuid e 0) (eg_now e) (eg_user e) path info
                 (Some (eg_pool_name e)) (Some (eg_backend e)) key physical_size meta) w of
             (Inl err, w1) \<Rightarrow> (Inl err, w1)
           | (Inr _, w1) \<Rightarrow> (Inr (), w1)))"

definition upsert_index_helper :: "'p engine \<Rightarrow> string \<Rightarrow> vfs_file_info \<Rightarrow> ('p, unit) engine_call" where
  "upsert_index_helper e path info w =
     (case physical e path of
        Inl err \<Rightarrow> (Inl err, w)
      | Inr p \<Rightarrow> upsert_index_with_key e path info (Some p) None None w)"

definition logical_info :: "'p engine \<Rightarrow> vfs_file_info \<Rightarrow> vfs_file_info" where
  "logical_info e info = translate_file_info (eg_user e) info False"

text \<open>The index follows the storage; a failure of the index fails the log row and the operation.\<close>

definition index_written :: "'p engine \<Rightarrow> int option \<Rightarrow> string \<Rightarrow> string \<Rightarrow> vfs_file_info \<Rightarrow> ('p, vfs_file_info) engine_call" where
  "index_written e wal_id what path info w =
     (case upsert_index_helper e path (logical_info e info) w of
        (Inr _, w1) \<Rightarrow> (Inr (logical_info e info), w1)
      | (Inl err, w1) \<Rightarrow>
          (Inl err, fail_wal e wal_id (what @ '' metadata sync failed for '' @ path @ '': '' @ vfs_text err) w1))"

section \<open>Writing\<close>

text \<open>
  A write that the write cache does not take: \<open>plain_write\<close> is the storage and index part, for a temp path and
  for a stored one. An index failure after the bytes were written returns at once, before the quota is booked.
\<close>

definition plain_write :: "'p engine \<Rightarrow> string \<Rightarrow> string \<Rightarrow> string \<Rightarrow> int \<Rightarrow> int option \<Rightarrow> ('p, vfs_file_info) engine_call" where
  "plain_write e path n data diff wal_id w =
     (let book = (if is_thumbnail_cache_path n \<or> diff = 0 then (\<lambda>w. w) else add_quota e diff) in
      if is_temp_path n then
        (case temp_mkdirs e (temp_parent (temp_rel n)) w of
           (Inl err, w1) \<Rightarrow> (Inl err, w1)
         | (Inr _, w1) \<Rightarrow>
             (case temp_write e (temp_rel n) data w1 of
                (Inl err, w2) \<Rightarrow> (Inl err, w2)
              | (Inr _, w2) \<Rightarrow>
                  settle e wal_id True ''WRITE'' n None book (look (stat_impl e path)) (mark_wal_physical_done e wal_id w2)))
      else case physical e n of
        Inl err \<Rightarrow> (Inl err, w)
      | Inr p \<Rightarrow>
          (case on_pool (pool_write (eg_pool e) p data) w of
             (Inl err, w1) \<Rightarrow> settle e wal_id True ''WRITE'' n None book (give_up err) w1
           | (Inr info, w1) \<Rightarrow>
               (case index_written e wal_id ''WRITE'' n info (mark_wal_physical_done e wal_id w1) of
                  (Inl err, w2) \<Rightarrow> (Inl err, w2)
                | (Inr i, w2) \<Rightarrow> settle e wal_id True ''WRITE'' n None book (give i) w2)))"

definition direct_write :: "'p engine \<Rightarrow> string \<Rightarrow> string \<Rightarrow> string \<Rightarrow> ('p, vfs_file_info) engine_call" where
  "direct_write e path n data w =
     (case flush_pending_for_path e n w of
        (Inl err, w1) \<Rightarrow> (Inl err, w1)
      | (Inr _, w1) \<Rightarrow>
          (let diff = (if is_thumbnail_cache_path n then 0 else int (length data) - get_file_size e n w1) in
           case (if 0 < diff then engine_check_quota e diff w1 else Inr ()) of
             Inl err \<Rightarrow> (Inl err, w1)
           | Inr _ \<Rightarrow>
               st_bind
                 (begin_wal e (WalWrite n (word_of_nat (length data)) None)
                    (should_skip_wal_for_write e n (word_of_nat (length data))))
                 (plain_write e path n data diff) w1))"

definition write_impl :: "'p engine \<Rightarrow> string \<Rightarrow> string \<Rightarrow> ('p, vfs_file_info) engine_call" where
  "write_impl e path data w =
     (case check_maintenance e w of
        Inl err \<Rightarrow> (Inl err, w)
      | Inr _ \<Rightarrow>
     (case validate_path e path of
        Inl err \<Rightarrow> (Inl err, w)
      | Inr n \<Rightarrow>
     (case get_protected_plan e n w of
        Inl err \<Rightarrow> (Inl err, w)
      | Inr (Some _) \<Rightarrow> po_write (eg_protected e) n data w
      | Inr None \<Rightarrow>
          if is_refresh_trigger n then (stat_impl e n w, w)
          else case try_enqueue_write_cache e n data w of
            (Inl err, w1) \<Rightarrow> (Inl err, w1)
          | (Inr (Some info), w1) \<Rightarrow> (Inr info, w1)
          | (Inr None, w1) \<Rightarrow> direct_write e path n data w1)))"

text \<open>
  A streamed write that is short enough for the write cache is collected and written as one; a longer one goes
  on as a stream of the collected chunks and the rest.
\<close>

datatype collected = StreamBroken vfs_error | StreamWhole string | StreamSpilled "(vfs_error + string) list"

fun collect_stream :: "nat \<Rightarrow> string \<Rightarrow> (vfs_error + string) list \<Rightarrow> (vfs_error + string) list \<Rightarrow> collected" where
  "collect_stream limit buffer chunks [] = StreamWhole buffer"
| "collect_stream limit buffer chunks (Inl err # rest) = StreamBroken err"
| "collect_stream limit buffer chunks (Inr bytes # rest) =
     (if limit < length buffer + length bytes then StreamSpilled (chunks @ [Inr bytes] @ rest)
      else collect_stream limit (buffer @ bytes) (chunks @ [Inr bytes]) rest)"

fun temp_append :: "'p engine \<Rightarrow> string \<Rightarrow> (vfs_error + string) list \<Rightarrow> ('p, unit) engine_call" where
  "temp_append e rel [] w = (Inr (), w)"
| "temp_append e rel (Inl err # cs) w = (Inl err, w)"
| "temp_append e rel (Inr c # cs) w =
     (case temp_read e rel w of
        Inl err \<Rightarrow> (Inl err, w)
      | Inr d \<Rightarrow> st_bind (temp_write e rel (d @ c)) (\<lambda>_. temp_append e rel cs) w)"

text \<open>
  The chunks are first put in a local file of their own, outside what the user sees; the quota is watched on the
  way. Lengths are those of streams below 2^63 bytes.
\<close>

fun stage_chunks :: "(int \<times> int) option \<Rightarrow> int \<Rightarrow> string \<Rightarrow> (vfs_error + string) list \<Rightarrow> vfs_error + string" where
  "stage_chunks projection initial staged [] = Inr staged"
| "stage_chunks projection initial staged (Inl err # cs) = Inl err"
| "stage_chunks projection initial staged (Inr c # cs) =
     (let diff = int (length (staged @ c)) - initial in
      if (case projection of None \<Rightarrow> False | Some (used, limit) \<Rightarrow> 0 < diff \<and> limit < sat_add_i64 used diff)
      then Inl QuotaExceeded
      else stage_chunks projection initial (staged @ c) cs)"

definition quota_projection :: "'p engine \<Rightarrow> string \<Rightarrow> 'p world \<Rightarrow> vfs_error + (int \<times> int) option" where
  "quota_projection e n w =
     (if is_thumbnail_cache_path n then Inr None
      else if \<not> eg_up_settings e then Inl (Internal (db_text DbUnavailable))
      else Inr (case get_user_settings (eg_user e) (wd_settings w) of
            None \<Rightarrow> None
          | Some s \<Rightarrow>
              (if 0 < st_quota s
               then Some (sat_add_i64 (st_used s) (pool_pending_quota_delta (eg_user e) (wd_pool w)), st_quota s)
               else None)))"

text \<open>The storage and index part, once the data is staged. The staged file is read back as one chunk.\<close>

definition staged_write :: "'p engine \<Rightarrow> string \<Rightarrow> string \<Rightarrow> string \<Rightarrow> int \<Rightarrow> int option \<Rightarrow> ('p, vfs_file_info) engine_call" where
  "staged_write e n p staged initial wal_id w =
     (case on_pool (pool_write_stream (eg_pool e) p (if staged = [] then [] else [Inr staged])) w of
        (Inl err, w1) \<Rightarrow> (Inl err, fail_wal e wal_id (vfs_text err) w1)
      | (Inr _, w1) \<Rightarrow>
          (let w2 = mark_wal_physical_done e wal_id w1;
               diff = int (length staged) - initial;
               w3 = (if diff = 0 then w2 else add_quota e diff w2) in
           case pool_stat (eg_pool e) p (wd_pool w3) of
             Inl err \<Rightarrow> (Inl err, w3)
           | Inr info \<Rightarrow>
               (case index_written e wal_id ''WRITE_STREAM'' n info w3 of
                  (Inl err, w4) \<Rightarrow> (Inl err, w4)
                | (Inr i, w4) \<Rightarrow> (Inr i, complete_wal e wal_id w4))))"

definition write_stream_internal :: "'p engine \<Rightarrow> string \<Rightarrow> (vfs_error + string) list \<Rightarrow> ('p, vfs_file_info) engine_call" where
  "write_stream_internal e n stream w =
     (if is_temp_path n then
        st_bind (temp_mkdirs e (temp_parent (temp_rel n))) (\<lambda>_.
          st_bind (temp_write e (temp_rel n) []) (\<lambda>_.
            st_bind (temp_append e (temp_rel n) stream) (\<lambda>_. look (stat_impl e n)))) w
      else case eg_io e ''upload'' of
        Some k \<Rightarrow> (Inl (Internal ''upload''), w)
      | None \<Rightarrow>
          (let initial = get_file_size e n w in
           case res_bind (quota_projection e n w) (\<lambda>projection. stage_chunks projection initial [] stream) of
             Inl err \<Rightarrow> (Inl err, w)
           | Inr staged \<Rightarrow>
               (case physical e n of
                  Inl err \<Rightarrow> (Inl err, w)
                | Inr p \<Rightarrow>
                    st_bind
                      (begin_wal e (WalWrite n (word_of_nat (length staged)) None)
                         (should_skip_wal_for_write e n (word_of_nat (length staged))))
                      (staged_write e n p staged initial) w)))"

definition logged_stream :: "'p engine \<Rightarrow> string \<Rightarrow> (vfs_error + string) list \<Rightarrow> ('p, vfs_file_info) engine_call" where
  "logged_stream e n stream w =
     (case write_stream_internal e n stream (journal_log e ''WRITE_STREAM'' n None True None w) of
        (Inr i, w1) \<Rightarrow> (Inr i, journal_log e ''WRITE_STREAM_FINISH'' n None True None w1)
      | (Inl err, w1) \<Rightarrow> (Inl err, journal_log e ''WRITE_STREAM_FINISH'' n None False (Some (vfs_text err)) w1))"

definition write_stream_impl :: "'p engine \<Rightarrow> string \<Rightarrow> (vfs_error + string) list \<Rightarrow> ('p, vfs_file_info) engine_call" where
  "write_stream_impl e path stream w =
     (case res_bind (check_maintenance e w) (\<lambda>_. validate_path e path) of
        Inl err \<Rightarrow> (Inl err, w)
      | Inr n \<Rightarrow>
     (case get_protected_plan e n w of
        Inl err \<Rightarrow> (Inl err, w)
      | Inr (Some _) \<Rightarrow> po_write_stream (eg_protected e) n stream w
      | Inr None \<Rightarrow>
          if is_refresh_trigger n then
            (let parent = (case path_parent n of Some d \<Rightarrow> d | None \<Rightarrow> ''/'') in
             st_bind (sync_index_internal e parent) (\<lambda>_. look (stat_impl e parent)) w)
          else if should_use_write_cache e n 1 w then
            (case collect_stream (case write_cache_max_file_size (wd_pool w) of Some m \<Rightarrow> unat m | None \<Rightarrow> 0) [] [] stream of
               StreamBroken err \<Rightarrow> (Inl err, w)
             | StreamSpilled rest \<Rightarrow> logged_stream e n rest w
             | StreamWhole data \<Rightarrow> write_impl e n data w)
          else logged_stream e n stream w))"

text \<open>The content after a write at an offset: what is missing before the offset is filled with zeros.\<close>

definition splice :: "string \<Rightarrow> nat \<Rightarrow> string \<Rightarrow> string" where
  "splice content i data =
     (let grown = content @ replicate (i + length data - length content) (CHR 0x00) in
      take i grown @ data @ drop (i + length data) grown)"

definition write_at_impl :: "'p engine \<Rightarrow> string \<Rightarrow> u64 \<Rightarrow> string \<Rightarrow> ('p, vfs_file_info) engine_call" where
  "write_at_impl e path offset data w =
     (case res_bind (check_maintenance e w) (\<lambda>_. validate_path e path) of
        Inl err \<Rightarrow> (Inl err, w)
      | Inr n \<Rightarrow>
     (case get_protected_plan e n w of
        Inl err \<Rightarrow> (Inl err, w)
      | Inr (Some _) \<Rightarrow> po_write_at (eg_protected e) n offset data w
      | Inr None \<Rightarrow>
          if is_refresh_trigger n then write_impl e path data w
          else if is_temp_path n then (Inl (Internal ''Not supported for temp''), w)
          else case flush_pending_for_path e n w of
            (Inl err, w1) \<Rightarrow> (Inl err, w1)
          | (Inr _, w1) \<Rightarrow>
              (let skip = is_thumbnail_cache_path n;
                   current = word_of_int (get_file_size e n w1) :: u64;
                   new_end = offset + word_of_nat (length data);
                   diff = (if \<not> skip \<and> current < new_end then sint (new_end - current) else 0) in
               case res_bind (physical e n) (\<lambda>p.
                      res_bind (if 0 < diff then engine_check_quota e diff w1 else Inr ()) (\<lambda>_. Inr p)) of
                 Inl err \<Rightarrow> (Inl err, w1)
               | Inr p \<Rightarrow>
                   st_bind
                     (begin_wal e (WalWrite n (word_of_nat (length data)) None)
                        (should_skip_wal_for_write e n (word_of_nat (length data))))
                     (\<lambda>wal_id w2.
                        case on_pool (pool_read (eg_pool e) (eg_clk e) p) w2 of (old, w3) \<Rightarrow>
                        (case on_pool (pool_write (eg_pool e) p
                                (splice (case old of Inr (d, _) \<Rightarrow> d | Inl _ \<Rightarrow> []) (unat offset) data)) w3 of
                           (Inl err, w4) \<Rightarrow>
                             (Inl err,
                              journal_log e ''WRITE_AT'' n None False (Some (vfs_text err))
                                (fail_wal e wal_id (vfs_text err) w4))
                         | (Inr info, w4) \<Rightarrow>
                             (let w5 = mark_wal_physical_done e wal_id w4;
                                  w6 = journal_log e ''WRITE_AT'' n None True None
                                         (if 0 < diff then add_quota e diff w5 else w5) in
                              case index_written e wal_id ''WRITE_AT'' n info w6 of
                                (Inl err, w7) \<Rightarrow> (Inl err, w7)
                              | (Inr i, w7) \<Rightarrow> (Inr i, complete_wal e wal_id w7)))) w1)))"

section \<open>Deleting and creating directories\<close>

definition on_index_of :: "'p engine \<Rightarrow> (bool \<Rightarrow> 'a db_call) \<Rightarrow> 'p world \<Rightarrow> (db_error + 'a) \<times> 'p world" where
  "on_index_of e f w = (case f (eg_up_index e) (wd_index w) of (r, db) \<Rightarrow> (r, w\<lparr>wd_index := db\<rparr>))"

definition reclaimed_size :: "'p engine \<Rightarrow> string \<Rightarrow> vfs_file_info \<Rightarrow> 'p world \<Rightarrow> vfs_error + int" where
  "reclaimed_size e n info w =
     (if fi_is_dir info
      then res_bind (list_recursive_impl e n w) (\<lambda>is.
             Inr (sum_list (map (\<lambda>i. sint (fi_size i)) (filter (\<lambda>i. \<not> fi_is_dir i) is))))
      else Inr (sint (fi_size info)))"

text \<open>What follows a deletion in the storage: the index, the journal row, and the quota.\<close>

definition after_delete :: "'p engine \<Rightarrow> string \<Rightarrow> vfs_file_info \<Rightarrow> int \<Rightarrow> int option \<Rightarrow> ('p, vfs_file_info) engine_call" where
  "after_delete e n info reclaimed wal_id w =
     (let skip = is_thumbnail_cache_path n;
          w1 = mark_wal_physical_done e wal_id w;
          w2 = (if skip then complete_wal e wal_id w1
                else case on_index_of e (\<lambda>up. delete_file up (eg_user e) n) w1 of
                  (Inl err, v) \<Rightarrow> fail_wal e wal_id (''DELETE metadata sync failed for '' @ n @ '': '' @ db_text err) v
                | (Inr _, v) \<Rightarrow> complete_wal e wal_id v);
          w3 = (if \<not> skip \<and> reclaimed \<noteq> 0 then add_quota e (- reclaimed) w2 else w2) in
      (Inr info, journal_log e ''DELETE'' n None True None w3))"

definition failed_delete :: "'p engine \<Rightarrow> string \<Rightarrow> string \<Rightarrow> vfs_file_info \<Rightarrow> int option \<Rightarrow> vfs_error \<Rightarrow> ('p, vfs_file_info) engine_call" where
  "failed_delete e n p info wal_id err w =
     (if should_prune_stale_recycle_index n err then
        (case on_index_of e (\<lambda>up. delete_file up (eg_user e) n) w of
           (Inr _, w1) \<Rightarrow>
             (Inr info, journal_log e ''DELETE'' n None True None (complete_wal e wal_id (mark_wal_physical_done e wal_id w1)))
         | (Inl ierr, w1) \<Rightarrow>
             (Inl (Internal (''Delete failed for '' @ n @ '' and stale recycle entry cleanup also failed: '' @ db_text ierr)),
              journal_log e ''DELETE'' n None False
                (Some (''physical_path='' @ p @ '' original_err='' @ vfs_text err @ '' index_cleanup_err='' @ db_text ierr))
                (fail_wal e wal_id
                  (''DELETE stale recycle entry cleanup failed for '' @ n @ '' (physical_path='' @ p @ ''): original_err='' @
                   vfs_text err @ '', index_err='' @ db_text ierr) w1)))
      else
        (Inl err,
         journal_log e ''DELETE'' n None False (Some (''physical_path='' @ p @ '' err='' @ vfs_text err))
           (fail_wal e wal_id (''DELETE failed for '' @ n @ '' (physical_path='' @ p @ ''): '' @ vfs_text err) w)))"

definition stored_delete :: "'p engine \<Rightarrow> string \<Rightarrow> vfs_file_info \<Rightarrow> int \<Rightarrow> int option \<Rightarrow> ('p, vfs_file_info) engine_call" where
  "stored_delete e n info reclaimed wal_id w =
     (if is_temp_path n then
        (case temp_remove e (temp_rel n) w of
           (Inl err, w1) \<Rightarrow> (Inl err, w1)
         | (Inr _, w1) \<Rightarrow> (Inr info, complete_wal e wal_id (mark_wal_physical_done e wal_id w1)))
      else case physical e n of
        Inl err \<Rightarrow> (Inl err, w)
      | Inr p \<Rightarrow>
          (case (if fi_is_dir info then on_pool (remove_tree (eg_pool e) p) w
                 else on_pool (st_bind (pool_delete (eg_pool e) p) (\<lambda>_ s. (Inr (), s))) w) of
             (Inr _, w1) \<Rightarrow> after_delete e n info reclaimed wal_id w1
           | (Inl err, w1) \<Rightarrow> failed_delete e n p info wal_id err w1))"

definition delete_impl :: "'p engine \<Rightarrow> string \<Rightarrow> ('p, vfs_file_info) engine_call" where
  "delete_impl e path w =
     (case res_bind (check_maintenance e w) (\<lambda>_. validate_path e path) of
        Inl err \<Rightarrow> (Inl err, w)
      | Inr n \<Rightarrow>
     (case get_protected_plan e n w of
        Inl err \<Rightarrow> (Inl err, w)
      | Inr (Some _) \<Rightarrow> po_delete (eg_protected e) n w
      | Inr None \<Rightarrow>
          (case flush_pending_for_path e n w of
             (Inl err, w1) \<Rightarrow> (Inl err, w1)
           | (Inr _, w1) \<Rightarrow>
               (case res_bind (stat_impl e n w1) (\<lambda>info. res_bind (reclaimed_size e n info w1) (\<lambda>sz. Inr (info, sz))) of
                  Inl err \<Rightarrow> (Inl err, w1)
                | Inr (info, sz) \<Rightarrow>
                    st_bind (begin_wal e (WalDelete n) (should_skip_wal_for_path e n)) (stored_delete e n info sz) w1))))"

definition create_dir_impl :: "'p engine \<Rightarrow> string \<Rightarrow> ('p, vfs_file_info) engine_call" where
  "create_dir_impl e path w =
     (case res_bind (check_maintenance e w) (\<lambda>_. validate_path e path) of
        Inl err \<Rightarrow> (Inl err, w)
      | Inr n \<Rightarrow>
     (case get_protected_plan e n w of
        Inl err \<Rightarrow> (Inl err, w)
      | Inr (Some _) \<Rightarrow> po_create_dir (eg_protected e) n w
      | Inr None \<Rightarrow>
          st_bind (begin_wal e (WalCreateDir n) (should_skip_wal_for_path e n)) (\<lambda>wal_id w1.
            if is_temp_path n then
              st_bind (temp_mkdirs e (temp_rel n)) (\<lambda>_ w2.
                look (stat_impl e path) (complete_wal e wal_id (mark_wal_physical_done e wal_id w2))) w1
            else case physical e n of
              Inl err \<Rightarrow> (Inl err, w1)
            | Inr p \<Rightarrow>
                (case on_pool (pool_create_dir (eg_pool e) p) w1 of
                   (Inl err, w2) \<Rightarrow>
                     (Inl err, journal_log e ''MKDIR'' n None False (Some (vfs_text err)) (fail_wal e wal_id (vfs_text err) w2))
                 | (Inr _, w2) \<Rightarrow>
                     (let w3 = journal_log e ''MKDIR'' n None True None (mark_wal_physical_done e wal_id w2) in
                      case pool_stat (eg_pool e) p (wd_pool w3) of
                        Inl err \<Rightarrow> (Inl err, w3)
                      | Inr info \<Rightarrow>
                          (case index_written e wal_id ''CREATE_DIR'' n info w3 of
                             (Inl err, w4) \<Rightarrow> (Inl err, w4)
                           | (Inr i, w4) \<Rightarrow> (Inr i, complete_wal e wal_id w4))))) w))"

section \<open>Moving and copying\<close>

text \<open>The engine has one plan, so two paths under it are in one domain; \<open>same_protected_domain\<close> compares the roots.\<close>

definition same_protected_domain :: "string \<Rightarrow> string \<Rightarrow> bool" where
  "same_protected_domain src_root dst_root \<longleftrightarrow> src_root = dst_root"

text \<open>Across the border of a protected root a file is read and written again.\<close>

definition carry_over :: "'p engine \<Rightarrow> string \<Rightarrow> string \<Rightarrow> string \<Rightarrow> ('p, vfs_file_info) engine_call" where
  "carry_over e what src dst w =
     (case stat_impl e src w of
        Inl err \<Rightarrow> (Inl err, w)
      | Inr i \<Rightarrow>
          if fi_is_dir i then (Inl (Internal (''Protected directory '' @ what @ '' is not implemented yet'')), w)
          else st_bind (read_impl e src) (\<lambda>x. write_impl e dst (fst x)) w)"

text \<open>The index follows a move unless a thumbnail path is involved; its failure fails the row, not the move.\<close>

definition index_moved :: "'p engine \<Rightarrow> int option \<Rightarrow> string \<Rightarrow> string \<Rightarrow> 'p world \<Rightarrow> bool \<times> 'p world" where
  "index_moved e wal_id src dst w =
     (if is_thumbnail_cache_path src \<or> is_thumbnail_cache_path dst then (True, w)
      else case on_index_of e (\<lambda>up. move_file up (eg_now e) (eg_user e) src dst) w of
        (Inr _, w1) \<Rightarrow> (True, w1)
      | (Inl err, w1) \<Rightarrow>
          (False, fail_wal e wal_id (''MOVE metadata sync failed for '' @ src @ '' -> '' @ dst @ '': '' @ db_text err) w1))"

definition forget_read :: "'p engine \<Rightarrow> string \<Rightarrow> 'p world \<Rightarrow> 'p world" where
  "forget_read e p w = w\<lparr>wd_pool := invalidate_read_cache (eg_pool e) p (wd_pool w)\<rparr>"

text \<open>The paths as given (\<open>src0\<close>, \<open>dst0\<close>) and as validated (\<open>src\<close>, \<open>dst\<close>).\<close>

definition plain_move :: "'p engine \<Rightarrow> string \<Rightarrow> string \<Rightarrow> string \<Rightarrow> string \<Rightarrow> int option \<Rightarrow> ('p, vfs_file_info) engine_call" where
  "plain_move e src0 dst0 src dst wal_id w =
     (if is_temp_path src \<and> is_temp_path dst then
        (case temp_rename e (temp_rel src) (temp_rel dst) w of
           (Inl err, w1) \<Rightarrow> (Inl err, w1)
         | (Inr _, w1) \<Rightarrow>
             settle e wal_id True ''MOVE'' src (Some dst) (\<lambda>w. w) (look (stat_impl e dst0)) (mark_wal_physical_done e wal_id w1))
      else if is_temp_path src \<or> is_temp_path dst then
        st_bind (read_impl e src0) (\<lambda>x.
          st_bind (write_impl e dst0 (fst x)) (\<lambda>info w1.
            settle e wal_id True ''MOVE'' src (Some dst) (\<lambda>w. w) (give info) (snd (delete_impl e src0 w1)))) w
      else case res_bind (physical e src) (\<lambda>p. res_bind (physical e dst) (\<lambda>q. Inr (p, q))) of
        Inl err \<Rightarrow> (Inl err, w)
      | Inr (p, q) \<Rightarrow>
          (case on_pool (pool_move_file (eg_pool e) p q) w of
             (Inl err, w1) \<Rightarrow> settle e wal_id True ''MOVE'' src (Some dst) (\<lambda>w. w) (give_up err) w1
           | (Inr _, w1) \<Rightarrow>
               (case index_moved e wal_id src dst (forget_read e q (forget_read e p (mark_wal_physical_done e wal_id w1))) of
                  (whole, w2) \<Rightarrow>
                    settle e wal_id whole ''MOVE'' src (Some dst) (\<lambda>w. w) (look (stat_impl e dst0)) w2)))"

text \<open>The locks of the two parent directories are those of \<open>Move_Locks\<close>; here the move runs alone.\<close>

definition move_file_impl :: "'p engine \<Rightarrow> string \<Rightarrow> string \<Rightarrow> ('p, vfs_file_info) engine_call" where
  "move_file_impl e src0 dst0 w =
     (case res_bind (check_maintenance e w) (\<lambda>_.
             res_bind (validate_path e src0) (\<lambda>src. res_bind (validate_path e dst0) (\<lambda>dst.
             res_bind (get_protected_plan e src w) (\<lambda>sp. res_bind (get_protected_plan e dst w) (\<lambda>dp.
               Inr (src, dst, sp, dp)))))) of
        Inl err \<Rightarrow> (Inl err, w)
      | Inr (src, dst, sp, dp) \<Rightarrow>
          if (case (sp, dp) of (Some a, Some b) \<Rightarrow> same_protected_domain a b | _ \<Rightarrow> False)
          then po_move (eg_protected e) src dst w
          else if sp \<noteq> None \<or> dp \<noteq> None then
            st_bind (carry_over e ''move'' src dst) (\<lambda>info.
              st_bind (delete_impl e src) (\<lambda>_ w1. (Inr info, journal_log e ''MOVE'' src (Some dst) True None w1))) w
          else
            st_bind (flush_pending_for_path e src) (\<lambda>_. st_bind (flush_pending_for_path e dst) (\<lambda>_.
              st_bind (begin_wal e (WalMove src dst) (should_skip_wal_for_path e src))
                (plain_move e src0 dst0 src dst))) w)"

definition plain_copy :: "'p engine \<Rightarrow> string \<Rightarrow> string \<Rightarrow> string \<Rightarrow> string \<Rightarrow> int \<Rightarrow> int option \<Rightarrow> ('p, vfs_file_info) engine_call" where
  "plain_copy e src0 dst0 src dst sz wal_id w =
     (let book = (if is_thumbnail_cache_path dst then (\<lambda>w. w) else add_quota e sz);
          finish = settle e wal_id True ''COPY'' src (Some dst) book in
      if is_temp_path src \<and> is_temp_path dst then
        (case temp_copy e (temp_rel src) (temp_rel dst) w of
           (Inl err, w1) \<Rightarrow> (Inl err, w1)
         | (Inr _, w1) \<Rightarrow> finish (look (stat_impl e dst0)) (mark_wal_physical_done e wal_id w1))
      else if is_temp_path src \<or> is_temp_path dst then
        st_bind (read_impl e src0) (\<lambda>x. finish (write_impl e dst0 (fst x))) w
      else case res_bind (physical e src) (\<lambda>p. res_bind (physical e dst) (\<lambda>q. Inr (p, q))) of
        Inl err \<Rightarrow> (Inl err, w)
      | Inr (p, q) \<Rightarrow>
          (case on_pool (pool_copy_file (eg_pool e) p q) w of
             (Inl err, w1) \<Rightarrow> finish (give_up err) w1
           | (Inr _, w1) \<Rightarrow>
               (let w2 = mark_wal_physical_done e wal_id w1 in
                case pool_stat (eg_pool e) q (wd_pool w2) of
                  Inl err \<Rightarrow> (Inl err, w2)
                | Inr info \<Rightarrow>
                    (case upsert_index_helper e dst (logical_info e info) w2 of
                       (Inl err, w3) \<Rightarrow>
                         (Inl err,
                          fail_wal e wal_id (''COPY metadata sync failed for '' @ src @ '' -> '' @ dst @ '': '' @ vfs_text err) w3)
                     | (Inr _, w3) \<Rightarrow> finish (give (logical_info e info)) w3))))"

definition copy_file_impl :: "'p engine \<Rightarrow> string \<Rightarrow> string \<Rightarrow> ('p, vfs_file_info) engine_call" where
  "copy_file_impl e src0 dst0 w =
     (case res_bind (check_maintenance e w) (\<lambda>_.
             res_bind (validate_path e src0) (\<lambda>src. res_bind (validate_path e dst0) (\<lambda>dst.
             res_bind (get_protected_plan e src w) (\<lambda>sp. res_bind (get_protected_plan e dst w) (\<lambda>dp.
               Inr (src, dst, sp, dp)))))) of
        Inl err \<Rightarrow> (Inl err, w)
      | Inr (src, dst, sp, dp) \<Rightarrow>
          if (case (sp, dp) of (Some a, Some b) \<Rightarrow> same_protected_domain a b | _ \<Rightarrow> False)
          then po_copy (eg_protected e) src dst w
          else if sp \<noteq> None \<or> dp \<noteq> None then
            st_bind (carry_over e ''copy'' src dst) (\<lambda>info w1.
              (Inr info, journal_log e ''COPY'' src (Some dst) True None w1)) w
          else
            st_bind (flush_pending_for_path e src) (\<lambda>_. st_bind (flush_pending_for_path e dst) (\<lambda>_.
              st_bind (look (stat_impl e src)) (\<lambda>info.
                st_bind
                  (look (\<lambda>w. if is_thumbnail_cache_path dst then Inr () else engine_check_quota e (sint (fi_size info)) w))
                  (\<lambda>_. st_bind (begin_wal e (WalCopy src dst None) (should_skip_wal_for_write e dst (fi_size info)))
                    (plain_copy e src0 dst0 src dst (sint (fi_size info))))))) w)"

end
