(* ===== verification/Engine_Trash.thy ===== *)
theory Engine_Trash
  imports Engine_Ops
begin

text \<open>
  The recycle bin, the favourites, the batches and the paginated lists of the scoped engine
  (\<open>vfs/scoped/ops.rs\<close>, the second half of \<open>vfs/scoped/read.rs\<close>). The operations of a batch run concurrently
  in the code and may finish in any order; here they run one after another in the order of their completion.
\<close>

section \<open>The recycle bin\<close>

definition ensure_recycle_bin_initialized :: "'p engine \<Rightarrow> ('p, unit) engine_call" where
  "ensure_recycle_bin_initialized e w =
     (if wd_recycle w then (Inr (), w)
      else case physical e ''/.recycle_bin'' of
        Inl err \<Rightarrow> (Inl err, w)
      | Inr p \<Rightarrow>
          (case on_pool (pool_create_dir (eg_pool e) p) w of
             (Inl err, w1) \<Rightarrow> (Inl err, w1)
           | (Inr _, w1) \<Rightarrow> (Inr (), w1\<lparr>wd_recycle := True\<rparr>)))"

definition move_regular_path_without_wal :: "'p engine \<Rightarrow> string \<Rightarrow> string \<Rightarrow> ('p, vfs_file_info) engine_call" where
  "move_regular_path_without_wal e src dst w =
     (if is_temp_path src \<or> is_temp_path dst
      then (Inl (Internal ''Recycle bin operations do not support temp paths''), w)
      else
        st_bind (flush_pending_for_path e src) (\<lambda>_. st_bind (flush_pending_for_path e dst) (\<lambda>_.
          st_bind (look (\<lambda>_. res_bind (physical e src) (\<lambda>p. res_bind (physical e dst) (\<lambda>q. Inr (p, q))))) (\<lambda>pq.
            st_bind (on_pool (pool_move_file (eg_pool e) (fst pq) (snd pq))) (\<lambda>_. look (stat_impl e dst))))) w)"

definition index_unit :: "(db_error + 'a) \<times> 'p world \<Rightarrow> (vfs_error + unit) \<times> 'p world" where
  "index_unit x = (case x of (Inl err, w) \<Rightarrow> (Inl (Internal (db_text err)), w) | (Inr _, w) \<Rightarrow> (Inr (), w))"

text \<open>
  The way to the bin and back: the storage moves, then the index with \<open>follow\<close>. In a protected root nothing
  moves in the storage; then an index failure leaves the row as physically done.
\<close>

definition index_only_move ::
  "'p engine \<Rightarrow> string \<Rightarrow> string \<Rightarrow> string \<Rightarrow> (bool \<Rightarrow> unit db_call) \<Rightarrow> wal_operation \<Rightarrow> ('p, unit) engine_call" where
  "index_only_move e what src dst follow op =
     st_bind (begin_wal e op (should_skip_wal_for_path e src)) (\<lambda>wal_id w.
       case index_unit (on_index_of e follow (mark_wal_physical_done e wal_id w)) of
         (Inl err, w1) \<Rightarrow> (Inl err, w1)
       | (Inr _, w1) \<Rightarrow> (Inr (), journal_log e what src (Some dst) True None (complete_wal e wal_id w1)))"

definition stored_bin_move ::
  "'p engine \<Rightarrow> string \<Rightarrow> string \<Rightarrow> string \<Rightarrow> (bool \<Rightarrow> unit db_call) \<Rightarrow> wal_operation \<Rightarrow> ('p, vfs_file_info) engine_call" where
  "stored_bin_move e what src dst follow op =
     st_bind (begin_wal e op (should_skip_wal_for_path e src)) (\<lambda>wal_id w.
       case move_regular_path_without_wal e src dst w of
         (Inl err, w1) \<Rightarrow>
           (Inl err, journal_log e what src (Some dst) False (Some (vfs_text err)) (fail_wal e wal_id (vfs_text err) w1))
       | (Inr info, w1) \<Rightarrow>
           (case on_index_of e follow (mark_wal_physical_done e wal_id w1) of
              (Inl err, w2) \<Rightarrow>
                (Inl (Internal (db_text err)),
                 fail_wal e wal_id
                   (what @ '' metadata sync failed for '' @ src @ '' -> '' @ dst @ '': '' @ db_text err) w2)
            | (Inr _, w2) \<Rightarrow> (Inr info, journal_log e what src (Some dst) True None (complete_wal e wal_id w2))))"

definition bin_path :: "'p engine \<Rightarrow> vfs_file_info \<Rightarrow> string" where
  "bin_path e info = ''/.recycle_bin/'' @ eg_uuid e 0 @ ''_'' @ fi_name info"

definition move_to_trash_impl :: "'p engine \<Rightarrow> string \<Rightarrow> ('p, vfs_file_info) engine_call" where
  "move_to_trash_impl e path w =
     (case res_bind (check_maintenance e w) (\<lambda>_. res_bind (validate_path e path) (\<lambda>n.
             res_bind (is_protected_subdir_path e n w) (\<lambda>prot. Inr (n, prot)))) of
        Inl err \<Rightarrow> (Inl err, w)
      | Inr (n, prot) \<Rightarrow>
          if prot then (Inl (Internal ''Recycle bin is disabled for protected subdirectory storage''), w)
          else if starts_with n ''/.recycle_bin/'' then (Inl (Internal ''Path is already inside recycle bin''), w)
          else case res_bind (stat_impl e n w) (\<lambda>info. res_bind (get_protected_plan e n w) (\<lambda>plan. Inr (info, plan))) of
            Inl err \<Rightarrow> (Inl err, w)
          | Inr (info, plan) \<Rightarrow>
              (let trash_path = bin_path e info;
                   follow = (\<lambda>up. trash_file up (eg_now e) (eg_user e) n trash_path) in
               if plan = Some ''/'' \<and> \<not> is_hidden_storage_path n then
                 st_bind (index_only_move e ''MOVE_TO_TRASH'' n trash_path follow (WalMoveToTrash n trash_path))
                   (\<lambda>_ w1. (Inr (info\<lparr>fi_path := trash_path, fi_original_path := Some n,
                                     fi_trashed_at := Some (eg_now e)\<rparr>), w1)) w
               else
                 st_bind (ensure_recycle_bin_initialized e)
                   (\<lambda>_. stored_bin_move e ''MOVE_TO_TRASH'' n trash_path follow (WalMoveToTrash n trash_path)) w))"

definition restore_from_trash_impl :: "'p engine \<Rightarrow> string \<Rightarrow> ('p, vfs_file_info) engine_call" where
  "restore_from_trash_impl e path w =
     (case res_bind (check_maintenance e w) (\<lambda>_. validate_path e path) of
        Inl err \<Rightarrow> (Inl err, w)
      | Inr n \<Rightarrow>
          if \<not> starts_with n ''/.recycle_bin/'' then (Inl (Internal ''Path is not inside recycle bin''), w)
          else case (if eg_up_index e then Option.bind (get_file_metadata (eg_user e) n (wd_index w)) ir_original else None) of
            None \<Rightarrow> (Inl (Internal ''Not in trash or original path lost''), w)
          | Some orig \<Rightarrow>
              (let follow = (\<lambda>up. restore_file up (eg_now e) (eg_user e) n orig) in
               case get_protected_plan e orig w of
                 Inl err \<Rightarrow> (Inl err, w)
               | Inr plan \<Rightarrow>
                   if plan = Some ''/'' then
                     st_bind (index_only_move e ''RESTORE_TRASH'' n orig follow (WalRestoreTrash n orig))
                       (\<lambda>_. look (stat_impl e orig)) w
                   else stored_bin_move e ''RESTORE_TRASH'' n orig follow (WalRestoreTrash n orig) w))"

section \<open>Favourites, sizes and lists\<close>

definition set_favorite_impl :: "'p engine \<Rightarrow> string \<Rightarrow> int \<Rightarrow> ('p, vfs_file_info) engine_call" where
  "set_favorite_impl e path color w =
     (case stat_impl e path w of
        Inl err \<Rightarrow> (Inl err, w)
      | Inr info \<Rightarrow>
          look (stat_impl e path)
            (snd (on_index_of e (\<lambda>up. set_favorite_color up (eg_user e) (fi_path info) color) w)))"

definition asked_index :: "'p engine \<Rightarrow> (index_db \<Rightarrow> 'a) \<Rightarrow> 'p world \<Rightarrow> vfs_error + 'a" where
  "asked_index e f w = (if eg_up_index e then Inr (f (wd_index w)) else Inl (Internal (db_text DbUnavailable)))"

definition favorites_page_size :: "string \<Rightarrow> u64" where
  "favorites_page_size profile = (if profile = ''low_memory'' then 64 else if profile = ''throughput'' then 512 else 128)"

definition list_favorites_impl :: "'p engine \<Rightarrow> string \<Rightarrow> int option \<Rightarrow> 'p world \<Rightarrow> vfs_error + vfs_file_info list" where
  "list_favorites_impl e profile color =
     asked_index e (\<lambda>db. map file_info_of_row
       (list_favorites_stream_with_page_size (eg_user e) color (favorites_page_size profile) db))"

type_synonym 'p paged = "'p world \<Rightarrow> vfs_error + vfs_file_info list \<times> int"

definition infos_of :: "index_row list \<times> int \<Rightarrow> vfs_file_info list \<times> int" where
  "infos_of x = (map file_info_of_row (fst x), snd x)"

definition list_favorites_paginated_impl :: "'p engine \<Rightarrow> page_params \<Rightarrow> int option \<Rightarrow> 'p paged" where
  "list_favorites_paginated_impl e ps color = asked_index e (\<lambda>db. infos_of (list_favorites_paginated (eg_user e) ps color db))"

definition list_trash_impl :: "'p engine \<Rightarrow> 'p world \<Rightarrow> vfs_error + vfs_file_info list" where
  "list_trash_impl e = asked_index e (\<lambda>db. map file_info_of_row (list_trash (eg_user e) db))"

definition search_files_paginated_impl :: "'p engine \<Rightarrow> string \<Rightarrow> int \<Rightarrow> int \<Rightarrow> 'p paged" where
  "search_files_paginated_impl e keyword page page_size =
     asked_index e (\<lambda>db. infos_of (search_files_paginated (eg_user e) keyword page page_size db))"

definition list_recycle_bin_paginated_impl :: "'p engine \<Rightarrow> int \<Rightarrow> int \<Rightarrow> 'p paged" where
  "list_recycle_bin_paginated_impl e page page_size =
     asked_index e (\<lambda>db. infos_of (list_trash_paginated (eg_user e) page page_size db))"

definition list_recycle_bin_paginated_with_sort_impl :: "'p engine \<Rightarrow> page_params \<Rightarrow> 'p paged" where
  "list_recycle_bin_paginated_with_sort_impl e ps =
     asked_index e (\<lambda>db. infos_of (list_trash_paginated_with_sort (eg_user e) ps db))"

definition sync_index_impl :: "'p engine \<Rightarrow> string \<Rightarrow> ('p, vfs_file_info list) engine_call" where
  "sync_index_impl = sync_index_internal"

definition get_recursive_size_impl :: "'p engine \<Rightarrow> string \<Rightarrow> 'p world \<Rightarrow> vfs_error + int" where
  "get_recursive_size_impl e path = asked_index e (get_total_size (eg_user e) path)"

section \<open>Batches\<close>

fun each_path ::
  "(string \<Rightarrow> ('p, 'a) engine_call) \<Rightarrow> string list \<Rightarrow> 'p world \<Rightarrow> batch_result \<times> 'p world" where
  "each_path f [] w = (\<lparr>br_success = [], br_failed = []\<rparr>, w)"
| "each_path f (p # ps) w =
     (case f p w of
        (Inr _, w1) \<Rightarrow> (case each_path f ps w1 of (r, w2) \<Rightarrow> (r\<lparr>br_success := p # br_success r\<rparr>, w2))
      | (Inl err, w1) \<Rightarrow> (case each_path f ps w1 of
            (r, w2) \<Rightarrow> (r\<lparr>br_failed := \<lparr>be_path = p, be_error = vfs_text err\<rparr> # br_failed r\<rparr>, w2)))"

definition batch_remove_impl :: "'p engine \<Rightarrow> string list \<Rightarrow> 'p world \<Rightarrow> batch_result \<times> 'p world" where
  "batch_remove_impl e = each_path (delete_impl e)"

definition batch_move_impl :: "'p engine \<Rightarrow> string list \<Rightarrow> string \<Rightarrow> 'p world \<Rightarrow> batch_result \<times> 'p world" where
  "batch_move_impl e srcs dst_dir =
     each_path (\<lambda>src. move_file_impl e src (trim_end_matches slash dst_dir @ ''/'' @ last (split_on slash src))) srcs"

end
