(* ===== verification/Wal_Recovery.thy ===== *)
theory Wal_Recovery
  imports Hub Engine_Trash
begin

text \<open>
  Recovery from the journal after a restart (\<open>VfsWalManager::recover_all\<close> and its helpers in
  \<open>vfs/wal/mod.rs\<close>): every row that is not completed is replayed by an engine made for its user, which brings
  the index back in step with the storage. Errors are texts here, as in the code.
\<close>

type_synonym ('p, 'a) recovery = "('p world, string, 'a) call"

section \<open>Calls\<close>

definition ask :: "('p world \<Rightarrow> vfs_error + 'a) \<Rightarrow> ('p, 'a) recovery" where
  "ask f w = (case f w of Inl err \<Rightarrow> (Inl (vfs_text err), w) | Inr x \<Rightarrow> (Inr x, w))"

definition settled :: "unit \<Rightarrow> ('p, unit) recovery" where
  "settled x w = (Inr x, w)"

definition refuse :: "string \<Rightarrow> ('p, 'a) recovery" where
  "refuse msg w = (Inl msg, w)"

definition index_call :: "'p engine \<Rightarrow> (bool \<Rightarrow> 'a db_call) \<Rightarrow> ('p, unit) recovery" where
  "index_call e f w = (case on_index_of e f w of (Inl err, w1) \<Rightarrow> (Inl (db_text err), w1) | (Inr _, w1) \<Rightarrow> (Inr (), w1))"

definition pool_call :: "('p pool, vfs_error, 'a) call \<Rightarrow> ('p, unit) recovery" where
  "pool_call f w = (case on_pool f w of (Inl err, w1) \<Rightarrow> (Inl (vfs_text err), w1) | (Inr _, w1) \<Rightarrow> (Inr (), w1))"

definition index_row_of :: "'p engine \<Rightarrow> string \<Rightarrow> ('p, index_row option) recovery" where
  "index_row_of e path w =
     (if eg_up_index e then (Inr (get_file_metadata (eg_user e) path (wd_index w)), w) else (Inl (db_text DbUnavailable), w))"

section \<open>The protected root of a path\<close>

definition load_user_settings :: "'p engine \<Rightarrow> 'p world \<Rightarrow> string + settings_snapshot option" where
  "load_user_settings e w =
     (if eg_up_settings e then Inr (map_option snapshot_of (get_user_settings (eg_user e) (wd_settings w)))
      else Inl (db_text DbUnavailable))"

definition protected_root_for_path :: "'p engine \<Rightarrow> string \<Rightarrow> ('p, string option) recovery" where
  "protected_root_for_path e path w =
     (res_bind (load_user_settings e w) (\<lambda>s.
        case s of
          None \<Rightarrow> Inr None
        | Some s \<Rightarrow> Inr (if matches_protected_root s path then protected_root_trimmed s else None)), w)"

definition is_root_protected_path :: "'p engine \<Rightarrow> string \<Rightarrow> ('p, bool) recovery" where
  "is_root_protected_path e path = st_bind (protected_root_for_path e path) (\<lambda>root w. (Inr (root = Some ''/''), w))"

definition in_same_domain :: "'p engine \<Rightarrow> string \<Rightarrow> string \<Rightarrow> ('p, bool) recovery" where
  "in_same_domain e src dst =
     st_bind (protected_root_for_path e src) (\<lambda>a.
       st_bind (protected_root_for_path e dst) (\<lambda>b w. (Inr (a \<noteq> None \<and> a = b), w)))"

section \<open>Steps\<close>

definition cleanup_orphan_temp :: "'p engine \<Rightarrow> string \<Rightarrow> ('p, unit) recovery" where
  "cleanup_orphan_temp e temp_path =
     (let p = to_physical_user_path (eg_user e) temp_path in
      st_bind (ask (\<lambda>w. pool_exists (eg_pool e) p (wd_pool w))) (\<lambda>there.
        if there then pool_call (pool_delete (eg_pool e) p) else settled ()))"

definition physical_move_without_wal :: "'p engine \<Rightarrow> string \<Rightarrow> string \<Rightarrow> ('p, unit) recovery" where
  "physical_move_without_wal e src dst =
     pool_call (pool_move_file (eg_pool e) (to_physical_user_path (eg_user e) src) (to_physical_user_path (eg_user e) dst))"

definition sync_index_for_path :: "'p engine \<Rightarrow> string \<Rightarrow> ('p, unit) recovery" where
  "sync_index_for_path e path =
     st_bind (ask (stat_impl e path)) (\<lambda>info.
       index_call e (\<lambda>up. upsert_file up (eg_uuid e 0) (eg_now e) (eg_user e) path info))"

definition forget_index :: "'p engine \<Rightarrow> string \<Rightarrow> ('p, unit) recovery" where
  "forget_index e path = index_call e (\<lambda>up. delete_file up (eg_user e) path)"

definition file_name_of :: "string \<Rightarrow> string" where
  "file_name_of path = (case path_file_name path of Some n \<Rightarrow> n | None \<Rightarrow> [])"

section \<open>Writes and deletions\<close>

text \<open>The index row of a protected file is rebuilt from the locator the journal kept, when its blob is there.\<close>

definition recover_blob_row ::
  "'p engine \<Rightarrow> string \<Rightarrow> u64 \<Rightarrow> protected_write_meta option \<Rightarrow> string \<Rightarrow> ('p, unit) recovery" where
  "recover_blob_row e path sz protected msg =
     (case protected of
        None \<Rightarrow> refuse msg
      | Some m \<Rightarrow>
          st_bind (ask (\<lambda>w. pool_exists (eg_pool e) (pw_backend_key m) (wd_pool w))) (\<lambda>there.
            if \<not> there then refuse msg
            else
              st_bind (ask (\<lambda>w. pool_stat (eg_pool e) (pw_backend_key m) (wd_pool w))) (\<lambda>st.
                index_call e (\<lambda>up. upsert_file_with_location up (eg_uuid e 0) (eg_now e) (eg_user e) path
                  (plain_info (file_name_of path) path False sz (fi_modified st))
                  (Some (eg_pool_name e)) (Some (eg_backend e)) (Some (pw_backend_key m))
                  (Some (pw_physical_size m)) (Some (pw_meta m))))))"

definition recover_protected_write ::
  "'p engine \<Rightarrow> string \<Rightarrow> u64 \<Rightarrow> protected_write_meta option \<Rightarrow> wal_status \<Rightarrow> ('p, unit) recovery" where
  "recover_protected_write e path sz protected st =
     st_bind (index_row_of e path) (\<lambda>row.
       if has_metadata_done st then settled ()
       else if row \<noteq> None then settled ()
       else
         recover_blob_row e path sz protected
           (if has_physical_done st
            then ''Protected write recovery requires manual backend_key repair because index metadata is missing''
            else ''Protected write recovery requires manual backend_key repair because WAL does not store blob locator''))"

definition recover_write ::
  "'p engine \<Rightarrow> string \<Rightarrow> u64 \<Rightarrow> protected_write_meta option \<Rightarrow> wal_status \<Rightarrow> ('p, unit) recovery" where
  "recover_write e path sz protected st =
     st_bind (protected_root_for_path e path) (\<lambda>root.
       if root \<noteq> None then recover_protected_write e path sz protected st
       else
         st_bind (ask (exists_impl e path)) (\<lambda>target.
         st_bind (ask (exists_impl e (path @ ''.tmp''))) (\<lambda>temp.
           if has_metadata_done st then settled ()
           else if has_physical_done st then (if target then sync_index_for_path e path else forget_index e path)
           else
             st_bind (if temp then cleanup_orphan_temp e (path @ ''.tmp'') else settled ()) (\<lambda>_.
               if target then sync_index_for_path e path else forget_index e path))))"

definition recover_delete :: "'p engine \<Rightarrow> string \<Rightarrow> wal_status \<Rightarrow> ('p, unit) recovery" where
  "recover_delete e path st =
     (if has_metadata_done st then settled ()
      else if has_physical_done st then forget_index e path
      else
        st_bind (ask (exists_impl e path)) (\<lambda>there.
          st_bind (if there then pool_call (pool_delete (eg_pool e) (to_physical_user_path (eg_user e) path)) else settled ())
            (\<lambda>_. forget_index e path)))"

section \<open>Copies\<close>

text \<open>The target's row is a copy of the source's, its blob key included, unless it has a stored object already.\<close>

definition row_of_source :: "'p engine \<Rightarrow> string \<Rightarrow> index_row \<Rightarrow> bool \<Rightarrow> index_row db_call" where
  "row_of_source e dst src up =
     upsert_file_with_location up (eg_uuid e 0) (eg_now e) (eg_user e) dst
       (plain_info (file_name_of dst) dst (ir_is_dir src) (word_of_int (max (ir_size src) 0)) (ir_modified src))
       (ir_storage src) (ir_backend src) (ir_key src) (ir_physical_size src) (ir_protected src)"

definition sync_index_for_copy_target :: "'p engine \<Rightarrow> string \<Rightarrow> string \<Rightarrow> ('p, unit) recovery" where
  "sync_index_for_copy_target e src dst =
     st_bind (index_row_of e dst) (\<lambda>drow.
     st_bind
       (case drow of
          Some r \<Rightarrow>
            (case ir_key r of
               Some k \<Rightarrow> if k \<noteq> [] then ask (\<lambda>w. pool_exists (eg_pool e) k (wd_pool w)) else ask (\<lambda>_. Inr False)
             | None \<Rightarrow> ask (\<lambda>_. Inr False))
        | None \<Rightarrow> ask (\<lambda>_. Inr False)) (\<lambda>stored.
       if stored then settled ()
       else
         st_bind (index_row_of e src) (\<lambda>srow.
           case srow of Some r \<Rightarrow> index_call e (row_of_source e dst r) | None \<Rightarrow> sync_index_for_path e dst)))"

text \<open>The targets whose blob is missing, or the first entry without a key.\<close>

fun missing_blobs :: "'p engine \<Rightarrow> copy_entry list \<Rightarrow> ('p, string list) recovery" where
  "missing_blobs e [] w = (Inr [], w)"
| "missing_blobs e (c # cs) w =
     (if ce_is_dir c then missing_blobs e cs w
      else case ce_key c of
        None \<Rightarrow> (Inl (''Protected copy WAL entry for '' @ [CHR 0x27] @ ce_dst c @ [CHR 0x27] @ '' is missing dst_backend_key''), w)
      | Some k \<Rightarrow>
          st_bind (ask (\<lambda>w. pool_exists (eg_pool e) k (wd_pool w))) (\<lambda>there.
            st_bind (missing_blobs e cs) (\<lambda>ms w1. (Inr (if there then ms else ce_dst c # ms), w1))) w)"

definition comma_list :: "string list \<Rightarrow> string" where
  "comma_list xs = drop 2 (concat (map (\<lambda>x. '', '' @ x) xs))"

fun rebuild_protected_copy_index :: "'p engine \<Rightarrow> nat \<Rightarrow> copy_entry list \<Rightarrow> ('p, unit) recovery" where
  "rebuild_protected_copy_index e k [] = settled ()"
| "rebuild_protected_copy_index e k (c # cs) =
     st_bind (index_call e (\<lambda>up. upsert_file_with_location up (eg_uuid e k) (eg_now e) (eg_user e) (ce_dst c)
         (plain_info (file_name_of (ce_dst c)) (ce_dst c) (ce_is_dir c) (ce_size c) (Some (eg_now e)))
         (ce_storage c) (ce_backend c) (ce_key c) (ce_physical_size c) (ce_meta c)))
       (\<lambda>_. rebuild_protected_copy_index e (Suc k) cs)"

fun cleanup_protected_copy_index :: "'p engine \<Rightarrow> copy_entry list \<Rightarrow> ('p, unit) recovery" where
  "cleanup_protected_copy_index e [] = settled ()"
| "cleanup_protected_copy_index e (c # cs) =
     st_bind (cleanup_protected_copy_index e cs) (\<lambda>_. forget_index e (ce_dst c))"

definition recover_protected_copy :: "'p engine \<Rightarrow> copy_entry list \<Rightarrow> wal_status \<Rightarrow> ('p, unit) recovery" where
  "recover_protected_copy e plan st =
     (if has_metadata_done st then settled ()
      else
        st_bind (missing_blobs e plan) (\<lambda>missing.
          if missing \<noteq> [] then
            st_bind (cleanup_protected_copy_index e plan) (\<lambda>_.
              refuse (''Protected copy recovery missing physical blobs for: '' @ comma_list missing))
          else rebuild_protected_copy_index e 0 plan))"

definition recover_copy ::
  "'p engine \<Rightarrow> string \<Rightarrow> string \<Rightarrow> copy_entry list option \<Rightarrow> wal_status \<Rightarrow> ('p, unit) recovery" where
  "recover_copy e src dst protected st =
     (case protected of
        Some plan \<Rightarrow> recover_protected_copy e plan st
      | None \<Rightarrow>
          if has_metadata_done st then settled ()
          else if has_physical_done st then sync_index_for_copy_target e src dst
          else
            st_bind (ask (exists_impl e dst)) (\<lambda>there.
              if there then sync_index_for_copy_target e src dst else forget_index e dst))"

section \<open>Moves, new directories, and the recycle bin\<close>

text \<open>Where the file is now decides what is left to do; when that is not clear the row fails.
  The message is shortened.\<close>

definition by_presence ::
  "'p engine \<Rightarrow> string \<Rightarrow> string \<Rightarrow> string \<Rightarrow> ('p, unit) recovery \<Rightarrow> ('p, unit) recovery \<Rightarrow> ('p, unit) recovery" where
  "by_presence e what src dst not_yet already =
     st_bind (ask (exists_impl e src)) (\<lambda>s. st_bind (ask (exists_impl e dst)) (\<lambda>d.
       if s \<and> \<not> d then not_yet
       else if \<not> s \<and> d then already
       else refuse (what @ '' recovery ambiguous'')))"

definition recover_move :: "'p engine \<Rightarrow> string \<Rightarrow> string \<Rightarrow> wal_status \<Rightarrow> ('p, unit) recovery" where
  "recover_move e src dst st =
     (let follow = index_call e (\<lambda>up. move_file up (eg_now e) (eg_user e) src dst) in
      st_bind (in_same_domain e src dst) (\<lambda>protected.
        if has_metadata_done st then settled ()
        else if protected then by_presence e ''PROTECTED MOVE'' src dst follow (settled ())
        else if has_physical_done st then follow
        else by_presence e ''MOVE'' src dst (physical_move_without_wal e src dst) follow))"

definition recover_create_dir :: "'p engine \<Rightarrow> string \<Rightarrow> wal_status \<Rightarrow> ('p, unit) recovery" where
  "recover_create_dir e path st =
     (if has_metadata_done st then settled ()
      else if has_physical_done st then sync_index_for_path e path
      else
        st_bind (ask (exists_impl e path)) (\<lambda>there.
          st_bind (if there then settled () else pool_call (pool_create_dir (eg_pool e) (to_physical_user_path (eg_user e) path)))
            (\<lambda>_. sync_index_for_path e path)))"

definition recover_bin_move ::
  "'p engine \<Rightarrow> string \<Rightarrow> string \<Rightarrow> string \<Rightarrow> string \<Rightarrow> ('p, unit) recovery \<Rightarrow> wal_status \<Rightarrow> ('p, unit) recovery" where
  "recover_bin_move e what user_path src dst follow st =
     st_bind (is_root_protected_path e user_path) (\<lambda>protected.
       if has_metadata_done st then settled ()
       else if protected then by_presence e (''PROTECTED '' @ what) src dst follow (settled ())
       else if has_physical_done st then follow
       else by_presence e what src dst (st_bind (physical_move_without_wal e src dst) (\<lambda>_. follow)) follow)"

definition recover_move_to_trash :: "'p engine \<Rightarrow> string \<Rightarrow> string \<Rightarrow> wal_status \<Rightarrow> ('p, unit) recovery" where
  "recover_move_to_trash e path trash_path =
     recover_bin_move e ''MOVE_TO_TRASH'' path path trash_path
       (index_call e (\<lambda>up. trash_file up (eg_now e) (eg_user e) path trash_path))"

definition recover_restore_trash :: "'p engine \<Rightarrow> string \<Rightarrow> string \<Rightarrow> wal_status \<Rightarrow> ('p, unit) recovery" where
  "recover_restore_trash e trash_path original =
     recover_bin_move e ''RESTORE_TRASH'' original trash_path original
       (index_call e (\<lambda>up. restore_file up (eg_now e) (eg_user e) trash_path original))"

definition replay :: "'p engine \<Rightarrow> wal_operation \<Rightarrow> wal_status \<Rightarrow> ('p, unit) recovery" where
  "replay e op st =
     (case op of
        WalWrite path sz protected \<Rightarrow> recover_write e path sz protected st
      | WalDelete path \<Rightarrow> recover_delete e path st
      | WalCopy src dst protected \<Rightarrow> recover_copy e src dst protected st
      | WalMove src dst \<Rightarrow> recover_move e src dst st
      | WalRename old_path new_path \<Rightarrow> recover_move e old_path new_path st
      | WalMoveToTrash path trash_path \<Rightarrow> recover_move_to_trash e path trash_path st
      | WalCreateDir path \<Rightarrow> recover_create_dir e path st
      | WalRestoreTrash trash_path original \<Rightarrow> recover_restore_trash e trash_path original st)"

section \<open>One row, all rows\<close>

text \<open>
  The journal, the index and the settings are shared by all users; every user has the pool the hub routes it to.
  \<open>on_user\<close> makes the engine of a user and lends its pool to the world for one call.
\<close>

record 'p site =
  si_hub :: "'p hub"
  si_world :: "'p world"

type_synonym ('p, 'a) site_call = "('p site, string, 'a) call"

definition on_user ::
  "(string \<Rightarrow> string \<Rightarrow> vfs_error + 'p engine) \<Rightarrow> bool \<Rightarrow> string \<Rightarrow> ('p engine \<Rightarrow> ('p, 'a) recovery) \<Rightarrow> ('p, 'a) site_call" where
  "on_user new_engine up u f s =
     (case res_bind (route_for_user up (wd_settings (si_world s)) u ''100'' (si_hub s)) (\<lambda>name.
             res_bind (new_engine u name) (\<lambda>e. Inr (name, e))) of
        Inl err \<Rightarrow> (Inl (vfs_text err), s)
      | Inr (name, e) \<Rightarrow>
          (case get_pool name (si_hub s) of
             None \<Rightarrow> (Inl ''pool'', s)
           | Some p \<Rightarrow>
               (case f e ((si_world s)\<lparr>wd_pool := p\<rparr>) of
                  (r, w) \<Rightarrow>
                    (r, s\<lparr>si_hub := (si_hub s)\<lparr>hb_pools := al_put name (wd_pool w) (hb_pools (si_hub s))\<rparr>,
                          si_world := w\<rparr>))))"

definition on_log :: "'a wal_call \<Rightarrow> ('p, 'a) site_call" where
  "on_log f s =
     (case f (wd_wal (si_world s)) of
        (r, l) \<Rightarrow> ((case r of Inl err \<Rightarrow> Inl (db_text err) | Inr x \<Rightarrow> Inr x), s\<lparr>si_world := (si_world s)\<lparr>wd_wal := l\<rparr>\<rparr>))"

record 'p recovery_env =
  re_up :: bool
  re_now :: int
  re_dec :: "string \<Rightarrow> string + wal_operation"
  re_engine :: "string \<Rightarrow> string \<Rightarrow> vfs_error + 'p engine"
  re_num :: "int \<Rightarrow> string"

text \<open>\<open>row\<close> is the row as it was read at the start, so \<open>status\<close> is the phase the crash left it in.\<close>

definition recover_one :: "'p recovery_env \<Rightarrow> wal_row \<Rightarrow> ('p, unit) site_call" where
  "recover_one env row s =
     (let st = parse_status (wl_status row) in
      if \<not> is_active st then (Inr (), s)
      else
        st_bind (on_log (mark_recovering (re_up env) (re_now env) (wl_id row))) (\<lambda>_ s1.
          case re_dec env (wl_data row) of
            Inl err \<Rightarrow> (Inl err, s1)
          | Inr op \<Rightarrow>
              (case on_user (re_engine env) (re_up env) (wl_user row)
                     (\<lambda>e w. (case replay e op st w of (r, w1) \<Rightarrow> (Inr r, w1))) s1 of
                 (Inl err, s2) \<Rightarrow> (Inl err, s2)
               | (Inr (Inr _), s2) \<Rightarrow> on_log (complete_operation (re_up env) (re_now env) (wl_id row)) s2
               | (Inr (Inl err), s2) \<Rightarrow>
                   (Inl err, snd (on_log (fail_operation (re_up env) (re_now env) (wl_id row) err) s2)))) s)"

record wal_recovery_result =
  rr_recovered :: nat
  rr_failed :: nat
  rr_errors :: "string list"
  rr_users :: "string list"

fun recover_rows :: "'p recovery_env \<Rightarrow> wal_row list \<Rightarrow> wal_recovery_result \<Rightarrow> 'p site \<Rightarrow> wal_recovery_result \<times> 'p site" where
  "recover_rows env [] res s = (res, s)"
| "recover_rows env (row # rows) res s =
     (case recover_one env row s of
        (Inr _, s1) \<Rightarrow> recover_rows env rows (res\<lparr>rr_recovered := rr_recovered res + 1\<rparr>) s1
      | (Inl err, s1) \<Rightarrow>
          recover_rows env rows
            (res\<lparr>rr_failed := rr_failed res + 1,
                 rr_errors := rr_errors res @ [''Log '' @ re_num env (wl_id row) @ '': '' @ err]\<rparr>) s1)"

definition recalibrate_storage_used :: "'p recovery_env \<Rightarrow> string \<Rightarrow> ('p, unit) site_call" where
  "recalibrate_storage_used env u =
     on_user (re_engine env) (re_up env) u (\<lambda>e.
       st_bind (ask (get_recursive_size_impl e ''/'')) (\<lambda>total_used w.
         case update_user_settings_patch (re_up env) (re_now env) u (empty_patch\<lparr>pa_used := Some total_used\<rparr>) (wd_settings w) of
           (r, t) \<Rightarrow> ((case r of Inl err \<Rightarrow> Inl (db_text err) | Inr x \<Rightarrow> Inr x), w\<lparr>wd_settings := t\<rparr>)))"

definition recalibrate_all :: "'p recovery_env \<Rightarrow> string list \<Rightarrow> 'p site \<Rightarrow> 'p site" where
  "recalibrate_all env = fold (\<lambda>u s. snd (recalibrate_storage_used env u s))"

text \<open>
  The maintenance set is process-wide: the users of the rows are locked while they are replayed and the guards are
  dropped at the end. The users are a hash set; here they are in the order of their first row.
\<close>

definition on_maintenance :: "(maintenance \<Rightarrow> maintenance) \<Rightarrow> 'p site \<Rightarrow> 'p site" where
  "on_maintenance f s = s\<lparr>si_world := (si_world s)\<lparr>wd_maint := f (wd_maint (si_world s))\<rparr>\<rparr>"

definition pending_rows :: "wal_log \<Rightarrow> wal_row list" where
  "pending_rows l = order_asc wl_id (filter (\<lambda>r. wl_status r \<noteq> status_str Completed) (wal_rows l))"

definition recover_all :: "'p recovery_env \<Rightarrow> 'p site \<Rightarrow> (db_error + wal_recovery_result) \<times> 'p site" where
  "recover_all env s =
     (if \<not> re_up env then (Inl DbUnavailable, s)
      else
        (let rows = pending_rows (wd_wal (si_world s));
             users = rev (remdups (rev (map wl_user rows)));
             start = \<lparr>rr_recovered = 0, rr_failed = 0, rr_errors = [], rr_users = users\<rparr> in
         if rows = [] then (Inr start, s)
         else
           (case recover_rows env rows start (on_maintenance (fold enter_user_maintenance users) s) of
              (res, s1) \<Rightarrow>
                (Inr res,
                 on_maintenance (fold drop_guard users)
                   (if rr_failed res = 0 then recalibrate_all env users s1 else s1)))))"

definition replay_issue :: "'p recovery_env \<Rightarrow> int \<Rightarrow> ('p, unit) site_call" where
  "replay_issue env i s =
     (if \<not> re_up env then (Inl (db_text DbUnavailable), s)
      else case find_log i (wd_wal (si_world s)) of
        None \<Rightarrow> (Inl (''WAL log '' @ re_num env i @ '' not found''), s)
      | Some row \<Rightarrow>
          if \<not> is_active (parse_status (wl_status row))
          then (Inl (''WAL log '' @ re_num env i @ '' is already completed and cannot be replayed''), s)
          else recover_one env row s)"

end
