(* ===== verification/Engine_Journal.thy ===== *)
theory Engine_Journal
  imports Engine_Trash
begin

text \<open>
  The operations of the engine on the journal table: each one appends rows of its own and settles only those.
  \<open>grown l0 l\<close>: \<open>l\<close> is the table \<open>l0\<close> with rows added behind it, whose keys are fresh for \<open>l0\<close>.
\<close>

definition grown :: "wal_log \<Rightarrow> wal_log \<Rightarrow> bool" where
  "grown l0 l \<longleftrightarrow> wal_wf l \<and> wal_next l0 \<le> wal_next l \<and> (\<forall>r \<in> set (wal_rows l0). wl_id r < wal_next l0) \<and>
     (\<exists>rs. wal_rows l = wal_rows l0 @ rs \<and> (\<forall>r \<in> set rs. wal_next l0 \<le> wl_id r))"

definition own :: "wal_log \<Rightarrow> int option \<Rightarrow> bool" where
  "own l0 wal_id \<longleftrightarrow> (\<forall>i. wal_id = Some i \<longrightarrow> wal_next l0 \<le> i)"

named_theorems journal_rules and journal_frame

lemma grown_refl: "wal_wf l \<Longrightarrow> grown l l"
  by (simp add: grown_def wal_wf_def)

lemma grown_wf: "grown l0 l \<Longrightarrow> wal_wf l"
  by (simp add: grown_def)

lemma grown_log:
  assumes "grown l0 l"
  shows "grown l0 (snd (log_operation enc up now u op l))"
proof -
  from assms obtain rs where rs: "wal_rows l = wal_rows l0 @ rs" "\<forall>r \<in> set rs. wal_next l0 \<le> wl_id r"
    and n: "wal_next l0 \<le> wal_next l" and old: "\<forall>r \<in> set (wal_rows l0). wl_id r < wal_next l0"
    unfolding grown_def by blast
  have "wal_wf (snd (log_operation enc up now u op l))"
    using wal_step_wf[OF wal_step.log grown_wf[OF assms]] .
  then show ?thesis using rs n old by (auto simp: grown_def log_operation_def)
qed

lemma grown_update:
  assumes "grown l0 l" and "wal_next l0 \<le> i" and "\<And>r. wl_id (f r) = wl_id r" and "\<And>r. wal_row_ok (f r)"
  shows "grown l0 (snd (update_rows_by_id up i f l))"
proof -
  from assms(1) obtain rs where rs: "wal_rows l = wal_rows l0 @ rs" "\<forall>r \<in> set rs. wal_next l0 \<le> wl_id r"
    and n: "wal_next l0 \<le> wal_next l" and old: "\<forall>r \<in> set (wal_rows l0). wl_id r < wal_next l0"
    unfolding grown_def by blast
  have "map (\<lambda>r. if wl_id r = i then f r else r) (wal_rows l0) = wal_rows l0"
    using old assms(2) by (intro map_idI) auto
  moreover have "wal_wf (snd (update_rows_by_id up i f l))"
    using wal_wf_update[OF grown_wf[OF assms(1)] assms(3,4)] .
  moreover have "\<forall>r \<in> set (map (\<lambda>r. if wl_id r = i then f r else r) rs). wal_next l0 \<le> wl_id r"
    using rs(2) assms(3) by auto
  ultimately show ?thesis using rs n old by (auto simp: grown_def update_rows_by_id_def)
qed

lemma grown_transition:
  "grown l0 l \<Longrightarrow> wal_next l0 \<le> i \<Longrightarrow> grown l0 (snd (transition_operation up now i st reason l))"
  unfolding transition_operation_def by (rule grown_update) (auto intro: set_phase_ok)

lemma grown_complete:
  "grown l0 l \<Longrightarrow> wal_next l0 \<le> i \<Longrightarrow> grown l0 (snd (complete_operation up now i l))"
  unfolding complete_operation_def by (rule grown_update) (auto intro: set_phase_ok)

section \<open>Worlds\<close>

abbreviation ok :: "wal_log \<Rightarrow> 'p world \<Rightarrow> bool" where
  "ok l0 w \<equiv> grown l0 (wd_wal w)"

lemma complete_wal_ok [journal_rules]: "ok l0 w \<Longrightarrow> own l0 i \<Longrightarrow> ok l0 (complete_wal e i w)"
  by (cases i) (auto simp: complete_wal_def on_wal_def own_def intro: grown_complete)

lemma mark_wal_ok [journal_rules]: "ok l0 w \<Longrightarrow> own l0 i \<Longrightarrow> ok l0 (mark_wal_physical_done e i w)"
  by (cases i) (auto simp: mark_wal_physical_done_def on_wal_def own_def mark_physical_done_def intro: grown_transition)

lemma fail_wal_ok [journal_rules]: "ok l0 w \<Longrightarrow> own l0 i \<Longrightarrow> ok l0 (fail_wal e i reason w)"
  by (cases i) (auto simp: fail_wal_def on_wal_def own_def fail_operation_def intro: grown_transition)

text \<open>A call that keeps the journal in order.\<close>

definition orderly :: "wal_log \<Rightarrow> ('p, 'a) engine_call \<Rightarrow> bool" where
  "orderly l0 m \<longleftrightarrow> (\<forall>w. ok l0 w \<longrightarrow> ok l0 (snd (m w)))"

definition silent :: "('p, 'a) engine_call \<Rightarrow> bool" where
  "silent m \<longleftrightarrow> (\<forall>w. wd_wal (snd (m w)) = wd_wal w)"

lemma orderlyI: "(\<And>w. ok l0 w \<Longrightarrow> ok l0 (snd (m w))) \<Longrightarrow> orderly l0 m"
  by (simp add: orderly_def)

lemma orderlyD: "orderly l0 m \<Longrightarrow> ok l0 w \<Longrightarrow> m w = (r, w') \<Longrightarrow> ok l0 w'"
  by (metis orderly_def snd_conv)

lemma silentD: "silent m \<Longrightarrow> m w = (r, w') \<Longrightarrow> wd_wal w' = wd_wal w"
  by (metis silent_def snd_conv)

lemma silent_orderly: "silent m \<Longrightarrow> orderly l0 m"
  by (simp add: silent_def orderly_def)

lemma orderly_bind [journal_rules]:
  "orderly l0 m \<Longrightarrow> (\<And>x. orderly l0 (f x)) \<Longrightarrow> orderly l0 (st_bind m f)"
  by (fastforce simp: orderly_def st_bind_def split: prod.splits sum.splits)

lemma silent_bind [journal_rules]: "silent m \<Longrightarrow> (\<And>x. silent (f x)) \<Longrightarrow> silent (st_bind m f)"
  by (auto simp: silent_def st_bind_def split: prod.splits sum.splits) (metis snd_conv)+

lemma silent_calls [journal_rules]:
  "silent (look f)" "silent (give x)" "silent (give_up err)" "silent (on_pool g)" "silent (on_index h)"
  by (simp_all add: silent_def look_def give_def give_up_def on_pool_def on_index_def split: prod.split)

lemma wd_wal_frame [simp]:
  "wd_wal (journal_log e a src dst s err w) = wd_wal w"
  "wd_wal (add_quota e d w) = wd_wal w"
  "wd_wal (forget_read e p w) = wd_wal w"
  by (simp_all add: journal_log_def add_quota_def forget_read_def)

lemma wd_wal_index_of [simp]: "wd_wal (snd (on_index_of e f w)) = wd_wal w"
  by (simp add: on_index_of_def split: prod.split)

lemma index_of_frame: "on_index_of e f w = (r, w') \<Longrightarrow> wd_wal w' = wd_wal w"
  by (metis wd_wal_index_of snd_conv)

lemma begin_wal_ok:
  assumes "ok l0 w" and "begin_wal e op skip w = (r, w')"
  shows "ok l0 w' \<and> (\<forall>i. r = Inr i \<longrightarrow> own l0 i)"
proof (cases "skip \<or> \<not> eg_wal_on e")
  case True
  then show ?thesis using assms by (auto simp: begin_wal_def own_def)
next
  case False
  from assms(1) have "wal_next l0 \<le> wal_next (wd_wal w)" by (simp add: grown_def)
  then show ?thesis
    using grown_log[OF assms(1), of "eg_enc e" "eg_up_wal e" "eg_now e" "eg_user e" op] assms(2) False
    by (auto simp: begin_wal_def own_def log_operation_def split: if_splits)
qed

lemma orderly_begin [journal_rules]:
  assumes "\<And>i. own l0 i \<Longrightarrow> orderly l0 (f i)"
  shows "orderly l0 (st_bind (begin_wal e op skip) f)"
proof (rule orderlyI)
  fix w :: "'a world" assume w: "ok l0 w"
  obtain r w1 where b: "begin_wal e op skip w = (r, w1)" by fastforce
  note bw = begin_wal_ok[OF w b]
  show "ok l0 (snd (st_bind (begin_wal e op skip) f w))"
  proof (cases r)
    case (Inl err)
    then show ?thesis using b bw by (simp add: st_bind_def)
  next
    case (Inr i)
    then have "orderly l0 (f i)" "ok l0 w1" using assms bw by auto
    then show ?thesis using b Inr by (simp add: st_bind_def orderly_def)
  qed
qed

lemma orderly_settle:
  assumes "orderly l0 m" and "own l0 i" and "\<And>w. wd_wal (book w) = wd_wal w"
  shows "orderly l0 (settle e i c a src dst book m)"
proof (rule orderlyI)
  fix w :: "'a world" assume w: "ok l0 w"
  obtain r w1 where m: "m w = (r, w1)" by fastforce
  have "ok l0 w1" by (rule orderlyD[OF assms(1) w m])
  then show "ok l0 (snd (settle e i c a src dst book m w))"
    using m assms(2,3) by (cases r) (auto simp: settle_def intro: complete_wal_ok fail_wal_ok)
qed

section \<open>Calls that never touch the journal\<close>

lemma silentI: "(\<And>w r w'. m w = (r, w') \<Longrightarrow> wd_wal w' = wd_wal w) \<Longrightarrow> silent m"
  unfolding silent_def by (metis prod.collapse)

lemma silent_on_pool_fst: "on_pool f w = (r, w') \<Longrightarrow> wd_wal w' = wd_wal w"
  by (rule silentD[OF silent_calls(4)])

lemma silent_temp_mkdirs [journal_frame]: "silent (temp_mkdirs e rel)"
  by (rule silentI) (auto simp: temp_mkdirs_def split: if_splits option.splits)

lemma silent_temp_write [journal_frame]: "silent (temp_write e rel d)"
  by (rule silentI) (auto simp: temp_write_def split: option.splits temp_node.splits)

lemma silent_temp_remove [journal_frame]: "silent (temp_remove e rel)"
  by (rule silentI) (auto simp: temp_remove_def split: option.splits)

lemma silent_temp_rename [journal_frame]: "silent (temp_rename e src dst)"
  by (rule silentI) (auto simp: temp_rename_def split: if_splits option.splits)

lemma silent_temp_copy [journal_frame]: "silent (temp_copy e src dst)"
  by (rule silentI) (auto simp: temp_copy_def dest: silentD[OF silent_temp_write] split: sum.splits)

lemma silent_temp_append [journal_frame]: "silent (temp_append e rel cs)"
proof (induction cs)
  case Nil
  show ?case by (rule silentI) simp
next
  case (Cons c cs)
  show ?case
  proof (cases c)
    case (Inl err)
    then show ?thesis by (intro silentI) simp
  next
    case (Inr d)
    show ?thesis
      unfolding Inr
    proof (rule silentI)
      fix w :: "'a world" and r w'
      assume "temp_append e rel (Inr d # cs) w = (r, w')"
      then show "wd_wal w' = wd_wal w"
        using silentD[OF silent_bind[OF silent_temp_write Cons.IH]] by (auto split: sum.splits)
    qed
  qed
qed

lemma silent_flush [journal_frame]: "silent (flush_pending_for_path e path)"
  by (rule silentI) (auto simp: flush_pending_for_path_def dest: silent_on_pool_fst split: if_splits sum.splits)

lemma silent_try_enqueue [journal_frame]: "silent (try_enqueue_write_cache e path d)"
  by (rule silentI)
    (auto simp: try_enqueue_write_cache_def dest: silent_on_pool_fst split: if_splits sum.splits prod.splits)

lemma silent_upsert_key [journal_frame]: "silent (upsert_index_with_key e path info key ps meta)"
  by (rule silentI)
    (auto simp: upsert_index_with_key_def dest: silentD[OF silent_calls(5)]
      split: if_splits sum.splits bool.splits prod.splits)

lemma silent_upsert [journal_frame]: "silent (upsert_index_helper e path info)"
  by (rule silentI) (auto simp: upsert_index_helper_def dest: silentD[OF silent_upsert_key] split: sum.splits)

lemma silent_ensure_recycle [journal_frame]: "silent (ensure_recycle_bin_initialized e)"
  by (rule silentI)
    (auto simp: ensure_recycle_bin_initialized_def dest: silent_on_pool_fst split: if_splits sum.splits prod.splits)

text \<open>A user without a protected root: the engine's cell holds that there is no plan.\<close>

definition unprotected :: "'p engine \<Rightarrow> bool" where
  "unprotected e \<longleftrightarrow> eg_plan e = Some None"

lemma unprotected_plan: "unprotected e \<Longrightarrow> get_protected_plan e path w = Inr None"
  by (simp add: unprotected_def get_protected_plan_def resolve_protected_plan_def)

lemma silent_read [journal_frame]: "unprotected e \<Longrightarrow> silent (read_impl e path)"
  by (rule silentI)
    (auto simp: read_impl_def unprotected_plan dest: silent_on_pool_fst split: if_splits sum.splits option.splits prod.splits)

lemma silent_sync_index [journal_frame]: "unprotected e \<Longrightarrow> silent (sync_index_internal e path)"
  by (rule silentI)
    (auto simp: sync_index_internal_def Let_def unprotected_plan dest: silentD[OF silent_calls(5)]
      split: if_splits sum.splits option.splits prod.splits)

lemma silent_if: "silent m \<Longrightarrow> silent (\<lambda>w. if c then (Inl x, w) else m w)"
  by (simp add: silent_def)

lemma silent_move_regular [journal_frame]: "silent (move_regular_path_without_wal e src dst)"
proof -
  have "silent (\<lambda>w. move_regular_path_without_wal e src dst w)"
    unfolding move_regular_path_without_wal_def
    by (intro silent_if silent_bind silent_flush silent_calls)
  then show ?thesis .
qed

section \<open>The operations\<close>

lemma index_written_ok:
  "index_written e i what path info w = (r, w') \<Longrightarrow> ok l0 w \<Longrightarrow> own l0 i \<Longrightarrow> ok l0 w'"
  by (auto simp: index_written_def dest!: silentD[OF silent_upsert] intro!: fail_wal_ok split: sum.splits prod.splits)

lemma orderly_plain_write:
  assumes own: "own l0 i"
  shows "orderly l0 (plain_write e path n d diff i)"
proof (rule orderlyI)
  fix w :: "'a world" assume w: "ok l0 w"
  define book :: "'a world \<Rightarrow> 'a world" where
    "book = (if is_thumbnail_cache_path n \<or> diff = 0 then (\<lambda>w. w) else add_quota e diff)"
  have book: "wd_wal (book w) = wd_wal w" for w by (simp add: book_def)
  note st = orderly_settle[OF silent_orderly[OF silent_calls(1)] own book]
    orderly_settle[OF silent_orderly[OF silent_calls(2)] own book]
    orderly_settle[OF silent_orderly[OF silent_calls(3)] own book]
  note st = st[unfolded orderly_def, rule_format]
  show "ok l0 (snd (plain_write e path n d diff i w))"
    using w own
    by (auto simp: plain_write_def Let_def book_def[symmetric] intro!: st mark_wal_ok
        dest!: silentD[OF silent_temp_mkdirs] silentD[OF silent_temp_write] silent_on_pool_fst
        dest: index_written_ok[OF _ mark_wal_ok] split: sum.splits prod.splits)
qed

lemma orderly_direct_write: "orderly l0 (direct_write e path n d)"
proof (rule orderlyI)
  fix w :: "'a world" assume w: "ok l0 w"
  show "ok l0 (snd (direct_write e path n d w))"
    using w
    by (auto simp: direct_write_def Let_def dest!: silentD[OF silent_flush]
        intro!: orderly_begin[OF orderly_plain_write, unfolded orderly_def, rule_format] split: sum.splits prod.splits)
qed

lemma orderly_write:
  assumes "unprotected e"
  shows "orderly l0 (write_impl e path d)"
proof (rule orderlyI)
  fix w :: "'a world" assume w: "ok l0 w"
  show "ok l0 (snd (write_impl e path d w))"
    using w
    by (auto simp: write_impl_def unprotected_plan[OF assms] look_def dest!: silentD[OF silent_try_enqueue]
        intro!: orderly_direct_write[unfolded orderly_def, rule_format] split: sum.splits prod.splits option.splits)
qed

lemma orderly_staged_write:
  assumes "own l0 i"
  shows "orderly l0 (staged_write e n p d initial i)"
proof (rule orderlyI)
  fix w :: "'a world" assume w: "ok l0 w"
  obtain r w1 where p: "on_pool (pool_write_stream (eg_pool e) p (if d = [] then [] else [Inr d])) w = (r, w1)"
    by fastforce
  have w1: "ok l0 w1" using silent_on_pool_fst[OF p] w by simp
  show "ok l0 (snd (staged_write e n p d initial i w))"
    unfolding staged_write_def p using w1 assms
    by (auto simp: Let_def intro!: fail_wal_ok mark_wal_ok complete_wal_ok
        dest!: index_written_ok[where ?l0.0 = l0] split: sum.splits prod.splits)
qed

lemma orderly_write_stream_internal: "orderly l0 (write_stream_internal e n cs)"
proof (rule orderlyI)
  fix w :: "'a world" assume w: "ok l0 w"
  have "silent (st_bind (temp_mkdirs e (temp_parent (temp_rel n))) (\<lambda>_.
          st_bind (temp_write e (temp_rel n) []) (\<lambda>_.
            st_bind (temp_append e (temp_rel n) cs) (\<lambda>_. look (stat_impl e n)))))"
    by (intro silent_bind silent_calls silent_temp_mkdirs silent_temp_write silent_temp_append)
  note silent_orderly[OF this, of l0, unfolded orderly_def, rule_format, OF w]
  then show "ok l0 (snd (write_stream_internal e n cs w))"
    using w orderly_begin[OF orderly_staged_write, unfolded orderly_def, rule_format, OF _ w]
    by (simp add: write_stream_internal_def Let_def split: sum.split option.split)
qed

lemma orderly_logged_stream: "orderly l0 (logged_stream e n cs)"
proof (rule orderlyI)
  fix w :: "'a world" assume w: "ok l0 w"
  obtain r w1 where m: "write_stream_internal e n cs (journal_log e ''WRITE_STREAM'' n None True None w) = (r, w1)"
    by fastforce
  have "ok l0 w1" using orderlyD[OF orderly_write_stream_internal _ m] w by simp
  then show "ok l0 (snd (logged_stream e n cs w))" by (simp add: logged_stream_def m split: sum.split)
qed

lemma orderly_write_stream:
  assumes "unprotected e"
  shows "orderly l0 (write_stream_impl e path cs)"
proof (rule orderlyI)
  fix w :: "'a world" assume w: "ok l0 w"
  have sync: "silent (st_bind (sync_index_internal e d) (\<lambda>_. look (stat_impl e d)))" for d
    by (intro silent_bind silent_calls silent_sync_index[OF assms])
  show "ok l0 (snd (write_stream_impl e path cs w))"
    unfolding write_stream_impl_def unprotected_plan[OF assms] Let_def
    using w silent_orderly[OF sync, unfolded orderly_def, rule_format, OF w]
      orderly_write[OF assms, unfolded orderly_def, rule_format, OF w]
      orderly_logged_stream[unfolded orderly_def, rule_format, OF w]
    by (simp split: sum.split collected.split)
qed

lemma orderly_write_at:
  assumes "unprotected e"
  shows "orderly l0 (write_at_impl e path offset d)"
proof (rule orderlyI)
  fix w :: "'a world" assume w: "ok l0 w"
  have tail: "orderly l0 (\<lambda>w2.
      case on_pool (pool_read (eg_pool e) (eg_clk e) p) w2 of (old, w3) \<Rightarrow>
      (case on_pool (pool_write (eg_pool e) p
              (splice (case old of Inr (d, _) \<Rightarrow> d | Inl _ \<Rightarrow> []) (unat offset) d)) w3 of
         (Inl err, w4) \<Rightarrow>
           (Inl err,
            journal_log e ''WRITE_AT'' n None False (Some (vfs_text err)) (fail_wal e i (vfs_text err) w4))
       | (Inr info, w4) \<Rightarrow>
           (let w5 = mark_wal_physical_done e i w4;
                w6 = journal_log e ''WRITE_AT'' n None True None (if 0 < diff then add_quota e diff w5 else w5) in
            case index_written e i ''WRITE_AT'' n info w6 of
              (Inl err, w7) \<Rightarrow> (Inl err, w7)
            | (Inr x, w7) \<Rightarrow> (Inr x, complete_wal e i w7))))"
    if "own l0 i" for i p n diff
    using that
    by (intro orderlyI)
      (auto simp: Let_def dest!: silent_on_pool_fst index_written_ok[where ?l0.0 = l0]
        intro!: fail_wal_ok complete_wal_ok mark_wal_ok split: prod.splits sum.splits)
  note tail = orderly_begin[OF tail, unfolded orderly_def, rule_format]
  show "ok l0 (snd (write_at_impl e path offset d w))"
    unfolding write_at_impl_def unprotected_plan[OF assms]
    using w orderly_write[OF assms, unfolded orderly_def, rule_format, OF w]
    by (auto simp: Let_def dest!: silentD[OF silent_flush] intro!: tail split: sum.split prod.split)
qed

lemma index_of_ok: "on_index_of e f w = (r, w') \<Longrightarrow> ok l0 w \<Longrightarrow> ok l0 w'"
  by (simp add: index_of_frame)

lemma after_delete_ok: "ok l0 w \<Longrightarrow> own l0 i \<Longrightarrow> ok l0 (snd (after_delete e n info sz i w))"
  by (auto simp: after_delete_def Let_def intro!: complete_wal_ok fail_wal_ok mark_wal_ok
      dest!: index_of_ok[where ?l0.0 = l0] split: prod.split sum.split)

lemma failed_delete_ok: "ok l0 w \<Longrightarrow> own l0 i \<Longrightarrow> ok l0 (snd (failed_delete e n p info i err w))"
  by (auto simp: failed_delete_def intro!: complete_wal_ok fail_wal_ok mark_wal_ok
      dest!: index_of_ok[where ?l0.0 = l0] split: prod.split sum.split)

lemma orderly_stored_delete: "own l0 i \<Longrightarrow> orderly l0 (stored_delete e n info sz i)"
  by (rule orderlyI)
    (auto simp: stored_delete_def intro!: after_delete_ok failed_delete_ok complete_wal_ok mark_wal_ok
      dest!: silentD[OF silent_temp_remove] silent_on_pool_fst split: prod.splits sum.splits)

lemma orderly_delete:
  assumes "unprotected e"
  shows "orderly l0 (delete_impl e path)"
proof (rule orderlyI)
  fix w :: "'a world" assume w: "ok l0 w"
  note tail = orderly_begin[OF orderly_stored_delete, unfolded orderly_def, rule_format]
  show "ok l0 (snd (delete_impl e path w))"
    unfolding delete_impl_def unprotected_plan[OF assms] using w
    by (auto dest!: silentD[OF silent_flush] intro!: tail split: sum.split prod.split)
qed

lemma orderly_create_dir:
  assumes "unprotected e"
  shows "orderly l0 (create_dir_impl e path)"
proof (rule orderlyI)
  fix w :: "'a world" assume w: "ok l0 w"
  have tail: "orderly l0 (\<lambda>w1.
            if is_temp_path n then
              st_bind (temp_mkdirs e (temp_rel n)) (\<lambda>_ w2.
                look (stat_impl e path) (complete_wal e i (mark_wal_physical_done e i w2))) w1
            else case physical e n of
              Inl err \<Rightarrow> (Inl err, w1)
            | Inr p \<Rightarrow>
                (case on_pool (pool_create_dir (eg_pool e) p) w1 of
                   (Inl err, w2) \<Rightarrow>
                     (Inl err, journal_log e ''MKDIR'' n None False (Some (vfs_text err)) (fail_wal e i (vfs_text err) w2))
                 | (Inr _, w2) \<Rightarrow>
                     (let w3 = journal_log e ''MKDIR'' n None True None (mark_wal_physical_done e i w2) in
                      case pool_stat (eg_pool e) p (wd_pool w3) of
                        Inl err \<Rightarrow> (Inl err, w3)
                      | Inr info \<Rightarrow>
                          (case index_written e i ''CREATE_DIR'' n info w3 of
                             (Inl err, w4) \<Rightarrow> (Inl err, w4)
                           | (Inr x, w4) \<Rightarrow> (Inr x, complete_wal e i w4)))))" if "own l0 i" for i n
    using that
    by (intro orderlyI)
      (auto simp: Let_def st_bind_def look_def dest!: silent_on_pool_fst silentD[OF silent_temp_mkdirs]
        index_written_ok[where ?l0.0 = l0] intro!: fail_wal_ok complete_wal_ok mark_wal_ok split: prod.splits sum.splits)
  note tail = orderly_begin[OF tail, unfolded orderly_def, rule_format]
  show "ok l0 (snd (create_dir_impl e path w))"
    unfolding create_dir_impl_def unprotected_plan[OF assms]
    using w by (auto intro!: tail split: sum.split)
qed

lemma index_moved_ok: "index_moved e i src dst w = (x, w') \<Longrightarrow> ok l0 w \<Longrightarrow> own l0 i \<Longrightarrow> ok l0 w'"
  by (auto simp: index_moved_def intro!: fail_wal_ok dest!: index_of_ok[where ?l0.0 = l0] split: if_splits prod.splits sum.splits)

lemma orderly_plain_move:
  assumes "unprotected e" and own: "own l0 i"
  shows "orderly l0 (plain_move e src0 dst0 src dst i)"
proof (rule orderlyI)
  fix w :: "'a world" assume w: "ok l0 w"
  have settle: "ok l0 (snd (settle e i c a b d (\<lambda>w. w) m w))" if "ok l0 w" "orderly l0 m" for c a b d m and w :: "'a world"
    using orderly_settle[OF that(2) own refl] that(1) by (auto simp: orderly_def)
  note stat = settle[OF _ silent_orderly[OF silent_calls(1)]]
  note give = settle[OF _ silent_orderly[OF silent_calls(2)]]
  note give_up = settle[OF _ silent_orderly[OF silent_calls(3)]]
  have mixed: "orderly l0 (st_bind (read_impl e src0) (\<lambda>x.
          st_bind (write_impl e dst0 (fst x)) (\<lambda>info w1.
            settle e i True ''MOVE'' src (Some dst) (\<lambda>w. w) (give info) (snd (delete_impl e src0 w1)))))"
    by (intro orderly_bind silent_orderly[OF silent_read] assms orderly_write orderlyI give
        orderly_delete[OF assms(1), unfolded orderly_def, rule_format])
  show "ok l0 (snd (plain_move e src0 dst0 src dst i w))"
    unfolding plain_move_def using w own mixed[unfolded orderly_def, rule_format, OF w]
    by (auto dest!: silentD[OF silent_temp_rename] silent_on_pool_fst index_moved_ok[where ?l0.0 = l0]
        intro!: stat give_up mark_wal_ok split: sum.split prod.split)
qed

lemma orderly_carry:
  assumes "unprotected e"
  shows "orderly l0 (carry_over e what src dst)"
proof (rule orderlyI)
  fix w :: "'a world" assume w: "ok l0 w"
  have "orderly l0 (st_bind (read_impl e src) (\<lambda>x. write_impl e dst (fst x)))"
    by (intro orderly_bind silent_orderly[OF silent_read] orderly_write assms)
  then show "ok l0 (snd (carry_over e what src dst w))"
    using w by (simp add: carry_over_def orderly_def split: sum.split)
qed

lemma orderly_move:
  assumes "unprotected e"
  shows "orderly l0 (move_file_impl e src0 dst0)"
proof (rule orderlyI)
  fix w :: "'a world" assume w: "ok l0 w"
  have "orderly l0 (st_bind (flush_pending_for_path e src) (\<lambda>_. st_bind (flush_pending_for_path e dst) (\<lambda>_.
              st_bind (begin_wal e (WalMove src dst) (should_skip_wal_for_path e src))
                (plain_move e src0 dst0 src dst))))" for src dst
    by (intro orderly_bind orderly_begin silent_orderly[OF silent_flush] orderly_plain_move assms)
  note this[unfolded orderly_def, rule_format, OF w]
  then show "ok l0 (snd (move_file_impl e src0 dst0 w))"
    using w by (auto simp: move_file_impl_def unprotected_plan[OF assms] split: sum.split)
qed

lemma orderly_plain_copy:
  assumes "unprotected e" and own: "own l0 i"
  shows "orderly l0 (plain_copy e src0 dst0 src dst sz i)"
proof (rule orderlyI)
  fix w :: "'a world" assume w: "ok l0 w"
  define book :: "'a world \<Rightarrow> 'a world" where "book = (if is_thumbnail_cache_path dst then (\<lambda>w. w) else add_quota e sz)"
  have book: "wd_wal (book w) = wd_wal w" for w by (simp add: book_def)
  have settle: "ok l0 (snd (settle e i c a b d book m w))" if "ok l0 w" "orderly l0 m" for c a b d m and w :: "'a world"
    using orderly_settle[OF that(2) own book] that(1) by (auto simp: orderly_def)
  note stat = settle[OF _ silent_orderly[OF silent_calls(1)]]
  note give = settle[OF _ silent_orderly[OF silent_calls(2)]]
  note give_up = settle[OF _ silent_orderly[OF silent_calls(3)]]
  have mixed: "orderly l0 (st_bind (read_impl e src0) (\<lambda>x.
          settle e i True ''COPY'' src (Some dst) book (write_impl e dst0 (fst x))))"
    by (intro orderly_bind silent_orderly[OF silent_read] assms orderly_write orderly_settle own book)
  show "ok l0 (snd (plain_copy e src0 dst0 src dst sz i w))"
    unfolding plain_copy_def book_def[symmetric] using w own mixed[unfolded orderly_def, rule_format, OF w]
    by (auto simp: Let_def dest!: silentD[OF silent_temp_copy] silent_on_pool_fst silentD[OF silent_upsert]
        intro!: stat give give_up mark_wal_ok fail_wal_ok split: sum.split prod.split)
qed

lemma orderly_copy:
  assumes "unprotected e"
  shows "orderly l0 (copy_file_impl e src0 dst0)"
proof (rule orderlyI)
  fix w :: "'a world" assume w: "ok l0 w"
  have "orderly l0 (st_bind (flush_pending_for_path e src) (\<lambda>_. st_bind (flush_pending_for_path e dst) (\<lambda>_.
              st_bind (look (stat_impl e src)) (\<lambda>info.
                st_bind
                  (look (\<lambda>w. if is_thumbnail_cache_path dst then Inr () else engine_check_quota e (sint (fi_size info)) w))
                  (\<lambda>_. st_bind (begin_wal e (WalCopy src dst None) (should_skip_wal_for_write e dst (fi_size info)))
                    (plain_copy e src0 dst0 src dst (sint (fi_size info))))))))" for src dst
    by (intro orderly_bind orderly_begin silent_orderly[OF silent_flush] silent_orderly[OF silent_calls(1)]
        orderly_plain_copy assms)
  note this[unfolded orderly_def, rule_format, OF w]
  then show "ok l0 (snd (copy_file_impl e src0 dst0 w))"
    using w by (auto simp: copy_file_impl_def unprotected_plan[OF assms] split: sum.split)
qed

lemma orderly_index_only: "orderly l0 (index_only_move e what src dst follow op)"
  unfolding index_only_move_def
  by (rule orderly_begin, rule orderlyI)
    (auto simp: index_unit_def intro!: mark_wal_ok complete_wal_ok dest!: index_of_ok[where ?l0.0 = l0]
      split: prod.splits sum.splits)

lemma orderly_stored_bin: "orderly l0 (stored_bin_move e what src dst follow op)"
  unfolding stored_bin_move_def
  by (rule orderly_begin, rule orderlyI)
    (auto intro!: mark_wal_ok complete_wal_ok fail_wal_ok dest!: silentD[OF silent_move_regular] index_of_ok[where ?l0.0 = l0]
      split: prod.splits sum.splits)

lemma orderly_trash:
  assumes "unprotected e"
  shows "orderly l0 (move_to_trash_impl e path)"
proof (rule orderlyI)
  fix w :: "'a world" assume w: "ok l0 w"
  have "orderly l0 (st_bind (ensure_recycle_bin_initialized e) (\<lambda>_. stored_bin_move e what n t f op))" for what n t f op
    by (intro orderly_bind silent_orderly[OF silent_ensure_recycle] orderly_stored_bin)
  note this[unfolded orderly_def, rule_format, OF w]
  then show "ok l0 (snd (move_to_trash_impl e path w))"
    using w by (auto simp: move_to_trash_impl_def Let_def unprotected_plan[OF assms] split: sum.split)
qed

lemma orderly_restore:
  assumes "unprotected e"
  shows "orderly l0 (restore_from_trash_impl e path)"
proof (rule orderlyI)
  fix w :: "'a world" assume w: "ok l0 w"
  show "ok l0 (snd (restore_from_trash_impl e path w))"
    using w orderly_stored_bin[of l0 e, unfolded orderly_def, rule_format, OF w]
    by (simp add: restore_from_trash_impl_def Let_def unprotected_plan[OF assms] split: sum.split option.split)
qed

lemma orderly_favorite: "orderly l0 (set_favorite_impl e path color)"
  by (rule orderlyI) (auto simp: set_favorite_impl_def look_def split: sum.split)

section \<open>Sequences of requests\<close>

datatype user_op =
    OpWrite string string
  | OpStream string "(vfs_error + string) list"
  | OpWriteAt string u64 string
  | OpDelete string
  | OpMkdir string
  | OpMove string string
  | OpCopy string string
  | OpTrash string
  | OpRestore string
  | OpFavorite string int
  | OpSync string
  | OpRead string

fun run_op :: "'p engine \<Rightarrow> user_op \<Rightarrow> 'p world \<Rightarrow> 'p world" where
  "run_op e (OpWrite p d) w = snd (write_impl e p d w)"
| "run_op e (OpStream p cs) w = snd (write_stream_impl e p cs w)"
| "run_op e (OpWriteAt p off d) w = snd (write_at_impl e p off d w)"
| "run_op e (OpDelete p) w = snd (delete_impl e p w)"
| "run_op e (OpMkdir p) w = snd (create_dir_impl e p w)"
| "run_op e (OpMove p q) w = snd (move_file_impl e p q w)"
| "run_op e (OpCopy p q) w = snd (copy_file_impl e p q w)"
| "run_op e (OpTrash p) w = snd (move_to_trash_impl e p w)"
| "run_op e (OpRestore p) w = snd (restore_from_trash_impl e p w)"
| "run_op e (OpFavorite p c) w = snd (set_favorite_impl e p c w)"
| "run_op e (OpSync p) w = snd (sync_index_impl e p w)"
| "run_op e (OpRead p) w = snd (read_impl e p w)"

text \<open>Each request comes with the engine that serves it, so with its user, its clock and its faults.\<close>

definition run_ops :: "('p engine \<times> user_op) list \<Rightarrow> 'p world \<Rightarrow> 'p world" where
  "run_ops = fold (\<lambda>(e, op). run_op e op)"

lemma run_op_ok: "unprotected e \<Longrightarrow> ok l0 w \<Longrightarrow> ok l0 (run_op e op w)"
  using orderly_write[of e l0] orderly_write_stream[of e l0] orderly_write_at[of e l0] orderly_delete[of e l0]
    orderly_create_dir[of e l0] orderly_move[of e l0] orderly_copy[of e l0] orderly_trash[of e l0]
    orderly_restore[of e l0] orderly_favorite[of l0 e] silent_orderly[OF silent_sync_index, of e l0]
    silent_orderly[OF silent_read, of e l0]
  by (cases op) (simp_all add: orderly_def sync_index_impl_def)

lemma run_ops_ok: "(\<And>e op. (e, op) \<in> set ops \<Longrightarrow> unprotected e) \<Longrightarrow> ok l0 w \<Longrightarrow> ok l0 (run_ops ops w)"
  unfolding run_ops_def by (induction ops arbitrary: w) (auto intro: run_op_ok)

end
