(* ===== verification/Engine_Example.thy ===== *)
theory Engine_Example
  imports Wal_Recovery Engine_Journal
begin

text \<open>
  A small world for the witnesses of the engine's properties: one user, an in-memory store without caches, an
  empty index, a quota of ten bytes.
\<close>

definition ey_env :: "(string \<Rightarrow> bool) \<Rightarrow> (string \<Rightarrow> string option) pool_env" where
  "ey_env broken =
     \<lparr>pv_wc = \<lparr>we_fs = ex_env, we_read = ex_env, we_uuid = (\<lambda>n. []), we_op = map_op broken, we_recorder = False\<rparr>,
      pv_backup = map_op (\<lambda>_. False)\<rparr>"

definition ey_nothing :: "(string \<Rightarrow> string option) protected_ops" where
  "ey_nothing =
     \<lparr>po_read = (\<lambda>_. give_up (Internal ''protected'')), po_read_range = (\<lambda>_ _ _. give_up (Internal ''protected'')),
      po_read_stream_range = (\<lambda>_ _ _. give_up (Internal ''protected'')),
      po_write = (\<lambda>_ _. give_up (Internal ''protected'')), po_write_stream = (\<lambda>_ _. give_up (Internal ''protected'')),
      po_write_at = (\<lambda>_ _ _. give_up (Internal ''protected'')), po_delete = (\<lambda>_. give_up (Internal ''protected'')),
      po_create_dir = (\<lambda>_. give_up (Internal ''protected'')), po_move = (\<lambda>_ _. give_up (Internal ''protected'')),
      po_copy = (\<lambda>_ _. give_up (Internal ''protected''))\<rparr>"

definition ey_engine :: "(string \<Rightarrow> bool) \<Rightarrow> (string \<Rightarrow> string option) engine" where
  "ey_engine broken =
     \<lparr>eg_user = ''u'', eg_pct = Some, eg_pool = ey_env broken, eg_pool_name = ''p'', eg_backend = ''memory'',
      eg_wal_on = True, eg_up_wal = True, eg_up_index = True, eg_up_settings = True, eg_enc = op_str, eg_now = 5,
      eg_clk = (5, 5, 5, 5), eg_uuid = (\<lambda>n. ''id'' @ replicate n (CHR ''x'')), eg_skip_temp = True, eg_min_size = 0,
      eg_chunk = 10, eg_sync_mode = 0, eg_recorder = True, eg_io = (\<lambda>_. None), eg_plan = Some None,
      eg_unlock = (\<lambda>_. Inr ()), eg_protected = ey_nothing\<rparr>"

definition ey_pool :: "(string \<Rightarrow> string option) \<Rightarrow> (string \<Rightarrow> string option) pool" where
  "ey_pool m = \<lparr>pl_primary = m, pl_backup = None, pl_read = None, pl_write = None\<rparr>"

definition ey_world :: "(string \<Rightarrow> string option) \<Rightarrow> (string \<Rightarrow> string option) world" where
  "ey_world m =
     \<lparr>wd_index = \<lparr>db_files = [], db_shares = []\<rparr>, wd_settings = [new_settings 0 ''u'' ''p'' ''/users/u'' 10],
      wd_wal = \<lparr>wal_rows = [], wal_next = 1\<rparr>, wd_pool = ey_pool m, wd_temp = [],
      wd_maint = \<lparr>locked_users = [], live_guards = []\<rparr>, wd_journal = [], wd_recycle = False\<rparr>"

lemma ey_engine_simps [simp]:
  "eg_user (ey_engine b) = ''u''" "eg_pct (ey_engine b) = Some" "eg_pool (ey_engine b) = ey_env b"
  "eg_wal_on (ey_engine b)" "eg_up_wal (ey_engine b)" "eg_up_index (ey_engine b)" "eg_up_settings (ey_engine b)"
  "eg_now (ey_engine b) = 5" "eg_min_size (ey_engine b) = 0" "eg_io (ey_engine b) rel = None"
  "eg_clk (ey_engine b) = (5, 5, 5, 5)" "eg_plan (ey_engine b) = Some None"
  by (simp_all add: ey_engine_def)

lemma ey_env_simps [simp]: "primary (ey_env b) = map_op b" "pv_backup (ey_env b) = map_op (\<lambda>_. False)"
  by (simp_all add: ey_env_def)

lemma ey_world_simps [simp]:
  "wd_pool (ey_world m) = ey_pool m" "wd_index (ey_world m) = \<lparr>db_files = [], db_shares = []\<rparr>"
  "wd_wal (ey_world m) = \<lparr>wal_rows = [], wal_next = 1\<rparr>" "wd_temp (ey_world m) = []"
  "wd_maint (ey_world m) = \<lparr>locked_users = [], live_guards = []\<rparr>"
  by (simp_all add: ey_world_def)

lemma ey_pool_simps [simp]:
  "pl_primary (ey_pool m) = m" "pl_backup (ey_pool m) = None" "pl_read (ey_pool m) = None" "pl_write (ey_pool m) = None"
  by (simp_all add: ey_pool_def)

lemma ey_unprotected [simp]: "unprotected (ey_engine b)"
  by (simp add: unprotected_def)

lemma ey_wal_wf [simp]: "wal_wf \<lparr>wal_rows = [], wal_next = 1\<rparr>"
  by (simp add: wal_wf_def)

text \<open>The same world with a write cache in memory, for files of up to nine bytes, in which a small write is pending.\<close>

definition ey_entry :: pending where
  "ey_entry = \<lparr>pe_user = ''u'', pe_logical = ''/f'', pe_physical = ''u/f'', pe_parent = wc_parent_path ''u/f'',
     pe_blob = PMem ''xy'', pe_size = 2, pe_modified = 5, pe_deadline = 15, pe_next_retry = 5, pe_generation = 1,
     pe_retry = 0, pe_state = Pending, pe_abnormal_logged = False, pe_error = None\<rparr>"

definition ey_cache :: "(string \<Rightarrow> string option) write_cache" where
  "ey_cache =
     \<lparr>wc_enabled = True, wc_backend = WriteMemory, wc_queue_dir = ''/q'', wc_abnormal_dir = ''/s'', wc_capacity = 9,
      wc_max_file = 9, wc_interval_ms = 1000, wc_deadline_secs = 10, wc_policy = policy_new True [],
      wc_accounted = 2, wc_entries = [(''u/f'', 0)], wc_dirty_paths = [(''u/f'', ())], wc_dirty_dirs = [(''u'', ())],
      wc_index_tasks = [], wc_quota_tasks = [], wc_read = None, wc_store = Map.empty, wc_heap = (\<lambda>_. ey_entry),
      wc_next_id = 1, wc_next_uuid = 0, wc_fs = Map.empty, wc_metrics = zero_metrics, wc_journal = []\<rparr>"

definition ey_pending :: "(string \<Rightarrow> string option) world" where
  "ey_pending = (ey_world Map.empty)\<lparr>wd_pool := (ey_pool Map.empty)\<lparr>pl_write := Some ey_cache\<rparr>\<rparr>"

end
