(* ===== verification/Engine_Claims.thy ===== *)
theory Engine_Claims
  imports Engine_Example File_Index_Claims
begin

text \<open>
  What the engine promises for the writes of a user whose files are stored plainly, and what it does not keep.
\<close>

section \<open>The journal is append-only\<close>

text \<open>
  C8: The journal is append-only for the requests of users without protected storage, whatever fails on the way:
  after any sequence of writes, streams, deletions, moves, copies, trips to the recycle bin and back, the rows
  that were there before are unchanged and in front, the rows behind them have fresh keys, and the table is
  well-formed, so no request can settle the row of another one.
\<close>

theorem journal_append_only:
  assumes "wal_wf (wd_wal w)" and "\<forall>(e, op) \<in> set ops. unprotected e"
  shows "\<exists>added. wal_rows (wd_wal (run_ops ops w)) = wal_rows (wd_wal w) @ added \<and>
    (\<forall>r \<in> set added. wal_next (wd_wal w) \<le> wl_id r) \<and> wal_wf (wd_wal (run_ops ops w))"
proof -
  have "grown (wd_wal w) (wd_wal (run_ops ops w))"
    using assms(2) by (intro run_ops_ok grown_refl assms(1)) auto
  then show ?thesis unfolding grown_def by blast
qed

definition ey_ops :: "((string \<Rightarrow> string option) engine \<times> user_op) list" where
  "ey_ops = [(ey_engine (\<lambda>_. False), OpWrite ''/f'' ''xy''), (ey_engine (\<lambda>_. True), OpWrite ''/g'' ''z''),
             (ey_engine (\<lambda>_. False), OpDelete ''/f'')]"

lemma journal_append_only_witness:
  "wal_wf (wd_wal (run_ops ey_ops (ey_world Map.empty))) \<and>
   map wl_status (wal_rows (wd_wal (run_ops ey_ops (ey_world Map.empty)))) = [''completed'', ''failed'', ''completed'']"
proof -
  have "\<forall>(e, op) \<in> set ey_ops. unprotected e" by (simp add: ey_ops_def)
  moreover have "map wl_status (wal_rows (wd_wal (run_ops ey_ops (ey_world Map.empty)))) = [''completed'', ''failed'', ''completed'']"
    by code_simp
  ultimately show ?thesis using journal_append_only[of "ey_world Map.empty" ey_ops] by auto
qed

section \<open>The life of a journal row\<close>

lemma update_last_row:
  assumes "wal_rows l = rs @ [r]" and "\<forall>r \<in> set rs. wl_id r < i" and "wl_id r = i"
  shows "wal_rows (snd (update_rows_by_id True i f l)) = rs @ [f r]"
proof -
  have "map (\<lambda>r. if wl_id r = i then f r else r) rs = rs" using assms(2) by (intro map_idI) auto
  then show ?thesis using assms(1,3) by (simp add: update_rows_by_id_def)
qed

text \<open>\<open>last_row w0 op st w\<close>: the table of \<open>w\<close> is that of \<open>w0\<close> with one row behind it, for \<open>op\<close>, in phase \<open>st\<close>.\<close>

definition last_row :: "'p world \<Rightarrow> wal_operation \<Rightarrow> wal_status \<Rightarrow> 'p world \<Rightarrow> bool" where
  "last_row w0 op st w \<longleftrightarrow>
     (\<exists>r. wal_rows (wd_wal w) = wal_rows (wd_wal w0) @ [r] \<and>
        wl_id r = wal_next (wd_wal w0) \<and> wl_status r = status_str st \<and> wl_type r = op_str op)"

lemma begin_last_row:
  assumes "begin_wal e op False w = (Inr i, w1)" and "eg_wal_on e"
  shows "last_row w op WalPending w1 \<and> i = Some (wal_next (wd_wal w)) \<and> eg_up_wal e"
  using assms by (auto simp: begin_wal_def log_operation_def last_row_def split: if_splits)

lemma phase_last_row:
  assumes "last_row w0 op st0 w" and "wal_wf (wd_wal w0)" and "eg_wal_on e" "eg_up_wal e"
  shows "last_row w0 op PhysicalDone (mark_wal_physical_done e (Some (wal_next (wd_wal w0))) w)"
    and "last_row w0 op Completed (complete_wal e (Some (wal_next (wd_wal w0))) w)"
    and "last_row w0 op Failed (fail_wal e (Some (wal_next (wd_wal w0))) reason w)"
proof -
  from assms(1) obtain r where r: "wal_rows (wd_wal w) = wal_rows (wd_wal w0) @ [r]"
    "wl_id r = wal_next (wd_wal w0)" "wl_type r = op_str op" unfolding last_row_def by blast
  have "\<forall>q \<in> set (wal_rows (wd_wal w0)). wl_id q < wal_next (wd_wal w0)" using assms(2) by (simp add: wal_wf_def)
  note upd = update_last_row[OF r(1) this r(2)]
  show "last_row w0 op PhysicalDone (mark_wal_physical_done e (Some (wal_next (wd_wal w0))) w)"
    and "last_row w0 op Completed (complete_wal e (Some (wal_next (wd_wal w0))) w)"
    and "last_row w0 op Failed (fail_wal e (Some (wal_next (wd_wal w0))) reason w)"
    using assms(3,4) r
    by (simp_all add: mark_wal_physical_done_def complete_wal_def fail_wal_def on_wal_def mark_physical_done_def
        fail_operation_def transition_operation_def complete_operation_def upd last_row_def set_phase_def)
qed

lemma last_row_frame [simp]:
  "last_row w0 op st (journal_log e a src dst s err w) \<longleftrightarrow> last_row w0 op st w"
  "last_row w0 op st (add_quota e n w) \<longleftrightarrow> last_row w0 op st w"
  by (simp_all add: last_row_def)

lemma wal_only:
  "\<exists>l. mark_wal_physical_done e i w = w\<lparr>wd_wal := l\<rparr>" "\<exists>l. complete_wal e i w = w\<lparr>wd_wal := l\<rparr>"
  "\<exists>l. fail_wal e i reason w = w\<lparr>wd_wal := l\<rparr>"
  by (cases i; auto simp: mark_wal_physical_done_def complete_wal_def fail_wal_def on_wal_def intro: exI[of _ "wd_wal w"])+

lemma wal_frame [simp]:
  "wd_pool (mark_wal_physical_done e i w) = wd_pool w" "wd_index (mark_wal_physical_done e i w) = wd_index w"
  "wd_settings (mark_wal_physical_done e i w) = wd_settings w"
  "wd_pool (complete_wal e i w) = wd_pool w" "wd_index (complete_wal e i w) = wd_index w"
  "wd_settings (complete_wal e i w) = wd_settings w"
  "wd_pool (fail_wal e i reason w) = wd_pool w" "wd_index (fail_wal e i reason w) = wd_index w"
  "wd_settings (fail_wal e i reason w) = wd_settings w"
  "wd_pool (journal_log e a src dst s err w) = wd_pool w" "wd_index (journal_log e a src dst s err w) = wd_index w"
  "wd_settings (journal_log e a src dst s err w) = wd_settings w"
  "wd_pool (add_quota e d w) = wd_pool w" "wd_index (add_quota e d w) = wd_index w"
  by (cases i; simp add: mark_wal_physical_done_def complete_wal_def fail_wal_def on_wal_def journal_log_def add_quota_def)+

lemma add_quota_settings [simp]:
  "wd_settings (add_quota e n w) = snd (update_quota (eg_up_settings e) (eg_now e) (eg_user e) n (wd_settings w))"
  by (simp add: add_quota_def)

lemma begin_wal_frame:
  "begin_wal e op skip w = (r, w1) \<Longrightarrow> wd_pool w1 = wd_pool w \<and> wd_index w1 = wd_index w \<and> wd_settings w1 = wd_settings w"
  by (auto simp: begin_wal_def split: if_splits prod.splits sum.splits)

section \<open>Writing a plainly stored file\<close>

text \<open>
  \<open>plain_target e path n p w\<close>: \<open>path\<close> is valid with normal form \<open>n\<close>, which names a regular stored file at
  \<open>p\<close>; the user has no protected storage, is not under maintenance, and the pool has no write cache.
\<close>

definition plain_target :: "'p engine \<Rightarrow> string \<Rightarrow> string \<Rightarrow> string \<Rightarrow> 'p world \<Rightarrow> bool" where
  "plain_target e path n p w \<longleftrightarrow>
     validate_path e path = Inr n \<and> physical e n = Inr p \<and> \<not> is_temp_path n \<and> \<not> is_thumbnail_cache_path n \<and>
     \<not> is_protected_blob_path n \<and> \<not> is_refresh_trigger n \<and> unprotected e \<and> pl_write (wd_pool w) = None \<and>
     check_maintenance e w = Inr ()"

lemma flush_nothing:
  "pl_write (wd_pool w) = None \<Longrightarrow> physical e n = Inr p \<Longrightarrow> flush_pending_for_path e n w = (Inr (), w)"
  by (simp add: flush_pending_for_path_def on_pool_def flush_write_cache_def with_write_cache_def)

lemma write_is_direct:
  assumes "plain_target e path n p w"
  shows "write_impl e path d w = direct_write e path n d w"
  using assms
  by (simp add: write_impl_def plain_target_def unprotected_plan try_enqueue_write_cache_def should_use_write_cache_def)

lemma upsert_written:
  assumes paths: "\<not> is_thumbnail_cache_path n" "\<not> is_protected_blob_path n" and p: "physical e n = Inr p"
    and up: "upsert_index_helper e n info w = (Inr (), w')"
    and db: "db_ok (wd_index w)" "\<forall>r \<in> set (db_files (wd_index w)). ir_user r = eg_user e \<longrightarrow> ir_id r \<noteq> eg_uuid e 0"
  shows "\<exists>r. get_file_metadata (eg_user e) (index_path n) (wd_index w') = Some r \<and>
    ir_size r = sint (fi_size info) \<and> ir_key r = Some p \<and> wd_pool w' = wd_pool w \<and> wd_settings w' = wd_settings w"
proof -
  define call where "call up = upsert_file_with_location up (eg_uuid e 0) (eg_now e) (eg_user e) n info
      (Some (eg_pool_name e)) (Some (eg_backend e)) (Some p) None None (wd_index w)" for up
  have off: "call False = (Inl DbUnavailable, wd_index w)"
    by (simp add: call_def upsert_file_with_location_def add_or_update_entry_def Let_def)
  have run: "upsert_index_helper e n info w =
      (case call (eg_up_index e) of (r, db) \<Rightarrow> (case r of Inl err \<Rightarrow> Inl (Internal (db_text err)) | Inr _ \<Rightarrow> Inr (), w\<lparr>wd_index := db\<rparr>))"
    unfolding call_def using paths p
    by (simp add: upsert_index_helper_def upsert_index_with_key_def on_index_def db_internal_def split: prod.split sum.split)
  have on: "eg_up_index e" using up run off by (cases "eg_up_index e") simp_all
  from upsert_lookup[OF db, of "eg_now e" n info "Some (eg_pool_name e)" "Some (eg_backend e)" "Some p" None None]
  obtain r db' where r: "call True = (Inr r, db')" "get_file_metadata (eg_user e) (index_path n) db' = Some r"
    "ir_size r = sint (fi_size info)" "ir_key r = Some p"
    unfolding call_def by blast
  then have "w' = w\<lparr>wd_index := db'\<rparr>" using up run on by simp
  then show ?thesis using r by simp
qed

lemma pool_write_stored:
  assumes law: "lawful_op (primary env) {p}" and none: "pl_write s = None" and w: "pool_write env p d s = (Inr info, s')"
  shows "op_read (primary env) p (pl_primary s') = Inr d \<and> fi_size info = word_of_nat (length d) \<and> pl_write s' = None"
proof -
  define s1 where "s1 = invalidate_read_cache env p s"
  have s1: "pl_write s1 = None" using none by (simp add: s1_def invalidate_read_cache_def)
  obtain r st where wr: "op_write (primary env) p d (pl_primary s1) = (r, st)" by fastforce
  have run: "pool_write env p d s =
      (case dal_res r of Inl err \<Rightarrow> (Inl err, s1\<lparr>pl_primary := st\<rparr>) | Inr _ \<Rightarrow> then_stat env p () (s1\<lparr>pl_primary := st\<rparr>))"
    by (simp add: pool_write_def st_bind_def on_primary_def wr split: sum.split flip: s1_def)
  have r: "r = Inr ()" using w unfolding run by (cases r) (auto simp: dal_res_def)
  have stat: "pool_stat env p (s1\<lparr>pl_primary := st\<rparr>) = Inr info" and s': "s' = s1\<lparr>pl_primary := st\<rparr>"
    using w unfolding run r by (auto simp: dal_res_def then_stat_def)
  from lawful_length[OF law _ wr[unfolded r]] obtain m
    where m: "op_stat (primary env) p st = Inr m" "md_length m = word_of_nat (length d)" by auto
  then have "fi_size info = word_of_nat (length d)"
    using stat s1 by (simp add: pool_stat_def pool_pending_stat_def stat_with_operator_def to_vfs_file_info_def) (auto simp: to_vfs_file_info_def)
  then show ?thesis using lawful_written[OF law _ wr[unfolded r]] s' s1 by simp
qed

lemma sint_word_of_nat: "n < 2 ^ 63 \<Longrightarrow> sint (word_of_nat n :: u64) = int n"
  using wrap_i64_id[of "int n"] by (simp add: wrap_i64_def is_i64_def)

text \<open>The three ways a plain write ends, with the world after the storage and the index were asked.\<close>

lemma plain_write_fails:
  assumes "physical e n = Inr p" "\<not> is_temp_path n" and "pool_write (eg_pool e) p d (wd_pool w) = (Inl err, s)"
  shows "plain_write e path n d diff i w =
    (Inl err, journal_log e ''WRITE'' n None False (Some (vfs_text err)) (fail_wal e i (vfs_text err) (w\<lparr>wd_pool := s\<rparr>)))"
  using assms by (simp add: plain_write_def on_pool_def settle_def give_up_def)

lemma plain_write_stores:
  assumes "physical e n = Inr p" "\<not> is_temp_path n" "\<not> is_thumbnail_cache_path n"
    and "pool_write (eg_pool e) p d (wd_pool w) = (Inr info, s)"
    and "upsert_index_helper e n (logical_info e info) (mark_wal_physical_done e i (w\<lparr>wd_pool := s\<rparr>)) = (u, w3)"
  shows "plain_write e path n d diff i w =
    (case u of
       Inl err \<Rightarrow> (Inl err, fail_wal e i (''WRITE metadata sync failed for '' @ n @ '': '' @ vfs_text err) w3)
     | Inr _ \<Rightarrow> (Inr (logical_info e info), journal_log e ''WRITE'' n None True None
          (if diff = 0 then complete_wal e i w3 else add_quota e diff (complete_wal e i w3))))"
  using assms by (cases u) (simp_all add: plain_write_def on_pool_def settle_def give_def index_written_def)

lemma upsert_frame:
  "upsert_index_helper e n info w = (u, w') \<Longrightarrow> wd_settings w' = wd_settings w \<and> wd_pool w' = wd_pool w \<and> wd_wal w' = wd_wal w"
  by (auto simp: upsert_index_helper_def upsert_index_with_key_def on_index_def split: if_splits sum.splits prod.splits bool.splits)

definition size_change :: "'p engine \<Rightarrow> string \<Rightarrow> string \<Rightarrow> 'p world \<Rightarrow> int" where
  "size_change e n d w = int (length d) - get_file_size e n w"

text \<open>
  C4: The contract of a journalled whole-file write to a plain target. The target is plain when the path is
  valid, is neither a temporary file, a thumbnail, a protected blob nor a refresh trigger, and the user has no
  protected storage and is not under maintenance; the pool has no write cache, its storage reads back what it
  wrote, the index and the journal are well-formed, the identifier for a new row is unused, and the content is
  shorter than 2^63 bytes. The write is journalled when the journal is switched on and the content has at least
  the configured minimal size. Then, when the call succeeds, the storage holds exactly the bytes, the index has
  a live row for the path with their number and the storage key, the result reports the size, the journal has
  one more row, which is completed, the quota gate admitted the growth if there was any, and the settings are
  what \<open>update_quota\<close> makes of them for the difference to the old size (its failure leaves them alone and does not
  fail the call). When the call fails, wherever that was, the settings are
  untouched and the journal has no new row or one more row, which is failed. Nothing is said here of writes
  below the minimal size, which are not journalled, nor of thumbnails, which are neither indexed nor counted.
\<close>

theorem write_contract:
  assumes target: "plain_target e path n p w" and law: "lawful_op (primary (eg_pool e)) {p}"
    and len: "length d < 2 ^ 63" and db: "db_ok (wd_index w)"
    and fresh_id: "\<forall>r \<in> set (db_files (wd_index w)). ir_user r = eg_user e \<longrightarrow> ir_id r \<noteq> eg_uuid e 0"
    and wal: "wal_wf (wd_wal w)" "eg_wal_on e" "\<not> should_skip_wal_for_write e n (word_of_nat (length d))"
  shows "case write_impl e path d w of
      (Inr info, w') \<Rightarrow>
        op_read (primary (eg_pool e)) p (pl_primary (wd_pool w')) = Inr d \<and> fi_size info = word_of_nat (length d) \<and>
        (\<exists>r. get_file_metadata (eg_user e) (index_path n) (wd_index w') = Some r \<and>
           ir_size r = int (length d) \<and> ir_key r = Some p) \<and>
        (0 < size_change e n d w \<longrightarrow> engine_check_quota e (size_change e n d w) w = Inr ()) \<and>
        wd_settings w' = (if size_change e n d w = 0 then wd_settings w
          else snd (update_quota (eg_up_settings e) (eg_now e) (eg_user e) (size_change e n d w) (wd_settings w))) \<and>
        last_row w (WalWrite n (word_of_nat (length d)) None) Completed w'
    | (Inl err, w') \<Rightarrow>
        wd_settings w' = wd_settings w \<and>
        (wal_rows (wd_wal w') = wal_rows (wd_wal w) \<or> last_row w (WalWrite n (word_of_nat (length d)) None) Failed w')"
proof -
  let ?op = "WalWrite n (word_of_nat (length d)) None" and ?diff = "size_change e n d w"
  note t = target[unfolded plain_target_def]
  have skip: "should_skip_wal_for_write e n (word_of_nat (length d)) = False" using wal(3) by simp
  have run: "write_impl e path d w =
      (case (if 0 < ?diff then engine_check_quota e ?diff w else Inr ()) of
         Inl err \<Rightarrow> (Inl err, w) | Inr _ \<Rightarrow> st_bind (begin_wal e ?op False) (plain_write e path n d ?diff) w)"
    unfolding write_is_direct[OF target] direct_write_def size_change_def skip
    using t by (simp add: flush_nothing Let_def)
  show ?thesis
  proof (cases "if 0 < ?diff then engine_check_quota e ?diff w else Inr ()")
    case (Inl err)
    then show ?thesis unfolding run by simp
  next
    case (Inr x)
    then have gate: "0 < ?diff \<longrightarrow> engine_check_quota e ?diff w = Inr ()" by (auto split: if_splits)
    obtain b w1 where b: "begin_wal e ?op False w = (b, w1)" by fastforce
    note f1 = begin_wal_frame[OF b]
    show ?thesis
    proof (cases b)
      case (Inl err)
      then have "wal_rows (wd_wal w1) = wal_rows (wd_wal w)"
        using b wal(2) by (auto simp: begin_wal_def log_operation_def split: if_splits)
      then show ?thesis unfolding run using \<open>_ = Inr x\<close> Inl b f1 by (simp add: st_bind_def)
    next
      case bi: (Inr i)
      from begin_last_row[OF b[unfolded bi] wal(2)]
      have row: "last_row w ?op WalPending w1" "i = Some (wal_next (wd_wal w))" "eg_up_wal e" by blast+
      note ph = phase_last_row[OF _ wal(1,2) row(3)]
      obtain r s where pw: "pool_write (eg_pool e) p d (wd_pool w1) = (r, s)" by fastforce
      let ?w2 = "mark_wal_physical_done e i (w1\<lparr>wd_pool := s\<rparr>)"
      have run: "write_impl e path d w = plain_write e path n d ?diff i w1"
        unfolding run using \<open>_ = Inr x\<close> b bi by (simp add: st_bind_def)
      show ?thesis
      proof (cases r)
        case (Inl err)
        have "last_row w ?op Failed (fail_wal e i (vfs_text err) (w1\<lparr>wd_pool := s\<rparr>))"
          unfolding row(2) by (rule ph(3)[of ?op WalPending]) (use row(1) in \<open>simp add: last_row_def\<close>)
        moreover have "plain_write e path n d ?diff i w1 =
            (Inl err, journal_log e ''WRITE'' n None False (Some (vfs_text err)) (fail_wal e i (vfs_text err) (w1\<lparr>wd_pool := s\<rparr>)))"
          by (rule plain_write_fails) (use t pw Inl in simp_all)
        ultimately show ?thesis unfolding run using f1 by simp
      next
        case info: (Inr info)
        obtain u w3 where up: "upsert_index_helper e n (logical_info e info) ?w2 = (u, w3)" by fastforce
        note f3 = upsert_frame[OF up]
        have out: "plain_write e path n d ?diff i w1 = (case u of
            Inl err \<Rightarrow> (Inl err, fail_wal e i (''WRITE metadata sync failed for '' @ n @ '': '' @ vfs_text err) w3)
          | Inr _ \<Rightarrow> (Inr (logical_info e info), journal_log e ''WRITE'' n None True None
              (if ?diff = 0 then complete_wal e i w3 else add_quota e ?diff (complete_wal e i w3))))"
          by (rule plain_write_stores[OF _ _ _ pw[unfolded info] up]) (use t in simp_all)
        have r2: "last_row w ?op PhysicalDone w3"
          using ph(1)[of ?op WalPending "w1\<lparr>wd_pool := s\<rparr>"] row f3 by (simp add: last_row_def)
        show ?thesis
        proof (cases u)
          case (Inl err)
          have "plain_write e path n d ?diff i w1 =
              (Inl err, fail_wal e i (''WRITE metadata sync failed for '' @ n @ '': '' @ vfs_text err) w3)"
            using out Inl by simp
          then show ?thesis unfolding run using f1 f3 ph(3)[OF r2] row(2) by simp
        next
          case (Inr y)
          have stored: "op_read (primary (eg_pool e)) p (pl_primary s) = Inr d" "fi_size info = word_of_nat (length d)"
            using pool_write_stored[OF law _ pw[unfolded info]] t f1 by auto
          have sz: "fi_size (logical_info e info) = word_of_nat (length d)"
            using stored(2) by (simp add: logical_info_def translate_file_info_def)
          from upsert_written[of n e p "logical_info e info" ?w2 w3] t up Inr db fresh_id f1
          obtain q where q: "get_file_metadata (eg_user e) (index_path n) (wd_index w3) = Some q"
            "ir_size q = int (length d)" "ir_key q = Some p"
            using sz sint_word_of_nat[OF len] by auto
          define w4 where "w4 = complete_wal e i w3"
          have fin: "last_row w ?op Completed w4" using ph(2)[OF r2] row(2) by (simp add: w4_def)
          have w4: "wd_pool w4 = s" "wd_index w4 = wd_index w3" "wd_settings w4 = wd_settings w"
            using f3 f1 by (simp_all add: w4_def)
          have "plain_write e path n d ?diff i w1 = (Inr (logical_info e info), journal_log e ''WRITE'' n None True None
               (if ?diff = 0 then w4 else add_quota e ?diff w4))"
            using out Inr by (simp add: w4_def)
          then show ?thesis
            unfolding run using stored(1) sz q gate fin w4 by simp
        qed
      qed
    qed
  qed
qed

lemma ey_target: "plain_target (ey_engine b) ''/f'' ''/f'' ''u/f'' (ey_world m)"
proof -
  have "validate_path (ey_engine b) ''/f'' = Inr ''/f''" "physical (ey_engine b) ''/f'' = Inr ''u/f''"
    by code_simp+
  moreover have "\<not> is_temp_path ''/f''" "\<not> is_thumbnail_cache_path ''/f''" "\<not> is_protected_blob_path ''/f''"
    "\<not> is_refresh_trigger ''/f''"
    by code_simp+
  ultimately show ?thesis by (simp add: plain_target_def check_maintenance_def is_user_under_maintenance_def)
qed

lemma write_contract_witness:
  "\<exists>info w'. write_impl (ey_engine (\<lambda>_. False)) ''/f'' ''xy'' (ey_world Map.empty) = (Inr info, w') \<and>
     op_read (map_op (\<lambda>_. False)) ''u/f'' (pl_primary (wd_pool w')) = Inr ''xy'' \<and> fi_size info = 2"
proof -
  let ?e = "ey_engine (\<lambda>_. False)" and ?w = "ey_world Map.empty"
  obtain info w' where run: "write_impl ?e ''/f'' ''xy'' ?w = (Inr info, w')"
  proof -
    have "(case fst (write_impl ?e ''/f'' ''xy'' ?w) of Inl _ \<Rightarrow> False | Inr _ \<Rightarrow> True)" by code_simp
    then show thesis using that by (cases "write_impl ?e ''/f'' ''xy'' ?w") (auto split: sum.splits)
  qed
  have skip: "\<not> should_skip_wal_for_write ?e ''/f'' (word_of_nat (length ''xy''))" by code_simp
  show ?thesis
    using write_contract[OF ey_target[of "\<lambda>_. False" Map.empty] _ _ _ _ _ _ skip] run
    by (simp add: lawful_map_op db_ok_def)
qed

section \<open>A streamed write and a pending one\<close>

text \<open>What the write cache still holds for a path, and will write to the storage when it is flushed.\<close>

definition pending_content :: "'p pool_env \<Rightarrow> string \<Rightarrow> 'p pool \<Rightarrow> string option" where
  "pending_content env p s =
     (case pl_write s of
        None \<Rightarrow> None
      | Some wc \<Rightarrow> (case lookup_entry p wc of None \<Rightarrow> None | Some en \<Rightarrow> read_blob_bytes (pv_wc env) (pe_blob en) wc))"

lemma pending_content_same: "pl_write s' = pl_write s \<Longrightarrow> pending_content env p s' = pending_content env p s"
  by (simp add: pending_content_def)

lemma pool_read_pending:
  assumes "pending_content env p s = Some d"
  shows "\<exists>i. fst (pool_read env clk p s) = Inr (d, i)"
proof -
  obtain wc en where "pl_write s = Some wc" "lookup_entry p wc = Some en" "read_blob_bytes (pv_wc env) (pe_blob en) wc = Some d"
    using assms by (auto simp: pending_content_def split: option.splits)
  then show ?thesis
    by (cases clk) (auto simp: pool_read_def cached_read_def with_write_cache_def pending_read_def lookup_entry_def
        read_blob_bytes_def split: prod.split pending_blob.splits)
qed

lemma pending_content_stat:
  "pending_content env p s = Some d \<Longrightarrow> \<exists>i. pool_pending_stat p s = Some i"
  by (auto simp: pending_content_def pool_pending_stat_def pending_stat_def split: option.splits)

lemma on_primary_write [simp]: "pl_write (snd (on_primary u s)) = pl_write s"
  by (simp add: on_primary_def split: prod.split)

lemma on_primary_keeps: "on_primary u s = (r, s') \<Longrightarrow> pl_write s' = pl_write s"
  by (metis on_primary_write snd_conv)

lemma append_chunks_write: "append_chunks env t cs s = (r, s') \<Longrightarrow> pl_write s' = pl_write s"
  by (induction env t cs s arbitrary: r s' rule: append_chunks.induct)
    (auto simp: st_bind_def dest!: on_primary_keeps split: prod.splits sum.splits)

lemma pool_write_stream_write: "pool_write_stream env p cs s = (r, s') \<Longrightarrow> pl_write s' = pl_write s"
  by (auto simp: pool_write_stream_def Let_def st_bind_def then_stat_def invalidate_read_cache_def
      dest!: on_primary_keeps append_chunks_write split: prod.splits sum.splits)

lemma index_written_pool: "index_written e i what n info w = (r, w') \<Longrightarrow> wd_pool w' = wd_pool w"
  by (auto simp: index_written_def dest!: upsert_frame split: prod.splits sum.splits)

lemma staged_write_keeps:
  assumes "staged_write e n p d initial i w = (r, w')"
  shows "pl_write (wd_pool w') = pl_write (wd_pool w)"
proof -
  let ?cs = "if d = [] then [] else [Inr d]"
  obtain q s where s: "pool_write_stream (eg_pool e) p ?cs (wd_pool w) = (q, s)" by fastforce
  note keep = pool_write_stream_write[OF s]
  have on: "on_pool (pool_write_stream (eg_pool e) p ?cs) w = (q, w\<lparr>wd_pool := s\<rparr>)" by (simp add: on_pool_def s)
  show ?thesis
    using assms keep unfolding staged_write_def on
    by (auto simp: Let_def dest!: index_written_pool split: sum.splits prod.splits if_splits)
qed

lemma logged_stream_keeps:
  assumes "logged_stream e n cs w = (Inr info, w')" and "\<not> is_temp_path n"
  shows "pl_write (wd_pool w') = pl_write (wd_pool w)"
proof -
  let ?w0 = "journal_log e ''WRITE_STREAM'' n None True None w"
  from assms(1) obtain w1 where m: "write_stream_internal e n cs ?w0 = (Inr info, w1)"
    and w': "w' = journal_log e ''WRITE_STREAM_FINISH'' n None True None w1"
    by (auto simp: logged_stream_def split: prod.splits sum.splits)
  have "pl_write (wd_pool w1) = pl_write (wd_pool ?w0)"
    using m assms(2)
    by (auto simp: write_stream_internal_def Let_def st_bind_def dest!: begin_wal_frame staged_write_keeps
        split: option.splits sum.splits prod.splits)
  then show ?thesis using w' by simp
qed

lemma read_pending:
  assumes "unprotected e" "validate_path e path = Inr n" "physical e n = Inr p" "\<not> is_temp_path n"
    and "pending_content (eg_pool e) p (wd_pool w) = Some d"
  shows "\<exists>i. fst (read_impl e path w) = Inr (d, i)"
proof -
  obtain j where st: "engine_pending_stat e n w = Some j"
    using pending_content_stat[OF assms(5)] assms(3,4) by (auto simp: engine_pending_stat_def)
  from pool_read_pending[OF assms(5)] obtain k s where r: "pool_read (eg_pool e) (eg_clk e) p (wd_pool w) = (Inr (d, k), s)"
    by (metis prod.collapse)
  show ?thesis
    using assms(2-4) unprotected_plan[OF assms(1), of n w] st r by (simp add: read_impl_def on_pool_def)
qed

text \<open>
  A streamed write neither flushes nor drops the pending entry of its path. When a small write to a file is
  still pending and a stream too long for the write cache then overwrites the file, the call succeeds, but every
  read goes on returning the older pending bytes, and those bytes are still queued for the storage.
\<close>

theorem stream_hidden_by_pending:
  assumes "unprotected e" "validate_path e path = Inr n" "physical e n = Inr p" "\<not> is_temp_path n" "\<not> is_refresh_trigger n"
    and pend: "pending_content (eg_pool e) p (wd_pool w) = Some old"
    and run: "write_stream_impl e path stream w = (Inr info, w')"
    and m: "write_cache_max_file_size (wd_pool w) = Some m" and long: "collect_stream (unat m) [] [] stream = StreamSpilled rest"
  shows "(\<exists>i. fst (read_impl e path w') = Inr (old, i)) \<and> pending_content (eg_pool e) p (wd_pool w') = Some old"
proof -
  have "\<exists>cs. logged_stream e n cs w = (Inr info, w')"
    using run assms(2,5) m long unprotected_plan[OF assms(1), of n w]
    by (auto simp: write_stream_impl_def split: sum.splits if_splits)
  then obtain cs where cs: "logged_stream e n cs w = (Inr info, w')" ..
  have "pending_content (eg_pool e) p (wd_pool w') = Some old"
    using pending_content_same[OF logged_stream_keeps[OF cs assms(4)], of "eg_pool e" p] pend by simp
  then show ?thesis using read_pending[OF assms(1-4)] by blast
qed

definition ey_stream :: "(vfs_error + string) list" where
  "ey_stream = [Inr ''abcdef'', Inr ''ghij'']"

lemma spilled_is_stream: "collect_stream m b cs stream = StreamSpilled rest \<Longrightarrow> rest = cs @ stream"
  by (induction m b cs stream rule: collect_stream.induct) (auto split: if_splits)

lemma long_stream_is_logged:
  assumes "unprotected e" "validate_path e path = Inr n" "\<not> is_refresh_trigger n" "check_maintenance e w = Inr ()"
    and "write_cache_max_file_size (wd_pool w) = Some m" and "collect_stream (unat m) [] [] stream = StreamSpilled stream"
  shows "write_stream_impl e path stream w = logged_stream e n stream w"
  using assms unprotected_plan[OF assms(1), of n w] by (simp add: write_stream_impl_def)

text \<open>A small write is pending when the stream arrives; in the end the old bytes are back in the storage.\<close>

lemma stream_hidden_by_pending_witness:
  "let e = ey_engine (\<lambda>_. False); w' = snd (write_stream_impl e ''/f'' ey_stream ey_pending) in
   pl_primary (wd_pool w') ''u/f'' = Some ''abcdefghij'' \<and> (\<exists>i. fst (read_impl e ''/f'' w') = Inr (''xy'', i)) \<and>
   pl_primary (wd_pool (snd (flush_pending_for_path e ''/f'' w'))) ''u/f'' = Some ''xy''"
proof -
  let ?e = "ey_engine (\<lambda>_. False)"
  define w' where "w' = snd (logged_stream ?e ''/f'' ey_stream ey_pending)"
  have paths: "validate_path ?e ''/f'' = Inr ''/f''" "physical ?e ''/f'' = Inr ''u/f''"
    "\<not> is_temp_path ''/f''" "\<not> is_refresh_trigger ''/f''" by code_simp+
  have pend: "pending_content (eg_pool ?e) ''u/f'' (wd_pool ey_pending) = Some ''xy''" by code_simp
  have lim: "write_cache_max_file_size (wd_pool ey_pending) = Some 9" by code_simp
  have long: "collect_stream (unat (9 :: u64)) [] [] ey_stream = StreamSpilled ey_stream" by code_simp
  have "check_maintenance ?e ey_pending = Inr ()" by code_simp
  note eq = long_stream_is_logged[OF ey_unprotected paths(1,4) this lim long]
  have "(case fst (logged_stream ?e ''/f'' ey_stream ey_pending) of Inl _ \<Rightarrow> False | Inr _ \<Rightarrow> True)" by code_simp
  then obtain info where run: "write_stream_impl ?e ''/f'' ey_stream ey_pending = (Inr info, w')"
    unfolding w'_def eq by (cases "logged_stream ?e ''/f'' ey_stream ey_pending") (auto split: sum.splits)
  have "pl_primary (wd_pool w') ''u/f'' = Some ''abcdefghij''" unfolding w'_def by code_simp
  moreover have "pl_primary (wd_pool (snd (flush_pending_for_path ?e ''/f'' w'))) ''u/f'' = Some ''xy''"
    unfolding w'_def by code_simp
  ultimately show ?thesis
    using stream_hidden_by_pending[OF ey_unprotected paths pend run lim long] run by simp
qed

section \<open>Writing at an offset\<close>

lemma splice_length: "length (splice c i d) = max (length c) (i + length d)"
  by (auto simp: splice_def Let_def)

lemma splice_nth:
  "j < max (length c) (i + length d) \<Longrightarrow>
   splice c i d ! j = (if i \<le> j \<and> j < i + length d then d ! (j - i) else if j < length c then c ! j else CHR 0x00)"
  by (auto simp: splice_def Let_def nth_append min_def)

text \<open>
  C9: A successful write at an offset to a plain target stores the old content with the bytes from the offset on
  replaced, in which everything before and after them is kept and a gap before the offset is filled with zeros.
  (The target is plain when the path is valid, is neither a temporary file, a thumbnail, a protected blob nor a
  refresh trigger, the user has no protected storage and is not under maintenance, and the pool has no write
  cache; its storage reads back what it wrote.) But the old content is what a read of the pool returns, and for
  such an unprotected file a read that fails, for whatever reason, counts as an empty file: the bytes of the file
  that were not written are lost, and the call reports success. A protected file is not covered: there only a
  missing file counts as empty.
\<close>

theorem write_at_contract:
  assumes target: "plain_target e path n p w" and law: "lawful_op (primary (eg_pool e)) {p}"
    and run: "write_at_impl e path offset d w = (Inr info, w')"
  shows "\<exists>old. op_read (primary (eg_pool e)) p (pl_primary (wd_pool w')) = Inr (splice old (unat offset) d) \<and>
    (case fst (pool_read (eg_pool e) (eg_clk e) p (wd_pool w)) of Inr (c, _) \<Rightarrow> old = c | Inl _ \<Rightarrow> old = []) \<and>
    length (splice old (unat offset) d) = max (length old) (unat offset + length d) \<and>
    (\<forall>j < max (length old) (unat offset + length d). splice old (unat offset) d ! j =
       (if unat offset \<le> j \<and> j < unat offset + length d then d ! (j - unat offset)
        else if j < length old then old ! j else CHR 0x00))"
proof -
  note t = target[unfolded plain_target_def]
  define old where "old = (case fst (pool_read (eg_pool e) (eg_clk e) p (wd_pool w)) of Inr (c, _) \<Rightarrow> c | Inl _ \<Rightarrow> [])"
  obtain r s where rd: "pool_read (eg_pool e) (eg_clk e) p (wd_pool w) = (r, s)" by fastforce
  have none: "pl_write s = None"
    using rd t by (cases "eg_clk e") (auto simp: pool_read_def cached_read_def with_write_cache_def Let_def
        split: option.splits prod.splits sum.splits)
  obtain x s' where wr: "pool_write (eg_pool e) p (splice old (unat offset) d) s = (x, s')" by fastforce
  have "\<exists>i. x = Inr i \<and> wd_pool w' = s'"
    using run rd wr t unprotected_plan[of e n w]
    by (auto simp: write_at_impl_def flush_nothing Let_def st_bind_def on_pool_def old_def
        dest!: begin_wal_frame index_written_pool split: sum.splits prod.splits if_splits)
  then have "op_read (primary (eg_pool e)) p (pl_primary (wd_pool w')) = Inr (splice old (unat offset) d)"
    using pool_write_stored[OF law none] wr by auto
  moreover have "case fst (pool_read (eg_pool e) (eg_clk e) p (wd_pool w)) of Inr (c, _) \<Rightarrow> old = c | Inl _ \<Rightarrow> old = []"
    by (simp add: old_def split: sum.split prod.split)
  ultimately show ?thesis using splice_length splice_nth by blast
qed

text \<open>A store whose reads fail while \<open>down\<close> exists; the next write brings it back.\<close>

definition ey_flaky :: "(string \<Rightarrow> string option) operator" where
  "ey_flaky = (map_op (\<lambda>_. False))
     \<lparr>op_read := (\<lambda>p st. if st ''down'' \<noteq> None then Inl (DalUnexpected, ''timeout'')
                          else case st p of None \<Rightarrow> Inl (DalNotFound, p) | Some d \<Rightarrow> Inr d),
      op_write := (\<lambda>p d st. (Inr (), st(p \<mapsto> d, ''down'' := None)))\<rparr>"

definition ey_flaky_engine :: "(string \<Rightarrow> string option) engine" where
  "ey_flaky_engine = (ey_engine (\<lambda>_. False))
     \<lparr>eg_pool := (ey_env (\<lambda>_. False))\<lparr>pv_wc := (pv_wc (ey_env (\<lambda>_. False)))\<lparr>we_op := ey_flaky\<rparr>\<rparr>\<rparr>"

lemma write_at_contract_witness:
  "let w = ey_world [''u/f'' \<mapsto> ''abcdef'', ''down'' \<mapsto> []] in
   \<exists>info w'. write_at_impl ey_flaky_engine ''/f'' 4 ''Z'' w = (Inr info, w') \<and>
     op_read ey_flaky ''u/f'' (pl_primary (wd_pool w')) = Inr (replicate 4 (CHR 0x00) @ ''Z'')"
proof -
  let ?w = "ey_world [''u/f'' \<mapsto> ''abcdef'', ''down'' \<mapsto> []]"
  have t: "plain_target ey_flaky_engine ''/f'' ''/f'' ''u/f'' ?w"
    using ey_target[of "\<lambda>_. False" "[''u/f'' \<mapsto> ''abcdef'', ''down'' \<mapsto> []]"]
    by (simp add: plain_target_def ey_flaky_engine_def validate_path_def physical_def check_maintenance_def unprotected_def)
  have op: "primary (eg_pool ey_flaky_engine) = ey_flaky" by (simp add: ey_flaky_engine_def)
  have law: "lawful_op ey_flaky {''u/f''}"
    by (simp add: lawful_op_def ey_flaky_def) (auto simp: map_op_def)
  obtain info w' where run: "write_at_impl ey_flaky_engine ''/f'' 4 ''Z'' ?w = (Inr info, w')"
  proof -
    have "(case fst (write_at_impl ey_flaky_engine ''/f'' 4 ''Z'' ?w) of Inl _ \<Rightarrow> False | Inr _ \<Rightarrow> True)" by code_simp
    then show thesis
      using that by (cases "write_at_impl ey_flaky_engine ''/f'' 4 ''Z'' ?w") (auto split: sum.splits)
  qed
  have "(case fst (pool_read (eg_pool ey_flaky_engine) (eg_clk ey_flaky_engine) ''u/f'' (wd_pool ?w)) of Inl _ \<Rightarrow> True | Inr _ \<Rightarrow> False)"
    by code_simp
  moreover have "splice [] (unat (4 :: u64)) ''Z'' = replicate 4 (CHR 0x00) @ ''Z''" by code_simp
  ultimately have "op_read ey_flaky ''u/f'' (pl_primary (wd_pool w')) = Inr (replicate 4 (CHR 0x00) @ ''Z'')"
    using write_at_contract[OF t law[folded op] run] by (auto simp: op split: sum.splits)
  then show ?thesis using run by (auto simp: Let_def)
qed

end
