(* ===== verification/Engine_Pages.thy ===== *)
theory Engine_Pages
  imports Engine_Trash
begin

text \<open>
  The reading operations of the scoped engine that return a part: a range of a file, a stream, a page of a listing
  (\<open>vfs/scoped/read.rs\<close>). A listing that is not answered by the index is sorted and cut in memory;
  \<open>lower\<close> is the lower-casing of the standard library's Unicode tables.
\<close>

section \<open>Parts of a file\<close>

text \<open>What a regular read starts with: the pending entry describes the file, or \<open>stat\<close> does.\<close>

definition info_for_read :: "'p engine \<Rightarrow> string \<Rightarrow> 'p world \<Rightarrow> vfs_error + vfs_file_info" where
  "info_for_read e n w = (case engine_pending_stat e n w of Some i \<Rightarrow> Inr i | None \<Rightarrow> stat_impl e n w)"

definition ranged_read ::
  "'p engine \<Rightarrow> string \<Rightarrow> (string \<Rightarrow> ('p, 'a) engine_call) \<Rightarrow> (string \<Rightarrow> vfs_file_info \<Rightarrow> 'a) \<Rightarrow>
   (string \<Rightarrow> ('p pool, vfs_error, 'a) call) \<Rightarrow> (vfs_file_info \<Rightarrow> 'a \<Rightarrow> 'a) \<Rightarrow> ('p, 'a) engine_call" where
  "ranged_read e path prot part stored describe w =
     (case validate_path e path of
        Inl err \<Rightarrow> (Inl err, w)
      | Inr n \<Rightarrow>
          if is_temp_path n then
            (res_bind (stat_impl e n w) (\<lambda>info.
             res_bind (temp_read e (temp_rel n) w) (\<lambda>data. Inr (part data info))), w)
          else case get_protected_plan e n w of
            Inl err \<Rightarrow> (Inl err, w)
          | Inr (Some _) \<Rightarrow> prot n w
          | Inr None \<Rightarrow>
              (case res_bind (info_for_read e n w) (\<lambda>info. res_bind (physical e n) (\<lambda>p. Inr (info, p))) of
                 Inl err \<Rightarrow> (Inl err, w)
               | Inr (info, p) \<Rightarrow>
                   (case on_pool (stored p) w of
                      (Inl err, w1) \<Rightarrow> (Inl err, w1)
                    | (Inr x, w1) \<Rightarrow> (Inr (describe info x), w1))))"

definition temp_range :: "u64 \<Rightarrow> u64 \<Rightarrow> string \<Rightarrow> vfs_file_info \<Rightarrow> string" where
  "temp_range start stop data info =
     (let len = (if stop \<le> start then 0 else min (sat_sub_u64 (fi_size info) start) (stop - start)) in
      take (unat len) (drop (unat start) data))"

definition read_range_impl :: "'p engine \<Rightarrow> string \<Rightarrow> u64 \<Rightarrow> u64 \<Rightarrow> ('p, string \<times> vfs_file_info) engine_call" where
  "read_range_impl e path start stop =
     ranged_read e path (\<lambda>n. po_read_range (eg_protected e) n start stop)
       (\<lambda>data info. (temp_range start stop data info, info))
       (\<lambda>p. pool_read_range (eg_pool e) (fst (eg_clk e)) p start stop)
       (\<lambda>info x. (fst x, info))"

text \<open>The pieces of a stream: the file system's for a temp file, here one piece, and none for an empty range.\<close>

definition temp_stream_range :: "u64 \<Rightarrow> u64 \<Rightarrow> string \<Rightarrow> vfs_file_info \<Rightarrow> (vfs_error + string) list" where
  "temp_stream_range start stop data info =
     (let remaining = sat_sub_u64 (fi_size info) start;
          len = (if stop = - 1 then remaining else min remaining (sat_sub_u64 stop start));
          piece = take (unat len) (drop (unat start) data) in
      if piece = [] then [] else [Inr piece])"

definition read_stream_range_impl ::
  "'p engine \<Rightarrow> string \<Rightarrow> u64 \<Rightarrow> u64 \<Rightarrow> ('p, (vfs_error + string) list \<times> vfs_file_info) engine_call" where
  "read_stream_range_impl e path start stop =
     ranged_read e path (\<lambda>n. po_read_stream_range (eg_protected e) n start stop)
       (\<lambda>data info. (temp_stream_range start stop data info, info))
       (\<lambda>p. read_stream_range (eg_pool e) (fst (eg_clk e)) p start stop)
       (\<lambda>info x. (fst x, info))"

definition metadata_impl :: "'p engine \<Rightarrow> string \<Rightarrow> 'p world \<Rightarrow> vfs_error + vfs_metadata" where
  "metadata_impl e path w =
     res_bind (validate_path e path) (\<lambda>n.
     res_bind (stat_impl e n w) (\<lambda>i.
       Inr \<lparr>vm_path = fi_path i, vm_is_dir = fi_is_dir i, vm_size = fi_size i, vm_modified = fi_modified i,
            vm_content_type = None, vm_etag = None\<rparr>))"

section \<open>Pages in memory\<close>

definition memory_page :: "int \<Rightarrow> int \<Rightarrow> 'a list \<Rightarrow> 'a list \<times> int" where
  "memory_page page page_size all =
     (take (nat (max page_size 0)) (drop (nat (max (page_offset page page_size) 0)) all), int (length all))"

definition sort_infos :: "string option \<Rightarrow> string option \<Rightarrow> vfs_file_info list \<Rightarrow> vfs_file_info list" where
  "sort_infos sort_by order is =
     (let is_desc = (order = Some ''desc'') in
      order_desc fi_is_dir
        (if sort_by = Some ''size'' then (if is_desc then order_desc else order_asc) fi_size is
         else if sort_by = Some ''modified'' \<or> sort_by = Some ''created_at''
         then (if is_desc then order_desc else order_asc) fi_modified is
         else if sort_by = Some ''path'' then (if is_desc then order_desc else order_asc) fi_path is
         else (if is_desc then order_desc else order_asc) fi_name is))"

definition keyword_in :: "(string \<Rightarrow> string) \<Rightarrow> string option \<Rightarrow> vfs_file_info \<Rightarrow> bool" where
  "keyword_in lower keyword i =
     (case keyword of
        None \<Rightarrow> True
      | Some kw \<Rightarrow> kw = [] \<or> find_sub (lower kw) (lower (fi_name i)) \<noteq> None \<or> find_sub (lower kw) (lower (fi_path i)) \<noteq> None)"

definition paginate_with_sort_in_memory ::
  "(string \<Rightarrow> string) \<Rightarrow> page_params \<Rightarrow> vfs_file_info list \<Rightarrow> vfs_file_info list \<times> int" where
  "paginate_with_sort_in_memory lower ps all =
     memory_page (pp_page ps) (pp_page_size ps)
       (sort_infos (pp_sort_by ps) (pp_order ps) (filter (keyword_in lower (pp_keyword ps)) all))"

section \<open>Listings by pages and streams\<close>

definition visible_page :: "index_row list \<times> int \<Rightarrow> vfs_file_info list \<times> int" where
  "visible_page x = (map file_info_of_row (filter (\<lambda>r. \<not> is_hidden_storage_path (ir_path r)) (fst x)), snd x)"

text \<open>Whether pending writes touch the directory, so that the index cannot answer for it.\<close>

definition has_pending :: "'p engine \<Rightarrow> string \<Rightarrow> 'p world \<Rightarrow> vfs_error + bool" where
  "has_pending e n w =
     res_bind (physical e n) (\<lambda>p. res_bind (engine_pending_children e n w) (\<lambda>pend.
       Inr (pend \<noteq> [] \<or> pool_is_dirty_dir p (wd_pool w))))"

definition listed_then ::
  "(vfs_file_info list \<Rightarrow> 'a) \<Rightarrow> ('p, vfs_file_info list) engine_call \<Rightarrow> ('p, 'a) engine_call" where
  "listed_then f m = st_bind m (\<lambda>is w. (Inr (f is), w))"

definition list_files_paginated_impl ::
  "'p engine \<Rightarrow> string \<Rightarrow> int \<Rightarrow> int \<Rightarrow> ('p, vfs_file_info list \<times> int) engine_call" where
  "list_files_paginated_impl e dir page page_size w =
     (case res_bind (validate_path e dir) (\<lambda>n. res_bind (get_protected_plan e n w) (\<lambda>plan. Inr (n, plan))) of
        Inl err \<Rightarrow> (Inl err, w)
      | Inr (n, plan) \<Rightarrow>
          (let from_index = asked_index e (\<lambda>db. visible_page (list_files_paginated (eg_user e) n page page_size db));
               from_list = listed_then (memory_page page page_size) (list_impl e n) in
           if plan \<noteq> None then (from_index w, w)
           else case has_pending e n w of
             Inl err \<Rightarrow> (Inl err, w)
           | Inr True \<Rightarrow> from_list w
           | Inr False \<Rightarrow>
               st_bind (execute_sync_decision e n) (\<lambda>_ w1.
                 case from_index w1 of
                   Inl err \<Rightarrow> (Inl err, w1)
                 | Inr (files, n_all) \<Rightarrow> if 0 < n_all then (Inr (files, n_all), w1) else from_list w1) w))"

definition list_files_paginated_with_sort_impl ::
  "(string \<Rightarrow> string) \<Rightarrow> 'p engine \<Rightarrow> string \<Rightarrow> page_params \<Rightarrow> ('p, vfs_file_info list \<times> int) engine_call" where
  "list_files_paginated_with_sort_impl lower e dir ps w =
     (case res_bind (validate_path e dir) (\<lambda>n. res_bind (get_protected_plan e n w) (\<lambda>plan. Inr (n, plan))) of
        Inl err \<Rightarrow> (Inl err, w)
      | Inr (n, plan) \<Rightarrow>
          (let from_index = asked_index e (\<lambda>db. infos_of (list_files_paginated_with_sort (eg_user e) n ps db));
               from_list = listed_then (paginate_with_sort_in_memory lower ps) (list_impl e n) in
           if plan \<noteq> None then (from_index w, w)
           else case has_pending e n w of
             Inl err \<Rightarrow> (Inl err, w)
           | Inr True \<Rightarrow> from_list w
           | Inr False \<Rightarrow>
               st_bind (execute_sync_decision e n) (\<lambda>fresh w1.
                 case fresh of
                   Some is \<Rightarrow> (Inr (paginate_with_sort_in_memory lower ps is), w1)
                 | None \<Rightarrow>
                     (case from_index w1 of
                        Inr (files, n_all) \<Rightarrow> if 0 < n_all then (Inr (files, n_all), w1) else from_list w1
                      | Inl _ \<Rightarrow> from_list w1)) w))"

text \<open>The stream of a listing, as the list of its items; an error before the first item is its only item.\<close>

definition list_stream_impl ::
  "'p engine \<Rightarrow> u64 \<Rightarrow> string \<Rightarrow> 'p world \<Rightarrow> (vfs_error + vfs_file_info) list \<times> 'p world" where
  "list_stream_impl e page_size path w =
     (let items = (\<lambda>x. case x of (Inl err, w1) \<Rightarrow> ([Inl err], w1) | (Inr is, w1) \<Rightarrow> (map Inr is, w1)) in
      case validate_path e path of
        Inl err \<Rightarrow> ([Inl err], w)
      | Inr n0 \<Rightarrow>
          (let n = index_path n0 in
           if is_temp_path n then items (list_impl e n w)
           else case get_protected_plan e n w of
             Inl err \<Rightarrow> ([Inl err], w)
           | Inr (Some _) \<Rightarrow> items (list_impl e n w)
           | Inr None \<Rightarrow>
               (case has_pending e n w of
                  Inl err \<Rightarrow> ([Inl err], w)
                | Inr True \<Rightarrow> items (list_impl e n w)
                | Inr False \<Rightarrow>
                    (case execute_sync_decision e n w of
                       (Inl err, w1) \<Rightarrow> ([Inl err], w1)
                     | (Inr (Some is), w1) \<Rightarrow> (map Inr is, w1)
                     | (Inr None, w1) \<Rightarrow>
                         items
                           (asked_index e (\<lambda>db. map file_info_of_row
                              (list_files_stream_with_page_size (eg_user e) n page_size db)) w1, w1)))))"

end
