(* ===== verification/Wal_Recovery_Claims.thy ===== *)
theory Wal_Recovery_Claims
  imports Engine_Example File_Index_Claims
begin

text \<open>
  What recovery promises: every row that was left open is replayed once and ends in a phase that says how it went,
  the other rows are not touched, and the users are served again afterwards. And what it does not keep: the index
  after a repaired move, and the used bytes of a user.
\<close>

section \<open>Replaying does not touch the journal\<close>

definition quiet :: "('p, 'a) recovery \<Rightarrow> bool" where
  "quiet m \<longleftrightarrow> (\<forall>w. wd_wal (snd (m w)) = wd_wal w \<and> wd_maint (snd (m w)) = wd_maint w)"

named_theorems quiet_calls

lemma quiet_bind [quiet_calls]: "quiet m \<Longrightarrow> (\<And>x. quiet (f x)) \<Longrightarrow> quiet (st_bind m f)"
  by (auto simp: quiet_def st_bind_def split: prod.splits sum.splits) (metis snd_conv)+

lemma quiet_if [quiet_calls]: "quiet m \<Longrightarrow> quiet k \<Longrightarrow> quiet (if b then m else k)"
  by simp

lemma quiet_basic [quiet_calls]: "quiet (ask f)" "quiet (settled x)" "quiet (refuse msg)"
  by (simp_all add: quiet_def ask_def settled_def refuse_def split: sum.split)

lemma quiet_index [quiet_calls]: "quiet (index_call e f)"
  by (simp add: quiet_def index_call_def on_index_of_def split: prod.split sum.split)

lemma quiet_pool [quiet_calls]: "quiet (pool_call f)"
  by (simp add: quiet_def pool_call_def on_pool_def split: prod.split sum.split)

lemma quiet_rows [quiet_calls]: "quiet (index_row_of e p)" "quiet (protected_root_for_path e p)"
  by (simp_all add: quiet_def index_row_of_def protected_root_for_path_def)

lemma quiet_pure [quiet_calls]: "quiet (\<lambda>w. (r, w))"
  by (simp add: quiet_def)

lemma quiet_domain [quiet_calls]: "quiet (in_same_domain e src dst)" "quiet (is_root_protected_path e p)"
  unfolding in_same_domain_def is_root_protected_path_def by (intro quiet_calls)+

lemma quiet_option [quiet_calls]: "(\<And>x. quiet (f x)) \<Longrightarrow> quiet g \<Longrightarrow> quiet (case z of Some x \<Rightarrow> f x | None \<Rightarrow> g)"
  by (simp split: option.split)

lemma quiet_steps [quiet_calls]:
  "quiet (cleanup_orphan_temp e p)" "quiet (physical_move_without_wal e src dst)" "quiet (sync_index_for_path e p)"
  "quiet (forget_index e p)" "quiet (recover_blob_row e p sz m msg)"
  unfolding cleanup_orphan_temp_def physical_move_without_wal_def sync_index_for_path_def forget_index_def
    recover_blob_row_def Let_def
  by (intro quiet_calls)+

lemma quiet_missing [quiet_calls]: "quiet (missing_blobs e cs)"
proof (induction cs)
  case (Cons c cs)
  have "quiet (st_bind (ask (\<lambda>w. pool_exists (eg_pool e) k (wd_pool w))) (\<lambda>there.
          st_bind (missing_blobs e cs) (\<lambda>ms w1. (Inr (if there then ms else ce_dst c # ms), w1))))" for k
    by (intro quiet_bind quiet_basic Cons quiet_pure)
  then show ?case
    using Cons by (cases "ce_key c") (simp_all add: quiet_def)
qed (simp add: quiet_def)

lemma quiet_rebuild [quiet_calls]: "quiet (rebuild_protected_copy_index e k cs)"
  by (induction cs arbitrary: k) (auto intro: quiet_calls)

lemma quiet_cleanup [quiet_calls]: "quiet (cleanup_protected_copy_index e cs)"
  by (induction cs) (auto intro: quiet_calls)

lemma quiet_presence [quiet_calls]: "quiet m \<Longrightarrow> quiet k \<Longrightarrow> quiet (by_presence e what src dst m k)"
  unfolding by_presence_def by (intro quiet_calls)

lemma quiet_protected [quiet_calls]: "quiet (recover_protected_write e p sz m st)" "quiet (recover_protected_copy e cs st)"
  unfolding recover_protected_write_def recover_protected_copy_def by (intro quiet_calls)+

lemma quiet_copy_target [quiet_calls]: "quiet (sync_index_for_copy_target e src dst)"
  unfolding sync_index_for_copy_target_def by (intro quiet_calls)

lemma quiet_bin [quiet_calls]: "quiet k \<Longrightarrow> quiet (recover_bin_move e what u src dst k st)"
  unfolding recover_bin_move_def by (intro quiet_calls)

lemma quiet_ops [quiet_calls]:
  "quiet (recover_write e p sz m st)" "quiet (recover_delete e p st)" "quiet (recover_copy e src dst pl st)"
  "quiet (recover_move e src dst st)" "quiet (recover_create_dir e p st)" "quiet (recover_move_to_trash e p q st)"
  "quiet (recover_restore_trash e p q st)"
  unfolding recover_write_def recover_delete_def recover_copy_def recover_move_def recover_create_dir_def
    recover_move_to_trash_def recover_restore_trash_def Let_def
  by (intro quiet_calls)+

lemma quiet_replay: "quiet (replay e op st)"
  by (cases op) (simp_all add: replay_def quiet_ops)

section \<open>One row\<close>

abbreviation log_of :: "'p site \<Rightarrow> wal_log" where
  "log_of s \<equiv> wd_wal (si_world s)"

abbreviation maint_of :: "'p site \<Rightarrow> maintenance" where
  "maint_of s \<equiv> wd_maint (si_world s)"

definition upd :: "int \<Rightarrow> (wal_row \<Rightarrow> wal_row) \<Rightarrow> wal_log \<Rightarrow> wal_log" where
  "upd i f l = l\<lparr>wal_rows := map (\<lambda>r. if wl_id r = i then f r else r) (wal_rows l)\<rparr>"

lemma update_upd: "update_rows_by_id True i f l = (Inr (), upd i f l)"
  by (simp add: update_rows_by_id_def upd_def)

lemma upd_upd: "(\<And>r. wl_id (f r) = wl_id r) \<Longrightarrow> upd i g (upd i f l) = upd i (g \<circ> f) l"
  by (simp add: upd_def comp_def)

lemma on_user_log:
  assumes "\<And>e. quiet (f e)" and "on_user ne up u f s = (r, s')"
  shows "log_of s' = log_of s \<and> maint_of s' = maint_of s"
proof -
  have "wd_wal w' = wd_wal w \<and> wd_maint w' = wd_maint w" if "f e w = (x, w')" for e w x w'
    using assms(1)[of e] that unfolding quiet_def by (metis snd_conv)
  then show ?thesis
    using assms(2) by (fastforce simp: on_user_def split: sum.splits prod.splits option.splits)
qed

lemma on_log_result:
  "on_log f s = (r, s') \<Longrightarrow> f (log_of s) = (x, l) \<Longrightarrow>
   log_of s' = l \<and> maint_of s' = maint_of s \<and> r = (case x of Inl err \<Rightarrow> Inl (db_text err) | Inr y \<Rightarrow> Inr y)"
  by (auto simp: on_log_def)

text \<open>A replay settles its row: completed exactly when it succeeded, recovering or failed otherwise.\<close>

definition settles :: "(wal_row \<Rightarrow> wal_row) \<Rightarrow> bool \<Rightarrow> bool" where
  "settles f good \<longleftrightarrow> (\<forall>r. wl_id (f r) = wl_id r \<and> wal_row_ok (f r) \<and> (wl_status (f r) = status_str Completed \<longleftrightarrow> good))"

lemma settles_phase: "(c \<noteq> None \<longleftrightarrow> st = Completed) \<Longrightarrow> settles (set_phase now (status_str st) reason c) (st = Completed)"
  by (auto simp: settles_def intro: set_phase_ok) (simp_all add: set_phase_def)

lemma settles_comp: "settles f a \<Longrightarrow> settles g b \<Longrightarrow> settles (g \<circ> f) b"
  by (simp add: settles_def)

lemma recover_one_effect:
  assumes "re_up env" "is_active (parse_status (wl_status row))" and run: "recover_one env row s = (res, s')"
  shows "\<exists>f. log_of s' = upd (wl_id row) f (log_of s) \<and> settles f (res = Inr ()) \<and> maint_of s' = maint_of s"
proof -
  let ?i = "wl_id row" and ?now = "re_now env" and ?st = "parse_status (wl_status row)"
  define f0 where "f0 = set_phase ?now (status_str WalRecovering) None None"
  have f0: "settles f0 False" unfolding f0_def using settles_phase[of None WalRecovering] by simp
  have mark: "mark_recovering (re_up env) ?now ?i l = (Inr (), upd ?i f0 l)" for l
    using assms(1) by (simp add: mark_recovering_def transition_operation_def update_upd f0_def)
  obtain r0 s1 where m: "on_log (mark_recovering (re_up env) ?now ?i) s = (r0, s1)" by fastforce
  have s1: "log_of s1 = upd ?i f0 (log_of s)" "maint_of s1 = maint_of s" "r0 = Inr ()"
    using on_log_result[OF m mark] by auto
  show ?thesis
  proof (cases "re_dec env (wl_data row)")
    case (Inl err)
    then have "res = Inl err" "s' = s1" using run assms(2) m s1(3) by (auto simp: recover_one_def Let_def)
    then show ?thesis using s1 f0 by (intro exI[of _ f0]) simp
  next
    case op: (Inr op)
    let ?f = "\<lambda>e w. (case replay e op ?st w of (r, w1) \<Rightarrow> (Inr r, w1))"
    have q: "quiet (?f e)" for e using quiet_replay[of e op ?st] by (auto simp: quiet_def split_beta)
    obtain x s2 where u: "on_user (re_engine env) (re_up env) (wl_user row) ?f s1 = (x, s2)" by fastforce
    note s2 = on_user_log[OF q u]
    have run: "(res, s') = (case x of
        Inl err \<Rightarrow> (Inl err, s2)
      | Inr (Inr _) \<Rightarrow> on_log (complete_operation (re_up env) ?now ?i) s2
      | Inr (Inl err) \<Rightarrow> (Inl err, snd (on_log (fail_operation (re_up env) ?now ?i err) s2)))"
      using run assms(2) m s1(3) op u by (simp add: recover_one_def Let_def split: sum.splits)
    define f1 where "f1 = set_phase ?now (status_str Completed) None (Some ?now)"
    define f2 where "f2 err = set_phase ?now (status_str Failed) (Some err) None" for err
    have f1: "settles f1 True" and f2: "settles (f2 err) False" for err
      unfolding f1_def f2_def using settles_phase[of "Some ?now" Completed] settles_phase[of None Failed] by simp_all
    have comp: "complete_operation (re_up env) ?now ?i l = (Inr (), upd ?i f1 l)"
      and fail: "fail_operation (re_up env) ?now ?i err l = (Inr (), upd ?i (f2 err) l)" for l err
      using assms(1) by (simp_all add: complete_operation_def fail_operation_def transition_operation_def update_upd f1_def f2_def)
    have two: "upd ?i g (log_of s2) = upd ?i (g \<circ> f0) (log_of s)" for g
      using s1(1) s2 f0 by (simp add: upd_upd settles_def)
    show ?thesis
    proof (cases x)
      case (Inl err)
      then show ?thesis using run s1 s2 f0 by (intro exI[of _ f0]) simp
    next
      case xr: (Inr y)
      show ?thesis
      proof (cases y)
        case (Inl err)
        obtain r3 s3 where l: "on_log (fail_operation (re_up env) ?now ?i err) s2 = (r3, s3)" by fastforce
        have "res = Inl err" "s' = s3" using run xr Inl l by simp_all
        then show ?thesis
          using on_log_result[OF l fail] two s1(2) s2 settles_comp[OF f0 f2]
          by (intro exI[of _ "f2 err \<circ> f0"]) simp
      next
        case (Inr z)
        then have l: "on_log (complete_operation (re_up env) ?now ?i) s2 = (res, s')" using run xr by simp
        show ?thesis
          using on_log_result[OF l comp] two s1(2) s2 settles_comp[OF f0 f1]
          by (intro exI[of _ "f1 \<circ> f0"]) simp
      qed
    qed
  qed
qed

section \<open>All rows\<close>

definition completed_in :: "int \<Rightarrow> wal_log \<Rightarrow> bool" where
  "completed_in i l \<longleftrightarrow> (\<exists>r \<in> set (wal_rows l). wl_id r = i \<and> wl_status r = status_str Completed)"

definition upds :: "int set \<Rightarrow> (wal_row \<Rightarrow> wal_row) \<Rightarrow> wal_log \<Rightarrow> wal_log" where
  "upds I F l = l\<lparr>wal_rows := map (\<lambda>r. if wl_id r \<in> I then F r else r) (wal_rows l)\<rparr>"

definition keeps_row :: "(wal_row \<Rightarrow> wal_row) \<Rightarrow> bool" where
  "keeps_row F \<longleftrightarrow> (\<forall>r. wl_id (F r) = wl_id r \<and> wal_row_ok (F r))"

lemma upds_upd:
  assumes "settles f b" and "i \<notin> I"
  shows "upds I F (upd i f l) = upds (insert i I) (\<lambda>r. if wl_id r = i then f r else F r) l"
  using assms by (auto simp: upds_def upd_def settles_def)

lemma completed_in_upds:
  assumes "settles f b" and "i \<notin> I" and "i \<in> wl_id ` set (wal_rows l)" and "keeps_row F"
  shows "completed_in i (upds (insert i I) (\<lambda>r. if wl_id r = i then f r else F r) l) \<longleftrightarrow> b"
  using assms by (auto simp: completed_in_def upds_def settles_def keeps_row_def)

lemma recover_rows_effect:
  assumes "re_up env" "\<forall>q \<in> set rows. is_active (parse_status (wl_status q))" "distinct (map wl_id rows)"
    and "wl_id ` set rows \<subseteq> wl_id ` set (wal_rows (log_of s))" and "recover_rows env rows res s = (res', s')"
  shows "\<exists>F. log_of s' = upds (wl_id ` set rows) F (log_of s) \<and> keeps_row F \<and> maint_of s' = maint_of s \<and>
    rr_recovered res' = rr_recovered res + length (filter (\<lambda>q. completed_in (wl_id q) (log_of s')) rows) \<and>
    rr_failed res' = rr_failed res + length (filter (\<lambda>q. \<not> completed_in (wl_id q) (log_of s')) rows) \<and>
    length (rr_errors res') + rr_failed res = length (rr_errors res) + rr_failed res' \<and> rr_users res' = rr_users res"
  using assms
proof (induction rows arbitrary: res s)
  case Nil
  then show ?case
    by (intro exI[of _ "\<lambda>r. r\<lparr>wl_status := status_str Failed, wl_completed := None\<rparr>"])
      (auto simp: upds_def keeps_row_def wal_row_ok_def)
next
  case (Cons row rows)
  let ?i = "wl_id row" and ?I = "wl_id ` set rows"
  obtain x s1 where one: "recover_one env row s = (x, s1)" by fastforce
  have act: "is_active (parse_status (wl_status row))" and i: "?i \<notin> ?I" using Cons.prems(2,3) by auto
  from recover_one_effect[OF Cons.prems(1) act one] obtain f
    where f: "log_of s1 = upd ?i f (log_of s)" "settles f (x = Inr ())" "maint_of s1 = maint_of s" by blast
  define res1 where "res1 = (case x of Inr _ \<Rightarrow> res\<lparr>rr_recovered := rr_recovered res + 1\<rparr>
    | Inl err \<Rightarrow> res\<lparr>rr_failed := rr_failed res + 1,
        rr_errors := rr_errors res @ [''Log '' @ re_num env ?i @ '': '' @ err]\<rparr>)"
  have rest: "recover_rows env rows res1 s1 = (res', s')"
    using Cons.prems(5) one by (simp add: res1_def split: sum.splits)
  have "map wl_id (wal_rows (log_of s1)) = map wl_id (wal_rows (log_of s))"
    using f(2) by (simp add: f(1) upd_def settles_def)
  then have ids: "wl_id ` set (wal_rows (log_of s1)) = wl_id ` set (wal_rows (log_of s))" by (metis list.set_map)
  have pre: "\<forall>q \<in> set rows. is_active (parse_status (wl_status q))" "distinct (map wl_id rows)"
    "?I \<subseteq> wl_id ` set (wal_rows (log_of s1))"
    using Cons.prems(2-4) ids by auto
  from Cons.IH[OF Cons.prems(1) pre rest] obtain F
    where F: "log_of s' = upds ?I F (log_of s1)" "keeps_row F" "maint_of s' = maint_of s1"
      and n: "rr_recovered res' = rr_recovered res1 + length (filter (\<lambda>q. completed_in (wl_id q) (log_of s')) rows)"
        "rr_failed res' = rr_failed res1 + length (filter (\<lambda>q. \<not> completed_in (wl_id q) (log_of s')) rows)"
        "length (rr_errors res') + rr_failed res1 = length (rr_errors res1) + rr_failed res'" "rr_users res' = rr_users res1"
    by blast
  let ?F = "\<lambda>r. if wl_id r = ?i then f r else F r"
  have log: "log_of s' = upds (insert ?i ?I) ?F (log_of s)"
    unfolding F(1) f(1) by (rule upds_upd[OF f(2) i])
  have done_row: "completed_in ?i (log_of s') \<longleftrightarrow> x = Inr ()"
    unfolding log using Cons.prems(4) by (intro completed_in_upds[OF f(2) i _ F(2)]) auto
  have kF: "keeps_row ?F" using F(2) f(2) by (simp add: keeps_row_def settles_def)
  have counts: "rr_recovered res' = rr_recovered res + length (filter (\<lambda>q. completed_in (wl_id q) (log_of s')) (row # rows)) \<and>
    rr_failed res' = rr_failed res + length (filter (\<lambda>q. \<not> completed_in (wl_id q) (log_of s')) (row # rows)) \<and>
    length (rr_errors res') + rr_failed res = length (rr_errors res) + rr_failed res' \<and> rr_users res' = rr_users res"
    using n done_row by (cases x) (simp_all add: res1_def)
  have "log_of s' = upds (wl_id ` set (row # rows)) ?F (log_of s)" using log by simp
  moreover have "maint_of s' = maint_of s" using F(3) f(3) by simp
  ultimately show ?case using kF counts by blast
qed

lemma recalibrate_quiet:
  "log_of (snd (recalibrate_storage_used env u s)) = log_of s \<and> maint_of (snd (recalibrate_storage_used env u s)) = maint_of s"
proof -
  have "quiet (st_bind (ask (get_recursive_size_impl e ''/'')) (\<lambda>total_used w.
         case update_user_settings_patch (re_up env) (re_now env) u (empty_patch\<lparr>pa_used := Some total_used\<rparr>) (wd_settings w) of
           (r, t) \<Rightarrow> ((case r of Inl err \<Rightarrow> Inl (db_text err) | Inr x \<Rightarrow> Inr x), w\<lparr>wd_settings := t\<rparr>)))" for e
    by (intro quiet_bind quiet_basic) (simp add: quiet_def split: prod.split)
  from on_user_log[OF this prod.collapse[symmetric]] show ?thesis unfolding recalibrate_storage_used_def .
qed

lemma recalibrate_all_quiet:
  "log_of (recalibrate_all env us s) = log_of s \<and> maint_of (recalibrate_all env us s) = maint_of s"
  unfolding recalibrate_all_def by (induction us arbitrary: s) (simp_all add: recalibrate_quiet)

lemma drop_guards_unlock:
  assumes "distinct us" "set us \<subseteq> set (live_guards m)"
  shows "set (locked_users (fold drop_guard us m)) = set (locked_users m) - set us"
  using assms
proof (induction us arbitrary: m)
  case (Cons u us)
  have "x \<in> set (live_guards (drop_guard u m))" if "x \<in> set us" for x
  proof -
    have "x \<noteq> u" "x \<in> set (live_guards m)" using that Cons.prems by auto
    then show ?thesis by (simp add: drop_guard_def)
  qed
  then have "set us \<subseteq> set (live_guards (drop_guard u m))" by blast
  then have "set (locked_users (fold drop_guard us (drop_guard u m))) = set (locked_users (drop_guard u m)) - set us"
    using Cons by simp
  moreover have "set (locked_users (drop_guard u m)) = set (locked_users m) - {u}"
    using Cons.prems(2) by (auto simp: drop_guard_def)
  ultimately show ?case by auto
qed simp

lemma enter_guards: "set us \<subseteq> set (live_guards (fold enter_user_maintenance us m))"
proof -
  have "set (live_guards (fold enter_user_maintenance us m)) = set us \<union> set (live_guards m)"
    by (induction us arbitrary: m) (auto simp: enter_user_maintenance_def)
  then show ?thesis by simp
qed

lemma pending_rows_wf:
  assumes "wal_wf l"
  shows "\<forall>q \<in> set (pending_rows l). is_active (parse_status (wl_status q))" "distinct (map wl_id (pending_rows l))"
    "wl_id ` set (pending_rows l) \<subseteq> wl_id ` set (wal_rows l)"
proof -
  have "is_active (parse_status (wl_status q))" if q: "q \<in> set (wal_rows l)" "wl_status q \<noteq> status_str Completed" for q
  proof -
    obtain st where "wl_status q = status_str st" using assms q(1) by (auto simp: wal_wf_def wal_row_ok_def)
    then show ?thesis using q(2) by (auto simp: is_active_def)
  qed
  then show "\<forall>q \<in> set (pending_rows l). is_active (parse_status (wl_status q))"
    by (auto simp: pending_rows_def order_asc_def)
  have "mset (map wl_id (pending_rows l)) = mset (map wl_id (filter (\<lambda>r. wl_status r \<noteq> status_str Completed) (wal_rows l)))"
    by (simp add: pending_rows_def order_asc_def)
  then have "distinct (map wl_id (pending_rows l)) \<longleftrightarrow>
      distinct (map wl_id (filter (\<lambda>r. wl_status r \<noteq> status_str Completed) (wal_rows l)))"
    by (rule mset_eq_imp_distinct_iff)
  then show "distinct (map wl_id (pending_rows l))" using assms by (simp add: wal_wf_def distinct_map_filter)
  show "wl_id ` set (pending_rows l) \<subseteq> wl_id ` set (wal_rows l)" by (auto simp: pending_rows_def order_asc_def)
qed

text \<open>What is still open after the pending rows were settled are those that did not complete.\<close>

lemma open_after:
  assumes wf: "wal_wf l" and l': "l' = upds (wl_id ` set (pending_rows l)) F l" and F: "keeps_row F"
  shows "length (pending_rows l') = length (filter (\<lambda>q. \<not> completed_in (wl_id q) l') (pending_rows l))"
proof -
  let ?C = "status_str Completed" and ?I = "wl_id ` set (pending_rows l)"
  let ?g = "\<lambda>r. if wl_id r \<in> ?I then F r else r"
  have inj: "r = q" if "r \<in> set (wal_rows l)" "q \<in> set (wal_rows l)" "wl_id r = wl_id q" for r q
    using wf that by (auto simp: wal_wf_def distinct_map inj_on_def)
  have mem: "wl_id r \<in> ?I \<longleftrightarrow> wl_status r \<noteq> ?C" if "r \<in> set (wal_rows l)" for r
    using inj[OF that] that by (auto simp: pending_rows_def order_asc_def)
  have rows: "wal_rows l' = map ?g (wal_rows l)" by (simp add: l' upds_def)
  have id: "wl_id (?g r) = wl_id r" for r using F by (simp add: keeps_row_def)
  have fin: "completed_in (wl_id r) l' \<longleftrightarrow> wl_status (?g r) = ?C" if r: "r \<in> set (wal_rows l)" for r
  proof
    assume "completed_in (wl_id r) l'"
    then obtain q where q: "q \<in> set (wal_rows l)" "wl_id (?g q) = wl_id r" "wl_status (?g q) = ?C"
      by (auto simp: completed_in_def rows)
    then have "q = r" using inj[OF q(1) r] id[of q] by simp
    show "wl_status (?g r) = ?C" using q(3) unfolding \<open>q = r\<close> .
  next
    assume "wl_status (?g r) = ?C"
    then show "completed_in (wl_id r) l'"
      using r id[of r] unfolding completed_in_def rows by (intro bexI[of _ "?g r"]) simp_all
  qed
  have "length (pending_rows l') = length (filter (\<lambda>r. wl_status (?g r) \<noteq> ?C) (wal_rows l))"
    by (simp add: pending_rows_def order_asc_def rows filter_map comp_def)
  also have "filter (\<lambda>r. wl_status (?g r) \<noteq> ?C) (wal_rows l) =
      filter (\<lambda>q. \<not> completed_in (wl_id q) l') (filter (\<lambda>r. wl_status r \<noteq> ?C) (wal_rows l))"
    unfolding filter_filter using fin mem by (intro filter_cong) auto
  also have "length \<dots> = length (filter (\<lambda>q. \<not> completed_in (wl_id q) l') (pending_rows l))"
    by (simp add: pending_rows_def order_asc_def filter_sort flip: size_mset)
  finally show ?thesis .
qed

lemma on_maintenance_parts [simp]:
  "log_of (on_maintenance f s) = log_of s" "maint_of (on_maintenance f s) = f (maint_of s)"
  by (simp_all add: on_maintenance_def)

lemma upds_wf:
  assumes "wal_wf l" and "keeps_row F"
  shows "wal_wf (upds I F l) \<and> map wl_id (wal_rows (upds I F l)) = map wl_id (wal_rows l)"
proof -
  have ids: "map wl_id (wal_rows (upds I F l)) = map wl_id (wal_rows l)"
    using assms(2) by (simp add: upds_def keeps_row_def)
  moreover have "\<forall>r \<in> set (wal_rows (upds I F l)). wl_id r < wal_next (upds I F l) \<and> wal_row_ok r"
    using assms by (auto simp: upds_def keeps_row_def wal_wf_def)
  ultimately show ?thesis using assms(1) by (simp add: wal_wf_def)
qed

text \<open>
  C19: A recovery replays every open row of the journal exactly once and accounts for it: the counts of recovered
  and failed rows add up to the rows that were open, there is one error text for each failure, and what is still
  open afterwards are exactly the failures, so a run without failures leaves an empty backlog. Rows that were
  completed are not touched, the journal stays well-formed, and none of the users is left in maintenance mode,
  whatever the storage, the index or the settings did. No row is added, lost or renamed: a row that was recovered
  stays in the table as a completed one. (README 4.3, step 4, says that the record is deleted after success; the
  code only sets its status.) The journal is well-formed before and its database answers for the whole run.
\<close>

theorem recover_all_settles:
  assumes "re_up env" and wf: "wal_wf (log_of s)" and run: "recover_all env s = (Inr res, s')"
  shows "rr_recovered res + rr_failed res = length (pending_rows (log_of s)) \<and>
    length (rr_errors res) = rr_failed res \<and> rr_failed res = length (pending_rows (log_of s')) \<and>
    map wl_id (wal_rows (log_of s')) = map wl_id (wal_rows (log_of s)) \<and> wal_wf (log_of s') \<and>
    (\<forall>r \<in> set (wal_rows (log_of s)). wl_status r = status_str Completed \<longrightarrow> r \<in> set (wal_rows (log_of s'))) \<and>
    (\<forall>r \<in> set (pending_rows (log_of s)). \<not> is_user_under_maintenance (wl_user r) (maint_of s'))"
proof (cases "pending_rows (log_of s) = []")
  case True
  then have "s' = s" "rr_recovered res = 0" "rr_failed res = 0" "rr_errors res = []"
    using run assms(1) by (auto simp: recover_all_def Let_def)
  then show ?thesis using True wf by simp
next
  case False
  let ?rows = "pending_rows (log_of s)"
  let ?users = "rev (remdups (rev (map wl_user ?rows)))"
  let ?start = "\<lparr>rr_recovered = 0, rr_failed = 0, rr_errors = [], rr_users = ?users\<rparr>"
  let ?s0 = "on_maintenance (fold enter_user_maintenance ?users) s"
  obtain r1 s1 where rr: "recover_rows env ?rows ?start ?s0 = (r1, s1)" by fastforce
  define s2 where "s2 = (if rr_failed r1 = 0 then recalibrate_all env ?users s1 else s1)"
  have out: "res = r1" "s' = on_maintenance (fold drop_guard ?users) s2"
    using run assms(1) False rr by (auto simp: recover_all_def Let_def s2_def)
  note pr = pending_rows_wf[OF wf]
  have ids: "wl_id ` set ?rows \<subseteq> wl_id ` set (wal_rows (log_of ?s0))" using pr(3) by simp
  from recover_rows_effect[OF assms(1) pr(1,2) ids rr] obtain F
    where F: "log_of s1 = upds (wl_id ` set ?rows) F (log_of ?s0)" "keeps_row F" "maint_of s1 = maint_of ?s0"
      and n: "rr_recovered r1 = rr_recovered ?start + length (filter (\<lambda>q. completed_in (wl_id q) (log_of s1)) ?rows)"
        "rr_failed r1 = rr_failed ?start + length (filter (\<lambda>q. \<not> completed_in (wl_id q) (log_of s1)) ?rows)"
        "length (rr_errors r1) + rr_failed ?start = length (rr_errors ?start) + rr_failed r1"
    by blast
  have s2: "log_of s2 = log_of s1" "maint_of s2 = maint_of s1" by (simp_all add: s2_def recalibrate_all_quiet)
  have log': "log_of s' = upds (wl_id ` set ?rows) F (log_of s)" using F(1) s2 out by simp
  have total: "rr_recovered res + rr_failed res = length ?rows"
    unfolding out(1) using n(1,2) sum_length_filter_compl[of "\<lambda>q. completed_in (wl_id q) (log_of s1)" ?rows] by simp
  have still_open: "rr_failed res = length (pending_rows (log_of s'))"
    using open_after[OF wf log' F(2)] n(2) out s2 by simp
  have "r \<in> set (wal_rows (log_of s'))" if r: "r \<in> set (wal_rows (log_of s))" "wl_status r = status_str Completed" for r
  proof -
    have "wl_id r \<notin> wl_id ` set ?rows"
      using wf r by (auto simp: wal_wf_def distinct_map inj_on_def pending_rows_def order_asc_def)
    then show ?thesis using r(1) unfolding log' upds_def by force
  qed
  moreover have "\<not> is_user_under_maintenance (wl_user r) (maint_of s')" if "r \<in> set ?rows" for r
  proof -
    have "set ?users \<subseteq> set (live_guards (maint_of s2))" using enter_guards[of ?users "maint_of s"] s2 F(3) by simp
    then have "set (locked_users (maint_of s')) = set (locked_users (maint_of s2)) - set ?users"
      unfolding out(2) on_maintenance_parts by (intro drop_guards_unlock) simp_all
    then show ?thesis using that by (simp add: is_user_under_maintenance_def)
  qed
  ultimately show ?thesis using total still_open n(3) out(1) upds_wf[OF wf F(2)] log' by simp
qed

text \<open>A crash left two open rows, one of which cannot be decoded, and a completed one.\<close>

definition ry_row :: "int \<Rightarrow> wal_status \<Rightarrow> string \<Rightarrow> wal_row" where
  "ry_row i st data =
     \<lparr>wl_id = i, wl_user = ''u'', wl_type = ''DELETE'', wl_data = data, wl_status = status_str st, wl_reason = None,
      wl_created = 1, wl_updated = 1, wl_completed = (if st = Completed then Some 1 else None)\<rparr>"

definition ry_site :: "(string \<Rightarrow> string option) site" where
  "ry_site =
     \<lparr>si_hub = \<lparr>hb_pools = [(''p'', ey_pool Map.empty)], hb_policies = [], hb_default = None, hb_settings_cache = []\<rparr>,
      si_world = (ey_world Map.empty)\<lparr>wd_wal :=
        \<lparr>wal_rows = [ry_row 1 PhysicalDone ''/f'', ry_row 2 Completed ''/g'', ry_row 3 PhysicalDone ''?''], wal_next = 4\<rparr>\<rparr>\<rparr>"

definition ry_env :: "(string \<Rightarrow> string option) recovery_env" where
  "ry_env =
     \<lparr>re_up = True, re_now = 9, re_dec = (\<lambda>d. if d = ''?'' then Inl ''bad json'' else Inr (WalDelete d)),
      re_engine = (\<lambda>u name. Inr (ey_engine (\<lambda>_. False))), re_num = (\<lambda>i. if i = 3 then ''3'' else ''n'')\<rparr>"

lemma ry_wf: "wal_wf (log_of ry_site)"
proof -
  have "wal_row_ok (ry_row i st d)" for i st d by (auto simp: wal_row_ok_def ry_row_def)
  then show ?thesis by (simp add: wal_wf_def ry_site_def) (simp add: ry_row_def)
qed

definition ry_locked :: "(string \<Rightarrow> string option) site" where
  "ry_locked = on_maintenance (fold enter_user_maintenance [''u'']) ry_site"

definition ry_marked :: "(string \<Rightarrow> string option) site" where
  "ry_marked = snd (on_log (mark_recovering True 9 1) ry_locked)"

definition ry_replay :: "(string \<Rightarrow> string option) engine \<Rightarrow> (string \<Rightarrow> string option, string + unit) recovery" where
  "ry_replay e w = (case replay e (WalDelete ''/f'') PhysicalDone w of (r, w1) \<Rightarrow> (Inr r, w1))"

lemma ry_first: "fst (recover_one ry_env (ry_row 1 PhysicalDone ''/f'') ry_locked) = Inr ()"
proof -
  let ?r = "ry_row 1 PhysicalDone ''/f''"
  let ?u = "on_user (re_engine ry_env) True ''u'' ry_replay ry_marked"
  have "fst (on_log (mark_recovering True 9 1) ry_locked) = Inr ()" by code_simp
  then have mark: "on_log (mark_recovering True 9 1) ry_locked = (Inr (), ry_marked)" by (simp add: ry_marked_def prod_eq_iff)
  have "fst ?u = Inr (Inr ())" by code_simp
  then have user: "?u = (Inr (Inr ()), snd ?u)" by (simp add: prod_eq_iff)
  have fin: "fst (on_log (complete_operation True 9 1) (snd ?u)) = Inr ()" by code_simp
  have acc: "re_up ry_env" "re_now ry_env = 9" "re_dec ry_env ''/f'' = Inr (WalDelete ''/f'')"
    by (simp_all add: ry_env_def)
  have row: "wl_id ?r = 1" "wl_user ?r = ''u''" "wl_data ?r = ''/f''" "parse_status (wl_status ?r) = PhysicalDone"
    by (simp_all add: ry_row_def parse_status_str)
  have fold: "(\<lambda>e w. case replay e (WalDelete ''/f'') PhysicalDone w of (r, w1) \<Rightarrow> (Inr r, w1)) = ry_replay"
    by (intro ext) (simp add: ry_replay_def)
  have "recover_one env r s = on_log (complete_operation (re_up env) (re_now env) (wl_id r)) s2"
    if "parse_status (wl_status r) = st" "is_active st" "on_log (mark_recovering (re_up env) (re_now env) (wl_id r)) s = (Inr x, s1)"
      "re_dec env (wl_data r) = Inr op"
      "on_user (re_engine env) (re_up env) (wl_user r) (\<lambda>e w. case replay e op st w of (r, w1) \<Rightarrow> (Inr r, w1)) s1 = (Inr (Inr y), s2)"
    for env :: "(string \<Rightarrow> string option) recovery_env" and r s st x y s1 op s2
    using that by (simp add: recover_one_def st_bind_def)
  from this[of ?r PhysicalDone ry_env ry_locked] show ?thesis
    using mark user fin acc row fold by (simp add: is_active_def)
qed

lemma ry_second: "\<exists>err. fst (recover_one ry_env (ry_row 3 PhysicalDone ''?'') s) = Inl err"
  by (auto simp: recover_one_def ry_row_def ry_env_def st_bind_def Let_def is_active_def split: prod.splits sum.splits)

lemma ry_rows: "pending_rows (log_of ry_site) = [ry_row 1 PhysicalDone ''/f'', ry_row 3 PhysicalDone ''?'']"
  by code_simp

lemma ry_run: "\<exists>res s'. recover_all ry_env ry_site = (Inr res, s') \<and> rr_recovered res = 1 \<and> rr_failed res = 1"
proof -
  obtain s1 where one: "recover_one ry_env (ry_row 1 PhysicalDone ''/f'') ry_locked = (Inr (), s1)"
    using ry_first by (metis prod.collapse)
  then have one': "recover_one ry_env (ry_row 1 PhysicalDone ''/f'') (on_maintenance (enter_user_maintenance ''u'') ry_site) = (Inr (), s1)"
    by (simp add: ry_locked_def)
  obtain err s2 where two: "recover_one ry_env (ry_row 3 PhysicalDone ''?'') s1 = (Inl err, s2)"
    using ry_second by (metis prod.collapse)
  have users: "rev (remdups (rev (map wl_user (pending_rows (log_of ry_site))))) = [''u'']"
    unfolding ry_rows by (simp add: ry_row_def)
  have up: "re_up ry_env" by (simp add: ry_env_def)
  show ?thesis
    unfolding recover_all_def Let_def users unfolding ry_rows
    by (simp add: up one' two)
qed

lemma recover_all_settles_witness:
  "\<exists>res s'. recover_all ry_env ry_site = (Inr res, s') \<and> rr_recovered res = 1 \<and> rr_failed res = 1 \<and>
     length (pending_rows (log_of s')) = 1 \<and> \<not> is_user_under_maintenance ''u'' (maint_of s')"
proof -
  obtain res s' where run: "recover_all ry_env ry_site = (Inr res, s')" and res: "rr_recovered res = 1" "rr_failed res = 1"
    using ry_run by blast
  have mem: "ry_row 1 PhysicalDone ''/f'' \<in> set (pending_rows (log_of ry_site))" unfolding ry_rows by simp
  have usr: "wl_user (ry_row 1 PhysicalDone ''/f'') = ''u''" by (simp add: ry_row_def)
  have up: "re_up ry_env" by (simp add: ry_env_def)
  note f = recover_all_settles[OF up ry_wf run]
  have len: "length (pending_rows (log_of s')) = 1" using f[THEN conjunct2, THEN conjunct2, THEN conjunct1] res by simp
  have "\<not> is_user_under_maintenance ''u'' (maint_of s')"
    using f[THEN conjunct2, THEN conjunct2, THEN conjunct2, THEN conjunct2, THEN conjunct2, THEN conjunct2] mem usr by metis
  then show ?thesis using run res len by blast
qed

section \<open>What recovery does not keep\<close>

text \<open>
  Recovery of a move that had not started moves the file in the storage but leaves the index alone: when the
  source exists and the destination does not, the replay succeeds, so the row is completed and will not be looked
  at again, while the index still describes the file under its old path.
\<close>

theorem recovered_move_not_indexed:
  assumes "fst (protected_root_for_path e src w) = Inr None" and "\<not> has_physical_done st"
    and "exists_impl e src w = Inr True" "exists_impl e dst w = Inr False"
    and run: "replay e (WalMove src dst) st w = (Inr (), w')"
  shows "wd_index w' = wd_index w \<and>
    (\<exists>info. pool_move_file (eg_pool e) (to_physical_user_path (eg_user e) src) (to_physical_user_path (eg_user e) dst)
       (wd_pool w) = (Inr info, wd_pool w'))"
proof -
  have m: "\<not> has_metadata_done st"
    using assms(2) by (auto simp: has_physical_done_def has_metadata_done_def)
  have p: "protected_root_for_path e src w = (Inr None, w)"
    using assms(1) by (simp add: protected_root_for_path_def)
  obtain r where "protected_root_for_path e dst w = (r, w)" by (simp add: protected_root_for_path_def)
  then have "physical_move_without_wal e src dst w = (Inr (), w')"
    using run p m assms(2-4)
    by (cases r) (simp_all add: replay_def recover_move_def in_same_domain_def st_bind_def by_presence_def ask_def Let_def)
  then show ?thesis
    by (auto simp: physical_move_without_wal_def pool_call_def on_pool_def split: prod.splits sum.splits)
qed

lemma recovered_move_not_indexed_witness:
  "let e = ey_engine (\<lambda>_. False); w = ey_world [''u/a'' \<mapsto> ''x''] in
   \<exists>w'. replay e (WalMove ''/a'' ''/b'') WalPending w = (Inr (), w') \<and> pl_primary (wd_pool w') ''u/b'' = Some ''x'' \<and>
     wd_index w' = wd_index w"
proof -
  let ?e = "ey_engine (\<lambda>_. False)" and ?w = "ey_world [''u/a'' \<mapsto> ''x'']"
  define w' where "w' = snd (replay ?e (WalMove ''/a'' ''/b'') WalPending ?w)"
  have "fst (replay ?e (WalMove ''/a'' ''/b'') WalPending ?w) = Inr ()" by code_simp
  then have run: "replay ?e (WalMove ''/a'' ''/b'') WalPending ?w = (Inr (), w')" by (simp add: w'_def prod_eq_iff)
  have ex: "exists_impl ?e ''/a'' ?w = Inr True" "exists_impl ?e ''/b'' ?w = Inr False"
    "fst (protected_root_for_path ?e ''/a'' ?w) = Inr None" "\<not> has_physical_done WalPending"
    by code_simp+
  have "pl_primary (wd_pool w') ''u/b'' = Some ''x''" unfolding w'_def by code_simp
  then show ?thesis using recovered_move_not_indexed[OF ex(3,4,1,2) run] run by (auto simp: Let_def)
qed

text \<open>
  After a recovery without failures the used bytes of every affected user are recomputed as the total size
  below the root, and that total is always zero: the query looks for the path \<open>/\<close> itself and for paths that start
  with two slashes, and an index of valid paths has neither. So the recalibration books the user down to zero,
  and the quota no longer counts what is stored.
\<close>

theorem recalibration_forgets_usage:
  assumes paths: "\<forall>r \<in> set (db_files (wd_index (si_world s))). ir_path r \<noteq> ''/'' \<and> \<not> starts_with (ir_path r) ''//''"
    and eng: "\<And>name e. re_engine env u name = Inr e \<Longrightarrow> eg_user e = u"
    and row: "get_user_settings u (wd_settings (si_world s)) = Some st"
    and run: "recalibrate_storage_used env u s = (Inr (), s')"
  shows "get_user_settings u (wd_settings (si_world s')) = Some (st\<lparr>st_used := 0, st_updated := re_now env\<rparr>)"
proof -
  have zero: "get_total_size u ''/'' (wd_index (si_world s)) = 0"
  proof -
    have fold: "lower_char slash = lower_char c \<longleftrightarrow> c = slash" for c by (metis lower_char_marks(1))
    have "\<not> same_path u ''/'' r \<and> \<not> below u ''/'' r" if "r \<in> set (db_files (wd_index (si_world s)))" for r
      using paths that below_folds[of "''/''" u r]
      by (cases "ir_path r"; cases "tl (ir_path r)")
        (auto simp: same_path_def like_free_def to_ascii_lowercase_def fold)
    then show ?thesis by (simp add: get_total_size_def cong: filter_cong)
  qed
  let ?body = "\<lambda>e. st_bind (ask (get_recursive_size_impl e ''/'')) (\<lambda>total_used w.
         case update_user_settings_patch (re_up env) (re_now env) u (empty_patch\<lparr>pa_used := Some total_used\<rparr>) (wd_settings w) of
           (r, t) \<Rightarrow> ((case r of Inl err \<Rightarrow> Inl (db_text err) | Inr x \<Rightarrow> Inr x), w\<lparr>wd_settings := t\<rparr>))"
  from run obtain name e p w where e: "re_engine env u name = Inr e"
    and w: "?body e ((si_world s)\<lparr>wd_pool := p\<rparr>) = (Inr (), w)" "si_world s' = w"
    by (auto simp: recalibrate_storage_used_def on_user_def split: sum.splits prod.splits option.splits)
  have "eg_up_index e"
    using w(1) by (auto simp: st_bind_def ask_def get_recursive_size_impl_def asked_index_def split: if_splits)
  then have "wd_settings w = snd (update_user_settings_patch (re_up env) (re_now env) u
      (empty_patch\<lparr>pa_used := Some 0\<rparr>) (wd_settings (si_world s))) \<and> re_up env"
    using w(1) zero eng[OF e]
    by (auto simp: st_bind_def ask_def get_recursive_size_impl_def asked_index_def update_user_settings_patch_def
        update_settings_def split: prod.splits sum.splits if_splits)
  moreover have "apply_patch now (empty_patch\<lparr>pa_used := Some 0\<rparr>) q = q\<lparr>st_used := 0, st_updated := now\<rparr>" for now q
    by (simp add: apply_patch_def empty_patch_def set_col_def)
  ultimately show ?thesis
    using row w(2) by (simp add: update_user_settings_patch_def update_settings_def get_user_settings_map)
qed

text \<open>A user with one file of seven bytes, all of them booked.\<close>

definition rz_site :: "(string \<Rightarrow> string option) site" where
  "rz_site =
     (let w = ey_world Map.empty;
          f = snd (upsert_file True ''id'' 1 ''u'' ''/f'' (plain_info ''f'' ''/f'' False 7 (Some 1)) (wd_index w));
          t = map (\<lambda>r. r\<lparr>st_used := 7\<rparr>) (wd_settings w) in
      ry_site\<lparr>si_world := w\<lparr>wd_index := f, wd_settings := t\<rparr>\<rparr>)"

lemma recalibration_forgets_usage_witness:
  "\<exists>s'. recalibrate_storage_used ry_env ''u'' rz_site = (Inr (), s') \<and>
     map ir_size (db_files (wd_index (si_world rz_site))) = [7] \<and>
     map_option st_used (get_user_settings ''u'' (wd_settings (si_world rz_site))) = Some 7 \<and>
     map_option st_used (get_user_settings ''u'' (wd_settings (si_world s'))) = Some 0"
proof -
  have paths: "\<forall>r \<in> set (db_files (wd_index (si_world rz_site))). ir_path r \<noteq> ''/'' \<and> \<not> starts_with (ir_path r) ''//''"
    by code_simp
  have size: "map ir_size (db_files (wd_index (si_world rz_site))) = [7]" by code_simp
  have used: "map_option st_used (get_user_settings ''u'' (wd_settings (si_world rz_site))) = Some 7" by code_simp
  have eng: "re_engine ry_env u name = Inr e \<Longrightarrow> eg_user e = ''u''" for u name e by (auto simp: ry_env_def)
  obtain st where row: "get_user_settings ''u'' (wd_settings (si_world rz_site)) = Some st" using used by auto
  have "fst (recalibrate_storage_used ry_env ''u'' rz_site) = Inr ()" by code_simp
  then have run: "recalibrate_storage_used ry_env ''u'' rz_site = (Inr (), snd (recalibrate_storage_used ry_env ''u'' rz_site))"
    by (simp add: prod_eq_iff)
  show ?thesis
    using run size used recalibration_forgets_usage[OF paths eng row run] by auto
qed

end
