(* ===== verification/Move_Locks.thy ===== *)
theory Move_Locks
  imports Maintenance Engine_Ops
begin

text \<open>
  The locks of \<open>move_file_impl\<close> (\<open>vfs/scoped/write.rs\<close>). A move locks the directory of its source, then the
  directory of its destination if that is another one, and keeps both until it returns. The mutexes are those of
  \<open>DirectorySyncGuards\<close>, one per user and directory, so a directory stands for its mutex here. The state is
  the list of the moves under way, each with the locks it asks for in order and how many of them it has.
\<close>

section \<open>Locks\<close>

definition move_locks :: "string \<Rightarrow> string \<Rightarrow> string list" where
  "move_locks src dst =
     (let src_parent = parent_path src; dst_parent = parent_path dst in
      if dst_parent \<noteq> src_parent then [src_parent, dst_parent] else [src_parent])"

type_synonym mover = "string list \<times> nat"

definition holds :: "mover \<Rightarrow> string set" where
  "holds m = set (take (snd m) (fst m))"

definition is_held :: "mover list \<Rightarrow> string \<Rightarrow> bool" where
  "is_held ms l \<longleftrightarrow> (\<exists>m \<in> set ms. l \<in> holds m)"

definition start_moves :: "(string \<times> string) list \<Rightarrow> mover list" where
  "start_moves moves = map (\<lambda>(src, dst). (move_locks src dst, 0)) moves"

text \<open>A move that has returned has dropped its guards: it asks for nothing any more.\<close>

definition returned :: mover where
  "returned = ([], 0)"

definition all_returned :: "mover list \<Rightarrow> bool" where
  "all_returned ms \<longleftrightarrow> (\<forall>m \<in> set ms. m = returned)"

inductive lock_step :: "mover list \<Rightarrow> mover list \<Rightarrow> bool" where
  lock: "i < length ms \<Longrightarrow> ms ! i = (ls, n) \<Longrightarrow> n < length ls \<Longrightarrow> \<not> is_held ms (ls ! n) \<Longrightarrow>
    lock_step ms (ms[i := (ls, Suc n)])"
| return: "i < length ms \<Longrightarrow> ms ! i = (ls, length ls) \<Longrightarrow> ls \<noteq> [] \<Longrightarrow> lock_step ms (ms[i := returned])"

inductive_cases lock_stepE: "lock_step ms ms'"

section \<open>Moves along one order\<close>

definition in_order :: "(string \<Rightarrow> nat) \<Rightarrow> mover \<Rightarrow> bool" where
  "in_order rank m \<longleftrightarrow> sorted_wrt (\<lambda>a b. rank a < rank b) (fst m) \<and> snd m \<le> length (fst m)"

lemma in_order_start:
  assumes "\<forall>(src, dst) \<in> set moves. parent_path src \<noteq> parent_path dst \<longrightarrow> rank (parent_path src) < rank (parent_path dst)"
  shows "\<forall>m \<in> set (start_moves moves). in_order rank m"
  using assms by (auto simp: start_moves_def in_order_def move_locks_def Let_def)

lemma in_order_step:
  assumes "lock_step ms ms'" and "\<forall>m \<in> set ms. in_order rank m"
  shows "\<forall>m \<in> set ms'. in_order rank m"
  using assms(1)
proof (cases rule: lock_step.cases)
  case (lock i ls n)
  then have "in_order rank (ls, n)" using assms(2) nth_mem[of i ms] by auto
  then have "in_order rank (ls, Suc n)" using lock by (simp add: in_order_def)
  then show ?thesis using assms(2) lock by (auto dest!: set_update_subset_insert[THEN subsetD])
next
  case (return i ls)
  have "in_order rank returned" by (simp add: in_order_def returned_def)
  then show ?thesis using assms(2) return by (auto dest!: set_update_subset_insert[THEN subsetD])
qed

lemma in_order_reach:
  "lock_step\<^sup>*\<^sup>* ms ms' \<Longrightarrow> \<forall>m \<in> set ms. in_order rank m \<Longrightarrow> \<forall>m \<in> set ms'. in_order rank m"
  by (induction rule: rtranclp_induct) (auto dest: in_order_step)

text \<open>The move that waits for the lock of the greatest rank waits for a lock that nobody holds.\<close>

lemma waiting_rank:
  assumes "in_order rank (ls, n)" "n < length ls" "l \<in> holds (ls, n)"
  shows "rank l < rank (ls ! n)"
proof -
  obtain k where "k < n" "l = ls ! k" using assms(3) by (auto simp: holds_def in_set_conv_nth)
  then show ?thesis using assms(1,2) by (auto simp: in_order_def sorted_wrt_iff_nth_less)
qed

lemma progress:
  assumes ord: "\<forall>m \<in> set ms. in_order rank m" and left: "\<not> all_returned ms"
  shows "\<exists>ms'. lock_step ms ms'"
proof (cases "\<exists>ls. ls \<noteq> [] \<and> (ls, length ls) \<in> set ms")
  case True
  then obtain ls i where "ls \<noteq> []" "i < length ms" "ms ! i = (ls, length ls)" by (auto simp: in_set_conv_nth)
  then show ?thesis by (blast intro: lock_step.return)
next
  case False
  let ?wait = "{m \<in> set ms. snd m < length (fst m)}"
  let ?want = "\<lambda>m. rank (fst m ! snd m)"
  have wait: "m \<in> ?wait" if "m \<in> set ms" "m \<noteq> returned" for m
  proof (cases m)
    case (Pair ls n)
    then have "n \<le> length ls" using ord that(1) by (auto simp: in_order_def)
    moreover have "n \<noteq> length ls" using that False Pair by (cases ls) (auto simp: returned_def)
    ultimately show ?thesis using that(1) Pair by simp
  qed
  obtain m0 where "m0 \<in> ?wait" using left wait by (auto simp: all_returned_def)
  then have "?want ` ?wait \<noteq> {}" by blast
  then have "Max (?want ` ?wait) \<in> ?want ` ?wait" by (intro Max_in) simp_all
  then obtain m where m: "m \<in> ?wait" and top_rank: "Max (?want ` ?wait) = ?want m" by (auto simp del: mem_Collect_eq)
  have "\<not> is_held ms (fst m ! snd m)"
  proof
    assume "is_held ms (fst m ! snd m)"
    then obtain m' where m': "m' \<in> set ms" "fst m ! snd m \<in> holds m'" by (auto simp: is_held_def)
    then have w: "m' \<in> ?wait" using wait[OF m'(1)] by (cases "m' = returned") (simp_all add: holds_def returned_def)
    then have "?want m < ?want m'"
      using waiting_rank[of rank "fst m'" "snd m'"] m' ord by auto
    moreover have "?want m' \<le> Max (?want ` ?wait)" using w by (intro Max_ge) auto
    ultimately show False using top_rank by simp
  qed
  moreover obtain i where "i < length ms" "ms ! i = m" using m by (auto simp: in_set_conv_nth)
  ultimately show ?thesis using m lock_step.lock[of i ms "fst m" "snd m"] by auto
qed

section \<open>Every step brings the moves closer to their end\<close>

definition steps_left :: "mover \<Rightarrow> nat" where
  "steps_left m = (length (fst m) - snd m) + (if fst m = [] then 0 else 1)"

lemma steps_left_update:
  assumes "i < length ms" "steps_left m < steps_left (ms ! i)"
  shows "sum_list (map steps_left (ms[i := m])) < sum_list (map steps_left ms)"
proof -
  have "map steps_left ms = take i (map steps_left ms) @ steps_left (ms ! i) # drop (Suc i) (map steps_left ms)"
    using id_take_nth_drop[of i "map steps_left ms"] assms(1) by simp
  then have "sum_list (map steps_left ms) =
      sum_list (take i (map steps_left ms)) + steps_left (ms ! i) + sum_list (drop (Suc i) (map steps_left ms))"
    by (metis sum_list.Cons sum_list.append add.assoc)
  moreover have "sum_list (map steps_left (ms[i := m])) =
      sum_list (take i (map steps_left ms)) + steps_left m + sum_list (drop (Suc i) (map steps_left ms))"
    using assms(1) by (simp add: upd_conv_take_nth_drop take_map drop_map)
  ultimately show ?thesis using assms(2) by simp
qed

lemma lock_step_decreases:
  "lock_step ms ms' \<Longrightarrow> sum_list (map steps_left ms') < sum_list (map steps_left ms)"
  by (elim lock_stepE) (auto intro!: steps_left_update simp: steps_left_def returned_def)

lemma all_return:
  assumes "\<forall>m \<in> set ms. in_order rank m"
  shows "\<exists>ms'. lock_step\<^sup>*\<^sup>* ms ms' \<and> all_returned ms'"
  using assms
proof (induction "sum_list (map steps_left ms)" arbitrary: ms rule: less_induct)
  case less
  show ?case
  proof (cases "all_returned ms")
    case False
    then obtain ms1 where st: "lock_step ms ms1" using progress less.prems by blast
    then obtain ms2 where "lock_step\<^sup>*\<^sup>* ms1 ms2" "all_returned ms2"
      using less.hyps[OF lock_step_decreases[OF st]] in_order_step[OF st less.prems] by blast
    then show ?thesis using st by (meson converse_rtranclp_into_rtranclp)
  qed blast
qed

text \<open>
  C21: Moves cannot lock each other out as long as they all go the same way: if the directories can be ranked such
  that every move between two directories goes to the one of greater rank, then in every state the moves reach some
  step is possible until all have returned, and the state in which all have returned can still be reached.
\<close>

theorem ordered_moves_return:
  assumes "\<forall>(src, dst) \<in> set moves.
      parent_path src \<noteq> parent_path dst \<longrightarrow> rank (parent_path src) < (rank (parent_path dst) :: nat)"
    and reach: "lock_step\<^sup>*\<^sup>* (start_moves moves) ms"
  shows "(all_returned ms \<or> (\<exists>ms'. lock_step ms ms')) \<and> (\<exists>ms'. lock_step\<^sup>*\<^sup>* ms ms' \<and> all_returned ms')"
proof -
  have "\<forall>m \<in> set ms. in_order rank m" using in_order_reach[OF reach in_order_start[OF assms(1)]] .
  then show ?thesis using progress all_return by blast
qed

lemma ordered_moves_return_witness:
  "\<exists>ms'. lock_step\<^sup>*\<^sup>* (start_moves [(''/a/x'', ''/a/b/x''), (''/a/b/y'', ''/a/b/z'')]) ms' \<and> all_returned ms'"
proof -
  have "\<forall>(src, dst) \<in> set [(''/a/x'', ''/a/b/x''), (''/a/b/y'', ''/a/b/z'')].
      parent_path src \<noteq> parent_path dst \<longrightarrow> length (parent_path src) < length (parent_path dst)" by code_simp
  then show ?thesis using ordered_moves_return[OF _ rtranclp.rtrancl_refl] by blast
qed

text \<open>
  Two moves in opposite directions can wait for each other for ever: each has locked the directory of its source
  and waits for the directory the other holds. The code takes the two guards in the order of the arguments, not in
  an order of its own, so nothing excludes this state.
\<close>

theorem opposite_moves_deadlock:
  "\<exists>ms. lock_step\<^sup>*\<^sup>* (start_moves [(''/a/x'', ''/b/x''), (''/b/y'', ''/a/y'')]) ms \<and>
     \<not> all_returned ms \<and> \<not> (\<exists>ms'. lock_step ms ms')"
proof -
  let ?a = "[''/a'', ''/b'']" and ?b = "[''/b'', ''/a'']"
  have start: "start_moves [(''/a/x'', ''/b/x''), (''/b/y'', ''/a/y'')] = [(?a, 0), (?b, 0)]" by code_simp
  have "lock_step [(?a, 0), (?b, 0)] [(?a, 1), (?b, 0)]"
    using lock_step.lock[of 0 "[(?a, 0), (?b, 0)]" ?a 0] by (simp add: is_held_def holds_def)
  moreover have "lock_step [(?a, 1), (?b, 0)] [(?a, 1), (?b, 1)]"
    using lock_step.lock[of 1 "[(?a, 1), (?b, 0)]" ?b 0] by (simp add: is_held_def holds_def)
  ultimately have "lock_step\<^sup>*\<^sup>* [(?a, 0), (?b, 0)] [(?a, 1), (?b, 1)]" by (rule converse_rtranclp_into_rtranclp[OF _ r_into_rtranclp])
  moreover have "\<not> lock_step [(?a, 1), (?b, 1)] ms'" for ms'
  proof
    assume "lock_step [(?a, 1), (?b, 1)] ms'"
    then show False
    proof (cases rule: lock_step.cases)
      case (lock i ls n)
      then consider "i = 0" | "i = 1" by (auto simp: less_Suc_eq)
      then show ?thesis using lock by cases (auto simp: is_held_def holds_def)
    next
      case (return i ls)
      have "\<forall>m \<in> set [(?a, 1), (?b, 1)]. snd m < length (fst m)" by simp
      then show ?thesis using nth_mem[OF return(2)] unfolding return(3) by fastforce
    qed
  qed
  moreover have "\<not> all_returned [(?a, 1), (?b, 1)]" by (simp add: all_returned_def returned_def)
  ultimately show ?thesis unfolding start by blast
qed

end
