(* ===== verification/Protected_Codec.thy ===== *)
theory Protected_Codec
  imports Paths
begin

text \<open>
  The payload of a protected file (\<open>vfs/protected.rs\<close>): a header, the masked or encrypted content, and for
  encrypted content a table of MACs, one for each chunk. HKDF, AES in counter mode, HMAC, JSON and hex strings are
  crates outside the repository: they are the fields of \<open>crypto\<close>; what is relied on is stated by the locale
  \<open>protected_crypto\<close> below. Bytes are characters; the random bytes of a write are an argument.
\<close>

unbundle bit_operations_syntax

type_synonym u32 = "32 word"

datatype protected_mode = Obfuscate | Encrypt
datatype protected_prng = Xorshift | Pcg

definition PROTECTED_HEADER_LEN :: nat where "PROTECTED_HEADER_LEN = 36"
definition PROTECTED_MAC_LEN :: nat where "PROTECTED_MAC_LEN = 32"
definition PROTECTED_MAGIC :: string where "PROTECTED_MAGIC = ''FUPR''"
definition PROTECTED_VERSION :: nat where "PROTECTED_VERSION = 1"
definition DEFAULT_CHUNK_SIZE :: u32 where "DEFAULT_CHUNK_SIZE = 1024 * 1024"
definition INTEGRITY_NONE :: string where "INTEGRITY_NONE = ''none''"
definition INTEGRITY_HMAC :: string where "INTEGRITY_HMAC = ''hmac-sha256-chunked''"

definition parse_mode :: "string \<Rightarrow> string + protected_mode" where
  "parse_mode raw =
     (let s = to_ascii_lowercase (rust_trim raw) in
      if s = ''obfuscate'' then Inr Obfuscate
      else if s = ''encrypt'' then Inr Encrypt
      else Inl (''unsupported protected mode: '' @ raw))"

definition parse_prng :: "string \<Rightarrow> string + protected_prng" where
  "parse_prng raw =
     (let s = to_ascii_lowercase (rust_trim raw) in
      if s = ''xorshift'' then Inr Xorshift
      else if s = ''pcg'' then Inr Pcg
      else Inl (''unsupported protected PRNG: '' @ raw))"

fun mode_to_byte :: "protected_mode \<Rightarrow> nat" where
  "mode_to_byte Obfuscate = 1" | "mode_to_byte Encrypt = 2"

fun prng_to_byte :: "protected_prng \<Rightarrow> nat" where
  "prng_to_byte Xorshift = 1" | "prng_to_byte Pcg = 2"

text \<open>Decimal numbers, as \<open>format!\<close> writes them.\<close>

fun dec_str :: "nat \<Rightarrow> string" where
  "dec_str n = (if n < 10 then [char_of (48 + n)] else dec_str (n div 10) @ [char_of (48 + n mod 10)])"

declare dec_str.simps [simp del]

definition mode_from_byte :: "nat \<Rightarrow> string + protected_mode" where
  "mode_from_byte b = (if b = 1 then Inr Obfuscate else if b = 2 then Inr Encrypt
     else Inl (''unsupported protected mode byte: '' @ dec_str b))"

definition prng_from_byte :: "nat \<Rightarrow> string + protected_prng" where
  "prng_from_byte b = (if b = 1 then Inr Xorshift else if b = 2 then Inr Pcg
     else Inl (''unsupported protected PRNG byte: '' @ dec_str b))"

section \<open>Bytes\<close>

definition byte_at :: "string \<Rightarrow> nat \<Rightarrow> nat" where
  "byte_at raw i = of_char (raw ! i)"

fun le_bytes :: "nat \<Rightarrow> nat \<Rightarrow> string" where
  "le_bytes 0 x = []"
| "le_bytes (Suc n) x = char_of (x mod 256) # le_bytes n (x div 256)"

fun from_le :: "string \<Rightarrow> nat" where
  "from_le [] = 0"
| "from_le (c # cs) = of_char c + 256 * from_le cs"

definition xor_byte :: "char \<Rightarrow> char \<Rightarrow> char" where
  "xor_byte c m = char_of ((of_char c :: nat) XOR of_char m)"

definition byte_slice :: "nat \<Rightarrow> nat \<Rightarrow> string \<Rightarrow> string" where
  "byte_slice i j s = take (j - i) (drop i s)"

section \<open>Plans, headers and metadata\<close>

record protected_plan =
  pp_root :: string
  pp_mode :: protected_mode
  pp_slot :: string
  pp_block :: nat
  pp_prng :: protected_prng
  pp_key :: "string option"

record protected_header =
  ph_mode :: protected_mode
  ph_prng :: protected_prng
  ph_block :: u32
  ph_size :: u64
  ph_seed :: string

record protected_meta =
  pm_version :: nat
  pm_mode :: string
  pm_prng :: string
  pm_block :: u32
  pm_size :: u64
  pm_seed_hex :: string
  pm_integrity :: string
  pm_chunk :: "u32 option"

record crypto =
  cr_hkdf :: "string option \<Rightarrow> string \<Rightarrow> string \<Rightarrow> string"
  cr_keystream :: "string \<Rightarrow> nat \<Rightarrow> nat \<Rightarrow> char"
  cr_hmac :: "string \<Rightarrow> string \<Rightarrow> string"
  cr_hex :: "string \<Rightarrow> string"
  cr_unhex :: "string \<Rightarrow> string + string"
  cr_json :: "protected_meta \<Rightarrow> string"
  cr_unjson :: "string \<Rightarrow> string + protected_meta"

definition encode_header :: "protected_header \<Rightarrow> string" where
  "encode_header h =
     PROTECTED_MAGIC @ [char_of PROTECTED_VERSION, char_of (mode_to_byte (ph_mode h)), char_of (prng_to_byte (ph_prng h)),
       CHR 0x00] @ le_bytes 4 (unat (ph_block h)) @ le_bytes 8 (unat (ph_size h)) @ ph_seed h"

definition decode_header :: "string \<Rightarrow> string + protected_header" where
  "decode_header raw =
     (if length raw < PROTECTED_HEADER_LEN then Inl ''protected payload header too short''
      else if take 4 raw \<noteq> PROTECTED_MAGIC then Inl ''protected payload magic mismatch''
      else if byte_at raw 4 \<noteq> PROTECTED_VERSION
      then Inl (''unsupported protected payload version: '' @ dec_str (byte_at raw 4))
      else
        res_bind (mode_from_byte (byte_at raw 5)) (\<lambda>mode.
        res_bind (prng_from_byte (byte_at raw 6)) (\<lambda>prng.
          Inr \<lparr>ph_mode = mode, ph_prng = prng, ph_block = word_of_nat (from_le (byte_slice 8 12 raw)),
               ph_size = word_of_nat (from_le (byte_slice 12 20 raw)), ph_seed = byte_slice 20 36 raw\<rparr>)))"

definition meta_from_header :: "crypto \<Rightarrow> protected_header \<Rightarrow> protected_meta" where
  "meta_from_header cr h =
     \<lparr>pm_version = PROTECTED_VERSION,
      pm_mode = (case ph_mode h of Obfuscate \<Rightarrow> ''obfuscate'' | Encrypt \<Rightarrow> ''encrypt''),
      pm_prng = (case ph_prng h of Xorshift \<Rightarrow> ''xorshift'' | Pcg \<Rightarrow> ''pcg''),
      pm_block = ph_block h, pm_size = ph_size h, pm_seed_hex = cr_hex cr (ph_seed h),
      pm_integrity = INTEGRITY_NONE, pm_chunk = None\<rparr>"

definition into_header :: "crypto \<Rightarrow> protected_meta \<Rightarrow> string + protected_header" where
  "into_header cr m =
     res_bind (parse_mode (pm_mode m)) (\<lambda>mode.
     res_bind (parse_prng (pm_prng m)) (\<lambda>prng.
     case cr_unhex cr (pm_seed_hex m) of
       Inl err \<Rightarrow> Inl (''decode protected seed failed: '' @ err)
     | Inr seed \<Rightarrow>
         if length seed \<noteq> 16 then Inl ''invalid protected seed size''
         else Inr \<lparr>ph_mode = mode, ph_prng = prng, ph_block = pm_block m, ph_size = pm_size m, ph_seed = seed\<rparr>))"

definition meta_from_json :: "crypto \<Rightarrow> string \<Rightarrow> string + protected_meta" where
  "meta_from_json cr raw =
     (case cr_unjson cr raw of Inl err \<Rightarrow> Inl (''parse protected meta failed: '' @ err) | Inr m \<Rightarrow> Inr m)"

definition header_from_meta_json :: "crypto \<Rightarrow> string \<Rightarrow> string + protected_header" where
  "header_from_meta_json cr raw = res_bind (meta_from_json cr raw) (into_header cr)"

section \<open>Masks\<close>

definition derive_block_material :: "crypto \<Rightarrow> string \<Rightarrow> string \<Rightarrow> string \<Rightarrow> u64 \<Rightarrow> string" where
  "derive_block_material cr u slot seed i =
     cr_hkdf cr (Some (u @ '':'' @ slot)) seed (''fileuni:protected:obfuscate:v1:'' @ dec_str (unat i))"

definition xorshift64star_next :: "u64 \<Rightarrow> u64 \<times> u64" where
  "xorshift64star_next x0 =
     (let x1 = x0 XOR drop_bit 12 x0; x2 = x1 XOR push_bit 25 x1; x3 = x2 XOR drop_bit 27 x2 in
      (x3 * 0x2545f4914f6cdd1d, x3))"

definition pcg32_next :: "u64 \<Rightarrow> u64 \<Rightarrow> u32 \<times> u64" where
  "pcg32_next inc s =
     (word_rotr (unat (drop_bit 59 s)) (ucast (drop_bit 27 (drop_bit 18 s XOR s)) :: u32),
      s * 6364136223846793005 + (inc OR 1))"

text \<open>The mask is made in pieces of \<open>Suc k\<close> bytes; the last one may be used in part.\<close>

function mask_with :: "nat \<Rightarrow> ('s \<Rightarrow> string \<times> 's) \<Rightarrow> 's \<Rightarrow> string \<Rightarrow> string" where
  "mask_with k gen s buf =
     (if buf = [] then []
      else case gen s of (m, s') \<Rightarrow> map2 xor_byte (take (Suc k) buf) m @ mask_with k gen s' (drop (Suc k) buf))"
  by pat_completeness auto
termination by (relation "measure (\<lambda>(k, gen, s, buf). length buf)") auto

declare mask_with.simps [simp del]

definition apply_xorshift_mask :: "crypto \<Rightarrow> string \<Rightarrow> string \<Rightarrow> string \<Rightarrow> u64 \<Rightarrow> string \<Rightarrow> string" where
  "apply_xorshift_mask cr u slot seed i buf =
     (let s = word_of_nat (from_le (byte_slice 0 8 (derive_block_material cr u slot seed i))) :: u64 in
      mask_with 7 (\<lambda>s. case xorshift64star_next s of (x, s') \<Rightarrow> (le_bytes 8 (unat x), s'))
        (if s = 0 then 0x9e3779b97f4a7c15 else s) buf)"

definition apply_pcg_mask :: "crypto \<Rightarrow> string \<Rightarrow> string \<Rightarrow> string \<Rightarrow> u64 \<Rightarrow> string \<Rightarrow> string" where
  "apply_pcg_mask cr u slot seed i buf =
     (let material = derive_block_material cr u slot seed i;
          s = word_of_nat (from_le (byte_slice 0 8 material)) :: u64;
          inc = (word_of_nat (from_le (byte_slice 8 16 material)) :: u64) OR 1 in
      mask_with 3 (\<lambda>s. case pcg32_next inc s of (x, s') \<Rightarrow> (le_bytes 4 (unat x), s'))
        (if s = 0 then 0x853c49e6748fea9b else s) buf)"

definition apply_mask :: "crypto \<Rightarrow> protected_prng \<Rightarrow> string \<Rightarrow> string \<Rightarrow> string \<Rightarrow> u64 \<Rightarrow> string \<Rightarrow> string" where
  "apply_mask cr prng = (case prng of Xorshift \<Rightarrow> apply_xorshift_mask cr | Pcg \<Rightarrow> apply_pcg_mask cr)"

text \<open>Pieces of \<open>n\<close> bytes with their number; with several workers the pieces are masked in parallel.\<close>

function map_chunks :: "nat \<Rightarrow> (nat \<Rightarrow> string \<Rightarrow> string) \<Rightarrow> nat \<Rightarrow> string \<Rightarrow> string" where
  "map_chunks n f i buf =
     (if buf = [] then [] else f i (take (max n 1) buf) @ map_chunks n f (Suc i) (drop (max n 1) buf))"
  by pat_completeness auto
termination by (relation "measure (\<lambda>(n, f, i, buf). length buf)") auto

declare map_chunks.simps [simp del]

definition obfuscate_from_block ::
  "crypto \<Rightarrow> string \<Rightarrow> string \<Rightarrow> string \<Rightarrow> nat \<Rightarrow> protected_prng \<Rightarrow> u64 \<Rightarrow> string \<Rightarrow> string" where
  "obfuscate_from_block cr u slot seed block_size prng start_block =
     map_chunks block_size (\<lambda>i. apply_mask cr prng u slot seed (start_block + word_of_nat i)) 0"

section \<open>Encryption and MACs\<close>

text \<open>\<open>cr_keystream key n j\<close> is byte \<open>j\<close> of the stream whose first counter block is \<open>n\<close>, a 128-bit number.\<close>

definition be_value :: "string \<Rightarrow> nat" where
  "be_value s = from_le (rev s)"

definition encrypt_stream :: "crypto \<Rightarrow> string \<Rightarrow> nat \<Rightarrow> nat \<Rightarrow> string \<Rightarrow> string" where
  "encrypt_stream cr key counter skip buf =
     map2 xor_byte buf (map (\<lambda>j. cr_keystream cr key counter (skip + j)) [0..<length buf])"

definition encrypt_in_place :: "crypto \<Rightarrow> string \<Rightarrow> string \<Rightarrow> string \<Rightarrow> string" where
  "encrypt_in_place cr key nonce = encrypt_stream cr key (be_value nonce) 0"

definition encrypt_range_in_place :: "crypto \<Rightarrow> string \<Rightarrow> string \<Rightarrow> u64 \<Rightarrow> string \<Rightarrow> string" where
  "encrypt_range_in_place cr key nonce offset =
     encrypt_stream cr key ((be_value nonce + unat (offset div 16)) mod 2 ^ 128) (unat (offset mod 16))"

definition derive_encrypt_mac_key :: "crypto \<Rightarrow> string \<Rightarrow> string" where
  "derive_encrypt_mac_key cr key = cr_hkdf cr None key ''fileuni:protected:encrypt:mac:v1''"

definition chunk_mac :: "crypto \<Rightarrow> string \<Rightarrow> u64 \<Rightarrow> string \<Rightarrow> string" where
  "chunk_mac cr mac_key i ciphertext = cr_hmac cr mac_key (le_bytes 8 (unat i) @ ciphertext)"

definition build_encrypt_mac_table :: "crypto \<Rightarrow> string \<Rightarrow> nat \<Rightarrow> string \<Rightarrow> string" where
  "build_encrypt_mac_table cr key chunk_size =
     map_chunks chunk_size (\<lambda>i. chunk_mac cr (derive_encrypt_mac_key cr key) (word_of_nat i)) 0"

definition integrity_chunk_count :: "u64 \<Rightarrow> u32 \<Rightarrow> nat" where
  "integrity_chunk_count sz chunk =
     (if sz = 0 then 0 else (unat sz + (unat (max chunk 1) - 1)) div unat (max chunk 1))"

definition encrypt_mac_table_len :: "u64 \<Rightarrow> u32 \<Rightarrow> nat" where
  "encrypt_mac_table_len sz chunk = integrity_chunk_count sz chunk * PROTECTED_MAC_LEN"

text \<open>The chunks from number \<open>i\<close> on against the tags from the front of the table on.\<close>

function verify_chunks :: "(u64 \<Rightarrow> string \<Rightarrow> string) \<Rightarrow> nat \<Rightarrow> u64 \<Rightarrow> string \<Rightarrow> string \<Rightarrow> string + unit" where
  "verify_chunks mac n i window tags =
     (if window = [] then Inr ()
      else if take PROTECTED_MAC_LEN tags \<noteq> mac i (take (max n 1) window)
      then Inl (''protected MAC verification failed at chunk '' @ dec_str (unat i))
      else verify_chunks mac n (i + 1) (drop (max n 1) window) (drop PROTECTED_MAC_LEN tags))"
  by pat_completeness auto
termination by (relation "measure (\<lambda>(mac, n, i, window, tags). length window)") auto

declare verify_chunks.simps [simp del]

definition verify_encrypt_window :: "crypto \<Rightarrow> string \<Rightarrow> u32 \<Rightarrow> u64 \<Rightarrow> string \<Rightarrow> string \<Rightarrow> string + unit" where
  "verify_encrypt_window cr key chunk start window tags =
     (let n = max chunk 1 in
      if length tags \<noteq> integrity_chunk_count (word_of_nat (length window)) n * PROTECTED_MAC_LEN
      then Inl ''protected MAC table window size mismatch''
      else verify_chunks (chunk_mac cr (derive_encrypt_mac_key cr key)) (unat n) (start div ucast n) window tags)"

section \<open>Payloads\<close>

definition encode_payload ::
  "crypto \<Rightarrow> string \<Rightarrow> string \<Rightarrow> protected_plan \<Rightarrow> string \<Rightarrow> string + string \<times> protected_header \<times> string" where
  "encode_payload cr seed u plan plain =
     (case (case pp_mode plan of
              Obfuscate \<Rightarrow>
                Inr (obfuscate_from_block cr u (pp_slot plan) seed (max (pp_block plan) 1) (pp_prng plan) 0 plain, [])
            | Encrypt \<Rightarrow>
                (case pp_key plan of
                   None \<Rightarrow> Inl ''Protected encrypt key is missing''
                 | Some key \<Rightarrow>
                     (let payload = encrypt_in_place cr key seed plain in
                      Inr (payload, build_encrypt_mac_table cr key (unat DEFAULT_CHUNK_SIZE) payload)))) of
        Inl err \<Rightarrow> Inl err
      | Inr (payload, tags) \<Rightarrow>
          (let h = \<lparr>ph_mode = pp_mode plan, ph_prng = pp_prng plan, ph_block = word_of_nat (pp_block plan),
                    ph_size = word_of_nat (length plain), ph_seed = seed\<rparr>;
               m = (if pp_mode plan = Encrypt
                    then (meta_from_header cr h)\<lparr>pm_integrity := INTEGRITY_HMAC, pm_chunk := Some DEFAULT_CHUNK_SIZE\<rparr>
                    else meta_from_header cr h) in
           Inr (encode_header h @ payload @ tags, h, cr_json cr m)))"

definition decode_obfuscate_range ::
  "crypto \<Rightarrow> string \<Rightarrow> string \<Rightarrow> protected_header \<Rightarrow> string \<Rightarrow> u64 \<Rightarrow> u64 \<Rightarrow> u64 \<Rightarrow> string + string" where
  "decode_obfuscate_range cr u slot h payload payload_start start stop =
     (let block_size = max (unat (ph_block h)) 1;
          buf = obfuscate_from_block cr u slot (ph_seed h) block_size (ph_prng h)
                  (word_of_nat (unat payload_start div block_size)) payload;
          i = unat start - unat payload_start;
          j = i + (unat stop - unat start) in
      if length buf < j
      then Inl (''obfuscate range slice out of bounds: slice_end='' @ dec_str j @ '' window_len='' @ dec_str (length buf))
      else Inr (byte_slice i j buf))"

definition decode_encrypt_range ::
  "crypto \<Rightarrow> string option \<Rightarrow> protected_header \<Rightarrow> string \<Rightarrow> u64 \<Rightarrow> u64 \<Rightarrow> u64 \<Rightarrow> string + string" where
  "decode_encrypt_range cr key h payload payload_start start stop =
     (case key of
        None \<Rightarrow> Inl ''Protected encrypt key is missing''
      | Some k \<Rightarrow>
          if start < payload_start
          then Inl (''encrypt range start '' @ dec_str (unat start) @ '' < payload_logical_start '' @ dec_str (unat payload_start))
          else
            (let buf = encrypt_range_in_place cr k (ph_seed h) payload_start payload;
                 i = unat (start - payload_start);
                 j = i + (unat stop - unat start) in
             if length buf < j
             then Inl (''encrypt range slice out of bounds: slice_end='' @ dec_str j @ '' buf_len='' @ dec_str (length buf))
             else Inr (byte_slice i j buf)))"

definition decode_range ::
  "crypto \<Rightarrow> string \<Rightarrow> string \<Rightarrow> string option \<Rightarrow> protected_header \<Rightarrow> string \<Rightarrow> u64 \<Rightarrow> u64 \<Rightarrow> u64 \<Rightarrow> string + string" where
  "decode_range cr u slot key h payload payload_start start stop =
     (let logical_end = max (min stop (ph_size h)) (min start (ph_size h)) in
      if logical_end \<le> start then Inr []
      else case ph_mode h of
        Obfuscate \<Rightarrow> decode_obfuscate_range cr u slot h payload payload_start start logical_end
      | Encrypt \<Rightarrow> decode_encrypt_range cr key h payload payload_start start logical_end)"

definition slice_logical_range :: "string \<Rightarrow> u64 \<Rightarrow> u64 \<Rightarrow> string" where
  "slice_logical_range data start stop =
     (let i = min (unat start) (length data) in byte_slice i (max (min (unat stop) (length data)) i) data)"

definition next_blob_logical_path :: "(string \<Rightarrow> string) \<Rightarrow> crypto \<Rightarrow> string \<Rightarrow> string \<Rightarrow> string" where
  "next_blob_logical_path sha cr blob_id slot =
     PROTECTED_STORAGE_DIR @ ''/'' @ cr_hex cr (take 4 (sha (''fileuni:protected:blob-slot:'' @ slot))) @ ''/'' @ blob_id @ ''.bin''"

section \<open>Facts about bytes\<close>

named_theorems codec_simps

lemma length_le_bytes [simp]: "length (le_bytes n x) = n"
  by (induction n arbitrary: x) auto

lemma from_le_le_bytes: "from_le (le_bytes n x) = x mod 256 ^ n"
proof (induction n arbitrary: x)
  case (Suc n)
  have "from_le (le_bytes (Suc n) x) = x mod 256 + 256 * (x div 256 mod 256 ^ n)" using Suc by simp
  also have "\<dots> = x mod (256 * 256 ^ n)" by (simp add: mod_mult2_eq)
  finally show ?case by simp
qed simp

lemma from_le_word [codec_simps]:
  "from_le (le_bytes 4 (unat (b :: u32))) = unat b" "from_le (le_bytes 8 (unat (z :: u64))) = unat z"
  using unsigned_less[of b, where 'a = nat] unsigned_less[of z, where 'a = nat] by (simp_all add: from_le_le_bytes)

lemma u64_of_nat [simp]: "n < 2 ^ 64 \<Longrightarrow> unat (word_of_nat n :: u64) = n"
  by (simp add: unsigned_of_nat take_bit_nat_eq_self)

lemma of_char_xor: "(of_char (xor_byte c m) :: nat) = of_char c XOR of_char m"
proof -
  have t: "take_bit 8 (of_char c :: nat) = of_char c" for c
    using of_char_less_256[of c] by (simp add: take_bit_nat_eq_self)
  have "(of_char (xor_byte c m) :: nat) = take_bit 8 (of_char c XOR of_char m)"
    by (simp add: xor_byte_def take_bit_eq_mod)
  also have "\<dots> = of_char c XOR of_char m" by (simp add: take_bit_xor t)
  finally show ?thesis .
qed

lemma xor_byte_twice [simp]: "xor_byte (xor_byte c m) m = c"
proof -
  have "(of_char (xor_byte (xor_byte c m) m) :: nat) = of_char c" by (simp add: of_char_xor xor.assoc)
  then show ?thesis by (metis char_of_char)
qed

lemma map2_xor_twice: "length c \<le> length m \<Longrightarrow> map2 xor_byte (map2 xor_byte c m) m = c"
  by (induction c m rule: list_induct2') auto

lemma slice_append [codec_simps]:
  "length a \<le> i \<Longrightarrow> byte_slice i j (a @ b) = byte_slice (i - length a) (j - length a) b"
  "j \<le> length a \<Longrightarrow> byte_slice i j (a @ b) = byte_slice i j a"
  by (auto simp: byte_slice_def)

lemma length_slice [simp]: "length (byte_slice i j s) = min (j - i) (length s - i)"
  by (simp add: byte_slice_def)

lemma slice_all: "length s \<le> j \<Longrightarrow> byte_slice 0 j s = s"
  by (simp add: byte_slice_def)

lemma slice_slice: "i + l \<le> j \<Longrightarrow> byte_slice k l (byte_slice i j s) = byte_slice (i + k) (i + l) s"
  by (simp add: byte_slice_def drop_take add.commute min_def)

section \<open>Headers and metadata\<close>

lemma mode_byte [simp]: "mode_from_byte (mode_to_byte m) = Inr m" "prng_from_byte (prng_to_byte r) = Inr r"
  "mode_to_byte m mod 256 = mode_to_byte m" "prng_to_byte r mod 256 = prng_to_byte r"
  by (cases m; cases r; simp add: mode_from_byte_def prng_from_byte_def)+

lemma length_encode_header: "length (encode_header h) = 20 + length (ph_seed h)"
  by (simp add: encode_header_def PROTECTED_MAGIC_def)

lemma decode_encode_header:
  assumes "length (ph_seed h) = 16"
  shows "decode_header (encode_header h @ rest) = Inr h"
proof -
  let ?raw = "encode_header h @ rest"
  have at: "byte_at ?raw 4 = 1" "byte_at ?raw 5 = mode_to_byte (ph_mode h)" "byte_at ?raw 6 = prng_to_byte (ph_prng h)"
    by (simp_all add: byte_at_def encode_header_def PROTECTED_MAGIC_def PROTECTED_VERSION_def)
  have parts: "?raw = (PROTECTED_MAGIC @ [char_of PROTECTED_VERSION, char_of (mode_to_byte (ph_mode h)),
      char_of (prng_to_byte (ph_prng h)), CHR 0x00]) @ le_bytes 4 (unat (ph_block h)) @ le_bytes 8 (unat (ph_size h)) @
      ph_seed h @ rest"
    by (simp add: encode_header_def)
  have "byte_slice 8 12 ?raw = le_bytes 4 (unat (ph_block h))" "byte_slice 12 20 ?raw = le_bytes 8 (unat (ph_size h))"
    "byte_slice 20 36 ?raw = ph_seed h"
    unfolding parts by (simp_all add: byte_slice_def PROTECTED_MAGIC_def assms)
  moreover have "take 4 ?raw = PROTECTED_MAGIC" by (simp add: encode_header_def PROTECTED_MAGIC_def)
  moreover have "\<not> length ?raw < PROTECTED_HEADER_LEN"
    by (simp add: length_encode_header assms PROTECTED_HEADER_LEN_def)
  ultimately show ?thesis
    using at by (simp add: decode_header_def PROTECTED_VERSION_def codec_simps)
qed

section \<open>Masks and chunks\<close>

lemma mask_with_length [simp]:
  assumes "\<And>s. length (fst (gen s)) = Suc k"
  shows "length (mask_with k gen s buf) = length buf"
  using assms
proof (induction k gen s buf rule: mask_with.induct)
  case (1 k gen s buf)
  obtain m s' where "gen s = (m, s')" by fastforce
  then show ?case using 1(1)[of m s'] 1(2) 1(2)[of s] by (subst mask_with.simps) (auto simp: min_def)
qed

lemma mask_with_twice:
  assumes len: "\<And>s. length (fst (gen s)) = Suc k"
  shows "mask_with k gen s (mask_with k gen s buf) = buf"
  using len
proof (induction k gen s buf rule: mask_with.induct)
  case (1 k gen s buf)
  show ?case
  proof (cases "buf = []")
    case False
    obtain m s' where g: "gen s = (m, s')" by fastforce
    let ?a = "map2 xor_byte (take (Suc k) buf) m" and ?b = "mask_with k gen s' (drop (Suc k) buf)"
    have m: "length m = Suc k" using 1(2)[of s] g by simp
    have eq: "mask_with k gen s buf = ?a @ ?b" using False g by (subst mask_with.simps) simp
    have len: "length ?a = min (Suc k) (length buf)" "?a \<noteq> []" using m False by auto
    have rest: "mask_with k gen s' ?b = drop (Suc k) buf" using 1(1)[OF False g[symmetric] 1(2)] .
    have "take (Suc k) (?a @ ?b) = ?a \<and> drop (Suc k) (?a @ ?b) = ?b"
      using len mask_with_length[where k = k and gen = gen and s = s' and buf = "drop (Suc k) buf", OF 1(2)] by (cases "length buf \<le> Suc k") auto
    moreover have "mask_with k gen s (?a @ ?b) =
        map2 xor_byte (take (Suc k) (?a @ ?b)) m @ mask_with k gen s' (drop (Suc k) (?a @ ?b))"
      using len(2) g by (subst mask_with.simps) (simp del: take_append drop_append)
    moreover have "map2 xor_byte ?a m = take (Suc k) buf" using m by (intro map2_xor_twice) simp
    ultimately show ?thesis using eq rest by (metis append_take_drop_id)
  qed (simp add: mask_with.simps)
qed


lemma apply_mask_length [simp]: "length (apply_mask cr prng u slot seed i buf) = length buf"
  by (cases prng) (simp_all add: apply_mask_def apply_xorshift_mask_def apply_pcg_mask_def Let_def case_prod_beta)

lemma apply_mask_twice [simp]:
  "apply_mask cr prng u slot seed i (apply_mask cr prng u slot seed i buf) = buf"
  by (cases prng)
    (simp_all add: apply_mask_def apply_xorshift_mask_def apply_pcg_mask_def Let_def mask_with_twice case_prod_beta)

text \<open>Whole pieces in front are worked on independently of the rest.\<close>

lemma map_chunks_step:
  "buf \<noteq> [] \<Longrightarrow> map_chunks n f i buf = f i (take (max n 1) buf) @ map_chunks n f (Suc i) (drop (max n 1) buf)"
  by (subst map_chunks.simps) simp

lemma map_chunks_Nil [simp]: "map_chunks n f i [] = []"
  by (simp add: map_chunks.simps)

lemma map_chunks_append:
  "length xs = a * max n 1 \<Longrightarrow> map_chunks n f i (xs @ ys) = map_chunks n f i xs @ map_chunks n f (i + a) ys"
proof (induction a arbitrary: i xs)
  case 0
  then show ?case by (simp add: map_chunks.simps[of _ _ _ "[]"])
next
  case (Suc a)
  let ?m = "max n 1"
  have m: "?m \<le> length xs" "length (drop ?m xs) = a * ?m" "xs \<noteq> []" using Suc.prems by auto
  have "map_chunks n f i (xs @ ys) = f i (take ?m xs) @ map_chunks n f (Suc i) (drop ?m xs @ ys)"
    using m by (subst map_chunks.simps) simp
  also have "\<dots> = (f i (take ?m xs) @ map_chunks n f (Suc i) (drop ?m xs)) @ map_chunks n f (Suc i + a) ys"
    using Suc.IH[OF m(2)] by simp
  also have "f i (take ?m xs) @ map_chunks n f (Suc i) (drop ?m xs) = map_chunks n f i xs"
    using m(3) map_chunks.simps[of n f i xs] by simp
  finally show ?case by simp
qed

lemma map_chunks_shift: "map_chunks n (\<lambda>i. f (k + i)) i buf = map_chunks n f (k + i) buf"
proof (induction "length buf" arbitrary: i buf rule: less_induct)
  case less
  show ?case
  proof (cases "buf = []")
    case False
    have "map_chunks n (\<lambda>i. f (k + i)) (Suc i) (drop (max n 1) buf) = map_chunks n f (k + Suc i) (drop (max n 1) buf)"
      using False by (intro less) (cases buf; simp)
    then show ?thesis unfolding map_chunks_step[OF False] by (simp only: add_Suc_right)
  qed simp
qed

lemma map_chunks_length [simp]:
  assumes "\<And>i c. length (f i c) = length c"
  shows "length (map_chunks n f i buf) = length buf"
  using assms
proof (induction n f i buf rule: map_chunks.induct)
  case (1 n f i buf)
  then show ?case by (subst map_chunks.simps) (auto simp: min_def)
qed

lemma map_chunks_twice:
  assumes "\<And>i c. length (f i c) = length c" and "\<And>i c. f i (f i c) = c"
  shows "map_chunks n f i (map_chunks n f i buf) = buf"
  using assms
proof (induction n f i buf rule: map_chunks.induct)
  case (1 n f i buf)
  show ?case
  proof (cases "buf = []")
    case False
    let ?m = "max n 1"
    let ?a = "f i (take ?m buf)" and ?b = "map_chunks n f (Suc i) (drop ?m buf)"
    have eq: "map_chunks n f i buf = ?a @ ?b" using False by (subst map_chunks.simps) simp
    have la: "length ?a = min ?m (length buf)" using 1(2) by simp
    have lb: "length ?b = length buf - ?m" using map_chunks_length[of f n "Suc i", OF 1(2)] by simp
    have td: "take ?m (?a @ ?b) = ?a" "drop ?m (?a @ ?b) = ?b"
      using la lb by (cases "length buf \<le> ?m"; simp)+
    have "0 < length ?a" using False unfolding la by simp
    then have ne: "?a @ ?b \<noteq> []" by (metis append_is_Nil_conv length_greater_0_conv)
    have "map_chunks n f i (?a @ ?b) = f i ?a @ map_chunks n f (Suc i) ?b"
      unfolding map_chunks_step[OF ne] td ..
    then show ?thesis using eq 1 False by simp
  qed (simp add: map_chunks.simps)
qed


lemma map_chunks_const_length:
  assumes "length xs = a * max n 1" and "\<And>i c. length (f i c) = t"
  shows "length (map_chunks n f i xs) = a * t"
  using assms(1)
proof (induction a arbitrary: i xs)
  case (Suc a)
  then have "xs \<noteq> []" "length (drop (max n 1) xs) = a * max n 1" by auto
  then show ?case using Suc.IH assms(2) by (simp add: map_chunks_step)
qed simp

text \<open>
  A window: a buffer cut at a chunk boundary, of which the part behind the window is cut at a boundary, too, or
  empty. The chunks of the window are those of the whole.
\<close>

lemma map_chunks_window:
  assumes "length xs = a * max n 1" and "zs = [] \<or> length ws = b * max n 1"
  shows "map_chunks n f 0 (xs @ ws @ zs) =
    map_chunks n f 0 xs @ map_chunks n f a ws @ map_chunks n f (a + b) zs"
  using assms(2) map_chunks_append[OF assms(1), of f 0 "ws @ zs"] map_chunks_append[of ws b n f a zs] by auto

lemma obfuscate_length [simp]: "length (obfuscate_from_block cr u slot seed n prng k buf) = length buf"
  by (simp add: obfuscate_from_block_def)

lemma obfuscate_twice:
  "obfuscate_from_block cr u slot seed n prng k (obfuscate_from_block cr u slot seed n prng k buf) = buf"
  by (simp add: obfuscate_from_block_def map_chunks_twice)

lemma obfuscate_window:
  assumes "length xs = a * max n 1" and "zs = [] \<or> length ws = b * max n 1"
  shows "\<exists>x z. obfuscate_from_block cr u slot seed n prng 0 (xs @ ws @ zs) =
      x @ obfuscate_from_block cr u slot seed n prng (word_of_nat a) ws @ z \<and> length x = length xs"
proof -
  let ?f = "\<lambda>i. apply_mask cr prng u slot seed (word_of_nat i)"
  have "map_chunks n ?f a ws = obfuscate_from_block cr u slot seed n prng (word_of_nat a) ws"
    using map_chunks_shift[of n ?f a 0 ws] by (simp add: obfuscate_from_block_def)
  then show ?thesis
    using map_chunks_window[OF assms, of ?f] by (auto simp: obfuscate_from_block_def)
qed

section \<open>Ranges\<close>

text \<open>What is relied on of the crates: counter mode counts blocks of 16 bytes modulo 2^128, a tag has 32 bytes, and
  JSON and hex strings can be read back.\<close>

definition lawful_crypto :: "crypto \<Rightarrow> bool" where
  "lawful_crypto cr \<longleftrightarrow>
     (\<forall>key n b j. cr_keystream cr key ((n + b) mod 2 ^ 128) j = cr_keystream cr key n (16 * b + j)) \<and>
     (\<forall>key m. length (cr_hmac cr key m) = PROTECTED_MAC_LEN) \<and>
     (\<forall>m. cr_unjson cr (cr_json cr m) = Inr m) \<and> (\<forall>b. cr_unhex cr (cr_hex cr b) = Inr b)"

definition chunk_aligned :: "nat \<Rightarrow> nat \<Rightarrow> nat \<Rightarrow> nat \<Rightarrow> bool" where
  "chunk_aligned m p q l \<longleftrightarrow> p \<le> q \<and> q \<le> l \<and> m dvd p \<and> (q = l \<or> m dvd q)"

lemma slice_split: "p \<le> q \<Longrightarrow> q \<le> length s \<Longrightarrow> s = take p s @ byte_slice p q s @ drop q s"
  by (metis append_take_drop_id drop_take take_drop byte_slice_def le_add_diff_inverse append.assoc take_add)

lemma slice_middle: "length x = p \<Longrightarrow> length w = q - p \<Longrightarrow> byte_slice p q (x @ w @ z) = w"
  by (simp add: byte_slice_def)

lemma window_parts:
  assumes "chunk_aligned m p q (length s)"
  obtains a b where "length (take p s) = a * m" "drop q s = [] \<or> length (byte_slice p q s) = b * m" "p = a * m"
proof -
  have "m dvd p" using assms by (simp add: chunk_aligned_def)
  then obtain a where a: "p = a * m" by (metis dvdE mult.commute)
  have "\<exists>b. drop q s = [] \<or> length (byte_slice p q s) = b * m"
  proof (cases "q = length s")
    case False
    then have "m dvd q - p" using assms by (simp add: chunk_aligned_def)
    then obtain b where "q - p = b * m" by (metis dvdE mult.commute)
    then show ?thesis using assms by (auto simp: chunk_aligned_def)
  qed simp
  then show thesis using that a assms by (auto simp: chunk_aligned_def)
qed

lemma slice_obfuscate:
  assumes "chunk_aligned (max n 1) p q (length plain)"
  shows "byte_slice p q (obfuscate_from_block cr u slot seed n prng 0 plain) =
    obfuscate_from_block cr u slot seed n prng (word_of_nat (p div max n 1)) (byte_slice p q plain)"
proof -
  obtain a b where ab: "length (take p plain) = a * max n 1"
      "drop q plain = [] \<or> length (byte_slice p q plain) = b * max n 1" "p = a * max n 1"
    using window_parts[OF assms] .
  have pq: "p \<le> q" "q \<le> length plain" using assms by (auto simp: chunk_aligned_def)
  obtain x z where xz: "obfuscate_from_block cr u slot seed n prng 0 plain =
      x @ obfuscate_from_block cr u slot seed n prng (word_of_nat a) (byte_slice p q plain) @ z" "length x = p"
    using obfuscate_window[OF ab(1,2), of cr u slot seed prng] slice_split[OF pq] pq by auto
  moreover have "p div max n 1 = a" using ab(3) by simp
  ultimately show ?thesis using pq by (simp add: slice_middle)
qed

lemma encrypt_stream_length [simp]: "length (encrypt_stream cr key n k buf) = length buf"
  by (simp add: encrypt_stream_def)

lemma encrypt_range:
  assumes "lawful_crypto cr" and "p \<le> q" "q \<le> length plain" "p < 2 ^ 64"
  shows "encrypt_range_in_place cr key nonce (word_of_nat p) (byte_slice p q (encrypt_in_place cr key nonce plain)) = byte_slice p q plain"
proof (rule nth_equalityI)
  let ?n = "be_value nonce"
  fix j assume "j < length (encrypt_range_in_place cr key nonce (word_of_nat p) (byte_slice p q (encrypt_in_place cr key nonce plain)))"
  then have j: "j < q - p" using assms(2,3) by (simp add: encrypt_range_in_place_def encrypt_in_place_def)
  have p: "unat (word_of_nat p :: u64) = p" using assms(4) by simp
  have "cr_keystream cr key ((?n + p div 16) mod 2 ^ 128) (p mod 16 + j) = cr_keystream cr key ?n (p + j)"
    using assms(1) by (simp add: lawful_crypto_def flip: add.assoc)
  then show "encrypt_range_in_place cr key nonce (word_of_nat p) (byte_slice p q (encrypt_in_place cr key nonce plain)) ! j =
      byte_slice p q plain ! j"
    using j assms(2,3) p
    by (simp add: encrypt_range_in_place_def encrypt_in_place_def encrypt_stream_def byte_slice_def unat_div unat_mod)
qed (use assms in \<open>simp add: encrypt_range_in_place_def encrypt_in_place_def\<close>)

section \<open>MAC tables\<close>

definition chunks_of :: "nat \<Rightarrow> nat \<Rightarrow> nat" where
  "chunks_of m l = (l + (m - 1)) div m"

lemma chunks_of_0 [simp]: "0 < m \<Longrightarrow> chunks_of m 0 = 0"
  by (simp add: chunks_of_def)

lemma chunks_of_step: "0 < m \<Longrightarrow> 0 < l \<Longrightarrow> chunks_of m l = Suc (chunks_of m (l - m))"
proof (cases "m \<le> l")
  case True
  assume "0 < m" "0 < l"
  then have "l + (m - 1) = (l - m + (m - 1)) + m" using True by linarith
  moreover have "(k + m) div m = Suc (k div m)" for k
    using \<open>0 < m\<close> div_add_self2[of m k] by (simp only: Suc_eq_plus1)
  ultimately show ?thesis unfolding chunks_of_def by metis
next
  case False
  assume "0 < m" "0 < l"
  then have "(l + (m - 1)) div m = 1" using False by (intro div_nat_eqI) simp_all
  then show ?thesis using False \<open>0 < m\<close> by (simp add: chunks_of_def)
qed

lemma chunks_of_mult: "0 < m \<Longrightarrow> chunks_of m (a * m) = a"
  by (induction a) (simp_all add: chunks_of_step[of m "m + _"])

lemma chunks_of_pos: "0 < m \<Longrightarrow> chunks_of m l = 0 \<longleftrightarrow> l = 0"
  by (cases "l = 0") (simp_all add: chunks_of_step)

lemma map_chunks_tag_length:
  assumes "\<And>i c. length (f i c) = t"
  shows "length (map_chunks n f i buf) = chunks_of (max n 1) (length buf) * t"
proof (induction "length buf" arbitrary: i buf rule: less_induct)
  case less
  show ?case
  proof (cases "buf = []")
    case False
    then have "length (map_chunks n f (Suc i) (drop (max n 1) buf)) = chunks_of (max n 1) (length buf - max n 1) * t"
      using less[of "drop (max n 1) buf" "Suc i"] by simp
    then show ?thesis using False by (simp add: map_chunks_step assms chunks_of_step)
  qed simp
qed

lemma verify_chunks_iff:
  assumes mac: "\<And>i c. length (mac i c) = PROTECTED_MAC_LEN"
    and "length tags = chunks_of (max n 1) (length window) * PROTECTED_MAC_LEN"
  shows "verify_chunks mac n (word_of_nat i) window tags = Inr () \<longleftrightarrow>
    tags = map_chunks n (\<lambda>i. mac (word_of_nat i)) i window"
  using assms(2)
proof (induction "length window" arbitrary: i window tags rule: less_induct)
  case less
  let ?m = "max n 1"
  show ?case
  proof (cases "window = []")
    case False
    have next_i: "word_of_nat i + 1 = (word_of_nat (Suc i) :: u64)" by simp
    have l: "length tags = PROTECTED_MAC_LEN + chunks_of ?m (length window - ?m) * PROTECTED_MAC_LEN"
      using less.prems False by (simp add: chunks_of_step)
    have IH: "verify_chunks mac n (word_of_nat (Suc i)) (drop ?m window) (drop PROTECTED_MAC_LEN tags) = Inr () \<longleftrightarrow>
        drop PROTECTED_MAC_LEN tags = map_chunks n (\<lambda>i. mac (word_of_nat i)) (Suc i) (drop ?m window)"
      using False l by (intro less.hyps) (auto simp: length_greater_0_conv[symmetric] simp del: length_greater_0_conv)
    have "verify_chunks mac n (word_of_nat i) window tags = Inr () \<longleftrightarrow>
        take PROTECTED_MAC_LEN tags = mac (word_of_nat i) (take ?m window) \<and>
        verify_chunks mac n (word_of_nat i + 1) (drop ?m window) (drop PROTECTED_MAC_LEN tags) = Inr ()"
      using False by (subst verify_chunks.simps) simp
    also have "\<dots> \<longleftrightarrow> tags = mac (word_of_nat i) (take ?m window) @
        map_chunks n (\<lambda>i. mac (word_of_nat i)) (Suc i) (drop ?m window)"
      unfolding next_i IH using mac[of "word_of_nat i" "take ?m window"]
      by (metis append_take_drop_id append_eq_conv_conj)
    finally show ?thesis unfolding map_chunks_step[OF False] .
  qed (use less.prems in \<open>simp add: verify_chunks.simps\<close>)
qed

lemma integrity_chunk_count_eq:
  "integrity_chunk_count sz c = chunks_of (max (unat c) 1) (unat sz)"
proof -
  have "unat (max c 1) = max (unat c) 1"
    by (cases "1 \<le> c") (auto simp: max_def word_le_nat_alt unat_eq_zero)
  then show ?thesis by (simp add: integrity_chunk_count_def chunks_of_def unat_eq_zero)
qed

section \<open>Encoding and decoding\<close>

lemma unat_max_min [simp]:
  "unat (min a b :: u64) = min (unat a) (unat b)" "unat (max a b :: u64) = max (unat a) (unat b)"
  by (auto simp: min_def max_def word_le_nat_alt)

text \<open>What a plan needs to be usable: the block size fits the 32 bits of the header.\<close>

definition usable_plan :: "protected_plan \<Rightarrow> bool" where
  "usable_plan plan \<longleftrightarrow> pp_block plan < 2 ^ 32 \<and> (pp_mode plan = Encrypt \<longrightarrow> pp_key plan \<noteq> None)"

definition window_ok :: "protected_plan \<Rightarrow> nat \<Rightarrow> nat \<Rightarrow> nat \<Rightarrow> bool" where
  "window_ok plan p q l \<longleftrightarrow>
     (case pp_mode plan of Obfuscate \<Rightarrow> chunk_aligned (max (pp_block plan) 1) p q l | Encrypt \<Rightarrow> p \<le> q \<and> q \<le> l)"

definition header_of :: "protected_plan \<Rightarrow> string \<Rightarrow> nat \<Rightarrow> protected_header" where
  "header_of plan seed l =
     \<lparr>ph_mode = pp_mode plan, ph_prng = pp_prng plan, ph_block = word_of_nat (pp_block plan),
      ph_size = word_of_nat l, ph_seed = seed\<rparr>"

definition body_of :: "crypto \<Rightarrow> string \<Rightarrow> string \<Rightarrow> protected_plan \<Rightarrow> string \<Rightarrow> string" where
  "body_of cr seed u plan plain =
     (case pp_mode plan of
        Obfuscate \<Rightarrow> obfuscate_from_block cr u (pp_slot plan) seed (max (pp_block plan) 1) (pp_prng plan) 0 plain
      | Encrypt \<Rightarrow> encrypt_in_place cr (the (pp_key plan)) seed plain)"

definition tags_of :: "crypto \<Rightarrow> protected_plan \<Rightarrow> string \<Rightarrow> string" where
  "tags_of cr plan body =
     (case pp_mode plan of
        Obfuscate \<Rightarrow> []
      | Encrypt \<Rightarrow> build_encrypt_mac_table cr (the (pp_key plan)) (unat DEFAULT_CHUNK_SIZE) body)"

definition meta_of :: "crypto \<Rightarrow> protected_plan \<Rightarrow> string \<Rightarrow> nat \<Rightarrow> protected_meta" where
  "meta_of cr plan seed l =
     (if pp_mode plan = Encrypt
      then (meta_from_header cr (header_of plan seed l))\<lparr>pm_integrity := INTEGRITY_HMAC, pm_chunk := Some DEFAULT_CHUNK_SIZE\<rparr>
      else meta_from_header cr (header_of plan seed l))"

lemma encode_payload_eq:
  assumes "usable_plan plan"
  shows "encode_payload cr seed u plan plain =
    Inr (encode_header (header_of plan seed (length plain)) @ body_of cr seed u plan plain @
           tags_of cr plan (body_of cr seed u plan plain),
         header_of plan seed (length plain), cr_json cr (meta_of cr plan seed (length plain)))"
  using assms
  by (cases "pp_mode plan") (auto simp: encode_payload_def usable_plan_def header_of_def body_of_def tags_of_def meta_of_def Let_def)

lemma length_body [simp]: "length (body_of cr seed u plan plain) = length plain"
  by (cases "pp_mode plan") (simp_all add: body_of_def encrypt_in_place_def)

lemma word_names:
  "s \<in> {''obfuscate'', ''encrypt'', ''xorshift'', ''pcg''} \<Longrightarrow> rust_trim s = s"
  "to_ascii_lowercase ''obfuscate'' = ''obfuscate''" "to_ascii_lowercase ''encrypt'' = ''encrypt''"
  "to_ascii_lowercase ''xorshift'' = ''xorshift''" "to_ascii_lowercase ''pcg'' = ''pcg''"
proof -
  show "s \<in> {''obfuscate'', ''encrypt'', ''xorshift'', ''pcg''} \<Longrightarrow> rust_trim s = s"
    by (rule rust_trim_plain) (auto simp: plain_char_def)
qed (code_simp+)

lemma into_header_meta:
  assumes "lawful_crypto cr" "length seed = 16"
  shows "into_header cr (meta_of cr plan seed l) = Inr (header_of plan seed l)"
proof -
  have m: "parse_mode ''obfuscate'' = Inr Obfuscate" "parse_mode ''encrypt'' = Inr Encrypt"
    "parse_prng ''xorshift'' = Inr Xorshift" "parse_prng ''pcg'' = Inr Pcg"
    by (simp_all add: parse_mode_def parse_prng_def word_names)
  show ?thesis
    using assms
    unfolding meta_of_def meta_from_header_def header_of_def into_header_def lawful_crypto_def
    by (cases "pp_mode plan"; cases "pp_prng plan") (simp_all add: m)
qed

lemma json_roundtrip:
  assumes "lawful_crypto cr" "length seed = 16"
  shows "meta_from_json cr (cr_json cr (meta_of cr plan seed l)) = Inr (meta_of cr plan seed l)"
    and "header_from_meta_json cr (cr_json cr (meta_of cr plan seed l)) = Inr (header_of plan seed l)"
  using assms into_header_meta[OF assms]
  by (simp_all add: header_from_meta_json_def meta_from_json_def lawful_crypto_def)

lemma decode_window:
  assumes "lawful_crypto cr" "usable_plan plan" and len: "length plain < 2 ^ 64"
    and win: "window_ok plan p q (length plain)" and in_win: "p \<le> unat start" "min (unat stop) (length plain) \<le> q"
  shows "decode_range cr u (pp_slot plan) (pp_key plan) (header_of plan seed (length plain))
      (byte_slice p q (body_of cr seed u plan plain)) (word_of_nat p) start stop =
    Inr (byte_slice (unat start) (min (unat stop) (length plain)) plain)"
proof -
  let ?l = "length plain" and ?h = "header_of plan seed (length plain)"
  let ?fin = "max (min stop (ph_size ?h)) (min start (ph_size ?h))"
  have sz: "unat (ph_size ?h) = ?l" using len by (simp add: header_of_def)
  have pq: "p \<le> q" "q \<le> ?l" using win by (cases "pp_mode plan"; simp add: window_ok_def chunk_aligned_def)+
  have p64: "p < 2 ^ 64" and up: "unat (word_of_nat p :: u64) = p" using pq len by simp_all
  show ?thesis
  proof (cases "?fin \<le> start")
    case True
    then have "min (unat stop) ?l \<le> unat start" using sz by (simp add: word_le_nat_alt min_def max_def split: if_splits)
    then show ?thesis using True by (simp add: decode_range_def Let_def byte_slice_def)
  next
    case False
    have e: "unat ?fin = min (unat stop) ?l" using False sz by (auto simp: word_le_nat_alt min_def max_def split: if_splits)
    have lt: "unat start < min (unat stop) ?l" using False sz by (simp add: word_le_nat_alt not_le)
    define t where "t = min (unat stop) ?l"
    let ?i = "unat start - p" and ?j = "unat start - p + (unat ?fin - unat start)"
    have j: "?j = unat ?fin - p" "?j \<le> q - p" using lt in_win e by simp_all
    have fin: "byte_slice ?i ?j (byte_slice p q plain) = byte_slice (unat start) (min (unat stop) ?l) plain"
    proof -
      have "unat ?fin = t" "unat start < t" "t \<le> q" using e lt in_win by (simp_all only: t_def)
      then have "p + ?i = unat start" "p + ?j = t" "p + ?j \<le> q" using in_win(1) by simp_all
      then show ?thesis using slice_slice[of p ?j q ?i plain] by (simp only: t_def)
    qed
    have sub: "unat (start - word_of_nat p) = ?i" using in_win(1) up by (simp add: unat_sub word_le_nat_alt)
    show ?thesis
    proof (cases "pp_mode plan")
      case Obfuscate
      have b: "max (unat (ph_block ?h)) 1 = max (pp_block plan) 1"
        using assms(2) by (simp add: header_of_def usable_plan_def unsigned_of_nat take_bit_nat_eq_self)
      have w: "byte_slice p q (body_of cr seed u plan plain) =
          obfuscate_from_block cr u (pp_slot plan) seed (max (pp_block plan) 1) (pp_prng plan)
            (word_of_nat (p div max (pp_block plan) 1)) (byte_slice p q plain)"
        using slice_obfuscate[of "max (pp_block plan) 1" p q plain] win Obfuscate by (simp add: body_of_def window_ok_def)
      have "decode_obfuscate_range cr u (pp_slot plan) ?h (byte_slice p q (body_of cr seed u plan plain)) (word_of_nat p) start ?fin =
          Inr (byte_slice ?i ?j (byte_slice p q plain))"
      proof -
        have fields: "ph_seed ?h = seed" "ph_prng ?h = pp_prng plan" by (simp_all add: header_of_def)
        have "length (byte_slice p q plain) = q - p" using pq by simp
        then have "\<not> length (byte_slice p q plain) < ?j" using j(2) by (simp only: not_less)
        then show ?thesis
          unfolding decode_obfuscate_range_def b w Let_def up fields obfuscate_twice by (simp only: if_False)
      qed
      then show ?thesis using False Obfuscate fin by (simp add: decode_range_def Let_def header_of_def)
    next
      case Encrypt
      then obtain key where key: "pp_key plan = Some key" using assms(2) by (auto simp: usable_plan_def)
      have "\<not> start < word_of_nat p" using in_win(1) up by (simp add: word_less_nat_alt)
      then have "decode_encrypt_range cr (Some key) ?h (byte_slice p q (body_of cr seed u plan plain)) (word_of_nat p) start ?fin =
          Inr (byte_slice ?i ?j (byte_slice p q plain))"
      proof -
        assume ge: "\<not> start < word_of_nat p"
        have b: "body_of cr seed u plan plain = encrypt_in_place cr key seed plain" "ph_seed ?h = seed"
          using Encrypt key by (simp_all add: body_of_def header_of_def)
        have er: "encrypt_range_in_place cr key seed (word_of_nat p) (byte_slice p q (encrypt_in_place cr key seed plain)) = byte_slice p q plain"
          by (rule encrypt_range[OF assms(1) pq p64])
        have "length (byte_slice p q plain) = q - p" using pq by simp
        then have "\<not> length (byte_slice p q plain) < ?j" using j(2) by (simp only: not_less)
        then show ?thesis
          using ge
          by (simp only: decode_encrypt_range_def b Let_def sub er option.case if_False)
      qed
      then show ?thesis using False Encrypt key fin by (simp add: decode_range_def Let_def header_of_def)
    qed
  qed
qed

section \<open>Integrity of a window\<close>

abbreviation tag_of :: "crypto \<Rightarrow> string \<Rightarrow> nat \<Rightarrow> string \<Rightarrow> string" where
  "tag_of cr key i \<equiv> chunk_mac cr (derive_encrypt_mac_key cr key) (word_of_nat i)"

lemma verify_window_iff:
  assumes "lawful_crypto cr" and "p < 2 ^ 64" "length window < 2 ^ 64"
  shows "verify_encrypt_window cr key chunk (word_of_nat p) window tags = Inr () \<longleftrightarrow>
    tags = map_chunks (unat chunk) (tag_of cr key) (p div max (unat chunk) 1) window"
proof -
  let ?m = "max (unat chunk) 1" and ?f = "tag_of cr key"
  have m: "unat (max chunk 1) = ?m"
    by (cases "1 \<le> chunk") (auto simp: max_def word_le_nat_alt unat_eq_zero)
  have len: "length (chunk_mac cr k i c) = PROTECTED_MAC_LEN" for k i c
    using assms(1) by (simp add: chunk_mac_def lawful_crypto_def)
  have count: "integrity_chunk_count (word_of_nat (length window)) (max chunk 1) = chunks_of ?m (length window)"
    unfolding integrity_chunk_count_eq m using assms(3) by simp
  have first: "word_of_nat p div ucast (max chunk 1) = (word_of_nat (p div ?m) :: u64)"
  proof -
    have "unat (max chunk 1) < 2 ^ 64" using unsigned_less[of "max chunk 1", where 'a = nat] by simp
    then have "unat (ucast (max chunk 1) :: u64) = ?m" using m by (simp only: unsigned_ucast_eq) (simp add: take_bit_nat_eq_self)
    then have "unat (word_of_nat p div ucast (max chunk 1) :: u64) = p div ?m" using assms(2) by (simp add: unat_div)
    then show ?thesis by (metis of_nat_eq add.right_neutral mult_zero_left)
  qed
  have same: "map_chunks ?m ?f i w = map_chunks (unat chunk) ?f i w" for i w
  proof (induction "length w" arbitrary: i w rule: less_induct)
    case less
    then show ?case by (cases "w = []") (simp_all add: map_chunks_step)
  qed
  show ?thesis
  proof (cases "length tags = chunks_of ?m (length window) * PROTECTED_MAC_LEN")
    case True
    have "verify_chunks (chunk_mac cr (derive_encrypt_mac_key cr key)) ?m (word_of_nat (p div ?m)) window tags = Inr () \<longleftrightarrow>
        tags = map_chunks ?m ?f (p div ?m) window"
      by (rule verify_chunks_iff) (use True len in simp_all)
    then show ?thesis using True unfolding verify_encrypt_window_def Let_def count first m same by simp
  next
    case False
    then have "tags \<noteq> map_chunks (unat chunk) ?f (p div ?m) window"
      using map_chunks_tag_length[of ?f PROTECTED_MAC_LEN "unat chunk" "p div ?m" window] len by auto
    then show ?thesis using False unfolding verify_encrypt_window_def Let_def count by simp
  qed
qed

lemma table_window:
  assumes "lawful_crypto cr" and win: "chunk_aligned (max n 1) p q (length body)"
  shows "byte_slice (p div max n 1 * PROTECTED_MAC_LEN) ((p div max n 1 + chunks_of (max n 1) (q - p)) * PROTECTED_MAC_LEN)
      (build_encrypt_mac_table cr key n body) = map_chunks n (tag_of cr key) (p div max n 1) (byte_slice p q body)"
proof -
  let ?m = "max n 1" and ?f = "tag_of cr key" and ?t = PROTECTED_MAC_LEN
  obtain a b where ab: "length (take p body) = a * ?m" "drop q body = [] \<or> length (byte_slice p q body) = b * ?m" "p = a * ?m"
    using window_parts[OF win] .
  have pq: "p \<le> q" "q \<le> length body" using win by (auto simp: chunk_aligned_def)
  have len: "length (?f i c) = ?t" for i c using assms(1) by (simp add: chunk_mac_def lawful_crypto_def)
  have x: "length (map_chunks n ?f 0 (take p body)) = a * ?t"
    using map_chunks_const_length[OF ab(1), of ?f ?t 0] len by simp
  have w: "length (map_chunks n ?f a (byte_slice p q body)) = chunks_of ?m (q - p) * ?t"
    using map_chunks_tag_length[of ?f ?t n a "byte_slice p q body"] len pq by simp
  have d: "p div ?m = a" using ab(3) by simp
  have "build_encrypt_mac_table cr key n body = map_chunks n ?f 0 (take p body @ byte_slice p q body @ drop q body)"
    unfolding build_encrypt_mac_table_def using slice_split[OF pq] by simp
  also have "\<dots> = map_chunks n ?f 0 (take p body) @ map_chunks n ?f a (byte_slice p q body) @ map_chunks n ?f (a + b) (drop q body)"
    by (rule map_chunks_window[OF ab(1,2)])
  finally show ?thesis
    unfolding d using slice_middle[OF x, of "map_chunks n ?f a (byte_slice p q body)"] w by (simp add: algebra_simps)
qed

end
