(* ===== verification/Protected_Ops.thy ===== *)
theory Protected_Ops
  imports Engine_Ops Protected_Codec
begin

text \<open>
  The engine's operations below a protected root (\<open>vfs/scoped/protected.rs\<close> and the plan in
  \<open>vfs/scoped/internal.rs\<close>): the content goes to a blob with an opaque name, the index row keeps its key, its size
  in the storage and the metadata needed to decode it. \<open>vault\<close> is what these operations take from outside the
  repository: the crates of the codec, the random bytes of the write, and the names of new blobs.
\<close>

record vault =
  va_crypto :: crypto
  va_sha :: "string \<Rightarrow> string"
  va_seed :: string
  va_blob :: "nat \<Rightarrow> string"
  va_licensed :: bool
  va_global_mode :: string
  va_block_kib :: nat
  va_prng :: string
  va_unwrap :: "string \<Rightarrow> string + string"

section \<open>The plan\<close>

definition trimmed :: "string option \<Rightarrow> string option" where
  "trimmed v = (case v of Some s \<Rightarrow> (if rust_trim s = [] then None else Some (rust_trim s)) | None \<Rightarrow> None)"

definition unwrap_key :: "vault \<Rightarrow> string option \<Rightarrow> vfs_error + string" where
  "unwrap_key x wrapped =
     (case trimmed wrapped of
        None \<Rightarrow> Inl (Internal ''Protected wrapped key is missing'')
      | Some k \<Rightarrow>
          (case va_unwrap x k of
             Inl err \<Rightarrow> Inl (Internal err)
           | Inr plain \<Rightarrow>
               (case cr_unhex (va_crypto x) (rust_trim plain) of
                  Inl err \<Rightarrow> Inl (Internal (''Decode protected wrapped key failed: '' @ err))
                | Inr raw \<Rightarrow> if length raw \<noteq> 32 then Inl (Internal ''Protected wrapped key size is invalid'') else Inr raw)))"

definition open_plan :: "vault \<Rightarrow> settings_snapshot \<Rightarrow> string \<Rightarrow> vfs_error + protected_plan" where
  "open_plan x s root =
     (case (trimmed (sn_prot_mode s), trimmed (sn_prot_slot s)) of
        (None, _) \<Rightarrow> Inl (Internal ''Protected mode is missing'')
      | (_, None) \<Rightarrow> Inl (Internal ''Protected key slot is missing'')
      | (Some mode_raw, Some slot) \<Rightarrow>
          (case parse_mode mode_raw of
             Inl _ \<Rightarrow> Inl (Internal (''Unsupported protected mode: '' @ mode_raw))
           | Inr mode \<Rightarrow>
               if mode = Encrypt \<and> \<not> va_licensed x
               then Inl (Internal ''Storage encryption is disabled. Valid license and 'enabled' flag required.'')
               else if to_ascii_lowercase (rust_trim (va_global_mode x)) \<noteq> to_ascii_lowercase mode_raw
               then Inl (Internal ''Protected storage is temporarily unavailable because global mode does not match'')
               else
                 (case parse_prng (va_prng x) of
                    Inl _ \<Rightarrow> Inl (Internal (''Unsupported protected storage PRNG: '' @ va_prng x))
                  | Inr prng \<Rightarrow>
                      res_bind
                        (if mode = Encrypt then res_bind (unwrap_key x (sn_prot_key s)) (\<lambda>k. Inr (Some k)) else Inr None)
                        (\<lambda>key. Inr \<lparr>pp_root = root, pp_mode = mode, pp_slot = slot, pp_block = va_block_kib x * 1024,
                                    pp_prng = prng, pp_key = key\<rparr>))))"

section \<open>Index rows\<close>

definition row_info_at :: "index_row \<Rightarrow> string \<Rightarrow> string \<Rightarrow> vfs_file_info" where
  "row_info_at r name path = (file_info_of_row r)\<lparr>fi_name := name, fi_path := path, fi_size := word_of_int (max (ir_size r) 0)\<rparr>"

definition file_info_from_index :: "index_row \<Rightarrow> vfs_file_info" where
  "file_info_from_index r = row_info_at r (ir_name r) (ir_path r)"

definition name_of_path :: "string \<Rightarrow> string" where
  "name_of_path path = (case path_file_name path of Some n \<Rightarrow> n | None \<Rightarrow> [])"

definition file_info_from_index_with_path :: "index_row \<Rightarrow> string \<Rightarrow> vfs_file_info" where
  "file_info_from_index_with_path r path = row_info_at r (name_of_path path) path"

definition map_subtree_path :: "string \<Rightarrow> string \<Rightarrow> string \<Rightarrow> string" where
  "map_subtree_path src_root dst_root path =
     (if path = src_root then dst_root else dst_root @ drop (length src_root) path)"

definition meta_from_index :: "vault \<Rightarrow> index_row \<Rightarrow> vfs_error + protected_meta" where
  "meta_from_index x r =
     (case ir_protected r of
        None \<Rightarrow> Inl (Internal ''Protected metadata is missing'')
      | Some raw \<Rightarrow> (case meta_from_json (va_crypto x) raw of Inl err \<Rightarrow> Inl (Internal err) | Inr m \<Rightarrow> Inr m))"

definition header_from_index :: "vault \<Rightarrow> index_row \<Rightarrow> vfs_error + protected_header" where
  "header_from_index x r =
     (case ir_protected r of
        None \<Rightarrow> Inl (Internal ''Protected metadata is missing'')
      | Some raw \<Rightarrow> (case header_from_meta_json (va_crypto x) raw of Inl err \<Rightarrow> Inl (Internal err) | Inr h \<Rightarrow> Inr h))"

definition subtree_rows :: "'p engine \<Rightarrow> string \<Rightarrow> 'p world \<Rightarrow> vfs_error + index_row list" where
  "subtree_rows e root w =
     (if \<not> eg_up_index e then Inl (Internal (db_text DbUnavailable))
      else Inr (filter (\<lambda>r. ir_user r = eg_user e \<and>
             (ir_path r = root \<or> like_prefix (trim_end_matches slash root @ ''/'') (ir_path r)) \<and> ir_row_deleted r = None)
           (db_files (wd_index w))))"

definition protected_subtree_rows :: "'p engine \<Rightarrow> string \<Rightarrow> 'p world \<Rightarrow> vfs_error + index_row list" where
  "protected_subtree_rows e root w = res_bind (subtree_rows e root w) (\<lambda>rs. Inr (order_asc (\<lambda>r. length (ir_path r)) rs))"

definition next_protected_blob_physical_path :: "vault \<Rightarrow> 'p engine \<Rightarrow> string \<Rightarrow> nat \<Rightarrow> ('p, string) engine_call" where
  "next_protected_blob_physical_path x e slot k w =
     (case physical e (next_blob_logical_path (va_sha x) (va_crypto x) (va_blob x k) slot) of
        Inl err \<Rightarrow> (Inl err, w)
      | Inr p \<Rightarrow>
          (Inr p,
           (case path_parent p of
              Some d \<Rightarrow> if d \<noteq> [] then snd (on_pool (pool_create_dir (eg_pool e) d) w) else w
            | None \<Rightarrow> w)))"

section \<open>Reading\<close>

text \<open>
  The part of the blob that covers a range, from the front of the first block or chunk to the end of the last, and
  the tags of these chunks. A division by a chunk size of zero, which only foreign metadata has, panics in the code.
\<close>

definition blob_part :: "'p engine \<Rightarrow> string \<Rightarrow> u64 \<Rightarrow> u64 \<Rightarrow> ('p, string) engine_call" where
  "blob_part e key start stop w =
     (case on_pool (pool_read_range (eg_pool e) (fst (eg_clk e)) key start stop) w of
        (Inl err, w1) \<Rightarrow> (Inl err, w1)
      | (Inr (d, _), w1) \<Rightarrow> (Inr d, w1))"

definition aligned_up :: "u64 \<Rightarrow> u64 \<Rightarrow> u64" where
  "aligned_up n unit = sat_add_u64 n (unit - 1) div unit * unit"

type_synonym payload = "protected_header \<times> protected_meta \<times> u64 \<times> string \<times> string option"

definition plain_window ::
  "'p engine \<Rightarrow> string \<Rightarrow> protected_header \<Rightarrow> protected_meta \<Rightarrow> u64 \<Rightarrow> u64 \<Rightarrow> ('p, payload) engine_call" where
  "plain_window e key h m start stop =
     (let block_size = max (ucast (ph_block h)) 1; first = start div block_size * block_size;
          stop_at = min (aligned_up stop block_size) (ph_size h) in
      st_bind (blob_part e key (of_nat PROTECTED_HEADER_LEN + first) (of_nat PROTECTED_HEADER_LEN + stop_at)) (\<lambda>d.
        give (h, m, first, d, None)))"

definition checked_window ::
  "'p engine \<Rightarrow> string \<Rightarrow> u64 \<Rightarrow> protected_header \<Rightarrow> protected_meta \<Rightarrow> u64 \<Rightarrow> u64 \<Rightarrow> ('p, payload) engine_call" where
  "checked_window e key physical_size h m start stop =
     (let chunk = ucast (case pm_chunk m of Some c \<Rightarrow> c | None \<Rightarrow> DEFAULT_CHUNK_SIZE) :: u64 in
      if chunk = 0 then give_up (Internal ''attempt to divide by zero'')
      else
        (let first = start div chunk * chunk;
             stop_at = min (aligned_up stop chunk) (ph_size h);
             covered = of_nat (integrity_chunk_count (sat_sub_u64 stop_at first) (ucast chunk));
             tags_at = of_nat PROTECTED_HEADER_LEN + ph_size h + first div chunk * of_nat PROTECTED_MAC_LEN;
             tags_end = tags_at + covered * of_nat PROTECTED_MAC_LEN in
         st_bind (blob_part e key (of_nat PROTECTED_HEADER_LEN + first) (of_nat PROTECTED_HEADER_LEN + stop_at)) (\<lambda>d.
         st_bind (blob_part e key tags_at (min tags_end physical_size)) (\<lambda>tags.
           give (h, m, first, d, Some tags)))))"

definition unchecked_window ::
  "'p engine \<Rightarrow> string \<Rightarrow> u64 \<Rightarrow> protected_header \<Rightarrow> protected_meta \<Rightarrow> u64 \<Rightarrow> u64 \<Rightarrow> ('p, payload) engine_call" where
  "unchecked_window e key physical_size h m start stop =
     st_bind (blob_part e key (of_nat PROTECTED_HEADER_LEN + start)
         (min (of_nat PROTECTED_HEADER_LEN + stop) (max physical_size (of_nat PROTECTED_HEADER_LEN)))) (\<lambda>d.
       give (h, m, start, d, None))"

definition protected_read_payload_range ::
  "vault \<Rightarrow> 'p engine \<Rightarrow> index_row \<Rightarrow> u64 \<Rightarrow> u64 \<Rightarrow> ('p, payload) engine_call" where
  "protected_read_payload_range x e r start stop w =
     (case (case ir_key r of None \<Rightarrow> Inl (Internal ''Protected file backend key is missing'') | Some key \<Rightarrow>
             res_bind (header_from_index x r) (\<lambda>h. res_bind (meta_from_index x r) (\<lambda>m. Inr (key, h, m)))) of
        Inl err \<Rightarrow> (Inl err, w)
      | Inr (key, h, m) \<Rightarrow>
          (let physical_size = word_of_int (max (case ir_physical_size r of Some s \<Rightarrow> s | None \<Rightarrow> 0) 0);
               logical_end = min stop (ph_size h) in
           (case ph_mode h of
              Obfuscate \<Rightarrow> plain_window e key h m start logical_end
            | Encrypt \<Rightarrow>
                if pm_integrity m = INTEGRITY_HMAC then checked_window e key physical_size h m start logical_end
                else unchecked_window e key physical_size h m start logical_end) w))"

definition check_payload :: "vault \<Rightarrow> protected_plan \<Rightarrow> payload \<Rightarrow> vfs_error + unit" where
  "check_payload x plan pl =
     (case pl of (h, m, first, d, tags) \<Rightarrow>
      if ph_mode h = Encrypt \<and> pm_integrity m = INTEGRITY_HMAC then
        (case (pp_key plan, tags) of
           (None, _) \<Rightarrow> Inl (Internal ''Protected encrypt key is missing'')
         | (_, None) \<Rightarrow> Inl (Internal ''Protected MAC bytes are missing'')
         | (Some key, Some t) \<Rightarrow>
             (case verify_encrypt_window (va_crypto x) key (case pm_chunk m of Some c \<Rightarrow> c | None \<Rightarrow> DEFAULT_CHUNK_SIZE) first d t of
                Inl err \<Rightarrow> Inl (Internal err) | Inr _ \<Rightarrow> Inr ()))
      else Inr ())"

definition decoded_range ::
  "vault \<Rightarrow> 'p engine \<Rightarrow> protected_plan \<Rightarrow> index_row \<Rightarrow> u64 \<Rightarrow> u64 \<Rightarrow> ('p, string) engine_call" where
  "decoded_range x e plan r start stop =
     st_bind (protected_read_payload_range x e r start stop) (\<lambda>pl.
       look (\<lambda>_. res_bind (check_payload x plan pl) (\<lambda>_.
         case pl of (h, m, first, d, tags) \<Rightarrow>
           (case decode_range (va_crypto x) (eg_user e) (pp_slot plan) (pp_key plan) h d first start stop of
              Inl err \<Rightarrow> Inl (Internal err) | Inr data \<Rightarrow> Inr data))))"

definition protected_row :: "'p engine \<Rightarrow> string \<Rightarrow> 'p world \<Rightarrow> vfs_error + index_row" where
  "protected_row e n w =
     res_bind (get_index_metadata e n w) (\<lambda>row. case row of None \<Rightarrow> Inl (NotFound n) | Some r \<Rightarrow> Inr r)"

definition protected_read_all_impl ::
  "vault \<Rightarrow> 'p engine \<Rightarrow> protected_plan \<Rightarrow> string \<Rightarrow> ('p, string \<times> vfs_file_info) engine_call" where
  "protected_read_all_impl x e plan n =
     st_bind (look (protected_row e n)) (\<lambda>r.
       if ir_is_dir r then give_up (Internal ''Protected directories cannot be read as files'')
       else st_bind (decoded_range x e plan r 0 (word_of_int (max (ir_size r) 0))) (\<lambda>data.
         give (data, file_info_from_index r)))"

definition protected_read_range_impl ::
  "vault \<Rightarrow> 'p engine \<Rightarrow> protected_plan \<Rightarrow> string \<Rightarrow> u64 \<Rightarrow> u64 \<Rightarrow> ('p, string \<times> vfs_file_info) engine_call" where
  "protected_read_range_impl x e plan n start stop =
     st_bind (look (protected_row e n)) (\<lambda>r.
       let logical_end = min stop (word_of_int (max (ir_size r) 0)) in
       if logical_end \<le> start then give ([], file_info_from_index r)
       else st_bind (decoded_range x e plan r start logical_end) (\<lambda>data. give (data, file_info_from_index r)))"

definition protected_read_stream_range_impl ::
  "vault \<Rightarrow> 'p engine \<Rightarrow> protected_plan \<Rightarrow> string \<Rightarrow> u64 \<Rightarrow> u64 \<Rightarrow> ('p, (vfs_error + string) list \<times> vfs_file_info) engine_call" where
  "protected_read_stream_range_impl x e plan n start stop =
     st_bind (protected_read_range_impl x e plan n start stop) (\<lambda>p. give ([Inr (fst p)], snd p))"

section \<open>Writing\<close>

text \<open>A new blob name is asked for even when the row has one. The index error of an overwrite leaves the journal row open.\<close>

definition written_info :: "'p engine \<Rightarrow> string \<Rightarrow> bool \<Rightarrow> nat \<Rightarrow> int \<Rightarrow> vfs_file_info" where
  "written_info e n is_dir sz color =
     (plain_info (name_of_path n) n is_dir (word_of_nat sz) (Some (eg_now e)))\<lparr>fi_favorite_color := color\<rparr>"

definition stored_blob ::
  "'p engine \<Rightarrow> string \<Rightarrow> index_row option \<Rightarrow> string \<Rightarrow> string \<Rightarrow> string \<Rightarrow> nat \<Rightarrow> int \<Rightarrow> int option \<Rightarrow>
   ('p, vfs_file_info) engine_call" where
  "stored_blob e n existing key encoded meta sz diff wal_id w =
     (case on_pool (pool_write (eg_pool e) key encoded) w of
        (Inl err, w1) \<Rightarrow>
          (Inl err, journal_log e ''PROTECTED_WRITE'' n None False (Some (vfs_text err)) (fail_wal e wal_id (vfs_text err) w1))
      | (Inr _, w1) \<Rightarrow>
          (let info = written_info e n False sz (case existing of Some r \<Rightarrow> ir_favorite r | None \<Rightarrow> 0) in
           case upsert_index_with_key e n info (Some key) (Some (int (length encoded))) (Some meta)
                  (mark_wal_physical_done e wal_id w1) of
             (Inl err, w2) \<Rightarrow> (Inl err, w2)
           | (Inr _, w2) \<Rightarrow>
               (let w3 = complete_wal e wal_id w2; w4 = (if diff = 0 then w3 else add_quota e diff w3) in
                (Inr info, journal_log e ''PROTECTED_WRITE'' n None True None w4))))"

definition protected_write_impl ::
  "vault \<Rightarrow> 'p engine \<Rightarrow> protected_plan \<Rightarrow> string \<Rightarrow> string \<Rightarrow> ('p, vfs_file_info) engine_call" where
  "protected_write_impl x e plan n data w =
     (case res_bind (check_maintenance e w) (\<lambda>_. res_bind (get_index_metadata e n w) (\<lambda>existing.
             let diff = int (length data) - (case existing of Some r \<Rightarrow> max (ir_size r) 0 | None \<Rightarrow> 0) in
             res_bind (if 0 < diff then engine_check_quota e diff w else Inr ()) (\<lambda>_. Inr (existing, diff)))) of
        Inl err \<Rightarrow> (Inl err, w)
      | Inr (existing, diff) \<Rightarrow>
          st_bind (next_protected_blob_physical_path x e (pp_slot plan) 0) (\<lambda>fresh w1.
            let key = (case Option.bind existing ir_key of Some k \<Rightarrow> k | None \<Rightarrow> fresh) in
            case encode_payload (va_crypto x) (va_seed x) (eg_user e) plan data of
              Inl err \<Rightarrow> (Inl (Internal err), w1)
            | Inr (encoded, _, meta) \<Rightarrow>
                st_bind
                  (begin_wal e
                    (WalWrite n (word_of_nat (length data))
                      (Some \<lparr>pw_backend_key = key, pw_physical_size = int (length encoded), pw_meta = meta\<rparr>))
                    (should_skip_wal_for_write e n (word_of_nat (length data))))
                  (stored_blob e n existing key encoded meta (length data) diff) w1) w)"

fun gather :: "string \<Rightarrow> (vfs_error + string) list \<Rightarrow> vfs_error + string" where
  "gather buffer [] = Inr buffer"
| "gather buffer (Inl err # cs) = Inl err"
| "gather buffer (Inr c # cs) = gather (buffer @ c) cs"

definition protected_write_stream_impl ::
  "vault \<Rightarrow> 'p engine \<Rightarrow> protected_plan \<Rightarrow> string \<Rightarrow> (vfs_error + string) list \<Rightarrow> ('p, vfs_file_info) engine_call" where
  "protected_write_stream_impl x e plan n stream w =
     (case gather [] stream of Inl err \<Rightarrow> (Inl err, w) | Inr data \<Rightarrow> protected_write_impl x e plan n data w)"

definition protected_write_at_impl ::
  "vault \<Rightarrow> 'p engine \<Rightarrow> protected_plan \<Rightarrow> string \<Rightarrow> u64 \<Rightarrow> string \<Rightarrow> ('p, vfs_file_info) engine_call" where
  "protected_write_at_impl x e plan n offset data w =
     (case protected_read_all_impl x e plan n w of
        (Inr (current, _), w1) \<Rightarrow> protected_write_impl x e plan n (splice current (unat offset) data) w1
      | (Inl (NotFound _), w1) \<Rightarrow> protected_write_impl x e plan n (splice [] (unat offset) data) w1
      | (Inl err, w1) \<Rightarrow> (Inl err, w1))"

section \<open>Deleting, directories, moving\<close>

definition index_reply :: "(db_error + 'a) \<times> 'p world \<Rightarrow> (vfs_error + 'a) \<times> 'p world" where
  "index_reply y = (case y of (r, w) \<Rightarrow> (db_internal r, w))"

fun delete_blobs :: "'p engine \<Rightarrow> string list \<Rightarrow> ('p, unit) engine_call" where
  "delete_blobs e [] = give ()"
| "delete_blobs e (k # ks) = st_bind (on_pool (pool_delete (eg_pool e) k)) (\<lambda>_. delete_blobs e ks)"

definition protected_delete_impl :: "'p engine \<Rightarrow> string \<Rightarrow> ('p, vfs_file_info) engine_call" where
  "protected_delete_impl e n w =
     (case res_bind (check_maintenance e w) (\<lambda>_. res_bind (protected_row e n w) (\<lambda>r.
             res_bind (if ir_is_dir r then subtree_rows e n w else Inr [r]) (\<lambda>rs. Inr (r, rs)))) of
        Inl err \<Rightarrow> (Inl err, w)
      | Inr (r, rs) \<Rightarrow>
          (let reclaimed = sum_list (map (\<lambda>r. max (ir_size r) 0) (filter (\<lambda>r. \<not> ir_is_dir r) rs));
               keys = rev (remdups (rev (List.map_filter ir_key rs))) in
           st_bind (begin_wal e (WalDelete n) (should_skip_wal_for_path e n)) (\<lambda>wal_id.
           st_bind (delete_blobs e keys) (\<lambda>_ w1.
             case index_reply (on_index_of e (\<lambda>up. delete_file up (eg_user e) n) (mark_wal_physical_done e wal_id w1)) of
               (Inl err, w2) \<Rightarrow> (Inl err, w2)
             | (Inr _, w2) \<Rightarrow>
                 (let w3 = complete_wal e wal_id w2; w4 = (if 0 < reclaimed then add_quota e (- reclaimed) w3 else w3) in
                  (Inr (file_info_from_index r), journal_log e ''PROTECTED_DELETE'' n None True None w4)))) w))"

definition protected_create_dir_impl :: "'p engine \<Rightarrow> string \<Rightarrow> ('p, vfs_file_info) engine_call" where
  "protected_create_dir_impl e n w =
     (case get_index_metadata e n w of
        Inl err \<Rightarrow> (Inl err, w)
      | Inr (Some r) \<Rightarrow> (Inr (file_info_from_index r), w)
      | Inr None \<Rightarrow>
          (let info = written_info e n True 0 0 in
           case upsert_index_with_key e n info None None None w of
             (Inl err, w1) \<Rightarrow> (Inl err, w1)
           | (Inr _, w1) \<Rightarrow> (Inr info, journal_log e ''PROTECTED_MKDIR'' n None True None w1)))"

definition target_free :: "'p engine \<Rightarrow> string \<Rightarrow> string \<Rightarrow> 'p world \<Rightarrow> vfs_error + unit" where
  "target_free e what dst w =
     res_bind (get_index_metadata e dst w) (\<lambda>row.
       if row \<noteq> None then Inl (Internal (''Protected '' @ what @ '' target already exists'')) else Inr ())"

definition protected_move_same_domain_impl :: "'p engine \<Rightarrow> string \<Rightarrow> string \<Rightarrow> ('p, vfs_file_info) engine_call" where
  "protected_move_same_domain_impl e src dst =
     st_bind (look (target_free e ''move'' dst)) (\<lambda>_.
     st_bind (begin_wal e (WalMove src dst) (should_skip_wal_for_path e src)) (\<lambda>wal_id w.
       case on_index_of e (\<lambda>up. move_file up (eg_now e) (eg_user e) src dst) (mark_wal_physical_done e wal_id w) of
         (Inl err, w1) \<Rightarrow>
           (Inl (Internal (db_text err)),
            fail_wal e wal_id (''PROTECTED_MOVE metadata sync failed for '' @ src @ '' -> '' @ dst @ '': '' @ db_text err) w1)
       | (Inr _, w1) \<Rightarrow>
           look (stat_impl e dst) (journal_log e ''PROTECTED_MOVE'' src (Some dst) True None (complete_wal e wal_id w1))))"

section \<open>Copying\<close>

fun build_protected_copy_plan ::
  "vault \<Rightarrow> 'p engine \<Rightarrow> string \<Rightarrow> string \<Rightarrow> string \<Rightarrow> nat \<Rightarrow> index_row list \<Rightarrow> ('p, copy_entry list) engine_call" where
  "build_protected_copy_plan x e slot src dst k [] = give []"
| "build_protected_copy_plan x e slot src dst k (r # rs) =
     st_bind
       (if ir_is_dir r then give None
        else st_bind (next_protected_blob_physical_path x e slot k) (\<lambda>p. give (Some p))) (\<lambda>key.
     st_bind (build_protected_copy_plan x e slot src dst (Suc k) rs) (\<lambda>entries.
       give (\<lparr>ce_src = ir_path r, ce_dst = map_subtree_path src dst (ir_path r), ce_is_dir = ir_is_dir r,
              ce_size = word_of_int (max (ir_size r) 0), ce_storage = ir_storage r, ce_backend = ir_backend r,
              ce_key = key, ce_physical_size = ir_physical_size r, ce_meta = ir_protected r\<rparr> # entries)))"

definition rollback_protected_copy_partial :: "'p engine \<Rightarrow> string list \<Rightarrow> string list \<Rightarrow> 'p world \<Rightarrow> 'p world" where
  "rollback_protected_copy_partial e paths keys w =
     fold (\<lambda>k w. snd (on_pool (pool_delete (eg_pool e) k) w)) (rev keys)
       (fold (\<lambda>p w. snd (on_index_of e (\<lambda>up. delete_file up (eg_user e) p) w)) (rev paths) w)"

text \<open>The blobs, then the rows. \<open>keys\<close> and \<open>paths\<close> are what was made so far, newest last.\<close>

fun copy_blobs :: "'p engine \<Rightarrow> int option \<Rightarrow> string list \<Rightarrow> (index_row \<times> copy_entry) list \<Rightarrow> ('p, string list) engine_call" where
  "copy_blobs e wal_id keys [] w = (Inr keys, w)"
| "copy_blobs e wal_id keys ((r, c) # rest) w =
     (if ir_is_dir r then copy_blobs e wal_id keys rest w
      else case (ir_key r, ce_key c) of
        (None, _) \<Rightarrow> (Inl (Internal ''Protected source backend key is missing''), w)
      | (_, None) \<Rightarrow> (Inl (Internal ''Protected copy plan is missing dst backend key''), w)
      | (Some a, Some b) \<Rightarrow>
          (case on_pool (pool_copy_file (eg_pool e) a b) w of
             (Inl err, w1) \<Rightarrow>
               (Inl err, fail_wal e wal_id (''PROTECTED_COPY physical copy failed for '' @ a @ '' -> '' @ b @ '': '' @ vfs_text err)
                           (rollback_protected_copy_partial e [] keys w1))
           | (Inr _, w1) \<Rightarrow> copy_blobs e wal_id (keys @ [b]) rest w1))"

fun copy_rows ::
  "'p engine \<Rightarrow> string \<Rightarrow> string \<Rightarrow> int option \<Rightarrow> string list \<Rightarrow> string list \<Rightarrow> (index_row \<times> copy_entry) list \<Rightarrow>
   ('p, unit) engine_call" where
  "copy_rows e src dst wal_id keys paths [] w = (Inr (), w)"
| "copy_rows e src dst wal_id keys paths ((r, c) # rest) w =
     (case upsert_index_with_key e (ce_dst c) (file_info_from_index_with_path r (ce_dst c))
             (if ir_is_dir r then None else ce_key c) (if ir_is_dir r then None else ce_physical_size c)
             (if ir_is_dir r then None else ce_meta c) w of
        (Inl err, w1) \<Rightarrow>
          (Inl err,
           fail_wal e wal_id
             ((if ir_is_dir r then ''PROTECTED_COPY directory metadata sync failed for '' @ src @ '' -> '' @ dst
               else ''PROTECTED_COPY metadata sync failed for '' @ src @ '' -> '' @ ce_dst c) @ '': '' @ vfs_text err)
             (rollback_protected_copy_partial e paths keys w1))
      | (Inr _, w1) \<Rightarrow> copy_rows e src dst wal_id keys (paths @ [ce_dst c]) rest w1)"

definition protected_copy_same_domain_impl ::
  "vault \<Rightarrow> 'p engine \<Rightarrow> protected_plan \<Rightarrow> string \<Rightarrow> string \<Rightarrow> ('p, vfs_file_info) engine_call" where
  "protected_copy_same_domain_impl x e plan src dst w =
     (case res_bind (target_free e ''copy'' dst w) (\<lambda>_. res_bind (protected_subtree_rows e src w) (\<lambda>rs.
             if rs = [] then Inl (NotFound src)
             else
               (let n_all = sum_list (map (\<lambda>r. max (ir_size r) 0) (filter (\<lambda>r. \<not> ir_is_dir r) rs)) in
                res_bind (if 0 < n_all then engine_check_quota e n_all w else Inr ()) (\<lambda>_. Inr (rs, n_all))))) of
        Inl err \<Rightarrow> (Inl err, w)
      | Inr (rs, n_all) \<Rightarrow>
          st_bind (build_protected_copy_plan x e (pp_slot plan) src dst 0 rs) (\<lambda>entries.
          st_bind (begin_wal e (WalCopy src dst (Some entries)) (should_skip_wal_for_path e src)) (\<lambda>wal_id.
          st_bind (copy_blobs e wal_id [] (zip rs entries)) (\<lambda>keys w1.
          st_bind (copy_rows e src dst wal_id keys [] (zip rs entries)) (\<lambda>_ w2.
            look (stat_impl e dst)
              (journal_log e ''PROTECTED_COPY'' src (Some dst) True None
                (complete_wal e wal_id (if 0 < n_all then add_quota e n_all w2 else w2))))
            (mark_wal_physical_done e wal_id w1)))) w)"

section \<open>The engine with its protected branches\<close>

definition protected_ops_of :: "vault \<Rightarrow> 'p engine \<Rightarrow> protected_plan \<Rightarrow> 'p protected_ops" where
  "protected_ops_of x e plan =
     \<lparr>po_read = protected_read_all_impl x e plan, po_read_range = protected_read_range_impl x e plan,
      po_read_stream_range = protected_read_stream_range_impl x e plan, po_write = protected_write_impl x e plan,
      po_write_stream = protected_write_stream_impl x e plan, po_write_at = protected_write_at_impl x e plan,
      po_delete = protected_delete_impl e, po_create_dir = protected_create_dir_impl e,
      po_move = protected_move_same_domain_impl e, po_copy = protected_copy_same_domain_impl x e plan\<rparr>"

end
