(* ===== verification/Protected_Claims.thy ===== *)
theory Protected_Claims
  imports Engine_Claims Pool_Claims Protected_Ops
begin

text \<open>
  What protected storage promises (\<open>vfs/protected.rs\<close>, \<open>vfs/scoped/protected.rs\<close>): the codec is lossless on
  every range, its MACs accept exactly the table that was written, the engine returns what it stored; and what is
  lost when an overwrite is interrupted.
\<close>

section \<open>Ranges of a stored blob\<close>

text \<open>The pool answers reads of \<open>p\<close> from the primary, which holds \<open>d\<close> there.\<close>

definition stored_at :: "'p pool_env \<Rightarrow> string \<Rightarrow> string \<Rightarrow> 'p pool \<Rightarrow> bool" where
  "stored_at env p d s \<longleftrightarrow>
     pl_write s = None \<and> (\<forall>r. pl_read s = Some r \<longrightarrow> map_of (rc_entries r) p = None) \<and>
     ranged_op (primary env) p (pl_primary s) \<and> op_read (primary env) p (pl_primary s) = Inr d"

lemma stored_cached_read:
  assumes "stored_at env p d s"
  shows "\<exists>r'. cached_read env now p s = (None, s\<lparr>pl_read := r'\<rparr>) \<and> (\<forall>r. r' = Some r \<longrightarrow> map_of (rc_entries r) p = None)"
proof (cases "pl_read s")
  case None
  then have "s\<lparr>pl_read := None\<rparr> = s" by (cases s) simp
  then show ?thesis using assms None
    by (intro exI[of _ None]) (simp add: stored_at_def cached_read_def with_write_cache_def)
next
  case (Some r)
  then have "rc_get (read_env env) now p r = (None, rc_miss r)" using assms by (simp add: stored_at_def rc_get_def)
  then show ?thesis using assms Some
    by (intro exI[of _ "Some (rc_miss r)"]) (simp add: stored_at_def cached_read_def with_write_cache_def rc_miss_def)
qed

lemma stored_range:
  assumes "stored_at env p d s"
  shows "\<exists>i s'. pool_read_range env now p a b s = (Inr (slice_bytes d a b, i), s') \<and> stored_at env p d s'"
proof -
  obtain r' where c: "cached_read env now p s = (None, s\<lparr>pl_read := r'\<rparr>)" "\<forall>r. r' = Some r \<longrightarrow> map_of (rc_entries r) p = None"
    using stored_cached_read[OF assms] by blast
  have st: "ranged_op (primary env) p (pl_primary s)" "op_read (primary env) p (pl_primary s) = Inr d"
    using assms by (simp_all add: stored_at_def)
  from ranged_reads[OF st, where a = a and b = b] obtain i
    where "stat_with_operator (primary env) p (pl_primary s) = Inr i"
      and "(case clamp_read_range a b (fi_size i) of (x, y) \<Rightarrow>
            res_bind (dal_res (op_read_range (primary env) p x y (pl_primary s))) (\<lambda>data. Inr (data, i))) = Inr (slice_bytes d a b, i)"
    by blast
  then have "pool_read_range env now p a b s = (Inr (slice_bytes d a b, i), s\<lparr>pl_read := r'\<rparr>)"
    by (simp add: pool_read_range_def c Let_def)
  moreover have "stored_at env p d (s\<lparr>pl_read := r'\<rparr>)" using assms c(2) by (simp add: stored_at_def)
  ultimately show ?thesis by blast
qed

lemma blob_part_stored:
  assumes "stored_at (eg_pool e) k d (wd_pool w)"
  shows "\<exists>s'. blob_part e k a b w = (Inr (slice_bytes d a b), w\<lparr>wd_pool := s'\<rparr>) \<and> stored_at (eg_pool e) k d s'"
  using stored_range[OF assms, of "fst (eg_clk e)" a b] by (auto simp: blob_part_def on_pool_def)

lemma write_stored_at:
  assumes law: "lawful_op (primary env) {p}" and none: "pl_write s = None"
    and w: "pool_write env p d s = (Inr info, s')" and "ranged_op (primary env) p (pl_primary s')"
  shows "stored_at env p d s'"
proof -
  have "pl_read s' = map_option (rc_remove (read_env env) p) (pl_read s)"
    using w by (auto simp: pool_write_def st_bind_def on_primary_def then_stat_def invalidate_read_cache_def
        split: prod.splits sum.splits)
  then show ?thesis
    using pool_write_stored[OF law none w] assms(4) by (auto simp: stored_at_def rc_remove_entries)
qed

section \<open>The window of a range\<close>

lemma of_nat_words:
  assumes "n < 2 ^ 64" "m < 2 ^ 64"
  shows "(word_of_nat n :: u64) div word_of_nat m = word_of_nat (n div m)"
    and "min (word_of_nat n :: u64) (word_of_nat m) = word_of_nat (min n m)"
    and "m \<le> n \<Longrightarrow> sat_sub_u64 (word_of_nat n) (word_of_nat m) = word_of_nat (n - m)"
    and "n + m < 2 ^ 64 \<Longrightarrow> sat_add_u64 (word_of_nat n) (word_of_nat m) = word_of_nat (n + m)"
proof -
  have "n div m < 2 ^ 64" using assms(1) by (rule le_less_trans[OF div_le_dividend])
  then show "(word_of_nat n :: u64) div word_of_nat m = word_of_nat (n div m)"
    using assms by (simp add: word_unat_eq_iff unat_div)
  show "m \<le> n \<Longrightarrow> sat_sub_u64 (word_of_nat n) (word_of_nat m) = word_of_nat (n - m)"
    using assms by (auto simp: sat_sub_u64_def word_less_nat_alt)
  show "n + m < 2 ^ 64 \<Longrightarrow> sat_add_u64 (word_of_nat n) (word_of_nat m) = word_of_nat (n + m)"
    using assms by (simp add: sat_add_u64_def)
qed (use assms in \<open>auto simp: word_le_nat_alt min_def\<close>)

lemma aligned_window:
  assumes "0 < m" "a \<le> e" "e \<le> l"
  shows "chunk_aligned m (a div m * m) (min ((e + (m - 1)) div m * m) l) l"
    and "a div m * m \<le> a" and "e \<le> min ((e + (m - 1)) div m * m) l"
proof -
  show le: "a div m * m \<le> a" by (rule div_times_less_eq_dividend)
  have "e + (m - 1) = (e + (m - 1)) div m * m + (e + (m - 1)) mod m" by simp
  moreover have "(e + (m - 1)) mod m \<le> m - 1" using mod_less_divisor[OF assms(1), of "e + (m - 1)"] by linarith
  ultimately have "e \<le> (e + (m - 1)) div m * m" by linarith
  then show up: "e \<le> min ((e + (m - 1)) div m * m) l" using assms(3) by simp
  show "chunk_aligned m (a div m * m) (min ((e + (m - 1)) div m * m) l) l"
    unfolding chunk_aligned_def
  proof (intro conjI)
    show "a div m * m \<le> min ((e + (m - 1)) div m * m) l" using le up assms(2) by linarith
  qed (simp_all add: min_def)
qed

lemma aligned_up_nat:
  assumes "0 < m" "n + m \<le> 2 ^ 63"
  shows "aligned_up (word_of_nat n) (word_of_nat m) = word_of_nat ((n + (m - 1)) div m * m)"
proof -
  have m1: "word_of_nat m - 1 = (word_of_nat (m - 1) :: u64)" using assms(1) by (simp add: of_nat_diff)
  have sum: "sat_add_u64 (word_of_nat n) (word_of_nat (m - 1)) = word_of_nat (n + (m - 1))"
    by (rule of_nat_words(4)) (use assms in simp_all)
  have quot: "(word_of_nat (n + (m - 1)) :: u64) div word_of_nat m = word_of_nat ((n + (m - 1)) div m)"
    by (rule of_nat_words(1)) (use assms in simp_all)
  show ?thesis unfolding aligned_up_def m1 sum quot by (simp only: of_nat_mult)
qed

lemma slice_part:
  assumes "length h = PROTECTED_HEADER_LEN" "p \<le> q" "q \<le> length body" "length (h @ body @ tags) < 2 ^ 64"
  shows "slice_bytes (h @ body @ tags) (of_nat PROTECTED_HEADER_LEN + word_of_nat p) (of_nat PROTECTED_HEADER_LEN + word_of_nat q) =
    byte_slice p q body"
proof -
  have w: "(of_nat PROTECTED_HEADER_LEN + word_of_nat n :: u64) = word_of_nat (PROTECTED_HEADER_LEN + n)" for n by simp
  have "unat (word_of_nat (PROTECTED_HEADER_LEN + p) :: u64) = PROTECTED_HEADER_LEN + p"
    "unat (word_of_nat (PROTECTED_HEADER_LEN + q) :: u64) = PROTECTED_HEADER_LEN + q"
    using assms by (intro u64_of_nat, simp)+
  then have "slice_bytes (h @ body @ tags) (of_nat PROTECTED_HEADER_LEN + word_of_nat p) (of_nat PROTECTED_HEADER_LEN + word_of_nat q) =
      take (q - p) (drop (PROTECTED_HEADER_LEN + p) (h @ body @ tags))"
    unfolding w slice_bytes_eq[OF assms(4)] by simp
  also have "drop (PROTECTED_HEADER_LEN + p) (h @ body @ tags) = drop p body @ tags"
    using assms(1-3) by simp
  finally show ?thesis using assms(2,3) by (simp add: byte_slice_def)
qed

section \<open>Payloads of a stored blob\<close>

abbreviation blob_of :: "crypto \<Rightarrow> string \<Rightarrow> string \<Rightarrow> protected_plan \<Rightarrow> string \<Rightarrow> string" where
  "blob_of cr seed u plan plain \<equiv> encode_header (header_of plan seed (length plain)) @ body_of cr seed u plan plain @
     tags_of cr plan (body_of cr seed u plan plain)"

text \<open>The row that a write of \<open>plain\<close> under the key \<open>k\<close> leaves in the index.\<close>

definition row_for :: "vault \<Rightarrow> string \<Rightarrow> protected_plan \<Rightarrow> string \<Rightarrow> string \<Rightarrow> string \<Rightarrow> index_row \<Rightarrow> bool" where
  "row_for x u plan seed k plain r \<longleftrightarrow>
     ir_key r = Some k \<and> ir_size r = int (length plain) \<and> \<not> ir_is_dir r \<and>
     ir_physical_size r = Some (int (length (blob_of (va_crypto x) seed u plan plain))) \<and>
     ir_protected r = Some (cr_json (va_crypto x) (meta_of (va_crypto x) plan seed (length plain)))"

lemma chunk_size_value: "unat DEFAULT_CHUNK_SIZE = 1048576"
  by (simp add: DEFAULT_CHUNK_SIZE_def)

lemma blob_short:
  assumes "lawful_crypto cr" "length seed = 16" "length plain < 2 ^ 61"
  shows "length (blob_of cr seed u plan plain) < 2 ^ 63"
proof -
  have "length (tags_of cr plan (body_of cr seed u plan plain)) \<le> length plain + 1048576"
  proof (cases "pp_mode plan")
    case Encrypt
    have "length (tags_of cr plan (body_of cr seed u plan plain)) = (length plain + 1048575) div 1048576 * 32"
      unfolding tags_of_def build_encrypt_mac_table_def Encrypt protected_mode.case
      by (subst map_chunks_tag_length[where t = PROTECTED_MAC_LEN])
        (use assms(1) in \<open>simp_all add: chunk_mac_def lawful_crypto_def chunk_size_value chunks_of_def PROTECTED_MAC_LEN_def\<close>)
    then show ?thesis by simp
  qed (simp add: tags_of_def)
  then show ?thesis using assms(2,3) by (simp add: length_encode_header header_of_def)
qed

lemma ucast_block: "n < 2 ^ 32 \<Longrightarrow> ucast (word_of_nat n :: u32) = (word_of_nat n :: u64)"
  by (simp add: word_unat_eq_iff unsigned_ucast_eq take_bit_nat_eq_self unsigned_of_nat)

lemma max_of_nat: "n < 2 ^ 64 \<Longrightarrow> max (word_of_nat n) 1 = (word_of_nat (max n 1) :: u64)"
  by (auto simp: max_def word_le_nat_alt)

lemma plain_window_stored:
  assumes st: "stored_at (eg_pool e) k (blob_of cr seed u plan plain) (wd_pool w)"
    and ok: "lawful_crypto cr" "usable_plan plan" "length seed = 16" "length plain < 2 ^ 61"
    and le: "a \<le> b" "b \<le> length plain"
  defines "n \<equiv> max (pp_block plan) 1"
  shows "\<exists>s'. plain_window e k (header_of plan seed' (length plain)) m (word_of_nat a) (word_of_nat b) w =
    (Inr (header_of plan seed' (length plain), m, word_of_nat (a div n * n),
       byte_slice (a div n * n) (min ((b + (n - 1)) div n * n) (length plain)) (body_of cr seed u plan plain), None),
     w\<lparr>wd_pool := s'\<rparr>)"
proof -
  let ?h = "header_of plan seed' (length plain)"
  have n: "0 < n" "n \<le> 2 ^ 32" using ok(2) by (simp_all add: n_def usable_plan_def)
  have bs: "max (ucast (ph_block ?h)) 1 = (word_of_nat n :: u64)"
    using ok(2) by (simp add: header_of_def ucast_block max_of_nat usable_plan_def n_def)
  have first: "(word_of_nat a :: u64) div word_of_nat n * word_of_nat n = word_of_nat (a div n * n)"
    using n le ok(4) by (simp add: of_nat_words)
  have up: "aligned_up (word_of_nat b) (word_of_nat n) = word_of_nat ((b + (n - 1)) div n * n)"
    by (rule aligned_up_nat) (use n le ok(4) in simp_all)
  let ?q = "min ((b + (n - 1)) div n * n) (length plain)"
  have "(b + (n - 1)) div n * n \<le> b + (n - 1)" by (rule div_times_less_eq_dividend)
  moreover have "b + (n - 1) < 2 ^ 64" using n le ok(4) by simp
  ultimately have "(b + (n - 1)) div n * n < 2 ^ 64" by (rule le_less_trans)
  moreover have "length plain < 2 ^ 64" using ok(4) by simp
  ultimately have stop: "min (aligned_up (word_of_nat b) (word_of_nat n)) (ph_size ?h) = word_of_nat ?q"
    unfolding up header_of_def protected_header.simps by (rule of_nat_words(2))
  note win = aligned_window(1)[OF n(1) le]
  have part: "slice_bytes (blob_of cr seed u plan plain) (of_nat PROTECTED_HEADER_LEN + word_of_nat (a div n * n))
      (of_nat PROTECTED_HEADER_LEN + word_of_nat ?q) = byte_slice (a div n * n) ?q (body_of cr seed u plan plain)"
  proof (rule slice_part)
    show "length (encode_header (header_of plan seed (length plain))) = PROTECTED_HEADER_LEN"
      using ok(3) by (simp add: length_encode_header header_of_def PROTECTED_HEADER_LEN_def)
    show "length (blob_of cr seed u plan plain) < 2 ^ 64" using blob_short[OF ok(1,3,4), of plan u] by simp
  qed (use win in \<open>simp_all add: chunk_aligned_def\<close>)
  from blob_part_stored[OF st] obtain s' where
    "blob_part e k (of_nat PROTECTED_HEADER_LEN + word_of_nat (a div n * n)) (of_nat PROTECTED_HEADER_LEN + word_of_nat ?q) w =
      (Inr (byte_slice (a div n * n) ?q (body_of cr seed u plan plain)), w\<lparr>wd_pool := s'\<rparr>)"
    unfolding part[symmetric] by blast
  then show ?thesis unfolding plain_window_def bs Let_def first stop by (auto simp: give_def st_bind_def)
qed

text \<open>The same for encrypted content, with the tags of the chunks in the window.\<close>

lemma slice_tags:
  assumes "length h = PROTECTED_HEADER_LEN" "length (h @ body @ tags) < 2 ^ 63" "i \<le> j" "j < 2 ^ 63"
  shows "slice_bytes (h @ body @ tags) (word_of_nat (PROTECTED_HEADER_LEN + length body + i))
      (min (word_of_nat (PROTECTED_HEADER_LEN + length body + j)) (word_of_nat (length (h @ body @ tags)))) = byte_slice i j tags"
proof -
  let ?n = "PROTECTED_HEADER_LEN + length body" and ?all = "length (h @ body @ tags)"
  have all: "?all = ?n + length tags" using assms(1) by simp
  have small: "?n + i < 2 ^ 64" "?n + j < 2 ^ 64" "?all < 2 ^ 64" using assms(2-4) all by simp_all
  have "min (word_of_nat (?n + j)) (word_of_nat ?all) = (word_of_nat (min (?n + j) ?all) :: u64)"
    by (rule of_nat_words(2)) (use small in simp_all)
  moreover have "unat (word_of_nat (?n + i) :: u64) = ?n + i" "unat (word_of_nat (min (?n + j) ?all) :: u64) = min (?n + j) ?all"
    by (intro u64_of_nat, use small in \<open>simp only: min_less_iff_disj simp_thms\<close>)+
  ultimately have "slice_bytes (h @ body @ tags) (word_of_nat (?n + i)) (min (word_of_nat (?n + j)) (word_of_nat ?all)) =
      take (min (?n + j) ?all - (?n + i)) (drop (?n + i) (h @ body @ tags))"
    using slice_bytes_eq[OF small(3)] by (simp only:)
  also have "drop (?n + i) (h @ body @ tags) = drop i tags" using assms(1) by simp
  also have "take (min (?n + j) ?all - (?n + i)) (drop i tags) = byte_slice i j tags"
    unfolding all by (simp add: byte_slice_def min_def)
  finally show ?thesis .
qed

lemma checked_window_stored:
  assumes st: "stored_at (eg_pool e) k (blob_of cr seed u plan plain) (wd_pool w)"
    and ok: "lawful_crypto cr" "length seed = 16" "length plain < 2 ^ 61" and mode: "pp_mode plan = Encrypt"
    and le: "a \<le> b" "b \<le> length plain" and chunk: "pm_chunk m = Some DEFAULT_CHUNK_SIZE"
  defines "n \<equiv> unat DEFAULT_CHUNK_SIZE"
  shows "\<exists>s'. checked_window e k (word_of_nat (length (blob_of cr seed u plan plain))) (header_of plan seed' (length plain)) m
      (word_of_nat a) (word_of_nat b) w =
    (Inr (header_of plan seed' (length plain), m, word_of_nat (a div n * n),
       byte_slice (a div n * n) (min ((b + (n - 1)) div n * n) (length plain)) (body_of cr seed u plan plain),
       Some (map_chunks n (tag_of cr (the (pp_key plan))) (a div n)
         (byte_slice (a div n * n) (min ((b + (n - 1)) div n * n) (length plain)) (body_of cr seed u plan plain)))),
     w\<lparr>wd_pool := s'\<rparr>)"
proof -
  let ?h = "header_of plan seed' (length plain)" and ?body = "body_of cr seed u plan plain" and ?l = "length plain"
  let ?p = "a div n * n" and ?q = "min ((b + (n - 1)) div n * n) ?l"
  let ?tags = "tags_of cr plan ?body" and ?t = PROTECTED_MAC_LEN
  have n: "n = 1048576" by (simp add: n_def chunk_size_value)
  have c: "(ucast DEFAULT_CHUNK_SIZE :: u64) = word_of_nat n" "(ucast (word_of_nat n :: u64) :: u32) = DEFAULT_CHUNK_SIZE"
    by (simp_all add: n DEFAULT_CHUNK_SIZE_def)
  have first: "(word_of_nat a :: u64) div word_of_nat n * word_of_nat n = word_of_nat ?p"
    unfolding of_nat_mult by (subst of_nat_words(1)) (use le ok(3) n in simp_all)
  have up: "aligned_up (word_of_nat b) (word_of_nat n) = word_of_nat ((b + (n - 1)) div n * n)"
    by (rule aligned_up_nat) (use n le ok(3) in simp_all)
  have "(b + (n - 1)) div n * n \<le> b + (n - 1)" by (rule div_times_less_eq_dividend)
  moreover have "b + (n - 1) < 2 ^ 64" using n le ok(3) by simp
  ultimately have big: "(b + (n - 1)) div n * n < 2 ^ 64" by (rule le_less_trans)
  moreover have "?l < 2 ^ 64" using ok(3) by simp
  ultimately have stop: "min (aligned_up (word_of_nat b) (word_of_nat n)) (ph_size ?h) = word_of_nat ?q"
    unfolding up header_of_def protected_header.simps by (rule of_nat_words(2))
  have win: "chunk_aligned n ?p ?q ?l" by (rule aligned_window(1)) (use n le in simp_all)
  then have pq: "?p \<le> ?q" "?q \<le> ?l" by (simp_all add: chunk_aligned_def)
  have d: "?p div n = a div n" using n by simp
  define c where "c = chunks_of n (?q - ?p)"
  have covered: "integrity_chunk_count (sat_sub_u64 (word_of_nat ?q) (word_of_nat ?p)) DEFAULT_CHUNK_SIZE = c"
  proof -
    have lt: "?q < 2 ^ 64" "?p < 2 ^ 64" using pq ok(3) by simp_all
    have "unat (word_of_nat (?q - ?p) :: u64) = ?q - ?p" by (rule u64_of_nat) (use lt in simp)
    then show ?thesis
      unfolding of_nat_words(3)[OF lt pq(1)] integrity_chunk_count_eq c_def n_def[symmetric]
      by (simp only:) (simp add: n)
  qed
  have tags_at: "of_nat PROTECTED_HEADER_LEN + ph_size ?h + (word_of_nat ?p :: u64) div word_of_nat n * of_nat ?t =
      word_of_nat (PROTECTED_HEADER_LEN + length ?body + a div n * ?t)"
    by (subst of_nat_words(1)) (use pq ok(3) n d in \<open>simp_all add: header_of_def\<close>)
  have tags_end: "(word_of_nat (PROTECTED_HEADER_LEN + length ?body + a div n * ?t) :: u64) + of_nat c * of_nat ?t =
      word_of_nat (PROTECTED_HEADER_LEN + length ?body + (a div n + c) * ?t)"
    by (simp add: algebra_simps)
  have head: "length (encode_header (header_of plan seed (length plain))) = PROTECTED_HEADER_LEN"
    using ok(2) by (simp add: length_encode_header header_of_def PROTECTED_HEADER_LEN_def)
  note short = blob_short[OF ok(1-3), of plan u]
  have content: "slice_bytes (blob_of cr seed u plan plain) (of_nat PROTECTED_HEADER_LEN + word_of_nat ?p)
      (of_nat PROTECTED_HEADER_LEN + word_of_nat ?q) = byte_slice ?p ?q ?body"
    by (rule slice_part[OF head]) (use pq short in simp_all)
  have table: "slice_bytes (blob_of cr seed u plan plain) (word_of_nat (PROTECTED_HEADER_LEN + length ?body + a div n * ?t))
      (min (word_of_nat (PROTECTED_HEADER_LEN + length ?body + (a div n + c) * ?t)) (word_of_nat (length (blob_of cr seed u plan plain)))) =
      map_chunks n (tag_of cr (the (pp_key plan))) (a div n) (byte_slice ?p ?q ?body)"
  proof -
    have "a div n < 2 ^ 41" "c < 2 ^ 42"
      unfolding c_def chunks_of_def by (intro less_mult_imp_div_less, use ok(3) le pq n in simp)+
    then have "(a div n + c) * ?t < 2 ^ 63" by (simp add: PROTECTED_MAC_LEN_def)
    note slice_tags[OF head short _ this, of "a div n * ?t"]
    moreover have "byte_slice (a div n * ?t) ((a div n + c) * ?t) ?tags =
        map_chunks n (tag_of cr (the (pp_key plan))) (a div n) (byte_slice ?p ?q ?body)"
      using table_window[OF ok(1), of n ?p ?q ?body "the (pp_key plan)"] win n
      by (simp add: d c_def tags_of_def mode n_def max_absorb1 chunk_size_value)
    ultimately show ?thesis by simp
  qed
  have chunk: "(ucast (case pm_chunk m of Some c \<Rightarrow> c | None \<Rightarrow> DEFAULT_CHUNK_SIZE) :: u64) = word_of_nat n" "(word_of_nat n :: u64) \<noteq> 0"
    using chunk c(1) by (simp_all add: n)
  obtain s1 where one: "blob_part e k (of_nat PROTECTED_HEADER_LEN + word_of_nat ?p) (of_nat PROTECTED_HEADER_LEN + word_of_nat ?q) w =
      (Inr (byte_slice ?p ?q ?body), w\<lparr>wd_pool := s1\<rparr>)" "stored_at (eg_pool e) k (blob_of cr seed u plan plain) s1"
    using blob_part_stored[OF st] content by metis
  have "stored_at (eg_pool e) k (blob_of cr seed u plan plain) (wd_pool (w\<lparr>wd_pool := s1\<rparr>))" using one(2) by simp
  from blob_part_stored[OF this, of "word_of_nat (PROTECTED_HEADER_LEN + length ?body + a div n * ?t)"
      "min (word_of_nat (PROTECTED_HEADER_LEN + length ?body + (a div n + c) * ?t)) (word_of_nat (length (blob_of cr seed u plan plain)))",
      unfolded table] obtain s2 where two: "blob_part e k (word_of_nat (PROTECTED_HEADER_LEN + length ?body + a div n * ?t))
      (min (word_of_nat (PROTECTED_HEADER_LEN + length ?body + (a div n + c) * ?t)) (word_of_nat (length (blob_of cr seed u plan plain))))
      (w\<lparr>wd_pool := s1\<rparr>) =
      (Inr (map_chunks n (tag_of cr (the (pp_key plan))) (a div n) (byte_slice ?p ?q ?body)), w\<lparr>wd_pool := s1\<rparr>\<lparr>wd_pool := s2\<rparr>)"
    by blast
  have "w\<lparr>wd_pool := s1\<rparr>\<lparr>wd_pool := s2\<rparr> = w\<lparr>wd_pool := s2\<rparr>" by simp
  then show ?thesis
    unfolding checked_window_def Let_def chunk(1) if_not_P[OF chunk(2)] first stop c(2) covered tags_at tags_end
      st_bind_def one(1) prod.case sum.case two give_def
    by blast
qed

lemma row_metadata:
  assumes "lawful_crypto (va_crypto x)" "length seed = 16" and "row_for x u plan seed k plain r"
  shows "header_from_index x r = Inr (header_of plan seed (length plain))"
    and "meta_from_index x r = Inr (meta_of (va_crypto x) plan seed (length plain))"
  using assms json_roundtrip[OF assms(1,2)] by (simp_all add: row_for_def header_from_index_def meta_from_index_def)

lemma blob_length:
  assumes "lawful_crypto cr" "length seed = 16" "length seed' = 16" "length plain' = length plain"
  shows "length (blob_of cr seed' u plan plain') = length (blob_of cr seed u plan plain)"
proof -
  have "length (tags_of cr plan (body_of cr seed' u plan plain')) = length (tags_of cr plan (body_of cr seed u plan plain))"
    using assms(1,4)
    by (cases "pp_mode plan")
      (simp_all add: tags_of_def build_encrypt_mac_table_def chunk_mac_def lawful_crypto_def map_chunks_tag_length[where t = PROTECTED_MAC_LEN])
  then show ?thesis using assms(2-4) by (simp add: length_encode_header header_of_def)
qed

text \<open>
  The payload read for a range, when the row describes content of the length of the stored one: the window passes
  the check, also when the row is that of another write.
\<close>

lemma read_payload_stored:
  fixes x e plan seed plain start stop
  defines "cr \<equiv> va_crypto x" and "l \<equiv> length plain" and "body \<equiv> body_of (va_crypto x) seed (eg_user e) plan plain"
  assumes st: "stored_at (eg_pool e) k (blob_of cr seed (eg_user e) plan plain) (wd_pool w)"
    and ok: "lawful_crypto cr" "usable_plan plan" "length seed = 16" "l < 2 ^ 61"
    and row: "row_for x (eg_user e) plan seed' k plain' r" "length seed' = 16" "length plain' = l"
    and le: "unat start \<le> min (unat stop) l"
  shows "\<exists>p q tags s'. protected_read_payload_range x e r start stop w =
      (Inr (header_of plan seed' l, meta_of cr plan seed' l, word_of_nat p, byte_slice p q body, tags), w\<lparr>wd_pool := s'\<rparr>) \<and>
    window_ok plan p q l \<and> p \<le> unat start \<and> min (unat stop) l \<le> q \<and>
    check_payload x plan (header_of plan seed' l, meta_of cr plan seed' l, word_of_nat p, byte_slice p q body, tags) = Inr ()"
proof -
  let ?h = "header_of plan seed' l" and ?m = "meta_of cr plan seed' l"
  let ?blob = "blob_of cr seed (eg_user e) plan plain"
  define a where "a = unat start"
  define b where "b = min (unat stop) l"
  have ab: "a \<le> b" "b \<le> length plain" using le by (simp_all add: a_def b_def l_def)
  have start: "start = word_of_nat a" by (simp add: a_def)
  have stop: "min stop (ph_size ?h) = word_of_nat b"
    using of_nat_words(2)[of "unat stop" l] unsigned_less[of stop, where 'a = nat] ok(4) by (simp add: b_def header_of_def)
  have len: "length plain < 2 ^ 61" using ok(4) by (simp add: l_def)
  have size: "word_of_int (max (case ir_physical_size r of Some s \<Rightarrow> s | None \<Rightarrow> 0) 0) = (word_of_nat (length ?blob) :: u64)"
    using row(1) blob_length[OF ok(1,3) row(2) row(3)[unfolded l_def], of plan "eg_user e"]
    by (simp add: row_for_def del: length_append flip: cr_def)
  note meta = row_metadata[OF ok(1)[unfolded cr_def] row(2,1), folded cr_def, unfolded row(3)]
  have k: "ir_key r = Some k" using row by (simp add: row_for_def)
  have run: "protected_read_payload_range x e r start stop w =
      (case pp_mode plan of Obfuscate \<Rightarrow> plain_window e k ?h ?m start (word_of_nat b)
       | Encrypt \<Rightarrow> checked_window e k (word_of_nat (length ?blob)) ?h ?m start (word_of_nat b)) w"
    unfolding protected_read_payload_range_def k option.case meta res_bind.simps sum.case prod.case Let_def stop size
    by (cases "pp_mode plan") (simp_all add: header_of_def meta_of_def)
  show ?thesis
  proof (cases "pp_mode plan")
    case Obfuscate
    let ?n = "max (pp_block plan) 1"
    let ?q = "min ((b + (?n - 1)) div ?n * ?n) (length plain)"
    obtain s' where "protected_read_payload_range x e r start stop w =
        (Inr (?h, ?m, word_of_nat (a div ?n * ?n), byte_slice (a div ?n * ?n) ?q body, None), w\<lparr>wd_pool := s'\<rparr>)"
      using plain_window_stored[OF st ok(1-3) len ab] unfolding run[unfolded start] start Obfuscate protected_mode.case body_def l_def cr_def by blast
    moreover have "window_ok plan (a div ?n * ?n) ?q l \<and> a div ?n * ?n \<le> a \<and> b \<le> ?q"
      using aligned_window[OF _ ab, of ?n] Obfuscate by (simp add: window_ok_def l_def)
    moreover have "check_payload x plan (?h, ?m, z, d, t) = Inr ()" for z d t
      using Obfuscate by (simp add: check_payload_def header_of_def)
    ultimately show ?thesis unfolding a_def b_def by blast
  next
    case Encrypt
    let ?n = "unat DEFAULT_CHUNK_SIZE"
    let ?q = "min ((b + (?n - 1)) div ?n * ?n) (length plain)" and ?p = "a div ?n * ?n"
    obtain key where key: "pp_key plan = Some key" using ok(2) Encrypt by (auto simp: usable_plan_def)
    let ?tags = "map_chunks ?n (tag_of cr key) (a div ?n) (byte_slice ?p ?q body)"
    have chunk: "pm_chunk ?m = Some DEFAULT_CHUNK_SIZE" "pm_integrity ?m = INTEGRITY_HMAC"
      using Encrypt by (simp_all add: meta_of_def)
    obtain s' where "protected_read_payload_range x e r start stop w =
        (Inr (?h, ?m, word_of_nat ?p, byte_slice ?p ?q body, Some ?tags), w\<lparr>wd_pool := s'\<rparr>)"
      using checked_window_stored[OF st ok(1,3) len Encrypt ab chunk(1)[unfolded l_def]]
      unfolding run[unfolded start] start Encrypt protected_mode.case body_def l_def cr_def key option.sel by blast
    moreover have win: "chunk_aligned ?n ?p ?q (length plain)" "?p \<le> a" "b \<le> ?q"
      using aligned_window[OF _ ab, of ?n] by (simp_all add: chunk_size_value)
    moreover have "check_payload x plan (?h, ?m, word_of_nat ?p, byte_slice ?p ?q body, Some ?tags) = Inr ()"
    proof -
      have "a < 2 ^ 64" using ab len by simp
      with win(2) have "?p < 2 ^ 64" by (rule le_less_trans)
      moreover have "length (byte_slice ?p ?q body) < 2 ^ 64"
        using len by (simp add: body_def)
      moreover have "?p div max ?n 1 = a div ?n" "?n = max ?n 1" by (simp_all add: chunk_size_value)
      ultimately have "verify_encrypt_window cr key DEFAULT_CHUNK_SIZE (word_of_nat ?p) (byte_slice ?p ?q body) ?tags = Inr ()"
        using verify_window_iff[OF ok(1)] by metis
      then show ?thesis using Encrypt key chunk by (simp add: check_payload_def header_of_def flip: cr_def)
    qed
    moreover have "window_ok plan ?p ?q l" using win(1) Encrypt by (simp add: window_ok_def chunk_aligned_def l_def)
    ultimately show ?thesis unfolding a_def b_def by blast
  qed
qed

lemma body_twice: "body_of cr seed u plan (body_of cr seed u plan d) = d"
  by (cases "pp_mode plan")
    (simp_all add: body_of_def obfuscate_twice encrypt_in_place_def encrypt_stream_def map2_xor_twice)

text \<open>What a range read returns then: the stored bytes under the mask of the row.\<close>

lemma decoded_range_stored:
  assumes st: "stored_at (eg_pool e) k (blob_of (va_crypto x) seed (eg_user e) plan plain) (wd_pool w)"
    and ok: "lawful_crypto (va_crypto x)" "usable_plan plan" "length seed = 16" "length plain < 2 ^ 61"
    and row: "row_for x (eg_user e) plan seed' k plain' r" "length seed' = 16" "length plain' = length plain"
    and le: "unat start \<le> min (unat stop) (length plain)"
  shows "fst (decoded_range x e plan r start stop w) = Inr (byte_slice (unat start) (min (unat stop) (length plain))
    (body_of (va_crypto x) seed' (eg_user e) plan (body_of (va_crypto x) seed (eg_user e) plan plain)))"
proof -
  let ?body = "body_of (va_crypto x) seed (eg_user e) plan plain"
  let ?seen = "body_of (va_crypto x) seed' (eg_user e) plan ?body"
  from read_payload_stored[OF st ok row le] obtain p q tags s' where
    run: "protected_read_payload_range x e r start stop w =
      (Inr (header_of plan seed' (length plain), meta_of (va_crypto x) plan seed' (length plain), word_of_nat p,
         byte_slice p q ?body, tags), w\<lparr>wd_pool := s'\<rparr>)"
    and win: "window_ok plan p q (length plain)" "p \<le> unat start" "min (unat stop) (length plain) \<le> q"
    and check: "check_payload x plan (header_of plan seed' (length plain), meta_of (va_crypto x) plan seed' (length plain), word_of_nat p,
         byte_slice p q ?body, tags) = Inr ()"
    by blast
  have len: "length ?seen < 2 ^ 64" "length ?seen = length plain" using ok(4) by simp_all
  have dec: "decode_range (va_crypto x) (eg_user e) (pp_slot plan) (pp_key plan) (header_of plan seed' (length plain))
      (byte_slice p q ?body) (word_of_nat p) start stop = Inr (byte_slice (unat start) (min (unat stop) (length plain)) ?seen)"
    using decode_window[OF ok(1,2) len(1), of p q start stop "eg_user e" seed'] win unfolding len(2) body_twice by blast
  show ?thesis
    unfolding decoded_range_def st_bind_def run prod.case sum.case look_def check res_bind.simps dec fst_conv ..
qed

section \<open>What a protected write leaves behind\<close>

lemma pool_create_dir_write: "pl_write (snd (pool_create_dir env d s)) = pl_write s"
  by (simp add: pool_create_dir_def on_primary_def then_stat_def st_bind_def invalidate_read_cache_def split: prod.split sum.split)

lemma next_blob_frame:
  assumes "next_protected_blob_physical_path x e slot k w = (Inr p, w1)"
  shows "pl_write (wd_pool w1) = pl_write (wd_pool w) \<and> wd_index w1 = wd_index w"
proof -
  have "snd (on_pool f w) = w\<lparr>wd_pool := snd (f (wd_pool w))\<rparr>" for f :: "'a pool \<Rightarrow> (vfs_error + vfs_file_info) \<times> 'a pool"
    by (simp add: on_pool_def split: prod.split)
  then show ?thesis
    using assms pool_create_dir_write
    by (auto simp: next_protected_blob_physical_path_def split: sum.splits option.splits if_splits)
qed

lemma upsert_key_written:
  assumes paths: "\<not> is_thumbnail_cache_path n" "\<not> is_protected_blob_path n"
    and up: "upsert_index_with_key e n info key ps meta w = (Inr u, w')"
    and db: "db_ok (wd_index w)" "\<forall>r \<in> set (db_files (wd_index w)). ir_user r = eg_user e \<longrightarrow> ir_id r \<noteq> eg_uuid e 0"
  shows "eg_up_index e \<and> wd_pool w' = wd_pool w \<and>
    (\<exists>r. get_file_metadata (eg_user e) (index_path n) (wd_index w') = Some r \<and> ir_size r = sint (fi_size info) \<and>
       ir_is_dir r = fi_is_dir info \<and> ir_key r = key \<and> ir_physical_size r = ps \<and> ir_protected r = meta)"
proof -
  define call where "call up = upsert_file_with_location up (eg_uuid e 0) (eg_now e) (eg_user e) n info
      (Some (eg_pool_name e)) (Some (eg_backend e)) key ps meta (wd_index w)" for up
  have off: "call False = (Inl DbUnavailable, wd_index w)"
    by (simp add: call_def upsert_file_with_location_def add_or_update_entry_def Let_def)
  have run: "upsert_index_with_key e n info key ps meta w =
      (case call (eg_up_index e) of (r, db) \<Rightarrow> (case r of Inl err \<Rightarrow> Inl (Internal (db_text err)) | Inr _ \<Rightarrow> Inr (), w\<lparr>wd_index := db\<rparr>))"
    unfolding call_def using paths
    by (simp add: upsert_index_with_key_def on_index_def db_internal_def split: prod.split sum.split)
  have on: "eg_up_index e" using up run off by (cases "eg_up_index e") simp_all
  from upsert_lookup[OF db, of "eg_now e" n info "Some (eg_pool_name e)" "Some (eg_backend e)" key ps meta]
  obtain r db' where r: "call True = (Inr r, db')" "get_file_metadata (eg_user e) (index_path n) db' = Some r"
    "ir_size r = sint (fi_size info)" "ir_is_dir r = fi_is_dir info" "ir_key r = key" "ir_physical_size r = ps" "ir_protected r = meta"
    unfolding call_def by blast
  then have "w' = w\<lparr>wd_index := db'\<rparr>" using up run on by simp
  then show ?thesis using r on by simp
qed

lemma stored_blob_result:
  assumes run: "stored_blob e n existing key encoded meta sz diff i w = (Inr info, w')"
    and paths: "\<not> is_thumbnail_cache_path n" "\<not> is_protected_blob_path n" and "sz < 2 ^ 63"
    and db: "db_ok (wd_index w)" "\<forall>r \<in> set (db_files (wd_index w)). ir_user r = eg_user e \<longrightarrow> ir_id r \<noteq> eg_uuid e 0"
  shows "(\<exists>j. pool_write (eg_pool e) key encoded (wd_pool w) = (Inr j, wd_pool w')) \<and> eg_up_index e \<and>
    (\<exists>r. get_file_metadata (eg_user e) (index_path n) (wd_index w') = Some r \<and> ir_size r = int sz \<and> \<not> ir_is_dir r \<and>
       ir_key r = Some key \<and> ir_physical_size r = Some (int (length encoded)) \<and> ir_protected r = Some meta)"
proof -
  obtain q s where q: "pool_write (eg_pool e) key encoded (wd_pool w) = (q, s)" by fastforce
  have on: "on_pool (pool_write (eg_pool e) key encoded) w = (q, w\<lparr>wd_pool := s\<rparr>)" by (simp add: on_pool_def q)
  obtain j where j: "q = Inr j" using run unfolding stored_blob_def on by (cases q) auto
  let ?w1 = "mark_wal_physical_done e i (w\<lparr>wd_pool := s\<rparr>)"
  let ?info = "written_info e n False sz (case existing of Some r \<Rightarrow> ir_favorite r | None \<Rightarrow> 0)"
  obtain u w2 where up: "upsert_index_with_key e n ?info (Some key) (Some (int (length encoded))) (Some meta) ?w1 = (u, w2)"
    by fastforce
  obtain v where v: "u = Inr v" using run unfolding stored_blob_def on j prod.case sum.case Let_def up by (cases u) auto
  have w': "wd_pool w' = wd_pool w2" "wd_index w' = wd_index w2"
    using run unfolding stored_blob_def on j prod.case sum.case Let_def up v by (auto split: if_splits)
  have info: "fi_size ?info = word_of_nat sz" "\<not> fi_is_dir ?info" by (simp_all add: written_info_def plain_info_def)
  from upsert_key_written[OF paths up[unfolded v]] db q j w' info sint_word_of_nat[OF assms(4)]
  show ?thesis by simp
qed

lemma protected_write_run:
  assumes run: "protected_write_impl x e plan n data w = (Inr info, w')" and ok: "usable_plan plan"
  obtains existing key i diff w2 where "pl_write (wd_pool w2) = pl_write (wd_pool w)" "wd_index w2 = wd_index w"
    and "stored_blob e n existing key (blob_of (va_crypto x) (va_seed x) (eg_user e) plan data)
      (cr_json (va_crypto x) (meta_of (va_crypto x) plan (va_seed x) (length data))) (length data) diff i w2 = (Inr info, w')"
proof -
  let ?gate = "res_bind (check_maintenance e w) (\<lambda>_. res_bind (get_index_metadata e n w) (\<lambda>existing.
             let diff = int (length data) - (case existing of Some r \<Rightarrow> max (ir_size r) 0 | None \<Rightarrow> 0) in
             res_bind (if 0 < diff then engine_check_quota e diff w else Inr ()) (\<lambda>_. Inr (existing, diff))))"
  obtain existing diff where gate: "?gate = Inr (existing, diff)"
    using run unfolding protected_write_impl_def by (cases ?gate) (auto simp del: res_bind_Inr_iff)
  obtain y w1 where fresh: "next_protected_blob_physical_path x e (pp_slot plan) 0 w = (y, w1)" by fastforce
  note run1 = run[unfolded protected_write_impl_def gate sum.case prod.case st_bind_def fresh]
  then obtain f where f: "y = Inr f" by (cases y) auto
  let ?op = "\<lambda>key. begin_wal e (WalWrite n (word_of_nat (length data))
      (Some \<lparr>pw_backend_key = key, pw_physical_size = int (length (blob_of (va_crypto x) (va_seed x) (eg_user e) plan data)),
        pw_meta = cr_json (va_crypto x) (meta_of (va_crypto x) plan (va_seed x) (length data))\<rparr>))
      (should_skip_wal_for_write e n (word_of_nat (length data)))"
  define key where "key = (case Option.bind existing ir_key of Some k \<Rightarrow> k | None \<Rightarrow> f)"
  obtain i w2 where b: "?op key w1 = (i, w2)" by fastforce
  note run2 = run1[unfolded f sum.case encode_payload_eq[OF ok] prod.case Let_def, folded key_def, unfolded b prod.case]
  then obtain j where j: "i = Inr j" by (cases i) auto
  show thesis
  proof (rule that)
    show "stored_blob e n existing key (blob_of (va_crypto x) (va_seed x) (eg_user e) plan data)
      (cr_json (va_crypto x) (meta_of (va_crypto x) plan (va_seed x) (length data))) (length data) diff j w2 = (Inr info, w')"
      using run2 unfolding j by simp
    show "pl_write (wd_pool w2) = pl_write (wd_pool w)" "wd_index w2 = wd_index w"
      using next_blob_frame[OF fresh[unfolded f]] begin_wal_frame[OF b] by simp_all
  qed
qed

lemma protected_reads:
  assumes st: "stored_at (eg_pool e) k (blob_of (va_crypto x) seed (eg_user e) plan plain) (wd_pool w)"
    and ok: "lawful_crypto (va_crypto x)" "usable_plan plan" "length seed = 16" "length plain < 2 ^ 61"
    and row: "row_for x (eg_user e) plan seed' k plain' r" "length seed' = 16" "length plain' = length plain"
    and found: "protected_row e n w = Inr r"
  defines "seen \<equiv> body_of (va_crypto x) seed' (eg_user e) plan (body_of (va_crypto x) seed (eg_user e) plan plain)"
  shows "fst (protected_read_all_impl x e plan n w) = Inr (seen, file_info_from_index r)"
    and "fst (protected_read_range_impl x e plan n a b w) =
      Inr (byte_slice (unat a) (min (unat b) (length plain)) seen, file_info_from_index r)"
proof -
  have size: "word_of_int (max (ir_size r) 0) = (word_of_nat (length plain) :: u64)" "\<not> ir_is_dir r"
    using row(1,3) by (simp_all add: row_for_def)
  have un: "unat (word_of_nat (length plain) :: u64) = length plain" by (rule u64_of_nat) (use ok(4) in simp)
  have seen: "length seen = length plain" by (simp add: seen_def)
  note dec = decoded_range_stored[OF st ok row, folded seen_def]
  obtain y w1 where y: "decoded_range x e plan r 0 (word_of_nat (length plain)) w = (y, w1)" by fastforce
  have "y = Inr seen"
    using dec[of 0 "word_of_nat (length plain)"] unfolding y un by (simp add: slice_all seen)
  then show "fst (protected_read_all_impl x e plan n w) = Inr (seen, file_info_from_index r)"
    unfolding protected_read_all_impl_def st_bind_def look_def using y by (simp add: found size give_def del: of_int_max)
  let ?e = "min b (word_of_nat (length plain)) :: u64"
  have e: "unat ?e = min (unat b) (length plain)" using un by simp
  show "fst (protected_read_range_impl x e plan n a b w) =
      Inr (byte_slice (unat a) (min (unat b) (length plain)) seen, file_info_from_index r)"
  proof (cases "?e \<le> a")
    case True
    then have "min (unat b) (length plain) \<le> unat a" using e by (simp only: word_le_nat_alt)
    then have "byte_slice (unat a) (min (unat b) (length plain)) seen = []" by (simp add: byte_slice_def)
    then show ?thesis
      unfolding protected_read_range_impl_def st_bind_def look_def Let_def using True by (simp add: found size give_def)
  next
    case False
    then have "unat a < unat ?e" by (simp only: word_le_nat_alt not_le)
    then have "unat a \<le> min (unat ?e) (length plain)" using e by linarith
    note d = dec[OF this]
    obtain z w2 where z: "decoded_range x e plan r a ?e w = (z, w2)" by fastforce
    have "z = Inr (byte_slice (unat a) (min (unat b) (length plain)) seen)" using d unfolding z e by simp
    then show ?thesis
      unfolding protected_read_range_impl_def st_bind_def look_def Let_def using False z by (simp add: found size give_def)
  qed
qed

text \<open>A primary that keeps what is written and answers ranged reads.\<close>

definition sound_store :: "'p pool_env \<Rightarrow> bool" where
  "sound_store env \<longleftrightarrow> (\<forall>k. lawful_op (primary env) {k}) \<and>
     (\<forall>k st d. op_read (primary env) k st = Inr d \<longrightarrow> length d < 2 ^ 64 \<longrightarrow> ranged_op (primary env) k st)"

lemma sound_storeD:
  "sound_store env \<Longrightarrow> lawful_op (primary env) {k}"
  "sound_store env \<Longrightarrow> op_read (primary env) k st = Inr d \<Longrightarrow> length d < 2 ^ 64 \<Longrightarrow> ranged_op (primary env) k st"
  unfolding sound_store_def by blast+

lemma written_state:
  assumes crypto: "lawful_crypto (va_crypto x)" "usable_plan plan" "length (va_seed x) = 16"
    and store: "sound_store (eg_pool e)"
    and path: "index_path n = n" "\<not> is_thumbnail_cache_path n" "\<not> is_protected_blob_path n"
    and world: "pl_write (wd_pool w) = None" "db_ok (wd_index w)"
      "\<forall>r \<in> set (db_files (wd_index w)). ir_user r = eg_user e \<longrightarrow> ir_id r \<noteq> eg_uuid e 0"
    and run: "protected_write_impl x e plan n data w = (Inr info, w')" and len: "length data < 2 ^ 61"
  shows "\<exists>k r. stored_at (eg_pool e) k (blob_of (va_crypto x) (va_seed x) (eg_user e) plan data) (wd_pool w') \<and>
    row_for x (eg_user e) plan (va_seed x) k data r \<and> protected_row e n w' = Inr r \<and> eg_up_index e \<and>
    get_file_metadata (eg_user e) n (wd_index w') = Some r"
proof -
  let ?blob = "blob_of (va_crypto x) (va_seed x) (eg_user e) plan data"
  from protected_write_run[OF run crypto(2)] obtain existing k i diff w2
    where w2: "pl_write (wd_pool w2) = pl_write (wd_pool w)" "wd_index w2 = wd_index w"
      and sb: "stored_blob e n existing k ?blob (cr_json (va_crypto x) (meta_of (va_crypto x) plan (va_seed x) (length data)))
        (length data) diff i w2 = (Inr info, w')" .
  have l63: "length data < 2 ^ 63" using len by simp
  from stored_blob_result[OF sb path(2,3) l63] world(2,3) w2(2) obtain j r where
    wr: "pool_write (eg_pool e) k ?blob (wd_pool w2) = (Inr j, wd_pool w')" and up: "eg_up_index e"
    and r: "get_file_metadata (eg_user e) n (wd_index w') = Some r" "ir_size r = int (length data)" "\<not> ir_is_dir r"
      "ir_key r = Some k" "ir_physical_size r = Some (int (length ?blob))"
      "ir_protected r = Some (cr_json (va_crypto x) (meta_of (va_crypto x) plan (va_seed x) (length data)))"
    unfolding path(1) by (auto simp del: length_append)
  have none: "pl_write (wd_pool w2) = None" using w2(1) world(1) by simp
  have "length ?blob < 2 ^ 64" using blob_short[OF crypto(1,3) len, of plan "eg_user e"] by (simp del: length_append)
  then have "ranged_op (primary (eg_pool e)) k (pl_primary (wd_pool w'))"
    using sound_storeD(2)[OF store] pool_write_stored[OF sound_storeD(1)[OF store] none wr] by blast
  then have "stored_at (eg_pool e) k ?blob (wd_pool w')" by (rule write_stored_at[OF sound_storeD(1)[OF store] none wr])
  moreover have "row_for x (eg_user e) plan (va_seed x) k data r" using r by (simp add: row_for_def)
  moreover have "protected_row e n w' = Inr r" using r up by (simp add: protected_row_def get_index_metadata_def)
  ultimately show ?thesis using up r by blast
qed

section \<open>A small vault\<close>

text \<open>
  Crypto functions for the witnesses: a keystream that counts, tags that are the first bytes of the message, JSON
  with length-prefixed strings.
\<close>

definition put_str :: "string \<Rightarrow> string" where
  "put_str s = replicate (length s) (CHR 0x01) @ CHR 0x00 # s"

definition get_str :: "string \<Rightarrow> string \<times> string" where
  "get_str raw = (let n = length (takeWhile (\<lambda>c. c = CHR 0x01) raw) in (take n (drop (Suc n) raw), drop (Suc n + n) raw))"

lemma get_put: "get_str (put_str s @ rest) = (s, rest)"
proof -
  have "takeWhile (\<lambda>c. c = CHR 0x01) (put_str s @ rest) = replicate (length s) (CHR 0x01)"
    unfolding put_str_def by (subst append_assoc, subst takeWhile_append2) auto
  then show ?thesis by (simp add: get_str_def Let_def) (simp add: put_str_def)
qed

definition pk_json :: "protected_meta \<Rightarrow> string" where
  "pk_json m = put_str (replicate (pm_version m) (CHR 0x00)) @ put_str (pm_mode m) @ put_str (pm_prng m) @ put_str (pm_seed_hex m) @
     put_str (pm_integrity m) @ le_bytes 4 (unat (pm_block m)) @ le_bytes 8 (unat (pm_size m)) @
     (case pm_chunk m of None \<Rightarrow> [] | Some c \<Rightarrow> le_bytes 4 (unat c))"

definition pk_unjson :: "string \<Rightarrow> string + protected_meta" where
  "pk_unjson raw =
     (case get_str raw of (v, r1) \<Rightarrow> case get_str r1 of (m, r2) \<Rightarrow> case get_str r2 of (p, r3) \<Rightarrow>
      case get_str r3 of (s, r4) \<Rightarrow> case get_str r4 of (i, r5) \<Rightarrow>
      Inr \<lparr>pm_version = length v, pm_mode = m, pm_prng = p, pm_block = word_of_nat (from_le (take 4 r5)),
           pm_size = word_of_nat (from_le (take 8 (drop 4 r5))), pm_seed_hex = s, pm_integrity = i,
           pm_chunk = (if drop 12 r5 = [] then None else Some (word_of_nat (from_le (drop 12 r5))))\<rparr>)"

lemma pk_unjson_json: "pk_unjson (pk_json m) = Inr m"
proof -
  have l: "le_bytes 4 x \<noteq> []" for x by (metis length_le_bytes list.size(3) zero_neq_numeral)
  show ?thesis
    by (cases m) (simp add: pk_unjson_def pk_json_def get_put codec_simps l split: option.split del: le_bytes.simps)
qed

definition pk_crypto :: crypto where
  "pk_crypto =
     \<lparr>cr_hkdf = (\<lambda>salt key info. replicate 32 (CHR ''k'')),
      cr_keystream = (\<lambda>key n j. char_of ((n + j div 16) mod 2 ^ 128 + j mod 16)),
      cr_hmac = (\<lambda>key m. le_bytes PROTECTED_MAC_LEN (from_le m)), cr_hex = (\<lambda>b. b), cr_unhex = Inr,
      cr_json = pk_json, cr_unjson = pk_unjson\<rparr>"

lemma pk_lawful: "lawful_crypto pk_crypto"
proof -
  have "((n + b) mod 2 ^ 128 + j div 16) mod 2 ^ 128 = (n + (16 * b + j) div 16) mod 2 ^ 128" for n b j :: nat
    by (simp add: mod_add_left_eq add.assoc)
  then show ?thesis by (simp add: lawful_crypto_def pk_crypto_def pk_unjson_json)
qed

definition pk_vault :: vault where
  "pk_vault = \<lparr>va_crypto = pk_crypto, va_sha = (\<lambda>_. ''abcdefgh''), va_seed = replicate 15 (CHR 0x00) @ ''s'',
     va_blob = (\<lambda>k. ''b'' @ replicate k (CHR ''x'')), va_licensed = True, va_global_mode = ''encrypt'', va_block_kib = 1,
     va_prng = ''pcg'', va_unwrap = Inr\<rparr>"

definition pk_plan :: "protected_mode \<Rightarrow> protected_plan" where
  "pk_plan mode = \<lparr>pp_root = ''/'', pp_mode = mode, pp_slot = ''slot'', pp_block = 1024, pp_prng = Pcg,
     pp_key = Some (replicate 32 (CHR ''k''))\<rparr>"

abbreviation pw :: "(string \<Rightarrow> string option) world" where
  "pw \<equiv> ey_world Map.empty"

abbreviation pe :: "(string \<Rightarrow> string option) engine" where
  "pe \<equiv> ey_engine (\<lambda>_. False)"

lemma pk_gate:
  "check_maintenance pe pw = Inr ()" "get_index_metadata pe ''/f'' pw = Inr None" "engine_check_quota pe 2 pw = Inr ()"
  by code_simp+

lemma pk_paths:
  "next_blob_logical_path (va_sha pk_vault) (va_crypto pk_vault) (va_blob pk_vault 0) ''slot'' = ''/.protected/abcd/b.bin''"
  "physical pe ''/.protected/abcd/b.bin'' = Inr ''u/.protected/abcd/b.bin''"
  "path_parent ''u/.protected/abcd/b.bin'' = Some ''u/.protected/abcd''"
proof -
  show "next_blob_logical_path (va_sha pk_vault) (va_crypto pk_vault) (va_blob pk_vault 0) ''slot'' = ''/.protected/abcd/b.bin''"
    by (simp add: next_blob_logical_path_def pk_vault_def PROTECTED_STORAGE_DIR_def pk_crypto_def)
qed (code_simp+)

lemma pk_create_dir: "snd (on_pool (pool_create_dir (ey_env (\<lambda>_. False)) d) pw) = pw"
  by (simp add: on_pool_def pool_create_dir_def on_primary_def st_bind_def invalidate_read_cache_def map_op_def dal_res_def ey_world_def ey_pool_def)

lemma pk_begin: "\<exists>i l. begin_wal pe op skip pw = (Inr i, pw\<lparr>wd_wal := l\<rparr>)"
proof (cases skip)
  case True
  then show ?thesis
    by (intro exI[of _ None] exI[of _ "wd_wal pw"]) (simp add: begin_wal_def del: ey_world_simps)
qed (auto simp: begin_wal_def log_operation_def)

lemma pk_write: "\<exists>info w'. protected_write_impl pk_vault pe (pk_plan mode) ''/f'' ''hi'' pw = (Inr info, w')"
proof -
  let ?k = "''u/.protected/abcd/b.bin''" and ?p = "pk_plan mode" and ?c = "va_crypto pk_vault" and ?s = "va_seed pk_vault"
  have ok: "usable_plan ?p" by (simp add: usable_plan_def pk_plan_def)
  have slot: "pp_slot ?p = ''slot''" "eg_user pe = ''u''" by (simp_all add: pk_plan_def)
  have fresh: "next_protected_blob_physical_path pk_vault pe ''slot'' 0 pw = (Inr ?k, pw)"
    unfolding next_protected_blob_physical_path_def pk_paths(1,2) by (simp add: pk_paths(3) pk_create_dir del: ey_world_simps)
  let ?blob = "blob_of ?c ?s (eg_user pe) ?p ''hi''" and ?meta = "cr_json ?c (meta_of ?c ?p ?s (length ''hi''))"
  let ?op = "WalWrite ''/f'' (word_of_nat (length ''hi'')) (Some \<lparr>pw_backend_key = ?k, pw_physical_size = int (length ?blob), pw_meta = ?meta\<rparr>)"
  obtain i l where b: "begin_wal pe ?op (should_skip_wal_for_write pe ''/f'' (word_of_nat (length ''hi''))) pw = (Inr i, pw\<lparr>wd_wal := l\<rparr>)"
    using pk_begin by blast
  have gate: "res_bind (check_maintenance pe pw) (\<lambda>_. res_bind (get_index_metadata pe ''/f'' pw) (\<lambda>existing.
             let diff = int (length ''hi'') - (case existing of Some r \<Rightarrow> max (ir_size r) 0 | None \<Rightarrow> 0) in
             res_bind (if 0 < diff then engine_check_quota pe diff pw else Inr ()) (\<lambda>_. Inr (existing, diff)))) = Inr (None, 2)"
    by (simp add: pk_gate)
  have bind: "Option.bind None ir_key = None" by simp
  have run: "protected_write_impl pk_vault pe ?p ''/f'' ''hi'' pw =
      stored_blob pe ''/f'' None ?k ?blob ?meta (length ''hi'') 2 i (pw\<lparr>wd_wal := l\<rparr>)"
    unfolding protected_write_impl_def gate sum.case prod.case st_bind_def slot(1) fresh
    unfolding Let_def bind option.case encode_payload_eq[OF ok] sum.case prod.case b ..
  let ?info = "written_info pe ''/f'' False (length ''hi'') 0"
  have "\<exists>j s. pool_write (ey_env (\<lambda>_. False)) ?k d (ey_pool Map.empty) = (Inr j, s)" for d
    by (simp add: pool_write_def on_primary_def then_stat_def st_bind_def invalidate_read_cache_def pool_stat_def
        pool_pending_stat_def stat_with_operator_def map_op_def dal_res_def)
  then obtain j s where s: "pool_write (ey_env (\<lambda>_. False)) ?k ?blob (ey_pool Map.empty) = (Inr j, s)" by blast
  have e: "eg_pool pe = ey_env (\<lambda>_. False)" "wd_pool (pw\<lparr>wd_wal := l\<rparr>) = ey_pool Map.empty" by simp_all
  have j: "on_pool (pool_write (eg_pool pe) ?k ?blob) (pw\<lparr>wd_wal := l\<rparr>) = (Inr j, pw\<lparr>wd_wal := l, wd_pool := s\<rparr>)"
    unfolding on_pool_def e s prod.case by simp
  have "\<exists>w3. upsert_index_with_key pe ''/f'' ?info (Some ?k) (Some (int (length ?blob))) (Some ?meta)
      (mark_wal_physical_done pe i (pw\<lparr>wd_wal := l, wd_pool := s\<rparr>)) = (Inr (), w3)"
  proof -
    have paths: "\<not> is_protected_blob_path ''/f''" "\<not> is_thumbnail_cache_path ''/f''" by code_simp+
    have db: "db_ok (wd_index pw)" "\<forall>r \<in> set (db_files (wd_index pw)). ir_user r = eg_user pe \<longrightarrow> ir_id r \<noteq> eg_uuid pe 0"
      by (simp_all add: db_ok_def)
    show ?thesis
      using upsert_lookup[OF db, of "eg_now pe" "''/f''" ?info "Some (eg_pool_name pe)" "Some (eg_backend pe)" "Some ?k"
          "Some (int (length ?blob))" "Some ?meta"] paths
      by (auto simp: upsert_index_with_key_def on_index_def db_internal_def)
  qed
  then show ?thesis unfolding run stored_blob_def j by auto
qed

section \<open>Content comes back\<close>

text \<open>
  C10: Protected storage is transparent, in both modes. After a successful write of a protected file, with any plan
  that has its key, the whole read returns the content, and every range read returns exactly the requested part of
  it, clamped to the file, although the storage holds a header, masked or encrypted bytes and MACs under an opaque
  name, and a read fetches and checks only the blocks or chunks that cover the range.
\<close>

theorem protected_write_read:
  assumes crypto: "lawful_crypto (va_crypto x)" "usable_plan plan" "length (va_seed x) = 16"
    and store: "sound_store (eg_pool e)"
    and path: "index_path n = n" "\<not> is_thumbnail_cache_path n" "\<not> is_protected_blob_path n"
    and world: "pl_write (wd_pool w) = None" "db_ok (wd_index w)"
      "\<forall>r \<in> set (db_files (wd_index w)). ir_user r = eg_user e \<longrightarrow> ir_id r \<noteq> eg_uuid e 0"
    and run: "protected_write_impl x e plan n data w = (Inr info, w')" and len: "length data < 2 ^ 61"
  shows "\<exists>i. fi_size i = word_of_nat (length data) \<and>
    fst (protected_read_all_impl x e plan n w') = Inr (data, i) \<and>
    (\<forall>a b. fst (protected_read_range_impl x e plan n a b w') =
       Inr (byte_slice (unat a) (min (unat b) (length data)) data, i))"
proof -
  from written_state[OF crypto store path world run len] obtain k r where
    st: "stored_at (eg_pool e) k (blob_of (va_crypto x) (va_seed x) (eg_user e) plan data) (wd_pool w')"
    and row: "row_for x (eg_user e) plan (va_seed x) k data r" "protected_row e n w' = Inr r" by blast
  note reads = protected_reads[OF st crypto len row(1) crypto(3) refl row(2), unfolded body_twice]
  have "fi_size (file_info_from_index r) = word_of_nat (length data)"
    using row(1) by (simp add: file_info_from_index_def row_info_at_def row_for_def)
  then show ?thesis using reads by blast
qed

lemma pk_store: "sound_store (eg_pool pe)"
  by (auto simp: sound_store_def lawful_map_op intro!: ranged_map_op) (simp add: map_op_def split: option.splits)

lemma pk_path: "index_path ''/f'' = ''/f''" "\<not> is_thumbnail_cache_path ''/f''" "\<not> is_protected_blob_path ''/f''"
  by code_simp+

lemma pk_facts: "usable_plan (pk_plan mode)" "va_crypto pk_vault = pk_crypto" "length (va_seed pk_vault) = 16"
  "pl_write (wd_pool pw) = None" "db_ok (wd_index pw)"
  "\<forall>r \<in> set (db_files (wd_index pw)). ir_user r = eg_user pe \<longrightarrow> ir_id r \<noteq> eg_uuid pe 0"
  by (simp_all add: usable_plan_def pk_plan_def pk_vault_def db_ok_def)

lemma protected_write_read_witness:
  "\<exists>info w' i. protected_write_impl pk_vault pe (pk_plan Encrypt) ''/f'' ''hi'' pw = (Inr info, w') \<and>
     fst (protected_read_all_impl pk_vault pe (pk_plan Encrypt) ''/f'' w') = Inr (''hi'', i) \<and>
     fst (protected_read_range_impl pk_vault pe (pk_plan Encrypt) ''/f'' 1 9 w') = Inr (''i'', i)"
proof -
  obtain info w' where run: "protected_write_impl pk_vault pe (pk_plan Encrypt) ''/f'' ''hi'' pw = (Inr info, w')"
    using pk_write by blast
  have "byte_slice (unat (1 :: u64)) (min (unat (9 :: u64)) (length ''hi'')) ''hi'' = ''i''" by code_simp
  then show ?thesis
    using protected_write_read[OF _ pk_facts(1,3) pk_store pk_path pk_facts(4-6) run] run pk_facts(2) pk_lawful by auto
qed

section \<open>An overwrite that is interrupted\<close>

text \<open>
  C11: The overwrite of a protected file is not crash-safe. The new blob, under a new nonce, goes over the old one
  before the index learns its metadata. When the process stops in between and the content has the old length, the
  recovery finds the index row, takes the write for complete and changes nothing; from then on a read succeeds, and
  its MACs verify, because they cover the stored bytes only and not the nonce, but it returns the new content under
  the two masks of the old and the new nonce: neither the old nor the new content, without an error.
\<close>

theorem torn_overwrite:
  assumes crypto: "lawful_crypto (va_crypto x)" "usable_plan plan" "length (va_seed x) = 16" "length seed = 16"
    and store: "sound_store (eg_pool e)"
    and path: "index_path n = n" "\<not> is_thumbnail_cache_path n" "\<not> is_protected_blob_path n"
    and world: "pl_write (wd_pool w) = None" "db_ok (wd_index w)"
      "\<forall>r \<in> set (db_files (wd_index w)). ir_user r = eg_user e \<longrightarrow> ir_id r \<noteq> eg_uuid e 0"
    and first: "protected_write_impl x e plan n old w = (Inr info, w1)" and len: "length old < 2 ^ 61" "length new = length old"
    and row: "get_file_metadata (eg_user e) n (wd_index w1) = Some r" "ir_key r = Some k"
    and blob: "encode_payload (va_crypto x) seed (eg_user e) plan new = Inr (encoded, h, meta)"
    and crash: "pool_write (eg_pool e) k encoded (wd_pool w1) = (Inr j, s)" "wd_pool w2 = s" "wd_index w2 = wd_index w1"
  shows "recover_protected_write e n sz pm st w2 = (Inr (), w2) \<and>
    (\<exists>i. fst (protected_read_all_impl x e plan n w2) =
      Inr (body_of (va_crypto x) (va_seed x) (eg_user e) plan (body_of (va_crypto x) seed (eg_user e) plan new), i))"
proof -
  from written_state[OF crypto(1-3) store path world first len(1)] obtain k' r' where
    st: "stored_at (eg_pool e) k' (blob_of (va_crypto x) (va_seed x) (eg_user e) plan old) (wd_pool w1)"
    and r': "row_for x (eg_user e) plan (va_seed x) k' old r'" "eg_up_index e"
      "get_file_metadata (eg_user e) n (wd_index w1) = Some r'" by blast
  have rr: "r' = r" "k' = k" using r' row by (simp_all add: row_for_def)
  have "fst (projr (encode_payload (va_crypto x) seed (eg_user e) plan new)) = blob_of (va_crypto x) seed (eg_user e) plan new"
    unfolding encode_payload_eq[OF crypto(2)] sum.sel fst_conv ..
  then have enc: "encoded = blob_of (va_crypto x) seed (eg_user e) plan new" unfolding blob sum.sel fst_conv .
  have none: "pl_write (wd_pool w1) = None" using st by (simp add: stored_at_def)
  note law = sound_storeD(1)[OF store]
  have short: "length new < 2 ^ 61" using len by simp
  have "length encoded < 2 ^ 64"
    unfolding enc using blob_short[OF crypto(1,4) short, of plan "eg_user e"] by (simp del: length_append)
  then have "ranged_op (primary (eg_pool e)) k (pl_primary s)"
    using sound_storeD(2)[OF store] pool_write_stored[OF law none crash(1)] by blast
  then have new: "stored_at (eg_pool e) k (blob_of (va_crypto x) seed (eg_user e) plan new) (wd_pool w2)"
    unfolding crash(2) enc[symmetric] by (rule write_stored_at[OF law none crash(1)])
  have "protected_row e n w2 = Inr r"
    using r'(2) row(1) crash(3) by (simp add: protected_row_def get_index_metadata_def)
  from protected_reads(1)[OF new crypto(1,2,4) short r'(1)[unfolded rr] crypto(3) len(2)[symmetric] this]
  have "\<exists>i. fst (protected_read_all_impl x e plan n w2) =
      Inr (body_of (va_crypto x) (va_seed x) (eg_user e) plan (body_of (va_crypto x) seed (eg_user e) plan new), i)" by blast
  moreover have "recover_protected_write e n sz pm st w2 = (Inr (), w2)"
    using r'(2) row(1) crash(3) by (simp add: recover_protected_write_def index_row_of_def settled_def st_bind_def)
  ultimately show ?thesis by blast
qed

lemma pk_pool_write:
  "pl_write s = None \<Longrightarrow> \<exists>j s'. pool_write (eg_pool pe) k d s = (Inr j, s')"
  by (simp add: pool_write_def on_primary_def then_stat_def st_bind_def invalidate_read_cache_def pool_stat_def
      pool_pending_stat_def stat_with_operator_def map_op_def dal_res_def)

lemma from_le_zeros: "from_le (replicate n (CHR 0x00)) = 0"
  by (induction n) simp_all

lemma pk_stream:
  assumes "n < 2 ^ 100" "length buf \<le> 16"
  shows "encrypt_stream pk_crypto key n 0 buf = map2 xor_byte buf (map (\<lambda>j. char_of (n + j)) [0..<length buf])"
proof -
  have "map (\<lambda>j. cr_keystream pk_crypto key n (0 + j)) [0..<length buf] = map (\<lambda>j. char_of (n + j)) [0..<length buf]"
    using assms by (intro map_cong) (simp_all add: pk_crypto_def)
  then show ?thesis by (simp only: encrypt_stream_def)
qed

lemma torn_overwrite_witness:
  "\<exists>w2 i. fst (protected_read_all_impl pk_vault pe (pk_plan Encrypt) ''/f'' w2) = Inr (''~n'', i) \<and>
     recover_protected_write pe ''/f'' 2 None PhysicalDone w2 = (Inr (), w2)"
proof -
  let ?seed = "replicate 15 (CHR 0x00) @ ''t''" and ?plan = "pk_plan Encrypt"
  obtain info w1 where run: "protected_write_impl pk_vault pe ?plan ''/f'' ''hi'' pw = (Inr info, w1)"
    using pk_write by blast
  have law: "lawful_crypto (va_crypto pk_vault)" "length ''hi'' < 2 ^ 61" by (simp_all add: pk_facts(2) pk_lawful)
  from written_state[OF law(1) pk_facts(1,3) pk_store pk_path pk_facts(4-6) run law(2)] obtain k r where
    r: "get_file_metadata (eg_user pe) ''/f'' (wd_index w1) = Some r" "ir_key r = Some k" "pl_write (wd_pool w1) = None"
    by (auto simp: row_for_def stored_at_def)
  obtain encoded h meta where enc: "encode_payload (va_crypto pk_vault) ?seed (eg_user pe) ?plan ''yo'' = Inr (encoded, h, meta)"
    unfolding encode_payload_eq[OF pk_facts(1)] by blast
  obtain j s where s: "pool_write (eg_pool pe) k encoded (wd_pool w1) = (Inr j, s)" using pk_pool_write[OF r(3)] by blast
  define w2 where "w2 = w1\<lparr>wd_pool := s\<rparr>"
  have "be_value ?seed = 116" "be_value (va_seed pk_vault) = 115" by (simp_all add: be_value_def pk_vault_def from_le_zeros)
  moreover have m: "map2 xor_byte ''yo'' (map (\<lambda>j. char_of (116 + j)) [0..<2]) = [CHR 0x0D, CHR 0x1A]"
    "map2 xor_byte [CHR 0x0D, CHR 0x1A] (map (\<lambda>j. char_of (115 + j)) [0..<2]) = ''~n''"
    by (simp_all add: upt_rec char_of_def bit_0 xor_byte_def)
  have two: "length ''yo'' = 2" "length [CHR 0x0D, CHR 0x1A] = 2" by simp_all
  have "encrypt_stream pk_crypto key 116 0 ''yo'' = [CHR 0x0D, CHR 0x1A]"
    "encrypt_stream pk_crypto key 115 0 [CHR 0x0D, CHR 0x1A] = ''~n''" for key
    using pk_stream[of 116 "''yo''" key, unfolded two m] pk_stream[of 115 "[CHR 0x0D, CHR 0x1A]" key, unfolded two m] by simp_all
  ultimately have "body_of (va_crypto pk_vault) (va_seed pk_vault) ''u'' ?plan (body_of (va_crypto pk_vault) ?seed ''u'' ?plan ''yo'') = ''~n''"
    by (simp add: body_of_def pk_plan_def encrypt_in_place_def pk_facts(2))
  moreover have "length ?seed = 16" "length ''yo'' = length ''hi''" "wd_pool w2 = s" "wd_index w2 = wd_index w1" by (simp_all add: w2_def)
  ultimately show ?thesis
    using torn_overwrite[OF law(1) pk_facts(1,3) _ pk_store pk_path pk_facts(4-6) run law(2) _ r(1,2) enc s, of w2 2 None PhysicalDone] by auto
qed

section \<open>Headers and MACs\<close>

text \<open>
  The header of a protected blob round-trips, both as the 36 bytes in front of the blob, whatever follows them,
  and as the JSON metadata of the index row.
\<close>

theorem header_roundtrip:
  assumes "lawful_crypto cr" and "length (ph_seed h) = 16"
  shows "decode_header (encode_header h @ rest) = Inr h \<and>
    header_from_meta_json cr (cr_json cr (meta_from_header cr h)) = Inr h"
proof -
  have m: "parse_mode ''obfuscate'' = Inr Obfuscate" "parse_mode ''encrypt'' = Inr Encrypt"
    "parse_prng ''xorshift'' = Inr Xorshift" "parse_prng ''pcg'' = Inr Pcg"
    by (simp_all add: parse_mode_def parse_prng_def word_names)
  have "into_header cr (meta_from_header cr h) = Inr h"
    using assms
    by (cases "ph_mode h"; cases "ph_prng h") (simp_all add: m meta_from_header_def into_header_def lawful_crypto_def)
  then have "header_from_meta_json cr (cr_json cr (meta_from_header cr h)) = Inr h"
    using assms(1) by (simp add: header_from_meta_json_def meta_from_json_def lawful_crypto_def)
  then show ?thesis using decode_encode_header[OF assms(2)] by blast
qed

lemma header_roundtrip_witness:
  "decode_header (encode_header (header_of (pk_plan Encrypt) (va_seed pk_vault) 5) @ ''tail'') =
    Inr (header_of (pk_plan Encrypt) (va_seed pk_vault) 5)"
  using header_roundtrip[OF pk_lawful, of "header_of (pk_plan Encrypt) (va_seed pk_vault) 5" "''tail''"] pk_facts(3)
  by (simp add: header_of_def)

text \<open>Two contents whose tags agree are equal, when no two of their chunks with equal tags differ.\<close>

lemma map_chunks_inj:
  assumes t: "\<And>i c. length (f i c) = t" and len: "length w = length v"
    and inj: "\<And>j. f (i + j) (take (max n 1) (drop (j * max n 1) w)) = f (i + j) (take (max n 1) (drop (j * max n 1) v)) \<Longrightarrow>
      take (max n 1) (drop (j * max n 1) w) = take (max n 1) (drop (j * max n 1) v)"
    and eq: "map_chunks n f i w = map_chunks n f i v"
  shows "w = v"
  using len inj eq
proof (induction "length w" arbitrary: i w v rule: less_induct)
  case less
  let ?m = "max n 1"
  show ?case
  proof (cases "w = []")
    case False
    then have v: "v \<noteq> []" using less.prems(1) by auto
    have both: "f i (take ?m w) = f i (take ?m v)" "map_chunks n f (Suc i) (drop ?m w) = map_chunks n f (Suc i) (drop ?m v)"
      using less.prems(3) t unfolding map_chunks_step[OF False] map_chunks_step[OF v] by simp_all
    have "take ?m w = take ?m v" using less.prems(2)[of 0] both(1) by simp
    moreover have "drop ?m w = drop ?m v"
    proof (rule less.hyps[of "drop ?m w" "drop ?m v" "Suc i"])
      show "length (drop ?m w) < length w" using False by simp
      show "length (drop ?m w) = length (drop ?m v)" using less.prems(1) by simp
      show "take ?m (drop (j * ?m) (drop ?m w)) = take ?m (drop (j * ?m) (drop ?m v))"
        if "f (Suc i + j) (take ?m (drop (j * ?m) (drop ?m w))) = f (Suc i + j) (take ?m (drop (j * ?m) (drop ?m v)))" for j
        using less.prems(2)[of "Suc j"] that by (simp add: add.commute)
    qed (rule both(2))
    ultimately show ?thesis by (metis append_take_drop_id)
  qed (use less.prems(1) in simp)
qed

text \<open>
  C12: The tags guard every window of an encrypted file. With the tags of the chunks of a window, as they stand in
  the table of the blob, the verification accepts a ciphertext of the window's length exactly when it is the window
  of the blob, unless a changed chunk collides under HMAC with the original one at its place.
\<close>

theorem mac_window_exact:
  assumes "lawful_crypto cr" and win: "chunk_aligned (max (unat chunk) 1) p q (length body)" and len: "length body < 2 ^ 64"
    and same: "length window = q - p"
    and no_collision: "\<And>j. tag_of cr key (p div max (unat chunk) 1 + j) (take (max (unat chunk) 1) (drop (j * max (unat chunk) 1) window)) =
        tag_of cr key (p div max (unat chunk) 1 + j) (take (max (unat chunk) 1) (drop (j * max (unat chunk) 1) (byte_slice p q body))) \<Longrightarrow>
      take (max (unat chunk) 1) (drop (j * max (unat chunk) 1) window) =
        take (max (unat chunk) 1) (drop (j * max (unat chunk) 1) (byte_slice p q body))"
  shows "verify_encrypt_window cr key chunk (word_of_nat p) window
      (byte_slice (p div max (unat chunk) 1 * PROTECTED_MAC_LEN)
        ((p div max (unat chunk) 1 + chunks_of (max (unat chunk) 1) (q - p)) * PROTECTED_MAC_LEN)
        (build_encrypt_mac_table cr key (unat chunk) body)) = Inr () \<longleftrightarrow> window = byte_slice p q body"
proof -
  let ?n = "unat chunk" and ?i = "p div max (unat chunk) 1" and ?w = "byte_slice p q body"
  have pq: "p \<le> q" "q \<le> length body" using win by (auto simp: chunk_aligned_def)
  have short: "p < 2 ^ 64" "length window < 2 ^ 64" using pq len same by simp_all
  have tag: "length (tag_of cr key i c) = PROTECTED_MAC_LEN" for i c
    using assms(1) by (simp add: chunk_mac_def lawful_crypto_def)
  have l: "length window = length ?w" using same pq by simp
  show ?thesis
    unfolding verify_window_iff[OF assms(1) short] table_window[OF assms(1) win]
    using map_chunks_inj[of "tag_of cr key" _ window ?w ?i ?n, OF tag l no_collision] by metis
qed

lemma mac_window_exact_witness:
  "verify_encrypt_window pk_crypto ''k'' 4 (word_of_nat 0) ''ho'' (build_encrypt_mac_table pk_crypto ''k'' 4 ''hi'') \<noteq> Inr ()"
proof -
  have tag: "tag_of pk_crypto ''k'' 0 c = le_bytes PROTECTED_MAC_LEN (from_le (le_bytes 8 0 @ c))" for c
    by (simp add: chunk_mac_def pk_crypto_def)
  have zero: "le_bytes n 0 = replicate n (CHR 0x00)" for n
    by (induction n) (simp_all add: char_of_def)
  have front: "from_le (replicate n (CHR 0x00) @ c) = 256 ^ n * from_le c" for n c by (induction n) simp_all
  have differ: "tag_of pk_crypto ''k'' 0 ''ho'' \<noteq> tag_of pk_crypto ''k'' 0 ''hi''"
  proof
    assume "tag_of pk_crypto ''k'' 0 ''ho'' = tag_of pk_crypto ''k'' 0 ''hi''"
    then have "(256 ^ 8 * from_le ''ho'') mod 256 ^ 32 = (256 ^ 8 * from_le ''hi'') mod 256 ^ 32"
      unfolding tag zero front PROTECTED_MAC_LEN_def by (metis from_le_le_bytes)
    then show False by simp
  qed
  have u: "unat (4 :: u32) = 4" "max (4 :: nat) 1 = 4" by simp_all
  have s: "byte_slice 0 2 ''hi'' = ''hi''" "take 4 ''ho'' = ''ho''" "take 4 ''hi'' = ''hi''" by (simp_all add: byte_slice_def)
  have none: "take (max (unat (4 :: u32)) 1) (drop (j * max (unat (4 :: u32)) 1) ''ho'') =
      take (max (unat (4 :: u32)) 1) (drop (j * max (unat (4 :: u32)) 1) (byte_slice 0 2 ''hi''))"
    if "tag_of pk_crypto ''k'' (0 div max (unat (4 :: u32)) 1 + j) (take (max (unat (4 :: u32)) 1) (drop (j * max (unat (4 :: u32)) 1) ''ho'')) =
      tag_of pk_crypto ''k'' (0 div max (unat (4 :: u32)) 1 + j)
        (take (max (unat (4 :: u32)) 1) (drop (j * max (unat (4 :: u32)) 1) (byte_slice 0 2 ''hi'')))" for j
    using that differ unfolding u s by (cases j) (simp_all add: s)
  have "byte_slice (0 div max (unat (4 :: u32)) 1 * PROTECTED_MAC_LEN)
      ((0 div max (unat (4 :: u32)) 1 + chunks_of (max (unat (4 :: u32)) 1) (2 - 0)) * PROTECTED_MAC_LEN)
      (build_encrypt_mac_table pk_crypto ''k'' (unat (4 :: u32)) ''hi'') = build_encrypt_mac_table pk_crypto ''k'' 4 ''hi''"
    unfolding u
  proof -
    have "length (build_encrypt_mac_table pk_crypto ''k'' 4 ''hi'') = chunks_of (max 4 1) (length ''hi'') * PROTECTED_MAC_LEN"
      unfolding build_encrypt_mac_table_def by (rule map_chunks_tag_length) (simp add: chunk_mac_def pk_crypto_def)
    then show "byte_slice (0 div 4 * PROTECTED_MAC_LEN) ((0 div 4 + chunks_of 4 (2 - 0)) * PROTECTED_MAC_LEN)
        (build_encrypt_mac_table pk_crypto ''k'' 4 ''hi'') = build_encrypt_mac_table pk_crypto ''k'' 4 ''hi''"
      by (simp add: slice_all chunks_of_def)
  qed
  with mac_window_exact[OF pk_lawful, of "4 :: u32" 0 2 "''hi''" "''ho''" "''k''", OF _ _ _ none] show ?thesis
    by (simp add: chunk_aligned_def s)
qed

end
