(* ===== verification/Storage_Trait.thy ===== *)
theory Storage_Trait
  imports Engine_Pages
begin

text \<open>
  The storage interface (\<open>vfs/traits.rs\<close>) as a record of its methods over the world \<open>'w\<close> the storages share:
  a \<open>dyn VfsStorage\<close> is a value of \<open>'w storage\<close>. The default methods of the trait are functions of the record.
  The scoped engine (\<open>vfs/scoped/storage_impl.rs\<close>) and the pool (\<open>vfs/pool.rs\<close>) are two of them;
  \<open>within\<close> places a storage in a larger world. The two relocating calls may not return, so they are options:
  the storage of a user with mounts copies trees by recursion. Archives, upload files and tasks are not part of
  the record.
\<close>

type_synonym ('w, 'a) run = "'w \<Rightarrow> ((vfs_error + 'a) \<times> 'w) option"

record 'w storage =
  sg_read :: "string \<Rightarrow> ('w, vfs_error, string \<times> vfs_file_info) call"
  sg_write :: "string \<Rightarrow> string \<Rightarrow> ('w, vfs_error, vfs_file_info) call"
  sg_delete :: "string \<Rightarrow> ('w, vfs_error, vfs_file_info) call"
  sg_list :: "string \<Rightarrow> ('w, vfs_error, vfs_file_info list) call"
  sg_list_stream :: "string \<Rightarrow> 'w \<Rightarrow> (vfs_error + vfs_file_info) list \<times> 'w"
  sg_list_recursive :: "string \<Rightarrow> ('w, vfs_error, vfs_file_info list) call"
  sg_list_page :: "string \<Rightarrow> int \<Rightarrow> int \<Rightarrow> ('w, vfs_error, vfs_file_info list \<times> int) call"
  sg_list_sorted_page :: "string \<Rightarrow> page_params \<Rightarrow> ('w, vfs_error, vfs_file_info list \<times> int) call"
  sg_exists :: "string \<Rightarrow> ('w, vfs_error, bool) call"
  sg_stat :: "string \<Rightarrow> ('w, vfs_error, vfs_file_info) call"
  sg_read_stream :: "string \<Rightarrow> ('w, vfs_error, (vfs_error + string) list \<times> vfs_file_info) call"
  sg_read_stream_range :: "string \<Rightarrow> u64 \<Rightarrow> u64 \<Rightarrow> ('w, vfs_error, (vfs_error + string) list \<times> vfs_file_info) call"
  sg_write_stream :: "string \<Rightarrow> (vfs_error + string) list \<Rightarrow> ('w, vfs_error, vfs_file_info) call"
  sg_metadata :: "string \<Rightarrow> ('w, vfs_error, vfs_metadata) call"
  sg_read_range :: "string \<Rightarrow> u64 \<Rightarrow> u64 \<Rightarrow> ('w, vfs_error, string \<times> vfs_file_info) call"
  sg_write_at :: "string \<Rightarrow> u64 \<Rightarrow> string \<Rightarrow> ('w, vfs_error, vfs_file_info) call"
  sg_set_times :: "string \<Rightarrow> u64 option \<Rightarrow> u64 option \<Rightarrow> ('w, vfs_error, vfs_file_info) call"
  sg_check_quota :: "int \<Rightarrow> ('w, vfs_error, unit) call"
  sg_get_quota :: "('w, vfs_error, u64 \<times> u64 option) call"
  sg_create_dir :: "string \<Rightarrow> ('w, vfs_error, vfs_file_info) call"
  sg_create_dir_all :: "string \<Rightarrow> ('w, vfs_error, vfs_file_info) call"
  sg_move_file :: "string \<Rightarrow> string \<Rightarrow> ('w, vfs_file_info) run"
  sg_copy_file :: "string \<Rightarrow> string \<Rightarrow> ('w, vfs_file_info) run"
  sg_canonicalize :: "string \<Rightarrow> vfs_error + string"
  sg_backend_type :: string
  sg_recursive_size :: "string \<Rightarrow> ('w, vfs_error, int) call"
  sg_set_favorite :: "string \<Rightarrow> int \<Rightarrow> ('w, vfs_error, vfs_file_info) call"
  sg_list_favorites :: "int option \<Rightarrow> ('w, vfs_error, vfs_file_info list) call"
  sg_favorites_page :: "page_params \<Rightarrow> int option \<Rightarrow> ('w, vfs_error, vfs_file_info list \<times> int) call"
  sg_move_to_trash :: "string \<Rightarrow> ('w, vfs_error, vfs_file_info) call"
  sg_restore_from_trash :: "string \<Rightarrow> ('w, vfs_error, vfs_file_info) call"
  sg_list_trash :: "('w, vfs_error, vfs_file_info list) call"
  sg_sync_index :: "string \<Rightarrow> ('w, vfs_error, vfs_file_info list) call"
  sg_migrate :: "string \<Rightarrow> string \<Rightarrow> ('w, vfs_error, vfs_file_info) call"

section \<open>Default methods\<close>

definition cmp_optional_utc :: "int option \<Rightarrow> int option \<Rightarrow> bool" where
  "cmp_optional_utc a b =
     (case (a, b) of (Some l, Some r) \<Rightarrow> l < r | (None, Some _) \<Rightarrow> True | _ \<Rightarrow> False)"

text \<open>\<open>as usize\<close> of an \<open>i64\<close>: a negative offset or page size is a huge one.\<close>

definition as_usize :: "int \<Rightarrow> nat" where
  "as_usize x = unat (word_of_int x :: u64)"

definition default_page :: "int \<Rightarrow> int \<Rightarrow> 'a list \<Rightarrow> 'a list \<times> int" where
  "default_page page page_size all =
     (take (as_usize page_size) (drop (as_usize (page_offset page page_size)) all), int (length all))"

definition trait_sort :: "string option \<Rightarrow> string option \<Rightarrow> vfs_file_info list \<Rightarrow> vfs_file_info list" where
  "trait_sort sort_by order is =
     (case sort_by of
        None \<Rightarrow> is
      | Some field \<Rightarrow>
          (let is_desc = (order = Some ''desc'') in
           if field = ''size'' then (if is_desc then order_desc else order_asc) fi_size is
           else if field = ''modified'' then (if is_desc then order_desc else order_asc) fi_modified is
           else (if is_desc then order_desc else order_asc) fi_name is))"

definition trait_bin_sort :: "string option \<Rightarrow> string option \<Rightarrow> vfs_file_info list \<Rightarrow> vfs_file_info list" where
  "trait_bin_sort sort_by order is =
     (case sort_by of
        None \<Rightarrow> is
      | Some field \<Rightarrow>
          (let is_desc = (order = Some ''desc'') in
           if field = ''name'' then (if is_desc then order_desc else order_asc) fi_name is
           else if field = ''path'' then (if is_desc then order_desc else order_asc) fi_path is
           else if field = ''original_path'' then (if is_desc then order_desc else order_asc) fi_original_path is
           else if field = ''size'' then (if is_desc then order_desc else order_asc) fi_size is
           else if field = ''modified'' then (if is_desc then order_desc else order_asc) fi_modified is
           else (if is_desc then order_desc else order_asc) fi_trashed_at is))"

definition then_return :: "('w, 'e, 'a) call \<Rightarrow> ('a \<Rightarrow> 'b) \<Rightarrow> ('w, 'e, 'b) call" where
  "then_return m f = st_bind m (\<lambda>x w. (Inr (f x), w))"

definition default_list_page :: "'w storage \<Rightarrow> string \<Rightarrow> int \<Rightarrow> int \<Rightarrow> ('w, vfs_error, vfs_file_info list \<times> int) call" where
  "default_list_page s parent page page_size = then_return (sg_list s parent) (default_page page page_size)"

definition default_list_sorted_page ::
  "(string \<Rightarrow> string) \<Rightarrow> 'w storage \<Rightarrow> string \<Rightarrow> page_params \<Rightarrow> ('w, vfs_error, vfs_file_info list \<times> int) call" where
  "default_list_sorted_page lower s parent ps =
     then_return (sg_list s parent) (\<lambda>all.
       default_page (pp_page ps) (pp_page_size ps)
         (trait_sort (pp_sort_by ps) (pp_order ps) (filter (keyword_in lower (pp_keyword ps)) all)))"

definition default_search_page ::
  "(string \<Rightarrow> string) \<Rightarrow> 'w storage \<Rightarrow> string \<Rightarrow> int \<Rightarrow> int \<Rightarrow> ('w, vfs_error, vfs_file_info list \<times> int) call" where
  "default_search_page lower s keyword page page_size =
     then_return (sg_list_recursive s ''/'') (\<lambda>all.
       default_page page page_size (filter (\<lambda>i. find_sub (lower keyword) (lower (fi_name i)) \<noteq> None) all))"

definition default_bin_page :: "'w storage \<Rightarrow> int \<Rightarrow> int \<Rightarrow> ('w, vfs_error, vfs_file_info list \<times> int) call" where
  "default_bin_page s page page_size = then_return (sg_list_trash s) (default_page page page_size)"

definition bin_keyword_in :: "(string \<Rightarrow> string) \<Rightarrow> string option \<Rightarrow> vfs_file_info \<Rightarrow> bool" where
  "bin_keyword_in lower keyword i \<longleftrightarrow>
     keyword_in lower keyword i \<or>
     (case (keyword, fi_original_path i) of
        (Some kw, Some p) \<Rightarrow> find_sub (lower kw) (lower p) \<noteq> None | _ \<Rightarrow> False)"

definition default_bin_sorted_page ::
  "(string \<Rightarrow> string) \<Rightarrow> 'w storage \<Rightarrow> page_params \<Rightarrow> ('w, vfs_error, vfs_file_info list \<times> int) call" where
  "default_bin_sorted_page lower s ps =
     then_return (sg_list_trash s) (\<lambda>all.
       default_page (pp_page ps) (pp_page_size ps)
         (trait_bin_sort (pp_sort_by ps) (pp_order ps) (filter (bin_keyword_in lower (pp_keyword ps)) all)))"

definition default_favorites_page ::
  "(string \<Rightarrow> string) \<Rightarrow> 'w storage \<Rightarrow> page_params \<Rightarrow> int option \<Rightarrow> ('w, vfs_error, vfs_file_info list \<times> int) call" where
  "default_favorites_page lower s ps color =
     then_return (sg_list_favorites s color) (\<lambda>all.
       default_page (pp_page ps) (pp_page_size ps)
         (trait_sort (pp_sort_by ps) (pp_order ps) (filter (keyword_in lower (pp_keyword ps)) all)))"

subsection \<open>A free name\<close>

text \<open>\<open>Path::file_stem\<close> and \<open>Path::extension\<close>: a leading dot does not start an extension.\<close>

definition path_file_stem :: "string \<Rightarrow> string option" where
  "path_file_stem p =
     (case path_file_name p of
        None \<Rightarrow> None
      | Some n \<Rightarrow> (case rsplit_once dot n of Some (stem, ext) \<Rightarrow> Some (if stem = [] then n else stem) | None \<Rightarrow> Some n))"

definition path_extension :: "string \<Rightarrow> string option" where
  "path_extension p =
     (case path_file_name p of
        None \<Rightarrow> None
      | Some n \<Rightarrow> (case rsplit_once dot n of Some (stem, ext) \<Rightarrow> if stem = [] then None else Some ext | None \<Rightarrow> None))"

text \<open>A number in decimal, as \<open>format!\<close> writes it.\<close>

fun decimal :: "nat \<Rightarrow> string" where
  "decimal n = (if n < 10 then [char_of (48 + n)] else decimal (n div 10) @ [char_of (48 + n mod 10)])"

declare decimal.simps [simp del]

definition numbered_name :: "string \<Rightarrow> nat \<Rightarrow> string" where
  "numbered_name path counter =
     (let parent = (case path_parent path of Some p \<Rightarrow> p | None \<Rightarrow> ''/'');
          stem = (case path_file_stem path of Some s \<Rightarrow> s | None \<Rightarrow> ''file'');
          extension = (case path_extension path of Some e \<Rightarrow> dot # e | None \<Rightarrow> []) in
      trim_end_matches slash parent @ ''/'' @ stem @ ''_'' @ decimal counter @ extension)"

text \<open>The loop of the counter: after the last number the name is returned without asking for it.\<close>

fun unique_from :: "'w storage \<Rightarrow> (nat \<Rightarrow> string) \<Rightarrow> nat list \<Rightarrow> string \<Rightarrow> ('w, vfs_error, string) call" where
  "unique_from s name [] cur w = (Inr cur, w)"
| "unique_from s name (k # ks) cur w =
     st_bind (sg_exists s cur) (\<lambda>there. if there then unique_from s name ks (name k) else (\<lambda>w. (Inr cur, w))) w"

definition get_unique_path :: "'w storage \<Rightarrow> string \<Rightarrow> ('w, vfs_error, string) call" where
  "get_unique_path s path =
     st_bind (sg_exists s path) (\<lambda>there.
       if there then unique_from s (numbered_name path) [1..<101] path else (\<lambda>w. (Inr path, w)))"

section \<open>The engine and the pool as storages\<close>

definition asked :: "('w \<Rightarrow> 'e + 'a) \<Rightarrow> ('w, 'e, 'a) call" where
  "asked f w = (f w, w)"

definition refused :: "vfs_error \<Rightarrow> ('w, vfs_error, 'a) call" where
  "refused err w = (Inl err, w)"

text \<open>\<open>profile\<close> and \<open>page_size\<close> are the stream settings of the process.\<close>

definition engine_storage :: "(string \<Rightarrow> string) \<Rightarrow> string \<Rightarrow> u64 \<Rightarrow> 'p engine \<Rightarrow> 'p world storage" where
  "engine_storage lower profile page_size e =
     \<lparr>sg_read = read_impl e, sg_write = write_impl e, sg_delete = delete_impl e, sg_list = list_impl e,
      sg_list_stream = list_stream_impl e page_size, sg_list_recursive = (\<lambda>p. asked (list_recursive_impl e p)),
      sg_list_page = list_files_paginated_impl e, sg_list_sorted_page = list_files_paginated_with_sort_impl lower e,
      sg_exists = (\<lambda>p. asked (exists_impl e p)), sg_stat = (\<lambda>p. asked (stat_impl e p)),
      sg_read_stream = (\<lambda>p. read_stream_range_impl e p 0 (- 1)), sg_read_stream_range = read_stream_range_impl e,
      sg_write_stream = write_stream_impl e, sg_metadata = (\<lambda>p. asked (metadata_impl e p)),
      sg_read_range = read_range_impl e, sg_write_at = write_at_impl e,
      sg_set_times = (\<lambda>p atime mtime. asked (stat_impl e p)), sg_check_quota = (\<lambda>n. asked (engine_check_quota e n)),
      sg_get_quota = asked (\<lambda>w. res_bind
        (get_quota_impl (eg_up_settings e) (pool_pending_quota_delta (eg_user e) (wd_pool w)) (eg_user e) (wd_settings w))
        (\<lambda>q. Inr (word_of_int (fst q), map_option word_of_int (snd q)))),
      sg_create_dir = create_dir_impl e, sg_create_dir_all = create_dir_impl e,
      sg_move_file = (\<lambda>src dst w. Some (move_file_impl e src dst w)),
      sg_copy_file = (\<lambda>src dst w. Some (copy_file_impl e src dst w)),
      sg_canonicalize = validate_path e, sg_backend_type = ''scoped'',
      sg_recursive_size = (\<lambda>p. asked (get_recursive_size_impl e p)), sg_set_favorite = set_favorite_impl e,
      sg_list_favorites = (\<lambda>c. asked (list_favorites_impl e profile c)),
      sg_favorites_page = (\<lambda>ps c. asked (list_favorites_paginated_impl e ps c)),
      sg_move_to_trash = move_to_trash_impl e, sg_restore_from_trash = restore_from_trash_impl e,
      sg_list_trash = asked (list_trash_impl e), sg_sync_index = sync_index_impl e,
      sg_migrate = (\<lambda>p target. refused (Internal ''Not implemented''))\<rparr>"

definition pool_storage :: "(string \<Rightarrow> string) \<Rightarrow> string \<Rightarrow> 'p pool_env \<Rightarrow> read_clock \<Rightarrow> 'p pool storage" where
  "pool_storage lower scheme env clk =
     (let stat = (\<lambda>p. asked (pool_stat env p)); listed = (\<lambda>p. asked (pool_list env p)) in
     \<lparr>sg_read = pool_read env clk, sg_write = pool_write env, sg_delete = pool_delete env, sg_list = listed,
      sg_list_stream = (\<lambda>p w. (pool_list_stream env p w, w)), sg_list_recursive = (\<lambda>p. asked (pool_list_recursive env p)),
      sg_list_page = (\<lambda>p n m. then_return (listed p) (default_page n m)),
      sg_list_sorted_page = (\<lambda>p ps. then_return (listed p) (\<lambda>all. default_page (pp_page ps) (pp_page_size ps)
        (trait_sort (pp_sort_by ps) (pp_order ps) (filter (keyword_in lower (pp_keyword ps)) all)))),
      sg_exists = (\<lambda>p. asked (pool_exists env p)), sg_stat = stat,
      sg_read_stream = pool_read_stream env (fst clk), sg_read_stream_range = read_stream_range env (fst clk),
      sg_write_stream = pool_write_stream env, sg_metadata = (\<lambda>p. asked (pool_metadata env p)),
      sg_read_range = pool_read_range env (fst clk), sg_write_at = (\<lambda>p n d. asked (\<lambda>w. pool_write_at p n d)),
      sg_set_times = (\<lambda>p atime mtime. stat p), sg_check_quota = (\<lambda>n. asked (\<lambda>w. Inr ())),
      sg_get_quota = asked (\<lambda>w. Inr (0, None)), sg_create_dir = pool_create_dir env, sg_create_dir_all = pool_create_dir env,
      sg_move_file = (\<lambda>src dst w. Some (pool_move_file env src dst w)),
      sg_copy_file = (\<lambda>src dst w. Some (pool_copy_file env src dst w)),
      sg_canonicalize = Inr, sg_backend_type = scheme,
      sg_recursive_size = (\<lambda>p. asked (\<lambda>w. pool_get_recursive_size p)), sg_set_favorite = (\<lambda>p color. stat p),
      sg_list_favorites = (\<lambda>c. asked (\<lambda>w. Inr [])), sg_favorites_page = (\<lambda>ps c. asked (\<lambda>w. Inr (default_page (pp_page ps) (pp_page_size ps) []))),
      sg_move_to_trash = stat, sg_restore_from_trash = stat, sg_list_trash = asked (\<lambda>w. Inr []),
      sg_sync_index = (\<lambda>p. asked (\<lambda>w. Inr [])), sg_migrate = (\<lambda>p target. stat p)\<rparr>)"

text \<open>A storage whose state is a part of the world.\<close>

definition on_part :: "('w \<Rightarrow> 'v) \<Rightarrow> ('v \<Rightarrow> 'w \<Rightarrow> 'w) \<Rightarrow> ('v, 'e, 'a) call \<Rightarrow> ('w, 'e, 'a) call" where
  "on_part part put m w = (case m (part w) of (r, v) \<Rightarrow> (r, put v w))"

definition run_part :: "('w \<Rightarrow> 'v) \<Rightarrow> ('v \<Rightarrow> 'w \<Rightarrow> 'w) \<Rightarrow> ('v, 'a) run \<Rightarrow> ('w, 'a) run" where
  "run_part part put m w = map_option (\<lambda>(r, v). (r, put v w)) (m (part w))"

definition within :: "('w \<Rightarrow> 'v) \<Rightarrow> ('v \<Rightarrow> 'w \<Rightarrow> 'w) \<Rightarrow> 'v storage \<Rightarrow> 'w storage" where
  "within part put s =
     \<lparr>sg_read = (\<lambda>p. on_part part put (sg_read s p)), sg_write = (\<lambda>p d. on_part part put (sg_write s p d)),
      sg_delete = (\<lambda>p. on_part part put (sg_delete s p)), sg_list = (\<lambda>p. on_part part put (sg_list s p)),
      sg_list_stream = (\<lambda>p w. case sg_list_stream s p (part w) of (r, v) \<Rightarrow> (r, put v w)),
      sg_list_recursive = (\<lambda>p. on_part part put (sg_list_recursive s p)),
      sg_list_page = (\<lambda>p n m. on_part part put (sg_list_page s p n m)),
      sg_list_sorted_page = (\<lambda>p ps. on_part part put (sg_list_sorted_page s p ps)),
      sg_exists = (\<lambda>p. on_part part put (sg_exists s p)), sg_stat = (\<lambda>p. on_part part put (sg_stat s p)),
      sg_read_stream = (\<lambda>p. on_part part put (sg_read_stream s p)),
      sg_read_stream_range = (\<lambda>p a b. on_part part put (sg_read_stream_range s p a b)),
      sg_write_stream = (\<lambda>p cs. on_part part put (sg_write_stream s p cs)),
      sg_metadata = (\<lambda>p. on_part part put (sg_metadata s p)),
      sg_read_range = (\<lambda>p a b. on_part part put (sg_read_range s p a b)),
      sg_write_at = (\<lambda>p n d. on_part part put (sg_write_at s p n d)),
      sg_set_times = (\<lambda>p a m. on_part part put (sg_set_times s p a m)),
      sg_check_quota = (\<lambda>n. on_part part put (sg_check_quota s n)), sg_get_quota = on_part part put (sg_get_quota s),
      sg_create_dir = (\<lambda>p. on_part part put (sg_create_dir s p)),
      sg_create_dir_all = (\<lambda>p. on_part part put (sg_create_dir_all s p)),
      sg_move_file = (\<lambda>src dst. run_part part put (sg_move_file s src dst)),
      sg_copy_file = (\<lambda>src dst. run_part part put (sg_copy_file s src dst)),
      sg_canonicalize = sg_canonicalize s, sg_backend_type = sg_backend_type s,
      sg_recursive_size = (\<lambda>p. on_part part put (sg_recursive_size s p)),
      sg_set_favorite = (\<lambda>p c. on_part part put (sg_set_favorite s p c)),
      sg_list_favorites = (\<lambda>c. on_part part put (sg_list_favorites s c)),
      sg_favorites_page = (\<lambda>ps c. on_part part put (sg_favorites_page s ps c)),
      sg_move_to_trash = (\<lambda>p. on_part part put (sg_move_to_trash s p)),
      sg_restore_from_trash = (\<lambda>p. on_part part put (sg_restore_from_trash s p)),
      sg_list_trash = on_part part put (sg_list_trash s), sg_sync_index = (\<lambda>p. on_part part put (sg_sync_index s p)),
      sg_migrate = (\<lambda>p t. on_part part put (sg_migrate s p t))\<rparr>"

end
