(* ===== verification/Remote_Mounts.thy ===== *)
theory Remote_Mounts
  imports User_Settings File_Query
begin

text \<open>
  The table of remote mounts (\<open>business/entities/remote_mount.rs\<close>) and the service that keeps it
  (\<open>business/services/remote_mounts.rs\<close>). The table is a list of rows with \<open>id\<close> as its primary key; times are
  seconds. The options of a mount are kept as JSON, written and read by the parameter \<open>mount_json\<close>.
\<close>

datatype remote_mount_sync_mode =
    PeerToMountKeep
  | PeerToMountMirror
  | MountToPeerKeep
  | MountToPeerMirror
  | BidirectionalKeep

definition sync_mode_from_i16 :: "int \<Rightarrow> remote_mount_sync_mode option" where
  "sync_mode_from_i16 v =
     (if v = 1 then Some PeerToMountKeep
      else if v = 2 then Some PeerToMountMirror
      else if v = 3 then Some MountToPeerKeep
      else if v = 4 then Some MountToPeerMirror
      else if v = 5 then Some BidirectionalKeep
      else None)"

type_synonym mount_options = "(string \<times> string) list"

record remote_mount =
  rm_id :: string
  rm_user :: string
  rm_name :: string
  rm_driver :: string
  rm_root :: string
  rm_mount_dir :: string
  rm_peer_dir :: "string option"
  rm_sync_mode :: int
  rm_interval :: int
  rm_timeout :: int
  rm_enable :: bool
  rm_options_json :: string
  rm_last_sync :: "int option"
  rm_next_sync :: "int option"
  rm_status :: "string option"
  rm_error :: "string option"
  rm_created :: int
  rm_updated :: int

record mount_snapshot =
  ms_model :: remote_mount
  ms_options :: mount_options

record new_remote_mount =
  nm_id :: string
  nm_user :: string
  nm_name :: string
  nm_driver :: string
  nm_root :: string
  nm_mount_dir :: string
  nm_peer_dir :: "string option"
  nm_sync_mode :: int
  nm_interval :: int
  nm_timeout :: int
  nm_enable :: bool
  nm_options :: mount_options

record mount_patch =
  mp_name :: "string option"
  mp_driver :: "string option"
  mp_root :: "string option"
  mp_mount_dir :: "string option"
  mp_peer_dir :: "string option option"
  mp_sync_mode :: "int option"
  mp_interval :: "int option"
  mp_timeout :: "int option"
  mp_enable :: "bool option"
  mp_options :: "mount_options option"
  mp_reset_schedule :: bool

record mount_json =
  mj_encode :: "mount_options \<Rightarrow> string + string"
  mj_decode :: "string \<Rightarrow> mount_options option"

type_synonym 'a mounts_call = "remote_mount list \<Rightarrow> (db_error + 'a) \<times> remote_mount list"

section \<open>The service\<close>

definition decode_options :: "mount_json \<Rightarrow> string \<Rightarrow> mount_options" where
  "decode_options js raw = (case mj_decode js raw of Some o' \<Rightarrow> o' | None \<Rightarrow> [])"

definition encode_options :: "mount_json \<Rightarrow> mount_options \<Rightarrow> db_error + string" where
  "encode_options js options = (case mj_encode js options of Inl text \<Rightarrow> Inl (DbCustom text) | Inr raw \<Rightarrow> Inr raw)"

definition schedule_time :: "int \<Rightarrow> int \<Rightarrow> bool \<Rightarrow> string option \<Rightarrow> int option" where
  "schedule_time now interval_minutes enabled peer =
     (if \<not> enabled \<or> peer = None then None else Some (now + 60 * max interval_minutes 1))"

definition snapshot_of_mount :: "mount_json \<Rightarrow> remote_mount \<Rightarrow> mount_snapshot" where
  "snapshot_of_mount js m = \<lparr>ms_model = m, ms_options = decode_options js (rm_options_json m)\<rparr>"

definition list_user_mounts :: "mount_json \<Rightarrow> bool \<Rightarrow> string \<Rightarrow> remote_mount list \<Rightarrow> db_error + mount_snapshot list" where
  "list_user_mounts js up u t =
     (if \<not> up then Inl DbUnavailable
      else Inr (map (snapshot_of_mount js) (order_asc rm_created (filter (\<lambda>m. rm_user m = u) t))))"

definition list_all_mounts :: "mount_json \<Rightarrow> bool \<Rightarrow> remote_mount list \<Rightarrow> db_error + mount_snapshot list" where
  "list_all_mounts js up t =
     (if \<not> up then Inl DbUnavailable
      else Inr (map (snapshot_of_mount js) (order_asc rm_user (order_asc rm_created t))))"

definition count_user_mounts :: "bool \<Rightarrow> string \<Rightarrow> remote_mount list \<Rightarrow> db_error + nat" where
  "count_user_mounts up u t = (if \<not> up then Inl DbUnavailable else Inr (length (filter (\<lambda>m. rm_user m = u) t)))"

definition mount_row :: "string \<Rightarrow> string \<Rightarrow> remote_mount list \<Rightarrow> remote_mount option" where
  "mount_row u mount_id t = find (\<lambda>m. rm_id m = mount_id \<and> rm_user m = u) t"

definition get_user_mount :: "mount_json \<Rightarrow> bool \<Rightarrow> string \<Rightarrow> string \<Rightarrow> remote_mount list \<Rightarrow> db_error + mount_snapshot option" where
  "get_user_mount js up u mount_id t =
     (if \<not> up then Inl DbUnavailable else Inr (map_option (snapshot_of_mount js) (mount_row u mount_id t)))"

definition create_mount :: "mount_json \<Rightarrow> bool \<Rightarrow> int \<Rightarrow> new_remote_mount \<Rightarrow> remote_mount mounts_call" where
  "create_mount js up now n t =
     (case encode_options js (nm_options n) of
        Inl err \<Rightarrow> (Inl err, t)
      | Inr raw \<Rightarrow>
          (let m = \<lparr>rm_id = nm_id n, rm_user = nm_user n, rm_name = nm_name n, rm_driver = nm_driver n,
                 rm_root = nm_root n, rm_mount_dir = nm_mount_dir n, rm_peer_dir = nm_peer_dir n,
                 rm_sync_mode = nm_sync_mode n, rm_interval = nm_interval n, rm_timeout = nm_timeout n,
                 rm_enable = nm_enable n, rm_options_json = raw, rm_last_sync = None,
                 rm_next_sync = schedule_time now (nm_interval n) (nm_enable n) (nm_peer_dir n),
                 rm_status = None, rm_error = None, rm_created = now, rm_updated = now\<rparr> in
           if \<not> up then (Inl DbUnavailable, t)
           else if rm_id m \<in> rm_id ` set t then (Inl DbUnique, t)
           else (Inr m, t @ [m])))"

definition patched :: "int \<Rightarrow> mount_patch \<Rightarrow> string option \<Rightarrow> remote_mount \<Rightarrow> remote_mount" where
  "patched now p raw m =
     (let m1 = m\<lparr>rm_name := set_col (mp_name p) (rm_name m), rm_driver := set_col (mp_driver p) (rm_driver m),
            rm_root := set_col (mp_root p) (rm_root m), rm_mount_dir := set_col (mp_mount_dir p) (rm_mount_dir m),
            rm_peer_dir := set_col (mp_peer_dir p) (rm_peer_dir m),
            rm_sync_mode := set_col (mp_sync_mode p) (rm_sync_mode m),
            rm_interval := set_col (mp_interval p) (rm_interval m), rm_timeout := set_col (mp_timeout p) (rm_timeout m),
            rm_enable := set_col (mp_enable p) (rm_enable m),
            rm_options_json := set_col raw (rm_options_json m)\<rparr> in
      (if mp_reset_schedule p
       then m1\<lparr>rm_next_sync := schedule_time now (rm_interval m1) (rm_enable m1) (rm_peer_dir m1),
              rm_status := None, rm_error := None\<rparr>
       else m1)\<lparr>rm_updated := now\<rparr>)"

definition update_mount ::
  "mount_json \<Rightarrow> bool \<Rightarrow> int \<Rightarrow> string \<Rightarrow> string \<Rightarrow> mount_patch \<Rightarrow> remote_mount option mounts_call" where
  "update_mount js up now u mount_id p t =
     (if \<not> up then (Inl DbUnavailable, t)
      else case mount_row u mount_id t of
        None \<Rightarrow> (Inr None, t)
      | Some old \<Rightarrow>
          (case (case mp_options p of None \<Rightarrow> Inr None | Some o' \<Rightarrow> map_sum id Some (encode_options js o')) of
             Inl err \<Rightarrow> (Inl err, t)
           | Inr raw \<Rightarrow>
               (let m = patched now p raw old in
                (Inr (Some m), map (\<lambda>q. if rm_id q = mount_id then m else q) t))))"

definition delete_mount :: "bool \<Rightarrow> string \<Rightarrow> string \<Rightarrow> bool mounts_call" where
  "delete_mount up u mount_id t =
     (if \<not> up then (Inl DbUnavailable, t)
      else (let hit = (\<lambda>m. rm_id m = mount_id \<and> rm_user m = u) in
            (Inr (list_ex hit t), filter (\<lambda>m. \<not> hit m) t)))"

definition mount_due :: "int \<Rightarrow> remote_mount \<Rightarrow> bool" where
  "mount_due now m \<longleftrightarrow>
     rm_enable m \<and> rm_peer_dir m \<noteq> None \<and> (case rm_next_sync m of None \<Rightarrow> True | Some t \<Rightarrow> t \<le> now)"

definition list_due_mounts :: "mount_json \<Rightarrow> bool \<Rightarrow> int \<Rightarrow> remote_mount list \<Rightarrow> db_error + mount_snapshot list" where
  "list_due_mounts js up now t =
     (if \<not> up then Inl DbUnavailable
      else Inr (map (snapshot_of_mount js) (order_asc rm_updated (filter (mount_due now) t))))"

definition mark_sync_running :: "bool \<Rightarrow> int \<Rightarrow> string \<Rightarrow> unit mounts_call" where
  "mark_sync_running up now mount_id t =
     (if \<not> up then (Inl DbUnavailable, t)
      else (Inr (), map (\<lambda>m. if rm_id m = mount_id
              then m\<lparr>rm_status := Some ''running'', rm_error := None, rm_updated := now\<rparr> else m) t))"

definition mark_sync_finished ::
  "bool \<Rightarrow> int \<Rightarrow> string \<Rightarrow> string \<Rightarrow> string option \<Rightarrow> int option \<Rightarrow> unit mounts_call" where
  "mark_sync_finished up now mount_id status error next_sync t =
     (if \<not> up then (Inl DbUnavailable, t)
      else (Inr (), map (\<lambda>m. if rm_id m = mount_id
              then m\<lparr>rm_last_sync := Some now, rm_status := Some status, rm_error := error,
                     rm_next_sync := next_sync, rm_updated := now\<rparr> else m) t))"

section \<open>Keys and owners\<close>

text \<open>A request on the table, with what the process and the caller supply.\<close>

datatype mounts_request =
    CreateMount int new_remote_mount
  | UpdateMount int string string mount_patch
  | DeleteMount string string
  | MarkRunning int string
  | MarkFinished int string string "string option" "int option"

fun mounts_run :: "mount_json \<Rightarrow> bool \<Rightarrow> mounts_request \<Rightarrow> remote_mount list \<Rightarrow> remote_mount list" where
  "mounts_run js up (CreateMount now n) t = snd (create_mount js up now n t)"
| "mounts_run js up (UpdateMount now u i p) t = snd (update_mount js up now u i p t)"
| "mounts_run js up (DeleteMount u i) t = snd (delete_mount up u i t)"
| "mounts_run js up (MarkRunning now i) t = snd (mark_sync_running up now i t)"
| "mounts_run js up (MarkFinished now i s e n) t = snd (mark_sync_finished up now i s e n t)"

fun mounts_owner :: "mounts_request \<Rightarrow> remote_mount list \<Rightarrow> string option" where
  "mounts_owner (CreateMount now n) t = Some (nm_user n)"
| "mounts_owner (UpdateMount now u i p) t = Some u"
| "mounts_owner (DeleteMount u i) t = Some u"
| "mounts_owner (MarkRunning now i) t = map_option rm_user (find (\<lambda>m. rm_id m = i) t)"
| "mounts_owner (MarkFinished now i s e n) t = map_option rm_user (find (\<lambda>m. rm_id m = i) t)"

definition mount_keys :: "remote_mount list \<Rightarrow> bool" where
  "mount_keys t \<longleftrightarrow> distinct (map rm_id t)"

lemma patched_key [simp]: "rm_id (patched now p raw m) = rm_id m" "rm_user (patched now p raw m) = rm_user m"
  by (simp_all add: patched_def Let_def)

lemma mount_row_Some: "mount_row u i t = Some m \<Longrightarrow> m \<in> set t \<and> rm_id m = i \<and> rm_user m = u"
  by (auto simp: mount_row_def find_Some_iff)

lemma mapped_ids: "(\<And>m. m \<in> set t \<Longrightarrow> rm_id (f m) = rm_id m) \<Longrightarrow> map rm_id (map f t) = map rm_id t"
  by simp

text \<open>An update of the rows with one key leaves the rows of the other users as they are.\<close>

lemma others_kept:
  assumes "\<And>q. q \<in> set t \<Longrightarrow> rm_id q = i \<Longrightarrow> rm_user q \<noteq> v \<and> rm_user (f q) \<noteq> v"
  shows "filter (\<lambda>q. rm_user q = v) (map (\<lambda>q. if rm_id q = i then f q else q) t) = filter (\<lambda>q. rm_user q = v) t"
  using assms by (induction t) auto

lemma key_owner: "mount_keys t \<Longrightarrow> m \<in> set t \<Longrightarrow> q \<in> set t \<Longrightarrow> rm_id q = rm_id m \<Longrightarrow> q = m"
  unfolding mount_keys_def by (metis distinct_map inj_onD)

lemma marked_others:
  assumes "mount_keys t" "map_option rm_user (find (\<lambda>m. rm_id m = i) t) \<noteq> Some v" "\<And>q. rm_user (f q) = rm_user q"
  shows "filter (\<lambda>q. rm_user q = v) (map (\<lambda>q. if rm_id q = i then f q else q) t) = filter (\<lambda>q. rm_user q = v) t"
proof (rule others_kept)
  fix q assume q: "q \<in> set t" "rm_id q = i"
  obtain m where m: "find (\<lambda>m. rm_id m = i) t = Some m"
    using q by (cases "find (\<lambda>m. rm_id m = i) t") (auto simp: find_None_iff)
  then have "m \<in> set t" "rm_id m = i" by (auto simp: find_Some_iff)
  then have "q = m" using key_owner[OF assms(1)] q by simp
  then show "rm_user q \<noteq> v \<and> rm_user (f q) \<noteq> v" using assms(2,3) m by simp
qed

text \<open>
  C18: The mounts of one user are out of reach for the others. Whatever request runs on the table, the mount
  identifiers stay unique and the rows of every user other than the one the request acts for are untouched; an
  update or a deletion with the identifier of somebody else's mount finds nothing and changes nothing.
\<close>

theorem mounts_tenant_safe:
  assumes "mount_keys t"
  shows "mount_keys (mounts_run js up req t) \<and>
     (\<forall>v. mounts_owner req t \<noteq> Some v \<longrightarrow>
        filter (\<lambda>q. rm_user q = v) (mounts_run js up req t) = filter (\<lambda>q. rm_user q = v) t) \<and>
     (\<forall>u i p. mount_row u i t = None \<longrightarrow> snd (update_mount js up now u i p t) = t \<and> snd (delete_mount up u i t) = t)"
proof -
  have keys: "mount_keys (map (\<lambda>q. if rm_id q = i then f q else q) t)" if "\<And>q. q \<in> set t \<Longrightarrow> rm_id q = i \<Longrightarrow> rm_id (f q) = i" for i f
  proof -
    have "map rm_id (map (\<lambda>q. if rm_id q = i then f q else q) t) = map rm_id t" by (rule mapped_ids) (simp add: that)
    then show ?thesis using assms by (simp only: mount_keys_def)
  qed
  have upd: "snd (update_mount js up now u i p t) = t \<or>
      (\<exists>m raw. mount_row u i t = Some m \<and>
         snd (update_mount js up now u i p t) = map (\<lambda>q. if rm_id q = i then patched now p raw m else q) t)" for now u i p
    by (auto simp: update_mount_def Let_def split: option.split sum.split)
  have main: "mount_keys (mounts_run js up req t) \<and>
     (\<forall>v. mounts_owner req t \<noteq> Some v \<longrightarrow>
        filter (\<lambda>q. rm_user q = v) (mounts_run js up req t) = filter (\<lambda>q. rm_user q = v) t)"
  proof (cases req)
    case (CreateMount now n)
    then show ?thesis
      using assms by (auto simp: create_mount_def mount_keys_def Let_def split: sum.split)
  next
    case (UpdateMount now u i p)
    have "filter (\<lambda>q. rm_user q = v) (map (\<lambda>q. if rm_id q = i then patched now p raw m else q) t) = filter (\<lambda>q. rm_user q = v) t"
      if "mount_row u i t = Some m" "v \<noteq> u" for v raw m
    proof (rule others_kept)
      fix q assume "q \<in> set t" "rm_id q = i"
      then have "q = m" using key_owner[OF assms] mount_row_Some[OF that(1)] by simp
      then show "rm_user q \<noteq> v \<and> rm_user (patched now p raw m) \<noteq> v" using mount_row_Some[OF that(1)] that(2) by simp
    qed
    then show ?thesis
      using upd[of now u i p] keys[of i "\<lambda>_. patched now p raw m" for raw m] mount_row_Some assms UpdateMount by fastforce
  next
    case (DeleteMount u i)
    then show ?thesis
      using assms by (auto simp: delete_mount_def mount_keys_def Let_def distinct_map_filter intro!: filter_cong)
  next
    case (MarkRunning now i)
    then show ?thesis
      using keys marked_others[OF assms] assms by (auto simp: mark_sync_running_def)
  next
    case (MarkFinished now i s e n)
    then show ?thesis
      using keys marked_others[OF assms] assms by (auto simp: mark_sync_finished_def)
  qed
  have "snd (update_mount js up now u i p t) = t \<and> snd (delete_mount up u i t) = t" if "mount_row u i t = None" for u i p
  proof
    show "snd (update_mount js up now u i p t) = t" using that upd[of now u i p] by auto
    show "snd (delete_mount up u i t) = t"
      using that by (auto simp: delete_mount_def mount_row_def find_None_iff Let_def intro!: filter_True)
  qed
  with main show ?thesis by blast
qed

definition rx_mount :: "string \<Rightarrow> string \<Rightarrow> remote_mount" where
  "rx_mount i u =
     \<lparr>rm_id = i, rm_user = u, rm_name = i, rm_driver = ''s3'', rm_root = ''/'', rm_mount_dir = ''/m'',
      rm_peer_dir = Some ''/p'', rm_sync_mode = 0, rm_interval = 60, rm_timeout = 60, rm_enable = True,
      rm_options_json = ''{}'', rm_last_sync = None, rm_next_sync = None, rm_status = None, rm_error = None,
      rm_created = 0, rm_updated = 0\<rparr>"

definition rx_json :: mount_json where
  "rx_json = \<lparr>mj_encode = (\<lambda>options. Inr ''{}''), mj_decode = (\<lambda>raw. None)\<rparr>"

text \<open>Deleting the own mount and failing to delete the one of somebody else.\<close>

lemma mounts_tenant_safe_witness:
  "mounts_run rx_json True (DeleteMount ''u'' ''a'') [rx_mount ''a'' ''u'', rx_mount ''b'' ''v''] = [rx_mount ''b'' ''v''] \<and>
   mounts_run rx_json True (DeleteMount ''u'' ''b'') [rx_mount ''a'' ''u'', rx_mount ''b'' ''v''] =
     [rx_mount ''a'' ''u'', rx_mount ''b'' ''v''] \<and>
   mount_keys (mounts_run rx_json True (DeleteMount ''u'' ''a'') [rx_mount ''a'' ''u'', rx_mount ''b'' ''v''])"
proof -
  have k: "mount_keys [rx_mount ''a'' ''u'', rx_mount ''b'' ''v'']" by (simp add: mount_keys_def rx_mount_def)
  have "mount_row ''u'' ''b'' [rx_mount ''a'' ''u'', rx_mount ''b'' ''v''] = None" by (simp add: mount_row_def rx_mount_def)
  then show ?thesis
    using mounts_tenant_safe[OF k, of rx_json True "DeleteMount ''u'' ''a''" ] mounts_tenant_safe[OF k, of rx_json True "DeleteMount ''u'' ''b''"]
    by (simp add: delete_mount_def rx_mount_def)
qed

end
