(* ===== verification/Mounted.thy ===== *)
theory Mounted
  imports Storage_Trait Remote_Mounts
begin

text \<open>
  The storage of a user with remote mounts (\<open>vfs/mounted.rs\<close>): a base storage and the storages mounted at
  directories of its name space. A path is resolved to the mount with the longest directory that contains it, the
  operation runs there on the rest of the path, and its answer is mapped back. Between two storages a tree is
  copied and deleted by recursion over listings; the recursion is a list of what is left to do, in the order of
  the code, and a call that never returns is \<open>None\<close>.
\<close>

section \<open>Paths\<close>

definition normalize_logical_path :: "string \<Rightarrow> string" where
  "normalize_logical_path path = (if starts_with path ''/'' then path else slash # path)"

definition normalize_dir_path :: "string \<Rightarrow> string" where
  "normalize_dir_path path = (if path = ''/'' then ''/'' else trim_end_matches slash (normalize_logical_path path))"

definition is_path_within :: "string \<Rightarrow> string \<Rightarrow> bool" where
  "is_path_within path dir \<longleftrightarrow>
     dir = ''/'' \<or> path = dir \<or> (case strip_prefix dir path of None \<Rightarrow> False | Some rest \<Rightarrow> starts_with rest ''/'')"

definition join_logical_path :: "string \<Rightarrow> string \<Rightarrow> string" where
  "join_logical_path base child =
     (if child = [] then base
      else if base = ''/'' then ''/'' @ trim_start_matches slash child
      else trim_end_matches slash base @ ''/'' @ trim_start_matches slash child)"

definition parent_or_root :: "string \<Rightarrow> string" where
  "parent_or_root path = (case path_parent path of Some p \<Rightarrow> p | None \<Rightarrow> ''/'')"

definition path_depth :: "string \<Rightarrow> nat" where
  "path_depth path = length (filter (\<lambda>seg. seg \<noteq> []) (split_on slash path))"

section \<open>Copying and deleting trees\<close>

text \<open>Calls that may not return, after one another.\<close>

definition run_of :: "('w, vfs_error, 'a) call \<Rightarrow> ('w, 'a) run" where
  "run_of m w = Some (m w)"

definition run_bind :: "('w, 'a) run \<Rightarrow> ('a \<Rightarrow> ('w, 'b) run) \<Rightarrow> ('w, 'b) run" where
  "run_bind m f w =
     (case m w of None \<Rightarrow> None | Some (Inl e, w1) \<Rightarrow> Some (Inl e, w1) | Some (Inr x, w1) \<Rightarrow> f x w1)"

definition ensure_directory :: "'w storage \<Rightarrow> string \<Rightarrow> ('w, vfs_error, unit) call" where
  "ensure_directory s dir w =
     (if dir = ''/'' then (Inr (), w)
      else st_bind (sg_exists s dir) (\<lambda>there.
        if there then (\<lambda>w. (Inr (), w)) else then_return (sg_create_dir_all s dir) (\<lambda>_. ())) w)"

definition ensure_parent_dir :: "'w storage \<Rightarrow> string \<Rightarrow> ('w, vfs_error, unit) call" where
  "ensure_parent_dir s path = ensure_directory s (parent_or_root path)"

text \<open>One call of a recursive function: what it still has to call, in order.\<close>

partial_function (option) work_through ::
  "('t \<Rightarrow> ('w, vfs_error, 't list) call) \<Rightarrow> 't list \<Rightarrow> ('w, unit) run" where
  "work_through step todo w =
     (case todo of
        [] \<Rightarrow> Some (Inr (), w)
      | t # ts \<Rightarrow>
          (case step t w of
             (Inl e, w1) \<Rightarrow> Some (Inl e, w1)
           | (Inr calls, w1) \<Rightarrow> work_through step (calls @ ts) w1))"

definition copy_file_step :: "'w storage \<Rightarrow> string \<Rightarrow> 'w storage \<Rightarrow> string \<Rightarrow> ('w, vfs_error, unit) call" where
  "copy_file_step a src b dst =
     st_bind (ensure_parent_dir b dst) (\<lambda>_.
     st_bind (sg_read_stream a src) (\<lambda>(stream, _).
     then_return (sg_write_stream b dst stream) (\<lambda>_. ())))"

definition copy_step ::
  "'w storage \<Rightarrow> 'w storage \<Rightarrow> string \<times> string \<Rightarrow> ('w, vfs_error, (string \<times> string) list) call" where
  "copy_step a b t =
     (case t of (src, dst) \<Rightarrow>
      st_bind (sg_stat a src) (\<lambda>info.
        if fi_is_dir info then
          st_bind (sg_create_dir_all b dst) (\<lambda>_.
          then_return (sg_list a src) (map (\<lambda>e. (fi_path e, join_logical_path dst (fi_name e)))))
        else then_return (copy_file_step a src b dst) (\<lambda>_. [])))"

definition copy_path_between :: "'w storage \<Rightarrow> string \<Rightarrow> 'w storage \<Rightarrow> string \<Rightarrow> ('w, unit) run" where
  "copy_path_between a src b dst = work_through (copy_step a b) [(src, dst)]"

datatype removal = Visit string | Remove string

definition delete_step :: "'w storage \<Rightarrow> removal \<Rightarrow> ('w, vfs_error, removal list) call" where
  "delete_step s t =
     (case t of
        Visit p \<Rightarrow>
          st_bind (sg_stat s p) (\<lambda>info.
            if fi_is_dir info then then_return (sg_list s p) (\<lambda>es. map (\<lambda>e. Visit (fi_path e)) es @ [Remove p])
            else (\<lambda>w. (Inr [Remove p], w)))
      | Remove p \<Rightarrow> then_return (sg_delete s p) (\<lambda>_. []))"

definition delete_path_recursive :: "'w storage \<Rightarrow> string \<Rightarrow> ('w, unit) run" where
  "delete_path_recursive s path = work_through (delete_step s) [Visit path]"

section \<open>Mounts and endpoints\<close>

record 'w mount_runtime =
  mt_model :: remote_mount
  mt_storage :: "'w storage"

record 'w mounted =
  mo_base :: "'w storage"
  mo_mounts :: "'w mount_runtime list"

record 'w endpoint =
  ep_storage :: "'w storage"
  ep_path :: string
  ep_mount :: "string option"
  ep_root :: bool

abbreviation mount_dir :: "'w mount_runtime \<Rightarrow> string" where
  "mount_dir r \<equiv> rm_mount_dir (mt_model r)"

definition new_mounted :: "'w storage \<Rightarrow> 'w mount_runtime list \<Rightarrow> 'w mounted" where
  "new_mounted base mounts = \<lparr>mo_base = base, mo_mounts = order_desc (\<lambda>r. length (mount_dir r)) mounts\<rparr>"

definition validate_mounted_path :: "string \<Rightarrow> vfs_error + string" where
  "validate_mounted_path path =
     (if has_control path then Inl (Internal ''Security violation: control characters in path'')
      else
        (let normalized = replace_char backslash slash (normalize_logical_path path) in
         if contains normalized ''..'' then
           Inl (Internal ''Security violation: parent path segments are not allowed'')
         else Inr normalized))"

definition mount_root_info :: "'w mount_runtime \<Rightarrow> vfs_file_info" where
  "mount_root_info r =
     \<lparr>fi_name = (if mount_dir r = ''/'' then ''/'' else file_name_from_path (mount_dir r)), fi_path = mount_dir r,
      fi_is_dir = True, fi_size = 0,
      fi_modified = (case rm_last_sync (mt_model r) of Some t \<Rightarrow> Some t | None \<Rightarrow> Some (rm_updated (mt_model r))),
      fi_favorite_color = 0, fi_has_active_share = None, fi_has_active_direct = None, fi_trashed_at = None,
      fi_original_path = None\<rparr>"

definition map_runtime_path :: "'w mount_runtime \<Rightarrow> string \<Rightarrow> string" where
  "map_runtime_path r remote =
     (if remote = ''/'' \<or> remote = [] then mount_dir r
      else join_logical_path (mount_dir r) (trim_start_matches slash remote))"

definition map_remote_info :: "'w mount_runtime \<Rightarrow> vfs_file_info \<Rightarrow> vfs_file_info" where
  "map_remote_info r i =
     (let path = map_runtime_path r (fi_path i) in
      i\<lparr>fi_name := (if path = mount_dir r then file_name_from_path path else fi_name i), fi_path := path\<rparr>)"

definition remote_part :: "string \<Rightarrow> string \<Rightarrow> string option" where
  "remote_part normalized dir =
     (if dir = ''/'' then Some normalized
      else if normalized = dir then Some ''/''
      else (case strip_prefix dir normalized of
              Some rest \<Rightarrow> if starts_with rest ''/'' then Some (normalize_logical_path rest) else None
            | None \<Rightarrow> None))"

fun first_mount :: "string \<Rightarrow> 'w mount_runtime list \<Rightarrow> ('w mount_runtime \<times> string) option" where
  "first_mount normalized [] = None"
| "first_mount normalized (r # rs) =
     (case remote_part normalized (mount_dir r) of Some rest \<Rightarrow> Some (r, rest) | None \<Rightarrow> first_mount normalized rs)"

definition resolve_runtime :: "'w mounted \<Rightarrow> string \<Rightarrow> ('w mount_runtime \<times> string) option" where
  "resolve_runtime ms path = first_mount (normalize_dir_path path) (mo_mounts ms)"

definition contains_mounted_path :: "'w mounted \<Rightarrow> string \<Rightarrow> bool" where
  "contains_mounted_path ms path \<longleftrightarrow> resolve_runtime ms path \<noteq> None"

definition direct_mount_children :: "'w mounted \<Rightarrow> string \<Rightarrow> 'w mount_runtime list" where
  "direct_mount_children ms parent =
     filter (\<lambda>r. mount_dir r \<noteq> ''/'' \<and> normalize_dir_path (parent_or_root (mount_dir r)) = normalize_dir_path parent)
       (mo_mounts ms)"

definition descendant_mounts :: "'w mounted \<Rightarrow> string \<Rightarrow> 'w mount_runtime list" where
  "descendant_mounts ms root = filter (\<lambda>r. is_path_within (mount_dir r) (normalize_dir_path root)) (mo_mounts ms)"

definition resolve_endpoint :: "'w mounted \<Rightarrow> string \<Rightarrow> vfs_error + 'w endpoint" where
  "resolve_endpoint ms path =
     res_bind (validate_mounted_path path) (\<lambda>normalized.
       case resolve_runtime ms normalized of
         Some (r, remote) \<Rightarrow>
           Inr \<lparr>ep_storage = mt_storage r, ep_path = remote, ep_mount = Some (rm_id (mt_model r)), ep_root = (remote = ''/'')\<rparr>
       | None \<Rightarrow> Inr \<lparr>ep_storage = mo_base ms, ep_path = normalized, ep_mount = None, ep_root = False\<rparr>)"

definition find_runtime :: "'w mounted \<Rightarrow> string option \<Rightarrow> 'w mount_runtime option" where
  "find_runtime ms mount_id =
     (case mount_id of None \<Rightarrow> None | Some i \<Rightarrow> find (\<lambda>r. rm_id (mt_model r) = i) (mo_mounts ms))"

definition mapped_info :: "'w mounted \<Rightarrow> string option \<Rightarrow> vfs_file_info \<Rightarrow> vfs_file_info" where
  "mapped_info ms mount_id i = (case find_runtime ms mount_id of Some r \<Rightarrow> map_remote_info r i | None \<Rightarrow> i)"

text \<open>An operation at the endpoint of a path, refused at the root of a mount.\<close>

definition at_endpoint ::
  "'w mounted \<Rightarrow> string \<Rightarrow> vfs_error \<Rightarrow> ('w endpoint \<Rightarrow> ('w, vfs_error, 'a) call) \<Rightarrow>
   ((vfs_file_info \<Rightarrow> vfs_file_info) \<Rightarrow> 'a \<Rightarrow> 'a) \<Rightarrow> ('w, vfs_error, 'a) call" where
  "at_endpoint ms path refusal act describe w =
     (case resolve_endpoint ms path of
        Inl err \<Rightarrow> (Inl err, w)
      | Inr ep \<Rightarrow>
          if ep_root ep then (Inl refusal, w)
          else then_return (act ep) (describe (mapped_info ms (ep_mount ep))) w)"

section \<open>Reading\<close>

definition mounted_read :: "'w mounted \<Rightarrow> string \<Rightarrow> ('w, vfs_error, string \<times> vfs_file_info) call" where
  "mounted_read ms path =
     at_endpoint ms path (Internal ''Cannot read a mount root directory'') (\<lambda>ep. sg_read (ep_storage ep) (ep_path ep))
       (\<lambda>f x. (fst x, f (snd x)))"

definition mounted_read_range :: "'w mounted \<Rightarrow> string \<Rightarrow> u64 \<Rightarrow> u64 \<Rightarrow> ('w, vfs_error, string \<times> vfs_file_info) call" where
  "mounted_read_range ms path start stop =
     at_endpoint ms path (Internal ''Cannot read a mount root directory'')
       (\<lambda>ep. sg_read_range (ep_storage ep) (ep_path ep) start stop) (\<lambda>f x. (fst x, f (snd x)))"

definition mounted_read_stream ::
  "'w mounted \<Rightarrow> string \<Rightarrow> ('w, vfs_error, (vfs_error + string) list \<times> vfs_file_info) call" where
  "mounted_read_stream ms path =
     at_endpoint ms path (Internal ''Cannot stream a mount root directory'')
       (\<lambda>ep. sg_read_stream (ep_storage ep) (ep_path ep)) (\<lambda>f x. (fst x, f (snd x)))"

definition mounted_read_stream_range ::
  "'w mounted \<Rightarrow> string \<Rightarrow> u64 \<Rightarrow> u64 \<Rightarrow> ('w, vfs_error, (vfs_error + string) list \<times> vfs_file_info) call" where
  "mounted_read_stream_range ms path start stop =
     at_endpoint ms path (Internal ''Cannot stream a mount root directory'')
       (\<lambda>ep. sg_read_stream_range (ep_storage ep) (ep_path ep) start stop) (\<lambda>f x. (fst x, f (snd x)))"

definition mounted_exists :: "'w mounted \<Rightarrow> string \<Rightarrow> ('w, vfs_error, bool) call" where
  "mounted_exists ms path w =
     (case resolve_endpoint ms path of
        Inl err \<Rightarrow> (Inl err, w)
      | Inr ep \<Rightarrow> if ep_root ep then (Inr True, w) else sg_exists (ep_storage ep) (ep_path ep) w)"

definition mounted_stat :: "'w mounted \<Rightarrow> string \<Rightarrow> ('w, vfs_error, vfs_file_info) call" where
  "mounted_stat ms path w =
     (case resolve_endpoint ms path of
        Inl err \<Rightarrow> (Inl err, w)
      | Inr ep \<Rightarrow>
          (case (if ep_root ep then find_runtime ms (ep_mount ep) else None) of
             Some r \<Rightarrow> (Inr (mount_root_info r), w)
           | None \<Rightarrow> then_return (sg_stat (ep_storage ep) (ep_path ep)) (mapped_info ms (ep_mount ep)) w))"

definition mounted_metadata :: "'w mounted \<Rightarrow> string \<Rightarrow> ('w, vfs_error, vfs_metadata) call" where
  "mounted_metadata ms path w =
     (case resolve_endpoint ms path of
        Inl err \<Rightarrow> (Inl err, w)
      | Inr ep \<Rightarrow>
          if ep_root ep then
            (Inr \<lparr>vm_path = path, vm_is_dir = True, vm_size = 0, vm_modified = None, vm_content_type = None,
                  vm_etag = None\<rparr>, w)
          else then_return (sg_metadata (ep_storage ep) (ep_path ep))
            (\<lambda>m. if ep_mount ep = None then m else m\<lparr>vm_path := normalize_logical_path path\<rparr>) w)"

section \<open>Listing\<close>

text \<open>A listing of the base that fails counts as empty.\<close>

definition or_empty :: "('w, vfs_error, 'a list) call \<Rightarrow> ('w, vfs_error, 'a list) call" where
  "or_empty m w = (case m w of (Inl _, w1) \<Rightarrow> (Inr [], w1) | (Inr xs, w1) \<Rightarrow> (Inr xs, w1))"

definition merge_local_listing :: "'w mounted \<Rightarrow> string \<Rightarrow> ('w, vfs_error, vfs_file_info list) call" where
  "merge_local_listing ms path =
     then_return (or_empty (sg_list (mo_base ms) path))
       (\<lambda>es. order_asc fi_name (es @ map mount_root_info (direct_mount_children ms path)))"

definition mounted_list :: "'w mounted \<Rightarrow> string \<Rightarrow> ('w, vfs_error, vfs_file_info list) call" where
  "mounted_list ms path w =
     (case validate_mounted_path path of
        Inl err \<Rightarrow> (Inl err, w)
      | Inr normalized \<Rightarrow>
          (case resolve_runtime ms normalized of
             Some (r, remote) \<Rightarrow> then_return (sg_list (mt_storage r) remote) (map (map_remote_info r)) w
           | None \<Rightarrow> merge_local_listing ms normalized w))"

definition mounted_list_page :: "'w mounted \<Rightarrow> string \<Rightarrow> int \<Rightarrow> int \<Rightarrow> ('w, vfs_error, vfs_file_info list \<times> int) call" where
  "mounted_list_page ms path page page_size = then_return (mounted_list ms path) (memory_page page page_size)"

definition mounted_sort :: "string option \<Rightarrow> string option \<Rightarrow> vfs_file_info list \<Rightarrow> vfs_file_info list" where
  "mounted_sort sort_by order is =
     (let is_desc = (order = Some ''desc'') in
      order_desc fi_is_dir
        (if sort_by = Some ''size'' then (if is_desc then order_desc else order_asc) fi_size is
         else if sort_by = Some ''modified'' then (if is_desc then order_desc else order_asc) fi_modified is
         else (if is_desc then order_desc else order_asc) fi_name is))"

definition mounted_list_sorted_page ::
  "(string \<Rightarrow> string) \<Rightarrow> 'w mounted \<Rightarrow> string \<Rightarrow> page_params \<Rightarrow> ('w, vfs_error, vfs_file_info list \<times> int) call" where
  "mounted_list_sorted_page lower ms path ps =
     then_return (mounted_list ms path) (\<lambda>all.
       memory_page (pp_page ps) (pp_page_size ps)
         (mounted_sort (pp_sort_by ps) (pp_order ps) (filter (keyword_in lower (pp_keyword ps)) all)))"

definition mounted_list_stream :: "'w mounted \<Rightarrow> string \<Rightarrow> 'w \<Rightarrow> (vfs_error + vfs_file_info) list \<times> 'w" where
  "mounted_list_stream ms path w =
     (case mounted_list ms path w of (Inl err, w1) \<Rightarrow> ([Inl err], w1) | (Inr es, w1) \<Rightarrow> (map Inr es, w1))"

fun list_mounts :: "'w mount_runtime list \<Rightarrow> ('w, vfs_error, vfs_file_info list) call" where
  "list_mounts [] w = (Inr [], w)"
| "list_mounts (r # rs) w =
     st_bind (sg_list_recursive (mt_storage r) ''/'') (\<lambda>es.
       then_return (list_mounts rs) (\<lambda>rest. mount_root_info r # map (map_remote_info r) es @ rest)) w"

definition mounted_list_recursive :: "'w mounted \<Rightarrow> string \<Rightarrow> ('w, vfs_error, vfs_file_info list) call" where
  "mounted_list_recursive ms path w =
     (case validate_mounted_path path of
        Inl err \<Rightarrow> (Inl err, w)
      | Inr normalized \<Rightarrow>
          (case resolve_runtime ms normalized of
             Some (r, remote) \<Rightarrow> then_return (sg_list_recursive (mt_storage r) remote) (map (map_remote_info r)) w
           | None \<Rightarrow>
               st_bind (or_empty (sg_list_recursive (mo_base ms) normalized)) (\<lambda>es.
                 then_return (list_mounts (descendant_mounts ms normalized)) (\<lambda>rest. es @ rest)) w))"

definition mounted_recursive_size :: "'w mounted \<Rightarrow> string \<Rightarrow> ('w, vfs_error, int) call" where
  "mounted_recursive_size ms path =
     then_return (mounted_list_recursive ms path)
       (\<lambda>es. fold (\<lambda>e acc. sat_add_i64 acc (sint (fi_size e))) (filter (\<lambda>e. \<not> fi_is_dir e) es) 0)"

section \<open>Writing\<close>

definition mounted_write :: "'w mounted \<Rightarrow> string \<Rightarrow> string \<Rightarrow> ('w, vfs_error, vfs_file_info) call" where
  "mounted_write ms path data =
     at_endpoint ms path (PermissionDenied ''Cannot overwrite a mount root'')
       (\<lambda>ep. sg_write (ep_storage ep) (ep_path ep) data) (\<lambda>f. f)"

definition mounted_write_stream ::
  "'w mounted \<Rightarrow> string \<Rightarrow> (vfs_error + string) list \<Rightarrow> ('w, vfs_error, vfs_file_info) call" where
  "mounted_write_stream ms path stream =
     at_endpoint ms path (PermissionDenied ''Cannot write a mount root'')
       (\<lambda>ep. sg_write_stream (ep_storage ep) (ep_path ep) stream) (\<lambda>f. f)"

definition mounted_delete :: "'w mounted \<Rightarrow> string \<Rightarrow> ('w, vfs_error, vfs_file_info) call" where
  "mounted_delete ms path =
     at_endpoint ms path (PermissionDenied ''Use mount management to remove a mounted directory'')
       (\<lambda>ep. sg_delete (ep_storage ep) (ep_path ep)) (\<lambda>f. f)"

definition mounted_create_dir :: "'w mounted \<Rightarrow> string \<Rightarrow> ('w, vfs_error, vfs_file_info) call" where
  "mounted_create_dir ms path =
     at_endpoint ms path (PermissionDenied ''Mount root already exists'')
       (\<lambda>ep. sg_create_dir (ep_storage ep) (ep_path ep)) (\<lambda>f. f)"

definition mounted_create_dir_all :: "'w mounted \<Rightarrow> string \<Rightarrow> ('w, vfs_error, vfs_file_info) call" where
  "mounted_create_dir_all ms path w =
     (case resolve_endpoint ms path of
        Inl err \<Rightarrow> (Inl err, w)
      | Inr ep \<Rightarrow>
          if ep_root ep then mounted_stat ms path w
          else then_return (sg_create_dir_all (ep_storage ep) (ep_path ep)) (mapped_info ms (ep_mount ep)) w)"

definition mounted_write_at :: "'w mounted \<Rightarrow> string \<Rightarrow> u64 \<Rightarrow> string \<Rightarrow> ('w, vfs_error, vfs_file_info) call" where
  "mounted_write_at ms path offset data w =
     (case resolve_endpoint ms path of
        Inl err \<Rightarrow> (Inl err, w)
      | Inr ep \<Rightarrow>
          if ep_mount ep = None then sg_write_at (ep_storage ep) (ep_path ep) offset data w
          else if ep_root ep then (Inl (PermissionDenied ''Cannot write a mount root''), w)
          else st_bind (sg_read (ep_storage ep) (ep_path ep))
            (\<lambda>(existing, _). mounted_write ms path (splice existing (unat offset) data)) w)"

definition mounted_set_times ::
  "'w mounted \<Rightarrow> string \<Rightarrow> u64 option \<Rightarrow> u64 option \<Rightarrow> ('w, vfs_error, vfs_file_info) call" where
  "mounted_set_times ms path atime mtime w =
     (case resolve_endpoint ms path of
        Inl err \<Rightarrow> (Inl err, w)
      | Inr ep \<Rightarrow>
          if ep_mount ep = None then sg_set_times (ep_storage ep) (ep_path ep) atime mtime w else mounted_stat ms path w)"

section \<open>Moving and copying\<close>

definition generic_move_or_copy :: "'w mounted \<Rightarrow> string \<Rightarrow> string \<Rightarrow> bool \<Rightarrow> ('w, vfs_file_info) run" where
  "generic_move_or_copy ms src dst delete_source w =
     (case res_bind (resolve_endpoint ms src) (\<lambda>s. res_bind (resolve_endpoint ms dst) (\<lambda>d. Inr (s, d))) of
        Inl err \<Rightarrow> Some (Inl err, w)
      | Inr (s, d) \<Rightarrow>
          if ep_root s \<or> ep_root d then
            Some (Inl (PermissionDenied ''Moving or copying a mount root is not supported''), w)
          else
            run_bind (copy_path_between (ep_storage s) (ep_path s) (ep_storage d) (ep_path d)) (\<lambda>_.
            run_bind (if delete_source then delete_path_recursive (ep_storage s) (ep_path s) else run_of (\<lambda>w. (Inr (), w)))
              (\<lambda>_. run_of (mounted_stat ms dst))) w)"

definition relocate ::
  "('w storage \<Rightarrow> string \<Rightarrow> string \<Rightarrow> ('w, vfs_file_info) run) \<Rightarrow> bool \<Rightarrow> 'w mounted \<Rightarrow> string \<Rightarrow> string \<Rightarrow>
   ('w, vfs_file_info) run" where
  "relocate inside delete_source ms src dst w =
     (case res_bind (resolve_endpoint ms src) (\<lambda>s. res_bind (resolve_endpoint ms dst) (\<lambda>d. Inr (s, d))) of
        Inl err \<Rightarrow> Some (Inl err, w)
      | Inr (s, d) \<Rightarrow>
          if ep_mount s = None \<and> ep_mount d = None then inside (mo_base ms) src dst w
          else if ep_mount s = ep_mount d \<and> ep_mount s \<noteq> None \<and> \<not> ep_root s \<and> \<not> ep_root d then
            run_bind (inside (ep_storage s) (ep_path s) (ep_path d))
              (\<lambda>i. run_of (\<lambda>w. (Inr (mapped_info ms (ep_mount s) i), w))) w
          else generic_move_or_copy ms src dst delete_source w)"

definition mounted_move_file :: "'w mounted \<Rightarrow> string \<Rightarrow> string \<Rightarrow> ('w, vfs_file_info) run" where
  "mounted_move_file = relocate sg_move_file True"

definition mounted_copy_file :: "'w mounted \<Rightarrow> string \<Rightarrow> string \<Rightarrow> ('w, vfs_file_info) run" where
  "mounted_copy_file = relocate sg_copy_file False"

text \<open>A batch goes on after a failure; one item that never returns keeps the others waiting.\<close>

fun try_paths :: "(string \<Rightarrow> ('w, 'a) run) \<Rightarrow> string list \<Rightarrow> 'w \<Rightarrow> (batch_result \<times> 'w) option" where
  "try_paths f [] w = Some (\<lparr>br_success = [], br_failed = []\<rparr>, w)"
| "try_paths f (p # ps) w =
     (case f p w of
        None \<Rightarrow> None
      | Some (Inr _, w1) \<Rightarrow> map_option (\<lambda>(r, w2). (r\<lparr>br_success := p # br_success r\<rparr>, w2)) (try_paths f ps w1)
      | Some (Inl err, w1) \<Rightarrow>
          map_option (\<lambda>(r, w2). (r\<lparr>br_failed := \<lparr>be_path = p, be_error = vfs_text err\<rparr> # br_failed r\<rparr>, w2))
            (try_paths f ps w1))"

definition mounted_batch_remove :: "'w mounted \<Rightarrow> string list \<Rightarrow> 'w \<Rightarrow> (batch_result \<times> 'w) option" where
  "mounted_batch_remove ms = try_paths (\<lambda>p. run_of (mounted_delete ms p))"

definition mounted_batch_move :: "'w mounted \<Rightarrow> string list \<Rightarrow> string \<Rightarrow> 'w \<Rightarrow> (batch_result \<times> 'w) option" where
  "mounted_batch_move ms paths dst_dir =
     try_paths (\<lambda>p. mounted_move_file ms p (join_logical_path dst_dir (file_name_from_path p))) paths"

section \<open>Favourites, recycle bin and the whole storage\<close>

definition mounted_set_favorite :: "'w mounted \<Rightarrow> string \<Rightarrow> int \<Rightarrow> ('w, vfs_error, vfs_file_info) call" where
  "mounted_set_favorite ms path color w =
     (case resolve_endpoint ms path of
        Inl err \<Rightarrow> (Inl err, w)
      | Inr ep \<Rightarrow>
          if ep_mount ep = None then sg_set_favorite (mo_base ms) path color w
          else if color = 0 then mounted_stat ms path w
          else (Inl (Internal ''Favorites for mounted remote files are not supported yet''), w))"

definition mounted_move_to_trash :: "'w mounted \<Rightarrow> string \<Rightarrow> ('w, vfs_error, vfs_file_info) call" where
  "mounted_move_to_trash ms path w =
     (case resolve_endpoint ms path of
        Inl err \<Rightarrow> (Inl err, w)
      | Inr ep \<Rightarrow> if ep_mount ep = None then sg_move_to_trash (mo_base ms) path w else mounted_delete ms path w)"

definition mounted_sync_index :: "'w mounted \<Rightarrow> string \<Rightarrow> ('w, vfs_error, vfs_file_info list) call" where
  "mounted_sync_index ms path =
     (if resolve_runtime ms path \<noteq> None then mounted_list ms path else sg_sync_index (mo_base ms) path)"

definition mounted_storage :: "(string \<Rightarrow> string) \<Rightarrow> 'w mounted \<Rightarrow> 'w storage" where
  "mounted_storage lower ms =
     \<lparr>sg_read = mounted_read ms, sg_write = mounted_write ms, sg_delete = mounted_delete ms, sg_list = mounted_list ms,
      sg_list_stream = mounted_list_stream ms, sg_list_recursive = mounted_list_recursive ms,
      sg_list_page = mounted_list_page ms, sg_list_sorted_page = mounted_list_sorted_page lower ms,
      sg_exists = mounted_exists ms, sg_stat = mounted_stat ms, sg_read_stream = mounted_read_stream ms,
      sg_read_stream_range = mounted_read_stream_range ms, sg_write_stream = mounted_write_stream ms,
      sg_metadata = mounted_metadata ms, sg_read_range = mounted_read_range ms, sg_write_at = mounted_write_at ms,
      sg_set_times = mounted_set_times ms, sg_check_quota = sg_check_quota (mo_base ms),
      sg_get_quota = sg_get_quota (mo_base ms), sg_create_dir = mounted_create_dir ms,
      sg_create_dir_all = mounted_create_dir_all ms, sg_move_file = mounted_move_file ms,
      sg_copy_file = mounted_copy_file ms, sg_canonicalize = validate_mounted_path, sg_backend_type = ''mounted'',
      sg_recursive_size = mounted_recursive_size ms, sg_set_favorite = mounted_set_favorite ms,
      sg_list_favorites = sg_list_favorites (mo_base ms), sg_favorites_page = sg_favorites_page (mo_base ms),
      sg_move_to_trash = mounted_move_to_trash ms, sg_restore_from_trash = sg_restore_from_trash (mo_base ms),
      sg_list_trash = sg_list_trash (mo_base ms), sg_sync_index = mounted_sync_index ms,
      sg_migrate = sg_migrate (mo_base ms)\<rparr>"

section \<open>Building the storage of a user\<close>

text \<open>
  A remote storage is a pool without backup and without caches over the operator of its driver, which \<open>connect\<close>
  makes. A mount that cannot be built is left out.
\<close>

definition remote_pool :: "'p \<Rightarrow> 'p pool" where
  "remote_pool st = \<lparr>pl_primary = st, pl_backup = None, pl_read = None, pl_write = None\<rparr>"

definition build_remote_storage :: "(mount_snapshot \<Rightarrow> vfs_error + 'p) \<Rightarrow> mount_snapshot \<Rightarrow> vfs_error + 'p pool" where
  "build_remote_storage connect m = res_bind (connect m) (\<lambda>st. Inr (remote_pool st))"

definition build_user_storage_with_mounts ::
  "(string \<Rightarrow> string) \<Rightarrow> mount_json \<Rightarrow> bool \<Rightarrow> (mount_snapshot \<Rightarrow> vfs_error + 'w storage) \<Rightarrow> vfs_error + 'w storage \<Rightarrow>
   string \<Rightarrow> remote_mount list \<Rightarrow> vfs_error + 'w storage" where
  "build_user_storage_with_mounts lower js up build engine u t =
     res_bind engine (\<lambda>base.
       case list_user_mounts js up u t of
         Inl err \<Rightarrow> Inl (Internal (db_text err))
       | Inr mounts \<Rightarrow>
           (let runtimes = List.map_filter (\<lambda>m.
                  if rm_enable (ms_model m) then
                    (case build m of Inr st \<Rightarrow> Some \<lparr>mt_model = ms_model m, mt_storage = st\<rparr> | Inl _ \<Rightarrow> None)
                  else None) mounts in
            Inr (if runtimes = [] then base else mounted_storage lower (new_mounted base runtimes))))"

end
