(* ===== verification/Mounted_Claims.thy ===== *)
theory Mounted_Claims
  imports Mounted Pool_Claims
begin

text \<open>
  What the storage of a user with mounts guarantees: paths go to the longest mount and come back, the recursion
  that copies and deletes trees returns on storages whose listings go down, and never returns on one whose
  listing names the directory itself or into which the copy is made. Two mounts may lie on one remote, so source and
  destination work on one store; two remotes are a store of two parts.
\<close>

section \<open>Resolution\<close>

definition mount_dir_ok :: "string \<Rightarrow> bool" where
  "mount_dir_ok d \<longleftrightarrow> d = ''/'' \<or> (starts_with d ''/'' \<and> last d \<noteq> slash)"

lemma remote_part_within: "remote_part n d \<noteq> None \<longleftrightarrow> is_path_within n d"
  by (auto simp: remote_part_def is_path_within_def split: option.splits)

lemma first_mount_Some:
  "first_mount n rs = Some (r, rest) \<Longrightarrow>
   \<exists>ys zs. rs = ys @ r # zs \<and> (\<forall>y \<in> set ys. \<not> is_path_within n (mount_dir y)) \<and> remote_part n (mount_dir r) = Some rest"
proof (induction rs)
  case Nil
  then show ?case by simp
next
  case (Cons q rs)
  show ?case
  proof (cases "remote_part n (mount_dir q)")
    case None
    with Cons obtain ys zs where "rs = ys @ r # zs" "\<forall>y \<in> set ys. \<not> is_path_within n (mount_dir y)"
        "remote_part n (mount_dir r) = Some rest" by auto
    with None show ?thesis
      using remote_part_within[of n "mount_dir q"] by (intro exI[of _ "q # ys"] exI[of _ zs]) simp
  next
    case (Some x)
    with Cons.prems show ?thesis by (intro exI[of _ "[]"] exI[of _ rs]) simp
  qed
qed

lemma first_mount_None: "first_mount n rs = None \<longleftrightarrow> (\<forall>r \<in> set rs. \<not> is_path_within n (mount_dir r))"
  by (induction rs) (auto simp: remote_part_within[symmetric] split: option.splits)

lemma order_desc_split:
  assumes "order_desc f rs = ys @ r # zs"
  shows "\<forall>z \<in> set zs. f z \<le> f r"
proof -
  have "sorted (map f (rev zs @ r # rev ys))"
    using assms sorted_sort_key[of f "rev rs"]
    by (metis order_desc_def append.assoc append_Cons append_Nil rev.simps(2) rev_append rev_rev_ident)
  then show ?thesis by (auto simp: sorted_append)
qed

lemma no_double_slash:
  assumes "p \<noteq> []" "\<not> contains p ''//''" and n: "n = normalize_dir_path p"
  obtains "n = ''/''" | x where "n = slash # x" "x \<noteq> []" "last x \<noteq> slash" "\<not> contains n ''//''"
proof (cases "p = ''/''")
  case True
  with n that(1) show ?thesis by (simp add: normalize_dir_path_def)
next
  case False
  define q where "q = normalize_logical_path p"
  have q: "\<exists>y. q = slash # y \<and> y \<noteq> []" and free: "\<not> sublist ''//'' q"
    using assms(1,2) False by (cases p; auto simp: q_def normalize_logical_path_def sublist_Cons_right)+
  have n': "n = trim_end_matches slash q" using n False by (simp add: normalize_dir_path_def q_def)
  have free_n: "\<not> sublist ''//'' n"
    using free trim_end_matches_prefix[of slash q] n' by (meson prefix_imp_sublist sublist_order.order_trans)
  obtain k where k: "q = n @ replicate k slash" using trim_end_matches_decomp[of q slash] n' by auto
  obtain y where y: "q = slash # y" "y \<noteq> []" using q by blast
  have "n \<noteq> []"
  proof
    assume "n = []"
    then have "q = replicate k slash" using k by simp
    moreover have "2 \<le> length q" using y by (cases "tl q") auto
    ultimately obtain j where "q = replicate (2 + j) slash" by (metis le_Suc_ex length_replicate)
    then have "q = ''//'' @ replicate j slash" by (simp add: numeral_2_eq_2)
    then show False using free by (metis sublist_append_rightI)
  qed
  then obtain x where x: "n = slash # x" using k y(1) by (cases n) auto
  have l: "last n \<noteq> slash" using trim_end_matches_last[of slash q] \<open>n \<noteq> []\<close> n' by simp
  then have "x \<noteq> []" using x by auto
  with l x free_n that(2) show ?thesis by auto
qed

lemma remote_glued:
  assumes p: "p \<noteq> []" "\<not> contains p ''//''" and n: "n = normalize_dir_path p"
    and d: "mount_dir_ok (mount_dir r)" and rest: "remote_part n (mount_dir r) = Some rest"
  shows "map_runtime_path r rest = n"
proof (cases "n = mount_dir r \<or> n = ''/''")
  case True
  then show ?thesis
    using rest d by (auto simp: remote_part_def map_runtime_path_def strip_prefix_def mount_dir_ok_def split: if_splits)
next
  case False
  then obtain x where x: "n = slash # x" "x \<noteq> []" "last x \<noteq> slash" "\<not> contains n ''//''"
    using no_double_slash[OF p n] by metis
  have head: "hd x \<noteq> slash" using x by (cases x) (auto simp: sublist_Cons_right)
  show ?thesis
  proof (cases "mount_dir r = ''/''")
    case True
    then have "rest = n" using rest by (simp add: remote_part_def)
    then show ?thesis
      using x head True
      by (simp add: map_runtime_path_def join_logical_path_def trim_start_matches_simps trim_start_matches_id)
  next
    case root: False
    obtain y where y: "n = mount_dir r @ slash # y" "rest = slash # y"
      using rest False root
      by (auto simp: remote_part_def strip_prefix_Some normalize_logical_path_def prefix_def split: option.splits if_splits)
    have "y \<noteq> []" using x(1-3) y(1) by (metis last.simps last_append list.distinct(1))
    moreover have "hd y \<noteq> slash"
    proof
      assume "hd y = slash"
      then have "n = mount_dir r @ ''//'' @ tl y" using y(1) \<open>y \<noteq> []\<close> by (cases y) auto
      then show False using x(4) by (metis sublist_appendI)
    qed
    moreover have "last (mount_dir r) \<noteq> slash" using d root by (simp add: mount_dir_ok_def)
    ultimately show ?thesis
      using y root by (simp add: map_runtime_path_def join_logical_path_def trim_start_matches_simps
          trim_start_matches_id trim_end_matches_id)
  qed
qed

text \<open>
  C5: A path belongs to the mount with the longest directory that contains it. When a path resolves, its mount
  contains it, no mount with a longer directory does, and gluing the rest of the path below the mount directory
  gives the path back, so the infos a mount returns carry the names the user asked for; when it does not resolve,
  no mount contains it and it is the base's. Mount directories are absolute without a trailing slash, and the
  path has no empty segments.
\<close>

theorem mount_resolution:
  assumes "p \<noteq> []" "\<not> contains p ''//''" and "\<forall>m \<in> set mounts. mount_dir_ok (mount_dir m)"
  shows "(\<forall>m rest. resolve_runtime (new_mounted base mounts) p = Some (m, rest) \<longrightarrow>
            m \<in> set mounts \<and> is_path_within (normalize_dir_path p) (mount_dir m) \<and>
            (\<forall>m' \<in> set mounts. is_path_within (normalize_dir_path p) (mount_dir m') \<longrightarrow>
               length (mount_dir m') \<le> length (mount_dir m)) \<and>
            map_runtime_path m rest = normalize_dir_path p) \<and>
         (resolve_runtime (new_mounted base mounts) p = None \<longrightarrow>
            (\<forall>m \<in> set mounts. \<not> is_path_within (normalize_dir_path p) (mount_dir m)))"
proof -
  let ?n = "normalize_dir_path p" and ?s = "order_desc (\<lambda>r. length (mount_dir r)) mounts"
  have sets: "set ?s = set mounts" by (simp add: order_desc_def)
  have run: "resolve_runtime (new_mounted base mounts) p = first_mount ?n ?s"
    by (simp add: resolve_runtime_def new_mounted_def)
  have "m \<in> set mounts \<and> is_path_within ?n (mount_dir m) \<and>
      (\<forall>m' \<in> set mounts. is_path_within ?n (mount_dir m') \<longrightarrow> length (mount_dir m') \<le> length (mount_dir m)) \<and>
      map_runtime_path m rest = ?n" if found: "first_mount ?n ?s = Some (m, rest)" for m rest
  proof -
    obtain ys zs where s: "?s = ys @ m # zs" "\<forall>y \<in> set ys. \<not> is_path_within ?n (mount_dir y)"
        "remote_part ?n (mount_dir m) = Some rest" using first_mount_Some[OF found] by blast
    have m: "m \<in> set mounts" using s(1) sets by (metis in_set_conv_decomp)
    have "length (mount_dir m') \<le> length (mount_dir m)" if "m' \<in> set mounts" "is_path_within ?n (mount_dir m')" for m'
    proof -
      have "m' \<in> set (ys @ m # zs)" using that(1) sets s(1) by metis
      then show ?thesis using that(2) s(2) order_desc_split[OF s(1)] by auto
    qed
    then show ?thesis
      using m s(3) remote_part_within[of ?n "mount_dir m"] remote_glued[OF assms(1,2) refl _ s(3)] assms(3) by simp
  qed
  then show ?thesis using run first_mount_None[of ?n ?s] sets by auto
qed

section \<open>Calls that keep a property of the world\<close>

definition keeps :: "('w \<Rightarrow> bool) \<Rightarrow> ('w, 'e, 'a) call \<Rightarrow> bool" where
  "keeps good m \<longleftrightarrow> (\<forall>w. good w \<longrightarrow> good (snd (m w)))"

lemma keepsD: "keeps good m \<Longrightarrow> good w \<Longrightarrow> m w = (r, w') \<Longrightarrow> good w'"
  by (auto simp: keeps_def dest: spec[of _ w])

lemma keeps_bind: "keeps good m \<Longrightarrow> (\<And>x. keeps good (f x)) \<Longrightarrow> keeps good (st_bind m f)"
  by (auto simp: keeps_def st_bind_def split: prod.split sum.split)

lemma keeps_same: "(\<And>w. snd (m w) = w) \<Longrightarrow> keeps good m"
  by (simp add: keeps_def)

lemma keeps_unit: "keeps good (\<lambda>w. (r, w))"
  by (simp add: keeps_def)

lemma keeps_return: "keeps good m \<Longrightarrow> keeps good (then_return m f)"
  unfolding then_return_def by (rule keeps_bind) (simp_all add: keeps_same)

lemma keeps_asked: "keeps good (asked f)"
  by (rule keeps_same) (simp add: asked_def)

lemma keeps_directory:
  "(\<And>p. keeps good (sg_exists s p)) \<Longrightarrow> (\<And>p. keeps good (sg_create_dir_all s p)) \<Longrightarrow> keeps good (ensure_directory s dir)"
proof -
  assume e: "\<And>p. keeps good (sg_exists s p)" "\<And>p. keeps good (sg_create_dir_all s p)"
  show "keeps good (ensure_directory s dir)"
  proof (cases "dir = ''/''")
    case True
    then show ?thesis by (simp add: keeps_def ensure_directory_def)
  next
    case False
    then have "ensure_directory s dir = st_bind (sg_exists s dir) (\<lambda>there.
        if there then (\<lambda>w. (Inr (), w)) else then_return (sg_create_dir_all s dir) (\<lambda>_. ()))"
      by (simp add: ensure_directory_def fun_eq_iff)
    then show ?thesis using keeps_bind[OF e(1)] keeps_return[OF e(2)] keeps_same by (smt (verit) snd_conv)
  qed
qed

text \<open>The recursion keeps what its steps keep, and returns when they go down a rank.\<close>

lemma work_keeps:
  assumes "\<And>t. keeps good (step t)" and "good w" and "work_through step todo w = Some (r, w')"
  shows "good w'"
proof -
  let ?P = "\<lambda>step todo w res. good w \<longrightarrow> (\<forall>t. keeps good (step t)) \<longrightarrow> good (snd res)"
  have "?P step todo w res" if "work_through step todo w = Some res" for res
  proof (rule work_through.raw_induct[OF _ that, where P = ?P], intro impI)
    fix f step todo w res
    assume IH: "\<And>step todo w res. f step todo w = Some res \<Longrightarrow> ?P step todo w res" and g: "good w" "\<forall>t. keeps good (step t)"
      and run: "(case todo of [] \<Rightarrow> Some (Inr (), w) | t # ts \<Rightarrow> (case step t w of (Inl e, w1) \<Rightarrow> Some (Inl e, w1)
        | (Inr calls, w1) \<Rightarrow> f step (calls @ ts) w1)) = Some res"
    show "good (snd res)"
    proof (cases todo)
      case Nil
      then show ?thesis using run g by auto
    next
      case (Cons t ts)
      obtain r w1 where s: "step t w = (r, w1)" by fastforce
      have "good w1" using keepsD[of good "step t" w r w1] g s by blast
      then show ?thesis using run Cons s IH g(2) by (cases r) auto
    qed
  qed
  then show ?thesis using assms by fastforce
qed

lemma work_returns:
  assumes "\<And>t w calls w'. good w \<Longrightarrow> step t w = (Inr calls, w') \<Longrightarrow> good w' \<and> (\<forall>c \<in> set calls. rank c < (rank t :: nat))"
    and "good w"
  shows "\<exists>r w'. work_through step todo w = Some (r, w')"
  using assms(2)
proof (induction "mset (map rank todo)" arbitrary: todo w rule: wf_induct_rule[OF wf_mult[OF wf_less_than]])
  case 1
  show ?case
  proof (cases todo)
    case Nil
    then show ?thesis by (subst work_through.simps) simp
  next
    case (Cons t ts)
    obtain r w1 where s: "step t w = (r, w1)" by fastforce
    show ?thesis
    proof (cases r)
      case (Inl e)
      then show ?thesis using Cons s by (subst work_through.simps) simp
    next
      case (Inr calls)
      have down: "good w1" "\<forall>c \<in> set calls. rank c < rank t" using assms(1)[OF "1.prems"] s Inr by auto
      have "(mset (map rank ts) + mset (map rank calls), mset (map rank ts) + {#rank t#}) \<in> mult less_than"
        by (rule one_step_implies_mult) (use down(2) in auto)
      then have "(mset (map rank (calls @ ts)), mset (map rank todo)) \<in> mult less_than"
        using Cons by (simp add: add.commute)
      from "1.hyps"[OF this down(1)] show ?thesis
        using Cons s Inr by (subst work_through.simps) simp
    qed
  qed
qed

text \<open>It never returns when some step always leads back to itself.\<close>

lemma work_diverges:
  assumes "\<And>t w. stuck t w \<Longrightarrow> \<exists>c calls w'. step t w = (Inr (c # calls), w') \<and> stuck c w'" and "stuck t w"
  shows "work_through step (t # ts) w = None"
proof -
  let ?P = "\<lambda>s todo w res. s = step \<longrightarrow> (\<forall>t ts. todo = t # ts \<longrightarrow> \<not> stuck t w)"
  have "?P step (t # ts) w res" if "work_through step (t # ts) w = Some res" for res
  proof (rule work_through.raw_induct[OF _ that, where P = ?P], intro impI allI)
    fix f s todo w res t ts
    assume IH: "\<And>step todo w res. f step todo w = Some res \<Longrightarrow> ?P step todo w res" and at: "s = step" "todo = t # ts"
      and run: "(case todo of [] \<Rightarrow> Some (Inr (), w) | t # ts \<Rightarrow> (case s t w of (Inl e, w1) \<Rightarrow> Some (Inl e, w1)
        | (Inr calls, w1) \<Rightarrow> f s (calls @ ts) w1)) = Some res"
    show "\<not> stuck t w"
    proof
      assume "stuck t w"
      then obtain c calls w' where "step t w = (Inr (c # calls), w')" "stuck c w'" using assms(1) by blast
      then show False using run at IH[of step "c # calls @ ts" w' res] by simp
    qed
  qed
  then show ?thesis using assms(2) by (cases "work_through step (t # ts) w") auto
qed

section \<open>Trees whose listings go down\<close>

text \<open>
  What the recursion relies on: in a good world every entry a listing names lies deeper than the listed path and
  no deeper than \<open>bound\<close>, and the calls of the recursion keep the world good.
\<close>

locale tree_walk =
  fixes s :: "'w storage" and good :: "'w \<Rightarrow> bool" and bound :: nat
  assumes stat_good: "keeps good (sg_stat s p)"
    and list_good: "keeps good (sg_list s p)"
    and stream_good: "keeps good (sg_read_stream s p)"
    and delete_good: "keeps good (sg_delete s p)"
    and list_down: "good w \<Longrightarrow> sg_list s p w = (Inr es, w') \<Longrightarrow> e \<in> set es \<Longrightarrow>
      path_depth p < path_depth (fi_path e) \<and> path_depth (fi_path e) \<le> bound"

locale tree_copy = tree_walk s good bound
  for s :: "'w storage" and good :: "'w \<Rightarrow> bool" and bound :: nat +
  fixes b :: "'w storage"
  assumes exists_good: "keeps good (sg_exists b p)"
    and mkdir_good: "keeps good (sg_create_dir_all b p)"
    and write_good: "keeps good (sg_write_stream b p cs)"

definition depth_left :: "nat \<Rightarrow> string \<Rightarrow> nat" where
  "depth_left bound p = Suc bound - path_depth p"

fun removal_rank :: "nat \<Rightarrow> removal \<Rightarrow> nat" where
  "removal_rank bound (Visit p) = Suc (depth_left bound p)"
| "removal_rank bound (Remove p) = 0"

lemma then_return_Inr: "then_return m f w = (Inr y, w') \<longleftrightarrow> (\<exists>x. m w = (Inr x, w') \<and> y = f x)"
  by (auto simp: then_return_def st_bind_def split: prod.split sum.split)

lemma st_bind_Inr: "st_bind m f w = (Inr y, w') \<longleftrightarrow> (\<exists>x w1. m w = (Inr x, w1) \<and> f x w1 = (Inr y, w'))"
  by (auto simp: st_bind_def split: prod.split sum.split)

context tree_walk
begin

lemma depth_shrinks:
  "good w \<Longrightarrow> sg_list s p w = (Inr es, w') \<Longrightarrow> e \<in> set es \<Longrightarrow> depth_left bound (fi_path e) < depth_left bound p"
  using list_down[of w p es w' e] by (auto simp: depth_left_def)

lemma delete_step_good: "keeps good (delete_step s t)"
  by (cases t) (auto simp: delete_step_def intro!: keeps_bind keeps_return stat_good list_good delete_good keeps_unit)

lemma delete_returns:
  assumes "good w"
  shows "\<exists>r w'. delete_path_recursive s p w = Some (r, w')"
  unfolding delete_path_recursive_def
proof (rule work_returns[where rank = "removal_rank bound" and good = good, OF _ assms])
  fix t w calls w'
  assume g: "good w" and run: "delete_step s t w = (Inr calls, w')"
  have "\<forall>c \<in> set calls. removal_rank bound c < removal_rank bound t"
  proof (cases t)
    case (Remove q)
    then show ?thesis using run by (auto simp: delete_step_def then_return_Inr)
  next
    case (Visit q)
    from run obtain i w1 where i: "sg_stat s q w = (Inr i, w1)"
      and rest: "(if fi_is_dir i then then_return (sg_list s q) (\<lambda>es. map (\<lambda>e. Visit (fi_path e)) es @ [Remove q])
                 else (\<lambda>w. (Inr [Remove q], w))) w1 = (Inr calls, w')"
      by (auto simp: Visit delete_step_def st_bind_Inr)
    have "good w1" by (rule keepsD[OF stat_good g i])
    then show ?thesis
      using rest Visit depth_shrinks by (auto simp: then_return_Inr split: if_splits)
  qed
  then show "good w' \<and> (\<forall>c \<in> set calls. removal_rank bound c < removal_rank bound t)"
    using keepsD[OF delete_step_good g run] by blast
qed

end

context tree_copy
begin

lemma copy_step_good: "keeps good (copy_step s b t)"
proof (cases t)
  case (Pair p q)
  have dir: "keeps good (ensure_directory b d)" for d by (rule keeps_directory[OF exists_good mkdir_good])
  show ?thesis
    unfolding copy_step_def Pair copy_file_step_def ensure_parent_dir_def
    by (auto intro!: keeps_bind keeps_return stat_good list_good stream_good write_good mkdir_good dir)
qed

lemma copy_returns:
  assumes "good w"
  shows "\<exists>r w'. copy_path_between s p b q w = Some (r, w')"
  unfolding copy_path_between_def
proof (rule work_returns[where rank = "\<lambda>t. depth_left bound (fst t)" and good = good, OF _ assms])
  fix t w calls w'
  assume g: "good w" and run: "copy_step s b t w = (Inr calls, w')"
  obtain p q where t: "t = (p, q)" by fastforce
  from run obtain i w1 where i: "sg_stat s p w = (Inr i, w1)"
    and rest: "(if fi_is_dir i then st_bind (sg_create_dir_all b q) (\<lambda>_. then_return (sg_list s p)
        (map (\<lambda>e. (fi_path e, join_logical_path q (fi_name e))))) else then_return (copy_file_step s p b q) (\<lambda>_. [])) w1 =
      (Inr calls, w')"
    by (auto simp: t copy_step_def st_bind_Inr)
  have g1: "good w1" by (rule keepsD[OF stat_good g i])
  have "\<forall>c \<in> set calls. depth_left bound (fst c) < depth_left bound p"
  proof (cases "fi_is_dir i")
    case True
    with rest obtain x w2 es where m: "sg_create_dir_all b q w1 = (Inr x, w2)" "sg_list s p w2 = (Inr es, w')"
        "calls = map (\<lambda>e. (fi_path e, join_logical_path q (fi_name e))) es" by (auto simp: then_return_Inr st_bind_Inr)
    show ?thesis using depth_shrinks[OF keepsD[OF mkdir_good g1 m(1)] m(2)] m(3) by auto
  next
    case False
    then show ?thesis using rest by (auto simp: then_return_Inr)
  qed
  then show "good w' \<and> (\<forall>c \<in> set calls. depth_left bound (fst c) < depth_left bound (fst t))"
    using keepsD[OF copy_step_good g run] t by simp
qed

lemma copy_good:
  "good w \<Longrightarrow> copy_path_between s p b q w = Some (r, w') \<Longrightarrow> good w'"
  unfolding copy_path_between_def by (rule work_keeps[OF copy_step_good])

lemma move_returns:
  assumes "good w" "resolve_endpoint ms p = Inr e1" "ep_storage e1 = s" "resolve_endpoint ms q = Inr e2" "ep_storage e2 = b"
  shows "\<exists>r w'. generic_move_or_copy ms p q delete_source w = Some (r, w')"
proof -
  obtain r w1 where c: "copy_path_between s (ep_path e1) b (ep_path e2) w = Some (r, w1)"
    using copy_returns[OF assms(1)] by blast
  obtain r2 w2 where d: "delete_path_recursive s (ep_path e1) w1 = Some (r2, w2)"
    using delete_returns copy_good[OF assms(1) c] by blast
  show ?thesis
    using assms(2-5) c d
    by (cases r; cases r2) (auto simp: generic_move_or_copy_def run_bind_def run_of_def)
qed

end

section \<open>A remote pool as the source\<close>

definition lists_down :: "'p operator \<Rightarrow> nat \<Rightarrow> 'p \<Rightarrow> bool" where
  "lists_down opr bound st \<longleftrightarrow>
     (\<forall>p es q m. op_list opr False (list_path p) st = Inr es \<and> Inr (q, m) \<in> set es \<longrightarrow>
        path_depth p < path_depth (normalize_entry_path q) \<and> path_depth (normalize_entry_path q) \<le> bound)"

text \<open>Whatever is deleted, the listings still go down.\<close>

definition keeps_down :: "'p operator \<Rightarrow> nat \<Rightarrow> 'p \<Rightarrow> bool" where
  "keeps_down opr bound st \<longleftrightarrow> (\<forall>ps. lists_down opr bound (fold (\<lambda>p st. snd (op_delete opr p st)) ps st))"

definition remote_good :: "'p pool_env \<Rightarrow> nat \<Rightarrow> 'p pool \<Rightarrow> bool" where
  "remote_good env bound s \<longleftrightarrow> (\<exists>st. s = remote_pool st \<and> keeps_down (primary env) bound st)"

definition at_left :: "'v storage \<Rightarrow> ('v \<times> 'u) storage" where
  "at_left = within fst (\<lambda>v w. (v, snd w))"

definition at_right :: "'u storage \<Rightarrow> ('v \<times> 'u) storage" where
  "at_right = within snd (\<lambda>v w. (fst w, v))"

lemma keeps_left: "keeps good m \<Longrightarrow> keeps (\<lambda>w. good (fst w)) (on_part fst (\<lambda>v w. (v, snd w)) m)"
  by (auto simp: keeps_def on_part_def split: prod.split)

lemma keeps_right: "keeps (\<lambda>w. good (fst w)) (on_part snd (\<lambda>v w. (fst w, v)) m)"
  by (auto simp: keeps_def on_part_def split: prod.split)

lemma remote_pool_simps [simp]:
  "pl_primary (remote_pool st) = st" "pl_backup (remote_pool st) = None" "pl_read (remote_pool st) = None"
  "pl_write (remote_pool st) = None" "(remote_pool st)\<lparr>pl_primary := st'\<rparr> = remote_pool st'"
  "invalidate_read_cache env p (remote_pool st) = remote_pool st"
  by (simp_all add: remote_pool_def invalidate_read_cache_def)

lemma remote_inj [simp]: "remote_pool a = remote_pool b \<longleftrightarrow> a = b"
  by (simp add: remote_pool_def)

lemma remote_uncached: "cached_read env now p (remote_pool st) = (None, remote_pool st)"
  by (simp add: cached_read_def with_write_cache_def remote_pool_def)

lemma remote_stream_same: "snd (pool_read_stream env now p (remote_pool st)) = remote_pool st"
  by (simp add: pool_read_stream_def read_stream_range_def remote_uncached Let_def split: sum.split)

lemma remote_delete_good: "remote_good env bound s \<Longrightarrow> remote_good env bound (snd (on_primary (op_delete (primary env) p) s))"
proof -
  assume "remote_good env bound s"
  then obtain st where st: "s = remote_pool st" "keeps_down (primary env) bound st" by (auto simp: remote_good_def)
  have "keeps_down (primary env) bound (snd (op_delete (primary env) p st))"
    using st(2) unfolding keeps_down_def by (auto dest: spec[of _ "p # ps" for ps])
  then show ?thesis by (auto simp: remote_good_def on_primary_def st(1) split: prod.split)
qed

lemma remote_invalidate: "remote_good env bound s \<Longrightarrow> invalidate_read_cache env p s = s"
  by (auto simp: remote_good_def)

lemma keeps_remote_delete: "keeps (remote_good env bound) (\<lambda>s. on_primary (op_delete (primary env) p) (invalidate_read_cache env q s))"
  by (auto simp: keeps_def remote_invalidate intro: remote_delete_good)

lemma keeps_delete_entries: "keeps (remote_good env bound) (delete_entries env es)"
proof (induction es)
  case Nil
  show ?case by (simp add: keeps_def)
next
  case (Cons e es)
  let ?p = "if fi_is_dir e then as_dir (fi_path e) else fi_path e"
  have "delete_entries env (e # es) =
      st_bind (\<lambda>s. on_primary (op_delete (primary env) ?p) (invalidate_read_cache env ?p s)) (\<lambda>_. delete_entries env es)"
    by (simp add: fun_eq_iff st_bind_def Let_def)
  then show ?case using keeps_bind[OF keeps_remote_delete Cons.IH] by simp
qed

lemma keeps_pool_delete: "keeps (remote_good env bound) (pool_delete env p)"
proof -
  have tree: "keeps (remote_good env bound) (remove_tree env p)"
  proof -
    let ?last = "\<lambda>_ s1. on_primary (op_delete (primary env) (tree_path p)) (invalidate_read_cache env (normalize_entry_path p) s1)"
    have "keeps (remote_good env bound) (st_bind (delete_entries env es) ?last)" for es
      by (rule keeps_bind[OF keeps_delete_entries keeps_remote_delete])
    then show ?thesis by (simp add: keeps_def remove_tree_def Let_def split: sum.split)
  qed
  have step: "keeps (remote_good env bound) (if fi_is_dir i then remove_tree env p else on_primary (op_delete (primary env) p))" for i
    using tree remote_delete_good by (auto simp: keeps_def)
  have "keeps (remote_good env bound)
      (st_bind (if fi_is_dir i then remove_tree env p else on_primary (op_delete (primary env) p)) (\<lambda>_ s1. (Inr i, s1)))" for i
    by (rule keeps_bind[OF step keeps_unit])
  note run = this
  have "remote_good env bound (snd (pool_delete env p s))" if "remote_good env bound s" for s
  proof (cases "pool_stat env p s")
    case (Inl e)
    then show ?thesis using that by (simp add: pool_delete_def)
  next
    case (Inr i)
    then show ?thesis using run[of i] that by (simp add: keeps_def pool_delete_def remote_invalidate)
  qed
  then show ?thesis by (simp add: keeps_def)
qed

lemma collected_path: "collect_entries opr st es = Inr xs \<Longrightarrow> x \<in> set xs \<Longrightarrow>
    \<exists>q m. Inr (q, m) \<in> set es \<and> fi_path x = normalize_entry_path q"
  by (induction opr st es arbitrary: xs rule: collect_entries.induct)
    (fastforce simp: list_entry_info_def Let_def to_vfs_file_info_def split: sum.splits if_splits prod.splits)+

interpretation pool_copy: tree_copy "at_left (pool_storage lower scheme env clk)" "\<lambda>w. remote_good env bound (fst w)" bound "at_right d"
proof
  fix p :: string
  let ?g = "\<lambda>w. remote_good env bound (fst w)"
  show "keeps ?g (sg_stat (at_left (pool_storage lower scheme env clk)) p)"
    "keeps ?g (sg_list (at_left (pool_storage lower scheme env clk)) p)"
    by (simp_all add: at_left_def within_def pool_storage_def Let_def keeps_left keeps_asked)
  have "keeps (remote_good env bound) (pool_read_stream env (fst clk) p)"
    by (auto simp: keeps_def remote_good_def remote_stream_same)
  then show "keeps ?g (sg_read_stream (at_left (pool_storage lower scheme env clk)) p)"
    by (simp add: at_left_def within_def pool_storage_def Let_def keeps_left)
  show "keeps ?g (sg_delete (at_left (pool_storage lower scheme env clk)) p)"
    by (simp add: at_left_def within_def pool_storage_def Let_def keeps_left keeps_pool_delete)
  show "keeps ?g (sg_exists (at_right d) p)" "keeps ?g (sg_create_dir_all (at_right d) p)"
    "keeps ?g (sg_write_stream (at_right d) p cs)" for cs
    by (simp_all add: at_right_def within_def keeps_right)
  fix w w' es e
  assume g: "remote_good env bound (fst w)" and e: "e \<in> set es"
    and l: "sg_list (at_left (pool_storage lower scheme env clk)) p w = (Inr es, w')"
  obtain st where st: "fst w = remote_pool st" "keeps_down (primary env) bound st" using g by (auto simp: remote_good_def)
  have "pool_list env p (remote_pool st) = Inr es"
    using l by (simp add: at_left_def within_def pool_storage_def Let_def on_part_def asked_def st(1))
  then obtain xs where xs: "op_list (primary env) False (list_path p) st = Inr xs" "collect_entries (primary env) st xs = Inr es"
    by (auto simp: pool_list_def select_lister_def fallback_def split: sum.splits prod.splits)
  from collected_path[OF xs(2) e] obtain q m where "Inr (q, m) \<in> set xs" "fi_path e = normalize_entry_path q" by blast
  then show "path_depth p < path_depth (fi_path e) \<and> path_depth (fi_path e) \<le> bound"
    using st(2) xs(1) unfolding keeps_down_def lists_down_def by (metis fold_simps(1))
qed

text \<open>
  C7: A move or a copy out of a mount returns, with a result or an error, when the recursion goes down: as long as
  the world has a property that the calls on both storages keep, and under which the listings of the source name
  deeper paths only, up to a bounded depth. That is so when the destination has no part in the files of the source,
  whatever it does (\<open>pool_copy\<close>). Two mounts of one remote may not have such a property: copying a directory into
  itself never returns (\<open>nested_copy_never_returns\<close>).
\<close>

theorem mount_transfer_returns:
  assumes "tree_copy a good bound b" "good w"
    and "resolve_endpoint ms p = Inr e1" "ep_storage e1 = a"
    and "resolve_endpoint ms q = Inr e2" "ep_storage e2 = b" and "ep_mount e1 \<noteq> ep_mount e2"
  shows "(\<exists>r w'. mounted_move_file ms p q w = Some (r, w')) \<and> (\<exists>r w'. mounted_copy_file ms p q w = Some (r, w'))"
proof -
  have "mounted_move_file ms p q w = generic_move_or_copy ms p q True w"
    "mounted_copy_file ms p q w = generic_move_or_copy ms p q False w"
    using assms(3,5,7) by (auto simp: mounted_move_file_def mounted_copy_file_def relocate_def)
  then show ?thesis using tree_copy.move_returns[OF assms(1,2,3,4,5,6)] by simp
qed

text \<open>
  A directory copied into itself, through two mounts of one remote: what is made below each directory shows up first
  in its listing.
\<close>

lemma nested_copy_never_returns:
  assumes deeper: "\<And>x w. ok w \<Longrightarrow> \<exists>i w1 j w2 e es w3. sg_stat a x w = (Inr i, w1) \<and> fi_is_dir i \<and>
      sg_create_dir_all b (join_logical_path x n) w1 = (Inr j, w2) \<and> sg_list a x w2 = (Inr (e # es), w3) \<and>
      fi_path e = join_logical_path x n \<and> fi_name e = n \<and> ok w3"
    and "ok w"
  shows "copy_path_between a p b (join_logical_path p n) w = None"
  unfolding copy_path_between_def
proof (rule work_diverges[where stuck = "\<lambda>t w. ok w \<and> snd t = join_logical_path (fst t) n"])
  fix t w assume t: "ok w \<and> snd t = join_logical_path (fst t) n"
  then obtain x where x: "t = (x, join_logical_path x n)" by (cases t) auto
  from deeper t obtain i w1 j w2 e es w3 where "sg_stat a x w = (Inr i, w1)" "fi_is_dir i"
      "sg_create_dir_all b (join_logical_path x n) w1 = (Inr j, w2)" "sg_list a x w2 = (Inr (e # es), w3)"
      "fi_path e = join_logical_path x n" "fi_name e = n" "ok w3" by meson
  then show "\<exists>c calls w'. copy_step a b t w = (Inr (c # calls), w') \<and> ok w' \<and> snd c = join_logical_path (fst c) n"
    by (simp add: x copy_step_def st_bind_def then_return_def)
qed (use assms(2) in simp)

section \<open>A listing that names its directory\<close>

lemma collect_fine: "collect_entries opr st (map Inr es) = Inr (map (list_entry_info opr st) es)"
  by (induction es) auto

lemma list_entry_path: "fi_path (list_entry_info opr st (q, m)) = normalize_entry_path q"
  by (simp add: list_entry_info_def Let_def to_vfs_file_info_def split: sum.split)

lemma remote_stat: "op_stat (primary env) p st = Inr m \<Longrightarrow> pool_stat env p (remote_pool st) = Inr (to_vfs_file_info p m)"
  by (simp add: pool_stat_def pool_pending_stat_def stat_with_operator_def)

lemma remote_list:
  "op_list (primary env) False (list_path p) st = Inr (map Inr es) \<Longrightarrow>
   pool_list env p (remote_pool st) = Inr (map (list_entry_info (primary env) st) es)"
  by (simp add: pool_list_def select_lister_def collect_fine)

text \<open>A path that is a directory and whose listing starts with the directory \<open>q\<close>.\<close>

definition lists_first :: "'p operator \<Rightarrow> 'p \<Rightarrow> string \<Rightarrow> string \<Rightarrow> bool" where
  "lists_first opr st p q \<longleftrightarrow>
     (\<exists>m. op_stat opr p st = Inr m \<and> md_is_dir m) \<and>
     (\<exists>raw x es. op_list opr False (list_path p) st = Inr (map Inr ((raw, x) # es)) \<and> normalize_entry_path raw = q)"

lemma lists_firstD:
  assumes "lists_first (primary env) st p q"
  obtains i e es where "pool_stat env p (remote_pool st) = Inr i" "fi_is_dir i"
    "pool_list env p (remote_pool st) = Inr (e # es)" "fi_path e = q"
proof -
  from assms obtain m raw x es where m: "op_stat (primary env) p st = Inr m" "md_is_dir m"
    and l: "op_list (primary env) False (list_path p) st = Inr (map Inr ((raw, x) # es))" "normalize_entry_path raw = q"
    unfolding lists_first_def by blast
  have "pool_list env p (remote_pool st) =
      Inr (list_entry_info (primary env) st (raw, x) # map (list_entry_info (primary env) st) es)"
    using remote_list[OF l(1)] by simp
  moreover have "fi_is_dir (to_vfs_file_info p m)" using m(2) by (simp add: to_vfs_file_info_def)
  moreover have "fi_path (list_entry_info (primary env) st (raw, x)) = q" using l(2) by (simp add: list_entry_path)
  ultimately show thesis using that[OF remote_stat[OF m(1)]] by blast
qed

text \<open>
  C13: On a storage whose listing of a directory succeeds and names the directory itself first, the recursion for
  mounts never ends: deleting the directory recursively does not return, and neither does copying it to a storage
  that can create every directory, as long as creating them does not change that listing. The scoped engine expects
  such entries of the operators and leaves them out; the code for mounts does not. The path asked for and the path
  the listing uses may differ, by a leading slash for instance.
\<close>

theorem self_listing_never_returns:
  fixes st :: 'p
  assumes "ok st" and first: "\<And>st. ok st \<Longrightarrow> lists_first (primary env) st p q \<and> lists_first (primary env) st q q"
    and make: "\<And>path st. ok st \<Longrightarrow> \<exists>i st'. sg_create_dir_all d path (remote_pool st) = (Inr i, remote_pool st') \<and> ok st'"
  shows "delete_path_recursive (pool_storage lower scheme env clk) p (remote_pool st) = None \<and>
         copy_path_between (pool_storage lower scheme env clk) p d dst (remote_pool st) = None"
proof
  let ?s = "pool_storage lower scheme env clk"
  have listed: "\<exists>i e es. pool_stat env x (remote_pool st) = Inr i \<and> fi_is_dir i \<and>
      pool_list env x (remote_pool st) = Inr (e # es) \<and> fi_path e = q" if "ok st" "x = p \<or> x = q" for x st
    using that first[OF that(1)] lists_firstD[of env st x q] by metis
  show "delete_path_recursive ?s p (remote_pool st) = None"
    unfolding delete_path_recursive_def
  proof (rule work_diverges[where stuck = "\<lambda>r w. w = remote_pool st \<and> (r = Visit p \<or> r = Visit q)"])
    fix r and w :: "'p pool" assume "w = remote_pool st \<and> (r = Visit p \<or> r = Visit q)"
    then obtain x where x: "r = Visit x" "x = p \<or> x = q" "w = remote_pool st" by blast
    from listed[OF assms(1) x(2)] obtain i e es where f: "pool_stat env x (remote_pool st) = Inr i" "fi_is_dir i"
      "pool_list env x (remote_pool st) = Inr (e # es)" "fi_path e = q" by blast
    show "\<exists>c calls w'. delete_step ?s r w = (Inr (c # calls), w') \<and> w' = remote_pool st \<and> (c = Visit p \<or> c = Visit q)"
      using f by (simp add: x delete_step_def pool_storage_def Let_def asked_def then_return_def st_bind_def)
  qed simp
  show "copy_path_between ?s p d dst (remote_pool st) = None"
    unfolding copy_path_between_def
  proof (rule work_diverges[where stuck = "\<lambda>r w. \<exists>st. w = remote_pool st \<and> ok st \<and> (fst r = p \<or> fst r = q)"])
    fix r :: "string \<times> string" and w :: "'p pool" assume "\<exists>st. w = remote_pool st \<and> ok st \<and> (fst r = p \<or> fst r = q)"
    then obtain x y st where x: "r = (x, y)" "x = p \<or> x = q" "w = remote_pool st" "ok st" by (cases r) auto
    obtain j st' where c: "sg_create_dir_all d y (remote_pool st) = (Inr j, remote_pool st')" "ok st'"
      using make[OF x(4)] by blast
    obtain i where i: "pool_stat env x (remote_pool st) = Inr i" "fi_is_dir i" using listed[OF x(4,2)] by blast
    obtain e es where f: "pool_list env x (remote_pool st') = Inr (e # es)" "fi_path e = q" using listed[OF c(2) x(2)] by blast
    show "\<exists>c calls w'. copy_step ?s d r w = (Inr (c # calls), w') \<and> (\<exists>st. w' = remote_pool st \<and> ok st \<and> (fst c = p \<or> fst c = q))"
      using f c i by (simp add: x copy_step_def pool_storage_def Let_def asked_def then_return_def st_bind_def)
  qed (use assms(1) in auto)
qed

section \<open>The source of a move\<close>

text \<open>A change that the answers about an object do not show.\<close>

definition untouched :: "'p operator \<Rightarrow> string \<Rightarrow> 'p dal_update \<Rightarrow> bool" where
  "untouched opr p u \<longleftrightarrow>
     (\<forall>st. op_read opr p (snd (u st)) = op_read opr p st \<and> op_stat opr p (snd (u st)) = op_stat opr p st \<and>
        (\<forall>a b. op_read_range opr p a b (snd (u st)) = op_read_range opr p a b st \<and>
           op_chunks opr p a b (snd (u st)) = op_chunks opr p a b st))"

text \<open>
  Two operators on one store, which may be the same remote: what a copy to \<open>q\<close> does does not show at \<open>p\<close>, and
  deleting \<open>p\<close> does not show at \<open>q\<close>.
\<close>

definition objects_apart :: "'p operator \<Rightarrow> string \<Rightarrow> 'p operator \<Rightarrow> string \<Rightarrow> bool" where
  "objects_apart o1 p o2 q \<longleftrightarrow>
     (\<forall>d. untouched o1 p (op_create_dir o2 d)) \<and> untouched o1 p (op_writer o2 (q @ ''.tmp'')) \<and>
     (\<forall>c. untouched o1 p (op_append o2 (q @ ''.tmp'') c)) \<and> untouched o1 p (op_close o2 (q @ ''.tmp'')) \<and>
     untouched o1 p (op_rename o2 (q @ ''.tmp'') q) \<and> leaves o2 {q} (op_delete o1 p)"

text \<open>What is known of the object of the source at each step: it holds the bytes, and the whole read is the same.\<close>

definition still :: "'p operator \<Rightarrow> string \<Rightarrow> string \<Rightarrow> 'p \<Rightarrow> 'p pool \<Rightarrow> bool" where
  "still opr p data st w \<longleftrightarrow>
     (\<exists>st1. w = remote_pool st1 \<and> serves opr p st1 data \<and> op_read opr p st1 = op_read opr p st)"

lemma still_update: "untouched opr p u \<Longrightarrow> keeps (still opr p data st) (on_primary u)"
  unfolding keeps_def still_def
proof (intro allI impI, elim exE conjE)
  fix w st1 assume u: "untouched opr p u" and w: "w = remote_pool st1" "serves opr p st1 data" "op_read opr p st1 = op_read opr p st"
  have "snd (on_primary u w) = remote_pool (snd (u st1))" by (simp add: on_primary_def w split: prod.split)
  moreover have "serves opr p (snd (u st1)) data" "op_read opr p (snd (u st1)) = op_read opr p st"
    using u w by (simp_all add: untouched_def serves_def)
  ultimately show "\<exists>st2. snd (on_primary u w) = remote_pool st2 \<and> serves opr p st2 data \<and> op_read opr p st2 = op_read opr p st" by blast
qed

lemma still_asked: "(\<And>w. snd (m w) = w) \<Longrightarrow> keeps (still opr p data st) m"
  by (rule keeps_same)

lemma still_after_forgetting:
  "keeps (still opr p data st) m \<Longrightarrow> keeps (still opr p data st) (\<lambda>w. m (invalidate_read_cache env x w))"
proof -
  have "still opr p data st w \<Longrightarrow> invalidate_read_cache env x w = w" for w by (auto simp: still_def)
  then show "keeps (still opr p data st) m \<Longrightarrow> ?thesis" by (simp add: keeps_def)
qed

lemma still_append:
  "(\<And>c. untouched opr p (op_append (primary env) t c)) \<Longrightarrow> keeps (still opr p data st) (append_chunks env t cs)"
proof (induction cs)
  case (Cons a cs)
  then show ?case
    using keeps_bind[OF still_update[OF Cons.prems] Cons.IH[OF Cons.prems]]
    by (cases a) (simp_all add: keeps_def)
qed (simp add: keeps_def)

lemma still_stream:
  assumes "objects_apart opr p (primary env) q"
  shows "keeps (still opr p data st) (pool_write_stream env q cs)"
proof -
  note apart = assms[unfolded objects_apart_def]
  show ?thesis
    unfolding pool_write_stream_def Let_def
    by (rule still_after_forgetting, intro keeps_bind still_update still_append)
      (use apart in \<open>auto simp: then_stat_def keeps_def\<close>)
qed

lemma still_directory:
  assumes "objects_apart opr p (primary env) q"
  shows "keeps (still opr p data st) (ensure_directory (pool_storage lower scheme env clk) dir)"
proof (rule keeps_directory)
  show "keeps (still opr p data st) (sg_exists (pool_storage lower scheme env clk) x)" for x
    by (simp add: pool_storage_def Let_def keeps_asked)
  show "keeps (still opr p data st) (sg_create_dir_all (pool_storage lower scheme env clk) x)" for x
    unfolding pool_storage_def Let_def storage.select_convs pool_create_dir_def
    by (rule still_after_forgetting, intro keeps_bind still_update)
      (use assms in \<open>auto simp: objects_apart_def then_stat_def keeps_def\<close>)
qed

text \<open>A whole stream of the object without an error item is its bytes.\<close>

lemma whole_stream:
  assumes "serves (primary env) p st data"
    and "pool_read_stream env now p (remote_pool st) = (Inr (map Inr cs, i), w)"
  shows "concat cs = data"
proof -
  have len: "length data < 2 ^ 64" using assms(1) by (simp add: serves_def)
  have all: "slice_bytes data 0 (- 1) = data"
    using len slice_bytes_eq[OF len, of 0 "- 1"] by (simp add: unsigned_minus_1_eq_mask mask_eq_exp_minus_1)
  obtain k where k: "stat_with_operator (primary env) p st = Inr k"
    and c: "(case clamp_read_range 0 (- 1) (fi_size k) of (x, y) \<Rightarrow>
            res_bind (dal_res (op_chunks (primary env) p x y st)) (\<lambda>cs. Inr (map dal_res cs, k))) = Inr (map Inr cs, i)"
    using assms(2)
    by (auto simp: pool_read_stream_def read_stream_range_def remote_uncached Let_def fallback_def res_bind_Inr_iff
        split: sum.splits)
  from served_reads(2)[OF assms(1) k c] all show ?thesis by simp
qed

text \<open>Copying one file: the source stays, and after a success the destination holds its bytes.\<close>

lemma file_copied:
  assumes sv: "serves (primary env) p st data" and leaf: "\<And>st m. op_stat (primary env) p st = Inr m \<Longrightarrow> \<not> md_is_dir m"
    and ap: "objects_apart (primary env) p (primary env') q" and str: "streaming_op (primary env') (q @ ''.tmp'') q"
    and run: "copy_path_between (pool_storage lower scheme env clk) p (pool_storage lower' scheme' env' clk') q (remote_pool st) =
      Some (r, w)"
  shows "still (primary env) p data st w \<and> (r = Inr () \<longrightarrow> op_read (primary env') q (pl_primary w) = Inr data)"
proof -
  let ?a = "pool_storage lower scheme env clk" and ?b = "pool_storage lower' scheme' env' clk'"
  let ?S = "still (primary env) p data st"
  have start: "?S (remote_pool st)" using sv by (auto simp: still_def)
  have stat: "sg_stat ?a p (remote_pool st) = (pool_stat env p (remote_pool st), remote_pool st)"
    by (simp add: pool_storage_def Let_def asked_def)
  show ?thesis
  proof (cases "pool_stat env p (remote_pool st)")
    case (Inl x)
    then have "copy_step ?a ?b (p, q) (remote_pool st) = (Inl x, remote_pool st)"
      by (simp add: copy_step_def st_bind_def stat)
    then have "r = Inl x" "w = remote_pool st"
      using run unfolding copy_path_between_def by (subst (asm) work_through.simps, simp)+
    then show ?thesis using start by simp
  next
    case (Inr i)
    then have dir: "\<not> fi_is_dir i"
      using leaf by (auto simp: pool_stat_def pool_pending_stat_def stat_with_operator_def fallback_def to_vfs_file_info_def
          split: sum.splits)
    obtain r1 w1 where f: "copy_file_step ?a p ?b q (remote_pool st) = (r1, w1)" by fastforce
    have "copy_step ?a ?b (p, q) (remote_pool st) = (case r1 of Inl x \<Rightarrow> (Inl x, w1) | Inr _ \<Rightarrow> (Inr [], w1))"
      using dir f by (cases r1) (simp_all add: copy_step_def st_bind_def stat Inr then_return_def)
    then have out: "r = r1 \<and> w = w1"
      using run unfolding copy_path_between_def
      by (subst (asm) work_through.simps) (cases r1; simp add: work_through.simps[of _ "[]"])
    obtain r2 w2 where e: "ensure_parent_dir ?b q (remote_pool st) = (r2, w2)" by fastforce
    have w2: "?S w2"
      using keepsD[OF still_directory[OF ap] start e[unfolded ensure_parent_dir_def]] .
    then obtain st2 where st2: "w2 = remote_pool st2" "serves (primary env) p st2 data" by (auto simp: still_def)
    obtain r3 where rd: "pool_read_stream env (fst clk) p w2 = (r3, w2)"
      using remote_stream_same[of env "fst clk" p st2] st2(1) by (metis prod.collapse)
    show ?thesis
    proof (cases r2; cases r3)
      fix u :: unit and y assume ok: "r2 = Inr u" "r3 = Inr y"
      obtain cs j where y: "y = (cs, j)" by fastforce
      obtain r4 w4 where ws: "pool_write_stream env' q cs w2 = (r4, w4)" by fastforce
      have f': "copy_file_step ?a p ?b q (remote_pool st) = (case r4 of Inl x \<Rightarrow> (Inl x, w4) | Inr _ \<Rightarrow> (Inr (), w4))"
        using e rd ws ok y
        by (cases r4) (simp_all add: copy_file_step_def st_bind_def then_return_def pool_storage_def Let_def)
      have S4: "?S w4" by (rule keepsD[OF still_stream[OF ap] w2 ws])
      have "op_read (primary env') q (pl_primary w4) = Inr data" if "r4 = Inr k" for k
      proof -
        from pool_stream_result[OF str ws, of k] that obtain ds
          where ds: "cs = map Inr ds" "op_read (primary env') q (pl_primary w4) = Inr (concat ds)" by blast
        have "concat ds = data" using whole_stream[OF st2(2)] rd ok y ds(1) st2(1) by simp
        then show ?thesis using ds(2) by simp
      qed
      then show ?thesis using out f f' S4 by (cases r4) auto
    qed (use out f e rd w2 in \<open>auto simp: copy_file_step_def st_bind_def then_return_def pool_storage_def Let_def\<close>)
  qed
qed

text \<open>Deleting the source file does not show at the destination.\<close>

lemma file_deleted:
  assumes leaf: "\<And>st m. op_stat (primary env) p st = Inr m \<Longrightarrow> \<not> md_is_dir m"
    and le: "leaves o2 {q} (op_delete (primary env) p)"
    and run: "delete_path_recursive (pool_storage lower scheme env clk) p (remote_pool st) = Some (r, w)"
  shows "\<exists>st'. w = remote_pool st' \<and> op_read o2 q st' = op_read o2 q st"
proof -
  let ?a = "pool_storage lower scheme env clk"
  have dir: "\<not> fi_is_dir i" if "pool_stat env p (remote_pool st) = Inr i" for i
    using that leaf by (auto simp: pool_stat_def pool_pending_stat_def stat_with_operator_def fallback_def to_vfs_file_info_def
        split: sum.splits)
  have del: "\<exists>st'. snd (pool_delete env p (remote_pool st)) = remote_pool st' \<and> op_read o2 q st' = op_read o2 q st"
  proof -
    obtain x st' where x: "op_delete (primary env) p st = (x, st')" by fastforce
    have "op_read o2 q st' = op_read o2 q st" using le x by (auto simp: leaves_def dest: spec[of _ st])
    then show ?thesis
      using dir x by (cases "pool_stat env p (remote_pool st)"; cases "dal_res x")
        (auto simp: pool_delete_def st_bind_def on_primary_def)
  qed
  obtain r1 w1 where d: "pool_delete env p (remote_pool st) = (r1, w1)" by fastforce
  have "w = remote_pool st \<or> w = w1"
    using run d dir unfolding delete_path_recursive_def
    by (subst (asm) work_through.simps, cases "pool_stat env p (remote_pool st)"; cases r1)
      (auto simp: delete_step_def st_bind_def then_return_def pool_storage_def Let_def asked_def
        work_through.simps[of _ "[Remove p]"] work_through.simps[of _ "[]"])
  then show ?thesis using del d by auto
qed

text \<open>
  C6: Moving a file between two different mounts never loses it. The source reads differently than before, or success is
  reported, only when the destination holds exactly the bytes of the source, whichever calls fail, in the middle of
  the stream too. The path is a file, of which every call returns its bytes or fails; the remotes have no caches,
  as the mounts make them; what was streamed to the staging object \<open>.tmp\<close> and closed reads back, and a rename
  carries it over. Both mounts may lie on one remote, but what the copy touches (the target, its staging object and
  the directories made for it) must not be the source object, nor the source the target: a move between two mounts
  of one remote onto the same object deletes the file (\<open>same_object_move_destroys\<close>).
\<close>

theorem cross_mount_move_safe:
  assumes "resolve_endpoint ms p = Inr e1" "ep_storage e1 = pool_storage lower scheme env clk"
    and "resolve_endpoint ms q = Inr e2" "ep_storage e2 = pool_storage lower' scheme' env' clk'"
    and "ep_mount e1 \<noteq> ep_mount e2"
    and "serves (primary env) (ep_path e1) st data"
    and "\<And>st m. op_stat (primary env) (ep_path e1) st = Inr m \<Longrightarrow> \<not> md_is_dir m"
    and "objects_apart (primary env) (ep_path e1) (primary env') (ep_path e2)"
    and "streaming_op (primary env') (ep_path e2 @ ''.tmp'') (ep_path e2)"
    and "mounted_move_file ms p q (remote_pool st) = Some (r, s')"
    and "(\<exists>i. r = Inr i) \<or> op_read (primary env) (ep_path e1) (pl_primary s') \<noteq> op_read (primary env) (ep_path e1) st"
  shows "op_read (primary env') (ep_path e2) (pl_primary s') = Inr data"
proof -
  let ?a = "pool_storage lower scheme env clk" and ?b = "pool_storage lower' scheme' env' clk'"
  have start: "op_read (primary env) (ep_path e1) (pl_primary (remote_pool st)) = op_read (primary env) (ep_path e1) st" by simp
  have root: "\<not> ep_root e1" "\<not> ep_root e2"
    and run: "run_bind (copy_path_between ?a (ep_path e1) ?b (ep_path e2)) (\<lambda>_.
        run_bind (delete_path_recursive ?a (ep_path e1)) (\<lambda>_. run_of (mounted_stat ms q))) (remote_pool st) = Some (r, s')"
    using assms(1-5,10,11)
    by (auto simp: mounted_move_file_def relocate_def generic_move_or_copy_def split: if_splits)
  obtain r1 w1 where c: "copy_path_between ?a (ep_path e1) ?b (ep_path e2) (remote_pool st) = Some (r1, w1)"
    using run by (cases "copy_path_between ?a (ep_path e1) ?b (ep_path e2) (remote_pool st)") (auto simp: run_bind_def)
  have copied: "still (primary env) (ep_path e1) data st w1 \<and>
      (r1 = Inr () \<longrightarrow> op_read (primary env') (ep_path e2) (pl_primary w1) = Inr data)"
    by (rule file_copied[OF assms(6) _ assms(8,9) c]) (rule assms(7))
  have r1: "r1 = Inr ()"
  proof (cases r1)
    case (Inl x)
    then have "r = Inl x" "s' = w1" using run c by (auto simp: run_bind_def)
    moreover have "op_read (primary env) (ep_path e1) (pl_primary w1) = op_read (primary env) (ep_path e1) st"
      using copied by (auto simp: still_def)
    ultimately show ?thesis using assms(11) by simp
  qed simp
  obtain st1 where w1: "w1 = remote_pool st1" using copied by (auto simp: still_def)
  obtain r2 w2 where d: "delete_path_recursive ?a (ep_path e1) (remote_pool st1) = Some (r2, w2)"
    using run c r1 w1 by (cases "delete_path_recursive ?a (ep_path e1) (remote_pool st1)") (auto simp: run_bind_def)
  have le: "leaves (primary env') {ep_path e2} (op_delete (primary env) (ep_path e1))"
    using assms(8) by (simp add: objects_apart_def)
  have "\<exists>st2. w2 = remote_pool st2 \<and> op_read (primary env') (ep_path e2) st2 = op_read (primary env') (ep_path e2) st1"
    by (rule file_deleted[OF _ le d]) (rule assms(7))
  then obtain st2 where st2: "w2 = remote_pool st2"
      "op_read (primary env') (ep_path e2) st2 = op_read (primary env') (ep_path e2) st1" by blast
  have stat: "snd (mounted_stat ms q w2) = w2"
    using assms(3,4) root
    by (auto simp: mounted_stat_def pool_storage_def Let_def asked_def then_return_def st_bind_def split: sum.split)
  have "s' = w2"
    using run c r1 w1 d stat by (cases r2; cases "mounted_stat ms q w2") (auto simp: run_bind_def run_of_def)
  then show ?thesis using st2 copied r1 w1 by simp
qed

section \<open>Witnesses\<close>

definition mx_mount :: "string \<Rightarrow> string \<Rightarrow> remote_mount" where
  "mx_mount i dir =
     \<lparr>rm_id = i, rm_user = ''u'', rm_name = i, rm_driver = ''s3'', rm_root = ''/'', rm_mount_dir = dir,
      rm_peer_dir = None, rm_sync_mode = 0, rm_interval = 60, rm_timeout = 60, rm_enable = True,
      rm_options_json = ''{}'', rm_last_sync = None, rm_next_sync = None, rm_status = None, rm_error = None,
      rm_created = 0, rm_updated = 0\<rparr>"

text \<open>A store with one directory \<open>/d\<close>, whose listing names \<open>q\<close>.\<close>

definition mx_op :: "string \<Rightarrow> (string \<Rightarrow> string option) operator" where
  "mx_op q = (map_op (\<lambda>_. False))\<lparr>
     op_stat := (\<lambda>p st. if p = ''/d'' then Inr \<lparr>md_is_dir = True, md_length = 0, md_modified = None\<rparr>
                  else op_stat (map_op (\<lambda>_. False)) p st),
     op_list := (\<lambda>r p st. Inr (if p = ''/d/'' then
                  [Inr (q, \<lparr>md_is_dir = (q = ''/d/''), md_length = 1, md_modified = None\<rparr>)] else []))\<rparr>"

definition mx_env :: "string \<Rightarrow> (string \<Rightarrow> string option) pool_env" where
  "mx_env q = px_env\<lparr>pv_wc := (pv_wc px_env)\<lparr>we_op := mx_op q\<rparr>\<rparr>"

abbreviation mx_pool :: "(string \<Rightarrow> string option) pool_env \<Rightarrow> (string \<Rightarrow> string option) pool storage" where
  "mx_pool env \<equiv> pool_storage (\<lambda>s. s) ''s3'' env (0, 0, 0, 0)"

definition mx_mounted ::
  "(string \<Rightarrow> string option) pool_env \<Rightarrow> ((string \<Rightarrow> string option) pool \<times> (string \<Rightarrow> string option) pool) mounted" where
  "mx_mounted env = new_mounted (at_right (mx_pool px_env))
     [\<lparr>mt_model = mx_mount ''a'' ''/m'', mt_storage = at_left (mx_pool env)\<rparr>,
      \<lparr>mt_model = mx_mount ''b'' ''/m/n'', mt_storage = at_left (mx_pool env)\<rparr>]"

lemma mx_env_simps [simp]: "primary (mx_env q) = mx_op q"
  by (simp add: mx_env_def)

lemma mx_resolved:
  "resolve_endpoint (mx_mounted env) ''/m/d'' =
     Inr \<lparr>ep_storage = at_left (mx_pool env), ep_path = ''/d'', ep_mount = Some ''a'', ep_root = False\<rparr>"
  "resolve_endpoint (mx_mounted env) ''/m/f'' =
     Inr \<lparr>ep_storage = at_left (mx_pool env), ep_path = ''/f'', ep_mount = Some ''a'', ep_root = False\<rparr>"
  "resolve_endpoint (mx_mounted env) ''/g'' =
     Inr \<lparr>ep_storage = at_right (mx_pool px_env), ep_path = ''/g'', ep_mount = None, ep_root = False\<rparr>"
  by (simp_all add: resolve_endpoint_def validate_mounted_path_def resolve_runtime_def mx_mounted_def new_mounted_def
      order_desc_def mx_mount_def normalize_logical_path_def normalize_dir_path_def replace_char_def
      trim_end_matches_def remote_part_def strip_prefix_def sublist_Cons_right)

lemma mount_resolution_witness:
  "\<exists>m. resolve_runtime (mx_mounted px_env) ''/m/n/f'' = Some (m, ''/f'') \<and> map_runtime_path m ''/f'' = ''/m/n/f'' \<and>
       length (mount_dir m) = 4"
proof -
  let ?mounts = "[\<lparr>mt_model = mx_mount ''a'' ''/m'', mt_storage = at_left (mx_pool px_env)\<rparr>,
      \<lparr>mt_model = mx_mount ''b'' ''/m/n'', mt_storage = at_left (mx_pool px_env)\<rparr>]"
  have n: "normalize_dir_path ''/m/n/f'' = ''/m/n/f''"
    by (simp add: normalize_logical_path_def normalize_dir_path_def trim_end_matches_def)
  have r: "resolve_runtime (mx_mounted px_env) ''/m/n/f'' = Some (?mounts ! 1, ''/f'')"
    by (simp add: resolve_runtime_def mx_mounted_def new_mounted_def order_desc_def mx_mount_def n normalize_logical_path_def
        remote_part_def strip_prefix_def)
  have "\<not> contains ''/m/n/f'' ''//''" by (simp add: sublist_Cons_right)
  from mount_resolution[OF _ this, of ?mounts "at_right (mx_pool px_env)", THEN conjunct1] r n show ?thesis
    by (simp add: mx_mounted_def mx_mount_def mount_dir_ok_def)
qed

lemma mx_keeps_down: "keeps_down (primary (mx_env ''/d/f'')) 2 st"
proof -
  have "path_depth p = 1" if "list_path p = ''/d/''" for p
  proof -
    have "p = ''/d'' \<or> p = ''/d/''"
      using that by (auto simp: list_path_def append_eq_Cons_conv split: if_splits)
    then show ?thesis by (auto simp: path_depth_def split_on.simps)
  qed
  moreover have "path_depth ''/d/f'' = 2" by (simp add: path_depth_def split_on.simps)
  moreover have "normalize_entry_path ''/d/f'' = ''/d/f''" by (simp add: normalize_entry_path_def strip_suffix_def suffix_def)
  ultimately show ?thesis
    by (auto simp: keeps_down_def lists_down_def mx_op_def split: if_splits)
qed

lemma mount_transfer_returns_witness:
  "\<exists>r w. mounted_move_file (mx_mounted (mx_env ''/d/f'')) ''/m/d'' ''/g'' (remote_pool [''/d/f'' \<mapsto> ''x''], px_pool) = Some (r, w)"
proof -
  have "remote_good (mx_env ''/d/f'') 2 (fst (remote_pool [''/d/f'' \<mapsto> ''x''], px_pool))"
    using mx_keeps_down by (auto simp: remote_good_def)
  from mount_transfer_returns[OF pool_copy.tree_copy_axioms this mx_resolved(1) _ mx_resolved(3)] show ?thesis by auto
qed

lemma mx_lists_first: "lists_first (primary (mx_env ''/d/'')) st ''/d'' ''/d''"
  by (auto simp: lists_first_def mx_op_def list_path_def normalize_entry_path_def strip_suffix_def suffix_def)

definition mx_making :: "(string \<Rightarrow> string option) pool storage" where
  "mx_making = (mx_pool px_env)\<lparr>sg_create_dir_all := (\<lambda>p w. (Inr (to_vfs_file_info p
     \<lparr>md_is_dir = True, md_length = 0, md_modified = None\<rparr>), w))\<rparr>"

lemma self_listing_never_returns_witness:
  "delete_path_recursive (mx_pool (mx_env ''/d/'')) ''/d'' (remote_pool [''/d/f'' \<mapsto> ''x'']) = None \<and>
   copy_path_between (mx_pool (mx_env ''/d/'')) ''/d'' mx_making ''/c'' (remote_pool [''/d/f'' \<mapsto> ''x'']) = None"
proof -
  have "\<exists>i st'. sg_create_dir_all mx_making path (remote_pool st) = (Inr i, remote_pool st') \<and> True" for path st
    by (auto simp: mx_making_def)
  from self_listing_never_returns[of "\<lambda>_. True", OF _ _ this] mx_lists_first show ?thesis by blast
qed

text \<open>Two mounts of one remote.\<close>

definition mx_twice :: "(string \<Rightarrow> string option) pool mounted" where
  "mx_twice = new_mounted (mx_pool px_env)
     [\<lparr>mt_model = mx_mount ''a'' ''/m'', mt_storage = mx_pool px_env\<rparr>,
      \<lparr>mt_model = mx_mount ''b'' ''/k'', mt_storage = mx_pool px_env\<rparr>]"

lemma mx_twice_resolved:
  "resolve_endpoint mx_twice ''/m/f'' =
     Inr \<lparr>ep_storage = mx_pool px_env, ep_path = ''/f'', ep_mount = Some ''a'', ep_root = False\<rparr>"
  "resolve_endpoint mx_twice ''/k/f'' =
     Inr \<lparr>ep_storage = mx_pool px_env, ep_path = ''/f'', ep_mount = Some ''b'', ep_root = False\<rparr>"
  "resolve_endpoint mx_twice ''/k/g'' =
     Inr \<lparr>ep_storage = mx_pool px_env, ep_path = ''/g'', ep_mount = Some ''b'', ep_root = False\<rparr>"
  by (simp_all add: resolve_endpoint_def validate_mounted_path_def resolve_runtime_def mx_twice_def new_mounted_def
      order_desc_def mx_mount_def normalize_logical_path_def normalize_dir_path_def replace_char_def
      trim_end_matches_def remote_part_def strip_prefix_def sublist_Cons_right)

lemma mx_calls:
  "sg_stat (mx_pool env) p = asked (pool_stat env p)" "sg_read_stream (mx_pool env) p = pool_read_stream env 0 p"
  "sg_write_stream (mx_pool env) p = pool_write_stream env p" "sg_delete (mx_pool env) p = pool_delete env p"
  by (simp_all add: pool_storage_def Let_def)

lemmas mx_run = mx_calls Let_def asked_def then_return_def st_bind_def pool_stat_def pool_pending_stat_def
  stat_with_operator_def px_env_simps map_op_def to_vfs_file_info_def on_primary_def

lemma mx_streamed:
  "\<exists>i. pool_write_stream px_env (slash # [c]) [Inr ''xy''] (remote_pool st) = (Inr i, remote_pool (st([slash, c, dot, CHR ''t'', CHR ''m'', CHR ''p''] := None, [slash, c] \<mapsto> ''xy'')))"
  by (simp add: pool_write_stream_def then_stat_def mx_run)

lemma mx_read:
  "st p = Some ''xy'' \<Longrightarrow> \<exists>i. pool_read_stream px_env now p (remote_pool st) = (Inr ([Inr ''xy''], i), remote_pool st)"
  by (simp add: pool_read_stream_def read_stream_range_def remote_uncached stat_with_operator_def px_env_simps map_op_def
      clamp_read_range_def to_vfs_file_info_def)

lemma mx_copied:
  assumes "st ''/f'' = Some ''xy''"
  shows "copy_path_between (mx_pool px_env) ''/f'' (mx_pool px_env) [slash, c] (remote_pool st) =
    Some (Inr (), remote_pool (st([slash, c, dot, CHR ''t'', CHR ''m'', CHR ''p''] := None, [slash, c] \<mapsto> ''xy'')))"
proof -
  obtain i where i: "pool_read_stream px_env 0 ''/f'' (remote_pool st) = (Inr ([Inr ''xy''], i), remote_pool st)"
    using mx_read[of st, OF assms] by blast
  obtain j where j: "pool_write_stream px_env [slash, c] [Inr ''xy''] (remote_pool st) =
      (Inr j, remote_pool (st([slash, c, dot, CHR ''t'', CHR ''m'', CHR ''p''] := None, [slash, c] \<mapsto> ''xy'')))"
    using mx_streamed by blast
  have dir: "ensure_parent_dir (mx_pool px_env) [slash, c] (remote_pool st) = (Inr (), remote_pool st)"
    by (simp add: ensure_parent_dir_def ensure_directory_def parent_or_root_def path_parent_def path_trim_def Let_def split_on.simps)
  show ?thesis
    unfolding copy_path_between_def using assms
    by (subst work_through.simps) (simp add: copy_step_def copy_file_step_def dir i j mx_run work_through.simps[of _ "[]"])
qed

lemma mx_removed:
  "st ''/f'' = Some ''xy'' \<Longrightarrow>
   delete_path_recursive (mx_pool px_env) ''/f'' (remote_pool st) = Some (Inr (), remote_pool (st(''/f'' := None)))"
  unfolding delete_path_recursive_def
  by (subst work_through.simps)
    (simp add: delete_step_def work_through.simps[of _ "[Remove ''/f'']"] work_through.simps[of _ "[]"] pool_delete_def mx_run)

text \<open>The move from one mount to the other, when both name the same object: the file is gone.\<close>

lemma same_object_move_destroys:
  "\<exists>err. mounted_move_file mx_twice ''/m/f'' ''/k/f'' (remote_pool [''/f'' \<mapsto> ''xy'']) = Some (Inl err, remote_pool Map.empty)"
proof -
  let ?st = "[''/f'' \<mapsto> ''xy''] :: string \<Rightarrow> string option"
  have "?st(''/f.tmp'' := None, ''/f'' \<mapsto> ''xy'', ''/f'' := None) = Map.empty" by auto
  then have run: "copy_path_between (mx_pool px_env) ''/f'' (mx_pool px_env) ''/f'' (remote_pool ?st) = Some (Inr (), remote_pool ?st)"
    "delete_path_recursive (mx_pool px_env) ''/f'' (remote_pool ?st) = Some (Inr (), remote_pool Map.empty)"
    using mx_copied[of ?st "CHR ''f''"] mx_removed[of ?st] by simp_all
  have "\<exists>err. mounted_stat mx_twice ''/k/f'' (remote_pool Map.empty) = (Inl err, remote_pool Map.empty)"
    by (simp add: mounted_stat_def mx_twice_resolved mx_run fallback_def)
  then show ?thesis
    by (simp add: mounted_move_file_def relocate_def generic_move_or_copy_def mx_twice_resolved run_bind_def run_of_def run)
qed

lemma cross_mount_move_safe_witness:
  "\<exists>i s'. mounted_move_file mx_twice ''/m/f'' ''/k/g'' (remote_pool [''/f'' \<mapsto> ''xy'', ''/g'' \<mapsto> ''old'']) = Some (Inr i, s') \<and>
     op_read (primary px_env) ''/g'' (pl_primary s') = Inr ''xy''"
proof -
  let ?st = "[''/f'' \<mapsto> ''xy'', ''/g'' \<mapsto> ''old''] :: string \<Rightarrow> string option"
  let ?fin = "[''/g'' \<mapsto> ''xy''] :: string \<Rightarrow> string option"
  obtain i where stat: "mounted_stat mx_twice ''/k/g'' (remote_pool ?fin) = (Inr i, remote_pool ?fin)"
    by (simp add: mounted_stat_def mx_twice_resolved mx_run)
  have "?st(''/g.tmp'' := None, ''/g'' \<mapsto> ''xy'', ''/f'' := None) = ?fin" by auto
  then have run: "mounted_move_file mx_twice ''/m/f'' ''/k/g'' (remote_pool ?st) = Some (Inr i, remote_pool ?fin)"
    using mx_copied[of ?st "CHR ''g''"] mx_removed[of "?st(''/g.tmp'' := None, ''/g'' \<mapsto> ''xy'')"] stat
    by (simp add: mounted_move_file_def relocate_def generic_move_or_copy_def mx_twice_resolved run_bind_def run_of_def)
  have sv: "serves (primary px_env) ''/f'' ?st ''xy''" unfolding px_env_simps by (rule serves_map_op) simp_all
  have ap: "objects_apart (primary px_env) ''/f'' (primary px_env) ''/g''"
    by (auto simp: objects_apart_def untouched_def leaves_def px_env_simps map_op_def split: option.split)
  have str: "streaming_op (primary px_env) (''/g'' @ ''.tmp'') ''/g''"
    unfolding px_env_simps by (rule streaming_map_op) simp
  have leaf: "op_stat (primary px_env) ''/f'' st = Inr m \<Longrightarrow> \<not> md_is_dir m" for st m
    by (auto simp: px_env_simps map_op_def split: option.splits)
  have "op_read (primary px_env) ''/g'' (pl_primary (remote_pool ?fin)) = Inr ''xy''"
    using cross_mount_move_safe[OF mx_twice_resolved(1) endpoint.select_convs(1) mx_twice_resolved(3) endpoint.select_convs(1)
        _ _ _ _ _ run, of "''xy''"] sv ap str leaf by simp
  then show ?thesis using run by blast
qed

end
