(* ===== verification/Mount_Sync.thy ===== *)
theory Mount_Sync
  imports Mounted
begin

text \<open>
  The synchronisation of a mount with a directory of its user (\<open>vfs/mounted.rs\<close>): both trees are listed, what
  differs is copied, and a mirror deletes what its source does not have. A tree is the list of its relative
  paths with their infos; the texts of wrapped errors leave out the dump of both trees. \<open>late\<close> is the world the
  timer of a run left behind when it fired first.
\<close>

datatype ordering = Less | Equal | Greater

type_synonym tree = "(string \<times> vfs_file_info) list"

definition relative_path :: "string \<Rightarrow> string \<Rightarrow> string" where
  "relative_path root path =
     (if root = ''/'' then trim_start_matches slash path
      else trim_start_matches slash (case strip_prefix root path of Some rest \<Rightarrow> rest | None \<Rightarrow> path))"

definition join_root :: "string \<Rightarrow> string \<Rightarrow> string" where
  "join_root root child =
     (if child = [] then root
      else if root = ''/'' then ''/'' @ trim_start_matches slash child
      else trim_end_matches slash root @ ''/'' @ trim_start_matches slash child)"

definition compare_modified :: "int option \<Rightarrow> int option \<Rightarrow> ordering" where
  "compare_modified l r =
     (case (l, r) of
        (Some a, Some b) \<Rightarrow> (if a < b then Less else if a = b then Equal else Greater)
      | (Some _, None) \<Rightarrow> Greater
      | (None, Some _) \<Rightarrow> Less
      | (None, None) \<Rightarrow> Equal)"

section \<open>Trees\<close>

definition tree_of :: "string \<Rightarrow> vfs_file_info list \<Rightarrow> tree" where
  "tree_of root es = fold (\<lambda>e m. al_put (relative_path root (fi_path e)) e m) es []"

definition collect_tree :: "'w storage \<Rightarrow> string \<Rightarrow> ('w, vfs_error, tree) call" where
  "collect_tree s root =
     (let listed = then_return (sg_list_recursive s root) (tree_of root) in
      if root \<noteq> ''/'' then st_bind (sg_exists s root) (\<lambda>there. if there then listed else (\<lambda>w. (Inr [], w))) else listed)"

definition copy_file_between :: "'w storage \<Rightarrow> string \<Rightarrow> 'w storage \<Rightarrow> string \<Rightarrow> ('w, vfs_error, unit) call" where
  "copy_file_between a src b dst =
     st_bind (ensure_directory b (parent_or_root dst)) (\<lambda>_.
     st_bind (sg_read_stream a src) (\<lambda>(stream, _).
     then_return (sg_write_stream b dst stream) (\<lambda>_. ())))"

definition map_error :: "(vfs_error \<Rightarrow> vfs_error) \<Rightarrow> ('w, vfs_error, 'a) call \<Rightarrow> ('w, vfs_error, 'a) call" where
  "map_error f m w = (case m w of (Inl e, w1) \<Rightarrow> (Inl (f e), w1) | (Inr x, w1) \<Rightarrow> (Inr x, w1))"

definition run_map_error :: "(vfs_error \<Rightarrow> vfs_error) \<Rightarrow> ('w, 'a) run \<Rightarrow> ('w, 'a) run" where
  "run_map_error f m w = map_option (\<lambda>(r, w1). (map_sum f id r, w1)) (m w)"

definition failed :: "string \<Rightarrow> vfs_error \<Rightarrow> vfs_error" where
  "failed what err = Internal (what @ '': '' @ vfs_text err)"

fun each_call :: "('t \<Rightarrow> ('w, vfs_error, unit) call) \<Rightarrow> 't list \<Rightarrow> ('w, vfs_error, unit) call" where
  "each_call f [] w = (Inr (), w)"
| "each_call f (t # ts) w = st_bind (f t) (\<lambda>_. each_call f ts) w"

fun each_run :: "('t \<Rightarrow> ('w, unit) run) \<Rightarrow> 't list \<Rightarrow> ('w, unit) run" where
  "each_run f [] w = Some (Inr (), w)"
| "each_run f (t # ts) w = run_bind (f t) (\<lambda>_. each_run f ts) w"

section \<open>One direction\<close>

definition extra_paths :: "string \<Rightarrow> tree \<Rightarrow> tree \<Rightarrow> string list" where
  "extra_paths dst_root source_map dst_map =
     (let root = trim_end_matches slash dst_root;
          extra = (\<lambda>key.
            if key = [] \<or> key = ''.'' \<or> key = ''./'' \<or> map_of source_map key \<noteq> None then None
            else (let joined = join_root dst_root key; j = trim_end_matches slash joined in
                  if j = root \<or> j = root @ ''/.'' \<or> path_depth j \<le> path_depth root then None else Some joined)) in
      order_desc path_depth (List.map_filter extra (map fst dst_map)))"

definition delete_extra_paths :: "'w storage \<Rightarrow> string \<Rightarrow> tree \<Rightarrow> tree \<Rightarrow> ('w, unit) run" where
  "delete_extra_paths s dst_root source_map dst_map =
     each_run (\<lambda>p. run_map_error (failed (''Failed to delete mirror extra path '' @ quoted p)) (delete_path_recursive s p))
       (extra_paths dst_root source_map dst_map)"

definition should_copy :: "tree \<Rightarrow> string \<times> vfs_file_info \<Rightarrow> bool" where
  "should_copy dst_map x =
     (case map_of dst_map (fst x) of
        None \<Rightarrow> True
      | Some i \<Rightarrow> fi_is_dir i \<or> compare_modified (fi_modified (snd x)) (fi_modified i) = Greater \<or> fi_size (snd x) \<noteq> fi_size i)"

definition sync_copies :: "'w storage \<Rightarrow> 'w storage \<Rightarrow> string \<Rightarrow> tree \<Rightarrow> tree \<Rightarrow> ('w, vfs_error, unit) call" where
  "sync_copies a b dst_root source_map dst_map =
     st_bind
       (each_call
         (\<lambda>rel. map_error (failed ''Mirror sync create_dir failed'')
           (then_return (sg_create_dir_all b (join_root dst_root rel)) (\<lambda>_. ())))
         (order_asc path_depth (map fst (filter (\<lambda>x. fi_is_dir (snd x)) source_map))))
       (\<lambda>_. each_call
         (\<lambda>x. map_error (failed ''Mirror sync copy_file failed'')
           (copy_file_between a (fi_path (snd x)) b (join_root dst_root (fst x))))
         (filter (should_copy dst_map)
           (order_asc (\<lambda>x. path_depth (fst x)) (filter (\<lambda>x. \<not> fi_is_dir (snd x)) source_map))))"

definition source_there :: "'w storage \<Rightarrow> string \<Rightarrow> ('w, vfs_error, unit) call" where
  "source_there a src_root =
     (if src_root = ''/'' then (\<lambda>w. (Inr (), w))
      else st_bind (sg_exists a src_root) (\<lambda>there w.
        if there then (Inr (), w)
        else (Inl (NotFound (''Source directory '' @ quoted src_root @ '' does not exist'')), w)))"

definition sync_unidirectional ::
  "'w storage \<Rightarrow> string \<Rightarrow> 'w storage \<Rightarrow> string \<Rightarrow> bool \<Rightarrow> ('w, unit) run" where
  "sync_unidirectional a src_root b dst_root delete_extras =
     run_bind
       (run_of
         (st_bind (source_there a src_root) (\<lambda>_.
          st_bind (ensure_directory b dst_root) (\<lambda>_.
          st_bind (collect_tree a src_root) (\<lambda>source_map.
          st_bind (collect_tree b dst_root) (\<lambda>dst_map.
          then_return (sync_copies a b dst_root source_map dst_map) (\<lambda>_. (source_map, dst_map))))))))
       (\<lambda>(source_map, dst_map).
         if delete_extras then
           run_map_error (failed ''Mirror sync delete_extras failed'') (delete_extra_paths b dst_root source_map dst_map)
         else run_of (\<lambda>w. (Inr (), w)))"

section \<open>Both directions\<close>

definition sync_pair ::
  "'w storage \<Rightarrow> string \<Rightarrow> 'w storage \<Rightarrow> string \<Rightarrow> tree \<Rightarrow> tree \<Rightarrow> string \<Rightarrow> ('w, vfs_error, unit) call" where
  "sync_pair l lroot r rroot lmap rmap rel =
     (let to_right = (\<lambda>i. copy_file_between l (fi_path i) r (join_root rroot rel));
          to_left = (\<lambda>i. copy_file_between r (fi_path i) l (join_root lroot rel)) in
      case (map_of lmap rel, map_of rmap rel) of
        (Some i, None) \<Rightarrow>
          (if fi_is_dir i then then_return (sg_create_dir_all r (join_root rroot rel)) (\<lambda>_. ()) else to_right i)
      | (None, Some i) \<Rightarrow>
          (if fi_is_dir i then then_return (sg_create_dir_all l (join_root lroot rel)) (\<lambda>_. ()) else to_left i)
      | (Some i, Some j) \<Rightarrow>
          (if fi_is_dir i \<and> fi_is_dir j then (\<lambda>w. (Inr (), w))
           else if fi_is_dir i \<or> fi_is_dir j then
             refused (Internal (''Path '' @ quoted rel @ '' conflicts between file and directory across sync targets''))
           else
             (case compare_modified (fi_modified i) (fi_modified j) of
                Greater \<Rightarrow> to_right i
              | Less \<Rightarrow> to_left j
              | Equal \<Rightarrow> if fi_size i \<noteq> fi_size j then to_right i else (\<lambda>w. (Inr (), w))))
      | (None, None) \<Rightarrow> (\<lambda>w. (Inr (), w)))"

definition sync_bidirectional_keep ::
  "'w storage \<Rightarrow> string \<Rightarrow> 'w storage \<Rightarrow> string \<Rightarrow> ('w, vfs_error, unit) call" where
  "sync_bidirectional_keep l lroot r rroot =
     st_bind (sg_exists l lroot) (\<lambda>lthere.
     st_bind (sg_exists r rroot) (\<lambda>rthere.
     st_bind (if lthere then ensure_directory r rroot else (\<lambda>w. (Inr (), w))) (\<lambda>_.
     st_bind (if rthere then ensure_directory l lroot else (\<lambda>w. (Inr (), w))) (\<lambda>_.
     st_bind (collect_tree l lroot) (\<lambda>lmap.
     st_bind (collect_tree r rroot) (\<lambda>rmap.
       each_call (sync_pair l lroot r rroot lmap rmap) (sort (remdups (map fst lmap @ map fst rmap)))))))))"

section \<open>A run of the schedule\<close>

definition execute_mount_sync ::
  "'w option \<Rightarrow> int \<Rightarrow> mount_snapshot \<Rightarrow> 'w storage \<Rightarrow> 'w storage \<Rightarrow> int \<Rightarrow> int \<Rightarrow> ('w, int option) run" where
  "execute_mount_sync late now mount local remote interval timeout_secs w =
     (case rm_peer_dir (ms_model mount) of
        None \<Rightarrow> Some (Inl (Internal ''Mount sync peer directory is missing''), w)
      | Some peer \<Rightarrow>
          (case sync_mode_from_i16 (rm_sync_mode (ms_model mount)) of
             None \<Rightarrow> Some (Inl (Internal ''Unsupported sync mode''), w)
           | Some mode \<Rightarrow>
               (case late of
                  Some w1 \<Rightarrow> Some (Inl (Internal ''Mount sync timed out''), w1)
                | None \<Rightarrow>
                    run_bind
                      (case mode of
                         PeerToMountKeep \<Rightarrow> sync_unidirectional local peer remote ''/'' False
                       | PeerToMountMirror \<Rightarrow> sync_unidirectional local peer remote ''/'' True
                       | MountToPeerKeep \<Rightarrow> sync_unidirectional remote ''/'' local peer False
                       | MountToPeerMirror \<Rightarrow> sync_unidirectional remote ''/'' local peer True
                       | BidirectionalKeep \<Rightarrow> run_of (sync_bidirectional_keep remote ''/'' local peer))
                      (\<lambda>_. run_of (\<lambda>w. (Inr (Some (now + 60 * max interval 1)), w))) w)))"

text \<open>
  \<open>make_engine\<close> is the engine of the user and \<open>build\<close> the storage of a mount, which both may refuse. The three
  times are the clock at the start, when the next run is scheduled, and at the end.
\<close>

definition on_mounts :: "'a mounts_call \<Rightarrow> (remote_mount list \<times> 'w, vfs_error, 'a) call" where
  "on_mounts m s =
     (case m (fst s) of
        (Inl err, t) \<Rightarrow> (Inl (Internal (db_text err)), t, snd s)
      | (Inr x, t) \<Rightarrow> (Inr x, t, snd s))"

definition ask_mount :: "mount_json \<Rightarrow> bool \<Rightarrow> string \<Rightarrow> string \<Rightarrow> string \<Rightarrow> (remote_mount list \<times> 'w, vfs_error, mount_snapshot) call" where
  "ask_mount js up gone u mount_id s =
     (case get_user_mount js up u mount_id (fst s) of
        Inl err \<Rightarrow> (Inl (Internal (db_text err)), s)
      | Inr None \<Rightarrow> (Inl (NotFound (gone @ mount_id)), s)
      | Inr (Some m) \<Rightarrow> (Inr m, s))"

definition sync_remote_mount_once ::
  "mount_json \<Rightarrow> bool \<Rightarrow> int \<times> int \<times> int \<Rightarrow> 'w option \<Rightarrow> ('w, vfs_error, 'w storage) call \<Rightarrow>
   (mount_snapshot \<Rightarrow> vfs_error + 'w storage) \<Rightarrow> string \<Rightarrow> string \<Rightarrow> (remote_mount list \<times> 'w, mount_snapshot) run" where
  "sync_remote_mount_once js up clk late make_engine build u mount_id =
     (case clk of (t1, t2, t3) \<Rightarrow>
      run_bind (run_of (ask_mount js up ''Mount not found: '' u mount_id)) (\<lambda>mount.
      run_bind (run_of (on_mounts (mark_sync_running up t1 mount_id))) (\<lambda>_.
      run_bind (run_of (on_part snd (\<lambda>w s. (fst s, w)) make_engine)) (\<lambda>local.
      run_bind (run_of (asked (\<lambda>_. build mount))) (\<lambda>remote s.
        (case run_part snd (\<lambda>w s. (fst s, w))
               (execute_mount_sync late t2 mount local remote (rm_interval (ms_model mount)) (rm_timeout (ms_model mount))) s of
           None \<Rightarrow> None
         | Some (Inr next_sync_at, s1) \<Rightarrow>
             run_bind (run_of (on_mounts (mark_sync_finished up t3 mount_id ''success'' None next_sync_at)))
               (\<lambda>_. run_of (ask_mount js up ''Mount not found after sync: '' u mount_id)) s1
         | Some (Inl err, s1) \<Rightarrow>
             run_bind (run_of (on_mounts (mark_sync_finished up t3 mount_id ''failed'' (Some (vfs_text err))
                 (Some (t2 + 60 * max (rm_interval (ms_model mount)) 1)))))
               (\<lambda>_. run_of (refused err)) s1))))))"

end
