(* ===== verification/Mount_Sync_Claims.thy ===== *)
theory Mount_Sync_Claims
  imports Mount_Sync
begin

text \<open>
  What the synchronisation of a mount guarantees: which paths a mirror deletes, and what the table says of a run.
\<close>

section \<open>The paths a mirror deletes\<close>

text \<open>Roots and relative paths as listings give them: without slashes at the ends.\<close>

definition plain_root :: "string \<Rightarrow> bool" where
  "plain_root r \<longleftrightarrow> r = ''/'' \<or> (r \<noteq> [] \<and> last r \<noteq> slash)"

definition plain_key :: "string \<Rightarrow> bool" where
  "plain_key k \<longleftrightarrow> k \<noteq> [] \<and> hd k \<noteq> slash \<and> last k \<noteq> slash \<and> k \<noteq> ''.''"

text \<open>Every directory above a listed path is listed itself.\<close>

definition lists_parents :: "tree \<Rightarrow> bool" where
  "lists_parents m \<longleftrightarrow> (\<forall>k x. k \<noteq> [] \<and> map_of m (k @ slash # x) \<noteq> None \<longrightarrow> map_of m k \<noteq> None)"

lemma path_depth_append: "path_depth (a @ slash # b) = path_depth a + path_depth b"
  by (simp add: path_depth_def split_on_append)

lemma path_depth_pos: "plain_key k \<Longrightarrow> 0 < path_depth k"
  by (cases k) (auto simp: path_depth_def plain_key_def split: list.split)

lemma joined_key:
  assumes "plain_root root" "plain_key k"
  shows "join_root root k = trim_end_matches slash root @ slash # k"
  using assms
  by (auto simp: plain_root_def plain_key_def join_root_def trim_end_matches_def trim_start_matches_id trim_end_matches_id)

lemma joined_inj: "plain_root root \<Longrightarrow> plain_key k \<Longrightarrow> plain_key k' \<Longrightarrow> join_root root k = join_root root k' \<longleftrightarrow> k = k'"
  by (simp add: joined_key)

lemma set_map_filter: "set (List.map_filter f xs) = {y. \<exists>x \<in> set xs. f x = Some y}"
  by (induction xs) (auto simp: List.map_filter_simps split: option.splits)

lemma extra_set:
  assumes "plain_root root" "\<forall>x \<in> set dst_map. plain_key (fst x)"
  shows "set (extra_paths root source_map dst_map) =
    {join_root root k |k. k \<in> fst ` set dst_map \<and> map_of source_map k = None}"
proof -
  let ?t = "trim_end_matches slash root"
  have kept: "\<not> (trim_end_matches slash (join_root root k) = ?t \<or> trim_end_matches slash (join_root root k) = ?t @ ''/.'' \<or>
      path_depth (trim_end_matches slash (join_root root k)) \<le> path_depth ?t)" if "plain_key k" for k
  proof -
    have "trim_end_matches slash (?t @ slash # k) = ?t @ slash # k"
      using that by (intro trim_end_matches_id) (simp add: plain_key_def)
    moreover have "0 < path_depth k" by (rule path_depth_pos[OF that])
    ultimately show ?thesis
      using that by (simp add: joined_key[OF assms(1) that] path_depth_append) (simp add: plain_key_def)
  qed
  define extra where "extra = (\<lambda>key. if key = [] \<or> key = ''.'' \<or> key = ''./'' \<or> map_of source_map key \<noteq> None then None
      else (let joined = join_root root key; j = trim_end_matches slash joined in
            if j = ?t \<or> j = ?t @ ''/.'' \<or> path_depth j \<le> path_depth ?t then None else Some joined))"
  have one: "extra k = (if map_of source_map k = None then Some (join_root root k) else None)" if "plain_key k" for k
    using kept[OF that] that by (auto simp: extra_def plain_key_def Let_def)
  have "extra_paths root source_map dst_map = order_desc path_depth (List.map_filter extra (map fst dst_map))"
    by (simp add: extra_paths_def extra_def Let_def)
  then have "set (extra_paths root source_map dst_map) = {p. \<exists>k \<in> fst ` set dst_map. extra k = Some p}"
    by (simp add: order_desc_def set_map_filter)
  also have "\<dots> = {p. \<exists>k \<in> fst ` set dst_map. (if map_of source_map k = None then Some (join_root root k) else None) = Some p}"
    using one assms(2) by (intro Collect_cong bex_cong refl) fastforce
  also have "\<dots> = {join_root root k |k. k \<in> fst ` set dst_map \<and> map_of source_map k = None}"
    by (auto split: if_splits)
  finally show ?thesis .
qed

text \<open>
  C14: Which paths a mirror deletes. They are the paths of the destination that the source does not list, deepest
  first, and below the destination directory. When the source lists the directories above its files, none of them
  contains anything the source has; when it does not, as an object store that keeps no directory entries, the
  directory of a mirrored file is among them and goes with the file that was just copied.
\<close>

theorem mirror_extras_exact:
  assumes "plain_root root" and "\<forall>x \<in> set source_map. plain_key (fst x)" and "\<forall>x \<in> set dst_map. plain_key (fst x)"
  shows "set (extra_paths root source_map dst_map) =
           {join_root root k |k. k \<in> fst ` set dst_map \<and> map_of source_map k = None} \<and>
         sorted_wrt (\<lambda>p q. path_depth q \<le> path_depth p) (extra_paths root source_map dst_map) \<and>
         (lists_parents source_map \<longrightarrow>
            (\<forall>rel p. map_of source_map rel \<noteq> None \<and> p \<in> set (extra_paths root source_map dst_map) \<longrightarrow>
               \<not> is_path_within (join_root root rel) p))"
proof (intro conjI impI allI notI)
  show "set (extra_paths root source_map dst_map) =
      {join_root root k |k. k \<in> fst ` set dst_map \<and> map_of source_map k = None}"
    by (rule extra_set[OF assms(1,3)])
  show "sorted_wrt (\<lambda>p q. path_depth q \<le> path_depth p) (extra_paths root source_map dst_map)"
    using sorted_sort_key[of path_depth]
    by (simp add: extra_paths_def Let_def order_desc_def sorted_wrt_rev sorted_map)
next
  fix rel p
  assume up: "lists_parents source_map" and w: "is_path_within (join_root root rel) p"
    and a: "map_of source_map rel \<noteq> None \<and> p \<in> set (extra_paths root source_map dst_map)"
  have rel: "plain_key rel" using a assms(2) by (auto dest!: map_of_SomeD)
  from a obtain k where k: "p = join_root root k" "plain_key k" "map_of source_map k = None"
    using extra_set[OF assms(1,3)] assms(3) by auto
  have "p \<noteq> ''/''" using k(1,2) joined_key[OF assms(1) k(2)] by (auto simp: plain_key_def append_eq_Cons_conv)
  moreover have "join_root root rel \<noteq> p" using k a joined_inj[OF assms(1) rel k(2)] by auto
  ultimately obtain rest where "join_root root rel = p @ slash # rest"
    using w by (auto simp: is_path_within_def strip_prefix_Some prefix_def split: option.splits)
  then have "rel = k @ slash # rest" using k(1) joined_key[OF assms(1)] rel k(2) by simp
  then have "map_of source_map k \<noteq> None"
    using up a k(2) unfolding lists_parents_def plain_key_def by blast
  then show False using k(3) by contradiction
qed

section \<open>What the table says of a run\<close>

lemma mount_row_map:
  "(\<And>q. rm_id (f q) = rm_id q \<and> rm_user (f q) = rm_user q) \<Longrightarrow> mount_row u i (map f t) = map_option f (mount_row u i t)"
  by (induction t) (auto simp: mount_row_def)

lemma others_same: "filter (\<lambda>q. rm_id q \<noteq> i) (map (\<lambda>q. if rm_id q = i then f q else q) t) = filter (\<lambda>q. rm_id q \<noteq> i) t"
  if "\<And>q. rm_id (f q) = rm_id q"
  by (induction t) (auto simp: that)

abbreviation running :: "int \<Rightarrow> remote_mount \<Rightarrow> remote_mount" where
  "running now m \<equiv> m\<lparr>rm_status := Some ''running'', rm_error := None, rm_updated := now\<rparr>"

abbreviation finished :: "int \<Rightarrow> string \<Rightarrow> string option \<Rightarrow> int option \<Rightarrow> remote_mount \<Rightarrow> remote_mount" where
  "finished now status error next_sync m \<equiv> m\<lparr>rm_last_sync := Some now, rm_status := Some status, rm_error := error,
     rm_next_sync := next_sync, rm_updated := now\<rparr>"

definition on_row :: "string \<Rightarrow> (remote_mount \<Rightarrow> remote_mount) \<Rightarrow> remote_mount list \<Rightarrow> remote_mount list" where
  "on_row i f t = map (\<lambda>q. if rm_id q = i then f q else q) t"

lemma on_row_row:
  "(\<And>q. rm_id (f q) = rm_id q \<and> rm_user (f q) = rm_user q) \<Longrightarrow> mount_row u i t = Some m \<Longrightarrow> mount_row u i (on_row i f t) = Some (f m)"
  unfolding on_row_def by (subst mount_row_map) (auto dest: mount_row_Some)

lemma on_row_rest: "(\<And>q. rm_id (f q) = rm_id q) \<Longrightarrow> filter (\<lambda>q. rm_id q \<noteq> i) (on_row i f t) = filter (\<lambda>q. rm_id q \<noteq> i) t"
  unfolding on_row_def by (rule others_same)

lemma marks:
  "mark_sync_running True now i t = (Inr (), on_row i (running now) t)"
  "mark_sync_finished True now i s e n t = (Inr (), on_row i (finished now s e n) t)"
  by (simp_all add: mark_sync_running_def mark_sync_finished_def on_row_def)

text \<open>
  C15: What the table says after a run of the schedule. The other mounts are untouched. The row of the mount says
  success when the run returned the mount and failed when the transfer returned an error; but when the engine
  of the user or the storage of the mount cannot be built, the error is returned and the row goes on saying
  that the run is running.
\<close>

theorem sync_run_recorded:
  assumes "mount_row u i t = Some m"
    and "sync_remote_mount_once js True (t1, t2, t3) late make_engine build u i (t, w) = Some (r, (t', w'))"
  shows "filter (\<lambda>q. rm_id q \<noteq> i) t' = filter (\<lambda>q. rm_id q \<noteq> i) t \<and>
    map_option rm_status (mount_row u i t') = Some (Some
      (if (\<exists>e. fst (make_engine w) = Inl e) \<or> (\<exists>e. build (snapshot_of_mount js m) = Inl e) then ''running''
       else if \<exists>x. r = Inr x then ''success'' else ''failed''))"
proof -
  let ?t1 = "on_row i (running t1) t" and ?mount = "snapshot_of_mount js m"
  have row1: "mount_row u i ?t1 = Some (running t1 m)" by (rule on_row_row[OF _ assms(1)]) simp
  have rest1: "filter (\<lambda>q. rm_id q \<noteq> i) ?t1 = filter (\<lambda>q. rm_id q \<noteq> i) t" by (rule on_row_rest) simp
  have row2: "mount_row u i (on_row i (finished now s e n) ?t1) = Some (finished now s e n (running t1 m))" for now s e n
    by (rule on_row_row[OF _ row1]) simp
  have rest2: "filter (\<lambda>q. rm_id q \<noteq> i) (on_row i (finished now s e n) ?t1) = filter (\<lambda>q. rm_id q \<noteq> i) t" for now s e n
    using rest1 by (subst on_row_rest) simp_all
  obtain e1 w1 where eng: "make_engine w = (e1, w1)" by fastforce
  note run = assms(2)[unfolded sync_remote_mount_once_def, simplified]
  show ?thesis
  proof (cases "(\<exists>e. e1 = Inl e) \<or> (\<exists>e. build ?mount = Inl e)")
    case True
    then have "t' = ?t1"
      using run eng assms(1)
      by (auto simp: run_bind_def run_of_def ask_mount_def get_user_mount_def on_mounts_def marks on_part_def asked_def
          split: sum.splits)
    then show ?thesis using True row1 rest1 eng by auto
  next
    case False
    then obtain local remote where built: "e1 = Inr local" "build ?mount = Inr remote"
      by (meson sum.exhaust)
    obtain r2 w2 where x: "execute_mount_sync late t2 ?mount local remote (rm_interval m) (rm_timeout m) w1 = Some (r2, w2)"
      using run eng assms(1) built
      by (cases "execute_mount_sync late t2 ?mount local remote (rm_interval m) (rm_timeout m) w1")
        (auto simp: run_bind_def run_of_def ask_mount_def get_user_mount_def on_mounts_def marks on_part_def asked_def
          run_part_def snapshot_of_mount_def)
    show ?thesis
      using run eng assms(1) built x row2 rest2
      by (cases r2) (auto simp: run_bind_def run_of_def ask_mount_def get_user_mount_def on_mounts_def marks on_part_def
          asked_def run_part_def refused_def snapshot_of_mount_def)
  qed
qed

section \<open>Witnesses\<close>

definition sx_info :: "string \<Rightarrow> vfs_file_info" where
  "sx_info p = to_vfs_file_info p \<lparr>md_is_dir = False, md_length = 1, md_modified = None\<rparr>"

text \<open>An object store that lists \<open>d/f\<close> only, mirrored to a directory that lists \<open>d\<close> too.\<close>

lemma mirror_extras_exact_witness:
  "set (extra_paths ''/b'' [(''d/f'', sx_info ''/d/f'')] [(''d'', sx_info ''/b/d''), (''d/f'', sx_info ''/b/d/f'')]) = {''/b/d''} \<and>
   is_path_within (join_root ''/b'' ''d/f'') ''/b/d''"
proof -
  let ?src = "[(''d/f'', sx_info ''/d/f'')]" and ?dst = "[(''d'', sx_info ''/b/d''), (''d/f'', sx_info ''/b/d/f'')]"
  have plain: "plain_root ''/b''" "\<forall>x \<in> set ?src. plain_key (fst x)" "\<forall>x \<in> set ?dst. plain_key (fst x)"
    by (simp_all add: plain_root_def plain_key_def)
  have "set (extra_paths ''/b'' ?src ?dst) = {join_root ''/b'' k |k. k \<in> fst ` set ?dst \<and> map_of ?src k = None}"
    by (rule mirror_extras_exact[OF plain, THEN conjunct1])
  also have "\<dots> = {join_root ''/b'' ''d''}" by auto
  also have "join_root ''/b'' ''d'' = ''/b/d''" by (simp add: join_root_def trim_end_matches_def trim_start_matches_simps)
  finally have "set (extra_paths ''/b'' ?src ?dst) = {''/b/d''}" .
  moreover have "join_root ''/b'' ''d/f'' = ''/b/d/f''"
    by (simp add: join_root_def trim_end_matches_def trim_start_matches_simps)
  moreover have "is_path_within ''/b/d/f'' ''/b/d''" by (simp add: is_path_within_def strip_prefix_def)
  ultimately show ?thesis by simp
qed

lemma sync_run_recorded_witness:
  "\<exists>t'. sync_remote_mount_once rx_json True (1, 2, 3) None (\<lambda>w. (Inl (Internal ''down''), w)) (\<lambda>m. Inl (Internal ''no driver''))
       ''u'' ''a'' ([rx_mount ''a'' ''u''], ()) = Some (Inl (Internal ''down''), (t', ())) \<and>
     map_option rm_status (mount_row ''u'' ''a'' t') = Some (Some ''running'')"
proof -
  have row: "mount_row ''u'' ''a'' [rx_mount ''a'' ''u''] = Some (rx_mount ''a'' ''u'')" by (simp add: mount_row_def rx_mount_def)
  have "\<exists>t'. sync_remote_mount_once rx_json True (1, 2, 3) None (\<lambda>w. (Inl (Internal ''down''), w)) (\<lambda>m. Inl (Internal ''no driver''))
       ''u'' ''a'' ([rx_mount ''a'' ''u''], ()) = Some (Inl (Internal ''down''), (t', ()))"
    using row by (simp add: sync_remote_mount_once_def run_bind_def run_of_def ask_mount_def get_user_mount_def on_mounts_def marks
        on_part_def)
  then obtain t' where r: "sync_remote_mount_once rx_json True (1, 2, 3) None (\<lambda>w. (Inl (Internal ''down''), w))
      (\<lambda>m. Inl (Internal ''no driver'')) ''u'' ''a'' ([rx_mount ''a'' ''u''], ()) = Some (Inl (Internal ''down''), (t', ()))" ..
  from sync_run_recorded[OF row r] show ?thesis using r by simp
qed

end
