(* ===== verification/Batch.thy ===== *)
theory Batch
  imports Mounted
begin

text \<open>
  Batch tasks (\<open>vfs/batch.rs\<close>, \<open>vfs/scoped/batch.rs\<close> and the submitting operations of \<open>vfs/mounted.rs\<close>): moving,
  copying, deleting, packing and unpacking lists of paths in the background. The task handler is a trait of
  another program: what a task reports to it is the list of its \<open>task_event\<close>s. Items run concurrently and are
  modelled in the order of their completion, each with what it saw of the cancellation flag; \<open>late\<close> is what had
  happened when the timer of the task fired first. \<open>part n total scale\<close> is the progress, computed in \<open>f32\<close>.
\<close>

datatype task_event =
    LogOperation string string "string option" string "string option" "int option"
  | UpdateTask int string string
  | UpdateProgress int string
  | SuccessTask
  | FailTask string
  | CleanupTask

section \<open>Destinations\<close>

definition split_stem_and_ext :: "string \<Rightarrow> string \<times> string" where
  "split_stem_and_ext name =
     (case rsplit_once dot name of
        Some (stem, ext) \<Rightarrow> if stem \<noteq> [] then (stem, ext) else (name, [])
      | None \<Rightarrow> (name, []))"

definition numbered_copy :: "string \<Rightarrow> nat \<Rightarrow> string" where
  "numbered_copy candidate idx =
     (let (dir, file) = (case rsplit_once slash candidate of Some x \<Rightarrow> x | None \<Rightarrow> ([], candidate));
          (stem, ext) = split_stem_and_ext file;
          name = (if ext = [] then stem @ '' ('' @ decimal idx @ '')'' else stem @ '' ('' @ decimal idx @ '').'' @ ext) in
      if dir = [] then name else dir @ ''/'' @ name)"

text \<open>The numbers that are tried.\<close>

definition copy_numbers :: "nat list" where
  "copy_numbers = [1..<10001]"

definition reserve_batch_destination :: "string \<Rightarrow> string list \<Rightarrow> string \<times> string list" where
  "reserve_batch_destination candidate reserved =
     (if candidate \<notin> set reserved then (candidate, candidate # reserved)
      else (case find (\<lambda>idx. numbered_copy candidate idx \<notin> set reserved) copy_numbers of
              Some idx \<Rightarrow> (let next_path = numbered_copy candidate idx in (next_path, next_path # reserved))
            | None \<Rightarrow> (candidate, reserved)))"

fun prepare_copy_like_targets ::
  "'w storage \<Rightarrow> string \<Rightarrow> string list \<Rightarrow> string list \<Rightarrow> 'w \<Rightarrow> (string \<times> string) list \<times> 'w" where
  "prepare_copy_like_targets s dst_dir [] reserved w = ([], w)"
| "prepare_copy_like_targets s dst_dir (src # srcs) reserved w =
     (let base_dst = trim_end_matches slash dst_dir @ ''/'' @ file_name_from_path src in
      case get_unique_path s base_dst w of
        (r, w1) \<Rightarrow>
          (let candidate = (case r of Inr p \<Rightarrow> p | Inl _ \<Rightarrow> base_dst) in
           case reserve_batch_destination candidate reserved of
             (dst, reserved1) \<Rightarrow>
               (case prepare_copy_like_targets s dst_dir srcs reserved1 w1 of (plans, w2) \<Rightarrow> ((src, dst) # plans, w2))))"

section \<open>The executor\<close>

record batch_item =
  bi_src :: string
  bi_dst :: "string option"
  bi_skipped :: bool
  bi_cancelled :: bool
  bi_millis :: int

definition update_progress :: "(nat \<Rightarrow> nat \<Rightarrow> nat \<Rightarrow> int) \<Rightarrow> nat \<Rightarrow> nat \<Rightarrow> nat \<Rightarrow> nat \<Rightarrow> task_event list" where
  "update_progress part processed n_all ok bad =
     (if n_all = 0 then []
      else [UpdateTask (part processed n_all 100) ''running''
              (''Processed '' @ decimal processed @ ''/'' @ decimal n_all @ '' (Success: '' @ decimal ok @
               '', Failed: '' @ decimal bad @ '')'')])"

text \<open>The counters are the successes, the failures and the items processed.\<close>

fun run_items ::
  "(nat \<Rightarrow> nat \<Rightarrow> nat \<Rightarrow> int) \<Rightarrow> string \<Rightarrow> (batch_item \<Rightarrow> ('w, vfs_file_info) run) \<Rightarrow> nat \<Rightarrow> batch_item list \<Rightarrow>
   nat \<Rightarrow> nat \<Rightarrow> nat \<Rightarrow> 'w \<Rightarrow> ((nat \<times> nat) \<times> task_event list \<times> 'w) option" where
  "run_items part kind act n_all [] ok bad processed w = Some ((ok, bad), [], w)"
| "run_items part kind act n_all (i # is) ok bad processed w =
     (if bi_skipped i then Some ((ok, bad), [], w)
      else case act i w of
        None \<Rightarrow> None
      | Some (outcome, w1) \<Rightarrow>
          if bi_cancelled i then Some ((ok, bad), [], w1)
          else
            (let (ok1, bad1, status, error) =
                   (case outcome of
                      Inr _ \<Rightarrow> (ok + 1, bad, ''success'', None)
                    | Inl err \<Rightarrow> (ok, bad + 1, ''failed'', Some (vfs_text err)));
                 n = processed + 1;
                 events = LogOperation kind (bi_src i) (bi_dst i) status error (Some (bi_millis i)) #
                   (if n mod 5 = 0 \<or> n = n_all then update_progress part n n_all ok1 bad1 else []) in
             map_option (\<lambda>(counts, later, w2). (counts, events @ later, w2))
               (run_items part kind act n_all is ok1 bad1 n w1)))"

definition task_result :: "nat \<Rightarrow> nat \<Rightarrow> task_event" where
  "task_result ok bad =
     (if bad = 0 then SuccessTask
      else FailTask (''Completed with failures: '' @ decimal ok @ '' success, '' @ decimal bad @ '' failed''))"

definition run_batch ::
  "(nat \<Rightarrow> nat \<Rightarrow> nat \<Rightarrow> int) \<Rightarrow> string \<Rightarrow> (batch_item \<Rightarrow> ('w, vfs_file_info) run) \<Rightarrow> batch_item list \<Rightarrow> nat \<Rightarrow>
   (task_event list \<times> 'w) option \<Rightarrow> 'w \<Rightarrow> (task_event list \<times> 'w) option" where
  "run_batch part kind act items n_all late w =
     (case late of
        Some (events, w1) \<Rightarrow> Some (events @ [FailTask ''Task timed out''], w1)
      | None \<Rightarrow>
          map_option (\<lambda>((ok, bad), events, w1). (events @ [task_result ok bad], w1))
            (run_items part kind act n_all items 0 0 0 w))"

text \<open>\<open>schedule\<close> gives the items of the plans in the order in which they complete.\<close>

definition execute_move ::
  "(nat \<Rightarrow> nat \<Rightarrow> nat \<Rightarrow> int) \<Rightarrow> 'w storage \<Rightarrow> ((string \<times> string) list \<Rightarrow> batch_item list) \<Rightarrow> string list \<Rightarrow> string \<Rightarrow>
   (task_event list \<times> 'w) option \<Rightarrow> 'w \<Rightarrow> (task_event list \<times> 'w) option" where
  "execute_move part s schedule src_paths dst_dir late w =
     (case prepare_copy_like_targets s dst_dir src_paths [] w of
        (plans, w1) \<Rightarrow>
          run_batch part ''move'' (\<lambda>i. sg_move_file s (bi_src i) (the (bi_dst i))) (schedule plans) (length src_paths) late w1)"

definition execute_copy ::
  "(nat \<Rightarrow> nat \<Rightarrow> nat \<Rightarrow> int) \<Rightarrow> 'w storage \<Rightarrow> ((string \<times> string) list \<Rightarrow> batch_item list) \<Rightarrow> string list \<Rightarrow> string \<Rightarrow>
   (task_event list \<times> 'w) option \<Rightarrow> 'w \<Rightarrow> (task_event list \<times> 'w) option" where
  "execute_copy part s schedule src_paths dst_dir late w =
     (case prepare_copy_like_targets s dst_dir src_paths [] w of
        (plans, w1) \<Rightarrow>
          run_batch part ''copy'' (\<lambda>i. sg_copy_file s (bi_src i) (the (bi_dst i))) (schedule plans) (length src_paths) late w1)"

definition execute_delete ::
  "(nat \<Rightarrow> nat \<Rightarrow> nat \<Rightarrow> int) \<Rightarrow> 'w storage \<Rightarrow> (string list \<Rightarrow> batch_item list) \<Rightarrow> string list \<Rightarrow>
   (task_event list \<times> 'w) option \<Rightarrow> 'w \<Rightarrow> (task_event list \<times> 'w) option" where
  "execute_delete part s schedule paths late w =
     run_batch part ''delete'' (\<lambda>i. run_of (sg_move_to_trash s (bi_src i))) (schedule paths) (length paths) late w"

section \<open>Packing and unpacking\<close>

text \<open>
  The archive functions (\<open>utils/compression.rs\<close>) are parameters: \<open>stage\<close> copies a path into the staging
  directory, \<open>pack\<close> writes the archive, \<open>unpack\<close> extracts one. \<open>check\<close> is the validation of a path, which the
  scoped engine does first and the mounted storage leaves to the staging.
\<close>

definition log_archive :: "string \<Rightarrow> string \<Rightarrow> string \<Rightarrow> string \<Rightarrow> string option \<Rightarrow> task_event" where
  "log_archive kind target path status error = LogOperation kind path (Some target) status error None"

fun stage_paths ::
  "(nat \<Rightarrow> nat \<Rightarrow> nat \<Rightarrow> int) \<Rightarrow> (string \<Rightarrow> vfs_error + string) \<Rightarrow> (string \<Rightarrow> ('w, vfs_error, unit) call) \<Rightarrow> string \<Rightarrow> nat \<Rightarrow>
   string list \<Rightarrow> nat \<Rightarrow> string list \<Rightarrow> nat \<Rightarrow> 'w \<Rightarrow> (string list \<times> nat) \<times> task_event list \<times> 'w" where
  "stage_paths part check stage archive n_all [] idx prepared bad w = ((prepared, bad), [], w)"
| "stage_paths part check stage archive n_all (path # paths) idx prepared bad w =
     (case check path of
        Inl err \<Rightarrow>
          (case stage_paths part check stage archive n_all paths (idx + 1) prepared (bad + 1) w of
             (res, later, w2) \<Rightarrow> (res, log_archive ''compress'' archive path ''failed'' (Some (vfs_text err)) # later, w2))
      | Inr logical \<Rightarrow>
          (case stage logical w of
             (outcome, w1) \<Rightarrow>
               (let prepared1 = (case outcome of Inr _ \<Rightarrow> prepared @ [path] | Inl _ \<Rightarrow> prepared);
                    bad1 = (case outcome of Inr _ \<Rightarrow> bad | Inl _ \<Rightarrow> bad + 1);
                    log = (case outcome of
                             Inr _ \<Rightarrow> []
                           | Inl err \<Rightarrow> [log_archive ''compress'' archive path ''failed'' (Some (vfs_text err))]);
                    n = idx + 1;
                    progress = (if n mod 5 = 0 \<or> n = n_all then
                        [UpdateTask (part n (max n_all 1) 30) ''preparing''
                          (''Prepared '' @ decimal n @ ''/'' @ decimal n_all @ '' (Ready: '' @ decimal (length prepared1) @
                           '', Failed: '' @ decimal bad1 @ '')'')]
                      else []) in
                case stage_paths part check stage archive n_all paths n prepared1 bad1 w1 of
                  (res, later, w2) \<Rightarrow> (res, log @ progress @ later, w2))))"

fun delete_each :: "(string \<Rightarrow> ('w, vfs_error, 'a) call) \<Rightarrow> string list \<Rightarrow> 'w \<Rightarrow> 'w" where
  "delete_each f [] w = w"
| "delete_each f (p # ps) w = delete_each f ps (snd (f p w))"

definition execute_compress ::
  "(nat \<Rightarrow> nat \<Rightarrow> nat \<Rightarrow> int) \<Rightarrow> (string \<Rightarrow> vfs_error + string) \<Rightarrow> ('w, string, unit) call \<Rightarrow> (string \<Rightarrow> ('w, vfs_error, unit) call) \<Rightarrow>
   ('w, vfs_error, unit) call \<Rightarrow> (string \<Rightarrow> ('w, vfs_error, vfs_file_info) call) \<Rightarrow> string \<Rightarrow> bool \<Rightarrow> string list \<Rightarrow>
   (task_event list \<times> 'w) option \<Rightarrow> 'w \<Rightarrow> task_event list \<times> 'w" where
  "execute_compress part check make_stage stage pack del archive delete_source paths late w =
     (case late of
        Some (events, w1) \<Rightarrow> (events @ [FailTask ''Compression task timed out after 24 hours''], w1)
      | None \<Rightarrow>
          (case make_stage w of
             (Inl err, w1) \<Rightarrow> ([FailTask (''Failed to create local staging dir: '' @ err)], w1)
           | (Inr _, w1) \<Rightarrow>
               (case stage_paths part check stage archive (length paths) paths 0 [] 0 w1 of
                  ((prepared, bad), events, w2) \<Rightarrow>
                    if prepared = [] then (events @ [FailTask ''No files were successfully prepared for compression''], w2)
                    else
                      (let staged = events @ [UpdateProgress 35 ''compressing''] in
                       case pack w2 of
                         (Inr _, w3) \<Rightarrow>
                           (staged @ map (\<lambda>p. log_archive ''compress'' archive p ''success'' None) prepared @ [SuccessTask],
                            if delete_source then delete_each del prepared w3 else w3)
                       | (Inl err, w3) \<Rightarrow>
                           (let text = ''Compression failed: '' @ vfs_text err in
                            (staged @ map (\<lambda>p. log_archive ''compress'' archive p ''failed'' (Some text)) prepared @ [FailTask text],
                             w3))))))"

fun unpack_paths ::
  "(nat \<Rightarrow> nat \<Rightarrow> nat \<Rightarrow> int) \<Rightarrow> (string \<Rightarrow> ('w, vfs_error, unit) call) \<Rightarrow> string \<Rightarrow> nat \<Rightarrow> string list \<Rightarrow>
   nat \<Rightarrow> nat \<Rightarrow> 'w \<Rightarrow> nat \<times> task_event list \<times> 'w" where
  "unpack_paths part unpack target n_all [] ok bad w = (bad, [], w)"
| "unpack_paths part unpack target n_all (path # paths) ok bad w =
     (case unpack path w of
        (outcome, w1) \<Rightarrow>
          (let (ok1, bad1, status, error) =
                 (case outcome of
                    Inr _ \<Rightarrow> (ok + 1, bad, ''success'', None)
                  | Inl err \<Rightarrow> (ok, bad + 1, ''failed'', Some (vfs_text err)));
               n = ok1 + bad1;
               events = log_archive ''decompress'' target path status error #
                 (if n mod 5 = 0 \<or> n = n_all then update_progress part n n_all ok1 bad1 else []) in
           case unpack_paths part unpack target n_all paths ok1 bad1 w1 of
             (failures, later, w2) \<Rightarrow> (failures, events @ later, w2)))"

definition execute_decompress ::
  "(nat \<Rightarrow> nat \<Rightarrow> nat \<Rightarrow> int) \<Rightarrow> (string \<Rightarrow> ('w, vfs_error, unit) call) \<Rightarrow> string \<Rightarrow> string list \<Rightarrow>
   (task_event list \<times> 'w) option \<Rightarrow> 'w \<Rightarrow> task_event list \<times> 'w" where
  "execute_decompress part unpack target paths late w =
     (case late of
        Some (events, w1) \<Rightarrow> (events @ [FailTask ''Decompression task timed out after 24 hours''], w1)
      | None \<Rightarrow>
          (case unpack_paths part unpack target (length paths) paths 0 0 w of
             (failures, events, w1) \<Rightarrow>
               (events @ [if failures = 0 then SuccessTask
                          else FailTask (''Decompression completed with '' @ decimal failures @ '' failures'')], w1)))"

section \<open>Submitting a task\<close>

text \<open>
  \<open>create kind\<close> is the handler's \<open>create_task\<close>, \<open>None\<close> when no handler is configured. The task waits for a permit and
  ends with a clean-up.
\<close>

definition create_task :: "(string \<Rightarrow> string + string) option \<Rightarrow> string \<Rightarrow> vfs_error + string" where
  "create_task create kind =
     (case create of
        None \<Rightarrow> Inl (Internal ''Task handler not configured'')
      | Some f \<Rightarrow> (case f kind of Inl err \<Rightarrow> Inl (Internal err) | Inr task_id \<Rightarrow> Inr task_id))"

definition batch_task :: "vfs_error + unit \<Rightarrow> ('w \<Rightarrow> task_event list \<times> 'w) \<Rightarrow> 'w \<Rightarrow> task_event list \<times> 'w" where
  "batch_task permit body w =
     (case permit of
        Inl err \<Rightarrow> ([FailTask (vfs_text err), CleanupTask], w)
      | Inr _ \<Rightarrow> (case body w of (events, w1) \<Rightarrow> (events @ [CleanupTask], w1)))"

definition submit_batch :: "string \<Rightarrow> 'p engine \<Rightarrow> (string \<Rightarrow> string + string) option \<Rightarrow> 'p world \<Rightarrow> vfs_error + string" where
  "submit_batch kind e create w = res_bind (check_maintenance e w) (\<lambda>_. create_task create kind)"

definition submit_batch_move_impl :: "'p engine \<Rightarrow> (string \<Rightarrow> string + string) option \<Rightarrow> 'p world \<Rightarrow> vfs_error + string" where
  "submit_batch_move_impl = submit_batch ''batch_move''"

definition submit_batch_copy_impl :: "'p engine \<Rightarrow> (string \<Rightarrow> string + string) option \<Rightarrow> 'p world \<Rightarrow> vfs_error + string" where
  "submit_batch_copy_impl = submit_batch ''batch_copy''"

definition submit_batch_compress_impl :: "'p engine \<Rightarrow> (string \<Rightarrow> string + string) option \<Rightarrow> 'p world \<Rightarrow> vfs_error + string" where
  "submit_batch_compress_impl = submit_batch ''batch_compress''"

definition submit_batch_decompress_impl :: "'p engine \<Rightarrow> (string \<Rightarrow> string + string) option \<Rightarrow> 'p world \<Rightarrow> vfs_error + string" where
  "submit_batch_decompress_impl = submit_batch ''batch_decompress''"

fun all_trashable :: "'p engine \<Rightarrow> string list \<Rightarrow> 'p world \<Rightarrow> vfs_error + unit" where
  "all_trashable e [] w = Inr ()"
| "all_trashable e (p # ps) w =
     res_bind (validate_path e p) (\<lambda>n.
     res_bind (is_protected_subdir_path e n w) (\<lambda>prot.
       if prot then Inl (Internal ''Recycle bin is disabled for protected subdirectory storage'')
       else all_trashable e ps w))"

definition submit_batch_delete_impl ::
  "'p engine \<Rightarrow> (string \<Rightarrow> string + string) option \<Rightarrow> string list \<Rightarrow> 'p world \<Rightarrow> vfs_error + string" where
  "submit_batch_delete_impl e create paths w =
     res_bind (check_maintenance e w) (\<lambda>_.
     res_bind (all_trashable e paths w) (\<lambda>_. create_task create ''batch_delete''))"

text \<open>The mounted storage hands a batch that touches no mount to its base, and else creates the task itself.\<close>

definition mounted_submit ::
  "'w mounted \<Rightarrow> (string \<Rightarrow> string + string) option \<Rightarrow> string \<Rightarrow> string list \<Rightarrow> (vfs_error + string) \<Rightarrow> vfs_error + string" where
  "mounted_submit ms create kind paths from_base =
     (if list_ex (contains_mounted_path ms) paths then create_task create kind else from_base)"

end
