(* ===== verification/Batch_Claims.thy ===== *)
theory Batch_Claims
  imports Batch Pool_Claims
begin

text \<open>
  What the batch tasks and the name chooser guarantee: which free name is chosen, that the targets of a batch are
  distinct, and how the items of a batch are accounted for.
\<close>

section \<open>Decimal numbers\<close>

definition decimal_value :: "string \<Rightarrow> nat" where
  "decimal_value s = foldl (\<lambda>a c. 10 * a + (of_char c - 48)) 0 s"

lemma decimal_value: "decimal_value (decimal n) = n"
proof (induction n rule: less_induct)
  case (less n)
  have digit: "(of_char (char_of (48 + d) :: char) :: nat) = 48 + d" if "d < 10" for d :: nat
    using that by (simp add: of_char_of)
  show ?case
  proof (cases "n < 10")
    case True
    then show ?thesis by (simp add: decimal_value_def decimal.simps[of n] digit)
  next
    case False
    then have "decimal_value (decimal n) = 10 * decimal_value (decimal (n div 10)) + n mod 10"
      by (simp add: decimal_value_def decimal.simps[of n] digit)
    then show ?thesis using less[of "n div 10"] False by simp
  qed
qed

lemma decimal_inj: "decimal m = decimal n \<longleftrightarrow> m = n"
  by (metis decimal_value)

section \<open>A free name\<close>

lemma unique_from_pure:
  assumes "\<And>q. sg_exists s q w = (Inr (there q), w)" and "j \<le> 100"
  shows "unique_from s name [Suc j..<101] cur w =
    (Inr (if there cur then (if j = 100 then cur else
        case find (\<lambda>k. \<not> there (name k)) [Suc j..<100] of Some k \<Rightarrow> name k | None \<Rightarrow> name 100) else cur), w)"
  using assms(2)
proof (induction "100 - j" arbitrary: j cur)
  case 0
  then show ?case by simp
next
  case (Suc d)
  then have j: "j < 100" "d = 100 - Suc j" "Suc j \<le> 100" by simp_all
  have up: "[Suc j..<101] = Suc j # [Suc (Suc j)..<101]" using j(1) by (simp add: upt_conv_Cons)
  show ?case
  proof (cases "there cur")
    case False
    then show ?thesis by (simp add: up assms(1) st_bind_def del: upt_Suc)
  next
    case True
    have "unique_from s name [Suc j..<101] cur w = unique_from s name [Suc (Suc j)..<101] (name (Suc j)) w"
      using True by (simp add: up assms(1) st_bind_def del: upt_Suc)
    also have "\<dots> = (Inr (if there (name (Suc j)) then (if Suc j = 100 then name (Suc j) else
        case find (\<lambda>k. \<not> there (name k)) [Suc (Suc j)..<100] of Some k \<Rightarrow> name k | None \<Rightarrow> name 100) else name (Suc j)), w)"
      by (rule Suc.hyps(1)[OF j(2,3)])
    finally show ?thesis
    proof (cases "Suc j = 100")
      case True
      then show ?thesis using \<open>unique_from s name [Suc j..<101] cur w = _\<close> \<open>there cur\<close> j(1)
        by (auto simp: Suc.hyps(1)[OF j(2,3)])
    next
      case False
      then have "[Suc j..<100] = Suc j # [Suc (Suc j)..<100]" using j(1) by (simp add: upt_conv_Cons)
      then show ?thesis
        using \<open>unique_from s name [Suc j..<101] cur w = _\<close> \<open>there cur\<close> j(1) False Suc.hyps(1)[OF j(2,3)]
        by (simp del: upt_Suc)
    qed
  qed
qed

text \<open>
  Which name is chosen to avoid a collision. On a storage whose existence test is a query, the chosen path is
  the requested one when it is free, else the first free numbered name from 1 to 99; when all of these exist it
  is number 100, which is returned without being asked for, so the caller may overwrite it.
\<close>

theorem unique_path_choice:
  assumes "\<And>q. sg_exists s q w = (Inr (there q), w)"
  shows "get_unique_path s path w =
    (Inr (if \<not> there path then path
          else case find (\<lambda>k. \<not> there (numbered_name path k)) [1..<100] of
            Some k \<Rightarrow> numbered_name path k | None \<Rightarrow> numbered_name path 100), w)"
  using unique_from_pure[OF assms, of 0 "numbered_name path" path]
  by (simp add: get_unique_path_def st_bind_def assms del: upt_Suc)

section \<open>Targets of a batch\<close>

lemma numbered_copy_inj: "numbered_copy c i = numbered_copy c j \<longleftrightarrow> i = j"
  by (auto simp: numbered_copy_def Let_def decimal_inj split: prod.splits option.splits if_splits)

lemma reserve_fresh:
  assumes "length reserved \<le> 10000" and "reserve_batch_destination c reserved = (d, reserved')"
  shows "d \<notin> set reserved \<and> reserved' = d # reserved"
proof (cases "c \<in> set reserved")
  case False
  then show ?thesis using assms(2) by (auto simp: reserve_batch_destination_def)
next
  case True
  have "\<exists>i \<in> set copy_numbers. numbered_copy c i \<notin> set reserved"
  proof (rule ccontr)
    assume "\<not> (\<exists>i \<in> set copy_numbers. numbered_copy c i \<notin> set reserved)"
    then have sub: "numbered_copy c ` set copy_numbers \<subseteq> set reserved - {c} \<or> c \<in> numbered_copy c ` set copy_numbers"
      by blast
    have grow: "length (numbered_copy c i) > length c" for i
    proof -
      obtain dir leaf where df: "(case rsplit_once slash c of Some x \<Rightarrow> x | None \<Rightarrow> ([], c)) = (dir, leaf)" by fastforce
      obtain stem ext where se: "split_stem_and_ext leaf = (stem, ext)" by fastforce
      have "length leaf = length stem + (if ext = [] then 0 else Suc (length ext)) \<or> length leaf \<le> Suc (length stem)"
        using se by (auto simp: split_stem_and_ext_def split: option.splits prod.splits if_splits dest!: rsplit_once_Some)
      moreover have "length c = length dir + (if rsplit_once slash c = None then 0 else 1) + length leaf"
        using df by (auto split: option.splits dest!: rsplit_once_Some)
      ultimately show ?thesis
        using df se by (auto simp: numbered_copy_def Let_def split: if_splits)
    qed
    have "c \<notin> numbered_copy c ` set copy_numbers" using grow by (metis imageE less_irrefl)
    then have "card (numbered_copy c ` set copy_numbers) \<le> card (set reserved - {c})"
      using sub by (intro card_mono) auto
    moreover have "card (numbered_copy c ` set copy_numbers) = 10000"
      by (subst card_image) (auto simp: inj_on_def numbered_copy_inj copy_numbers_def)
    moreover have "card (set reserved - {c}) < 10000"
      using True assms(1) card_length[of reserved] by (simp add: card_Diff_singleton)
    ultimately show False by simp
  qed
  then obtain i where "find (\<lambda>idx. numbered_copy c idx \<notin> set reserved) copy_numbers = Some i"
      "numbered_copy c i \<notin> set reserved"
    by (metis (mono_tags, lifting) find_None_iff find_Some_iff not_None_eq)
  then show ?thesis using assms(2) True by (auto simp: reserve_batch_destination_def Let_def)
qed

lemma prepared_targets:
  "length srcs + length reserved \<le> 10001 \<Longrightarrow> prepare_copy_like_targets s dir srcs reserved w = (plans, w') \<Longrightarrow>
   map fst plans = srcs \<and> distinct (map snd plans) \<and> set (map snd plans) \<inter> set reserved = {}"
proof (induction srcs arbitrary: reserved w w' plans)
  case Nil
  then show ?case by simp
next
  case (Cons src srcs)
  let ?base = "trim_end_matches slash dir @ ''/'' @ file_name_from_path src"
  obtain r w1 where u: "get_unique_path s ?base w = (r, w1)" by fastforce
  obtain d reserved1 where d: "reserve_batch_destination (case r of Inr p \<Rightarrow> p | Inl _ \<Rightarrow> ?base) reserved = (d, reserved1)"
    by fastforce
  obtain rest w2 where rest: "prepare_copy_like_targets s dir srcs reserved1 w1 = (rest, w2)" by fastforce
  have fresh: "d \<notin> set reserved" "reserved1 = d # reserved"
    using reserve_fresh[OF _ d] Cons.prems(1) by simp_all
  have "prepare_copy_like_targets s dir (src # srcs) reserved w = ((src, d) # rest, w2)"
    by (simp only: prepare_copy_like_targets.simps Let_def u d rest prod.case)
  then have plans: "plans = (src, d) # rest" using Cons.prems(2) by simp
  show ?case using Cons.IH[OF _ rest] Cons.prems(1) fresh plans by auto
qed

text \<open>
  C16: The items of a batch never collide with one another. For up to ten thousand sources every source gets one
  target, in order, and no two targets are equal, whatever the storage answers about existing paths.
\<close>

theorem batch_targets_distinct:
  assumes "length srcs \<le> 10001" "prepare_copy_like_targets s dir srcs [] w = (plans, w')"
  shows "map fst plans = srcs \<and> distinct (map snd plans)"
  using prepared_targets[OF _ assms(2)] assms(1) by simp

section \<open>Accounting\<close>

fun logged_path :: "task_event \<Rightarrow> string option" where
  "logged_path (LogOperation kind path target status error millis) = Some path"
| "logged_path _ = None"

fun failure_logged :: "task_event \<Rightarrow> bool" where
  "failure_logged (LogOperation kind path target status error millis) \<longleftrightarrow> status = ''failed''"
| "failure_logged _ \<longleftrightarrow> False"

lemma progress_unlogged: "List.map_filter logged_path (update_progress part k n ok bad) = []"
  "e \<in> set (update_progress part k n ok bad) \<Longrightarrow> \<not> failure_logged e"
  by (auto simp: update_progress_def List.map_filter_def split: if_splits)

lemma map_filter_append: "List.map_filter f (xs @ ys) = List.map_filter f xs @ List.map_filter f ys"
  by (simp add: List.map_filter_def)

lemma items_accounted:
  "run_items part kind act n items ok bad k w = Some ((ok', bad'), events, w') \<Longrightarrow>
   \<exists>m \<le> length items. List.map_filter logged_path events = map bi_src (take m items) \<and>
     (m < length items \<longrightarrow> bi_skipped (items ! m) \<or> bi_cancelled (items ! m)) \<and>
     bad \<le> bad' \<and> (bad' = bad \<longleftrightarrow> (\<forall>e \<in> set events. \<not> failure_logged e)) \<and> ok' + bad' = ok + bad + m"
proof (induction items arbitrary: ok bad k w w' events ok' bad')
  case Nil
  then show ?case by (simp add: List.map_filter_def)
next
  case (Cons i items)
  show ?case
  proof (cases "bi_skipped i")
    case True
    then show ?thesis using Cons.prems by (auto simp: List.map_filter_def intro: exI[of _ 0])
  next
    case False
    obtain outcome w1 where a: "act i w = Some (outcome, w1)" using Cons.prems False by (cases "act i w") auto
    show ?thesis
    proof (cases "bi_cancelled i")
      case True
      then show ?thesis using Cons.prems False a by (auto simp: List.map_filter_def intro: exI[of _ 0])
    next
      case go: False
      define good where "good = (\<exists>x. outcome = Inr x)"
      define ok1 bad1 where "ok1 = (if good then ok + 1 else ok)" and "bad1 = (if good then bad else bad + 1)"
      define ev where "ev = LogOperation kind (bi_src i) (bi_dst i) (if good then ''success'' else ''failed'')
          (case outcome of Inr _ \<Rightarrow> None | Inl err \<Rightarrow> Some (vfs_text err)) (Some (bi_millis i))"
      define pr where "pr = (if (k + 1) mod 5 = 0 \<or> k + 1 = n then update_progress part (k + 1) n ok1 bad1 else [])"
      obtain later where l: "run_items part kind act n items ok1 bad1 (k + 1) w1 = Some ((ok', bad'), later, w')"
        and ev': "events = (ev # pr) @ later"
        using Cons.prems False go a
        by (cases outcome) (auto simp: good_def ok1_def bad1_def ev_def pr_def Let_def)
      from Cons.IH[OF l] obtain m where m: "m \<le> length items" "List.map_filter logged_path later = map bi_src (take m items)"
        "m < length items \<longrightarrow> bi_skipped (items ! m) \<or> bi_cancelled (items ! m)" "bad1 \<le> bad'"
        "bad' = bad1 \<longleftrightarrow> (\<forall>e \<in> set later. \<not> failure_logged e)" "ok' + bad' = ok1 + bad1 + m" by blast
      have pr: "List.map_filter logged_path pr = []" "\<forall>e \<in> set pr. \<not> failure_logged e"
        using progress_unlogged by (auto simp: pr_def List.map_filter_def)
      have evs: "List.map_filter logged_path events = bi_src i # List.map_filter logged_path later"
        using ev' pr(1) by (simp add: map_filter_append List.map_filter_simps ev_def)
      show ?thesis
        using m ev' evs pr(2)
        by (intro exI[of _ "Suc m"]) (auto simp: ok1_def bad1_def ev_def split: if_splits)
    qed
  qed
qed

text \<open>
  C17: How a batch that ends is accounted for. When the timer fires first, the task fails with a timeout behind
  whatever was logged by then, even if no logged item failed. When it does not, the log names an initial part of
  the items in the order of their completion, each once, and stops short only at an item that saw the
  cancellation; and the task succeeds exactly when no logged item failed. So a batch that is cancelled in time
  and before anything fails is reported as a success, however few of its items were processed.
\<close>

theorem batch_outcome:
  assumes "run_batch part kind act items n late w = Some (events, w')"
  shows "case late of
      Some (logged, w1) \<Rightarrow> events = logged @ [FailTask ''Task timed out''] \<and> w' = w1
    | None \<Rightarrow>
        \<exists>m \<le> length items. List.map_filter logged_path events = map bi_src (take m items) \<and>
          (m < length items \<longrightarrow> bi_skipped (items ! m) \<or> bi_cancelled (items ! m)) \<and>
          (last events = SuccessTask \<longleftrightarrow> (\<forall>e \<in> set events. \<not> failure_logged e))"
proof (cases late)
  case (Some x)
  then show ?thesis using assms by (auto simp: run_batch_def)
next
  case None
  obtain ok bad evs where r: "run_items part kind act n items 0 0 0 w = Some ((ok, bad), evs, w')"
    and ev: "events = evs @ [task_result ok bad]"
    using assms None by (auto simp: run_batch_def)
  show ?thesis
    using items_accounted[OF r] unfolding ev None
    by (auto simp: map_filter_append List.map_filter_simps task_result_def split: if_splits)
qed

section \<open>Witnesses\<close>

text \<open>A storage whose world is the list of the paths that exist, and which moves by renaming.\<close>

definition bx_storage :: "string list storage" where
  "bx_storage = (within (\<lambda>w. remote_pool Map.empty) (\<lambda>v w. w) (pool_storage (\<lambda>s. s) ''s3'' px_env (0, 0, 0, 0)))
     \<lparr>sg_exists := (\<lambda>p w. (Inr (p \<in> set w), w)),
      sg_move_to_trash := (\<lambda>p w. if p \<in> set w then (Inr (to_vfs_file_info p
        \<lparr>md_is_dir = False, md_length = 1, md_modified = None\<rparr>), removeAll p w) else (Inl (NotFound p), w))\<rparr>"

lemma unique_path_choice_witness:
  "get_unique_path bx_storage ''/a.t'' [''/a.t'', ''/a_1.t''] = (Inr ''/a_2.t'', [''/a.t'', ''/a_1.t''])"
proof -
  have "sg_exists bx_storage q [''/a.t'', ''/a_1.t''] = (Inr (q \<in> {''/a.t'', ''/a_1.t''}), [''/a.t'', ''/a_1.t''])" for q by (simp add: bx_storage_def)
  note choice = unique_path_choice[OF this, where path = "''/a.t''"]
  have names: "numbered_name ''/a.t'' 1 = ''/a_1.t''" "numbered_name ''/a.t'' 2 = ''/a_2.t''" by code_simp+
  have "[1..<100] = 1 # 2 # [3..<100::nat]" by (simp add: upt_conv_Cons)
  then show ?thesis using choice names by simp
qed

lemma batch_targets_distinct_witness:
  "\<exists>a b w. prepare_copy_like_targets bx_storage ''/d'' [''/x/f'', ''/y/f''] [] [] = ([(''/x/f'', a), (''/y/f'', b)], w) \<and> a \<noteq> b"
proof -
  obtain plans w where r: "prepare_copy_like_targets bx_storage ''/d'' [''/x/f'', ''/y/f''] [] [] = (plans, w)" by fastforce
  from batch_targets_distinct[OF _ r] obtain a b where "plans = [(''/x/f'', a), (''/y/f'', b)]" "a \<noteq> b"
    by (auto simp: map_eq_Cons_conv)
  then show ?thesis using r by blast
qed

definition bx_items :: "batch_item list" where
  "bx_items = [\<lparr>bi_src = ''/a'', bi_dst = None, bi_skipped = False, bi_cancelled = False, bi_millis = 1\<rparr>,
     \<lparr>bi_src = ''/b'', bi_dst = None, bi_skipped = True, bi_cancelled = True, bi_millis = 1\<rparr>]"

lemma batch_outcome_witness:
  "\<exists>events w. run_batch (\<lambda>n k s. 0) ''delete'' (\<lambda>i. run_of (sg_move_to_trash bx_storage (bi_src i))) bx_items 2 None [''/a'', ''/b''] =
       Some (events, w) \<and> List.map_filter logged_path events = [''/a''] \<and> last events = SuccessTask"
proof -
  obtain events w where r: "run_batch (\<lambda>n k s. 0) ''delete'' (\<lambda>i. run_of (sg_move_to_trash bx_storage (bi_src i))) bx_items 2 None [''/a'', ''/b''] =
       Some (events, w)" and e: "\<forall>e \<in> set events. \<not> failure_logged e" "List.map_filter logged_path events = [''/a'']"
    by (simp add: run_batch_def bx_items_def run_of_def bx_storage_def task_result_def List.map_filter_def)
  from batch_outcome[OF r] e show ?thesis using r by auto
qed

end
