(* ===== verification/Upkeep.thy ===== *)
theory Upkeep
  imports Wal_Recovery Engine_Trash Engine_Example File_Query
begin

text \<open>
  The periodic jobs of the process (\<open>vfs/maintenance/mod.rs\<close>): emptying the recycle bins of all users, removing
  the directories of abandoned multipart uploads, and the index sync after an interrupted task. They work on the
  site of the recovery: the hub and the world its users share. The key-value store of the process belongs to
  another program, so its queries and updates are parameters. A job lives in an environment: what the roles and
  the engine of a user are made from, whether the database answers, and the time. The job that empties the bins
  runs in turns, and both the environment and the site may be different in each: \<open>env k\<close> is the environment of
  turn \<open>k\<close>, and \<open>others k\<close> what the rest of the process has done to the site when turn \<open>k\<close> begins. The users of a
  batch are visited in the order in which the batch names them.
\<close>

record 'p upkeep_env =
  uk_role_quota :: "string \<Rightarrow> vfs_error + int option"
  uk_engine :: "string \<Rightarrow> string \<Rightarrow> vfs_error + 'p engine"
  uk_up :: bool
  uk_now :: int

definition maintenance_batch_size :: "string \<Rightarrow> u64" where
  "maintenance_batch_size profile =
     (if profile = ''low_memory'' then 64 else if profile = ''throughput'' then 512 else 128)"

section \<open>The engine of a user\<close>

text \<open>\<open>create_scoped_engine\<close> with the role of a plain user, and the name of the pool it works on.\<close>

definition job_engine :: "'p upkeep_env \<Rightarrow> string \<Rightarrow> ('p site, vfs_error, string \<times> 'p engine) call" where
  "job_engine env u s =
     (case ensure_user_settings (uk_role_quota env) (uk_up env) (uk_now env) u ''100'' (si_hub s, wd_settings (si_world s)) of
        (row, h, settings) \<Rightarrow>
          (res_bind row (\<lambda>row.
           res_bind (if \<not> Option.is_none (get_pool (st_pool_name row) h) then Inr (st_pool_name row)
                     else route_by_role ''100'' h) (\<lambda>name.
           res_bind (uk_engine env u name) (\<lambda>e. Inr (name, e)))),
           s\<lparr>si_hub := h, si_world := (si_world s)\<lparr>wd_settings := settings\<rparr>\<rparr>))"

text \<open>A call of an engine, with its pool lent to the world.\<close>

definition with_pool :: "string \<Rightarrow> ('p, 'a) engine_call \<Rightarrow> ('p site, vfs_error, 'a) call" where
  "with_pool name m s =
     (case get_pool name (si_hub s) of
        None \<Rightarrow> (Inl (Internal ''pool''), s)
      | Some p \<Rightarrow>
          (case m ((si_world s)\<lparr>wd_pool := p\<rparr>) of
             (r, w) \<Rightarrow>
               (r, s\<lparr>si_hub := (si_hub s)\<lparr>hb_pools := al_put name (wd_pool w) (hb_pools (si_hub s))\<rparr>, si_world := w\<rparr>)))"

section \<open>Expired files of the recycle bins\<close>

fun delete_items :: "'p engine \<Rightarrow> string \<Rightarrow> index_row list \<Rightarrow> nat \<Rightarrow> 'p site \<Rightarrow> nat \<times> 'p site" where
  "delete_items e name [] n s = (n, s)"
| "delete_items e name (i # is) n s =
     (case with_pool name (delete_impl e (ir_path i)) s of
        (Inr _, s1) \<Rightarrow> delete_items e name is (n + 1) s1
      | (Inl _, s1) \<Rightarrow> delete_items e name is n s1)"

definition items_by_user :: "index_row list \<Rightarrow> (string \<times> index_row list) list" where
  "items_by_user is = map (\<lambda>u. (u, filter (\<lambda>i. ir_user i = u) is)) (remdups (map ir_user is))"

fun delete_by_user :: "'p upkeep_env \<Rightarrow> (string \<times> index_row list) list \<Rightarrow> nat \<Rightarrow> 'p site \<Rightarrow> nat \<times> 'p site" where
  "delete_by_user env [] n s = (n, s)"
| "delete_by_user env ((u, is) # rest) n s =
     (case job_engine env u s of
        (Inr (name, e), s1) \<Rightarrow> (case delete_items e name is n s1 of (n1, s2) \<Rightarrow> delete_by_user env rest n1 s2)
      | (Inl _, s1) \<Rightarrow> delete_by_user env rest n s1)"

definition expired_batch :: "nat \<Rightarrow> u64 \<Rightarrow> 'p upkeep_env \<Rightarrow> 'p site \<Rightarrow> db_error + index_row list" where
  "expired_batch retention limit env s =
     (if \<not> uk_up env then Inl DbUnavailable
      else Inr (find_expired_trash_batch (uk_now env) retention limit (wd_index (si_world s))))"

partial_function (option) empty_bins ::
  "nat \<Rightarrow> u64 \<Rightarrow> (nat \<Rightarrow> 'p upkeep_env) \<Rightarrow> (nat \<Rightarrow> 'p site \<Rightarrow> 'p site) \<Rightarrow> nat \<Rightarrow> nat \<Rightarrow> 'p site \<Rightarrow>
   ((string + nat) \<times> 'p site) option" where
  "empty_bins retention limit env others k n s =
     (case expired_batch retention limit (env k) (others k s) of
        Inl err \<Rightarrow> Some (Inl (''DB error: '' @ db_text err), others k s)
      | Inr expired \<Rightarrow>
          if expired = [] then Some (Inr n, others k s)
          else (case delete_by_user (env k) (items_by_user expired) n (others k s) of
                  (n1, s1) \<Rightarrow> empty_bins retention limit env others (k + 1) n1 s1))"

definition cleanup_expired_trash ::
  "string \<Rightarrow> nat \<Rightarrow> (nat \<Rightarrow> 'p upkeep_env) \<Rightarrow> (nat \<Rightarrow> 'p site \<Rightarrow> 'p site) \<Rightarrow> 'p site \<Rightarrow>
   ((string + nat) \<times> 'p site) option" where
  "cleanup_expired_trash profile retention env others s =
     (if retention = 0 then Some (Inr 0, s)
      else empty_bins retention (maintenance_batch_size profile) env others 0 0 s)"

section \<open>Abandoned uploads\<close>

text \<open>\<open>known key\<close> asks the key-value store; \<open>now u\<close> is the time after the listing for user \<open>u\<close>.\<close>

fun delete_orphans ::
  "int \<Rightarrow> nat \<Rightarrow> (string \<Rightarrow> string + bool) \<Rightarrow> 'p engine \<Rightarrow> string \<Rightarrow> string \<Rightarrow> vfs_file_info list \<Rightarrow> nat \<Rightarrow> 'p site \<Rightarrow> nat \<times> 'p site" where
  "delete_orphans now grace known e name root [] n s = (n, s)"
| "delete_orphans now grace known e name root (i # is) n s =
     (if fi_is_dir i \<and> (case fi_modified i of Some t \<Rightarrow> int grace < now - t | None \<Rightarrow> False) \<and>
         known (''s3:multipart:'' @ fi_name i) = Inr False
      then delete_orphans now grace known e name root is (n + 1)
             (snd (with_pool name (delete_impl e (root @ ''/'' @ fi_name i)) s))
      else delete_orphans now grace known e name root is n s)"

definition multipart_root :: string where
  "multipart_root = LOGICAL_TEMP_PREFIX @ ''/.multipart''"

fun orphans_of_users ::
  "'p upkeep_env \<Rightarrow> (string \<Rightarrow> int) \<Rightarrow> nat \<Rightarrow> (string \<Rightarrow> string + bool) \<Rightarrow> string list \<Rightarrow> nat \<Rightarrow> 'p site \<Rightarrow> nat \<times> 'p site" where
  "orphans_of_users env now grace known [] n s = (n, s)"
| "orphans_of_users env now grace known (u # us) n s =
     (case job_engine env u s of
        (Inl _, s1) \<Rightarrow> orphans_of_users env now grace known us n s1
      | (Inr (name, e), s1) \<Rightarrow>
          (case with_pool name (list_impl e multipart_root) s1 of
             (Inl _, s2) \<Rightarrow> orphans_of_users env now grace known us n s2
           | (Inr es, s2) \<Rightarrow>
               (case delete_orphans (now u) grace known e name multipart_root es n s2 of
                  (n1, s3) \<Rightarrow> orphans_of_users env now grace known us n1 s3)))"

definition cleanup_orphaned_s3_uploads ::
  "'p upkeep_env \<Rightarrow> (string \<Rightarrow> int) \<Rightarrow> bool \<Rightarrow> nat \<Rightarrow> (string \<Rightarrow> string + bool) \<Rightarrow> 'p site \<Rightarrow> nat \<times> 'p site" where
  "cleanup_orphaned_s3_uploads env now enabled grace known s =
     (if \<not> enabled \<or> \<not> uk_up env then (0, s)
      else orphans_of_users env now grace known (map st_user (wd_settings (si_world s))) 0 s)"

section \<open>Interrupted tasks\<close>

text \<open>
  \<open>locked\<close> is what the key-value store answers for the lock of the user, \<open>None\<close> when the store is not there; a query
  that fails counts as no lock. The result says whether a sync ran.
\<close>

definition sync_index_for_interrupted_task ::
  "'p upkeep_env \<Rightarrow> (string \<Rightarrow> (string + bool) option) \<Rightarrow> string \<Rightarrow> string option \<Rightarrow> 'p site \<Rightarrow> bool \<times> 'p site" where
  "sync_index_for_interrupted_task env locked u path_hint s =
     (if locked (''vfs:sync_lock:'' @ u) = Some (Inr True) then (False, s)
      else
        (let sync_path = (case path_hint of Some path \<Rightarrow> path | None \<Rightarrow> ''/'') in
         case job_engine env u s of
           (Inl _, s1) \<Rightarrow> (True, s1)
         | (Inr (name, e), s1) \<Rightarrow> (True, snd (with_pool name (sync_index_impl e sync_path) s1))))"

section \<open>A batch that cannot be deleted\<close>

lemma refused_in_maintenance:
  assumes "eg_user e \<in> set (locked_users (wd_maint w))"
  shows "delete_impl e p w = (Inl MaintenanceMode, w)"
  using assms by (simp add: delete_impl_def check_maintenance_def is_user_under_maintenance_def)

text \<open>What the jobs leave alone while nothing is deleted.\<close>

definition same_bins :: "'p site \<Rightarrow> 'p site \<Rightarrow> bool" where
  "same_bins s s1 \<longleftrightarrow> wd_index (si_world s1) = wd_index (si_world s) \<and> wd_maint (si_world s1) = wd_maint (si_world s)"

lemma job_engine_same: "same_bins s (snd (job_engine env u s))"
  by (simp add: same_bins_def job_engine_def split: prod.split)

lemma refused_same:
  "eg_user e \<in> set (locked_users (wd_maint (si_world s))) \<Longrightarrow>
   \<exists>err s1. with_pool name (delete_impl e p) s = (Inl err, s1) \<and> same_bins s s1"
  by (simp add: with_pool_def refused_in_maintenance same_bins_def split: option.split)

lemma items_refused:
  "eg_user e \<in> set (locked_users (wd_maint (si_world s))) \<Longrightarrow>
   \<exists>s1. delete_items e name is n s = (n, s1) \<and> same_bins s s1"
proof (induction "is" arbitrary: s)
  case Nil
  then show ?case by (simp add: same_bins_def)
next
  case (Cons i "is")
  obtain err s1 where d: "with_pool name (delete_impl e (ir_path i)) s = (Inl err, s1)" "same_bins s s1"
    using refused_same[OF Cons.prems] by blast
  then have "eg_user e \<in> set (locked_users (wd_maint (si_world s1)))" using Cons.prems by (simp add: same_bins_def)
  from Cons.IH[OF this] obtain s2 where "delete_items e name is n s1 = (n, s2)" "same_bins s1 s2" by blast
  then show ?case using d by (simp add: same_bins_def)
qed

lemma job_engine_made: "job_engine env u s = (Inr (name, e), s1) \<Longrightarrow> uk_engine env u name = Inr e"
  by (auto simp: job_engine_def res_bind_Inr_iff split: prod.splits)

text \<open>A user whose files the jobs cannot delete: under maintenance, or without an engine.\<close>

definition refused_user :: "'p upkeep_env \<Rightarrow> 'p site \<Rightarrow> string \<Rightarrow> bool" where
  "refused_user env s u \<longleftrightarrow>
     u \<in> set (locked_users (wd_maint (si_world s))) \<or> (\<forall>name. \<exists>err. uk_engine env u name = Inl err)"

lemma refused_user_same: "same_bins s s1 \<Longrightarrow> refused_user env s1 u = refused_user env s u"
  by (simp add: same_bins_def refused_user_def)

lemma users_refused:
  assumes "\<And>u name e. uk_engine env u name = Inr e \<Longrightarrow> eg_user e = u"
  shows "\<forall>x \<in> set xs. refused_user env s (fst x) \<Longrightarrow>
    \<exists>s1. delete_by_user env xs n s = (n, s1) \<and> same_bins s s1"
proof (induction xs arbitrary: s)
  case Nil
  then show ?case by (simp add: same_bins_def)
next
  case (Cons x xs)
  obtain u "is" where x: "x = (u, is)" by fastforce
  obtain r s1 where j: "job_engine env u s = (r, s1)" by fastforce
  have same: "same_bins s s1" using job_engine_same[of s env u] j by simp
  have "\<exists>s2. delete_by_user env (x # xs) n s = delete_by_user env xs n s2 \<and> same_bins s s2"
  proof (cases r)
    case (Inl err)
    then show ?thesis using j x same by auto
  next
    case (Inr y)
    obtain name e where y: "y = (name, e)" by fastforce
    have "eg_user e = u" using assms[OF job_engine_made] j Inr y by simp
    moreover have "u \<in> set (locked_users (wd_maint (si_world s)))"
      using Cons.prems x job_engine_made[of env u s name e s1] j Inr y
      by (auto simp: refused_user_def dest: spec[of _ name])
    ultimately have "eg_user e \<in> set (locked_users (wd_maint (si_world s1)))" using same by (simp add: same_bins_def)
    from items_refused[OF this] obtain s2 where "delete_items e name is n s1 = (n, s2)" "same_bins s1 s2" by blast
    then show ?thesis using j x Inr y same by (intro exI[of _ s2]) (simp add: same_bins_def)
  qed
  then obtain s2 where s2: "delete_by_user env (x # xs) n s = delete_by_user env xs n s2" "same_bins s s2" by blast
  then have "\<forall>x \<in> set xs. refused_user env s2 (fst x)" using Cons.prems refused_user_same[OF s2(2)] by simp
  from Cons.IH[OF this] s2 show ?case by (auto simp: same_bins_def)
qed

text \<open>A full batch stays the same while time goes on: what expires later comes behind it.\<close>

lemma take_takeWhile_mono:
  assumes "n \<le> length (takeWhile P xs)" "\<And>x. P x \<Longrightarrow> Q x"
  shows "take n (takeWhile Q xs) = take n (takeWhile P xs)"
  using assms(1)
proof (induction xs arbitrary: n)
  case (Cons x xs)
  then show ?case using assms(2) by (cases n) (auto split: if_splits)
qed simp

lemma filter_takeWhile_sorted: "sorted (map f xs) \<Longrightarrow> filter (\<lambda>x. f x < c) xs = takeWhile (\<lambda>x. f x < c) xs"
proof (induction xs)
  case (Cons a xs)
  show ?case
  proof (cases "f a < c")
    case False
    then have "\<forall>x \<in> set (a # xs). \<not> f x < c" using Cons.prems by (auto simp: not_less intro: order_trans)
    then show ?thesis using False by (simp add: filter_empty_conv del: filter.simps)
  qed (use Cons in simp)
qed simp

lemma expired_sorted:
  "order_asc ir_trashed (expired_trash now d db) =
   takeWhile (\<lambda>r. ir_trashed r < Some (now - int d * 86400)) (order_asc ir_trashed (filter (\<lambda>r.
     ir_trashed r \<noteq> None \<and> ir_parent r = ''/.recycle_bin'' \<and> ir_row_deleted r = None) (db_files db)))"
proof -
  let ?rs = "filter (\<lambda>r. ir_trashed r \<noteq> None \<and> ir_parent r = ''/.recycle_bin'' \<and> ir_row_deleted r = None) (db_files db)"
    and ?P = "\<lambda>r. ir_trashed r < Some (now - int d * 86400)"
  have "expired_trash now d db = filter ?P ?rs"
    unfolding expired_trash_def filter_filter by (rule filter_cong) (auto split: option.splits)
  then have "order_asc ir_trashed (expired_trash now d db) = filter ?P (sort_key ir_trashed ?rs)"
    by (simp add: order_asc_def filter_sort)
  also have "\<dots> = takeWhile ?P (sort_key ir_trashed ?rs)"
    by (rule filter_takeWhile_sorted) (rule sorted_sort_key)
  finally show ?thesis by (simp add: order_asc_def)
qed

lemma full_batch_stays:
  assumes "t \<le> t'" "length (find_expired_trash_batch t d limit db) = unat (max limit 1)"
  shows "find_expired_trash_batch t' d limit db = find_expired_trash_batch t d limit db"
proof (cases "d = 0")
  case False
  let ?n = "unat (max limit 1)"
  have "take ?n (order_asc ir_trashed (expired_trash t' d db)) = take ?n (order_asc ir_trashed (expired_trash t d db))"
    unfolding expired_sorted
  proof (rule take_takeWhile_mono)
    show "?n \<le> length (takeWhile (\<lambda>r. ir_trashed r < Some (t - int d * 86400)) (order_asc ir_trashed (filter (\<lambda>r.
        ir_trashed r \<noteq> None \<and> ir_parent r = ''/.recycle_bin'' \<and> ir_row_deleted r = None) (db_files db))))"
      using assms(2) False by (simp add: find_expired_trash_batch_def expired_sorted)
    show "ir_trashed r < Some (t' - int d * 86400)" if "ir_trashed r < Some (t - int d * 86400)" for r
      using that assms(1) by (cases "ir_trashed r") auto
  qed
  then show ?thesis using False by (simp add: find_expired_trash_batch_def)
qed (simp add: find_expired_trash_batch_def)

text \<open>The site after the first turns, when nothing is deleted in them.\<close>

fun after_turns ::
  "nat \<Rightarrow> u64 \<Rightarrow> (nat \<Rightarrow> 'p upkeep_env) \<Rightarrow> (nat \<Rightarrow> 'p site \<Rightarrow> 'p site) \<Rightarrow> nat \<Rightarrow> 'p site \<Rightarrow> 'p site" where
  "after_turns retention limit env others 0 s = s"
| "after_turns retention limit env others (Suc k) s =
     (let t = others k (after_turns retention limit env others k s) in
      case expired_batch retention limit (env k) t of
        Inl _ \<Rightarrow> t
      | Inr b \<Rightarrow> snd (delete_by_user (env k) (items_by_user b) 0 t))"

text \<open>
  \<open>stuck_for K\<close>: in each of the first \<open>K\<close> turns the database answers, the clock has not gone back behind its first
  reading, the other activities have left the index as it was, and the users of the batch are refused.
\<close>

definition stuck_for ::
  "nat \<Rightarrow> nat \<Rightarrow> u64 \<Rightarrow> (nat \<Rightarrow> 'p upkeep_env) \<Rightarrow> (nat \<Rightarrow> 'p site \<Rightarrow> 'p site) \<Rightarrow> 'p site \<Rightarrow> index_row list \<Rightarrow> bool" where
  "stuck_for K retention limit env others s b \<longleftrightarrow>
     (\<forall>k < K. let s1 = after_turns retention limit env others k s; t = others k s1 in
        uk_up (env k) \<and> uk_now (env 0) \<le> uk_now (env k) \<and> wd_index (si_world t) = wd_index (si_world s1) \<and>
        (\<forall>r \<in> set b. refused_user (env k) t (ir_user r)))"

lemma refused_turn:
  assumes "\<And>u name e. uk_engine env u name = Inr e \<Longrightarrow> eg_user e = u" "\<forall>r \<in> set b. refused_user env t (ir_user r)"
  obtains s2 where "delete_by_user env (items_by_user b) 0 t = (0, s2)" "wd_index (si_world s2) = wd_index (si_world t)"
proof -
  have "\<forall>x \<in> set (items_by_user b). refused_user env t (fst x)" using assms(2) by (auto simp: items_by_user_def)
  then have "\<exists>s2. delete_by_user env (items_by_user b) 0 t = (0, s2) \<and> same_bins t s2"
    by (rule users_refused[rotated]) (rule assms(1))
  then show thesis using that by (auto simp: same_bins_def)
qed

lemma batch_size_pos: "max (maintenance_batch_size profile) 1 = maintenance_batch_size profile"
  "0 < unat (maintenance_batch_size profile)"
  by (auto simp: maintenance_batch_size_def max_def word_le_nat_alt)

text \<open>
  C39: A full batch of files that cannot be deleted blocks the job that empties the recycle bins. Let the oldest
  expired files fill a batch and belong to users whose files the job cannot delete, because they are under
  maintenance or their engine cannot be made. For as many turns as this lasts (in each, the database answers, the
  clock is not behind its first reading, the other activities leave the index alone, and the users of the batch
  are refused), nothing is deleted, the index stays as it is, and the job goes on to the next turn, in which it
  fetches the very same batch at whatever later time: the expired files of all other users wait behind it, and the
  job does not return before the users are served or the database fails. A batch that is not full is not covered:
  files of other users join it and are deleted.
\<close>

theorem expired_bins_stuck:
  assumes "retention \<noteq> 0" "limit = maintenance_batch_size profile"
    and engines: "\<And>k u name e. uk_engine (env k) u name = Inr e \<Longrightarrow> eg_user e = u"
    and batch: "find_expired_trash_batch (uk_now (env 0)) retention limit (wd_index (si_world s)) = b"
    and full: "length b = unat limit"
    and stuck: "stuck_for K retention limit env others s b"
  shows "let s1 = after_turns retention limit env others K s in
    cleanup_expired_trash profile retention env others s = empty_bins retention limit env others K 0 s1 \<and>
    wd_index (si_world s1) = wd_index (si_world s) \<and>
    (\<forall>t \<ge> uk_now (env 0). find_expired_trash_batch t retention limit (wd_index (si_world s1)) = b)"
proof -
  let ?after = "\<lambda>k. after_turns retention limit env others k s" and ?run = "empty_bins retention limit env others"
  have later: "find_expired_trash_batch t retention limit (wd_index (si_world s)) = b" if "uk_now (env 0) \<le> t" for t
    using full_batch_stays[OF that, of retention limit "wd_index (si_world s)"] batch full assms(2) batch_size_pos(1) by simp
  have some: "b \<noteq> []" using full assms(2) batch_size_pos(2)[of profile] by auto
  have turns: "?run 0 0 s = ?run k 0 (?after k) \<and> wd_index (si_world (?after k)) = wd_index (si_world s)" if "k \<le> K" for k
    using that
  proof (induction k)
    case (Suc k)
    define t where "t = others k (?after k)"
    have t: "uk_up (env k)" "uk_now (env 0) \<le> uk_now (env k)" "wd_index (si_world t) = wd_index (si_world s)"
      "\<forall>r \<in> set b. refused_user (env k) t (ir_user r)"
      using stuck Suc by (auto simp: stuck_for_def t_def Let_def)
    then have fetched: "expired_batch retention limit (env k) t = Inr b" using later by (simp add: expired_batch_def)
    obtain s2 where s2: "delete_by_user (env k) (items_by_user b) 0 t = (0, s2)" "wd_index (si_world s2) = wd_index (si_world t)"
      using refused_turn[of "env k" b t] engines t(4) by metis
    then have next_turn: "?after (Suc k) = s2" using fetched by (simp add: Let_def flip: t_def)
    have "?run k 0 (?after k) = ?run (k + 1) 0 s2"
      by (subst empty_bins.simps) (simp add: fetched some s2(1) flip: t_def)
    then show ?case using Suc next_turn s2(2) t(3) by simp
  qed simp
  show ?thesis
    using turns[of K] later assms(1,2) by (simp add: cleanup_expired_trash_def)
qed

section \<open>Witness\<close>

definition ux_row :: "string \<Rightarrow> index_row" where
  "ux_row name =
     \<lparr>ir_id = name, ir_user = ''u'', ir_parent = ''/.recycle_bin'', ir_name = name, ir_path = ''/.recycle_bin/'' @ name,
      ir_is_dir = False, ir_storage = None, ir_backend = None, ir_key = None, ir_size = 1, ir_physical_size = None,
      ir_etag = None, ir_protected = None, ir_created = None, ir_modified = None, ir_trashed = Some 0, ir_row_created = 0,
      ir_row_updated = 0, ir_row_deleted = None, ir_favorite = 0, ir_original = Some ''/f'', ir_remark = None\<rparr>"

definition ux_rows :: "index_row list" where
  "ux_rows = map (\<lambda>i. ux_row (replicate i (CHR ''x''))) [0..<64]"

text \<open>The clock goes on by a minute from turn to turn.\<close>

definition ux_env :: "nat \<Rightarrow> (string \<Rightarrow> string option) upkeep_env" where
  "ux_env k =
     \<lparr>uk_role_quota = (\<lambda>role. Inr None), uk_engine = (\<lambda>u name. Inr ((ey_engine (\<lambda>_. False))\<lparr>eg_user := u\<rparr>)), uk_up = True,
      uk_now = 1000000 + 60 * int k\<rparr>"

definition ux_site :: "(string \<Rightarrow> string option) site" where
  "ux_site =
     \<lparr>si_hub = \<lparr>hb_pools = [(''p'', ey_pool Map.empty)], hb_policies = [], hb_default = None, hb_settings_cache = []\<rparr>,
      si_world = (ey_world Map.empty)\<lparr>wd_index := \<lparr>db_files = ux_rows @ [(ux_row ''z'')\<lparr>ir_user := ''v'', ir_trashed := Some 9\<rparr>], db_shares = []\<rparr>,
        wd_maint := \<lparr>locked_users = [''u''], live_guards = [''u'']\<rparr>\<rparr>\<rparr>"

text \<open>
  The maintenance of a user with a full batch of expired files ends after three turns; until then the file of
  another user waits.
\<close>

definition ux_others :: "nat \<Rightarrow> (string \<Rightarrow> string option) site \<Rightarrow> (string \<Rightarrow> string option) site" where
  "ux_others k s =
     s\<lparr>si_world := (si_world s)\<lparr>wd_maint := if k < 3 then \<lparr>locked_users = [''u''], live_guards = [''u'']\<rparr>
        else \<lparr>locked_users = [], live_guards = []\<rparr>\<rparr>\<rparr>"

lemma ux_batch: "find_expired_trash_batch 1000000 1 64 (wd_index (si_world ux_site)) = ux_rows"
proof -
  let ?all = "db_files (wd_index (si_world ux_site))"
  have "map ir_trashed ?all = replicate 64 (Some 0) @ [Some 9]"
    by (simp add: ux_site_def ux_rows_def ux_row_def comp_def map_replicate_const)
  then have "sorted (map ir_trashed ?all)" by (simp add: sorted_append sorted_replicate)
  then have "order_asc ir_trashed ?all = ?all" by (simp add: order_asc_def sort_key_id_if_sorted)
  moreover have "expired_trash 1000000 1 (wd_index (si_world ux_site)) = ?all"
    unfolding expired_trash_def by (rule filter_True) (auto simp: ux_site_def ux_rows_def ux_row_def)
  moreover have "take 64 ?all = ux_rows" by (simp add: ux_site_def ux_rows_def)
  ultimately show ?thesis by (simp add: find_expired_trash_batch_def max_def word_le_nat_alt)
qed

lemma expired_bins_stuck_witness:
  "let s1 = after_turns 1 64 ux_env ux_others 3 ux_site in
   cleanup_expired_trash ''low_memory'' 1 ux_env ux_others ux_site = empty_bins 1 64 ux_env ux_others 3 0 s1 \<and>
   length (db_files (wd_index (si_world s1))) = 65"
proof -
  have "stuck_for 3 1 64 ux_env ux_others ux_site ux_rows"
  proof -
    have "wd_index (si_world (ux_others k s)) = wd_index (si_world s)" for k s by (simp add: ux_others_def)
    moreover have "refused_user (ux_env k) (ux_others k s) (ir_user r)" if "k < 3" "r \<in> set ux_rows" for k s r
      using that by (auto simp: refused_user_def ux_others_def ux_rows_def ux_row_def)
    ultimately show ?thesis by (simp add: stuck_for_def Let_def ux_env_def)
  qed
  note stuck = expired_bins_stuck[of 1 64 "''low_memory''" ux_env ux_site ux_rows 3 ux_others, OF _ _ _ _ _ this]
  have "length (db_files (wd_index (si_world ux_site))) = 65" by (simp add: ux_site_def ux_rows_def)
  then show ?thesis
    using stuck ux_batch by (simp add: maintenance_batch_size_def ux_env_def ux_rows_def Let_def)
qed

end
