(* ===== verification/Search.thy ===== *)
theory Search
  imports Storage_Trait "HOL-Library.Product_Lexorder"
begin

text \<open>
  The indexed search (\<open>business/services/search.rs\<close>) with the identifiers and media kinds it uses
  (\<open>business/services/nextcloud.rs\<close>). A search is one SQL statement; the same conditions exist as a predicate on
  rows, and for an empty index on the entries of a storage. SQL's \<open>lower\<close> is that of ASCII, \<open>lower\<close> is the
  lower-casing of the standard library. A query names its time window in seconds, while the times of rows and
  entries may be finer: \<open>date s\<close> is the time at which second \<open>s\<close> begins (\<open>DateTime::from_timestamp\<close>, \<open>None\<close> when it
  is no date), and \<open>secs t\<close> the second in which the time \<open>t\<close> falls (\<open>timestamp()\<close>). The statement compares times,
  the predicates compare seconds.
\<close>

section \<open>Identifiers and kinds of media\<close>

definition stable_hash_u64 :: "string \<Rightarrow> u64" where
  "stable_hash_u64 bytes =
     (let hash = foldl (\<lambda>h b. xor h (word_of_nat (of_char b)) * 0x1000000001b3) 0xcbf29ce484222325 bytes in
      if hash = 0 then 1 else hash)"

definition derive_nextcloud_file_numeric_id :: "string \<Rightarrow> string \<Rightarrow> u64" where
  "derive_nextcloud_file_numeric_id u path = and (stable_hash_u64 (u @ '':'' @ path)) 0x7fffffffffffffff"

definition derive_nextcloud_share_numeric_id :: "string \<Rightarrow> u64" where
  "derive_nextcloud_share_numeric_id share_token = and (stable_hash_u64 share_token) 0x7fffffff"

definition derive_nextcloud_remote_id :: "string \<Rightarrow> string \<Rightarrow> string" where
  "derive_nextcloud_remote_id u path =
     (let digits = decimal (unat (derive_nextcloud_file_numeric_id u path)) in
      replicate (8 - length digits) (CHR ''0'') @ digits @ ''fileuni'')"

definition nextcloud_extension :: "string \<Rightarrow> string option" where
  "nextcloud_extension path = map_option to_ascii_lowercase (path_extension path)"

definition IMAGE_EXTENSIONS :: "string list" where
  "IMAGE_EXTENSIONS =
     [''jpg'', ''jpeg'', ''png'', ''gif'', ''webp'', ''bmp'', ''svg'', ''psd'', ''ai'', ''heic'', ''heif'', ''avif'']"

definition VIDEO_EXTENSIONS :: "string list" where
  "VIDEO_EXTENSIONS = [''mp4'', ''mov'', ''mkv'', ''avi'', ''webm'', ''m4v'', ''3gp'', ''mpg'', ''mpeg'']"

definition has_extension :: "string list \<Rightarrow> string \<Rightarrow> bool" where
  "has_extension exts path = (case nextcloud_extension path of Some e \<Rightarrow> e \<in> set exts | None \<Rightarrow> False)"

definition nextcloud_is_image :: "string \<Rightarrow> bool" where
  "nextcloud_is_image =
     has_extension [''jpg'', ''jpeg'', ''png'', ''gif'', ''webp'', ''bmp'', ''svg'', ''psd'', ''ai'', ''heic'', ''heif'', ''avif'']"

definition nextcloud_is_video :: "string \<Rightarrow> bool" where
  "nextcloud_is_video = has_extension [''mp4'', ''mov'', ''mkv'', ''avi'', ''webm'', ''m4v'', ''3gp'', ''mpg'', ''mpeg'']"

definition nextcloud_is_media :: "string \<Rightarrow> bool" where
  "nextcloud_is_media path \<longleftrightarrow> nextcloud_is_image path \<or> nextcloud_is_video path"

definition nextcloud_supports_generated_preview :: "string \<Rightarrow> bool" where
  "nextcloud_supports_generated_preview =
     has_extension [''pdf'', ''psd'', ''ai'', ''obj'', ''stl'', ''gltf'', ''glb'']"

definition nextcloud_supports_preview :: "string \<Rightarrow> bool" where
  "nextcloud_supports_preview path \<longleftrightarrow> nextcloud_is_media path \<or> nextcloud_supports_generated_preview path"

definition nextcloud_content_types :: "(string list \<times> string) list" where
  "nextcloud_content_types =
     [([''md'', ''markdown''], ''text/markdown''), ([''txt'', ''org'', ''note''], ''text/plain''),
      ([''jpg'', ''jpeg''], ''image/jpeg''), ([''png''], ''image/png''), ([''gif''], ''image/gif''),
      ([''webp''], ''image/webp''), ([''svg''], ''image/svg+xml''), ([''bmp''], ''image/bmp''),
      ([''heic''], ''image/heic''), ([''heif''], ''image/heif''), ([''avif''], ''image/avif''),
      ([''pdf''], ''application/pdf''), ([''mp4'', ''m4v''], ''video/mp4''), ([''webm''], ''video/webm''),
      ([''mov''], ''video/quicktime''), ([''mkv''], ''video/x-matroska''), ([''avi''], ''video/x-msvideo''),
      ([''3gp''], ''video/3gpp''), ([''mpg'', ''mpeg''], ''video/mpeg''), ([''mp3''], ''audio/mpeg''),
      ([''wav''], ''audio/wav''), ([''m4a''], ''audio/mp4''), ([''aac''], ''audio/aac''), ([''flac''], ''audio/flac''),
      ([''ogg'', ''oga''], ''audio/ogg'')]"

definition nextcloud_guess_content_type :: "string \<Rightarrow> string" where
  "nextcloud_guess_content_type path =
     (case nextcloud_extension path of
        None \<Rightarrow> ''application/octet-stream''
      | Some e \<Rightarrow>
          (case find (\<lambda>t. e \<in> set (fst t)) nextcloud_content_types of
             Some t \<Rightarrow> snd t | None \<Rightarrow> ''application/octet-stream''))"

definition nextcloud_guess_content_type_with_charset :: "string \<Rightarrow> string" where
  "nextcloud_guess_content_type_with_charset path =
     (let t = nextcloud_guess_content_type path in
      if t = ''text/markdown'' then ''text/markdown; charset=utf-8''
      else if t = ''text/plain'' then ''text/plain; charset=utf-8''
      else t)"

section \<open>Queries\<close>

datatype media_kind = ImageKind | VideoKind | MediaKind

record search_query =
  sq_root :: string
  sq_keyword :: "string option"
  sq_in_path :: bool
  sq_in_original :: bool
  sq_favorites :: bool
  sq_trashed :: bool
  sq_color :: "int option"
  sq_numeric_id :: "u64 option"
  sq_kind :: "media_kind option"
  sq_between :: "(int \<times> int) option"
  sq_sort :: "string option"
  sq_order :: "string option"
  sq_page :: int
  sq_page_size :: int
  sq_heal :: bool

datatype search_error = SearchDb db_error | SearchStorage vfs_error

section \<open>The SQL statement\<close>

definition lower_like :: "string \<Rightarrow> string \<Rightarrow> bool" where
  "lower_like pattern column = sql_like pattern (to_ascii_lowercase column)"

definition keyword_condition :: "string \<Rightarrow> bool \<Rightarrow> bool \<Rightarrow> index_row \<Rightarrow> bool" where
  "keyword_condition kw in_path in_original r \<longleftrightarrow>
     (let pattern = ''%'' @ to_ascii_lowercase kw @ ''%'' in
      lower_like pattern (ir_name r) \<or> (in_path \<and> lower_like pattern (ir_path r)) \<or>
      (in_original \<and> (case ir_original r of Some p \<Rightarrow> lower_like pattern p | None \<Rightarrow> False)))"

definition media_kind_condition :: "media_kind \<Rightarrow> index_row \<Rightarrow> bool" where
  "media_kind_condition kind r \<longleftrightarrow>
     (let exts = (case kind of ImageKind \<Rightarrow> IMAGE_EXTENSIONS | VideoKind \<Rightarrow> VIDEO_EXTENSIONS
                  | MediaKind \<Rightarrow> IMAGE_EXTENSIONS @ VIDEO_EXTENSIONS) in
      \<exists>e \<in> set exts. lower_like (''%.'' @ e) (ir_path r))"

definition build_index_search_condition :: "(int \<Rightarrow> int option) \<Rightarrow> string \<Rightarrow> search_query \<Rightarrow> index_row \<Rightarrow> bool" where
  "build_index_search_condition date u q r \<longleftrightarrow>
     ir_user r = u \<and> ir_row_deleted r = None \<and>
     (if sq_trashed q then ir_trashed r \<noteq> None \<and> ir_parent r = ''/.recycle_bin'' else ir_trashed r = None) \<and>
     (sq_favorites q \<longrightarrow>
        0 < ir_favorite r \<and> (case sq_color q of Some c \<Rightarrow> 0 < c \<longrightarrow> ir_favorite r = c | None \<Rightarrow> True)) \<and>
     (sq_root q \<noteq> ''/'' \<longrightarrow>
        ir_path r = sq_root q \<or> like_prefix (trim_end_matches slash (sq_root q) @ ''/'') (ir_path r)) \<and>
     (case sq_keyword q of Some kw \<Rightarrow> keyword_condition kw (sq_in_path q) (sq_in_original q) r | None \<Rightarrow> True) \<and>
     (case sq_kind q of Some kind \<Rightarrow> media_kind_condition kind r | None \<Rightarrow> True) \<and>
     (case sq_between q of
        Some (start, stop) \<Rightarrow>
          (case (date start, date stop) of
             (Some start_dt, Some end_dt) \<Rightarrow>
               (case ir_modified r of
                  Some t \<Rightarrow> start_dt < t \<and> t < end_dt
                | None \<Rightarrow> start_dt < ir_row_updated r \<and> ir_row_updated r < end_dt)
           | _ \<Rightarrow> True)
      | None \<Rightarrow> True)"

text \<open>The last column of \<open>ORDER BY\<close> is sorted by first, as every sort is stable.\<close>

definition apply_index_search_sort :: "search_query \<Rightarrow> index_row list \<Rightarrow> index_row list" where
  "apply_index_search_sort q rs =
     (let is_desc = (sq_order q = Some ''desc'');
          rs1 = (if sq_sort q = Some ''path'' then rs else order_by is_desc ir_path rs);
          rs2 =
            (if sq_sort q = Some ''size'' then order_by is_desc ir_size rs1
             else if sq_sort q = Some ''modified'' then order_by is_desc ir_modified (order_by is_desc ir_row_updated rs1)
             else if sq_sort q = Some ''trashed_at'' then order_by is_desc ir_trashed rs1
             else if sq_sort q = Some ''original_path'' then order_by is_desc ir_original rs1
             else if sq_sort q = Some ''path'' then order_by is_desc ir_path rs1
             else order_by is_desc ir_name rs1) in
      order_desc ir_is_dir rs2)"

definition load_index_page_matches ::
  "(int \<Rightarrow> int option) \<Rightarrow> string \<Rightarrow> search_query \<Rightarrow> index_db \<Rightarrow> index_row list \<times> int" where
  "load_index_page_matches date u q db =
     (let page = max (sq_page q) 1;
          page_size = max (sq_page_size q) 1;
          offset = as_u64 (clamp_i64 (clamp_i64 (page - 1) * page_size));
          limit = as_u64 page_size;
          rs = filter (build_index_search_condition date u q) (db_files db);
          total = wrap_i64 (int (length rs)) in
      if total = 0 then ([], 0) else (sql_page limit offset (apply_index_search_sort q rs), total))"

section \<open>The predicate on rows\<close>

definition path_matches_root :: "string \<Rightarrow> string \<Rightarrow> bool" where
  "path_matches_root path root_path \<longleftrightarrow>
     root_path = ''/'' \<or> path = root_path \<or>
     (case strip_prefix root_path path of Some rest \<Rightarrow> starts_with rest ''/'' | None \<Rightarrow> False)"

definition matches_keyword ::
  "(string \<Rightarrow> string) \<Rightarrow> string \<Rightarrow> string \<Rightarrow> string option \<Rightarrow> string \<Rightarrow> bool \<Rightarrow> bool \<Rightarrow> bool" where
  "matches_keyword lower name path original kw in_path in_original \<longleftrightarrow>
     (let hit = (\<lambda>s. find_sub (lower kw) (lower s) \<noteq> None) in
      hit name \<or> (in_path \<and> hit path) \<or> (in_original \<and> (case original of Some p \<Rightarrow> hit p | None \<Rightarrow> False)))"

definition matches_media_kind :: "string \<Rightarrow> media_kind \<Rightarrow> bool" where
  "matches_media_kind path kind =
     (case kind of ImageKind \<Rightarrow> nextcloud_is_image path | VideoKind \<Rightarrow> nextcloud_is_video path
      | MediaKind \<Rightarrow> nextcloud_is_media path)"

definition indexed_item_matches :: "(string \<Rightarrow> string) \<Rightarrow> (int \<Rightarrow> int) \<Rightarrow> string \<Rightarrow> search_query \<Rightarrow> index_row \<Rightarrow> bool" where
  "indexed_item_matches lower secs u q r \<longleftrightarrow>
     path_matches_root (ir_path r) (sq_root q) \<and>
     (sq_trashed q \<longrightarrow> ir_trashed r \<noteq> None) \<and>
     (sq_favorites q \<longrightarrow>
        0 < ir_favorite r \<and> (case sq_color q of Some c \<Rightarrow> 0 < c \<longrightarrow> ir_favorite r = c | None \<Rightarrow> True)) \<and>
     (case sq_keyword q of
        Some kw \<Rightarrow> matches_keyword lower (ir_name r) (ir_path r) (ir_original r) kw (sq_in_path q) (sq_in_original q)
      | None \<Rightarrow> True) \<and>
     (case sq_numeric_id q of Some i \<Rightarrow> derive_nextcloud_file_numeric_id u (ir_path r) = i | None \<Rightarrow> True) \<and>
     (case sq_kind q of Some kind \<Rightarrow> matches_media_kind (ir_path r) kind | None \<Rightarrow> True) \<and>
     (case sq_between q of
        Some (start, stop) \<Rightarrow>
          (let ts = secs (case ir_modified r of Some t \<Rightarrow> t | None \<Rightarrow> ir_row_updated r) in \<not> (ts \<le> start \<or> stop \<le> ts))
      | None \<Rightarrow> True)"

definition vfs_entry_matches :: "(string \<Rightarrow> string) \<Rightarrow> (int \<Rightarrow> int) \<Rightarrow> string \<Rightarrow> search_query \<Rightarrow> vfs_file_info \<Rightarrow> bool" where
  "vfs_entry_matches lower secs u q e \<longleftrightarrow>
     path_matches_root (fi_path e) (sq_root q) \<and> \<not> (sq_favorites q \<or> sq_trashed q) \<and>
     (case sq_keyword q of
        Some kw \<Rightarrow> matches_keyword lower (fi_name e) (fi_path e) (fi_original_path e) kw (sq_in_path q) (sq_in_original q)
      | None \<Rightarrow> True) \<and>
     (case sq_numeric_id q of Some i \<Rightarrow> derive_nextcloud_file_numeric_id u (fi_path e) = i | None \<Rightarrow> True) \<and>
     (case sq_kind q of Some kind \<Rightarrow> matches_media_kind (fi_path e) kind | None \<Rightarrow> True) \<and>
     (case sq_between q of
        Some (start, stop) \<Rightarrow> (case fi_modified e of Some t \<Rightarrow> \<not> (secs t \<le> start \<or> stop \<le> secs t) | None \<Rightarrow> False)
      | None \<Rightarrow> True)"

definition sort_items :: "search_query \<Rightarrow> index_row list \<Rightarrow> index_row list" where
  "sort_items q rs =
     (let is_desc = (sq_order q = Some ''desc'') in
      order_desc ir_is_dir
        (if sq_sort q = Some ''size'' then order_by is_desc (\<lambda>r. (ir_size r, ir_path r)) rs
         else if sq_sort q = Some ''modified'' then
           order_by is_desc (\<lambda>r. (case ir_modified r of Some t \<Rightarrow> t | None \<Rightarrow> ir_row_updated r, ir_path r)) rs
         else if sq_sort q = Some ''trashed_at'' then order_by is_desc (\<lambda>r. (ir_trashed r, ir_path r)) rs
         else if sq_sort q = Some ''original_path'' then order_by is_desc (\<lambda>r. (ir_original r, ir_path r)) rs
         else if sq_sort q = Some ''path'' then order_by is_desc ir_path rs
         else order_by is_desc (\<lambda>r. (ir_name r, ir_path r)) rs))"

definition load_index_matches :: "(string \<Rightarrow> string) \<Rightarrow> (int \<Rightarrow> int) \<Rightarrow> string \<Rightarrow> search_query \<Rightarrow> index_db \<Rightarrow> index_row list" where
  "load_index_matches lower secs u q db =
     filter (indexed_item_matches lower secs u q)
       (if sq_trashed q then list_trash u db
        else if sq_favorites q then list_favorites u (sq_color q) db
        else if sq_keyword q \<noteq> None \<and> \<not> sq_in_path q \<and> \<not> sq_in_original q \<and> sq_root q = ''/'' \<and>
          sq_numeric_id q = None \<and> sq_kind q = None \<and> sq_between q = None
        then search_files u (case sq_keyword q of Some kw \<Rightarrow> kw | None \<Rightarrow> []) db
        else list_files_recursive u (sq_root q) db)"

section \<open>The search\<close>

text \<open>\<open>uuid n\<close> is the identifier of a new row when the table has \<open>n\<close> rows.\<close>

fun heal_entries ::
  "bool \<Rightarrow> (nat \<Rightarrow> string) \<Rightarrow> int \<Rightarrow> string \<Rightarrow> vfs_file_info list \<Rightarrow> ('p world, search_error, index_row list) call" where
  "heal_entries up uuid now u [] w = (Inr [], w)"
| "heal_entries up uuid now u (e # es) w =
     (case upsert_file up (uuid (length (db_files (wd_index w)))) now u (fi_path e) e (wd_index w) of
        (Inl err, db) \<Rightarrow> (Inl (SearchDb err), w\<lparr>wd_index := db\<rparr>)
      | (Inr row, db) \<Rightarrow>
          (case heal_entries up uuid now u es (w\<lparr>wd_index := db\<rparr>) of
             (Inl err, w2) \<Rightarrow> (Inl err, w2)
           | (Inr rows, w2) \<Rightarrow> (Inr (row # rows), w2)))"

definition heal_matches_from_storage ::
  "(string \<Rightarrow> string) \<Rightarrow> (int \<Rightarrow> int) \<Rightarrow> bool \<Rightarrow> (nat \<Rightarrow> string) \<Rightarrow> int \<Rightarrow> 'p world storage \<Rightarrow> string \<Rightarrow> search_query \<Rightarrow>
   ('p world, search_error, index_row list) call" where
  "heal_matches_from_storage lower secs up uuid now storage u q w =
     (case sg_list_recursive storage (sq_root q) w of
        (Inl err, w1) \<Rightarrow> (Inl (SearchStorage err), w1)
      | (Inr entries, w1) \<Rightarrow> heal_entries up uuid now u (filter (vfs_entry_matches lower secs u q) entries) w1)"

definition page_of_items :: "search_query \<Rightarrow> index_row list \<Rightarrow> index_row list \<times> int" where
  "page_of_items q items =
     (let page_size = max (sq_page_size q) 1;
          offset = as_usize (wrap_i64 ((max (sq_page q) 1 - 1) * page_size)) in
      (take (as_usize page_size) (drop offset (sort_items q items)), wrap_i64 (int (length items))))"

definition search_with_storage ::
  "(int \<Rightarrow> int option) \<Rightarrow> (string \<Rightarrow> string) \<Rightarrow> (int \<Rightarrow> int) \<Rightarrow> bool \<Rightarrow> (nat \<Rightarrow> string) \<Rightarrow> int \<Rightarrow> 'p world storage \<Rightarrow> string \<Rightarrow> search_query \<Rightarrow>
   ('p world, search_error, index_row list \<times> int) call" where
  "search_with_storage date lower secs up uuid now storage u q w =
     (if \<not> up then (Inl (SearchDb DbUnavailable), w)
      else
        (let first = load_index_page_matches date u q (wd_index w);
             plain = (\<not> sq_heal q \<or> sq_favorites q \<or> sq_trashed q) in
         if sq_numeric_id q = None \<and> (0 < snd first \<or> plain) then (Inr first, w)
         else
           (let items = load_index_matches lower secs u q (wd_index w) in
            if items = [] \<and> \<not> plain
            then then_return (heal_matches_from_storage lower secs up uuid now storage u q) (page_of_items q) w
            else (Inr (page_of_items q items), w))))"

end
