(* ===== verification/Search_Claims.thy ===== *)
theory Search_Claims
  imports Search File_Index_Claims
begin

text \<open>
  What the indexed search guarantees: the SQL statement with its ordering and paging finds what the predicate on
  rows selects and the comparison of items orders.
\<close>

section \<open>Sorting by two keys\<close>

lemma sort_key_pair: "sort_key (\<lambda>x. (f x :: 'k::linorder, g x :: 'l::linorder)) xs = sort_key f (sort_key g xs)"
proof (rule properties_for_sort_key)
  show "mset (sort_key f (sort_key g xs)) = mset xs" by simp
  show "filter (\<lambda>x. (f k, g k) = (f x, g x)) (sort_key f (sort_key g xs)) = filter (\<lambda>x. (f k, g k) = (f x, g x)) xs" for k
  proof -
    have pair: "filter (\<lambda>x. (f k, g k) = (f x, g x)) ys = filter (\<lambda>x. g x = g k) (filter (\<lambda>x. f x = f k) ys)" for ys
      by (simp add: conj_commute eq_commute)
    have swap: "filter (\<lambda>x. g x = g k) (filter (\<lambda>x. f x = f k) ys) = filter (\<lambda>x. f x = f k) (filter (\<lambda>x. g x = g k) ys)" for ys
      by (simp add: conj_commute)
    show ?thesis unfolding pair sort_key_stable unfolding swap sort_key_stable ..
  qed
  have "sorted_wrt (\<lambda>x y. (f x, g x) \<le> (f y, g y)) (sort_key f (sort_key g xs))"
    unfolding sorted_wrt_iff_nth_less
  proof (intro allI impI)
    let ?zs = "sort_key g xs" and ?ys = "sort_key f (sort_key g xs)"
    fix i j assume ij: "i < j" "j < length ?ys"
    have le: "f (?ys ! i) \<le> f (?ys ! j)" using ij sorted_sort_key[of f ?zs] by (simp add: sorted_map sorted_wrt_iff_nth_less)
    have "g (?ys ! i) \<le> g (?ys ! j)" if k: "f (?ys ! i) = f (?ys ! j)"
    proof -
      have split: "?ys = take i ?ys @ ?ys ! i # drop (Suc i) ?ys" using ij by (simp add: id_take_nth_drop)
      have "?ys ! j = drop (Suc i) ?ys ! (j - Suc i)" using ij by simp
      then have "?ys ! j \<in> set (drop (Suc i) ?ys)" using ij by (metis nth_mem length_drop diff_less_mono Suc_leI)
      moreover have "sorted (map g (filter (\<lambda>y. f y = f (?ys ! i)) ?ys))"
        using sorted_filter[OF sorted_sort_key[of g xs]] by (simp add: sort_key_stable)
      then have "sorted (map g (filter (\<lambda>y. f y = f (?ys ! i)) (take i ?ys @ ?ys ! i # drop (Suc i) ?ys)))"
        using split by metis
      ultimately show ?thesis using k by (auto simp: sorted_append)
    qed
    then show "(f (?ys ! i), g (?ys ! i)) \<le> (f (?ys ! j), g (?ys ! j))"
      using le by (cases "f (?ys ! i) = f (?ys ! j)") (simp_all add: less_eq_prod_def order.strict_iff_order)
  qed
  then show "sorted (map (\<lambda>x. (f x, g x)) (sort_key f (sort_key g xs)))" by (simp add: sorted_map)
qed

lemma order_by_pair: "order_by d (\<lambda>r. (f r, g r)) rs = order_by d f (order_by d g rs)"
  by (simp add: order_by_def order_asc_def order_desc_def sort_key_pair)

lemma order_by_same: "mset xs = mset ys \<Longrightarrow> inj_on f (set xs) \<Longrightarrow> order_by d f xs = order_by d f ys"
  using sort_key_eq_sort_key[of xs ys f] sort_key_eq_sort_key[of "rev xs" "rev ys" f]
  by (simp add: order_by_def order_asc_def order_desc_def)

lemma sorted_alike:
  assumes "mset xs = mset ys" "inj_on ir_path (set xs)" "sq_sort q \<noteq> Some ''modified''"
  shows "apply_index_search_sort q xs = sort_items q ys"
  using order_by_same[OF assms(1,2), of "sq_order q = Some ''desc''"] assms(3)
  by (simp add: apply_index_search_sort_def sort_items_def Let_def order_by_pair)

section \<open>Texts\<close>

lemma sql_contains:
  "like_free p \<Longrightarrow> sql_like (''%'' @ p @ ''%'') s \<longleftrightarrow> find_sub (to_ascii_lowercase p) (to_ascii_lowercase s) \<noteq> None"
proof (induction s)
  case Nil
  then show ?case using sql_like_prefix[of p "[]"] by (cases p) (simp_all add: to_ascii_lowercase_def)
next
  case (Cons c s)
  then show ?case using sql_like_prefix[of p "c # s"] by (auto simp: to_ascii_lowercase_def)
qed

lemma like_free_lower: "like_free (to_ascii_lowercase s) = like_free s"
proof -
  have "CHR ''%'' = lower_char c \<longleftrightarrow> c = CHR ''%''" "CHR ''_'' = lower_char c \<longleftrightarrow> c = CHR ''_''" for c
    using lower_char_marks(2,3) by metis+
  then show ?thesis by (auto simp: like_free_def to_ascii_lowercase_def image_iff)
qed

definition ascii :: "string \<Rightarrow> bool" where
  "ascii s \<longleftrightarrow> (\<forall>c \<in> set s. (of_char c :: nat) < 128)"

definition ascii_row :: "index_row \<Rightarrow> bool" where
  "ascii_row r \<longleftrightarrow> ascii (ir_name r) \<and> ascii (ir_path r) \<and> (\<forall>p. ir_original r = Some p \<longrightarrow> ascii p)"

lemma keyword_same:
  assumes "\<And>s. ascii s \<Longrightarrow> lower s = to_ascii_lowercase s" "ascii kw" "like_free kw" "ascii_row r"
  shows "keyword_condition kw in_path in_original r =
    matches_keyword lower (ir_name r) (ir_path r) (ir_original r) kw in_path in_original"
proof -
  have "lower_like (''%'' @ to_ascii_lowercase kw @ ''%'') s \<longleftrightarrow> find_sub (lower kw) (lower s) \<noteq> None" if "ascii s" for s
    using sql_contains[of "to_ascii_lowercase kw"] assms(1-3) that by (simp add: lower_like_def like_free_lower)
  then show ?thesis
    using assms(4) by (auto simp: keyword_condition_def matches_keyword_def ascii_row_def Let_def split: option.split)
qed

text \<open>The folder of a search, among the rows of a table: the root, or one whose pattern is exact.\<close>

definition root_exact :: "string \<Rightarrow> string \<Rightarrow> index_row list \<Rightarrow> bool" where
  "root_exact u root rs \<longleftrightarrow> root = ''/'' \<or> (trim_end_matches slash root = root \<and> like_exact u root rs)"

lemma root_same:
  assumes "root_exact u root rs" "r \<in> set rs" "ir_user r = u"
  shows "(root \<noteq> ''/'' \<longrightarrow> ir_path r = root \<or> like_prefix (trim_end_matches slash root @ ''/'') (ir_path r)) =
    path_matches_root (ir_path r) root"
proof (cases "root = ''/''")
  case False
  then have "trim_end_matches slash root = root" "like_exact u root rs" using assms(1) by (simp_all add: root_exact_def)
  then have "like_prefix (trim_end_matches slash root @ ''/'') (ir_path r) \<longleftrightarrow> starts_with (ir_path r) (root @ ''/'')"
    using below_iff[of u root rs r] assms(2,3) by (simp add: below_def)
  then show ?thesis
    using False by (auto simp: path_matches_root_def strip_prefix_Some prefix_def split: option.split)
qed (simp add: path_matches_root_def)

text \<open>How the two readings of the clock fit together, and a row that does not sit inside the first second.\<close>

definition clock_law :: "(int \<Rightarrow> int option) \<Rightarrow> (int \<Rightarrow> int) \<Rightarrow> bool" where
  "clock_law date secs \<longleftrightarrow> (\<forall>s d. date s = Some d \<longrightarrow> secs d = s \<and> (\<forall>t. t < d \<longleftrightarrow> secs t < s))"

definition changed_at :: "index_row \<Rightarrow> int" where
  "changed_at r = (case ir_modified r of Some t \<Rightarrow> t | None \<Rightarrow> ir_row_updated r)"

definition window_exact :: "(int \<Rightarrow> int option) \<Rightarrow> (int \<Rightarrow> int) \<Rightarrow> (int \<times> int) option \<Rightarrow> index_row \<Rightarrow> bool" where
  "window_exact date secs between r \<longleftrightarrow>
     (\<forall>start stop. between = Some (start, stop) \<longrightarrow> date start \<noteq> None \<and> date stop \<noteq> None \<and>
        (secs (changed_at r) = start \<longrightarrow> date start = Some (changed_at r)))"

lemma window_same:
  assumes "clock_law date secs" "window_exact date secs between r"
  shows "(case between of
      Some (start, stop) \<Rightarrow>
        (case (date start, date stop) of
           (Some start_dt, Some end_dt) \<Rightarrow>
             (case ir_modified r of
                Some t \<Rightarrow> start_dt < t \<and> t < end_dt
              | None \<Rightarrow> start_dt < ir_row_updated r \<and> ir_row_updated r < end_dt)
         | _ \<Rightarrow> True)
    | None \<Rightarrow> True) =
    (case between of
      Some (start, stop) \<Rightarrow>
        (let ts = secs (case ir_modified r of Some t \<Rightarrow> t | None \<Rightarrow> ir_row_updated r) in \<not> (ts \<le> start \<or> stop \<le> ts))
    | None \<Rightarrow> True)"
proof (cases between)
  case (Some ss)
  obtain start stop where ss: "ss = (start, stop)" by fastforce
  note assms = assms[unfolded Some ss]
  obtain a b where d: "date start = Some a" "date stop = Some b" using assms(2) by (auto simp: window_exact_def)
  let ?t = "changed_at r"
  have "a < ?t \<longleftrightarrow> start < secs ?t"
  proof -
    have "?t < a \<longleftrightarrow> secs ?t < start" "secs a = start" using assms(1) d(1) by (auto simp: clock_law_def)
    moreover have "secs ?t = start \<longrightarrow> ?t = a" using assms(2) d(1) by (auto simp: window_exact_def)
    ultimately show ?thesis by (metis linorder_neqE_linordered_idom order_less_asym)
  qed
  moreover have "?t < b \<longleftrightarrow> secs ?t < stop" using assms(1) d(2) by (auto simp: clock_law_def)
  ultimately show ?thesis unfolding Some ss changed_at_def by (cases "ir_modified r") (auto simp: d Let_def)
qed simp

section \<open>The rows found\<close>

text \<open>A search that the statement and the predicate answer alike.\<close>

definition plain_search :: "search_query \<Rightarrow> bool" where
  "plain_search q \<longleftrightarrow>
     sq_numeric_id q = None \<and> sq_kind q = None \<and> sq_sort q \<noteq> Some ''modified'' \<and>
     (\<forall>kw. sq_keyword q = Some kw \<longrightarrow> ascii kw \<and> like_free kw) \<and>
     (\<forall>c. sq_color q = Some c \<longrightarrow> 0 < c) \<and>
     is_i64 (max (sq_page_size q) 1) \<and> is_i64 ((max (sq_page q) 1 - 1) * max (sq_page_size q) 1)"

definition candidate :: "string \<Rightarrow> search_query \<Rightarrow> index_row \<Rightarrow> bool" where
  "candidate u q r \<longleftrightarrow> ir_user r = u \<and> ir_row_deleted r = None \<and>
     (if sq_trashed q then ir_trashed r \<noteq> None \<and> ir_parent r = ''/.recycle_bin'' else ir_trashed r = None)"

text \<open>A table whose rows both ways read alike.\<close>

definition plain_rows ::
  "(int \<Rightarrow> int option) \<Rightarrow> (int \<Rightarrow> int) \<Rightarrow> string \<Rightarrow> search_query \<Rightarrow> index_row list \<Rightarrow> bool" where
  "plain_rows date secs u q rs \<longleftrightarrow>
     root_exact u (sq_root q) rs \<and> (\<forall>r \<in> set rs. ascii_row r \<and> window_exact date secs (sq_between q) r)"

lemma condition_same:
  assumes "\<And>s. ascii s \<Longrightarrow> lower s = to_ascii_lowercase s" "clock_law date secs" "plain_search q"
    and "plain_rows date secs u q rs" "r \<in> set rs"
  shows "build_index_search_condition date u q r \<longleftrightarrow> candidate u q r \<and> indexed_item_matches lower secs u q r"
proof (cases "ir_user r = u")
  case True
  have root: "(sq_root q \<noteq> ''/'' \<longrightarrow>
        ir_path r = sq_root q \<or> like_prefix (trim_end_matches slash (sq_root q) @ ''/'') (ir_path r)) =
      path_matches_root (ir_path r) (sq_root q)"
    using assms(4,5) True by (intro root_same) (simp_all add: plain_rows_def)
  have row: "ascii_row r" "window_exact date secs (sq_between q) r" using assms(4,5) by (simp_all add: plain_rows_def)
  have kw: "(case sq_keyword q of Some kw \<Rightarrow> keyword_condition kw (sq_in_path q) (sq_in_original q) r | None \<Rightarrow> True) =
      (case sq_keyword q of
        Some kw \<Rightarrow> matches_keyword lower (ir_name r) (ir_path r) (ir_original r) kw (sq_in_path q) (sq_in_original q)
      | None \<Rightarrow> True)"
    using assms(3) keyword_same[OF assms(1) _ _ row(1)] by (auto simp: plain_search_def split: option.split)
  have none: "sq_kind q = None" "sq_numeric_id q = None" using assms(3) by (simp_all add: plain_search_def)
  show ?thesis
    unfolding build_index_search_condition_def indexed_item_matches_def root kw window_same[OF assms(2) row(2)] candidate_def
    by (auto simp: none)
qed (simp add: build_index_search_condition_def candidate_def)

lemma by_kind_mset [simp]: "mset (by_kind_and_name rs) = mset rs" "mset (by_kind_and_trash_time rs) = mset rs"
  by (simp_all add: by_kind_and_name_def by_kind_and_trash_time_def order_desc_def order_asc_def)

lemma matches_found:
  assumes "\<And>s. ascii s \<Longrightarrow> lower s = to_ascii_lowercase s" "plain_search q" "plain_rows date secs u q (db_files db)"
  shows "mset (load_index_matches lower secs u q db) =
    mset (filter (\<lambda>r. candidate u q r \<and> indexed_item_matches lower secs u q r) (db_files db))"
proof -
  have mset_if: "mset (filter P xs) = mset (filter R (db_files db))"
    if "mset xs = mset (filter Q (db_files db))" "\<And>r. r \<in> set (db_files db) \<Longrightarrow> P r \<and> Q r \<longleftrightarrow> R r" for P Q R and xs :: "index_row list"
  proof -
    have "mset (filter P xs) = filter_mset P (mset (filter Q (db_files db)))" using that(1) by simp
    also have "\<dots> = mset (filter (\<lambda>r. P r \<and> Q r) (db_files db))" by (simp add: conj_commute flip: mset_filter)
    also have "filter (\<lambda>r. P r \<and> Q r) (db_files db) = filter R (db_files db)" using that(2) by (intro filter_cong) auto
    finally show ?thesis .
  qed
  show ?thesis
  proof (cases "sq_trashed q")
    case True
    have "mset (list_trash u db) = mset (trashed_tops u db)"
      by (simp add: list_trash_def list_trash_stream_with_page_size_def stream_pages_all)
    moreover have "load_index_matches lower secs u q db = filter (indexed_item_matches lower secs u q) (list_trash u db)"
      using True by (simp add: load_index_matches_def)
    ultimately show ?thesis
      unfolding trashed_tops_def using True by (simp only:) (rule mset_if, auto simp: candidate_def)
  next
    case live: False
    show ?thesis
    proof (cases "sq_favorites q")
      case True
      have "mset (list_favorites u (sq_color q) db) =
          mset (filter (\<lambda>r. case sq_color q of Some c \<Rightarrow> ir_favorite r = c | None \<Rightarrow> True) (favorites u db))"
        by (simp add: list_favorites_def list_favorites_stream_with_page_size_def stream_pages_all)
      also have "\<dots> = mset (filter (\<lambda>r. (case sq_color q of Some c \<Rightarrow> ir_favorite r = c | None \<Rightarrow> True) \<and>
          ir_user r = u \<and> 0 < ir_favorite r \<and> ir_trashed r = None \<and> ir_row_deleted r = None) (db_files db))"
        by (simp add: favorites_def conj_commute)
      finally have "mset (filter (indexed_item_matches lower secs u q) (list_favorites u (sq_color q) db)) =
          mset (filter (\<lambda>r. candidate u q r \<and> indexed_item_matches lower secs u q r) (db_files db))"
        by (rule mset_if)
          (use True live assms in \<open>auto simp: candidate_def indexed_item_matches_def plain_search_def split: option.splits\<close>)
      moreover have "load_index_matches lower secs u q db = filter (indexed_item_matches lower secs u q) (list_favorites u (sq_color q) db)"
        using True live by (simp add: load_index_matches_def)
      ultimately show ?thesis by simp
    next
      case False
      have root: "(sq_root q = ''/'' \<or> ir_path r = sq_root q \<or> like_prefix (trim_end_matches slash (sq_root q) @ ''/'') (ir_path r)) =
          path_matches_root (ir_path r) (sq_root q)" if "r \<in> set (db_files db)" "ir_user r = u" for r
        using assms(3) root_same[OF _ that, of "sq_root q"] by (auto simp: plain_rows_def)
      show ?thesis
      proof (cases "sq_keyword q \<noteq> None \<and> \<not> sq_in_path q \<and> \<not> sq_in_original q \<and> sq_root q = ''/'' \<and> sq_between q = None")
        case True
        then obtain kw where kw: "sq_keyword q = Some kw" by auto
        have rows: "load_index_matches lower secs u q db = filter (indexed_item_matches lower secs u q) (search_files u kw db)"
          using live False assms(2) True kw by (simp add: load_index_matches_def plain_search_def)
        have "mset (search_files u kw db) = mset (search_matches u kw db)"
          by (simp add: search_files_def search_files_stream_with_page_size_def stream_pages_all)
        moreover have hit: "like_contains kw (ir_name r) \<longleftrightarrow> find_sub (lower kw) (lower (ir_name r)) \<noteq> None"
          if "r \<in> set (db_files db)" for r
          using assms kw that sql_contains[of kw "ir_name r"]
          by (simp add: like_contains_def plain_search_def plain_rows_def ascii_row_def)
        ultimately show ?thesis
          unfolding rows search_matches_def using live True kw
          by (intro mset_if) (auto simp: candidate_def indexed_item_matches_def matches_keyword_def path_matches_root_def hit)
      next
        case all: False
        have rows: "load_index_matches lower secs u q db =
            filter (indexed_item_matches lower secs u q) (list_files_recursive u (sq_root q) db)"
          using live False assms(2) all by (auto simp: load_index_matches_def plain_search_def)
        show ?thesis
          unfolding rows list_files_recursive_def using live root
          by (intro mset_if[OF refl]) (auto simp: candidate_def indexed_item_matches_def)
      qed
    qed
  qed
qed

text \<open>
  C38: The search in SQL agrees with its reference. Take a search without identifier and kind of media, not ordered
  by modification time, whose keyword, if any, is ASCII without wildcards, whose colour, if any, is positive, and
  whose page fits the 64-bit range. Take a well-formed table with ASCII names and paths in which the pattern of the
  folder is exact (it is the root, or has no wildcard, no slash at its end, and no row lies below a folder that
  differs from it in the case of letters only) and in which, when a time window of proper dates is given, no row
  changed within the second at which it opens, except at its very start. On ASCII texts the standard library
  lower-cases like SQL, and times and seconds fit together. Then the page and the total that the statement returns
  are those of selecting the rows with the predicate, sorting them with the comparison and cutting out the page.
  So asking the second way after the first found nothing finds nothing either.
\<close>

theorem search_agrees_with_reference:
  assumes "\<And>s. ascii s \<Longrightarrow> lower s = to_ascii_lowercase s" "clock_law date secs" "plain_search q"
    and "plain_rows date secs u q (db_files db)" "table_ok (db_files db)" "is_i64 (int (length (db_files db)))"
  shows "load_index_page_matches date u q db = page_of_items q (load_index_matches lower secs u q db)"
proof -
  define rs where "rs = filter (build_index_search_condition date u q) (db_files db)"
  define items where "items = load_index_matches lower secs u q db"
  have "rs = filter (\<lambda>r. candidate u q r \<and> indexed_item_matches lower secs u q r) (db_files db)"
    unfolding rs_def using condition_same[OF assms(1-4)] by (intro filter_cong) auto
  then have same: "mset rs = mset items" by (simp add: items_def matches_found[OF assms(1,3,4)])
  have "inj_on ir_path (set rs)"
    using table_ok_unique[OF assms(5)]
    by (auto simp: inj_on_def rs_def build_index_search_condition_def same_key_def)
  then have sorted: "apply_index_search_sort q rs = sort_items q items"
    using sorted_alike[OF same] assms(3) by (simp add: plain_search_def)
  have len: "length items = length rs" using same by (metis size_mset)
  have "length rs \<le> length (db_files db)" by (simp add: rs_def)
  then have total: "wrap_i64 (int (length rs)) = int (length rs)"
    using assms(6) by (intro wrap_i64_id) (simp add: is_i64_def)
  let ?p = "max (sq_page q) 1 - 1" and ?n = "max (sq_page_size q) 1"
  have i64: "is_i64 (?p * ?n)" using assms(3) by (simp add: plain_search_def)
  have pos: "0 \<le> ?p" by simp
  have "?p * 1 \<le> ?p * ?n" by (rule mult_left_mono[OF _ pos]) simp
  then have le: "?p \<le> ?p * ?n" by (simp only: mult_1_right)
  have "?p < 2 ^ 63" by (rule le_less_trans[OF le]) (use i64 in \<open>simp only: is_i64_def\<close>)
  moreover have "- (2 ^ 63) \<le> ?p" by (rule order_trans[OF _ pos]) simp
  ultimately have "is_i64 ?p" by (simp only: is_i64_def)
  then have offset: "clamp_i64 (clamp_i64 ?p * ?n) = wrap_i64 (?p * ?n)" using i64 by (simp add: wrap_i64_id)
  show ?thesis
  proof (cases "rs = []")
    case True
    then have "items = []" using len by simp
    then show ?thesis
      using True by (simp add: load_index_page_matches_def page_of_items_def Let_def rs_def[symmetric] items_def[symmetric]
          wrap_i64_id is_i64_def sort_items_def order_desc_def order_by_def order_asc_def)
  next
    case False
    then show ?thesis
      by (simp add: load_index_page_matches_def page_of_items_def Let_def rs_def[symmetric] items_def[symmetric] total
          sorted len offset sql_page_def as_u64_def as_usize_def)
  qed
qed

section \<open>Witnesses\<close>

text \<open>A clock that counts milliseconds, and a window from one second before the epoch to two after it.\<close>

definition qx_date :: "int \<Rightarrow> int option" where
  "qx_date s = (if \<bar>s\<bar> < 8000000000000 then Some (1000 * s) else None)"

definition qx_secs :: "int \<Rightarrow> int" where
  "qx_secs t = t div 1000"

lemma qx_clock: "clock_law qx_date qx_secs"
  by (auto simp: clock_law_def qx_date_def qx_secs_def split: if_splits)

definition qx_query :: search_query where
  "qx_query =
     \<lparr>sq_root = ''/'', sq_keyword = Some ''B'', sq_in_path = True, sq_in_original = False, sq_favorites = False,
      sq_trashed = False, sq_color = None, sq_numeric_id = None, sq_kind = None, sq_between = Some (-1, 2),
      sq_sort = Some ''path'', sq_order = Some ''desc'', sq_page = 1, sq_page_size = 1, sq_heal = False\<rparr>"

lemma fx_table_ok: "table_ok (db_files fx_db)"
  using fx_ok by (simp add: db_ok_def)

text \<open>Two of the three rows contain the letter; the page has the one with the greater path.\<close>

lemma search_agrees_with_reference_witness:
  "snd (load_index_page_matches qx_date ''u'' qx_query fx_db) = 2 \<and>
   page_of_items qx_query (load_index_matches to_ascii_lowercase qx_secs ''u'' qx_query fx_db) =
     load_index_page_matches qx_date ''u'' qx_query fx_db"
proof -
  have plain: "plain_search qx_query"
    by (simp add: plain_search_def qx_query_def ascii_def like_free_def is_i64_def)
  have rows: "plain_rows qx_date qx_secs ''u'' qx_query (db_files fx_db)"
    by (simp add: plain_rows_def root_exact_def fx_db_def fx_row_def ascii_row_def ascii_def window_exact_def qx_query_def
        qx_date_def qx_secs_def changed_at_def)
  have "build_index_search_condition qx_date ''u'' qx_query (fx_row ''1'' ''/'' ''a'') = False"
    "build_index_search_condition qx_date ''u'' qx_query (fx_row ''2'' ''/a'' ''b'') = True"
    "build_index_search_condition qx_date ''u'' qx_query (fx_row ''3'' ''/'' ''ab'') = True"
    by code_simp+
  then have "snd (load_index_page_matches qx_date ''u'' qx_query fx_db) = 2"
    by (simp add: load_index_page_matches_def fx_db_def Let_def wrap_i64_def)
  moreover have "load_index_page_matches qx_date ''u'' qx_query fx_db =
      page_of_items qx_query (load_index_matches to_ascii_lowercase qx_secs ''u'' qx_query fx_db)"
    by (rule search_agrees_with_reference[OF refl qx_clock plain rows fx_table_ok]) (simp add: fx_db_def is_i64_def)
  ultimately show ?thesis by simp
qed

text \<open>
  The row that the theorem leaves out: it changed one millisecond after second 0, in which the window opens. The
  statement finds it, the predicate does not.
\<close>

lemma first_second_differs:
  "let q = qx_query\<lparr>sq_between := Some (0, 2)\<rparr>; r = fx_row ''2'' ''/a'' ''b'' in
   build_index_search_condition qx_date ''u'' q r \<and> \<not> indexed_item_matches to_ascii_lowercase qx_secs ''u'' q r"
  by code_simp

end
