(* ===== verification/Temp_Files.thy ===== *)
theory Temp_Files
  imports Prelude
begin

text \<open>
  The temporary files of the process (\<open>utils/temp_file.rs\<close>): creation below the directory of a user, the guards
  that remove a file when they are dropped, and the job that removes what has expired. A path is the list of its
  components below the temp directory; \<open>remove\<close> and \<open>readable\<close> say which paths the file system lets the process
  remove and list, \<open>io\<close> what the operations on a path answer; there are no symbolic links. Guards that remove through a storage
  operator only call it, so they leave the directory alone.
\<close>

section \<open>Directories\<close>

datatype fs_node = FsFile int | FsDir "(string \<times> fs_node) list"

record temp_manager =
  tm_max_age :: int
  tm_active :: "string list list"
  tm_tree :: "(string \<times> fs_node) list option"

text \<open>Writing a node at a path, with the directories above it.\<close>

fun put_node :: "string list \<Rightarrow> fs_node \<Rightarrow> (string \<times> fs_node) list \<Rightarrow> (string \<times> fs_node) list" where
  "put_node [] n es = es"
| "put_node [x] n es = filter (\<lambda>e. fst e \<noteq> x) es @ [(x, n)]"
| "put_node (x # y # p) n es =
     (let sub = (case map_of es x of Some (FsDir s) \<Rightarrow> s | _ \<Rightarrow> []) in
      filter (\<lambda>e. fst e \<noteq> x) es @ [(x, FsDir (put_node (y # p) n sub))])"

fun remove_node :: "string list \<Rightarrow> (string \<times> fs_node) list \<Rightarrow> (string \<times> fs_node) list" where
  "remove_node [] es = es"
| "remove_node [x] es = filter (\<lambda>e. fst e \<noteq> x) es"
| "remove_node (x # y # p) es =
     map (\<lambda>e. if fst e = x then (x, case snd e of FsDir s \<Rightarrow> FsDir (remove_node (y # p) s) | FsFile t \<Rightarrow> FsFile t) else e) es"

definition in_tree :: "((string \<times> fs_node) list \<Rightarrow> (string \<times> fs_node) list) \<Rightarrow> temp_manager \<Rightarrow> temp_manager" where
  "in_tree f m = m\<lparr>tm_tree := Some (f (case tm_tree m of Some es \<Rightarrow> es | None \<Rightarrow> []))\<rparr>"

section \<open>Creating and dropping\<close>

text \<open>The suffix repeats one letter, which depends on the process.\<close>

definition temp_filename :: "string \<Rightarrow> string \<Rightarrow> nat \<Rightarrow> string" where
  "temp_filename pre timestamp pid =
     pre @ ''_'' @ timestamp @ ''_'' @ replicate 8 (char_of (97 + (pid mod 256) mod 26))"

definition create_user_temp ::
  "fs_node \<Rightarrow> (string list \<Rightarrow> string option) \<Rightarrow> string \<Rightarrow> string \<Rightarrow> temp_manager \<Rightarrow> (string + string list) \<times> temp_manager" where
  "create_user_temp node io u name m =
     (case io [u] of
        Some err \<Rightarrow> (Inl err, m)
      | None \<Rightarrow>
          (let m1 = in_tree (\<lambda>es. if map_of es u = None then put_node [u] (FsDir []) es else es) m in
           case io [u, name] of
             Some err \<Rightarrow> (Inl err, m1)
           | None \<Rightarrow> (Inr [u, name], (in_tree (put_node [u, name] node) m1)\<lparr>tm_active := [u, name] # tm_active m1\<rparr>)))"

definition create_user_temp_file ::
  "(string list \<Rightarrow> string option) \<Rightarrow> int \<Rightarrow> string \<Rightarrow> string \<Rightarrow> temp_manager \<Rightarrow> (string + string list) \<times> temp_manager" where
  "create_user_temp_file io now u name m = create_user_temp (FsFile now) io u name m"

definition create_user_temp_dir ::
  "(string list \<Rightarrow> string option) \<Rightarrow> string \<Rightarrow> string \<Rightarrow> temp_manager \<Rightarrow> (string + string list) \<times> temp_manager" where
  "create_user_temp_dir io u name m = create_user_temp (FsDir []) io u name m"

text \<open>
  A guard is dropped: \<open>free\<close> when the lock of the active list could be taken at once, \<open>cleanup\<close> unless the guard was
  told not to, \<open>via_storage\<close> when the storage removes the file.
\<close>

fun node_exists :: "string list \<Rightarrow> (string \<times> fs_node) list \<Rightarrow> bool" where
  "node_exists [] es = True"
| "node_exists [x] es = (map_of es x \<noteq> None)"
| "node_exists (x # y # p) es = (case map_of es x of Some (FsDir s) \<Rightarrow> node_exists (y # p) s | _ \<Rightarrow> False)"

definition remove_path :: "string list \<Rightarrow> temp_manager \<Rightarrow> temp_manager" where
  "remove_path path m = m\<lparr>tm_tree := map_option (remove_node path) (tm_tree m)\<rparr>"

definition drop_temp_guard ::
  "(string list \<Rightarrow> string option) \<Rightarrow> bool \<Rightarrow> bool \<Rightarrow> bool \<Rightarrow> string list \<Rightarrow> temp_manager \<Rightarrow> temp_manager" where
  "drop_temp_guard io free cleanup via_storage path m =
     (let m1 = (if free then m\<lparr>tm_active := removeAll path (tm_active m)\<rparr> else m) in
      if cleanup \<and> \<not> via_storage \<and> io path = None then remove_path path m1 else m1)"

definition cleanup_immediately :: "(string list \<Rightarrow> string option) \<Rightarrow> string list \<Rightarrow> temp_manager \<Rightarrow> (string + unit) \<times> temp_manager" where
  "cleanup_immediately io path m =
     (let m1 = m\<lparr>tm_active := removeAll path (tm_active m)\<rparr> in
      if \<not> (case tm_tree m of Some es \<Rightarrow> node_exists path es | None \<Rightarrow> False) then (Inr (), m1)
      else (case io path of Some err \<Rightarrow> (Inl err, m1) | None \<Rightarrow> (Inr (), remove_path path m1)))"

section \<open>What has expired\<close>

record temp_clean =
  tc_active :: "string list list"
  tc_cutoff :: int
  tc_remove :: "string list \<Rightarrow> bool"
  tc_readable :: "string list \<Rightarrow> string option"

fun clean_entries ::
  "temp_clean \<Rightarrow> string list \<Rightarrow> (string \<times> fs_node) list \<Rightarrow> nat \<Rightarrow> (string + nat) \<times> (string \<times> fs_node) list" where
  "clean_entries c path [] n = (Inr n, [])"
| "clean_entries c path ((x, FsFile t) # es) n =
     (let p = path @ [x] in
      if p \<notin> set (tc_active c) \<and> t < tc_cutoff c \<and> tc_remove c p then clean_entries c path es (n + 1)
      else (case clean_entries c path es n of (r, rest) \<Rightarrow> (r, (x, FsFile t) # rest)))"
| "clean_entries c path ((x, FsDir sub) # es) n =
     (let p = path @ [x] in
      case tc_readable c p of
        Some err \<Rightarrow> (Inl err, (x, FsDir sub) # es)
      | None \<Rightarrow>
          (case clean_entries c p sub n of
             (Inl err, sub1) \<Rightarrow> (Inl err, (x, FsDir sub1) # es)
           | (Inr n1, sub1) \<Rightarrow>
               (case clean_entries c path es n1 of
                  (r, rest) \<Rightarrow> (r, if sub1 = [] \<and> tc_remove c p then rest else (x, FsDir sub1) # rest))))"

definition cleanup_temp_files ::
  "(string list \<Rightarrow> bool) \<Rightarrow> (string list \<Rightarrow> string option) \<Rightarrow> int \<Rightarrow> temp_manager \<Rightarrow> (string + nat) \<times> temp_manager" where
  "cleanup_temp_files remove readable now m =
     (case tm_tree m of
        None \<Rightarrow> (Inr 0, m)
      | Some es \<Rightarrow>
          (case readable [] of
             Some err \<Rightarrow> (Inl err, m)
           | None \<Rightarrow>
               (case clean_entries \<lparr>tc_active = tm_active m, tc_cutoff = now - tm_max_age m, tc_remove = remove,
                                    tc_readable = readable\<rparr> [] es 0 of
                  (r, es1) \<Rightarrow> (r, m\<lparr>tm_tree := Some es1\<rparr>))))"

section \<open>Which files are left\<close>

fun files_in :: "string list \<Rightarrow> (string \<times> fs_node) list \<Rightarrow> (string list \<times> int) list" where
  "files_in path [] = []"
| "files_in path ((x, FsFile t) # es) = (path @ [x], t) # files_in path es"
| "files_in path ((x, FsDir sub) # es) = files_in (path @ [x]) sub @ files_in path es"

definition expired_file :: "temp_clean \<Rightarrow> string list \<times> int \<Rightarrow> bool" where
  "expired_file c x \<longleftrightarrow> fst x \<notin> set (tc_active c) \<and> snd x < tc_cutoff c \<and> tc_remove c (fst x)"

lemma cleaned_files:
  "clean_entries c path es n = (Inr n', es') \<Longrightarrow>
   files_in path es' = filter (\<lambda>x. \<not> expired_file c x) (files_in path es) \<and>
   n' = n + length (filter (expired_file c) (files_in path es))"
proof (induction c path es n arbitrary: n' es' rule: clean_entries.induct)
  case (1 c path n)
  then show ?case by simp
next
  case (2 c path x t es n)
  let ?p = "path @ [x]"
  show ?case
  proof (cases "?p \<notin> set (tc_active c) \<and> t < tc_cutoff c \<and> tc_remove c ?p")
    case True
    then have "clean_entries c path es (n + 1) = (Inr n', es')" using "2.prems" by (simp add: Let_def)
    from "2.IH"(1)[OF refl True this] True show ?thesis by (simp add: expired_file_def)
  next
    case False
    then obtain rest where r: "clean_entries c path es n = (Inr n', rest)" "es' = (x, FsFile t) # rest"
      using "2.prems" by (auto simp: Let_def split: prod.splits if_splits)
    from "2.IH"(2)[OF refl False r(1)] False r(2) show ?thesis by (auto simp: expired_file_def)
  qed
next
  case (3 c path x sub es n)
  let ?p = "path @ [x]"
  from "3.prems" obtain n1 sub1 rest where r: "tc_readable c ?p = None" "clean_entries c ?p sub n = (Inr n1, sub1)"
      "clean_entries c path es n1 = (Inr n', rest)"
      "es' = (if sub1 = [] \<and> tc_remove c ?p then rest else (x, FsDir sub1) # rest)"
    by (auto simp: Let_def split: prod.splits sum.splits option.splits)
  have one: "files_in ?p sub1 = filter (\<lambda>x. \<not> expired_file c x) (files_in ?p sub)"
      "n1 = n + length (filter (expired_file c) (files_in ?p sub))"
    using "3.IH"(1)[OF refl r(1,2)] by simp_all
  have two: "files_in path rest = filter (\<lambda>x. \<not> expired_file c x) (files_in path es)"
      "n' = n1 + length (filter (expired_file c) (files_in path es))"
    using "3.IH"(2)[OF refl r(1) r(2)[symmetric] refl] r(3) by auto
  show ?case using one two r(4) by (auto split: if_splits)
qed

text \<open>
  C40: The clean-up job removes exactly the files that are not in use, older than the limit and removable, and counts
  them. Use is recorded by path: marking a directory as in use does not protect the files in it, although the
  directories of running archive tasks are marked for that purpose.
\<close>

theorem temp_cleanup_exact:
  assumes "cleanup_temp_files remove readable now m = (Inr n, m')" "tm_tree m = Some es"
  shows "\<exists>es'. tm_tree m' = Some es' \<and>
    files_in [] es' = filter (\<lambda>x. fst x \<in> set (tm_active m) \<or> now - tm_max_age m \<le> snd x \<or> \<not> remove (fst x)) (files_in [] es) \<and>
    n = length (files_in [] es) - length (files_in [] es')"
proof -
  let ?c = "\<lparr>tc_active = tm_active m, tc_cutoff = now - tm_max_age m, tc_remove = remove, tc_readable = readable\<rparr>"
  obtain es' where r: "clean_entries ?c [] es 0 = (Inr n, es')" "m' = m\<lparr>tm_tree := Some es'\<rparr>"
    using assms by (auto simp: cleanup_temp_files_def split: option.splits prod.splits)
  have f: "files_in [] es' = filter (\<lambda>x. \<not> expired_file ?c x) (files_in [] es)"
      "n = length (filter (expired_file ?c) (files_in [] es))"
    using cleaned_files[OF r(1)] by simp_all
  have "(\<lambda>x. \<not> expired_file ?c x) = (\<lambda>x. fst x \<in> set (tm_active m) \<or> now - tm_max_age m \<le> snd x \<or> \<not> remove (fst x))"
    by (auto simp: expired_file_def fun_eq_iff)
  then show ?thesis
    using f r(2) sum_length_filter_compl[of "expired_file ?c" "files_in [] es"] by (simp add: not_less)
qed

text \<open>A directory in use with an old file in it.\<close>

definition tx_manager :: temp_manager where
  "tx_manager = \<lparr>tm_max_age = 60, tm_active = [[''u'', ''d''], [''u'', ''f'']],
     tm_tree = Some [(''u'', FsDir [(''d'', FsDir [(''x'', FsFile 1)]), (''f'', FsFile 1)])]\<rparr>"

lemma temp_cleanup_exact_witness:
  "\<exists>es'. tm_tree (snd (cleanup_temp_files (\<lambda>p. True) (\<lambda>p. None) 100 tx_manager)) = Some es' \<and>
     files_in [] es' = [([''u'', ''f''], 1)]"
proof -
  obtain m' where r: "cleanup_temp_files (\<lambda>p. True) (\<lambda>p. None) 100 tx_manager = (Inr 1, m')"
    by (simp add: cleanup_temp_files_def tx_manager_def)
  have t: "tm_tree tx_manager = Some [(''u'', FsDir [(''d'', FsDir [(''x'', FsFile 1)]), (''f'', FsFile 1)])]"
    by (simp add: tx_manager_def)
  from temp_cleanup_exact[OF r t] show ?thesis using r by (auto simp: tx_manager_def)
qed

end
