(* ===== verification/Spec2Isabelle.thy ===== *)
theory Spec2Isabelle
  imports Share_Access Cache_Policy Maintenance Read_Cache Write_Cache_Claims File_Index_Claims File_Query
    Share_Service User_Settings Pool_Claims Engine_Claims Engine_Pages Wal_Recovery_Claims Move_Locks Protected_Claims
    Mounted_Claims Mount_Sync_Claims Batch_Claims Upkeep Search_Claims Temp_Files
begin

text \<open>
  The storage hub keeps the files of many tenants on shared storage backends. A request of a user reaches a scoped
  engine, which validates the path, asks the quota, logs the operation in a journal table, changes the storage
  through a pool with a read cache and a write-back cache, and brings a file index (a database table) in step. After
  a crash the journal is replayed.

  \<^bold>\<open>Theories and code\<close> (paths below \<open>src/src/\<close>).
  \<^item> \<open>Prelude\<close>: errors and file infos (\<open>vfs/error.rs\<close>, \<open>vfs/types.rs\<close>), results as sums with \<open>res_bind\<close> and
    \<open>st_bind\<close>, 64-bit counters, string slices, \<open>std::path\<close>, SQL strings and ordering, association lists.
  \<^item> \<open>Paths\<close>: validation of client paths, the map between logical and physical paths (\<open>vfs/scoped/internal.rs\<close>).
  \<^item> \<open>Share_Access\<close>: the containment test of shared directories (\<open>utils/share_access.rs\<close>).
  \<^item> \<open>Metrics\<close>, \<open>Cache_Policy\<close>, \<open>Cache_Store\<close>, \<open>Operator\<close>: counters (\<open>vfs/metrics.rs\<close>), which paths are cached
    (\<open>vfs/cache/policy.rs\<close>), the local files of the caches, and the storage operator. The operator is a crate
    (OpenDAL): the record of functions \<open>'p operator\<close>. What a property relies on is among its hypotheses: a write
    reads back (\<open>lawful_op\<close>); what was streamed reads back once it is closed, and a rename carries it over
    (\<open>streaming_op\<close>); each answer about an object agrees with its bytes or is an error (\<open>serves\<close>). The laws are
    shown for a finite map with failures.
  \<^item> \<open>Read_Cache\<close>, \<open>Write_Cache\<close>, \<open>Write_Back\<close>, \<open>Write_Cache_Claims\<close>: \<open>vfs/cache/read_cache.rs\<close>,
    \<open>vfs/cache/write_cache.rs\<close>, \<open>vfs/journal.rs\<close>. Entries of the write cache are shared mutable objects, so they
    live in a heap; its operations are split where the code drops the lock, and \<open>Write_Back\<close> is the step relation of
    these sections.
  \<^item> \<open>Pool\<close>, \<open>Pool_Claims\<close>: \<open>vfs/pool.rs\<close>, primary and backup operator with the caches in front.
  \<^item> \<open>Index_Table\<close>, \<open>File_Index\<close>, \<open>File_Index_Claims\<close>, \<open>File_Query\<close>: the index table with its unique keys
    (\<open>business/services/db_init.rs\<close>, \<open>business/entities\<close>) and every statement of
    \<open>business/services/file_index_service.rs\<close>; a transaction that fails leaves the table as it was.
  \<^item> \<open>Share_Service\<close>, \<open>User_Settings\<close>: \<open>business/services/shares.rs\<close>, \<open>business/services/user_settings.rs\<close> and
    the quota functions of \<open>vfs/scoped/internal.rs\<close>.
  \<^item> \<open>Maintenance\<close>, \<open>Move_Locks\<close>: the users locked by a recovery (\<open>vfs/maintenance_mode.rs\<close>), the per-directory
    mutexes (\<open>vfs/maintenance/sync_guard.rs\<close>), and the two mutexes a move takes (\<open>vfs/scoped/write.rs\<close>), as step
    relations.
  \<^item> \<open>Wal\<close>: the journal table (\<open>vfs/wal/mod.rs\<close>, \<open>vfs/wal/entity.rs\<close>).
  \<^item> \<open>Engine\<close>, \<open>Engine_Ops\<close>, \<open>Engine_Trash\<close>, \<open>Engine_Pages\<close>: the scoped engine (\<open>vfs/scoped/read.rs\<close>,
    \<open>write.rs\<close>, \<open>ops.rs\<close>, \<open>internal.rs\<close>) over a \<open>world\<close> of index, settings, journal, pool and temp directory.
  \<^item> \<open>Hub\<close>, \<open>Wal_Recovery\<close>: routing and default settings (\<open>vfs/hub.rs\<close>), and the replay of the journal
    (\<open>vfs/wal/mod.rs\<close>), which makes an engine for each row.
  \<^item> \<open>Engine_Journal\<close>, \<open>Engine_Example\<close>, \<open>Engine_Claims\<close>, \<open>Wal_Recovery_Claims\<close>: what the engine and the
    recovery guarantee.
  \<^item> \<open>Protected_Codec\<close>, \<open>Protected_Ops\<close>, \<open>Protected_Claims\<close>: encrypted and masked files, the codec
    (\<open>vfs/protected.rs\<close>) with its header, its counter-mode ranges and its table of MACs, and the operations of the
    engine on such files (\<open>vfs/scoped/protected.rs\<close>).
  \<^item> \<open>Storage_Trait\<close>: the storage interface (\<open>vfs/traits.rs\<close>) as a record of its methods over a world, with its
    default methods; the engine (\<open>vfs/scoped/storage_impl.rs\<close>) and the pool are values of it.
  \<^item> \<open>Remote_Mounts\<close>: the table of remote mounts (\<open>business/services/remote_mounts.rs\<close>).
  \<^item> \<open>Mounted\<close>, \<open>Mount_Sync\<close>, \<open>Mounted_Claims\<close>, \<open>Mount_Sync_Claims\<close>: a user storage with mounts and its
    synchronisation (\<open>vfs/mounted.rs\<close>). The locales \<open>tree_walk\<close> and \<open>tree_copy\<close> say what the recursion over trees
    relies on; they are interpreted on a remote pool.
  \<^item> \<open>Batch\<close>, \<open>Batch_Claims\<close>: background tasks over lists of paths (\<open>vfs/batch.rs\<close>, \<open>vfs/scoped/batch.rs\<close>).
  \<^item> \<open>Search\<close>, \<open>Search_Claims\<close>: the indexed search, as an SQL statement and as a predicate on rows
    (\<open>business/services/search.rs\<close>), with the identifiers and media kinds of \<open>business/services/nextcloud.rs\<close>.
  \<^item> \<open>Upkeep\<close>, \<open>Temp_Files\<close>: the periodic jobs (\<open>vfs/maintenance/mod.rs\<close>) and the temporary files of the process
    (\<open>utils/temp_file.rs\<close>).

  \<^bold>\<open>What is shown.\<close> Paths of a user stay below the user's directory and those of two users are disjoint. The read
  cache returns what was put last, stays within its bounds once it is, and evicts the least recently used entry; the write cache
  refines a map from paths to contents, whatever flushes happen in between; the pool never returns stale data and
  its ranges are slices. The index keeps its keys and its tenants apart; an upsert is found, a move relocates a
  subtree, trash and restore are inverse, a directory sync leaves exactly the listed rows; the streams deliver every
  row. A whole-file write leaves storage, index, quota and journal in agreement or changes no quota and completes no
  journal row; the journal is append-only for all requests; a recovery settles every row it can replay, keeps those
  it cannot, and unlocks every user. Moves along one order of directories always return. A protected file reads back
  on every range, and its MACs accept exactly the bytes they were made for. A path belongs to the mount with the
  longest directory; moving between mounts returns when the listings go down, whether or not the mounts share a
  remote, and changes the source only when the destination, another object, has its bytes; a mirror deletes what the source does not list; the targets of a batch are distinct and
  its log accounts for every item. The search in SQL agrees with the one on rows; the clean-up of temporary files
  removes exactly what has expired and is not in use. Several theorems show where the code does less than it means
  to; they state the exact situation.

  \<^bold>\<open>Bounds and fuel.\<close> No definition uses fuel: loops run over lists (rows, chunks, entries), and the paging loops
  recurse on what is left to fetch. The recursion over trees of \<open>vfs/mounted.rs\<close> has no bound in the code, so it is a
  \<open>partial_function\<close> over the list of calls still to make, and \<open>None\<close> means that it never returns; that it returns is
  proved for listings that go down to a bounded depth. So is the loop that empties the recycle bins in \<open>Upkeep\<close>,
  whose turns each have their own clock and their own changes by the rest of the process. Sizes are \<open>64 word\<close> where the code adds and subtracts them; quota arithmetic
  saturates or wraps as written; lengths of strings are natural numbers, and a property about sizes assumes contents
  shorter than 2^63 bytes.

  \<^bold>\<open>Conventions.\<close> A Rust string is the list of its UTF-8 bytes. A clock is read once for an engine operation.
  A time is an integer; it counts seconds where the code adds seconds or days to it (the journal, the shares, the
  retention of the recycle bin, which is within the dates of chrono), and the search, which mixes times and whole
  seconds, converts explicitly. A share whose expiry is no date panics.
  The database is SQLite: \<open>LIKE\<close> takes ASCII letters of both cases as equal and has no escape character (PostgreSQL
  tells the cases apart and takes a backslash for an escape), NULL sorts first, and sums of the database do not overflow; the texts of I/O errors and
  of ambiguous recoveries are shortened. Iteration over a hash map is the order of a list. Operations that run
  concurrently in a batch run in the order of their completion; what had happened when
  the timer of a task fired first is a parameter, as is the progress in \<open>f32\<close>. Percent-decoding, SHA-256, Argon2, random identifiers,
  JSON, HKDF, AES and HMAC, the licence, lower-casing outside ASCII, the table of roles and the file system errors are parameters. The cell that keeps
  the protected plan is the field \<open>eg_plan\<close>. A refresh of the index in the background is a run of its own.

  \<^bold>\<open>Not modelled.\<close> The directory listing cache (an external key-value store) and log lines; the configuration
  (defaults, serialisation and getters) and the SSH keys of users; compression, media and thumbnails (external
  processes) with the tasks that submit video work; the mobile backends (platform calls); the connectors and the
  database DDL.
\<close>

end
